(* ===== verification/Prelude.thy ===== *)
theory Prelude
  imports Main "HOL-Library.AList"
begin

text \<open>
  Shared vocabulary of the development: the JavaScript values, containers and string
  operations that the modelled TypeScript uses, with the generic lemmas about them.

  \<^item> A JavaScript \<open>Map\<close> iterates in insertion order, \<open>set\<close> on a present key keeps the
    position and \<open>delete\<close> removes the entry: exactly \<^const>\<open>AList.update\<close> and
    \<^const>\<open>AList.delete\<close> on an association list.
  \<^item> A JavaScript string is a \<^typ>\<open>string\<close>; one \<^typ>\<open>char\<close> stands for one code unit.
  \<^item> A thrown error is the left side of a sum, \<open>Inl e\<close>; a returned value is \<open>Inr v\<close>.
  \<^item> A JSON value is a \<open>json\<close>; an object keeps its members in insertion order, so that
    equality of two values is equality of their \<open>JSON.stringify\<close> texts.
\<close>

named_theorems machine_simps \<open>equations that evaluate the steps of the modelled components\<close>
named_theorems js_simps \<open>rewriting of the JavaScript containers\<close>

subsection \<open>JavaScript maps as association lists\<close>

type_synonym ('k, 'v) jsmap = "('k \<times> 'v) list"

abbreviation js_get :: "('k, 'v) jsmap \<Rightarrow> 'k \<Rightarrow> 'v option" where
  "js_get m k \<equiv> map_of m k"

abbreviation js_set :: "'k \<Rightarrow> 'v \<Rightarrow> ('k, 'v) jsmap \<Rightarrow> ('k, 'v) jsmap" where
  "js_set k v m \<equiv> AList.update k v m"

abbreviation js_delete :: "'k \<Rightarrow> ('k, 'v) jsmap \<Rightarrow> ('k, 'v) jsmap" where
  "js_delete k m \<equiv> AList.delete k m"

abbreviation js_keys :: "('k, 'v) jsmap \<Rightarrow> 'k list" where
  "js_keys m \<equiv> List.map fst m"

abbreviation js_values :: "('k, 'v) jsmap \<Rightarrow> 'v list" where
  "js_values m \<equiv> List.map snd m"

definition js_has :: "('k, 'v) jsmap \<Rightarrow> 'k \<Rightarrow> bool" where
  "js_has m k = (js_get m k \<noteq> None)"

lemma js_has_iff: "js_has m k \<longleftrightarrow> k \<in> set (js_keys m)"
  by (simp add: js_has_def map_of_eq_None_iff)

lemma js_get_set [simp]: "js_get (js_set k v m) k' = (if k' = k then Some v else js_get m k')"
  by (simp add: update_conv')

lemma js_get_delete [simp]: "js_get (js_delete k m) k' = (if k' = k then None else js_get m k')"
  by (simp add: delete_conv')

lemma js_set_absent: "k \<notin> set (js_keys m) \<Longrightarrow> js_set k v m = m @ [(k, v)]"
  by (induction m) auto

lemma js_keys_set:
  "js_keys (js_set k v m) = (if k \<in> set (js_keys m) then js_keys m else js_keys m @ [k])"
  by (induction m) auto

lemma distinct_js_set [simp]: "distinct (js_keys m) \<Longrightarrow> distinct (js_keys (js_set k v m))"
  by (rule distinct_update)

lemma distinct_js_delete [simp]: "distinct (js_keys m) \<Longrightarrow> distinct (js_keys (js_delete k m))"
  by (rule distinct_delete)

lemma js_get_mem: "js_get m k = Some v \<Longrightarrow> (k, v) \<in> set m"
  by (rule map_of_SomeD)

lemma js_mem_get: "distinct (js_keys m) \<Longrightarrow> (k, v) \<in> set m \<Longrightarrow> js_get m k = Some v"
  by simp

lemma js_get_Some_iff: "distinct (js_keys m) \<Longrightarrow> js_get m k = Some v \<longleftrightarrow> (k, v) \<in> set m"
  by simp

lemma set_js_set:
  "distinct (js_keys m) \<Longrightarrow>
   set (js_set k v m) = {(k', v'). (k', v') \<in> set m \<and> k' \<noteq> k} \<union> {(k, v)}"
proof -
  assume d: "distinct (js_keys m)"
  have "\<And>a b. (a, b) \<in> set (js_set k v m) \<longleftrightarrow> js_get (js_set k v m) a = Some b"
    using d by (simp only: js_get_Some_iff distinct_js_set)
  then show ?thesis using d by (auto split: if_splits)
qed

lemma set_js_delete: "set (js_delete k m) = {(k', v'). (k', v') \<in> set m \<and> k' \<noteq> k}"
  by (auto simp: AList.delete_eq)

lemma js_delete_absent: "k \<notin> set (js_keys m) \<Longrightarrow> js_delete k m = m"
  by (induction m) auto

text \<open>\<open>new Set(xs).size === xs.length\<close> and its kin compare a list with its duplicates removed.\<close>

lemma card_set_eq_length: "card (set xs) = length xs \<longleftrightarrow> distinct xs"
  using card_distinct distinct_card by blast

subsection \<open>Arrays\<close>

text \<open>\<open>xs.indexOf(x)\<close>: \<open>None\<close> is \<open>-1\<close>.\<close>

fun index_of :: "'a \<Rightarrow> 'a list \<Rightarrow> nat option" where
  "index_of x [] = None"
| "index_of x (y # ys) = (if x = y then Some 0 else map_option Suc (index_of x ys))"

lemma index_of_None_iff [simp]: "index_of x xs = None \<longleftrightarrow> x \<notin> set xs"
  by (induction xs) auto

lemma index_of_Some: "index_of x xs = Some i \<Longrightarrow> i < length xs \<and> xs ! i = x"
  by (induction xs arbitrary: i) (auto split: if_splits simp: nth_Cons')

lemma index_of_ex: "x \<in> set xs \<Longrightarrow> \<exists>i. index_of x xs = Some i"
  using index_of_None_iff [of x xs] by (cases "index_of x xs") auto

lemma index_of_take: "index_of x xs = Some i \<Longrightarrow> x \<notin> set (take i xs)"
  by (induction xs arbitrary: i) (auto split: if_splits)

lemma index_of_nth: "distinct xs \<Longrightarrow> i < length xs \<Longrightarrow> index_of (xs ! i) xs = Some i"
proof (induction xs arbitrary: i)
  case (Cons y ys)
  then show ?case by (cases i) auto
qed simp

text \<open>\<open>xs.splice(i, 0, x)\<close> and \<open>xs.splice(i, 1)\<close> for an index within bounds.\<close>

definition splice_in :: "nat \<Rightarrow> 'a \<Rightarrow> 'a list \<Rightarrow> 'a list" where
  "splice_in i x xs = take i xs @ x # drop i xs"

definition splice_out :: "nat \<Rightarrow> 'a list \<Rightarrow> 'a list" where
  "splice_out i xs = take i xs @ drop (Suc i) xs"

lemma set_splice_in [simp]: "set (splice_in i x xs) = insert x (set xs)"
proof -
  have "set xs = set (take i xs) \<union> set (drop i xs)"
    by (metis append_take_drop_id set_append)
  then show ?thesis by (auto simp: splice_in_def)
qed

lemma distinct_append_Cons: "distinct (ys @ x # zs) \<longleftrightarrow> x \<notin> set (ys @ zs) \<and> distinct (ys @ zs)"
  by auto

lemma distinct_splice_in [simp]:
  "distinct (splice_in i x xs) \<longleftrightarrow> x \<notin> set xs \<and> distinct xs"
  unfolding splice_in_def distinct_append_Cons append_take_drop_id ..

lemma length_splice_in [simp]: "length (splice_in i x xs) = Suc (length xs)"
  by (simp add: splice_in_def)

lemma map_splice_in: "List.map f (splice_in i x xs) = splice_in i (f x) (List.map f xs)"
  by (simp add: splice_in_def take_map drop_map)

lemma map_splice_out: "List.map f (splice_out i xs) = splice_out i (List.map f xs)"
  by (simp add: splice_out_def take_map drop_map)

lemma length_splice_out: "i < length xs \<Longrightarrow> length (splice_out i xs) = length xs - 1"
  by (simp add: splice_out_def)

lemma set_splice_out_subset: "set (splice_out i xs) \<subseteq> set xs"
  by (auto simp: splice_out_def dest: in_set_takeD in_set_dropD)

lemma splice_out_nths: "splice_out i xs = nths xs (- {i})"
proof (induction xs arbitrary: i)
  case (Cons x xs)
  have "nths xs {j. Suc j \<in> - {i}} = (case i of 0 \<Rightarrow> xs | Suc k \<Rightarrow> nths xs (- {k}))"
    by (auto split: nat.split intro!: arg_cong [where f = "nths xs"] simp: nths_all)
  then show ?case
    using Cons.IH by (cases i) (auto simp: splice_out_def nths_Cons)
qed (simp add: splice_out_def)

lemma distinct_splice_out: "distinct xs \<Longrightarrow> distinct (splice_out i xs)"
  by (simp add: splice_out_nths)

lemma splice_in_out: "i < length xs \<Longrightarrow> splice_in i (xs ! i) (splice_out i xs) = xs"
  by (simp add: splice_in_def splice_out_def min_def id_take_nth_drop [symmetric])

subsection \<open>Strings\<close>

definition starts_with :: "string \<Rightarrow> string \<Rightarrow> bool" where
  "starts_with p s = (take (length p) s = p)"

lemma starts_with_append [simp]: "starts_with p (p @ s)"
  by (simp add: starts_with_def)

definition ends_with :: "string \<Rightarrow> string \<Rightarrow> bool" where
  "ends_with p s = (length p \<le> length s \<and> drop (length s - length p) s = p)"

text \<open>The white space that \<open>trim\<close> removes, among the representable code units.\<close>

definition is_space :: "char \<Rightarrow> bool" where
  "is_space c = (let n = of_char c :: nat in 9 \<le> n \<and> n \<le> 13 \<or> n = 32 \<or> n = 160)"

definition trim :: "string \<Rightarrow> string" where
  "trim s = rev (dropWhile is_space (rev (dropWhile is_space s)))"

definition nonblank :: "string \<Rightarrow> bool" where
  "nonblank s = (trim s \<noteq> [])"

lemma nonblank_not_empty: "nonblank s \<Longrightarrow> s \<noteq> []"
  by (auto simp: nonblank_def trim_def)

text \<open>A text that is absent or empty is falsy.\<close>

definition truthy :: "string option \<Rightarrow> string option" where
  "truthy x = (case x of Some v \<Rightarrow> if v = [] then None else Some v | None \<Rightarrow> None)"

lemma truthy_None_iff: "truthy x = None \<longleftrightarrow> x = None \<or> x = Some []"
  by (auto simp: truthy_def split: option.splits)

lemma truthy_Some_iff: "truthy x = Some v \<longleftrightarrow> x = Some v \<and> v \<noteq> []"
  by (auto simp: truthy_def split: option.splits)

text \<open>ASCII lower case, which is \<open>toLowerCase\<close> on the strings the code compares.\<close>

definition lower_char :: "char \<Rightarrow> char" where
  "lower_char c = (let n = of_char c :: nat in if 65 \<le> n \<and> n \<le> 90 then char_of (n + 32) else c)"

definition to_lower :: "string \<Rightarrow> string" where
  "to_lower s = List.map lower_char s"

fun str_includes :: "string \<Rightarrow> string \<Rightarrow> bool" where
  "str_includes [] p = (p = [])"
| "str_includes (c # s) p = (starts_with p (c # s) \<or> str_includes s p)"

text \<open>Code-unit order, JavaScript's \<open><\<close> on strings.\<close>

fun str_less :: "string \<Rightarrow> string \<Rightarrow> bool" where
  "str_less [] t = (t \<noteq> [])"
| "str_less (c # s) [] = False"
| "str_less (c # s) (d # t) =
     ((of_char c :: nat) < of_char d \<or> c = d \<and> str_less s t)"

lemma str_less_irrefl [simp]: "\<not> str_less s s"
  by (induction s) auto

lemma str_less_trans: "str_less a b \<Longrightarrow> str_less b c \<Longrightarrow> str_less a c"
proof (induction a b arbitrary: c rule: str_less.induct)
  case (1 t)
  then show ?case by (cases c; cases t) auto
next
  case (3 x s y t)
  then show ?case by (cases c) auto
qed simp

lemma str_less_linear: "str_less a b \<or> a = b \<or> str_less b a"
proof (induction a b rule: str_less.induct)
  case (1 t)
  then show ?case by (cases t) auto
next
  case (3 x s y t)
  then show ?case by (metis linorder_neq_iff of_char_eq_iff str_less.simps(3))
qed simp

subsection \<open>JSON values\<close>

text \<open>
  Numbers: \<open>JInt\<close> for a double that holds an integer, \<open>JFrac\<close> (its text) for any other.
\<close>

datatype json =
    JNull
  | JBool bool
  | JInt int
  | JFrac string
  | JStr string
  | JArr "json list"
  | JObj "(string \<times> json) list"

definition max_safe_integer :: int where
  "max_safe_integer = 9007199254740991"

fun is_safe_integer :: "json \<Rightarrow> bool" where
  "is_safe_integer (JInt n) = (- max_safe_integer \<le> n \<and> n \<le> max_safe_integer)"
| "is_safe_integer _ = False"

text \<open>\<open>obj[name]\<close>; \<open>None\<close> is \<open>undefined\<close>.\<close>

fun jfield :: "json \<Rightarrow> string \<Rightarrow> json option" where
  "jfield (JObj kvs) name = map_of kvs name"
| "jfield _ _ = None"

fun is_record :: "json \<Rightarrow> bool" where
  "is_record (JObj _) = True"
| "is_record _ = False"

subsection \<open>Errors as values\<close>

definition bindE :: "'e + 'a \<Rightarrow> ('a \<Rightarrow> 'e + 'b) \<Rightarrow> 'e + 'b" where
  "bindE r f = (case r of Inl e \<Rightarrow> Inl e | Inr a \<Rightarrow> f a)"

lemma bindE_simps [simp]: "bindE (Inl e) f = Inl e" "bindE (Inr a) f = f a"
  by (simp_all add: bindE_def)

lemma bindE_Inr_iff: "bindE r f = Inr b \<longleftrightarrow> (\<exists>a. r = Inr a \<and> f a = Inr b)"
  by (cases r) auto

lemma bindE_InrE:
  assumes "bindE r f = Inr b"
  obtains a where "r = Inr a" and "f a = Inr b"
  using assms by (auto simp: bindE_Inr_iff)

lemma if_InlE:
  assumes "(if c then Inl e else r) = Inr b"
  obtains "\<not> c" and "r = Inr b"
  using assms by (cases c) auto

lemma if_NoneE:
  assumes "(if c then Inr None else r) = Inr (Some b)"
  obtains "\<not> c" and "r = Inr (Some b)"
  using assms by (cases c) auto

lemma bindE_Inl_iff: "bindE r f = Inl e \<longleftrightarrow> r = Inl e \<or> (\<exists>a. r = Inr a \<and> f a = Inl e)"
  by (cases r) auto

subsection \<open>Machines: a step function with an invariant\<close>

text \<open>
  Every stateful component is a step function over its operations. The locale lifts an
  invariant from one step to any sequence of operations.
\<close>

locale machine =
  fixes step :: "'s \<Rightarrow> 'op \<Rightarrow> 's"
    and inv :: "'s \<Rightarrow> bool"
  assumes step_inv: "inv s \<Longrightarrow> inv (step s e)"
begin

lemma run_inv: "inv s \<Longrightarrow> inv (foldl step s es)"
  by (induction es arbitrary: s) (auto intro: step_inv)

lemma run_prefix_inv: "inv s \<Longrightarrow> es = pre @ post \<Longrightarrow> inv (foldl step s pre)"
  by (rule run_inv)

end

end
