(* ===== verification/Records.thy ===== *)
theory Records
  imports Complex_Main Prelude
begin

text \<open>
  The persisted records of the mapping store: \<open>packages/mapping-store/src/records.ts\<close> with the
  native references of \<open>packages/shared-contracts/src/native-refs.ts\<close>.

  A \<open>zod\<close> schema is a predicate here: \<open>schema.parse(x)\<close> succeeds iff the predicate holds. The
  literal field \<open>formatVersion: 1\<close> has one value and is left out. A timestamp that passes
  \<open>isoDateSchema\<close> is represented by its epoch milliseconds. The fields a schema lets through
  unread (\<open>passthrough\<close>) are kept in an \<open>extra\<close> field.
\<close>

type_synonym harness_id = string
type_synonym host_thread_id = string
type_synonym host_turn_id = string
type_synonym timestamp = int

subsection \<open>Native references\<close>

record native_session_ref =
  ns_harnessId :: harness_id
  ns_nativeSessionId :: string
  ns_locator :: "json option"

record native_turn_ref =
  nt_harnessId :: harness_id
  nt_nativeSessionId :: string
  nt_nativeTurnKey :: string

record native_checkpoint_ref =
  nc_harnessId :: harness_id
  nc_nativeSessionId :: string
  nc_checkpointId :: string
  nc_locator :: "json option"

definition nativeSessionRef_ok :: "native_session_ref \<Rightarrow> bool" where
  "nativeSessionRef_ok r = (nonblank (ns_harnessId r) \<and> nonblank (ns_nativeSessionId r))"

definition nativeTurnRef_ok :: "native_turn_ref \<Rightarrow> bool" where
  "nativeTurnRef_ok r =
     (nonblank (nt_harnessId r) \<and> nonblank (nt_nativeSessionId r) \<and> nonblank (nt_nativeTurnKey r))"

definition nativeCheckpointRef_ok :: "native_checkpoint_ref \<Rightarrow> bool" where
  "nativeCheckpointRef_ok r =
     (nonblank (nc_harnessId r) \<and> nonblank (nc_nativeSessionId r) \<and> nonblank (nc_checkpointId r))"

subsection \<open>Field schemas\<close>

definition text_max :: "nat \<Rightarrow> string \<Rightarrow> bool" where
  "text_max n s = (nonblank s \<and> length s \<le> n)"

definition filename_char :: "char \<Rightarrow> bool" where
  "filename_char c =
     (let n = of_char c :: nat
      in 65 \<le> n \<and> n \<le> 90 \<or> 97 \<le> n \<and> n \<le> 122 \<or> 48 \<le> n \<and> n \<le> 57 \<or>
         c = CHR ''.'' \<or> c = CHR ''_'' \<or> c = CHR ''~'' \<or> c = CHR ''-'')"

definition storedHostThreadId_ok :: "string \<Rightarrow> bool" where
  "storedHostThreadId_ok s = (nonblank s \<and> s \<noteq> [] \<and> list_all filename_char s)"

definition opt_ok :: "('a \<Rightarrow> bool) \<Rightarrow> 'a option \<Rightarrow> bool" where
  "opt_ok p x = (case x of None \<Rightarrow> True | Some v \<Rightarrow> p v)"

lemma opt_ok_simps [simp]: "opt_ok p None" "opt_ok p (Some v) = p v"
  by (simp_all add: opt_ok_def)

subsection \<open>Thread records\<close>

record turn_mapping =
  tm_hostTurnId :: host_turn_id
  tm_nativeTurnRef :: native_turn_ref
  tm_nativeCheckpointRef :: "native_checkpoint_ref option"

definition turnMapping_ok :: "turn_mapping \<Rightarrow> bool" where
  "turnMapping_ok m =
     (nonblank (tm_hostTurnId m) \<and> nativeTurnRef_ok (tm_nativeTurnRef m) \<and>
      opt_ok nativeCheckpointRef_ok (tm_nativeCheckpointRef m))"

datatype thread_state = Creating | Ready
datatype history_mode = Legacy | Paginated

record fork_source =
  fs_hostThreadId :: host_thread_id
  fs_hostTurnId :: host_turn_id

record subagent_info =
  sa_parentHostThreadId :: host_thread_id
  sa_nativeSubagentId :: string
  sa_role :: "string option"

record git_info =
  gi_branch :: "string option"
  gi_originUrl :: "string option"
  gi_sha :: "string option"

definition gitInfo_ok :: "git_info \<Rightarrow> bool" where
  "gitInfo_ok g =
     (opt_ok (text_max 4096) (gi_branch g) \<and> opt_ok (text_max 16384) (gi_originUrl g) \<and>
      opt_ok (text_max 1024) (gi_sha g))"

record projectless_workspace =
  pw_workspaceRoot :: string
  pw_outputDirectory :: string

record usage_measurement =
  um_value :: rat
  um_turnId :: string
  um_at :: int

definition usageMeasurement_ok :: "usage_measurement \<Rightarrow> bool" where
  "usageMeasurement_ok m =
     (0 \<le> um_value m \<and> um_turnId m \<noteq> [] \<and> length (um_turnId m) \<le> 1024 \<and>
      0 \<le> um_at m \<and> um_at m \<le> max_safe_integer)"

record usage_measurements =
  um_outputTokensPerSecond :: "usage_measurement option"
  um_timeToFirstOutputMs :: "usage_measurement option"

definition usageMeasurements_ok :: "usage_measurements \<Rightarrow> bool" where
  "usageMeasurements_ok u =
     (opt_ok usageMeasurement_ok (um_outputTokensPerSecond u) \<and>
      opt_ok (\<lambda>m. usageMeasurement_ok m \<and> um_value m = of_int \<lfloor>um_value m\<rfloor> \<and>
                  um_value m \<le> of_int max_safe_integer)
        (um_timeToFirstOutputMs u))"

record stored_usage =
  su_nativeSessionRef :: native_session_ref
  su_values :: usage_measurements

text \<open>The fields the Thread record file owns (\<open>storedThreadCoreV1Shape\<close>).\<close>

record thread_core =
  tr_revision :: int
  tr_hostThreadId :: host_thread_id
  tr_createRequestId :: string
  tr_harnessId :: harness_id
  tr_state :: thread_state
  tr_nativeSessionRef :: "native_session_ref option"
  tr_importSourceRef :: "native_session_ref option"
  tr_cwd :: string
  tr_title :: string
  tr_archived :: bool
  tr_transportModelId :: string
  tr_ephemeral :: bool
  tr_historyMode :: history_mode
  tr_forkSource :: "fork_source option"
  tr_subagent :: "subagent_info option"
  tr_turnMappings :: "turn_mapping list"
  tr_createdAt :: timestamp
  tr_updatedAt :: timestamp
  tr_extra :: "(string \<times> json) list"

text \<open>With the Desktop metadata (\<open>storedThreadMetadataFieldsShape\<close>): a whole record.\<close>

record thread_record = thread_core +
  tr_usageMeasurements :: "stored_usage option"
  tr_preview :: "string option"
  tr_projectId :: "string option"
  tr_projectlessWorkspace :: "projectless_workspace option"
  tr_daybreakEnabled :: "bool option"
  tr_gitInfo :: "git_info option"

text \<open>The metadata file (\<open>storedThreadMetadataV1Schema\<close>); unknown members in \<open>md_extra\<close>.\<close>

record thread_metadata =
  md_hostThreadId :: host_thread_id
  md_usageMeasurements :: "stored_usage option"
  md_preview :: "string option"
  md_projectId :: "string option"
  md_projectlessWorkspace :: "projectless_workspace option"
  md_daybreakEnabled :: "bool option"
  md_gitInfo :: "git_info option"
  md_extra :: "(string \<times> json) list"

definition nativeTurnRefKey :: "native_turn_ref \<Rightarrow> string" where
  "nativeTurnRefKey r =
     nt_harnessId r @ [CHR 0x00] @ nt_nativeSessionId r @ [CHR 0x00] @ nt_nativeTurnKey r"

definition nativeTurnKey :: "turn_mapping \<Rightarrow> string" where
  "nativeTurnKey m = nativeTurnRefKey (tm_nativeTurnRef m)"

definition nativeSessionKey :: "native_session_ref \<Rightarrow> string" where
  "nativeSessionKey r = ns_harnessId r @ [CHR 0x00] @ ns_nativeSessionId r"

text \<open>
  The checks one mapping gets in the loop of \<open>refineThreadRecord\<close>: its references name the
  Thread's Harness, and the Thread's Native Session where the Thread has one.
\<close>

definition turn_refs_ok :: "harness_id \<Rightarrow> native_session_ref option \<Rightarrow> turn_mapping \<Rightarrow> bool" where
  "turn_refs_ok h session m =
     (let inSession = (\<lambda>sid. case session of None \<Rightarrow> True | Some s \<Rightarrow> sid = ns_nativeSessionId s)
      in nt_harnessId (tm_nativeTurnRef m) = h \<and> inSession (nt_nativeSessionId (tm_nativeTurnRef m)) \<and>
         opt_ok (\<lambda>c. nc_harnessId c = h \<and> inSession (nc_nativeSessionId c))
           (tm_nativeCheckpointRef m))"

fun refine_mappings ::
  "harness_id \<Rightarrow> native_session_ref option \<Rightarrow> string list \<Rightarrow> string list \<Rightarrow> turn_mapping list \<Rightarrow> bool"
where
  "refine_mappings h session hostTurnIds nativeTurnKeys [] = True"
| "refine_mappings h session hostTurnIds nativeTurnKeys (m # ms) =
     (tm_hostTurnId m \<notin> set hostTurnIds \<and> nativeTurnKey m \<notin> set nativeTurnKeys \<and>
      turn_refs_ok h session m \<and>
      refine_mappings h session (tm_hostTurnId m # hostTurnIds) (nativeTurnKey m # nativeTurnKeys) ms)"

definition refineThreadRecord :: "'a thread_core_scheme \<Rightarrow> bool" where
  "refineThreadRecord r =
     ((tr_state r = Ready \<longrightarrow> tr_nativeSessionRef r \<noteq> None) \<and>
      opt_ok (\<lambda>s. ns_harnessId s = tr_harnessId r) (tr_nativeSessionRef r) \<and>
      opt_ok (\<lambda>s. ns_harnessId s = tr_harnessId r) (tr_importSourceRef r) \<and>
      (tr_importSourceRef r = None \<or> tr_subagent r = None) \<and>
      refine_mappings (tr_harnessId r) (tr_nativeSessionRef r) [] [] (tr_turnMappings r))"

definition threadCore_ok :: "'a thread_core_scheme \<Rightarrow> bool" where
  "threadCore_ok r =
     (0 < tr_revision r \<and> storedHostThreadId_ok (tr_hostThreadId r) \<and>
      text_max 1024 (tr_createRequestId r) \<and> nonblank (tr_harnessId r) \<and>
      opt_ok nativeSessionRef_ok (tr_nativeSessionRef r) \<and>
      opt_ok nativeSessionRef_ok (tr_importSourceRef r) \<and>
      text_max 16384 (tr_cwd r) \<and> length (tr_title r) \<le> 4096 \<and>
      text_max 1024 (tr_transportModelId r) \<and>
      opt_ok (\<lambda>f. nonblank (fs_hostThreadId f) \<and> nonblank (fs_hostTurnId f)) (tr_forkSource r) \<and>
      opt_ok (\<lambda>a. nonblank (sa_parentHostThreadId a) \<and> text_max 1024 (sa_nativeSubagentId a) \<and>
                  opt_ok (\<lambda>s. length s \<le> 1024) (sa_role a)) (tr_subagent r) \<and>
      list_all turnMapping_ok (tr_turnMappings r))"

definition storedUsage_ok :: "stored_usage \<Rightarrow> bool" where
  "storedUsage_ok u = (nativeSessionRef_ok (su_nativeSessionRef u) \<and> usageMeasurements_ok (su_values u))"

definition projectlessWorkspace_ok :: "projectless_workspace \<Rightarrow> bool" where
  "projectlessWorkspace_ok w =
     (text_max 16384 (pw_workspaceRoot w) \<and> text_max 16384 (pw_outputDirectory w))"

definition metadataFields_ok :: "thread_record \<Rightarrow> bool" where
  "metadataFields_ok r =
     (opt_ok (\<lambda>s. length s \<le> 4096) (tr_preview r) \<and> opt_ok (text_max 1024) (tr_projectId r) \<and>
      opt_ok projectlessWorkspace_ok (tr_projectlessWorkspace r) \<and> opt_ok gitInfo_ok (tr_gitInfo r))"

text \<open>
  \<open>storedThreadRecordV1Schema.parse\<close>: \<open>None\<close> is the thrown \<open>ZodError\<close>. An invalid measurement is
  dropped rather than refused (\<open>.optional().catch(undefined)\<close>).
\<close>

definition catch_usage :: "stored_usage option \<Rightarrow> stored_usage option" where
  "catch_usage u = (if opt_ok storedUsage_ok u then u else None)"

definition record_ok :: "thread_record \<Rightarrow> bool" where
  "record_ok r = (threadCore_ok r \<and> metadataFields_ok r \<and> refineThreadRecord r)"

definition parse_record :: "thread_record \<Rightarrow> thread_record option" where
  "parse_record r =
     (if record_ok r then Some (r\<lparr>tr_usageMeasurements := catch_usage (tr_usageMeasurements r)\<rparr>)
      else None)"

subsection \<open>Delegation records\<close>

datatype delegation_status = DCreating | DRunning | DCompleted | DFailed | DInterrupted

record delegation_record =
  dl_revision :: int
  dl_delegationId :: host_thread_id
  dl_parentHostThreadId :: host_thread_id
  dl_childHostThreadId :: host_thread_id
  dl_sourceHarnessId :: harness_id
  dl_targetHarnessId :: harness_id
  dl_status :: delegation_status
  dl_requestId :: "string option"
  dl_taskDigest :: string
  dl_createdAt :: timestamp
  dl_updatedAt :: timestamp

definition hex_char :: "char \<Rightarrow> bool" where
  "hex_char c = (let n = of_char c :: nat in 97 \<le> n \<and> n \<le> 102 \<or> 48 \<le> n \<and> n \<le> 57)"

definition delegation_ok :: "delegation_record \<Rightarrow> bool" where
  "delegation_ok d =
     (0 < dl_revision d \<and> storedHostThreadId_ok (dl_delegationId d) \<and>
      nonblank (dl_parentHostThreadId d) \<and> nonblank (dl_childHostThreadId d) \<and>
      nonblank (dl_sourceHarnessId d) \<and> nonblank (dl_targetHarnessId d) \<and>
      opt_ok (text_max 1024) (dl_requestId d) \<and>
      length (dl_taskDigest d) = 64 \<and> list_all hex_char (dl_taskDigest d) \<and>
      dl_parentHostThreadId d \<noteq> dl_childHostThreadId d)"

subsection \<open>Inputs of the store's operations\<close>

record create_provisional_input =
  cp_hostThreadId :: host_thread_id
  cp_createRequestId :: string
  cp_harnessId :: harness_id
  cp_importSourceRef :: "native_session_ref option"
  cp_cwd :: string
  cp_title :: "string option"
  cp_transportModelId :: string
  cp_ephemeral :: bool
  cp_historyMode :: history_mode
  cp_projectlessWorkspace :: "projectless_workspace option"
  cp_forkSource :: "fork_source option"
  cp_subagent :: "subagent_info option"

record rebind_subagent_input =
  rb_hostThreadId :: host_thread_id
  rb_parentHostThreadId :: host_thread_id
  rb_previousNativeSessionRef :: native_session_ref
  rb_nativeSessionRef :: native_session_ref
  rb_createRequestId :: string

record replace_ready_input =
  rr_hostThreadId :: host_thread_id
  rr_expectedRevision :: int
  rr_expectedNativeSessionRef :: native_session_ref
  rr_nativeSessionRef :: native_session_ref
  rr_turnMappings :: "turn_mapping list"
  rr_forkSource :: fork_source

record replace_after_last_input =
  ra_hostThreadId :: host_thread_id
  ra_expectedRevision :: int
  ra_expectedNativeSessionRef :: native_session_ref
  ra_nativeSessionRef :: native_session_ref
  ra_turnMappings :: "turn_mapping list"

record create_delegation_input =
  cd_delegationId :: host_thread_id
  cd_parentHostThreadId :: host_thread_id
  cd_childHostThreadId :: host_thread_id
  cd_sourceHarnessId :: harness_id
  cd_targetHarnessId :: harness_id
  cd_status :: "delegation_status option"
  cd_requestId :: "string option"
  cd_taskDigest :: string

text \<open>A patch member: absent, \<open>null\<close> (clears the stored value) or a value.\<close>

datatype 'a patch = Unchanged | Clear | Put 'a

record git_info_patch =
  gp_branch :: "string patch"
  gp_originUrl :: "string patch"
  gp_sha :: "string patch"

record metadata_patch =
  mp_preview :: "string patch"
  mp_projectId :: "string patch"
  mp_projectlessWorkspace :: "projectless_workspace patch"
  mp_daybreakEnabled :: "bool option"
  mp_gitInfo :: "git_info_patch option"

subsection \<open>What the schema guarantees\<close>

lemma refine_mappings_iff:
  "refine_mappings h session hs ks ms \<longleftrightarrow>
     distinct (List.map tm_hostTurnId ms) \<and> set (List.map tm_hostTurnId ms) \<inter> set hs = {} \<and>
     distinct (List.map nativeTurnKey ms) \<and> set (List.map nativeTurnKey ms) \<inter> set ks = {} \<and>
     (\<forall>m\<in>set ms. turn_refs_ok h session m)"
  by (induction ms arbitrary: hs ks) auto

lemma refineThreadRecord_distinct:
  assumes "refineThreadRecord r"
  shows "distinct (List.map tm_hostTurnId (tr_turnMappings r))"
    and "distinct (List.map nativeTurnKey (tr_turnMappings r))"
    and "\<And>m. m \<in> set (tr_turnMappings r) \<Longrightarrow> turn_refs_ok (tr_harnessId r) (tr_nativeSessionRef r) m"
  using assms by (auto simp: refineThreadRecord_def refine_mappings_iff)

lemma record_ok_ids:
  assumes "record_ok r"
  shows "tr_hostThreadId r \<noteq> []" and "tr_createRequestId r \<noteq> []"
    and "\<And>m. m \<in> set (tr_turnMappings r) \<Longrightarrow> tm_hostTurnId m \<noteq> []"
  using assms
  by (auto simp: record_ok_def threadCore_ok_def storedHostThreadId_ok_def text_max_def list_all_iff
      turnMapping_ok_def dest: nonblank_not_empty)

lemma record_ok_distinct:
  assumes "record_ok r"
  shows "distinct (List.map tm_hostTurnId (tr_turnMappings r))"
    and "distinct (List.map nativeTurnKey (tr_turnMappings r))"
  using assms by (auto simp: record_ok_def dest: refineThreadRecord_distinct)

lemma record_ok_usage [simp]: "record_ok (r\<lparr>tr_usageMeasurements := u\<rparr>) = record_ok r"
  by (simp add: record_ok_def threadCore_ok_def metadataFields_ok_def refineThreadRecord_def)

lemma parse_record_Some:
  assumes "parse_record r = Some p"
  shows "record_ok p" and "p = r\<lparr>tr_usageMeasurements := catch_usage (tr_usageMeasurements r)\<rparr>"
  using assms by (auto simp: parse_record_def split: if_splits)

lemma catch_usage_idem [simp]: "catch_usage (catch_usage u) = catch_usage u"
  by (simp add: catch_usage_def)

lemma parse_record_idem: "parse_record r = Some p \<Longrightarrow> parse_record p = Some p"
  by (auto simp: parse_record_def split: if_splits)

end
