(* ===== verification/Metadata.thy ===== *)
theory Metadata
  imports Records
begin

text \<open>
  The pure functions of \<open>packages/mapping-store/src/mapping-store.ts\<close> over one record: the
  removal of credentials from a Git remote, the split of a record into its Thread file and its
  metadata file, and the Desktop metadata patch.

  The WHATWG URL parser is not part of the repository. It is the parameter \<open>url_lib\<close>:
  \<open>parse_url\<close> is \<open>new URL(value)\<close> (\<open>None\<close> when it throws) and \<open>print_url\<close> is
  \<open>url.toString()\<close> after the user name and password were assigned.
\<close>

subsection \<open>Credentials in remotes\<close>

record whatwg_url =
  url_protocol :: string
  url_username :: string
  url_password :: string
  url_host :: string
  url_rest :: string

record url_lib =
  parse_url :: "string \<Rightarrow> whatwg_url option"
  print_url :: "whatwg_url \<Rightarrow> string"

definition is_alpha :: "char \<Rightarrow> bool" where
  "is_alpha c = (let n = of_char c :: nat in 65 \<le> n \<and> n \<le> 90 \<or> 97 \<le> n \<and> n \<le> 122)"

definition scheme_char :: "char \<Rightarrow> bool" where
  "scheme_char c =
     (is_alpha c \<or> (let n = of_char c :: nat in 48 \<le> n \<and> n \<le> 57) \<or>
      c = CHR ''+'' \<or> c = CHR ''.'' \<or> c = CHR ''-'')"

text \<open>\<open>/^([a-z][a-z0-9+.-]*):\/\//i.exec(value)?.[1]\<close>\<close>

definition url_scheme :: "string \<Rightarrow> string option" where
  "url_scheme value =
     (let p = takeWhile scheme_char value
      in if p \<noteq> [] \<and> is_alpha (hd p) \<and> starts_with ''://'' (drop (length p) value) then Some p else None)"

definition last_index_of :: "'a \<Rightarrow> 'a list \<Rightarrow> nat option" where
  "last_index_of x xs = map_option (\<lambda>i. length xs - Suc i) (index_of x (rev xs))"

definition url_authority :: "string \<Rightarrow> string" where
  "url_authority value =
     (case url_scheme value of
        Some p \<Rightarrow> takeWhile (\<lambda>c. c \<notin> set ''/?#'') (drop (length p + 3) value)
      | None \<Rightarrow> takeWhile (\<lambda>c. c \<noteq> CHR ''/'') value)"

definition withoutUnparsedUrlCredentials :: "string \<Rightarrow> string" where
  "withoutUnparsedUrlCredentials value =
     (let scheme = url_scheme value;
          authorityStart = (case scheme of Some p \<Rightarrow> length p + 3 | None \<Rightarrow> 0);
          authority = url_authority value;
          atSign = (if scheme \<noteq> None then last_index_of (CHR ''@'') authority
                else index_of (CHR ''@'') authority)
      in case atSign of
           None \<Rightarrow> value
         | Some i \<Rightarrow>
             let userInfo = take i authority;
                 keepUser = (case scheme of
                     Some p \<Rightarrow> to_lower p = ''ssh'' \<or> to_lower p = ''git+ssh''
                   | None \<Rightarrow> True);
                 kept = (if keepUser \<and> CHR '':'' \<notin> set userInfo then userInfo @ ''@'' else [])
             in take authorityStart value @ kept @ drop (authorityStart + i + 1) value)"

definition withoutUrlCredentials :: "url_lib \<Rightarrow> string \<Rightarrow> string" where
  "withoutUrlCredentials lib value =
     (case parse_url lib value of
        None \<Rightarrow> withoutUnparsedUrlCredentials value
      | Some url \<Rightarrow>
          if url_host url = [] then withoutUnparsedUrlCredentials value
          else
            let keepUser = (url_protocol url = ''ssh:'' \<or> url_protocol url = ''git+ssh:'')
            in if url_password url = [] \<and> (keepUser \<or> url_username url = []) then value
               else print_url lib
                      (if keepUser then url\<lparr>url_password := []\<rparr>
                       else url\<lparr>url_password := [], url_username := []\<rparr>))"

subsection \<open>Thread file and metadata file\<close>

definition threadMetadataOf :: "thread_record \<Rightarrow> thread_metadata option" where
  "threadMetadataOf r =
     (if tr_usageMeasurements r = None \<and> tr_preview r = None \<and> tr_projectId r = None \<and>
         tr_projectlessWorkspace r = None \<and> tr_daybreakEnabled r = None \<and> tr_gitInfo r = None
      then None
      else Some \<lparr>md_hostThreadId = tr_hostThreadId r,
                 md_usageMeasurements = tr_usageMeasurements r,
                 md_preview = tr_preview r,
                 md_projectId = tr_projectId r,
                 md_projectlessWorkspace = tr_projectlessWorkspace r,
                 md_daybreakEnabled = tr_daybreakEnabled r,
                 md_gitInfo = tr_gitInfo r,
                 md_extra = []\<rparr>)"

text \<open>
  The destructuring names five of the six metadata fields, so \<open>usageMeasurements\<close> stays in the
  object written to the Thread file.
\<close>

definition withoutThreadMetadata :: "thread_record \<Rightarrow> thread_record" where
  "withoutThreadMetadata r =
     r\<lparr>tr_preview := None, tr_projectId := None, tr_projectlessWorkspace := None,
       tr_daybreakEnabled := None, tr_gitInfo := None\<rparr>"

definition assign_field :: "'a option \<Rightarrow> 'a option \<Rightarrow> 'a option" where
  "assign_field new old = (case new of None \<Rightarrow> old | Some v \<Rightarrow> Some v)"

lemma assign_field_simps [simp]: "assign_field None old = old" "assign_field (Some v) old = Some v"
  "assign_field new None = new" "assign_field x x = x"
  by (simp_all add: assign_field_def split: option.split)

definition withThreadMetadata :: "thread_record \<Rightarrow> thread_metadata \<Rightarrow> thread_record" where
  "withThreadMetadata r md =
     (let core = withoutThreadMetadata r
      in core\<lparr>tr_usageMeasurements := assign_field (md_usageMeasurements md) (tr_usageMeasurements core),
              tr_preview := assign_field (md_preview md) (tr_preview core),
              tr_projectId := assign_field (md_projectId md) (tr_projectId core),
              tr_projectlessWorkspace :=
                assign_field (md_projectlessWorkspace md) (tr_projectlessWorkspace core),
              tr_daybreakEnabled := assign_field (md_daybreakEnabled md) (tr_daybreakEnabled core),
              tr_gitInfo := assign_field (md_gitInfo md) (tr_gitInfo core)\<rparr>)"

subsection \<open>The metadata patch\<close>

definition patch_field :: "'a patch \<Rightarrow> 'a option \<Rightarrow> 'a option" where
  "patch_field p current = (case p of Unchanged \<Rightarrow> current | Clear \<Rightarrow> None | Put v \<Rightarrow> Some v)"

text \<open>A member of the merged Git info: kept when truthy, i.e. neither absent nor empty text.\<close>

definition git_member :: "string patch \<Rightarrow> string option \<Rightarrow> string option" where
  "git_member p current =
     (case patch_field p current of Some v \<Rightarrow> if v = [] then None else Some v | None \<Rightarrow> None)"

definition merge_git_info :: "url_lib \<Rightarrow> git_info option \<Rightarrow> git_info_patch \<Rightarrow> git_info option" where
  "merge_git_info lib current p =
     (let cur = (\<lambda>f. case current of None \<Rightarrow> None | Some g \<Rightarrow> f g);
          branch = git_member (gp_branch p) (cur gi_branch);
          originUrl = map_option (withoutUrlCredentials lib) (git_member (gp_originUrl p) (cur gi_originUrl));
          sha = git_member (gp_sha p) (cur gi_sha)
      in if branch = None \<and> originUrl = None \<and> sha = None then None
         else Some \<lparr>gi_branch = branch, gi_originUrl = originUrl, gi_sha = sha\<rparr>)"

definition applyThreadMetadataPatch :: "url_lib \<Rightarrow> thread_record \<Rightarrow> metadata_patch \<Rightarrow> thread_record" where
  "applyThreadMetadataPatch lib current p =
     current\<lparr>tr_preview := patch_field (mp_preview p) (tr_preview current),
             tr_projectId := patch_field (mp_projectId p) (tr_projectId current),
             tr_projectlessWorkspace :=
               patch_field (mp_projectlessWorkspace p) (tr_projectlessWorkspace current),
             tr_daybreakEnabled := assign_field (mp_daybreakEnabled p) (tr_daybreakEnabled current),
             tr_gitInfo :=
               (case mp_gitInfo p of
                  None \<Rightarrow> tr_gitInfo current
                | Some g \<Rightarrow> merge_git_info lib (tr_gitInfo current) g)\<rparr>"

text \<open>\<open>Object.keys(patch).every((key) => key === "preview")\<close>\<close>

definition previewOnly :: "metadata_patch \<Rightarrow> bool" where
  "previewOnly p =
     (mp_projectId p = Unchanged \<and> mp_projectlessWorkspace p = Unchanged \<and>
      mp_daybreakEnabled p = None \<and> mp_gitInfo p = None)"

subsection \<open>Lemmas: files and records\<close>

lemma threadMetadataOf_None_iff:
  "threadMetadataOf r = None \<longleftrightarrow>
     tr_usageMeasurements r = None \<and> tr_preview r = None \<and> tr_projectId r = None \<and>
     tr_projectlessWorkspace r = None \<and> tr_daybreakEnabled r = None \<and> tr_gitInfo r = None"
  by (simp add: threadMetadataOf_def)

text \<open>The two files of a record, read back, give the record.\<close>

definition load_record :: "thread_record \<Rightarrow> thread_metadata option \<Rightarrow> thread_record" where
  "load_record f md = (case md of Some m \<Rightarrow> withThreadMetadata f m | None \<Rightarrow> f)"

lemma load_written_record: "load_record (withoutThreadMetadata r) (threadMetadataOf r) = r"
  by (cases r)
    (simp add: load_record_def threadMetadataOf_def withThreadMetadata_def withoutThreadMetadata_def Let_def)

lemma withoutThreadMetadata_idem [simp]:
  "withoutThreadMetadata (withoutThreadMetadata r) = withoutThreadMetadata r"
  by (simp add: withoutThreadMetadata_def)

lemma withoutThreadMetadata_core [simp]:
  "tr_hostThreadId (withoutThreadMetadata r) = tr_hostThreadId r"
  "tr_state (withoutThreadMetadata r) = tr_state r"
  "tr_usageMeasurements (withoutThreadMetadata r) = tr_usageMeasurements r"
  by (simp_all add: withoutThreadMetadata_def)

lemma record_ok_withoutThreadMetadata: "record_ok r \<Longrightarrow> record_ok (withoutThreadMetadata r)"
  by (simp add: record_ok_def threadCore_ok_def metadataFields_ok_def refineThreadRecord_def
      withoutThreadMetadata_def)

subsection \<open>Lemmas: credentials\<close>

lemma index_of_rev_last:
  "last_index_of x xs = Some i \<Longrightarrow> i < length xs \<and> xs ! i = x \<and> x \<notin> set (drop (Suc i) xs)"
proof -
  assume "last_index_of x xs = Some i"
  then obtain j where j: "index_of x (rev xs) = Some j" and i: "i = length xs - Suc j"
    by (auto simp: last_index_of_def)
  have b: "j < length xs" "rev xs ! j = x" "x \<notin> set (take j (rev xs))"
    using index_of_Some [OF j] index_of_take [OF j] by auto
  have "take j (rev xs) = rev (drop (length xs - j) xs)" by (simp add: take_rev)
  moreover have "Suc i = length xs - j" using b(1) i by simp
  ultimately have "x \<notin> set (drop (Suc i) xs)" using b(3) by simp
  moreover have "xs ! i = x" using b i by (simp add: rev_nth)
  ultimately show ?thesis using b(1) i by simp
qed

lemma url_scheme_Some:
  assumes "url_scheme v = Some p"
  shows "p = takeWhile scheme_char v" and "p \<noteq> []" and "is_alpha (hd p)"
    and "take (length p + 3) v = p @ ''://''"
proof -
  from assms show p: "p = takeWhile scheme_char v" and ne: "p \<noteq> []" and al: "is_alpha (hd p)"
    by (auto simp: url_scheme_def Let_def split: if_splits)
  from assms have sw: "take 3 (drop (length p) v) = ''://''"
    by (auto simp: url_scheme_def Let_def starts_with_def numeral_3_eq_3 split: if_splits)
  have "take (length p) v = p" unfolding p by (metis takeWhile_eq_take)
  then show "take (length p + 3) v = p @ ''://''" using sw by (simp add: take_add)
qed

text \<open>The scheme survives a change behind the slashes.\<close>

lemma url_scheme_prefix:
  assumes "url_scheme v = Some p"
  shows "url_scheme (p @ ''://'' @ w) = Some p"
proof -
  have all: "\<forall>c\<in>set p. scheme_char c"
    using url_scheme_Some(1) [OF assms] set_takeWhileD by metis
  have colon: "\<not> scheme_char (CHR '':'')" by (simp add: scheme_char_def is_alpha_def)
  have "takeWhile scheme_char (p @ ''://'' @ w) = p"
    using all colon by (simp add: takeWhile_append2)
  then show ?thesis
    using url_scheme_Some(2,3) [OF assms] by (simp add: url_scheme_def starts_with_def)
qed

text \<open>What the fallback leaves of the authority when the scheme is not an ssh one.\<close>

lemma takeWhile_drop: "i \<le> length (takeWhile P xs) \<Longrightarrow> takeWhile P (drop i xs) = drop i (takeWhile P xs)"
proof (induction xs arbitrary: i)
  case (Cons x xs)
  then show ?case by (cases i) (auto split: if_splits)
qed simp

lemma unparsed_scheme_authority:
  assumes sch: "url_scheme v = Some p" and no_ssh: "to_lower p \<noteq> ''ssh''" "to_lower p \<noteq> ''git+ssh''"
  shows "CHR ''@'' \<notin> set (url_authority (withoutUnparsedUrlCredentials v))"
proof (cases "last_index_of (CHR ''@'') (url_authority v)")
  case None
  then have "withoutUnparsedUrlCredentials v = v"
    by (simp add: withoutUnparsedUrlCredentials_def sch)
  then show ?thesis using None by (simp add: last_index_of_def)
next
  case (Some i)
  let ?P = "\<lambda>c. c \<notin> set ''/?#''" and ?rest = "drop (length p + 3) v"
  have auth: "url_authority v = takeWhile ?P ?rest" by (simp add: url_authority_def sch)
  note at = index_of_rev_last [OF Some]
  have "withoutUnparsedUrlCredentials v = take (length p + 3) v @ drop (length p + 3 + i + 1) v"
    using no_ssh by (simp add: withoutUnparsedUrlCredentials_def sch Some)
  also have "\<dots> = p @ ''://'' @ drop (Suc i) ?rest"
    using url_scheme_Some(4) [OF sch] by (simp add: add.commute)
  finally have res: "withoutUnparsedUrlCredentials v = p @ ''://'' @ drop (Suc i) ?rest" .
  have "url_authority (withoutUnparsedUrlCredentials v) = takeWhile ?P (drop (Suc i) ?rest)"
    using url_scheme_prefix [OF sch, of "drop (Suc i) ?rest"] unfolding res
    by (simp add: url_authority_def)
  also have "\<dots> = drop (Suc i) (url_authority v)"
    unfolding auth using at(1) auth by (intro takeWhile_drop) simp
  finally show ?thesis using at by simp
qed

end
