(* ===== verification/StoreState.thy ===== *)
theory StoreState
  imports Metadata
begin

text \<open>
  State, errors and effects of \<open>MappingStore\<close>
  (\<open>packages/mapping-store/src/mapping-store.ts\<close>): the in-memory maps of the class, the files of
  its directory, and a fault script.

  A system call that may throw consumes one entry of \<open>w_faults\<close>: \<open>True\<close> makes it throw. An
  exhausted script means that every further call succeeds, so a theorem over all scripts covers
  every combination of I/O failures. Temporary files are invisible: the code removes them, and
  what it leaves behind after a crash is only deleted at the next start.
\<close>

subsection \<open>Errors\<close>

text \<open>
  \<open>MappingStoreErrorCode\<close>, with the two kinds of error the store passes on as they are: a
  \<open>ZodError\<close> of a schema and a system error of \<open>node:fs\<close>.
\<close>

datatype store_error =
    STORE_LOCKED
  | STORE_NOT_INITIALIZED
  | THREAD_NOT_FOUND
  | DELEGATION_NOT_FOUND
  | DUPLICATE_THREAD_ID
  | DUPLICATE_DELEGATION_ID
  | DUPLICATE_CREATE_REQUEST
  | DUPLICATE_NATIVE_SESSION
  | MAPPING_CONFLICT
  | INVALID_RECORD
  | IO_ERROR
  | ZOD_ERROR
  | SYSTEM_ERROR

subsection \<open>Section placements and superseded sessions\<close>

record section_appearance =
  ap_icon :: "string option"
  ap_color :: "string option"

record thread_section =
  sc_id :: string
  sc_name :: string
  sc_appearance :: "section_appearance option"

record section_placement =
  pl_hostThreadId :: host_thread_id
  pl_section :: thread_section
  pl_enteredAt :: timestamp
  pl_beforeThreadId :: "string option"

definition bounded_id :: "string \<Rightarrow> bool" where
  "bounded_id s = (s \<noteq> [] \<and> length s \<le> 1024)"

definition placement_ok :: "section_placement \<Rightarrow> bool" where
  "placement_ok p =
     (nonblank (pl_hostThreadId p) \<and> bounded_id (sc_id (pl_section p)) \<and>
      length (sc_name (pl_section p)) \<le> 4096 \<and> opt_ok bounded_id (pl_beforeThreadId p))"

fun placements_unique :: "string list \<Rightarrow> section_placement list \<Rightarrow> bool" where
  "placements_unique seen [] = True"
| "placements_unique seen (p # ps) =
     (pl_hostThreadId p \<notin> set seen \<and> placements_unique (pl_hostThreadId p # seen) ps)"

definition parseSectionPlacements :: "section_placement list \<Rightarrow> store_error + section_placement list" where
  "parseSectionPlacements ps =
     (if list_all placement_ok ps \<and> placements_unique [] ps then Inr ps else Inl ZOD_ERROR)"

record superseded_session =
  ss_harnessId :: harness_id
  ss_nativeSessionId :: string
  ss_hostThreadId :: host_thread_id
  ss_supersededAt :: timestamp

definition SUPERSEDED_SESSIONS_MAX :: nat where
  "SUPERSEDED_SESSIONS_MAX = 20000"

definition superseded_ok :: "superseded_session \<Rightarrow> bool" where
  "superseded_ok s =
     (nonblank (ss_harnessId s) \<and> bounded_id (ss_nativeSessionId s) \<and> nonblank (ss_hostThreadId s))"

text \<open>\<open>sessions.slice(-SUPERSEDED_SESSIONS_MAX)\<close>, then the schema.\<close>

definition keep_last :: "nat \<Rightarrow> 'a list \<Rightarrow> 'a list" where
  "keep_last n xs = drop (length xs - n) xs"

definition supersededSessionsFile :: "superseded_session list \<Rightarrow> store_error + superseded_session list" where
  "supersededSessionsFile ss =
     (let kept = keep_last SUPERSEDED_SESSIONS_MAX ss
      in if list_all superseded_ok kept then Inr kept else Inl ZOD_ERROR)"

subsection \<open>Memory, disk and world\<close>

record store =
  st_records :: "(host_thread_id, thread_record) jsmap"
  st_delegations :: "(host_thread_id, delegation_record) jsmap"
  st_delegationRequests :: "(string, host_thread_id) jsmap"
  st_delegationChildren :: "(host_thread_id, host_thread_id) jsmap"
  st_createRequests :: "(string, host_thread_id) jsmap"
  st_nativeSessions :: "(string, host_thread_id) jsmap"
  st_hostTurns :: "(host_turn_id, host_thread_id) jsmap"
  st_nativeTurns :: "(string, host_turn_id) jsmap"
  st_sectionPlacements :: "section_placement list"
  st_supersededSessions :: "superseded_session list"
  st_initialized :: bool
  st_lockHeld :: bool

definition new_store :: store where
  "new_store =
     \<lparr>st_records = [], st_delegations = [], st_delegationRequests = [], st_delegationChildren = [],
      st_createRequests = [], st_nativeSessions = [], st_hostTurns = [], st_nativeTurns = [],
      st_sectionPlacements = [], st_supersededSessions = [], st_initialized = False,
      st_lockHeld = False\<rparr>"

text \<open>A file holds a value its schema has yet to accept, or text that is not JSON.\<close>

datatype 'a stored_file = Parsed 'a | Corrupt

text \<open>Directories map a file name without its \<open>.json\<close> suffix to the file.\<close>

record disk =
  dk_threads :: "(string, thread_record stored_file) jsmap"
  dk_backups :: "(string, thread_record stored_file) jsmap"
  dk_metadata :: "(string, thread_metadata stored_file) jsmap"
  dk_delegations :: "(string, delegation_record stored_file) jsmap"
  dk_placements :: "section_placement list stored_file option"
  dk_superseded :: "superseded_session list stored_file option"
  dk_quarantine :: "string list"

record world =
  w_store :: store
  w_disk :: disk
  w_faults :: "bool list"

subsection \<open>Effects\<close>

type_synonym 'a eff = "world \<Rightarrow> (store_error + 'a) \<times> world"

definition retE :: "'a \<Rightarrow> 'a eff" where
  "retE a w = (Inr a, w)"

definition throwE :: "store_error \<Rightarrow> 'a eff" where
  "throwE e w = (Inl e, w)"

definition thenE :: "'a eff \<Rightarrow> ('a \<Rightarrow> 'b eff) \<Rightarrow> 'b eff" where
  "thenE m f w = (case m w of (Inl e, w') \<Rightarrow> (Inl e, w') | (Inr a, w') \<Rightarrow> f a w')"

text \<open>\<open>try { m } catch (e) { h }\<close>\<close>

definition catchE :: "'a eff \<Rightarrow> (store_error \<Rightarrow> 'a eff) \<Rightarrow> 'a eff" where
  "catchE m h w = (case m w of (Inl e, w') \<Rightarrow> h e w' | (Inr a, w') \<Rightarrow> (Inr a, w'))"

definition liftE :: "store_error + 'a \<Rightarrow> 'a eff" where
  "liftE r w = (r, w)"

definition getStore :: "store eff" where
  "getStore w = (Inr (w_store w), w)"

definition modStore :: "(store \<Rightarrow> store) \<Rightarrow> unit eff" where
  "modStore f w = (Inr (), w\<lparr>w_store := f (w_store w)\<rparr>)"

definition modDisk :: "(disk \<Rightarrow> disk) \<Rightarrow> unit eff" where
  "modDisk f w = (Inr (), w\<lparr>w_disk := f (w_disk w)\<rparr>)"

text \<open>One system call: throws \<open>e\<close> when the script says so.\<close>

definition syscall :: "store_error \<Rightarrow> unit eff" where
  "syscall e w =
     (case w_faults w of
        [] \<Rightarrow> (Inr (), w)
      | f # fs \<Rightarrow> (if f then Inl e else Inr (), w\<lparr>w_faults := fs\<rparr>))"

lemmas eff_defs = retE_def throwE_def thenE_def catchE_def liftE_def getStore_def modStore_def modDisk_def

subsection \<open>Indexes\<close>

text \<open>A JavaScript id is truthy unless it is the empty string.\<close>

definition taken_by_other :: "host_thread_id option \<Rightarrow> host_thread_id option \<Rightarrow> bool" where
  "taken_by_other found replacing = (case found of None \<Rightarrow> False | Some d \<Rightarrow> d \<noteq> [] \<and> Some d \<noteq> replacing)"

fun validate_mappings ::
  "store \<Rightarrow> host_thread_id option \<Rightarrow> turn_mapping list \<Rightarrow> store_error + unit"
where
  "validate_mappings s replacing [] = Inr ()"
| "validate_mappings s replacing (m # ms) =
     (if taken_by_other (js_get (st_hostTurns s) (tm_hostTurnId m)) replacing then Inl MAPPING_CONFLICT
      else if taken_by_other (js_get (st_nativeTurns s) (nativeTurnKey m)) (Some (tm_hostTurnId m))
      then Inl MAPPING_CONFLICT
      else validate_mappings s replacing ms)"

text \<open>The key of the native session index: a subagent's session is its parent's.\<close>

definition ownSessionKey :: "thread_record \<Rightarrow> string option" where
  "ownSessionKey r =
     (case (tr_nativeSessionRef r, tr_subagent r) of
        (Some ref, None) \<Rightarrow> Some (nativeSessionKey ref)
      | _ \<Rightarrow> None)"

definition validateGlobal :: "store \<Rightarrow> thread_record \<Rightarrow> host_thread_id option \<Rightarrow> store_error + unit" where
  "validateGlobal s r replacing =
     (if taken_by_other (js_get (st_createRequests s) (tr_createRequestId r)) replacing
      then Inl DUPLICATE_CREATE_REQUEST
      else if (case ownSessionKey r of
                 None \<Rightarrow> False
               | Some key \<Rightarrow> taken_by_other (js_get (st_nativeSessions s) key) replacing)
      then Inl DUPLICATE_NATIVE_SESSION
      else validate_mappings s replacing (tr_turnMappings r))"

definition clear_indexes :: "store \<Rightarrow> store" where
  "clear_indexes s =
     s\<lparr>st_createRequests := [], st_delegationRequests := [], st_delegationChildren := [],
       st_nativeSessions := [], st_hostTurns := [], st_nativeTurns := []\<rparr>"

text \<open>The loops of \<open>#rebuildIndexes\<close>: a throw leaves the indexes built so far.\<close>

fun index_delegations ::
  "(host_thread_id \<times> delegation_record) list \<Rightarrow> store \<Rightarrow> (store_error + unit) \<times> store"
where
  "index_delegations [] s = (Inr (), s)"
| "index_delegations ((k, d) # ds) s =
     (if js_has (st_delegationChildren s) (dl_childHostThreadId d) then (Inl MAPPING_CONFLICT, s)
      else
        let s1 = s\<lparr>st_delegationChildren :=
                    js_set (dl_childHostThreadId d) (dl_delegationId d) (st_delegationChildren s)\<rparr>
        in case dl_requestId d of
             None \<Rightarrow> index_delegations ds s1
           | Some rid \<Rightarrow>
               if rid = [] then index_delegations ds s1
               else if js_has (st_delegationRequests s1) rid then (Inl MAPPING_CONFLICT, s1)
               else index_delegations ds
                      (s1\<lparr>st_delegationRequests :=
                           js_set rid (dl_delegationId d) (st_delegationRequests s1)\<rparr>))"

definition index_record :: "thread_record \<Rightarrow> store \<Rightarrow> store" where
  "index_record r s =
     s\<lparr>st_createRequests := js_set (tr_createRequestId r) (tr_hostThreadId r) (st_createRequests s),
       st_nativeSessions :=
         (case ownSessionKey r of
            None \<Rightarrow> st_nativeSessions s
          | Some key \<Rightarrow> js_set key (tr_hostThreadId r) (st_nativeSessions s)),
       st_hostTurns :=
         fold (\<lambda>m. js_set (tm_hostTurnId m) (tr_hostThreadId r)) (tr_turnMappings r) (st_hostTurns s),
       st_nativeTurns :=
         fold (\<lambda>m. js_set (nativeTurnKey m) (tm_hostTurnId m)) (tr_turnMappings r) (st_nativeTurns s)\<rparr>"

fun index_records ::
  "(host_thread_id \<times> thread_record) list \<Rightarrow> store \<Rightarrow> (store_error + unit) \<times> store"
where
  "index_records [] s = (Inr (), s)"
| "index_records ((k, r) # rs) s =
     (case validateGlobal s r (Some (tr_hostThreadId r)) of
        Inl e \<Rightarrow> (Inl e, s)
      | Inr _ \<Rightarrow> index_records rs (index_record r s))"

definition rebuildIndexes :: "store \<Rightarrow> (store_error + unit) \<times> store" where
  "rebuildIndexes s =
     (case index_delegations (st_delegations s) (clear_indexes s) of
        (Inl e, s1) \<Rightarrow> (Inl e, s1)
      | (Inr _, s1) \<Rightarrow> index_records (st_records s) s1)"

definition rebuildE :: "unit eff" where
  "rebuildE w = (case rebuildIndexes (w_store w) of (r, s) \<Rightarrow> (r, w\<lparr>w_store := s\<rparr>))"

subsection \<open>Files\<close>

text \<open>
  \<open>#replaceFile\<close>: the temporary file is written and synced, the old file is copied to the
  backup when asked for, and the temporary file is renamed over the target.
\<close>

definition replaceFile :: "string \<Rightarrow> thread_record \<Rightarrow> bool \<Rightarrow> unit eff" where
  "replaceFile target r preserveBackup =
     thenE (syscall IO_ERROR) (\<lambda>_.
     thenE (\<lambda>w. if preserveBackup then
                   thenE (syscall IO_ERROR) (\<lambda>_ w.
                     case js_get (dk_threads (w_disk w)) target of
                       None \<Rightarrow> (Inr (), w)
                     | Some old \<Rightarrow>
                         thenE (syscall IO_ERROR) (\<lambda>_.
                           modDisk (\<lambda>d. d\<lparr>dk_backups := js_set (tr_hostThreadId r) old (dk_backups d)\<rparr>)) w) w
                 else (Inr (), w)) (\<lambda>_.
     thenE (syscall IO_ERROR) (\<lambda>_.
     modDisk (\<lambda>d. d\<lparr>dk_threads := js_set target (Parsed (withoutThreadMetadata r)) (dk_threads d)\<rparr>))))"

text \<open>
  The metadata schema: \<open>usageMeasurements\<close> is caught, so \<open>None\<close> (a throw) comes from the other
  fields.
\<close>

definition metadata_ok :: "thread_metadata \<Rightarrow> bool" where
  "metadata_ok md =
     (storedHostThreadId_ok (md_hostThreadId md) \<and> opt_ok (\<lambda>s. length s \<le> 4096) (md_preview md) \<and>
      opt_ok (text_max 1024) (md_projectId md) \<and>
      opt_ok projectlessWorkspace_ok (md_projectlessWorkspace md) \<and> opt_ok gitInfo_ok (md_gitInfo md))"

definition parse_metadata :: "host_thread_id \<Rightarrow> thread_metadata stored_file \<Rightarrow> thread_metadata option" where
  "parse_metadata hid f =
     (case f of
        Corrupt \<Rightarrow> None
      | Parsed md \<Rightarrow>
          if metadata_ok md \<and> md_hostThreadId md = hid
          then Some (md\<lparr>md_usageMeasurements := catch_usage (md_usageMeasurements md)\<rparr>)
          else None)"

text \<open>\<open>#readMetadata\<close>: an invalid file is renamed into the quarantine, best effort.\<close>

definition readMetadata :: "host_thread_id \<Rightarrow> thread_metadata option eff" where
  "readMetadata hid =
     thenE (syscall SYSTEM_ERROR) (\<lambda>_ w.
       case js_get (dk_metadata (w_disk w)) hid of
         None \<Rightarrow> (Inr None, w)
       | Some f \<Rightarrow>
           (case parse_metadata hid f of
              Some md \<Rightarrow> (Inr (Some md), w)
            | None \<Rightarrow>
                catchE
                  (thenE (syscall SYSTEM_ERROR) (\<lambda>_.
                   thenE (modDisk (\<lambda>d. d\<lparr>dk_metadata := js_delete hid (dk_metadata d),
                                        dk_quarantine := dk_quarantine d @ [hid]\<rparr>)) (\<lambda>_. retE None)))
                  (\<lambda>_. retE None) w))"

definition empty_metadata :: "host_thread_id \<Rightarrow> thread_metadata" where
  "empty_metadata hid =
     \<lparr>md_hostThreadId = hid, md_usageMeasurements = None, md_preview = None, md_projectId = None,
      md_projectlessWorkspace = None, md_daybreakEnabled = None, md_gitInfo = None, md_extra = []\<rparr>"

text \<open>\<open>#writeMetadataFile\<close>: owned fields are replaced, unknown members stay.\<close>

definition writeMetadataFile :: "host_thread_id \<Rightarrow> thread_metadata option \<Rightarrow> unit eff" where
  "writeMetadataFile hid md =
     catchE
       (thenE (readMetadata hid) (\<lambda>existing.
          let retained = (case existing of None \<Rightarrow> [] | Some m \<Rightarrow> md_extra m)
          in if md = None \<and> retained = [] then
               thenE (syscall IO_ERROR) (\<lambda>_.
               modDisk (\<lambda>d. d\<lparr>dk_metadata := js_delete hid (dk_metadata d)\<rparr>))
             else
               thenE (syscall IO_ERROR) (\<lambda>_.
               thenE (syscall IO_ERROR) (\<lambda>_.
               modDisk (\<lambda>d. d\<lparr>dk_metadata :=
                 js_set hid
                   (Parsed ((case md of None \<Rightarrow> empty_metadata hid
                             | Some m \<Rightarrow> m\<lparr>md_hostThreadId := hid\<rparr>)\<lparr>md_extra := retained\<rparr>))
                   (dk_metadata d)\<rparr>)))))
       (\<lambda>_. throwE IO_ERROR)"

definition replaceDelegationFile :: "delegation_record \<Rightarrow> unit eff" where
  "replaceDelegationFile d =
     thenE (syscall IO_ERROR) (\<lambda>_.
     thenE (syscall IO_ERROR) (\<lambda>_.
     modDisk (\<lambda>k. k\<lparr>dk_delegations := js_set (dl_delegationId d) (Parsed d) (dk_delegations k)\<rparr>)))"

text \<open>\<open>rm(path, { force: true })\<close> on the three files of a Thread.\<close>

definition rmThread :: "host_thread_id \<Rightarrow> unit eff" where
  "rmThread hid =
     thenE (syscall SYSTEM_ERROR) (\<lambda>_. modDisk (\<lambda>d. d\<lparr>dk_threads := js_delete hid (dk_threads d)\<rparr>))"

definition rmBackup :: "host_thread_id \<Rightarrow> unit eff" where
  "rmBackup hid =
     thenE (syscall SYSTEM_ERROR) (\<lambda>_. modDisk (\<lambda>d. d\<lparr>dk_backups := js_delete hid (dk_backups d)\<rparr>))"

definition rmMetadata :: "host_thread_id \<Rightarrow> unit eff" where
  "rmMetadata hid =
     thenE (syscall SYSTEM_ERROR) (\<lambda>_. modDisk (\<lambda>d. d\<lparr>dk_metadata := js_delete hid (dk_metadata d)\<rparr>))"

definition writeSectionPlacementsFile :: "section_placement list \<Rightarrow> section_placement list eff" where
  "writeSectionPlacementsFile ps =
     thenE (liftE (parseSectionPlacements ps)) (\<lambda>parsed.
     thenE (syscall SYSTEM_ERROR) (\<lambda>_.
     thenE (syscall SYSTEM_ERROR) (\<lambda>_.
     thenE (modDisk (\<lambda>d. d\<lparr>dk_placements := Some (Parsed parsed)\<rparr>)) (\<lambda>_. retE parsed))))"

definition readSectionPlacementsFile :: "section_placement list eff" where
  "readSectionPlacementsFile =
     thenE (syscall SYSTEM_ERROR) (\<lambda>_ w.
       case dk_placements (w_disk w) of
         None \<Rightarrow> (Inr [], w)
       | Some Corrupt \<Rightarrow> (Inl SYSTEM_ERROR, w)
       | Some (Parsed ps) \<Rightarrow> (parseSectionPlacements ps, w))"

definition writeSupersededSessionsFile :: "superseded_session list \<Rightarrow> superseded_session list eff" where
  "writeSupersededSessionsFile ss =
     thenE (liftE (supersededSessionsFile ss)) (\<lambda>parsed.
     thenE (syscall SYSTEM_ERROR) (\<lambda>_.
     thenE (syscall SYSTEM_ERROR) (\<lambda>_.
     thenE (modDisk (\<lambda>d. d\<lparr>dk_superseded := Some (Parsed parsed)\<rparr>)) (\<lambda>_. retE parsed))))"

definition readSupersededSessionsFile :: "superseded_session list eff" where
  "readSupersededSessionsFile =
     thenE (syscall SYSTEM_ERROR) (\<lambda>_ w.
       case dk_superseded (w_disk w) of
         None \<Rightarrow> (Inr [], w)
       | Some Corrupt \<Rightarrow> (Inl SYSTEM_ERROR, w)
       | Some (Parsed ss) \<Rightarrow> ((if list_all superseded_ok ss then Inr ss else Inl ZOD_ERROR), w))"

end
