(* ===== verification/MappingStore.thy ===== *)
theory MappingStore
  imports StoreState
begin

text \<open>
  The operations of \<open>MappingStore\<close> (\<open>packages/mapping-store/src/mapping-store.ts\<close>), in the
  order of the class. \<open>now\<close> is the clock value an operation reads. Writers run one at a time
  (\<open>#enqueue\<close>), so each is one effect; the delegation writers are not queued, and their
  synchronous part is a definition of its own.
\<close>

definition requireInitialized :: "unit eff" where
  "requireInitialized w =
     (if st_initialized (w_store w) then (Inr (), w) else (Inl STORE_NOT_INITIALIZED, w))"

subsection \<open>Turn mappings\<close>

text \<open>
  \<open>#mergeMappings\<close>: the two maps hold references to the objects of \<open>merged\<close>, so an object is
  its position there.
\<close>

definition positions :: "('a \<Rightarrow> 'k) \<Rightarrow> 'a list \<Rightarrow> ('k, nat) jsmap" where
  "positions f xs = fold (\<lambda>(i, x). js_set (f x) i) (enumerate 0 xs) []"

fun merge_loop ::
  "turn_mapping list \<Rightarrow> (host_turn_id, nat) jsmap \<Rightarrow> (string, nat) jsmap \<Rightarrow> turn_mapping list \<Rightarrow>
   store_error + turn_mapping list"
where
  "merge_loop merged byHost byNative [] = Inr merged"
| "merge_loop merged byHost byNative (u # us) =
     (let hostMatch = js_get byHost (tm_hostTurnId u);
          nativeMatch = js_get byNative (nativeTurnKey u)
      in case hostMatch of
           None \<Rightarrow>
             (if nativeMatch \<noteq> None then Inl MAPPING_CONFLICT
              else merge_loop (merged @ [u])
                     (js_set (tm_hostTurnId u) (length merged) byHost)
                     (js_set (nativeTurnKey u) (length merged) byNative) us)
         | Some i \<Rightarrow>
             if nativeMatch \<noteq> Some i then Inl MAPPING_CONFLICT
             else if tm_nativeTurnRef (merged ! i) \<noteq> tm_nativeTurnRef u then Inl MAPPING_CONFLICT
             else case (tm_nativeCheckpointRef (merged ! i), tm_nativeCheckpointRef u) of
                    (Some a, Some b) \<Rightarrow>
                      if a \<noteq> b then Inl MAPPING_CONFLICT else merge_loop merged byHost byNative us
                  | (None, Some b) \<Rightarrow>
                      merge_loop (merged[i := (merged ! i)\<lparr>tm_nativeCheckpointRef := Some b\<rparr>])
                        byHost byNative us
                  | _ \<Rightarrow> merge_loop merged byHost byNative us)"

definition mergeMappings :: "turn_mapping list \<Rightarrow> turn_mapping list \<Rightarrow> store_error + turn_mapping list" where
  "mergeMappings current updates =
     merge_loop current (positions tm_hostTurnId current) (positions nativeTurnKey current) updates"

text \<open>The check of one update in \<open>reconcileTurnMappings\<close>.\<close>

fun reconcile_loop ::
  "turn_mapping list \<Rightarrow> (host_turn_id, nat) jsmap \<Rightarrow> (string, nat) jsmap \<Rightarrow>
   host_turn_id list \<Rightarrow> string list \<Rightarrow> turn_mapping list \<Rightarrow> store_error + turn_mapping list"
where
  "reconcile_loop current byHost byNative seenHost seenNative [] = Inr []"
| "reconcile_loop current byHost byNative seenHost seenNative (u # us) =
     (let hostMatch = js_get byHost (tm_hostTurnId u);
          nativeMatch = js_get byNative (nativeTurnKey u)
      in if hostMatch \<noteq> None \<and> nativeMatch \<noteq> None \<and> hostMatch \<noteq> nativeMatch then Inl MAPPING_CONFLICT
         else if (case hostMatch of None \<Rightarrow> False
                  | Some i \<Rightarrow> tm_nativeTurnRef (current ! i) \<noteq> tm_nativeTurnRef u) then Inl MAPPING_CONFLICT
         else if (case nativeMatch of None \<Rightarrow> False
                  | Some i \<Rightarrow> tm_hostTurnId (current ! i) \<noteq> tm_hostTurnId u) then Inl MAPPING_CONFLICT
         else if tm_hostTurnId u \<in> set seenHost \<or> nativeTurnKey u \<in> set seenNative then Inl MAPPING_CONFLICT
         else bindE (reconcile_loop current byHost byNative
                       (tm_hostTurnId u # seenHost) (nativeTurnKey u # seenNative) us)
                (\<lambda>rest. Inr (u # rest)))"

definition reconcileMappings :: "turn_mapping list \<Rightarrow> turn_mapping list \<Rightarrow> store_error + turn_mapping list" where
  "reconcileMappings current mappings =
     reconcile_loop current (positions tm_hostTurnId current) (positions nativeTurnKey current) [] [] mappings"

subsection \<open>Readers\<close>

definition getThread :: "host_thread_id \<Rightarrow> thread_record option eff" where
  "getThread hid =
     thenE requireInitialized (\<lambda>_. thenE getStore (\<lambda>s. retE (js_get (st_records s) hid)))"

definition listThreads :: "thread_record list eff" where
  "listThreads = thenE requireInitialized (\<lambda>_. thenE getStore (\<lambda>s. retE (js_values (st_records s))))"

text \<open>A falsy id (absent, or the empty string) finds nothing.\<close>

definition getThreadByCreateRequest :: "string \<Rightarrow> thread_record option eff" where
  "getThreadByCreateRequest rid =
     thenE requireInitialized (\<lambda>_. thenE getStore (\<lambda>s.
       case truthy (js_get (st_createRequests s) rid) of None \<Rightarrow> retE None | Some hid \<Rightarrow> getThread hid))"

definition findThreadByTurn :: "host_turn_id \<Rightarrow> thread_record option eff" where
  "findThreadByTurn tid =
     thenE requireInitialized (\<lambda>_. thenE getStore (\<lambda>s.
       case truthy (js_get (st_hostTurns s) tid) of None \<Rightarrow> retE None | Some hid \<Rightarrow> getThread hid))"

definition getDelegation :: "host_thread_id \<Rightarrow> delegation_record option eff" where
  "getDelegation did =
     thenE requireInitialized (\<lambda>_. thenE getStore (\<lambda>s. retE (js_get (st_delegations s) did)))"

definition getDelegationByChild :: "host_thread_id \<Rightarrow> delegation_record option eff" where
  "getDelegationByChild child =
     thenE requireInitialized (\<lambda>_. thenE getStore (\<lambda>s.
       case truthy (js_get (st_delegationChildren s) child) of None \<Rightarrow> retE None | Some did \<Rightarrow> getDelegation did))"

definition findDelegationByRequest :: "string \<Rightarrow> delegation_record option eff" where
  "findDelegationByRequest rid =
     thenE requireInitialized (\<lambda>_. thenE getStore (\<lambda>s.
       case truthy (js_get (st_delegationRequests s) rid) of None \<Rightarrow> retE None | Some did \<Rightarrow> getDelegation did))"

definition listDelegations :: "host_thread_id option \<Rightarrow> delegation_record list eff" where
  "listDelegations parent =
     thenE requireInitialized (\<lambda>_. thenE getStore (\<lambda>s.
       retE (filter (\<lambda>d. truthy parent = None \<or> Some (dl_parentHostThreadId d) = parent)
               (js_values (st_delegations s)))))"

definition findRecentDelegation ::
  "host_thread_id \<Rightarrow> harness_id \<Rightarrow> string \<Rightarrow> timestamp \<Rightarrow> delegation_record option eff" where
  "findRecentDelegation parent target digest since =
     thenE requireInitialized (\<lambda>_. thenE getStore (\<lambda>s.
       let found = sort_key (\<lambda>d. - dl_createdAt d)
             (filter (\<lambda>d. dl_parentHostThreadId d = parent \<and> dl_targetHarnessId d = target \<and>
                          dl_taskDigest d = digest \<and> since \<le> dl_createdAt d)
                (js_values (st_delegations s)))
       in retE (case found of [] \<Rightarrow> None | d # _ \<Rightarrow> Some d)))"

definition threadHarnessId :: "string \<Rightarrow> store \<Rightarrow> harness_id option" where
  "threadHarnessId hid s =
     (if st_initialized s then map_option tr_harnessId (js_get (st_records s) hid) else None)"

definition supersededNativeSessionIds :: "harness_id \<Rightarrow> string list eff" where
  "supersededNativeSessionIds h =
     thenE requireInitialized (\<lambda>_. thenE getStore (\<lambda>s.
       retE (List.map ss_nativeSessionId
               (filter (\<lambda>x. ss_harnessId x = h) (st_supersededSessions s)))))"

subsection \<open>Delegations\<close>

text \<open>What \<open>createDelegation\<close> does before its \<open>await\<close>: the checks and the new record.\<close>

definition createDelegation_check ::
  "store \<Rightarrow> timestamp \<Rightarrow> create_delegation_input \<Rightarrow> store_error + delegation_record" where
  "createDelegation_check s now i =
     (if js_has (st_delegations s) (cd_delegationId i) then Inl DUPLICATE_DELEGATION_ID
      else if js_has (st_delegationChildren s) (cd_childHostThreadId i) then Inl MAPPING_CONFLICT
      else if (case truthy (cd_requestId i) of None \<Rightarrow> False
               | Some rid \<Rightarrow> js_has (st_delegationRequests s) rid) then Inl DUPLICATE_CREATE_REQUEST
      else
        let d = \<lparr>dl_revision = 1, dl_delegationId = cd_delegationId i,
                 dl_parentHostThreadId = cd_parentHostThreadId i,
                 dl_childHostThreadId = cd_childHostThreadId i,
                 dl_sourceHarnessId = cd_sourceHarnessId i,
                 dl_targetHarnessId = cd_targetHarnessId i,
                 dl_status = (case cd_status i of None \<Rightarrow> DCreating | Some st \<Rightarrow> st),
                 dl_requestId = cd_requestId i, dl_taskDigest = cd_taskDigest i,
                 dl_createdAt = now, dl_updatedAt = now\<rparr>
        in if delegation_ok d then Inr d else Inl ZOD_ERROR)"

text \<open>What follows the check, in both delegation writers: the file, the map, the indexes.\<close>

definition storeDelegation :: "host_thread_id \<Rightarrow> delegation_record \<Rightarrow> delegation_record eff" where
  "storeDelegation key d =
     thenE (replaceDelegationFile d) (\<lambda>_.
     thenE (modStore (\<lambda>s. s\<lparr>st_delegations := js_set key d (st_delegations s)\<rparr>)) (\<lambda>_.
     thenE rebuildE (\<lambda>_. retE d)))"

definition createDelegation :: "timestamp \<Rightarrow> create_delegation_input \<Rightarrow> delegation_record eff" where
  "createDelegation now i =
     thenE requireInitialized (\<lambda>_. thenE getStore (\<lambda>s.
     thenE (liftE (createDelegation_check s now i)) (\<lambda>d. storeDelegation (dl_delegationId d) d)))"

definition terminal_status :: "delegation_status \<Rightarrow> bool" where
  "terminal_status st = (st = DCompleted \<or> st = DFailed \<or> st = DInterrupted)"

definition setDelegationStatus ::
  "timestamp \<Rightarrow> host_thread_id \<Rightarrow> delegation_status \<Rightarrow> delegation_record eff" where
  "setDelegationStatus now did status =
     thenE requireInitialized (\<lambda>_. thenE getStore (\<lambda>s.
       case js_get (st_delegations s) did of
         None \<Rightarrow> throwE DELEGATION_NOT_FOUND
       | Some current \<Rightarrow>
           if dl_status current = status then retE current
           else if terminal_status (dl_status current) \<and> \<not> terminal_status status then retE current
           else
             let d = current\<lparr>dl_revision := dl_revision current + 1, dl_status := status, dl_updatedAt := now\<rparr>
             in if delegation_ok d then storeDelegation did d else throwE ZOD_ERROR))"

definition removeDelegation :: "host_thread_id \<Rightarrow> unit eff" where
  "removeDelegation did =
     thenE requireInitialized (\<lambda>_.
     thenE (syscall SYSTEM_ERROR) (\<lambda>_.
     thenE (modDisk (\<lambda>k. k\<lparr>dk_delegations := js_delete did (dk_delegations k)\<rparr>)) (\<lambda>_.
     thenE (modStore (\<lambda>s. s\<lparr>st_delegations := js_delete did (st_delegations s)\<rparr>)) (\<lambda>_.
     rebuildE))))"

subsection \<open>Writing a Thread\<close>

definition setRecord :: "thread_record \<Rightarrow> store \<Rightarrow> store" where
  "setRecord r s = s\<lparr>st_records := js_set (tr_hostThreadId r) r (st_records s)\<rparr>"

text \<open>\<open>#writeNew\<close>\<close>

definition writeNew :: "thread_record \<Rightarrow> unit eff" where
  "writeNew r =
     thenE getStore (\<lambda>s.
     thenE (liftE (validateGlobal s r None)) (\<lambda>_.
     let md = threadMetadataOf r in
     thenE (if md = None then retE () else writeMetadataFile (tr_hostThreadId r) md) (\<lambda>_.
     thenE
       (catchE (replaceFile (tr_hostThreadId r) r False)
          (\<lambda>e. thenE (if md = None then retE ()
                       else catchE (rmMetadata (tr_hostThreadId r)) (\<lambda>_. retE ()))
                 (\<lambda>_. throwE e))) (\<lambda>_.
     thenE (modStore (setRecord r)) (\<lambda>_. rebuildE)))))"

definition new_record :: "timestamp \<Rightarrow> create_provisional_input \<Rightarrow> thread_record" where
  "new_record now i =
     \<lparr>tr_revision = 1, tr_hostThreadId = cp_hostThreadId i,
      tr_createRequestId = cp_createRequestId i, tr_harnessId = cp_harnessId i,
      tr_state = Creating, tr_nativeSessionRef = None, tr_importSourceRef = cp_importSourceRef i,
      tr_cwd = cp_cwd i, tr_title = (case cp_title i of None \<Rightarrow> [] | Some t \<Rightarrow> t),
      tr_archived = False, tr_transportModelId = cp_transportModelId i,
      tr_ephemeral = cp_ephemeral i, tr_historyMode = cp_historyMode i,
      tr_forkSource = cp_forkSource i, tr_subagent = cp_subagent i, tr_turnMappings = [],
      tr_createdAt = now, tr_updatedAt = now, tr_extra = [],
      tr_usageMeasurements = None, tr_preview = None, tr_projectId = None,
      tr_projectlessWorkspace = cp_projectlessWorkspace i, tr_daybreakEnabled = None,
      tr_gitInfo = None\<rparr>"

definition createProvisional :: "timestamp \<Rightarrow> create_provisional_input \<Rightarrow> thread_record eff" where
  "createProvisional now i =
     thenE requireInitialized (\<lambda>_. thenE getStore (\<lambda>s.
       case truthy (js_get (st_createRequests s) (cp_createRequestId i)) of
         Some existingThreadId \<Rightarrow>
           (case js_get (st_records s) existingThreadId of
              None \<Rightarrow> throwE IO_ERROR
            | Some existing \<Rightarrow> retE existing)
       | None \<Rightarrow>
           if js_has (st_records s) (cp_hostThreadId i) then throwE DUPLICATE_THREAD_ID
           else case parse_record (new_record now i) of
                  None \<Rightarrow> throwE ZOD_ERROR
                | Some r \<Rightarrow> thenE (writeNew r) (\<lambda>_. retE r)))"

text \<open>
  \<open>#update\<close>: \<open>change\<close> computes the changed record from a copy of the current one; \<open>None\<close> means
  nothing to write.
\<close>

definition update_record ::
  "timestamp \<Rightarrow> host_thread_id \<Rightarrow> (store \<Rightarrow> thread_record \<Rightarrow> store_error + thread_record option) \<Rightarrow>
   bool \<Rightarrow> thread_record eff" where
  "update_record now hid change preserveUpdatedAt =
     thenE requireInitialized (\<lambda>_. thenE getStore (\<lambda>s.
       case js_get (st_records s) hid of
         None \<Rightarrow> throwE THREAD_NOT_FOUND
       | Some current \<Rightarrow>
           thenE (liftE (change s current)) (\<lambda>changed.
             case changed of
               None \<Rightarrow> retE current
             | Some c \<Rightarrow>
                 (case parse_record
                         (c\<lparr>tr_revision := tr_revision current + 1,
                            tr_updatedAt := (if preserveUpdatedAt then tr_updatedAt current else now)\<rparr>) of
                    None \<Rightarrow> throwE ZOD_ERROR
                  | Some next \<Rightarrow>
                      thenE (liftE (validateGlobal s next (Some hid))) (\<lambda>_.
                      thenE (replaceFile hid next True) (\<lambda>_.
                      thenE
                        (if threadMetadataOf current = threadMetadataOf next then retE ()
                         else catchE (writeMetadataFile hid (threadMetadataOf next))
                                (\<lambda>e. thenE (catchE (replaceFile hid current False) (\<lambda>_. retE ()))
                                       (\<lambda>_. throwE e))) (\<lambda>_.
                      thenE (modStore (\<lambda>s. s\<lparr>st_records := js_set hid next (st_records s)\<rparr>)) (\<lambda>_.
                      thenE rebuildE (\<lambda>_. retE next)))))))))"

definition commitReady ::
  "timestamp \<Rightarrow> host_thread_id \<Rightarrow> native_session_ref \<Rightarrow> turn_mapping list \<Rightarrow> thread_record eff" where
  "commitReady now hid ref mappings =
     update_record now hid
       (\<lambda>_ current. bindE (mergeMappings (tr_turnMappings current) mappings) (\<lambda>merged.
          Inr (Some (current\<lparr>tr_state := Ready, tr_nativeSessionRef := Some ref,
                             tr_turnMappings := merged\<rparr>)))) False"

definition rebind_mapping :: "string \<Rightarrow> turn_mapping \<Rightarrow> turn_mapping" where
  "rebind_mapping sid m =
     m\<lparr>tm_nativeTurnRef := (tm_nativeTurnRef m)\<lparr>nt_nativeSessionId := sid\<rparr>,
       tm_nativeCheckpointRef :=
         map_option (\<lambda>c. c\<lparr>nc_nativeSessionId := sid\<rparr>) (tm_nativeCheckpointRef m)\<rparr>"

definition rebind_change ::
  "rebind_subagent_input \<Rightarrow> store \<Rightarrow> thread_record \<Rightarrow> store_error + thread_record option" where
  "rebind_change i s current =
     (let parent = js_get (st_records s) (rb_parentHostThreadId i);
          parentOk = (case parent of
              None \<Rightarrow> False
            | Some p \<Rightarrow> tr_state p = Ready \<and> tr_harnessId p = tr_harnessId current \<and>
                        tr_nativeSessionRef p = Some (rb_nativeSessionRef i))
      in if tr_state current \<noteq> Ready \<or> tr_nativeSessionRef current = None \<or>
            map_option sa_parentHostThreadId (tr_subagent current) \<noteq> Some (rb_parentHostThreadId i) \<or>
            \<not> parentOk \<or>
            ns_harnessId (rb_previousNativeSessionRef i) \<noteq> tr_harnessId current \<or>
            ns_harnessId (rb_nativeSessionRef i) \<noteq> tr_harnessId current
         then Inl MAPPING_CONFLICT
         else if tr_nativeSessionRef current = Some (rb_nativeSessionRef i) \<and>
                 tr_createRequestId current = rb_createRequestId i
         then Inr None
         else if tr_nativeSessionRef current \<noteq> Some (rb_previousNativeSessionRef i)
         then Inl MAPPING_CONFLICT
         else Inr (Some (current\<lparr>tr_createRequestId := rb_createRequestId i,
                                 tr_nativeSessionRef := Some (rb_nativeSessionRef i),
                                 tr_turnMappings :=
                                   List.map (rebind_mapping (ns_nativeSessionId (rb_nativeSessionRef i)))
                                     (tr_turnMappings current)\<rparr>)))"

definition rebindSubagentSession :: "timestamp \<Rightarrow> rebind_subagent_input \<Rightarrow> thread_record eff" where
  "rebindSubagentSession now i = update_record now (rb_hostThreadId i) (rebind_change i) False"

text \<open>\<open>#recordSuperseded\<close>: best effort.\<close>

definition recordSuperseded :: "timestamp \<Rightarrow> native_session_ref \<Rightarrow> thread_record \<Rightarrow> unit eff" where
  "recordSuperseded now previous replaced =
     (case truthy (map_option ns_nativeSessionId (tr_nativeSessionRef replaced)) of
        None \<Rightarrow> retE ()
      | Some current \<Rightarrow>
          if current = ns_nativeSessionId previous then retE ()
          else
            let same = (\<lambda>x sid. ss_harnessId x = ns_harnessId previous \<and> ss_nativeSessionId x = sid)
            in catchE
                 (thenE getStore (\<lambda>s.
                  thenE (writeSupersededSessionsFile
                    (filter (\<lambda>x. \<not> same x current \<and> \<not> same x (ns_nativeSessionId previous))
                       (st_supersededSessions s) @
                     [\<lparr>ss_harnessId = ns_harnessId previous,
                       ss_nativeSessionId = ns_nativeSessionId previous,
                       ss_hostThreadId = tr_hostThreadId replaced, ss_supersededAt = now\<rparr>])) (\<lambda>ss.
                  modStore (\<lambda>s. s\<lparr>st_supersededSessions := ss\<rparr>))))
                 (\<lambda>_. retE ()))"

text \<open>\<open>input.turnMappings.some(({hostTurnId}, i) => hostTurnId !== current[i]?.hostTurnId)\<close>\<close>

definition same_turn_prefix :: "turn_mapping list \<Rightarrow> turn_mapping list \<Rightarrow> bool" where
  "same_turn_prefix new current =
     (length new \<le> length current \<and>
      list_all2 (\<lambda>a b. tm_hostTurnId a = tm_hostTurnId b) new (take (length new) current))"

definition replace_change ::
  "replace_ready_input \<Rightarrow> thread_record \<Rightarrow> store_error + thread_record option" where
  "replace_change i current =
     (if tr_state current \<noteq> Ready \<or> tr_revision current \<noteq> rr_expectedRevision i \<or>
         tr_nativeSessionRef current \<noteq> Some (rr_expectedNativeSessionRef i) \<or>
         map_option fs_hostThreadId (tr_forkSource current) \<noteq> Some (fs_hostThreadId (rr_forkSource i)) \<or>
         map_option ns_nativeSessionId (tr_nativeSessionRef current) =
           Some (ns_nativeSessionId (rr_nativeSessionRef i)) \<or>
         length (rr_turnMappings i) < 1 \<or>
         length (tr_turnMappings current) \<le> length (rr_turnMappings i) \<or>
         \<not> same_turn_prefix (rr_turnMappings i) (tr_turnMappings current)
      then Inl MAPPING_CONFLICT
      else Inr (Some (current\<lparr>tr_nativeSessionRef := Some (rr_nativeSessionRef i),
                              tr_turnMappings := rr_turnMappings i,
                              tr_forkSource := Some (rr_forkSource i)\<rparr>)))"

definition replaceReadySession :: "timestamp \<Rightarrow> replace_ready_input \<Rightarrow> thread_record eff" where
  "replaceReadySession now i =
     thenE (update_record now (rr_hostThreadId i) (\<lambda>_. replace_change i) False) (\<lambda>replaced.
     thenE (recordSuperseded now (rr_expectedNativeSessionRef i) replaced) (\<lambda>_. retE replaced))"

definition replace_last_change ::
  "replace_after_last_input \<Rightarrow> thread_record \<Rightarrow> store_error + thread_record option" where
  "replace_last_change i current =
     (if tr_state current \<noteq> Ready \<or> tr_revision current \<noteq> ra_expectedRevision i \<or>
         tr_nativeSessionRef current \<noteq> Some (ra_expectedNativeSessionRef i) \<or>
         Suc (length (ra_turnMappings i)) \<noteq> length (tr_turnMappings current) \<or>
         \<not> same_turn_prefix (ra_turnMappings i) (tr_turnMappings current)
      then Inl MAPPING_CONFLICT
      else Inr (Some (current\<lparr>tr_nativeSessionRef := Some (ra_nativeSessionRef i),
                              tr_turnMappings := ra_turnMappings i\<rparr>)))"

definition replaceReadySessionAfterLastTurn :: "timestamp \<Rightarrow> replace_after_last_input \<Rightarrow> thread_record eff" where
  "replaceReadySessionAfterLastTurn now i =
     thenE (update_record now (ra_hostThreadId i) (\<lambda>_. replace_last_change i) False) (\<lambda>replaced.
     thenE (recordSuperseded now (ra_expectedNativeSessionRef i) replaced) (\<lambda>_. retE replaced))"

definition upsertTurnMappings :: "timestamp \<Rightarrow> host_thread_id \<Rightarrow> turn_mapping list \<Rightarrow> thread_record eff" where
  "upsertTurnMappings now hid mappings =
     update_record now hid
       (\<lambda>_ current. bindE (mergeMappings (tr_turnMappings current) mappings) (\<lambda>merged.
          Inr (Some (current\<lparr>tr_turnMappings := merged\<rparr>)))) False"

definition reconcileTurnMappings :: "timestamp \<Rightarrow> host_thread_id \<Rightarrow> turn_mapping list \<Rightarrow> thread_record eff" where
  "reconcileTurnMappings now hid mappings =
     update_record now hid
       (\<lambda>_ current.
          if tr_state current \<noteq> Ready \<or> tr_nativeSessionRef current = None then Inl MAPPING_CONFLICT
          else bindE (reconcileMappings (tr_turnMappings current) mappings) (\<lambda>ordered.
            Inr (if tr_turnMappings current = ordered then None
                 else Some (current\<lparr>tr_turnMappings := ordered\<rparr>)))) False"

definition setTitle :: "timestamp \<Rightarrow> host_thread_id \<Rightarrow> string \<Rightarrow> thread_record eff" where
  "setTitle now hid title =
     update_record now hid (\<lambda>_ current. Inr (Some (current\<lparr>tr_title := title\<rparr>))) False"

definition setTransportModelId :: "timestamp \<Rightarrow> host_thread_id \<Rightarrow> string \<Rightarrow> thread_record eff" where
  "setTransportModelId now hid model =
     update_record now hid
       (\<lambda>_ current. Inr (if tr_transportModelId current = model then None
                         else Some (current\<lparr>tr_transportModelId := model\<rparr>))) False"

definition setArchived :: "timestamp \<Rightarrow> host_thread_id \<Rightarrow> bool \<Rightarrow> thread_record eff" where
  "setArchived now hid archived =
     update_record now hid
       (\<lambda>_ current. Inr (if tr_archived current = archived then None
                         else Some (current\<lparr>tr_archived := archived\<rparr>))) False"

definition updateMetadata ::
  "url_lib \<Rightarrow> timestamp \<Rightarrow> host_thread_id \<Rightarrow> metadata_patch \<Rightarrow> string option \<Rightarrow> thread_record eff" where
  "updateMetadata lib now hid p ifProjectId =
     update_record now hid
       (\<lambda>_ current.
          if ifProjectId \<noteq> None \<and> tr_projectId current \<noteq> ifProjectId then Inr None
          else
            let next = applyThreadMetadataPatch lib current p
            in Inr (if next = current then None else Some next)) (previewOnly p)"

subsection \<open>Measurements\<close>

definition merge_measurement ::
  "host_turn_id list \<Rightarrow> usage_measurement option \<Rightarrow> usage_measurement option \<Rightarrow> usage_measurement option" where
  "merge_measurement retained kept new =
     (case new of
        None \<Rightarrow> kept
      | Some v \<Rightarrow>
          if um_turnId v \<in> set retained \<and> (case kept of None \<Rightarrow> True | Some k \<Rightarrow> um_at k \<le> um_at v)
          then Some v else kept)"

definition merged_usage ::
  "thread_record \<Rightarrow> native_session_ref \<Rightarrow> usage_measurements \<Rightarrow> stored_usage option" where
  "merged_usage current expected values =
     (let retained = List.map tm_hostTurnId (tr_turnMappings current);
          prior = (\<lambda>f. case tr_usageMeasurements current of
              None \<Rightarrow> None
            | Some u \<Rightarrow>
                if su_nativeSessionRef u = expected then
                  (case f (su_values u) of
                     None \<Rightarrow> None
                   | Some v \<Rightarrow> if um_turnId v \<in> set retained then Some v else None)
                else None);
          tokens = merge_measurement retained (prior um_outputTokensPerSecond)
                     (um_outputTokensPerSecond values);
          first = merge_measurement retained (prior um_timeToFirstOutputMs)
                     (um_timeToFirstOutputMs values)
      in if tokens = None \<and> first = None then None
         else Some \<lparr>su_nativeSessionRef = expected,
                    su_values = \<lparr>um_outputTokensPerSecond = tokens, um_timeToFirstOutputMs = first\<rparr>\<rparr>)"

definition saveUsageMeasurements ::
  "host_thread_id \<Rightarrow> native_session_ref \<Rightarrow> usage_measurements \<Rightarrow> thread_record eff" where
  "saveUsageMeasurements hid expected values =
     thenE requireInitialized (\<lambda>_.
     thenE (if usageMeasurements_ok values then retE () else throwE ZOD_ERROR) (\<lambda>_.
     thenE getStore (\<lambda>s.
       case js_get (st_records s) hid of
         None \<Rightarrow> throwE THREAD_NOT_FOUND
       | Some current \<Rightarrow>
           if tr_state current \<noteq> Ready \<or> tr_nativeSessionRef current \<noteq> Some expected then retE current
           else
             let next = current\<lparr>tr_usageMeasurements := merged_usage current expected values\<rparr>
             in if tr_usageMeasurements current = tr_usageMeasurements next then retE current
                else
                  thenE (writeMetadataFile hid (threadMetadataOf next)) (\<lambda>_.
                  thenE (modStore (\<lambda>s. s\<lparr>st_records := js_set hid next (st_records s)\<rparr>)) (\<lambda>_.
                  retE next)))))"

subsection \<open>Section placements\<close>

text \<open>
  The loop that skips removed anchors: \<open>removed\<close> maps a removed Thread to the Thread its
  placement preceded, \<open>visited\<close> cuts a cycle.
\<close>

function follow_anchor :: "(string, string option) jsmap \<Rightarrow> string list \<Rightarrow> string option \<Rightarrow> string option" where
  "follow_anchor removed visited None = None"
| "follow_anchor removed visited (Some b) =
     (case js_get removed b of
        None \<Rightarrow> Some b
      | Some successor \<Rightarrow>
          if b \<in> set visited then None else follow_anchor removed (b # visited) successor)"
  by pat_completeness auto
termination
proof (relation "measure (\<lambda>(removed, visited, _). card (set (js_keys removed) - set visited))")
  fix removed :: "(string, string option) jsmap" and visited b successor
  assume get: "js_get removed b = Some successor" and fresh: "b \<notin> set visited"
  have "b \<in> set (js_keys removed)"
    using get by (metis js_has_def js_has_iff option.distinct(1))
  then have "set (js_keys removed) - set (b # visited) \<subset> set (js_keys removed) - set visited"
    using fresh by auto
  then show "((removed, b # visited, successor), (removed, visited, Some b))
      \<in> measure (\<lambda>(removed, visited, _). card (set (js_keys removed) - set visited))"
    by (simp add: psubset_card_mono)
qed simp

definition removedSuccessors :: "store \<Rightarrow> (string, string option) jsmap" where
  "removedSuccessors s =
     fold (\<lambda>p. js_set (pl_hostThreadId p) (pl_beforeThreadId p))
       (filter (\<lambda>p. \<not> js_has (st_records s) (pl_hostThreadId p)) (st_sectionPlacements s)) []"

definition visible_placements :: "store \<Rightarrow> section_placement list" where
  "visible_placements s =
     List.map (\<lambda>p. p\<lparr>pl_beforeThreadId := follow_anchor (removedSuccessors s) [] (pl_beforeThreadId p)\<rparr>)
       (filter (\<lambda>p. js_has (st_records s) (pl_hostThreadId p)) (st_sectionPlacements s))"

definition listSectionPlacements :: "section_placement list eff" where
  "listSectionPlacements =
     thenE requireInitialized (\<lambda>_. thenE getStore (\<lambda>s. retE (visible_placements s)))"

definition replaceSectionPlacements :: "section_placement list \<Rightarrow> section_placement list eff" where
  "replaceSectionPlacements placements =
     thenE requireInitialized (\<lambda>_. thenE getStore (\<lambda>s.
     thenE (catchE
              (writeSectionPlacementsFile
                 (filter (\<lambda>p. js_has (st_records s) (pl_hostThreadId p)) placements))
              (\<lambda>_. throwE IO_ERROR)) (\<lambda>ps.
     thenE (modStore (\<lambda>s. s\<lparr>st_sectionPlacements := ps\<rparr>)) (\<lambda>_. retE ps))))"

subsection \<open>Removal\<close>

text \<open>\<open>#remove\<close>: the record file goes first and comes back when a later unlink fails.\<close>

definition removeRecord :: "host_thread_id \<Rightarrow> unit eff" where
  "removeRecord hid =
     thenE getStore (\<lambda>s.
       case js_get (st_records s) hid of
         None \<Rightarrow> retE ()
       | Some current \<Rightarrow>
           thenE (rmThread hid) (\<lambda>_.
           thenE (catchE (thenE (rmBackup hid) (\<lambda>_. rmMetadata hid))
                    (\<lambda>e. thenE (replaceFile hid current False) (\<lambda>_. throwE e))) (\<lambda>_.
           thenE (modStore (\<lambda>s. s\<lparr>st_records := js_delete hid (st_records s)\<rparr>)) (\<lambda>_. rebuildE))))"

definition removeProvisional :: "host_thread_id \<Rightarrow> unit eff" where
  "removeProvisional hid =
     thenE requireInitialized (\<lambda>_. thenE getStore (\<lambda>s.
       case js_get (st_records s) hid of
         Some r \<Rightarrow> if tr_state r = Ready then throwE MAPPING_CONFLICT else removeRecord hid
       | None \<Rightarrow> removeRecord hid))"

definition removeThread :: "host_thread_id \<Rightarrow> unit eff" where
  "removeThread hid = thenE requireInitialized (\<lambda>_. removeRecord hid)"

end
