(* ===== verification/StoreInvariant.thy ===== *)
theory StoreInvariant
  imports MappingStore
begin

text \<open>
  The identity invariant of the mapping store and its preservation. Every record sits under its
  own id, no two records share a create request, a native session, a Host Turn or a native Turn,
  and the lookup maps hold exactly what the records say. \<open>#rebuildIndexes\<close> therefore never throws
  after an admitted write: this is what \<open>#validateGlobal\<close> is for.
\<close>

subsection \<open>Records that may live side by side\<close>

definition compatible :: "thread_record \<Rightarrow> thread_record \<Rightarrow> bool" where
  "compatible a b =
     (tr_createRequestId a \<noteq> tr_createRequestId b \<and>
      (ownSessionKey a = None \<or> ownSessionKey a \<noteq> ownSessionKey b) \<and>
      tm_hostTurnId ` set (tr_turnMappings a) \<inter> tm_hostTurnId ` set (tr_turnMappings b) = {} \<and>
      nativeTurnKey ` set (tr_turnMappings a) \<inter> nativeTurnKey ` set (tr_turnMappings b) = {})"

lemma compatibleD:
  assumes "compatible a b"
  shows "tr_createRequestId a \<noteq> tr_createRequestId b"
    and "ownSessionKey a = Some k \<Longrightarrow> ownSessionKey b \<noteq> Some k"
    and "m \<in> set (tr_turnMappings a) \<Longrightarrow> m' \<in> set (tr_turnMappings b) \<Longrightarrow> tm_hostTurnId m \<noteq> tm_hostTurnId m'"
    and "m \<in> set (tr_turnMappings a) \<Longrightarrow> m' \<in> set (tr_turnMappings b) \<Longrightarrow> nativeTurnKey m \<noteq> nativeTurnKey m'"
  using assms unfolding compatible_def by auto

lemma compatible_sym: "compatible a b \<Longrightarrow> compatible b a"
  by (auto simp: compatible_def)

definition records_inv :: "(host_thread_id, thread_record) jsmap \<Rightarrow> bool" where
  "records_inv rs =
     (distinct (js_keys rs) \<and>
      (\<forall>(k, r)\<in>set rs. tr_hostThreadId r = k \<and> record_ok r) \<and>
      (\<forall>(k, r)\<in>set rs. \<forall>(k', r')\<in>set rs. k \<noteq> k' \<longrightarrow> compatible r r'))"

lemma records_invD:
  assumes "records_inv rs"
  shows "distinct (js_keys rs)" and "(k, r) \<in> set rs \<Longrightarrow> tr_hostThreadId r = k"
    and "(k, r) \<in> set rs \<Longrightarrow> record_ok r"
    and "(k, r) \<in> set rs \<Longrightarrow> (k', r') \<in> set rs \<Longrightarrow> k \<noteq> k' \<Longrightarrow> compatible r r'"
  using assms unfolding records_inv_def by auto

definition delegations_compatible :: "delegation_record \<Rightarrow> delegation_record \<Rightarrow> bool" where
  "delegations_compatible a b =
     (dl_childHostThreadId a \<noteq> dl_childHostThreadId b \<and>
      (dl_requestId a = None \<or> dl_requestId a \<noteq> dl_requestId b))"

definition delegations_inv :: "(host_thread_id, delegation_record) jsmap \<Rightarrow> bool" where
  "delegations_inv ds =
     (distinct (js_keys ds) \<and>
      (\<forall>(k, d)\<in>set ds. dl_delegationId d = k \<and> delegation_ok d) \<and>
      (\<forall>(k, d)\<in>set ds. \<forall>(k', d')\<in>set ds. k \<noteq> k' \<longrightarrow> delegations_compatible d d'))"

lemma delegations_invD:
  assumes "delegations_inv ds"
  shows "distinct (js_keys ds)" and "(k, d) \<in> set ds \<Longrightarrow> dl_delegationId d = k"
    and "(k, d) \<in> set ds \<Longrightarrow> delegation_ok d"
    and "(k, d) \<in> set ds \<Longrightarrow> (k', d') \<in> set ds \<Longrightarrow> k \<noteq> k' \<Longrightarrow> delegations_compatible d d'"
  using assms unfolding delegations_inv_def by auto

text \<open>An entry that follows others has a key of its own.\<close>

lemma distinct_keys_mid:
  assumes "distinct (js_keys (pre @ (k, r) # rs))" and "(k', r') \<in> set pre"
  shows "k \<noteq> k'"
  using assms by (auto dest: in_set_zipE simp: image_iff)

subsection \<open>Indexes that agree with the records\<close>

definition records_indexed :: "(host_thread_id, thread_record) jsmap \<Rightarrow> store \<Rightarrow> bool" where
  "records_indexed rs s =
     ((\<forall>c h. js_get (st_createRequests s) c = Some h \<longleftrightarrow>
         (\<exists>r. (h, r) \<in> set rs \<and> tr_createRequestId r = c)) \<and>
      (\<forall>k h. js_get (st_nativeSessions s) k = Some h \<longleftrightarrow>
         (\<exists>r. (h, r) \<in> set rs \<and> ownSessionKey r = Some k)) \<and>
      (\<forall>t h. js_get (st_hostTurns s) t = Some h \<longleftrightarrow>
         (\<exists>r. (h, r) \<in> set rs \<and> t \<in> tm_hostTurnId ` set (tr_turnMappings r))) \<and>
      (\<forall>k t. js_get (st_nativeTurns s) k = Some t \<longleftrightarrow>
         (\<exists>h r m. (h, r) \<in> set rs \<and> m \<in> set (tr_turnMappings r) \<and> nativeTurnKey m = k \<and>
            tm_hostTurnId m = t)))"

definition delegations_indexed :: "(host_thread_id, delegation_record) jsmap \<Rightarrow> store \<Rightarrow> bool" where
  "delegations_indexed ds s =
     ((\<forall>c k. js_get (st_delegationChildren s) c = Some k \<longleftrightarrow>
         (\<exists>d. (k, d) \<in> set ds \<and> dl_childHostThreadId d = c)) \<and>
      (\<forall>q k. js_get (st_delegationRequests s) q = Some k \<longleftrightarrow>
         (\<exists>d. (k, d) \<in> set ds \<and> dl_requestId d = Some q)))"

lemma records_indexedD:
  assumes "records_indexed rs s"
  shows "js_get (st_createRequests s) c = Some h \<longleftrightarrow> (\<exists>r. (h, r) \<in> set rs \<and> tr_createRequestId r = c)"
    and "js_get (st_nativeSessions s) k = Some h \<longleftrightarrow> (\<exists>r. (h, r) \<in> set rs \<and> ownSessionKey r = Some k)"
    and "js_get (st_hostTurns s) t = Some h \<longleftrightarrow>
         (\<exists>r. (h, r) \<in> set rs \<and> t \<in> tm_hostTurnId ` set (tr_turnMappings r))"
    and "js_get (st_nativeTurns s) k = Some t \<longleftrightarrow>
         (\<exists>h r m. (h, r) \<in> set rs \<and> m \<in> set (tr_turnMappings r) \<and> nativeTurnKey m = k \<and>
            tm_hostTurnId m = t)"
  using assms by (simp_all add: records_indexed_def)

lemma delegations_indexedD:
  assumes "delegations_indexed ds s"
  shows "js_get (st_delegationChildren s) c = Some k \<longleftrightarrow> (\<exists>d. (k, d) \<in> set ds \<and> dl_childHostThreadId d = c)"
    and "js_get (st_delegationRequests s) q = Some k \<longleftrightarrow> (\<exists>d. (k, d) \<in> set ds \<and> dl_requestId d = Some q)"
  using assms by (simp_all add: delegations_indexed_def)

definition store_inv :: "store \<Rightarrow> bool" where
  "store_inv s =
     (records_inv (st_records s) \<and> delegations_inv (st_delegations s) \<and>
      records_indexed (st_records s) s \<and> delegations_indexed (st_delegations s) s)"

lemma store_inv_new: "store_inv new_store"
  by (simp add: store_inv_def new_store_def records_inv_def delegations_inv_def records_indexed_def
      delegations_indexed_def)

subsection \<open>Building the indexes\<close>

lemma taken_by_other_None [simp]: "\<not> taken_by_other None k"
  by (simp add: taken_by_other_def)

lemma validate_mappings_Inr_iff:
  "validate_mappings s replacing ms = Inr () \<longleftrightarrow>
     (\<forall>m\<in>set ms. \<not> taken_by_other (js_get (st_hostTurns s) (tm_hostTurnId m)) replacing \<and>
        \<not> taken_by_other (js_get (st_nativeTurns s) (nativeTurnKey m)) (Some (tm_hostTurnId m)))"
  by (induction ms) auto

lemma validateGlobal_Inr_iff:
  "validateGlobal s r replacing = Inr u \<longleftrightarrow>
     \<not> taken_by_other (js_get (st_createRequests s) (tr_createRequestId r)) replacing \<and>
     (\<forall>key. ownSessionKey r = Some key \<longrightarrow>
        \<not> taken_by_other (js_get (st_nativeSessions s) key) replacing) \<and>
     (\<forall>m\<in>set (tr_turnMappings r).
        \<not> taken_by_other (js_get (st_hostTurns s) (tm_hostTurnId m)) replacing \<and>
        \<not> taken_by_other (js_get (st_nativeTurns s) (nativeTurnKey m)) (Some (tm_hostTurnId m)))"
  using validate_mappings_Inr_iff [of s replacing "tr_turnMappings r"]
  by (auto simp: validateGlobal_def split: option.splits)

lemma js_get_fold_set:
  assumes "distinct (List.map f ms)"
  shows "js_get (fold (\<lambda>m. js_set (f m) (g m)) ms idx) k =
     (case find (\<lambda>m. f m = k) ms of Some m \<Rightarrow> Some (g m) | None \<Rightarrow> js_get idx k)"
  using assms
proof (induction ms arbitrary: idx)
  case (Cons m ms)
  have "find (\<lambda>x. f x = k) ms = None" if "f m = k"
    using Cons.prems that by (auto simp: find_None_iff) (metis image_eqI)
  then show ?case using Cons by (auto split: option.splits)
qed simp

lemma js_get_fold_set_Some:
  assumes "distinct (List.map f ms)" and "\<And>m. m \<in> set ms \<Longrightarrow> js_get idx (f m) = None"
  shows "js_get (fold (\<lambda>m. js_set (f m) (g m)) ms idx) k = Some v \<longleftrightarrow>
     js_get idx k = Some v \<or> (\<exists>m\<in>set ms. f m = k \<and> g m = v)"
proof (cases "find (\<lambda>m. f m = k) ms")
  case None
  then have "\<forall>m\<in>set ms. f m \<noteq> k" by (auto simp: find_None_iff)
  moreover have "js_get (fold (\<lambda>m. js_set (f m) (g m)) ms idx) k = js_get idx k"
    by (simp add: js_get_fold_set assms(1) None)
  ultimately show ?thesis by auto
next
  case (Some m)
  then have m: "m \<in> set ms" "f m = k" by (auto simp: find_Some_iff)
  have inj: "inj_on f (set ms)" using assms(1) by (simp add: distinct_map)
  have uniq: "m' = m" if "m' \<in> set ms" "f m' = k" for m'
    using inj_onD [OF inj, of m' m] m that by simp
  have "js_get (fold (\<lambda>m. js_set (f m) (g m)) ms idx) k = Some (g m)"
    by (simp add: js_get_fold_set assms(1) Some)
  moreover have "js_get idx k = None" using assms(2) [OF m(1)] m(2) by simp
  moreover have "(\<exists>m'\<in>set ms. f m' = k \<and> g m' = v) \<longleftrightarrow> g m = v"
    using m uniq by blast
  ultimately show ?thesis by simp
qed

lemma records_indexed_absent:
  assumes ix: "records_indexed rs s" and comp: "\<forall>(k', r')\<in>set rs. compatible r r'"
  shows "js_get (st_createRequests s) (tr_createRequestId r) = None"
    and "\<And>key. ownSessionKey r = Some key \<Longrightarrow> js_get (st_nativeSessions s) key = None"
    and "\<And>m. m \<in> set (tr_turnMappings r) \<Longrightarrow> js_get (st_hostTurns s) (tm_hostTurnId m) = None"
    and "\<And>m. m \<in> set (tr_turnMappings r) \<Longrightarrow> js_get (st_nativeTurns s) (nativeTurnKey m) = None"
proof -
  note ixD = records_indexedD [OF ix]
  have c: "compatible r r'" if "(h, r') \<in> set rs" for h r' using comp that by auto
  show "js_get (st_createRequests s) (tr_createRequestId r) = None"
  proof (rule ccontr)
    assume "\<not> ?thesis"
    then obtain h r' where "(h, r') \<in> set rs" "tr_createRequestId r' = tr_createRequestId r"
      using ixD(1) by (metis not_Some_eq)
    then show False using compatibleD(1) [OF c] by metis
  qed
  show "js_get (st_nativeSessions s) key = None" if "ownSessionKey r = Some key" for key
  proof (rule ccontr)
    assume "\<not> ?thesis"
    then obtain h r' where "(h, r') \<in> set rs" "ownSessionKey r' = Some key"
      using ixD(2) by (metis not_Some_eq)
    then show False using compatibleD(2) [OF c that] by metis
  qed
  show "js_get (st_hostTurns s) (tm_hostTurnId m) = None" if "m \<in> set (tr_turnMappings r)" for m
  proof (rule ccontr)
    assume "\<not> ?thesis"
    then obtain h r' m' where "(h, r') \<in> set rs" "m' \<in> set (tr_turnMappings r')" "tm_hostTurnId m = tm_hostTurnId m'"
      using ixD(3) by (metis not_Some_eq imageE)
    then show False using compatibleD(3) [OF c that] by metis
  qed
  show "js_get (st_nativeTurns s) (nativeTurnKey m) = None" if "m \<in> set (tr_turnMappings r)" for m
  proof (rule ccontr)
    assume "\<not> ?thesis"
    then obtain h r' m' where "(h, r') \<in> set rs" "m' \<in> set (tr_turnMappings r')" "nativeTurnKey m' = nativeTurnKey m"
      using ixD(4) by (metis not_Some_eq)
    then show False using compatibleD(4) [OF c that] by metis
  qed
qed

lemma index_record_step:
  assumes ix: "records_indexed rs s" and comp: "\<forall>(k', r')\<in>set rs. compatible r r'"
    and ok: "record_ok r"
  shows "validateGlobal s r replacing = Inr ()"
    and "records_indexed (rs @ [(tr_hostThreadId r, r)]) (index_record r s)"
proof -
  note abs = records_indexed_absent [OF ix comp]
  show "validateGlobal s r replacing = Inr ()"
    by (simp add: validateGlobal_Inr_iff abs)
  have hosts: "js_get (st_hostTurns (index_record r s)) t = Some h \<longleftrightarrow>
      js_get (st_hostTurns s) t = Some h \<or> (\<exists>m\<in>set (tr_turnMappings r). tm_hostTurnId m = t \<and> tr_hostThreadId r = h)" for t h
    using js_get_fold_set_Some [OF record_ok_distinct(1) [OF ok], of "st_hostTurns s" "\<lambda>_. tr_hostThreadId r" t h] abs(3)
    by (simp add: index_record_def)
  have natives: "js_get (st_nativeTurns (index_record r s)) k = Some t \<longleftrightarrow>
      js_get (st_nativeTurns s) k = Some t \<or> (\<exists>m\<in>set (tr_turnMappings r). nativeTurnKey m = k \<and> tm_hostTurnId m = t)" for k t
    using js_get_fold_set_Some [OF record_ok_distinct(2) [OF ok], of "st_nativeTurns s" tm_hostTurnId k t] abs(4)
    by (simp add: index_record_def)
  have creates: "js_get (st_createRequests (index_record r s)) c = Some h \<longleftrightarrow>
      js_get (st_createRequests s) c = Some h \<or> c = tr_createRequestId r \<and> h = tr_hostThreadId r" for c h
    using abs(1) by (auto simp: index_record_def)
  have sessions: "js_get (st_nativeSessions (index_record r s)) k = Some h \<longleftrightarrow>
      js_get (st_nativeSessions s) k = Some h \<or> ownSessionKey r = Some k \<and> h = tr_hostThreadId r" for k h
    using abs(2) by (auto simp: index_record_def split: option.splits)
  show "records_indexed (rs @ [(tr_hostThreadId r, r)]) (index_record r s)"
    unfolding records_indexed_def hosts natives creates sessions
    using ix unfolding records_indexed_def by auto
qed

definition same_but_record_indexes :: "store \<Rightarrow> store \<Rightarrow> bool" where
  "same_but_record_indexes s s' =
     (st_records s' = st_records s \<and> st_delegations s' = st_delegations s \<and>
      st_delegationRequests s' = st_delegationRequests s \<and>
      st_delegationChildren s' = st_delegationChildren s \<and>
      st_sectionPlacements s' = st_sectionPlacements s \<and>
      st_supersededSessions s' = st_supersededSessions s \<and>
      st_initialized s' = st_initialized s \<and> st_lockHeld s' = st_lockHeld s)"

lemma index_records_ok:
  assumes "records_inv (pre @ rs)" and "records_indexed pre s"
  shows "\<exists>s'. index_records rs s = (Inr (), s') \<and> records_indexed (pre @ rs) s' \<and>
     same_but_record_indexes s s'"
  using assms
proof (induction rs arbitrary: pre s)
  case Nil
  then show ?case by (simp add: same_but_record_indexes_def)
next
  case (Cons kr rs)
  obtain k r where kr: "kr = (k, r)" by (cases kr)
  have mem: "(k, r) \<in> set (pre @ kr # rs)" using kr by simp
  note inv = records_invD [OF Cons.prems(1)]
  have ok: "record_ok r" "tr_hostThreadId r = k" using inv(2,3) [OF mem] by auto
  have comp: "\<forall>(k', r')\<in>set pre. compatible r r'"
    using inv(4) [OF mem] distinct_keys_mid [OF inv(1) [unfolded kr]] by auto
  note step = index_record_step [OF Cons.prems(2) comp ok(1)]
  have "records_inv ((pre @ [(k, r)]) @ rs)" using Cons.prems(1) kr by simp
  from Cons.IH [OF this] step(2) ok obtain s' where
    "index_records rs (index_record r s) = (Inr (), s')"
    "records_indexed (pre @ kr # rs) s'" "same_but_record_indexes (index_record r s) s'"
    using kr by auto
  moreover have "same_but_record_indexes s (index_record r s)"
    by (simp add: same_but_record_indexes_def index_record_def)
  ultimately show ?case
    using step(1) kr ok by (auto simp: same_but_record_indexes_def)
qed

lemma delegation_requestId_nonempty: "delegation_ok d \<Longrightarrow> dl_requestId d \<noteq> Some []"
  by (auto simp: delegation_ok_def text_max_def nonblank_def trim_def)

definition same_but_delegation_indexes :: "store \<Rightarrow> store \<Rightarrow> bool" where
  "same_but_delegation_indexes s s' =
     (st_records s' = st_records s \<and> st_delegations s' = st_delegations s \<and>
      st_createRequests s' = st_createRequests s \<and> st_nativeSessions s' = st_nativeSessions s \<and>
      st_hostTurns s' = st_hostTurns s \<and> st_nativeTurns s' = st_nativeTurns s \<and>
      st_sectionPlacements s' = st_sectionPlacements s \<and>
      st_supersededSessions s' = st_supersededSessions s \<and>
      st_initialized s' = st_initialized s \<and> st_lockHeld s' = st_lockHeld s)"

lemma index_delegations_ok:
  assumes "delegations_inv (pre @ ds)" and "delegations_indexed pre s"
  shows "\<exists>s'. index_delegations ds s = (Inr (), s') \<and> delegations_indexed (pre @ ds) s' \<and>
     same_but_delegation_indexes s s'"
  using assms
proof (induction ds arbitrary: pre s)
  case Nil
  then show ?case by (simp add: same_but_delegation_indexes_def)
next
  case (Cons kd ds)
  obtain k d where kd: "kd = (k, d)" by (cases kd)
  let ?s1 = "s\<lparr>st_delegationChildren := js_set (dl_childHostThreadId d) k (st_delegationChildren s)\<rparr>"
  let ?s2 = "(case dl_requestId d of None \<Rightarrow> ?s1
     | Some q \<Rightarrow> ?s1\<lparr>st_delegationRequests := js_set q k (st_delegationRequests s)\<rparr>)"
  have mem: "(k, d) \<in> set (pre @ kd # ds)" using kd by simp
  note inv = delegations_invD [OF Cons.prems(1)]
  have ok: "delegation_ok d" "dl_delegationId d = k" using inv(2,3) [OF mem] by auto
  have comp: "\<forall>(k', d')\<in>set pre. delegations_compatible d d'"
    using inv(4) [OF mem] distinct_keys_mid [OF inv(1) [unfolded kd]] by auto
  note ixD = delegations_indexedD [OF Cons.prems(2)]
  have comp': "dl_childHostThreadId d' \<noteq> dl_childHostThreadId d"
    "dl_requestId d = Some q \<Longrightarrow> dl_requestId d' \<noteq> Some q" if "(k', d') \<in> set pre" for k' d' q
    using comp that by (auto simp: delegations_compatible_def)
  have child: "js_get (st_delegationChildren s) (dl_childHostThreadId d) = None"
    using comp' by (cases "js_get (st_delegationChildren s) (dl_childHostThreadId d)") (auto simp: ixD)
  have req: "js_get (st_delegationRequests s) q = None" if "dl_requestId d = Some q" for q
    using comp' that by (cases "js_get (st_delegationRequests s) q") (auto simp: ixD)
  have run: "index_delegations (kd # ds) s = index_delegations ds ?s2"
    using child req ok delegation_requestId_nonempty [OF ok(1)]
    by (auto simp: kd js_has_def split: option.splits)
  have ix: "delegations_indexed (pre @ [(k, d)]) ?s2"
    using comp' by (cases "dl_requestId d") (auto simp: delegations_indexed_def ixD)
  have inv': "delegations_inv ((pre @ [(k, d)]) @ ds)" using Cons.prems(1) kd by simp
  obtain s' where s': "index_delegations ds ?s2 = (Inr (), s')"
    "delegations_indexed (pre @ kd # ds) s'" "same_but_delegation_indexes ?s2 s'"
    using Cons.IH [OF inv' ix] kd by auto
  have "same_but_delegation_indexes s s'"
    using s'(3) by (cases "dl_requestId d") (auto simp: same_but_delegation_indexes_def)
  then show ?case using s' run by auto
qed

text \<open>After admitted changes the indexes are rebuilt without an error.\<close>

theorem rebuildIndexes_ok:
  assumes "records_inv (st_records s)" and "delegations_inv (st_delegations s)"
  shows "\<exists>s'. rebuildIndexes s = (Inr (), s') \<and> store_inv s' \<and>
     st_records s' = st_records s \<and> st_delegations s' = st_delegations s \<and>
     st_sectionPlacements s' = st_sectionPlacements s \<and>
     st_supersededSessions s' = st_supersededSessions s \<and>
     st_initialized s' = st_initialized s \<and> st_lockHeld s' = st_lockHeld s"
proof -
  have "delegations_indexed [] (clear_indexes s)"
    by (simp add: delegations_indexed_def clear_indexes_def)
  from index_delegations_ok [of "[]", OF _ this] assms(2) obtain s1 where
    s1: "index_delegations (st_delegations s) (clear_indexes s) = (Inr (), s1)"
    "delegations_indexed (st_delegations s) s1" "same_but_delegation_indexes (clear_indexes s) s1"
    by auto
  have "records_indexed [] s1"
    using s1(3) by (auto simp: records_indexed_def same_but_delegation_indexes_def clear_indexes_def)
  from index_records_ok [of "[]", OF _ this] assms(1) obtain s2 where
    s2: "index_records (st_records s) s1 = (Inr (), s2)"
    "records_indexed (st_records s) s2" "same_but_record_indexes s1 s2"
    by auto
  have "delegations_indexed (st_delegations s) s2"
    using s1(2) s2(3) by (simp add: delegations_indexed_def same_but_record_indexes_def)
  then have "store_inv s2"
    using assms s1 s2
    by (auto simp: store_inv_def same_but_record_indexes_def same_but_delegation_indexes_def clear_indexes_def)
  then show ?thesis
    using s1 s2 by (auto simp: rebuildIndexes_def same_but_record_indexes_def
        same_but_delegation_indexes_def clear_indexes_def)
qed

end
