(* ===== verification/StoreEffects.thy ===== *)
theory StoreEffects
  imports StoreInvariant
begin

text \<open>
  A small calculus for the effects of the mapping store. \<open>runs s m Q\<close> says that \<open>m\<close>, started
  on any disk and any fault script with the store \<open>s\<close> in memory, ends with a result and a store
  that satisfy \<open>Q\<close>. File operations do not touch memory (\<open>keepsStore\<close>), so the rules for them
  hold whatever fails.
\<close>

definition keepsStore :: "'a eff \<Rightarrow> bool" where
  "keepsStore m = (\<forall>w. w_store (snd (m w)) = w_store w)"

definition runs :: "store \<Rightarrow> 'a eff \<Rightarrow> (store_error + 'a \<Rightarrow> store \<Rightarrow> bool) \<Rightarrow> bool" where
  "runs s m Q = (\<forall>w. w_store w = s \<longrightarrow> Q (fst (m w)) (w_store (snd (m w))))"

named_theorems keeps \<open>effects that leave the memory alone\<close>

lemma keepsStoreD: "keepsStore m \<Longrightarrow> m w = (r, w') \<Longrightarrow> w_store w' = w_store w"
  unfolding keepsStore_def by (metis snd_conv)

lemma keeps_basic [keeps]:
  "keepsStore (retE a)" "keepsStore (throwE e)" "keepsStore (liftE r)" "keepsStore getStore"
  "keepsStore (modDisk f)" "keepsStore (syscall e)" "keepsStore requireInitialized"
  by (auto simp: keepsStore_def eff_defs syscall_def requireInitialized_def split: list.splits)

lemma keeps_thenE [keeps]: "keepsStore m \<Longrightarrow> (\<And>a. keepsStore (f a)) \<Longrightarrow> keepsStore (thenE m f)"
  by (auto simp: keepsStore_def thenE_def split: prod.splits sum.splits) (metis snd_conv)+

lemma keeps_catchE [keeps]: "keepsStore m \<Longrightarrow> (\<And>e. keepsStore (h e)) \<Longrightarrow> keepsStore (catchE m h)"
  by (auto simp: keepsStore_def catchE_def split: prod.splits sum.splits) (metis snd_conv)+

lemma keeps_if [keeps]: "keepsStore a \<Longrightarrow> keepsStore b \<Longrightarrow> keepsStore (if c then a else b)"
  by simp

lemma keeps_if_fun [keeps]: "keepsStore a \<Longrightarrow> keepsStore b \<Longrightarrow> keepsStore (\<lambda>w. if c then a w else b w)"
  by (simp add: keepsStore_def)

lemma keeps_pair [keeps]: "keepsStore (\<lambda>w. (r, w))"
  by (simp add: keepsStore_def)

lemma keeps_case_disk [keeps]:
  assumes "keepsStore a" and "\<And>v. keepsStore (b v)"
  shows "keepsStore (\<lambda>w. case d w of None \<Rightarrow> a w | Some v \<Rightarrow> b v w)"
  using assms by (simp add: keepsStore_def split: option.splits)

lemma keeps_replaceFile [keeps]: "keepsStore (replaceFile t r b)"
  unfolding replaceFile_def by (intro keeps)

lemma keeps_readMetadata [keeps]: "keepsStore (readMetadata h)"
  by (auto simp: keepsStore_def readMetadata_def eff_defs syscall_def split: list.splits option.splits)

lemma keeps_writeMetadataFile [keeps]: "keepsStore (writeMetadataFile h md)"
  unfolding writeMetadataFile_def Let_def by (intro keeps)

lemma keeps_files [keeps]:
  "keepsStore (replaceDelegationFile d)" "keepsStore (rmThread h)" "keepsStore (rmBackup h)"
  "keepsStore (rmMetadata h)" "keepsStore (writeSectionPlacementsFile ps)"
  "keepsStore (writeSupersededSessionsFile ss)"
  unfolding replaceDelegationFile_def rmThread_def rmBackup_def rmMetadata_def
    writeSectionPlacementsFile_def writeSupersededSessionsFile_def
  by (intro keeps)+

subsection \<open>Rules\<close>

lemma runsI: "(\<And>w r w'. w_store w = s \<Longrightarrow> m w = (r, w') \<Longrightarrow> Q r (w_store w')) \<Longrightarrow> runs s m Q"
  by (simp add: runs_def)

lemma runsD: "runs s m Q \<Longrightarrow> w_store w = s \<Longrightarrow> m w = (r, w') \<Longrightarrow> Q r (w_store w')"
  by (auto simp: runs_def)

lemma runs_ret: "Q (Inr a) s \<Longrightarrow> runs s (retE a) Q"
  by (simp add: runs_def retE_def)

lemma runs_throw: "Q (Inl e) s \<Longrightarrow> runs s (throwE e) Q"
  by (simp add: runs_def throwE_def)

lemma runs_require:
  "(\<not> st_initialized s \<Longrightarrow> Q (Inl STORE_NOT_INITIALIZED) s) \<Longrightarrow> (st_initialized s \<Longrightarrow> runs s (f ()) Q) \<Longrightarrow>
   runs s (thenE requireInitialized f) Q"
  by (auto simp: runs_def thenE_def requireInitialized_def)

lemma runs_get: "runs s (f s) Q \<Longrightarrow> runs s (thenE getStore f) Q"
  by (auto simp: runs_def thenE_def getStore_def)

lemma runs_lift:
  "(\<And>e. r = Inl e \<Longrightarrow> Q (Inl e) s) \<Longrightarrow> (\<And>a. r = Inr a \<Longrightarrow> runs s (f a) Q) \<Longrightarrow>
   runs s (thenE (liftE r) f) Q"
  by (cases r) (auto simp: runs_def thenE_def liftE_def)

lemma runs_mod: "runs (g s) (f ()) Q \<Longrightarrow> runs s (thenE (modStore g) f) Q"
  by (auto simp: runs_def thenE_def modStore_def)

lemma runs_keep:
  assumes "keepsStore m" and "\<And>e. Q (Inl e) s" and "\<And>a. runs s (f a) Q"
  shows "runs s (thenE m f) Q"
proof (rule runsI)
  fix w r w' assume w: "w_store w = s" "thenE m f w = (r, w')"
  obtain r1 w1 where m: "m w = (r1, w1)" by (cases "m w")
  then have s1: "w_store w1 = s" using keepsStoreD [OF assms(1)] w(1) by simp
  show "Q r (w_store w')"
  proof (cases r1)
    case (Inl e)
    then show ?thesis using w(2) m s1 assms(2) by (auto simp: thenE_def)
  next
    case (Inr a)
    then show ?thesis using w(2) m runsD [OF assms(3) s1] by (simp add: thenE_def)
  qed
qed

lemma runs_then:
  assumes "runs s m P" and "\<And>e s'. P (Inl e) s' \<Longrightarrow> Q (Inl e) s'" and "\<And>a s'. P (Inr a) s' \<Longrightarrow> runs s' (f a) Q"
  shows "runs s (thenE m f) Q"
proof (rule runsI)
  fix w r w' assume w: "w_store w = s" "thenE m f w = (r, w')"
  obtain r1 w1 where m: "m w = (r1, w1)" by (cases "m w")
  then have p: "P r1 (w_store w1)" using runsD [OF assms(1) w(1)] by simp
  show "Q r (w_store w')"
  proof (cases r1)
    case (Inl e)
    then show ?thesis using w(2) m p assms(2) by (auto simp: thenE_def)
  next
    case (Inr a)
    then show ?thesis using w(2) m p runsD [OF assms(3)] by (auto simp: thenE_def)
  qed
qed

lemma runs_catch_keep:
  assumes "keepsStore m" and "\<And>a. Q (Inr a) s" and "\<And>e. runs s (h e) Q"
  shows "runs s (catchE m h) Q"
proof (rule runsI)
  fix w r w' assume w: "w_store w = s" "catchE m h w = (r, w')"
  obtain r1 w1 where m: "m w = (r1, w1)" by (cases "m w")
  then have s1: "w_store w1 = s" using keepsStoreD [OF assms(1)] w(1) by simp
  show "Q r (w_store w')"
    using w(2) m s1 assms(2) runsD [OF assms(3) s1] by (cases r1) (auto simp: catchE_def)
qed

lemma runs_rebuild:
  assumes "rebuildIndexes s = (Inr (), s')" and "Q (Inr ()) s'"
  shows "runs s rebuildE Q"
  using assms by (simp add: runs_def rebuildE_def)

lemma runs_conseq: "runs s m P \<Longrightarrow> (\<And>r s'. P r s' \<Longrightarrow> Q r s') \<Longrightarrow> runs s m Q"
  by (auto simp: runs_def)

lemma runs_option:
  "(x = None \<Longrightarrow> runs s a Q) \<Longrightarrow> (\<And>v. x = Some v \<Longrightarrow> runs s (b v) Q) \<Longrightarrow>
   runs s (case x of None \<Rightarrow> a | Some v \<Rightarrow> b v) Q"
  by (cases x) auto

lemma runs_if: "(c \<Longrightarrow> runs s a Q) \<Longrightarrow> (\<not> c \<Longrightarrow> runs s b Q) \<Longrightarrow> runs s (if c then a else b) Q"
  by simp

lemma keeps_runs: "keepsStore m \<Longrightarrow> (\<And>r. Q r s) \<Longrightarrow> runs s m Q"
  by (auto simp: runs_def keepsStore_def)

end
