(* ===== verification/StorePreserve.thy ===== *)
theory StorePreserve
  imports StoreEffects
begin

text \<open>
  Every operation of the mapping store keeps the identity invariant, whatever system calls
  fail, and what each writer returns and leaves in memory.
\<close>

subsection \<open>What an admitted record shares with the others: nothing\<close>

lemma store_invD:
  assumes "store_inv s"
  shows "records_inv (st_records s)" "delegations_inv (st_delegations s)"
    "records_indexed (st_records s) s" "delegations_indexed (st_delegations s) s"
  using assms by (simp_all add: store_inv_def)

lemma admitted_compatible_indexed:
  assumes ix: "records_indexed rs s" and v: "validateGlobal s r replacing = Inr ()"
    and mem: "(k', r') \<in> set rs" and other: "Some k' \<noteq> replacing"
    and r': "tr_hostThreadId r' = k'" "record_ok r'"
  shows "compatible r r'"
proof -
  note ix = records_indexedD [OF ix]
  have k': "k' \<noteq> []" using record_ok_ids(1) r' by auto
  have free: "\<not> taken_by_other (Some k') replacing \<Longrightarrow> False"
    using k' other by (simp add: taken_by_other_def)
  note V = v [unfolded validateGlobal_Inr_iff]
  have create: "tr_createRequestId r \<noteq> tr_createRequestId r'"
  proof
    assume "tr_createRequestId r = tr_createRequestId r'"
    then have "js_get (st_createRequests s) (tr_createRequestId r) = Some k'" using ix(1) mem by auto
    then show False using V free by simp
  qed
  have session: "ownSessionKey r' \<noteq> Some key" if "ownSessionKey r = Some key" for key
  proof
    assume "ownSessionKey r' = Some key"
    then have "js_get (st_nativeSessions s) key = Some k'" using ix(2) mem by auto
    then show False using V that free by simp
  qed
  have host: "tm_hostTurnId m \<noteq> tm_hostTurnId m'"
    if m: "m \<in> set (tr_turnMappings r)" and m': "m' \<in> set (tr_turnMappings r')" for m m'
  proof
    assume "tm_hostTurnId m = tm_hostTurnId m'"
    then have "js_get (st_hostTurns s) (tm_hostTurnId m) = Some k'" using ix(3) mem m' by auto
    then show False using V m free by force
  qed
  have native: "nativeTurnKey m \<noteq> nativeTurnKey m'"
    if m: "m \<in> set (tr_turnMappings r)" and m': "m' \<in> set (tr_turnMappings r')" for m m'
  proof
    assume "nativeTurnKey m = nativeTurnKey m'"
    then have "js_get (st_nativeTurns s) (nativeTurnKey m) = Some (tm_hostTurnId m')"
      using ix(4) mem m' by auto
    moreover have "tm_hostTurnId m' \<noteq> []" using record_ok_ids(3) r'(2) m' by auto
    ultimately have "tm_hostTurnId m' = tm_hostTurnId m" using V m by (force simp: taken_by_other_def)
    then show False using host [OF m m'] by simp
  qed
  show ?thesis
    unfolding compatible_def using create session host native
    by (cases "ownSessionKey r") (auto simp: disjoint_iff image_iff)
qed

lemma admitted_compatible:
  assumes "store_inv s" and "validateGlobal s r replacing = Inr ()"
    and "(k', r') \<in> set (st_records s)" and "Some k' \<noteq> replacing"
  shows "compatible r r'"
  using admitted_compatible_indexed [OF store_invD(3) [OF assms(1)] assms(2-4)]
    records_invD(2,3) [OF store_invD(1) [OF assms(1)] assms(3)] by simp

lemma records_inv_set:
  assumes inv: "records_inv rs" and ok: "record_ok r"
    and comp: "\<And>k' r'. (k', r') \<in> set rs \<Longrightarrow> k' \<noteq> tr_hostThreadId r \<Longrightarrow> compatible r r'"
  shows "records_inv (js_set (tr_hostThreadId r) r rs)"
  unfolding records_inv_def set_js_set [OF records_invD(1) [OF inv]]
  using records_invD [OF inv] ok comp by (auto intro: compatible_sym)

lemma records_inv_delete: "records_inv rs \<Longrightarrow> records_inv (js_delete h rs)"
  unfolding records_inv_def set_js_delete by (auto simp del: delete_conv)

lemma delegations_inv_delete: "delegations_inv ds \<Longrightarrow> delegations_inv (js_delete h ds)"
  unfolding delegations_inv_def set_js_delete by (auto simp del: delete_conv)

lemma delegations_inv_set:
  assumes inv: "delegations_inv ds" and ok: "delegation_ok d"
    and comp: "\<And>k' d'. (k', d') \<in> set ds \<Longrightarrow> k' \<noteq> dl_delegationId d \<Longrightarrow> delegations_compatible d d'"
  shows "delegations_inv (js_set (dl_delegationId d) d ds)"
proof -
  have sym: "delegations_compatible a b \<Longrightarrow> delegations_compatible b a" for a b
    by (auto simp: delegations_compatible_def)
  show ?thesis
    unfolding delegations_inv_def set_js_set [OF delegations_invD(1) [OF inv]]
    using delegations_invD [OF inv] ok comp by (auto intro: sym)
qed

text \<open>\<open>written s rs s'\<close>: the records became \<open>rs\<close> and the indexes follow; the rest is as before.\<close>

definition written :: "store \<Rightarrow> (host_thread_id, thread_record) jsmap \<Rightarrow> store \<Rightarrow> bool" where
  "written s rs s' =
     (store_inv s' \<and> st_records s' = rs \<and> st_delegations s' = st_delegations s \<and>
      st_sectionPlacements s' = st_sectionPlacements s \<and>
      st_supersededSessions s' = st_supersededSessions s \<and>
      st_initialized s' = st_initialized s \<and> st_lockHeld s' = st_lockHeld s)"

lemma rebuild_records:
  assumes "store_inv s" and "records_inv rs"
  obtains s' where "rebuildIndexes (s\<lparr>st_records := rs\<rparr>) = (Inr (), s')" "written s rs s'"
  using rebuildIndexes_ok [of "s\<lparr>st_records := rs\<rparr>"] assms
  by (auto simp: written_def store_inv_def)

lemma rebuild_delegations:
  assumes "store_inv s" and "delegations_inv ds"
  obtains s' where "rebuildIndexes (s\<lparr>st_delegations := ds\<rparr>) = (Inr (), s')" "store_inv s'"
    "st_delegations s' = ds" "st_records s' = st_records s" "st_initialized s' = st_initialized s"
proof -
  have "\<exists>s'. rebuildIndexes (s\<lparr>st_delegations := ds\<rparr>) = (Inr (), s') \<and> store_inv s' \<and>
      st_records s' = st_records s \<and> st_delegations s' = ds \<and> st_initialized s' = st_initialized s"
    using rebuildIndexes_ok [of "s\<lparr>st_delegations := ds\<rparr>"] store_invD(1) [OF assms(1)] assms(2)
    by simp blast
  then show ?thesis using that by blast
qed

lemma runs_write_record:
  assumes inv: "store_inv s" and ok: "record_ok r" and hid: "tr_hostThreadId r = hid"
    and v: "validateGlobal s r replacing = Inr ()"
    and replacing: "replacing = Some hid \<or> replacing = None"
    and Q: "\<And>s'. written s (js_set hid r (st_records s)) s' \<Longrightarrow> runs s' (f ()) Q"
  shows "runs s (thenE (modStore (\<lambda>s. s\<lparr>st_records := js_set hid r (st_records s)\<rparr>))
                   (\<lambda>_. thenE rebuildE f)) Q"
proof -
  have "compatible r r'" if "(k', r') \<in> set (st_records s)" "k' \<noteq> hid" for k' r'
    using admitted_compatible [OF inv v that(1)] that(2) replacing by auto
  then have "records_inv (js_set hid r (st_records s))"
    using records_inv_set [OF store_invD(1) [OF inv] ok] hid by auto
  from rebuild_records [OF inv this] obtain s' where
    s': "rebuildIndexes (s\<lparr>st_records := js_set hid r (st_records s)\<rparr>) = (Inr (), s')"
      "written s (js_set hid r (st_records s)) s'" by blast
  show ?thesis
    by (rule runs_mod, rule runs_then [where P = "\<lambda>r t. r = Inr () \<and> t = s'"])
      (use s' Q in \<open>auto intro!: runs_rebuild\<close>)
qed

subsection \<open>Updates\<close>

definition stamped :: "timestamp \<Rightarrow> bool \<Rightarrow> thread_record \<Rightarrow> thread_record \<Rightarrow> thread_record" where
  "stamped now keep current c =
     c\<lparr>tr_revision := tr_revision current + 1,
       tr_updatedAt := (if keep then tr_updatedAt current else now)\<rparr>"

text \<open>
  The outcomes of \<open>#update\<close>: an error or a no-op that leaves the memory as it was, or the
  changed record, stamped and normalised, under its id.
\<close>

definition update_result ::
  "store \<Rightarrow> timestamp \<Rightarrow> host_thread_id \<Rightarrow> (store \<Rightarrow> thread_record \<Rightarrow> store_error + thread_record option) \<Rightarrow>
   bool \<Rightarrow> store_error + thread_record \<Rightarrow> store \<Rightarrow> bool" where
  "update_result s now hid change keep r s' =
     (s' = s \<and> (case r of Inl _ \<Rightarrow> True
               | Inr x \<Rightarrow> js_get (st_records s) hid = Some x \<and> change s x = Inr None) \<or>
      (\<exists>current c next. js_get (st_records s) hid = Some current \<and> change s current = Inr (Some c) \<and>
         parse_record (stamped now keep current c) = Some next \<and> r = Inr next \<and>
         written s (js_set hid next (st_records s)) s'))"

lemma update_result_Inl: "update_result s now hid change keep (Inl e) s"
  by (simp add: update_result_def)

lemma parse_record_id: "parse_record r = Some p \<Longrightarrow> tr_hostThreadId p = tr_hostThreadId r"
  by (auto dest!: parse_record_Some(2))

lemma records_get_id:
  assumes "store_inv s" and "js_get (st_records s) k = Some r"
  shows "tr_hostThreadId r = k" and "record_ok r"
  using assms records_invD(2,3) [OF store_invD(1)] by (metis js_get_mem)+

lemma update_runs:
  assumes inv: "store_inv s"
    and ids: "\<And>current c. change s current = Inr (Some c) \<Longrightarrow> tr_hostThreadId c = tr_hostThreadId current"
  shows "runs s (update_record now hid change keep) (update_result s now hid change keep)"
  unfolding update_record_def
proof (intro runs_require runs_get runs_option update_result_Inl runs_throw runs_lift)
  fix current assume current: "js_get (st_records s) hid = Some current"
  fix changed assume "change s current = Inr changed" and "changed = None"
  then show "runs s (retE current) (update_result s now hid change keep)"
    using current by (intro runs_ret) (simp add: update_result_def)
  next
  fix current changed c "next" u
  assume current: "js_get (st_records s) hid = Some current"
    and changed': "change s current = Inr changed" and c: "changed = Some c"
    and p: "parse_record (c\<lparr>tr_revision := tr_revision current + 1,
              tr_updatedAt := (if keep then tr_updatedAt current else now)\<rparr>) = Some next"
    and v: "validateGlobal s next (Some hid) = Inr u"
  have changed: "change s current = Inr (Some c)" using changed' c by simp
  have hid: "tr_hostThreadId next = hid"
    using parse_record_id [OF p] ids changed records_get_id(1) [OF inv current] by simp
  show "runs s (thenE (replaceFile hid next True) (\<lambda>_.
        thenE
          (if threadMetadataOf current = threadMetadataOf next then retE ()
           else catchE (writeMetadataFile hid (threadMetadataOf next))
                  (\<lambda>e. thenE (catchE (replaceFile hid current False) (\<lambda>_. retE ()))
                         (\<lambda>_. throwE e))) (\<lambda>_.
        thenE (modStore (\<lambda>s. s\<lparr>st_records := js_set hid next (st_records s)\<rparr>)) (\<lambda>_.
        thenE rebuildE (\<lambda>_. retE next)))))
      (update_result s now hid change keep)"
  proof (rule runs_keep, (intro keeps)[1], rule update_result_Inl, rule runs_keep, (intro keeps)[1],
      rule update_result_Inl)
    show "runs s (thenE (modStore (\<lambda>s. s\<lparr>st_records := js_set hid next (st_records s)\<rparr>)) (\<lambda>_.
        thenE rebuildE (\<lambda>_. retE next))) (update_result s now hid change keep)"
    proof (rule runs_write_record [OF inv parse_record_Some(1) [OF p] hid])
      show "validateGlobal s next (Some hid) = Inr ()" using v by simp
      fix s' assume "written s (js_set hid next (st_records s)) s'"
      then show "runs s' (retE next) (update_result s now hid change keep)"
        using current changed p
        by (intro runs_ret) (auto simp: update_result_def stamped_def)
    qed simp
  qed
qed

subsection \<open>Creation\<close>

definition create_result ::
  "store \<Rightarrow> timestamp \<Rightarrow> create_provisional_input \<Rightarrow> store_error + thread_record \<Rightarrow> store \<Rightarrow> bool" where
  "create_result s now i r s' =
     (s' = s \<and> (case r of Inl _ \<Rightarrow> True
               | Inr x \<Rightarrow> \<exists>k. js_get (st_createRequests s) (cp_createRequestId i) = Some k \<and>
                              js_get (st_records s) k = Some x) \<or>
      (\<exists>x. js_get (st_createRequests s) (cp_createRequestId i) = None \<and>
         \<not> js_has (st_records s) (cp_hostThreadId i) \<and>
         parse_record (new_record now i) = Some x \<and> r = Inr x \<and>
         written s (js_set (cp_hostThreadId i) x (st_records s)) s'))"

lemma writeNew_runs:
  assumes inv: "store_inv s" and ok: "record_ok r" and hid: "tr_hostThreadId r = hid"
    and err: "\<And>e. Q (Inl e) s"
    and done': "\<And>s'. written s (js_set hid r (st_records s)) s' \<Longrightarrow> Q (Inr ()) s'"
  shows "runs s (writeNew r) Q"
  unfolding writeNew_def Let_def
proof (rule runs_get, rule runs_lift, rule err, rule runs_keep, (intro keeps)[1], rule err,
    rule runs_keep, (intro keeps)[1], rule err)
  fix u assume v: "validateGlobal s r None = Inr u"
  have "runs s (thenE (modStore (\<lambda>s. s\<lparr>st_records := js_set hid r (st_records s)\<rparr>))
           (\<lambda>_. thenE rebuildE retE)) Q"
    by (rule runs_write_record [OF inv ok hid, of None]) (use v done' in \<open>auto intro: runs_ret\<close>)
  moreover have "thenE rebuildE retE = rebuildE"
    by (auto simp: thenE_def retE_def fun_eq_iff split: prod.splits sum.splits)
  ultimately show "runs s (thenE (modStore (setRecord r)) (\<lambda>_. rebuildE)) Q"
    using hid by (simp add: setRecord_def [abs_def])
qed

lemma createProvisional_runs:
  assumes inv: "store_inv s"
  shows "runs s (createProvisional now i) (create_result s now i)"
  unfolding createProvisional_def
proof (intro runs_require runs_get runs_option runs_throw runs_if)
  fix k v assume "truthy (js_get (st_createRequests s) (cp_createRequestId i)) = Some k"
    and "js_get (st_records s) k = Some v"
  then show "runs s (retE v) (create_result s now i)"
    by (intro runs_ret) (auto simp: create_result_def truthy_Some_iff)
next
  fix x
  assume free: "truthy (js_get (st_createRequests s) (cp_createRequestId i)) = None"
    and fresh: "\<not> js_has (st_records s) (cp_hostThreadId i)" and p: "parse_record (new_record now i) = Some x"
  have "js_get (st_createRequests s) (cp_createRequestId i) \<noteq> Some []"
    using records_indexedD(1) [OF store_invD(3) [OF inv]] records_invD(2,3) [OF store_invD(1) [OF inv]]
      record_ok_ids(1) by metis
  then have free: "js_get (st_createRequests s) (cp_createRequestId i) = None"
    using free by (auto simp: truthy_None_iff)
  have hid: "tr_hostThreadId x = cp_hostThreadId i"
    using parse_record_id [OF p] by (simp add: new_record_def)
  show "runs s (thenE (writeNew x) (\<lambda>_. retE x)) (create_result s now i)"
  proof (rule runs_then [where P = "\<lambda>r s'. (\<exists>e. r = Inl e \<and> s' = s) \<or>
        r = Inr () \<and> written s (js_set (cp_hostThreadId i) x (st_records s)) s'"])
    show "runs s (writeNew x) (\<lambda>r s'. (\<exists>e. r = Inl e \<and> s' = s) \<or>
        r = Inr () \<and> written s (js_set (cp_hostThreadId i) x (st_records s)) s')"
      by (rule writeNew_runs [OF inv parse_record_Some(1) [OF p] hid]) auto
  qed (use free fresh p in \<open>auto simp: create_result_def intro!: runs_ret\<close>)
qed (auto simp: create_result_def)

subsection \<open>Delegations\<close>

text \<open>Once its checks passed, a delegation joins the others.\<close>

lemma createDelegation_check_Inr:
  assumes inv: "store_inv s" and c: "createDelegation_check s now i = Inr d"
  shows "delegation_ok d" and "dl_delegationId d = cd_delegationId i" and "dl_revision d = 1"
    and "\<not> js_has (st_delegations s) (cd_delegationId i)"
    and "delegations_inv (js_set (dl_delegationId d) d (st_delegations s))"
proof -
  note c = c [unfolded createDelegation_check_def Let_def]
  show ok: "delegation_ok d" and id: "dl_delegationId d = cd_delegationId i" and "dl_revision d = 1"
    and "\<not> js_has (st_delegations s) (cd_delegationId i)"
    using c by (auto split: if_splits)
  have child: "dl_childHostThreadId d = cd_childHostThreadId i" and req: "dl_requestId d = cd_requestId i"
    and nochild: "\<not> js_has (st_delegationChildren s) (cd_childHostThreadId i)"
    and noreq: "\<And>q. truthy (cd_requestId i) = Some q \<Longrightarrow> \<not> js_has (st_delegationRequests s) q"
    using c by (auto split: if_splits)
  note ix = delegations_indexedD [OF store_invD(4) [OF inv]]
  have "delegations_compatible d d'" if "(k', d') \<in> set (st_delegations s)" for k' d'
  proof -
    have "js_get (st_delegationChildren s) (dl_childHostThreadId d') = Some k'"
      using ix(1) that by blast
    then have "dl_childHostThreadId d \<noteq> dl_childHostThreadId d'"
      using nochild child by (auto simp: js_has_def)
    moreover have "dl_requestId d = None \<or> dl_requestId d \<noteq> dl_requestId d'"
    proof (cases "dl_requestId d")
      case (Some q)
      then have "truthy (cd_requestId i) = Some q"
        using req delegation_requestId_nonempty [OF ok] by (auto simp: truthy_Some_iff)
      then have "js_get (st_delegationRequests s) q = None" using noreq by (simp add: js_has_def)
      then have "dl_requestId d' \<noteq> Some q" using ix(2) that by (metis option.distinct(1))
      then show ?thesis using Some by simp
    qed simp
    ultimately show ?thesis by (simp add: delegations_compatible_def)
  qed
  then show "delegations_inv (js_set (dl_delegationId d) d (st_delegations s))"
    by (intro delegations_inv_set [OF store_invD(2) [OF inv] ok])
qed

lemma storeDelegation_runs:
  assumes inv: "store_inv s" and d: "delegations_inv (js_set key d (st_delegations s))"
  shows "runs s (storeDelegation key d) (\<lambda>r s'. (\<exists>e. r = Inl e) \<and> s' = s \<or>
     r = Inr d \<and> store_inv s' \<and> st_delegations s' = js_set key d (st_delegations s) \<and>
     st_records s' = st_records s)" (is "runs s _ ?Q")
proof -
  from rebuild_delegations [OF inv d] obtain s' where
    s': "rebuildIndexes (s\<lparr>st_delegations := js_set key d (st_delegations s)\<rparr>) = (Inr (), s')" "store_inv s'"
      "st_delegations s' = js_set key d (st_delegations s)" "st_records s' = st_records s" by blast
  have "runs s (thenE (modStore (\<lambda>s. s\<lparr>st_delegations := js_set key d (st_delegations s)\<rparr>))
      (\<lambda>_. thenE rebuildE (\<lambda>_. retE d))) ?Q"
    by (rule runs_mod, rule runs_then [where P = "\<lambda>r t. r = Inr () \<and> t = s'"])
      (use s' in \<open>auto intro!: runs_rebuild runs_ret\<close>)
  then show ?thesis
    unfolding storeDelegation_def by (intro runs_keep [OF keeps_files(1)]) auto
qed

end
