(* ===== verification/StoreMachine.thy ===== *)
theory StoreMachine
  imports StorePreserve
begin

text \<open>
  The mapping store as a machine: one step per operation, on any disk and any fault script. The
  invariant of a step is the identity invariant; the step also tells the few ways a record may
  change.
\<close>

subsection \<open>The remaining writers\<close>

text \<open>What never changes in a record, and how far one operation may move it.\<close>

definition same_identity :: "thread_record \<Rightarrow> thread_record \<Rightarrow> bool" where
  "same_identity a b =
     (tr_hostThreadId b = tr_hostThreadId a \<and> tr_harnessId b = tr_harnessId a \<and>
      tr_importSourceRef b = tr_importSourceRef a \<and> tr_cwd b = tr_cwd a \<and>
      tr_ephemeral b = tr_ephemeral a \<and> tr_historyMode b = tr_historyMode a \<and>
      tr_subagent b = tr_subagent a \<and> tr_createdAt b = tr_createdAt a \<and>
      (tr_state a = Ready \<longrightarrow> tr_state b = Ready))"

definition record_evolves :: "thread_record \<Rightarrow> thread_record \<Rightarrow> bool" where
  "record_evolves a b =
     (same_identity a b \<and>
      (tr_revision b = tr_revision a + 1 \<or> b = a\<lparr>tr_usageMeasurements := tr_usageMeasurements b\<rparr>))"

definition delegation_evolves :: "delegation_record \<Rightarrow> delegation_record \<Rightarrow> bool" where
  "delegation_evolves a b =
     (b = a \<or> b = a\<lparr>dl_revision := dl_revision a + 1, dl_status := dl_status b, dl_updatedAt := dl_updatedAt b\<rparr> \<and>
        (terminal_status (dl_status a) \<longrightarrow> terminal_status (dl_status b)))"

lemma evolves_refl [simp]: "record_evolves r r" "delegation_evolves d d"
  by (simp_all add: record_evolves_def same_identity_def delegation_evolves_def)

text \<open>The contract of one operation: an error leaves the whole memory as it was.\<close>

definition step_ok :: "store \<Rightarrow> store_error + 'a \<Rightarrow> store \<Rightarrow> bool" where
  "step_ok s r s' =
     (store_inv s' \<and> (\<forall>e. r = Inl e \<longrightarrow> s' = s) \<and>
      (\<forall>k a b. js_get (st_records s) k = Some a \<longrightarrow> js_get (st_records s') k = Some b \<longrightarrow> record_evolves a b) \<and>
      (\<forall>k a b. js_get (st_delegations s) k = Some a \<longrightarrow> js_get (st_delegations s') k = Some b \<longrightarrow>
         delegation_evolves a b))"

lemma step_ok_same: "store_inv s \<Longrightarrow> step_ok s r s"
  by (simp add: step_ok_def)

lemma step_ok_put:
  assumes "store_inv s'" and "st_records s' = js_set hid x (st_records s)" and "st_delegations s' = st_delegations s"
    and "\<And>a. js_get (st_records s) hid = Some a \<Longrightarrow> record_evolves a x"
  shows "step_ok s (Inr v) s'"
  using assms by (simp add: step_ok_def)

lemma step_ok_put_delegation:
  assumes "store_inv s'" and "st_delegations s' = js_set did x (st_delegations s)" and "st_records s' = st_records s"
    and "\<And>a. js_get (st_delegations s) did = Some a \<Longrightarrow> delegation_evolves a x"
  shows "step_ok s (Inr v) s'"
  using assms by (simp add: step_ok_def)

lemma delegation_change_inv:
  assumes inv: "store_inv s" and get: "js_get (st_delegations s) did = Some d"
    and ok: "delegation_ok d'" and same: "dl_delegationId d' = dl_delegationId d"
      "dl_childHostThreadId d' = dl_childHostThreadId d" "dl_requestId d' = dl_requestId d"
  shows "delegations_inv (js_set did d' (st_delegations s))"
proof -
  note di = delegations_invD [OF store_invD(2) [OF inv]]
  have mem: "(did, d) \<in> set (st_delegations s)" by (rule js_get_mem [OF get])
  have id: "dl_delegationId d' = did" using di(2) [OF mem] same by simp
  have "delegations_inv (js_set (dl_delegationId d') d' (st_delegations s))"
  proof (rule delegations_inv_set [OF store_invD(2) [OF inv] ok])
    fix k e assume "(k, e) \<in> set (st_delegations s)" "k \<noteq> dl_delegationId d'"
    then have "delegations_compatible d e" using di(4) [OF mem] id by auto
    then show "delegations_compatible d' e" using same by (simp add: delegations_compatible_def)
  qed
  then show ?thesis using id by simp
qed

text \<open>\<open>setDelegationStatus\<close>: an error or a no-op, or the new status with the revision bumped.\<close>

definition status_result ::
  "store \<Rightarrow> timestamp \<Rightarrow> host_thread_id \<Rightarrow> delegation_status \<Rightarrow>
   store_error + delegation_record \<Rightarrow> store \<Rightarrow> bool" where
  "status_result s now did status r s' =
     (s' = s \<and> (case r of Inl _ \<Rightarrow> True
                | Inr d \<Rightarrow> js_get (st_delegations s) did = Some d \<and>
                    (dl_status d = status \<or> terminal_status (dl_status d) \<and> \<not> terminal_status status)) \<or>
      (\<exists>d. js_get (st_delegations s) did = Some d \<and> dl_status d \<noteq> status \<and>
         (terminal_status (dl_status d) \<longrightarrow> terminal_status status) \<and> store_inv s' \<and>
         r = Inr (d\<lparr>dl_revision := dl_revision d + 1, dl_status := status, dl_updatedAt := now\<rparr>) \<and>
         st_delegations s' =
           js_set did (d\<lparr>dl_revision := dl_revision d + 1, dl_status := status, dl_updatedAt := now\<rparr>)
             (st_delegations s) \<and>
         st_records s' = st_records s))"

lemma setDelegationStatus_runs:
  assumes inv: "store_inv s"
  shows "runs s (setDelegationStatus now did status) (status_result s now did status)"
  unfolding setDelegationStatus_def Let_def
proof (intro runs_require runs_get runs_option runs_throw runs_if)
  fix d assume d: "js_get (st_delegations s) did = Some d"
    and change: "dl_status d \<noteq> status" "\<not> (terminal_status (dl_status d) \<and> \<not> terminal_status status)"
    and ok: "delegation_ok (d\<lparr>dl_revision := dl_revision d + 1, dl_status := status, dl_updatedAt := now\<rparr>)"
  let ?d' = "d\<lparr>dl_revision := dl_revision d + 1, dl_status := status, dl_updatedAt := now\<rparr>"
  have "delegations_inv (js_set did ?d' (st_delegations s))"
    by (rule delegation_change_inv [OF inv d ok]) simp_all
  from storeDelegation_runs [OF inv this]
  show "runs s (storeDelegation did ?d') (status_result s now did status)"
    by (rule runs_conseq) (use d change in \<open>auto simp: status_result_def\<close>)
qed (auto simp: status_result_def intro!: runs_ret)

lemma createDelegation_runs:
  assumes inv: "store_inv s"
  shows "runs s (createDelegation now i) (\<lambda>r s'. (\<exists>e. r = Inl e) \<and> s' = s \<or>
     (\<exists>d. r = Inr d \<and> createDelegation_check s now i = Inr d \<and> store_inv s' \<and>
        st_delegations s' = js_set (cd_delegationId i) d (st_delegations s) \<and>
        st_records s' = st_records s))"
  unfolding createDelegation_def
proof (intro runs_require runs_get runs_lift)
  fix d assume d: "createDelegation_check s now i = Inr d"
  note c = createDelegation_check_Inr [OF inv d]
  show "runs s (storeDelegation (dl_delegationId d) d) (\<lambda>r s'. (\<exists>e. r = Inl e) \<and> s' = s \<or>
     (\<exists>d. r = Inr d \<and> createDelegation_check s now i = Inr d \<and> store_inv s' \<and>
        st_delegations s' = js_set (cd_delegationId i) d (st_delegations s) \<and>
        st_records s' = st_records s))"
    by (rule runs_conseq [OF storeDelegation_runs [OF inv c(5)]]) (use d c(2) in auto)
qed auto

lemma removeDelegation_runs:
  assumes inv: "store_inv s"
  shows "runs s (removeDelegation did) (step_ok s)"
proof -
  from rebuild_delegations [OF inv delegations_inv_delete [OF store_invD(2) [OF inv]]] obtain s' where
    s': "rebuildIndexes (s\<lparr>st_delegations := js_delete did (st_delegations s)\<rparr>) = (Inr (), s')" "store_inv s'"
      "st_delegations s' = js_delete did (st_delegations s)" "st_records s' = st_records s"
    by blast
  have "step_ok s (Inr ()) s'" using s'(2-4) by (simp add: step_ok_def)
  then have tail: "runs s (thenE (modStore (\<lambda>s. s\<lparr>st_delegations := js_delete did (st_delegations s)\<rparr>)) (\<lambda>_. rebuildE))
      (step_ok s)"
    by (intro runs_mod runs_rebuild [OF s'(1)])
  show ?thesis
    unfolding removeDelegation_def
    by (intro runs_require step_ok_same inv runs_keep [OF keeps_basic(6)] runs_keep [OF keeps_basic(5)] tail)
qed

lemma store_inv_frame [simp]:
  "store_inv (s\<lparr>st_supersededSessions := x\<rparr>) = store_inv s"
  "store_inv (s\<lparr>st_sectionPlacements := y\<rparr>) = store_inv s"
  by (simp_all add: store_inv_def records_indexed_def delegations_indexed_def)

lemma recordSuperseded_runs:
  "runs s (recordSuperseded now previous replaced)
     (\<lambda>r s'. r = Inr () \<and> (s' = s \<or> (\<exists>x. s' = s\<lparr>st_supersededSessions := x\<rparr>)))"
proof -
  let ?Q = "\<lambda>r s'. r = Inr () \<and> (s' = s \<or> (\<exists>x. s' = s\<lparr>st_supersededSessions := x\<rparr>))"
  have catch: "runs s (catchE m (\<lambda>_. retE ())) ?Q"
    if "runs s m (\<lambda>r s'. (\<exists>x. s' = s\<lparr>st_supersededSessions := x\<rparr>) \<or> s' = s)" for m
    using that unfolding runs_def catchE_def retE_def by (auto split: prod.splits sum.splits)
  show ?thesis
    unfolding recordSuperseded_def Let_def
  proof (intro runs_option runs_if catch)
    fix current
    show "runs s (thenE getStore (\<lambda>s.
        thenE (writeSupersededSessionsFile
          (filter (\<lambda>x. \<not> (ss_harnessId x = ns_harnessId previous \<and> ss_nativeSessionId x = current) \<and>
                       \<not> (ss_harnessId x = ns_harnessId previous \<and> ss_nativeSessionId x = ns_nativeSessionId previous))
             (st_supersededSessions s) @
           [\<lparr>ss_harnessId = ns_harnessId previous, ss_nativeSessionId = ns_nativeSessionId previous,
             ss_hostThreadId = tr_hostThreadId replaced, ss_supersededAt = now\<rparr>])) (\<lambda>ss.
        modStore (\<lambda>s. s\<lparr>st_supersededSessions := ss\<rparr>))))
        (\<lambda>r s'. (\<exists>x. s' = s\<lparr>st_supersededSessions := x\<rparr>) \<or> s' = s)"
      by (intro runs_get runs_keep keeps) (auto simp: runs_def modStore_def)
  qed (auto intro: runs_ret)
qed

lemma records_inv_same_ids:
  assumes inv: "records_inv rs" and get: "js_get rs hid = Some r" and ok: "record_ok r'"
    and same: "tr_hostThreadId r' = tr_hostThreadId r" "tr_createRequestId r' = tr_createRequestId r"
      "tr_nativeSessionRef r' = tr_nativeSessionRef r" "tr_subagent r' = tr_subagent r"
      "tr_turnMappings r' = tr_turnMappings r"
  shows "records_inv (js_set hid r' rs)"
proof -
  note ri = records_invD [OF inv]
  have mem: "(hid, r) \<in> set rs" by (rule js_get_mem [OF get])
  have hid: "tr_hostThreadId r' = hid" using ri(2) [OF mem] same by simp
  have "ownSessionKey r' = ownSessionKey r" by (simp add: ownSessionKey_def same)
  then have "compatible r' e" if "compatible r e" for e
    using that by (simp add: compatible_def same)
  then have "records_inv (js_set (tr_hostThreadId r') r' rs)"
    using records_inv_set [OF inv ok] ri(4) [OF mem] hid by metis
  then show ?thesis using hid by simp
qed

lemma records_indexed_same_ids:
  assumes d: "distinct (js_keys rs)" and get: "js_get rs hid = Some r" and ix: "records_indexed rs s"
    and same: "tr_createRequestId r' = tr_createRequestId r"
      "tr_nativeSessionRef r' = tr_nativeSessionRef r" "tr_subagent r' = tr_subagent r"
      "tr_turnMappings r' = tr_turnMappings r"
  shows "records_indexed (js_set hid r' rs) s"
proof -
  have own: "ownSessionKey r' = ownSessionKey r" by (simp add: ownSessionKey_def same)
  have ex: "(\<exists>x. (h, x) \<in> set (js_set hid r' rs) \<and> P x) \<longleftrightarrow> (\<exists>x. (h, x) \<in> set rs \<and> P x)"
    if "P r' = P r" for P h
  proof (cases "h = hid")
    case True
    then have uniq: "x = r" if "(h, x) \<in> set rs" for x
      using that get d by simp
    have "(\<exists>x. (h, x) \<in> set (js_set hid r' rs) \<and> P x) \<longleftrightarrow> P r'"
      by (simp add: set_js_set [OF d] True)
    moreover have "(\<exists>x. (h, x) \<in> set rs \<and> P x) \<longleftrightarrow> P r"
      using uniq js_get_mem [OF get] True by blast
    ultimately show ?thesis using that by simp
  qed (auto simp: set_js_set [OF d])
  let ?rs = "js_set hid r' rs"
  have e1: "(\<exists>x. (h, x) \<in> set ?rs \<and> tr_createRequestId x = c) \<longleftrightarrow>
      (\<exists>x. (h, x) \<in> set rs \<and> tr_createRequestId x = c)" for h c by (rule ex) (simp add: same)
  have e2: "(\<exists>x. (h, x) \<in> set ?rs \<and> ownSessionKey x = Some k) \<longleftrightarrow>
      (\<exists>x. (h, x) \<in> set rs \<and> ownSessionKey x = Some k)" for h k by (rule ex) (simp add: own)
  have e3: "(\<exists>x. (h, x) \<in> set ?rs \<and> t \<in> tm_hostTurnId ` set (tr_turnMappings x)) \<longleftrightarrow>
      (\<exists>x. (h, x) \<in> set rs \<and> t \<in> tm_hostTurnId ` set (tr_turnMappings x))" for h t
    by (rule ex) (simp add: same)
  have e4: "(\<exists>h x m. (h, x) \<in> set ?rs \<and> m \<in> set (tr_turnMappings x) \<and> P m) \<longleftrightarrow>
      (\<exists>h x m. (h, x) \<in> set rs \<and> m \<in> set (tr_turnMappings x) \<and> P m)" for P
    using ex [of "\<lambda>x. \<exists>m. m \<in> set (tr_turnMappings x) \<and> P m"] by (simp add: same)
  show ?thesis
    using ix unfolding records_indexed_def e1 e2 e3 e4 .
qed

lemma saveUsageMeasurements_runs:
  assumes inv: "store_inv s"
  shows "runs s (saveUsageMeasurements hid expected values) (step_ok s)"
proof -
  have tail: "runs s (thenE (writeMetadataFile hid (threadMetadataOf (current\<lparr>tr_usageMeasurements := u\<rparr>))) (\<lambda>_.
      thenE (modStore (\<lambda>s. s\<lparr>st_records := js_set hid (current\<lparr>tr_usageMeasurements := u\<rparr>) (st_records s)\<rparr>)) (\<lambda>_.
        retE (current\<lparr>tr_usageMeasurements := u\<rparr>)))) (step_ok s)"
    if get: "js_get (st_records s) hid = Some current" for current u
  proof -
    let ?next = "current\<lparr>tr_usageMeasurements := u\<rparr>"
    note si = store_invD [OF inv]
    have ri: "records_inv (js_set hid ?next (st_records s))"
      by (rule records_inv_same_ids [OF si(1) get]) (simp_all add: records_get_id(2) [OF inv get])
    have ii: "records_indexed (js_set hid ?next (st_records s)) s"
      by (rule records_indexed_same_ids [OF records_invD(1) [OF si(1)] get si(3)]) simp_all
    have "store_inv (s\<lparr>st_records := js_set hid ?next (st_records s)\<rparr>)"
      using ri ii si(2,4) by (simp add: store_inv_def records_indexed_def delegations_indexed_def)
    then have "step_ok s (Inr ?next) (s\<lparr>st_records := js_set hid ?next (st_records s)\<rparr>)"
      by (rule step_ok_put) (use get in \<open>auto simp: record_evolves_def same_identity_def\<close>)
    then show ?thesis
      by (intro runs_keep [OF keeps_writeMetadataFile] runs_mod runs_ret step_ok_same inv)
  qed
  show ?thesis
    unfolding saveUsageMeasurements_def Let_def
    by (rule runs_require, (rule step_ok_same [OF inv]), rule runs_keep, (intro keeps)[1],
        rule step_ok_same [OF inv], rule runs_get,
        intro runs_option runs_if runs_throw runs_ret tail step_ok_same inv)
qed

lemma replaceSectionPlacements_runs:
  assumes inv: "store_inv s"
  shows "runs s (replaceSectionPlacements ps) (step_ok s)"
proof -
  have "step_ok s (Inr qs) (s\<lparr>st_sectionPlacements := qs\<rparr>)" for qs
    using inv by (simp add: step_ok_def)
  then have tail: "runs s (thenE (modStore (\<lambda>s. s\<lparr>st_sectionPlacements := qs\<rparr>)) (\<lambda>_. retE qs)) (step_ok s)" for qs
    by (intro runs_mod runs_ret)
  show ?thesis
    unfolding replaceSectionPlacements_def
    by (rule runs_require, rule step_ok_same [OF inv], rule runs_get, rule runs_keep, (intro keeps)[1],
        rule step_ok_same [OF inv], rule tail)
qed

lemma runs_removeRecord:
  assumes inv: "store_inv s"
  shows "runs s (removeRecord hid) (\<lambda>r s'. (\<exists>e. r = Inl e) \<and> s' = s \<or>
     r = Inr () \<and> (s' = s \<and> js_get (st_records s) hid = None \<or>
       written s (js_delete hid (st_records s)) s'))" (is "runs s _ ?Q")
  unfolding removeRecord_def
proof (rule runs_get, rule runs_option)
  show "runs s (retE ()) ?Q" if "js_get (st_records s) hid = None"
    using that by (intro runs_ret) simp
  fix current assume "js_get (st_records s) hid = Some current"
  from rebuild_records [OF inv records_inv_delete [OF store_invD(1) [OF inv]]] obtain s' where
    "rebuildIndexes (s\<lparr>st_records := js_delete hid (st_records s)\<rparr>) = (Inr (), s')"
    "written s (js_delete hid (st_records s)) s'" by blast
  then have tail: "runs s (thenE (modStore (\<lambda>s. s\<lparr>st_records := js_delete hid (st_records s)\<rparr>)) (\<lambda>_. rebuildE)) ?Q"
    by (intro runs_mod runs_rebuild) auto
  show "runs s (thenE (rmThread hid) (\<lambda>_.
           thenE (catchE (thenE (rmBackup hid) (\<lambda>_. rmMetadata hid))
                    (\<lambda>e. thenE (replaceFile hid current False) (\<lambda>_. throwE e))) (\<lambda>_.
           thenE (modStore (\<lambda>s. s\<lparr>st_records := js_delete hid (st_records s)\<rparr>)) (\<lambda>_. rebuildE)))) ?Q"
    by (rule runs_keep, (intro keeps)[1], blast, rule runs_keep, (intro keeps)[1], blast, rule tail)
qed

lemma removeRecord_runs:
  assumes "store_inv s"
  shows "runs s (removeRecord hid) (step_ok s)"
  by (rule runs_conseq [OF runs_removeRecord [OF assms]])
    (use assms in \<open>auto simp: step_ok_def written_def split: if_splits\<close>)

subsection \<open>Changes that keep the identity of a Thread\<close>

definition change_ok :: "(store \<Rightarrow> thread_record \<Rightarrow> store_error + thread_record option) \<Rightarrow> bool" where
  "change_ok change = (\<forall>s a c. change s a = Inr (Some c) \<longrightarrow> same_identity a c)"

lemma update_record_runs:
  assumes inv: "store_inv s" and ch: "change_ok change"
  shows "runs s (update_record now hid change keep) (step_ok s)"
proof (rule runs_conseq [OF update_runs [OF inv]])
  show "change s a = Inr (Some c) \<Longrightarrow> tr_hostThreadId c = tr_hostThreadId a" for a c
    using ch by (auto simp: change_ok_def same_identity_def)
  fix r s' assume "update_result s now hid change keep r s'"
  then consider "s' = s" |
    current c "next" where "js_get (st_records s) hid = Some current" "change s current = Inr (Some c)"
      "parse_record (stamped now keep current c) = Some next" "r = Inr next"
      "written s (js_set hid next (st_records s)) s'"
    by (auto simp: update_result_def)
  then show "step_ok s r s'"
  proof cases
    case 2
    have "same_identity current c" using ch 2(2) by (auto simp: change_ok_def)
    then have "record_evolves current next"
      using parse_record_Some(2) [OF 2(3)] by (simp add: record_evolves_def same_identity_def stamped_def)
    then show ?thesis
      using 2(1,4,5) by (auto intro!: step_ok_put simp: written_def)
  qed (simp add: step_ok_same inv)
qed

lemma update_with_record_superseded_runs:
  assumes "store_inv s" and "change_ok change"
  shows "runs s (thenE (update_record now hid change keep) (\<lambda>replaced.
     thenE (recordSuperseded now previous replaced) (\<lambda>_. retE replaced))) (step_ok s)"
proof (rule runs_then [OF update_record_runs [OF assms]])
  fix x :: thread_record and s1 assume s1: "step_ok s (Inr x) s1"
  show "runs s1 (thenE (recordSuperseded now previous x) (\<lambda>_. retE x)) (step_ok s)"
    by (rule runs_then [OF recordSuperseded_runs])
      (use s1 in \<open>auto intro!: runs_ret simp: step_ok_def\<close>)
qed

lemma threads_createProvisional_runs:
  assumes "store_inv s"
  shows "runs s (createProvisional now i) (step_ok s)"
  by (rule runs_conseq [OF createProvisional_runs [OF assms]])
    (use assms in \<open>auto simp: create_result_def step_ok_def written_def js_has_def split: if_splits\<close>)

lemma createDelegation_step:
  assumes "store_inv s"
  shows "runs s (createDelegation now i) (step_ok s)"
proof (rule runs_conseq [OF createDelegation_runs [OF assms]], elim disjE exE conjE)
  fix r :: "store_error + delegation_record" and s' d
  assume "r = Inr d" "createDelegation_check s now i = Inr d" "store_inv s'"
    "st_delegations s' = js_set (cd_delegationId i) d (st_delegations s)" "st_records s' = st_records s"
  then show "step_ok s r s'"
    using createDelegation_check_Inr(4) [OF assms, of now i d]
    by (auto intro!: step_ok_put_delegation simp: js_has_def)
qed (simp add: step_ok_same assms)

lemma setDelegationStatus_step:
  assumes "store_inv s"
  shows "runs s (setDelegationStatus now did status) (step_ok s)"
proof (rule runs_conseq [OF setDelegationStatus_runs [OF assms]])
  fix r s' assume "status_result s now did status r s'"
  then consider "s' = s" | d where "js_get (st_delegations s) did = Some d"
      "terminal_status (dl_status d) \<longrightarrow> terminal_status status" "store_inv s'"
      "r = Inr (d\<lparr>dl_revision := dl_revision d + 1, dl_status := status, dl_updatedAt := now\<rparr>)"
      "st_delegations s' =
         js_set did (d\<lparr>dl_revision := dl_revision d + 1, dl_status := status, dl_updatedAt := now\<rparr>)
           (st_delegations s)"
      "st_records s' = st_records s"
    unfolding status_result_def by blast
  then show "step_ok s r s'"
    by cases (auto simp: step_ok_same assms delegation_evolves_def intro!: step_ok_put_delegation)
qed

lemma applyThreadMetadataPatch_identity: "same_identity r (applyThreadMetadataPatch lib r p)"
  by (simp add: same_identity_def applyThreadMetadataPatch_def)

lemma changes_ok [simp]:
  "change_ok (\<lambda>_ current. bindE (mergeMappings (tr_turnMappings current) ms) (\<lambda>merged.
     Inr (Some (current\<lparr>tr_state := Ready, tr_nativeSessionRef := Some ref, tr_turnMappings := merged\<rparr>))))"
  "change_ok (rebind_change ri)"
  "change_ok (\<lambda>_. replace_change rr)"
  "change_ok (\<lambda>_. replace_last_change ra)"
  "change_ok (\<lambda>_ current. bindE (mergeMappings (tr_turnMappings current) ms) (\<lambda>merged.
     Inr (Some (current\<lparr>tr_turnMappings := merged\<rparr>))))"
  "change_ok (\<lambda>_ current.
     if tr_state current \<noteq> Ready \<or> tr_nativeSessionRef current = None then Inl MAPPING_CONFLICT
     else bindE (reconcileMappings (tr_turnMappings current) ms) (\<lambda>ordered.
       Inr (if tr_turnMappings current = ordered then None else Some (current\<lparr>tr_turnMappings := ordered\<rparr>))))"
  "change_ok (\<lambda>_ current. Inr (Some (current\<lparr>tr_title := title\<rparr>)))"
  "change_ok (\<lambda>_ current. Inr (if tr_transportModelId current = model then None
     else Some (current\<lparr>tr_transportModelId := model\<rparr>)))"
  "change_ok (\<lambda>_ current. Inr (if tr_archived current = archived then None
     else Some (current\<lparr>tr_archived := archived\<rparr>)))"
  unfolding change_ok_def rebind_change_def replace_change_def replace_last_change_def Let_def
  by (auto simp: same_identity_def bindE_Inr_iff split: if_splits)

lemma metadata_change_ok [simp]:
  "change_ok (\<lambda>_ current.
     if ifProjectId \<noteq> None \<and> tr_projectId current \<noteq> ifProjectId then Inr None
     else let next = applyThreadMetadataPatch lib current p
          in Inr (if next = current then None else Some next))"
  using applyThreadMetadataPatch_identity by (auto simp: change_ok_def Let_def split: if_splits)

subsection \<open>One step per operation\<close>

datatype store_op =
    CreateProvisional timestamp create_provisional_input
  | CommitReady timestamp host_thread_id native_session_ref "turn_mapping list"
  | RebindSubagentSession timestamp rebind_subagent_input
  | ReplaceReadySession timestamp replace_ready_input
  | ReplaceReadySessionAfterLastTurn timestamp replace_after_last_input
  | UpsertTurnMappings timestamp host_thread_id "turn_mapping list"
  | ReconcileTurnMappings timestamp host_thread_id "turn_mapping list"
  | SetTitle timestamp host_thread_id string
  | SetTransportModelId timestamp host_thread_id string
  | SetArchived timestamp host_thread_id bool
  | UpdateMetadata url_lib timestamp host_thread_id metadata_patch "string option"
  | SaveUsageMeasurements host_thread_id native_session_ref usage_measurements
  | ReplaceSectionPlacements "section_placement list"
  | CreateDelegation timestamp create_delegation_input
  | SetDelegationStatus timestamp host_thread_id delegation_status
  | RemoveDelegation host_thread_id
  | RemoveProvisional host_thread_id
  | RemoveThread host_thread_id

definition discard :: "'a eff \<Rightarrow> unit eff" where
  "discard m = thenE m (\<lambda>_. retE ())"

fun run_op :: "store_op \<Rightarrow> unit eff" where
  "run_op (CreateProvisional now i) = discard (createProvisional now i)"
| "run_op (CommitReady now h ref ms) = discard (commitReady now h ref ms)"
| "run_op (RebindSubagentSession now i) = discard (rebindSubagentSession now i)"
| "run_op (ReplaceReadySession now i) = discard (replaceReadySession now i)"
| "run_op (ReplaceReadySessionAfterLastTurn now i) = discard (replaceReadySessionAfterLastTurn now i)"
| "run_op (UpsertTurnMappings now h ms) = discard (upsertTurnMappings now h ms)"
| "run_op (ReconcileTurnMappings now h ms) = discard (reconcileTurnMappings now h ms)"
| "run_op (SetTitle now h title) = discard (setTitle now h title)"
| "run_op (SetTransportModelId now h m) = discard (setTransportModelId now h m)"
| "run_op (SetArchived now h b) = discard (setArchived now h b)"
| "run_op (UpdateMetadata lib now h p pid) = discard (updateMetadata lib now h p pid)"
| "run_op (SaveUsageMeasurements h ref v) = discard (saveUsageMeasurements h ref v)"
| "run_op (ReplaceSectionPlacements ps) = discard (replaceSectionPlacements ps)"
| "run_op (CreateDelegation now i) = discard (createDelegation now i)"
| "run_op (SetDelegationStatus now d st) = discard (setDelegationStatus now d st)"
| "run_op (RemoveDelegation d) = removeDelegation d"
| "run_op (RemoveProvisional h) = removeProvisional h"
| "run_op (RemoveThread h) = removeThread h"

definition store_step :: "world \<Rightarrow> store_op \<Rightarrow> world" where
  "store_step w op = snd (run_op op w)"

lemma runs_discard: "runs s m (step_ok s) \<Longrightarrow> runs s (discard m) (step_ok s)"
  unfolding discard_def
  by (rule runs_then [where P = "step_ok s"]) (auto intro!: runs_ret simp: step_ok_def)

lemma run_op_ok:
  assumes inv: "store_inv s"
  shows "runs s (run_op op) (step_ok s)"
proof -
  have rem: "runs s (removeThread h) (step_ok s)" "runs s (removeProvisional h) (step_ok s)" for h
    unfolding removeThread_def removeProvisional_def
    by (intro runs_require runs_get runs_option runs_if runs_throw removeRecord_runs step_ok_same inv)+
  have rec: "runs s (reconcileTurnMappings now h ms) (step_ok s)" for now h ms
    unfolding reconcileTurnMappings_def by (rule update_record_runs [OF inv changes_ok(6)])
  have upd: "runs s (updateMetadata lib now h p pid) (step_ok s)" for lib now h p pid
    unfolding updateMetadata_def by (rule update_record_runs [OF inv metadata_change_ok])
  show ?thesis
    by (cases op)
      (simp_all add: runs_discard rem rec upd removeDelegation_runs inv threads_createProvisional_runs
        commitReady_def rebindSubagentSession_def replaceReadySession_def
        replaceReadySessionAfterLastTurn_def upsertTurnMappings_def
        setTitle_def setTransportModelId_def setArchived_def
        update_record_runs update_with_record_superseded_runs saveUsageMeasurements_runs
        replaceSectionPlacements_runs createDelegation_step setDelegationStatus_step)
qed

interpretation mapping_store: machine store_step "\<lambda>w :: world. store_inv (w_store w)"
proof
  fix w :: world and op assume "store_inv (w_store w)"
  from run_op_ok [OF this, of op] show "store_inv (w_store (store_step w op))"
    by (simp add: runs_def step_ok_def store_step_def)
qed

end
