(* ===== verification/StoreProperties.thy ===== *)
theory StoreProperties
  imports StoreMachine
begin

text \<open>
  What the mapping store promises its callers, on any disk and whatever system calls fail.
\<close>

subsection \<open>A store for the witnesses\<close>

definition empty_disk :: disk where
  "empty_disk =
     \<lparr>dk_threads = [], dk_backups = [], dk_metadata = [], dk_delegations = [], dk_placements = None,
      dk_superseded = None, dk_quarantine = []\<rparr>"

definition ready_world :: "bool list \<Rightarrow> world" where
  "ready_world faults =
     \<lparr>w_store = new_store\<lparr>st_initialized := True\<rparr>, w_disk = empty_disk, w_faults = faults\<rparr>"

lemma store_inv_ready [simp]: "store_inv (w_store (ready_world fs))"
  by (simp add: ready_world_def store_inv_def new_store_def records_inv_def delegations_inv_def
      records_indexed_def delegations_indexed_def)

definition sample_create :: "string \<Rightarrow> string \<Rightarrow> create_provisional_input" where
  "sample_create hid rid =
     \<lparr>cp_hostThreadId = hid, cp_createRequestId = rid, cp_harnessId = ''claude'', cp_importSourceRef = None,
      cp_cwd = ''/w'', cp_title = None, cp_transportModelId = ''m'', cp_ephemeral = False,
      cp_historyMode = Legacy, cp_projectlessWorkspace = None, cp_forkSource = None, cp_subagent = None\<rparr>"

text \<open>A store with one Thread and one delegation, and the records in it.\<close>

definition sample_delegation :: "string \<Rightarrow> create_delegation_input" where
  "sample_delegation did =
     \<lparr>cd_delegationId = did, cd_parentHostThreadId = ''p'', cd_childHostThreadId = ''c'',
      cd_sourceHarnessId = ''codex'', cd_targetHarnessId = ''claude'', cd_status = Some DCompleted,
      cd_requestId = None, cd_taskDigest = replicate 64 (CHR ''a'')\<rparr>"

definition sample_world :: world where
  "sample_world =
     foldl store_step (ready_world [])
       [CreateProvisional 1 (sample_create ''t1'' ''r1''), CreateDelegation 2 (sample_delegation ''d1'')]"

lemma sample_world_inv [simp]: "store_inv (w_store sample_world)"
  unfolding sample_world_def by (rule mapping_store.run_inv) simp

definition sample_thread :: thread_record where
  "sample_thread = new_record 1 (sample_create ''t1'' ''r1'')"

subsection \<open>Identity\<close>





text \<open>
  C3. One operation changes a stored Thread only forward: its ids, Harness, working directory and
  creation time are fixed, a ready Thread stays ready, and unless only its measurements change
  its revision goes up by exactly one.
\<close>

theorem store_record_evolves:
  assumes "store_inv (w_store w)"
    and "js_get (st_records (w_store w)) hid = Some a"
    and "js_get (st_records (w_store (store_step w op))) hid = Some b"
  shows "record_evolves a b"
proof -
  obtain r w' where run: "run_op op w = (r, w')" by (cases "run_op op w")
  from runsD [OF run_op_ok [OF assms(1)] refl run] show ?thesis
    using assms(2,3) run by (simp add: step_ok_def store_step_def)
qed

theorem store_record_evolves_witness:
  "record_evolves sample_thread (sample_thread\<lparr>tr_revision := 2, tr_title := ''new'', tr_updatedAt := 9\<rparr>)"
  by (rule store_record_evolves [OF sample_world_inv, of "''t1''" _ "SetTitle 9 ''t1'' ''new''"]; code_simp)

text \<open>
  A delegation that reached a terminal status never leaves the terminal statuses again, and
  every change of a delegation raises its revision by one and keeps its ids.
\<close>

theorem store_delegation_evolves:
  assumes "store_inv (w_store w)"
    and "js_get (st_delegations (w_store w)) did = Some a"
    and "js_get (st_delegations (w_store (store_step w op))) did = Some b"
  shows "delegation_evolves a b"
proof -
  obtain r w' where run: "run_op op w = (r, w')" by (cases "run_op op w")
  from runsD [OF run_op_ok [OF assms(1)] refl run] show ?thesis
    using assms(2,3) run by (simp add: step_ok_def store_step_def)
qed

theorem store_delegation_evolves_witness:
  "\<exists>a b. js_get (st_delegations (w_store sample_world)) ''d1'' = Some a \<and>
     js_get (st_delegations (w_store (store_step sample_world (SetDelegationStatus 5 ''d1'' DFailed)))) ''d1'' = Some b \<and>
     dl_status b = DFailed \<and> delegation_evolves a b"
proof -
  let ?w = "store_step sample_world (SetDelegationStatus 5 ''d1'' DFailed)"
  have a: "js_get (st_delegations (w_store sample_world)) ''d1'' \<noteq> None" by code_simp
  have b: "map_option dl_status (js_get (st_delegations (w_store ?w)) ''d1'') = Some DFailed" by code_simp
  from a obtain x where x: "js_get (st_delegations (w_store sample_world)) ''d1'' = Some x" by blast
  from b obtain y where y: "js_get (st_delegations (w_store ?w)) ''d1'' = Some y" "dl_status y = DFailed"
    by auto
  show ?thesis
    using store_delegation_evolves [OF sample_world_inv x y(1)] x y by blast
qed

subsection \<open>Creation\<close>

text \<open>
  C4. Creating a Thread is idempotent per create request: a repeated request, whatever its other
  arguments, returns the Thread the first one made and writes nothing.
\<close>

theorem createProvisional_idempotent:
  assumes inv: "store_inv (w_store w)" and first: "createProvisional now i w = (Inr r, w1)"
    and same: "cp_createRequestId i' = cp_createRequestId i"
  shows "createProvisional now' i' w1 = (Inr r, w1)"
proof -
  let ?s1 = "w_store w1"
  have init: "st_initialized (w_store w)"
    using first by (auto simp: createProvisional_def thenE_def requireInitialized_def split: if_splits)
  have res: "create_result (w_store w) now i (Inr r) ?s1"
    using runsD [OF createProvisional_runs [OF inv] refl first] .
  then obtain k where k: "js_get (st_createRequests ?s1) (cp_createRequestId i) = Some k"
      "js_get (st_records ?s1) k = Some r" "store_inv ?s1" "st_initialized ?s1"
    unfolding create_result_def
  proof (elim disjE conjE exE)
    fix x assume p: "parse_record (new_record now i) = Some x" and "Inr r = Inr x"
      and w: "written (w_store w) (js_set (cp_hostThreadId i) x (st_records (w_store w))) ?s1"
    then have x: "x = r" by simp
    have "(cp_hostThreadId i, r) \<in> set (st_records ?s1)"
      using w x by (intro js_get_mem) (simp add: written_def)
    moreover have "tr_createRequestId r = cp_createRequestId i"
      using parse_record_Some(2) [OF p] x by (simp add: new_record_def)
    ultimately have "js_get (st_createRequests ?s1) (cp_createRequestId i) = Some (cp_hostThreadId i)"
      using records_indexedD(1) [OF store_invD(3)] w by (metis written_def)
    then show thesis using that w x init by (simp add: written_def)
  qed (use inv init that in auto)
  have "k \<noteq> []" using records_get_id [OF k(3,2)] record_ok_ids(1) by auto
  then show ?thesis
    using k same
    by (simp add: createProvisional_def thenE_def requireInitialized_def getStore_def retE_def truthy_def)
qed

theorem createProvisional_idempotent_witness:
  "createProvisional 7 ((sample_create ''t2'' ''r1'')\<lparr>cp_cwd := ''/other''\<rparr>)
     (snd (createProvisional 1 (sample_create ''t1'' ''r1'') (ready_world []))) =
   (Inr sample_thread, snd (createProvisional 1 (sample_create ''t1'' ''r1'') (ready_world [])))"
proof (rule createProvisional_idempotent [OF store_inv_ready])
  have "fst (createProvisional 1 (sample_create ''t1'' ''r1'') (ready_world [])) = Inr sample_thread"
    by code_simp
  then show "createProvisional 1 (sample_create ''t1'' ''r1'') (ready_world []) =
      (Inr sample_thread, snd (createProvisional 1 (sample_create ''t1'' ''r1'') (ready_world [])))"
    by (metis prod.collapse)
qed (simp add: sample_create_def)

end
