(* ===== verification/StorePresentation.thy ===== *)
theory StorePresentation
  imports StoreProperties
begin

text \<open>
  Section placements and superseded sessions: the presentation state that outlives the Threads
  it names.
\<close>

subsection \<open>Anchors of removed Threads\<close>

text \<open>
  \<open>anchor_path removed b n\<close> is the anchor \<open>n\<close> removed Threads further on: the reference walk,
  without the set of visited names.
\<close>

fun anchor_path :: "(string, string option) jsmap \<Rightarrow> string option \<Rightarrow> nat \<Rightarrow> string option" where
  "anchor_path removed x 0 = x"
| "anchor_path removed x (Suc n) =
     (case x of None \<Rightarrow> None
      | Some b \<Rightarrow> (case js_get removed b of None \<Rightarrow> Some b | Some y \<Rightarrow> anchor_path removed y n))"

lemma follow_anchor_settles:
  "follow_anchor removed visited x = Some b \<Longrightarrow> js_get removed b = None"
  by (induction removed visited x rule: follow_anchor.induct)
    (auto simp: follow_anchor.simps split: option.splits if_splits)

lemma follow_anchor_walks:
  "follow_anchor removed visited x = Some b \<Longrightarrow> \<exists>n. anchor_path removed x n = Some b"
proof (induction removed visited x rule: follow_anchor.induct)
  case (2 removed visited c)
  show ?case
  proof (cases "js_get removed c")
    case None
    then have "anchor_path removed (Some c) 0 = Some b" using "2.prems" by (simp add: follow_anchor.simps)
    then show ?thesis by blast
  next
    case (Some y)
    then have "c \<notin> set visited" "follow_anchor removed (c # visited) y = Some b"
      using "2.prems" by (auto simp: follow_anchor.simps split: if_splits)
    from "2.IH" [OF Some this] obtain n where "anchor_path removed y n = Some b" by blast
    then have "anchor_path removed (Some c) (Suc n) = Some b" using Some by simp
    then show ?thesis by blast
  qed
qed simp

lemma js_get_fold_key:
  "js_get (fold (\<lambda>p. js_set (f p) (g p)) ps m) k = None \<longleftrightarrow> js_get m k = None \<and> k \<notin> f ` set ps"
  by (induction ps arbitrary: m) auto

lemma removedSuccessors_None_iff:
  "js_get (removedSuccessors s) b = None \<longleftrightarrow>
     (\<forall>p\<in>set (st_sectionPlacements s). pl_hostThreadId p = b \<longrightarrow> js_has (st_records s) b)"
  by (auto simp: removedSuccessors_def js_get_fold_key)

lemma settled:
  assumes "follow_anchor (removedSuccessors s) [] x = Some (pl_hostThreadId p)"
    and "p \<in> set (st_sectionPlacements s)"
  shows "js_has (st_records s) (pl_hostThreadId p)"
  using follow_anchor_settles [OF assms(1)] assms(2) unfolding removedSuccessors_None_iff by blast

text \<open>
  The placements the store lists are those of stored Threads, in stored order, each in its
  section; no listed placement is anchored to a Thread that was removed, and an anchor is reached
  from the stored one by skipping removed Threads only.
\<close>

theorem visible_placements_anchored:
  "List.map pl_hostThreadId (visible_placements s) =
     filter (js_has (st_records s)) (List.map pl_hostThreadId (st_sectionPlacements s)) \<and>
   list_all2 (\<lambda>p q. q = p\<lparr>pl_beforeThreadId := pl_beforeThreadId q\<rparr> \<and>
       (\<forall>b. pl_beforeThreadId q = Some b \<longrightarrow>
          (\<forall>x\<in>set (st_sectionPlacements s). pl_hostThreadId x = b \<longrightarrow> js_has (st_records s) b) \<and>
          (\<exists>n. anchor_path (removedSuccessors s) (pl_beforeThreadId p) n = Some b)))
     (filter (\<lambda>p. js_has (st_records s) (pl_hostThreadId p)) (st_sectionPlacements s))
     (visible_placements s)"
proof
  show "List.map pl_hostThreadId (visible_placements s) =
      filter (js_has (st_records s)) (List.map pl_hostThreadId (st_sectionPlacements s))"
    by (simp add: visible_placements_def filter_map comp_def)
  show "list_all2 (\<lambda>p q. q = p\<lparr>pl_beforeThreadId := pl_beforeThreadId q\<rparr> \<and>
       (\<forall>b. pl_beforeThreadId q = Some b \<longrightarrow>
          (\<forall>x\<in>set (st_sectionPlacements s). pl_hostThreadId x = b \<longrightarrow> js_has (st_records s) b) \<and>
          (\<exists>n. anchor_path (removedSuccessors s) (pl_beforeThreadId p) n = Some b)))
     (filter (\<lambda>p. js_has (st_records s) (pl_hostThreadId p)) (st_sectionPlacements s))
     (visible_placements s)"
    unfolding visible_placements_def list_all2_map2
    by (rule list.rel_refl_strong)
      (auto intro: settled follow_anchor_walks)
qed

definition sample_placement :: "string \<Rightarrow> string option \<Rightarrow> section_placement" where
  "sample_placement h b =
     \<lparr>pl_hostThreadId = h, pl_section = \<lparr>sc_id = ''s'', sc_name = ''S'', sc_appearance = None\<rparr>,
      pl_enteredAt = 0, pl_beforeThreadId = b\<rparr>"

theorem visible_placements_anchored_witness:
  "List.map pl_hostThreadId (visible_placements
     ((w_store sample_world)\<lparr>st_sectionPlacements :=
        [sample_placement ''t1'' (Some ''gone''), sample_placement ''gone'' (Some ''x'')]\<rparr>)) = [''t1''] \<and>
   List.map pl_beforeThreadId (visible_placements
     ((w_store sample_world)\<lparr>st_sectionPlacements :=
        [sample_placement ''t1'' (Some ''gone''), sample_placement ''gone'' (Some ''x'')]\<rparr>)) = [Some ''x'']"
proof -
  let ?s = "(w_store sample_world)\<lparr>st_sectionPlacements :=
        [sample_placement ''t1'' (Some ''gone''), sample_placement ''gone'' (Some ''x'')]\<rparr>"
  have "List.map pl_hostThreadId (visible_placements ?s) =
      filter (js_has (st_records ?s)) (List.map pl_hostThreadId (st_sectionPlacements ?s))"
    by (rule visible_placements_anchored [THEN conjunct1])
  moreover have "filter (js_has (st_records ?s)) (List.map pl_hostThreadId (st_sectionPlacements ?s)) = [''t1'']"
    by code_simp
  moreover have "List.map pl_beforeThreadId (visible_placements ?s) = [Some ''x'']" by code_simp
  ultimately show ?thesis by simp
qed

end
