(* ===== verification/TurnMappings.thy ===== *)
theory TurnMappings
  imports StoreMachine
begin

text \<open>
  The Turn mappings of a Thread: what merging and reconciling a batch of mappings may do to the
  stored ones.
\<close>

text \<open>The lookup maps of a list: each key leads to the one position that carries it.\<close>

definition locates :: "('k, nat) jsmap \<Rightarrow> ('a \<Rightarrow> 'k) \<Rightarrow> 'a list \<Rightarrow> bool" where
  "locates idx f xs = (\<forall>k i. js_get idx k = Some i \<longleftrightarrow> i < length xs \<and> f (xs ! i) = k)"

lemma locatesD: "locates idx f xs \<Longrightarrow> js_get idx k = Some i \<longleftrightarrow> i < length xs \<and> f (xs ! i) = k"
  by (simp add: locates_def)

lemma locates_None: "locates idx f xs \<Longrightarrow> js_get idx k = None \<longleftrightarrow> k \<notin> f ` set xs"
  unfolding locates_def in_set_conv_nth image_iff by (metis in_set_conv_nth not_Some_eq)

lemma positions_snoc: "positions f (xs @ [x]) = js_set (f x) (length xs) (positions f xs)"
  by (simp add: positions_def enumerate_append_eq)

lemma locates_snoc:
  assumes "locates idx f xs" and "f x \<notin> f ` set xs"
  shows "locates (js_set (f x) (length xs) idx) f (xs @ [x])"
proof -
  have "f (xs ! i) \<noteq> f x" if "i < length xs" for i
    using assms(2) that by (metis image_eqI nth_mem)
  then show ?thesis
    using assms(1) by (auto simp: locates_def nth_append less_Suc_eq)
qed

lemma locates_positions: "distinct (List.map f xs) \<Longrightarrow> locates (positions f xs) f xs"
proof (induction xs rule: rev_induct)
  case Nil
  then show ?case by (simp add: positions_def locates_def)
next
  case (snoc x xs)
  then show ?case by (simp add: positions_snoc locates_snoc)
qed

text \<open>A stored mapping may only gain the checkpoint it lacked.\<close>

definition mapping_extends :: "turn_mapping \<Rightarrow> turn_mapping \<Rightarrow> bool" where
  "mapping_extends a b =
     (b = a \<or> tm_nativeCheckpointRef a = None \<and>
        b = a\<lparr>tm_nativeCheckpointRef := tm_nativeCheckpointRef b\<rparr>)"

definition mappings_extend :: "turn_mapping list \<Rightarrow> turn_mapping list \<Rightarrow> bool" where
  "mappings_extend xs ys =
     (length xs \<le> length ys \<and> (\<forall>i<length xs. mapping_extends (xs ! i) (ys ! i)))"

definition mapping_covers :: "turn_mapping \<Rightarrow> turn_mapping \<Rightarrow> bool" where
  "mapping_covers u m =
     (tm_hostTurnId m = tm_hostTurnId u \<and> tm_nativeTurnRef m = tm_nativeTurnRef u \<and>
      (tm_nativeCheckpointRef u = None \<or> tm_nativeCheckpointRef m = tm_nativeCheckpointRef u))"

lemma nativeTurnKey_extends: "mapping_extends a b \<Longrightarrow> nativeTurnKey b = nativeTurnKey a"
  by (metis mapping_extends_def nativeTurnKey_def turn_mapping.select_convs(2) turn_mapping.surjective turn_mapping.update_convs(3))

lemma mapping_extends_trans: "mapping_extends a b \<Longrightarrow> mapping_extends b c \<Longrightarrow> mapping_extends a c"
  unfolding mapping_extends_def by (cases a; cases b; cases c) auto

lemma mapping_covers_extends: "mapping_covers u a \<Longrightarrow> mapping_extends a b \<Longrightarrow> mapping_covers u b"
  unfolding mapping_extends_def mapping_covers_def by (cases a; cases b) auto

lemma mapping_extends_refl [simp]: "mapping_extends a a"
  by (simp add: mapping_extends_def)

lemma mappings_extend_refl [simp]: "mappings_extend xs xs"
  by (simp add: mappings_extend_def)

lemma mappings_extend_trans:
  "mappings_extend xs ys \<Longrightarrow> mappings_extend ys zs \<Longrightarrow> mappings_extend xs zs"
  unfolding mappings_extend_def by (meson dual_order.strict_trans1 mapping_extends_trans order_trans)

lemma mappings_extend_snoc: "mappings_extend xs (xs @ [x])"
  by (simp add: mappings_extend_def nth_append)

text \<open>One loop step either leaves the list, adds one mapping, or fills in one checkpoint.\<close>

definition merge_state :: "turn_mapping list \<Rightarrow> (host_turn_id, nat) jsmap \<Rightarrow> (string, nat) jsmap \<Rightarrow> bool" where
  "merge_state merged byHost byNative =
     (locates byHost tm_hostTurnId merged \<and> locates byNative nativeTurnKey merged \<and>
      distinct (List.map tm_hostTurnId merged) \<and> distinct (List.map nativeTurnKey merged))"

lemma merge_loop_extends:
  assumes "merge_loop merged byHost byNative us = Inr result" and "merge_state merged byHost byNative"
  shows "mappings_extend merged result \<and> distinct (List.map tm_hostTurnId result) \<and>
     distinct (List.map nativeTurnKey result) \<and> (\<forall>u\<in>set us. \<exists>m\<in>set result. mapping_covers u m)"
  using assms
proof (induction us arbitrary: merged byHost byNative)
  case Nil
  then show ?case by (simp add: merge_state_def)
next
  case (Cons u us)
  note st = Cons.prems(2) [unfolded merge_state_def]
  have via: ?case
    if run: "merge_loop merged' byHost' byNative' us = Inr result"
      and st': "merge_state merged' byHost' byNative'" and ext: "mappings_extend merged merged'"
      and cov: "i < length merged'" "mapping_covers u (merged' ! i)" for merged' byHost' byNative' i
  proof -
    note ih = Cons.IH [OF run st']
    have "i < length result" "mapping_extends (merged' ! i) (result ! i)"
      using ih cov(1) by (auto simp: mappings_extend_def)
    then have "\<exists>m\<in>set result. mapping_covers u m"
      using mapping_covers_extends [OF cov(2)] by (meson nth_mem)
    then show ?thesis using ih mappings_extend_trans [OF ext] by auto
  qed
  show ?case
  proof (cases "js_get byHost (tm_hostTurnId u)")
    case None
    then have new: "js_get byNative (nativeTurnKey u) = None"
      and run: "merge_loop (merged @ [u]) (js_set (tm_hostTurnId u) (length merged) byHost)
             (js_set (nativeTurnKey u) (length merged) byNative) us = Inr result"
      using Cons.prems(1) by (auto simp: Let_def split: if_splits)
    have fresh: "tm_hostTurnId u \<notin> tm_hostTurnId ` set merged" "nativeTurnKey u \<notin> nativeTurnKey ` set merged"
      using st locates_None None new by metis+
    then have "merge_state (merged @ [u]) (js_set (tm_hostTurnId u) (length merged) byHost)
        (js_set (nativeTurnKey u) (length merged) byNative)"
      using st by (auto simp: merge_state_def locates_snoc)
    from via [OF run this mappings_extend_snoc, of "length merged"] show ?thesis
      by (simp add: mapping_covers_def)
  next
    case (Some i)
    let ?m = "merged ! i"
    have i: "i < length merged" "tm_hostTurnId ?m = tm_hostTurnId u"
      using st Some locatesD by metis+
    have nt: "tm_nativeTurnRef ?m = tm_nativeTurnRef u"
      using Cons.prems(1) Some by (auto simp: Let_def split: if_splits)
    consider (fill) b where "tm_nativeCheckpointRef ?m = None" "tm_nativeCheckpointRef u = Some b"
        "merge_loop (merged[i := ?m\<lparr>tm_nativeCheckpointRef := Some b\<rparr>]) byHost byNative us = Inr result" |
      (keep) "merge_loop merged byHost byNative us = Inr result"
        "tm_nativeCheckpointRef u = None \<or> tm_nativeCheckpointRef ?m = tm_nativeCheckpointRef u"
      using Cons.prems(1) Some by (auto simp: Let_def split: if_splits option.splits)
    then show ?thesis
    proof cases
      case keep
      show ?thesis
        by (rule via [OF keep(1) Cons.prems(2) mappings_extend_refl i(1)])
          (use i nt keep(2) in \<open>auto simp: mapping_covers_def\<close>)
    next
      case fill
      let ?m' = "?m\<lparr>tm_nativeCheckpointRef := Some b\<rparr>"
      have ext: "mapping_extends ?m ?m'" using fill(1) by (simp add: mapping_extends_def)
      have same: "List.map f (merged[i := ?m']) = List.map f merged" if "f ?m' = f ?m"
        for f :: "turn_mapping \<Rightarrow> 'z"
        using that i(1) by (simp add: map_update list_update_same_conv)
      have keys: "List.map tm_hostTurnId (merged[i := ?m']) = List.map tm_hostTurnId merged"
        "List.map nativeTurnKey (merged[i := ?m']) = List.map nativeTurnKey merged"
        by (rule same; simp add: nativeTurnKey_extends [OF ext])+
      have loc: "locates idx f (merged[i := ?m']) = locates idx f merged"
        if "f ?m' = f ?m" for idx and f :: "turn_mapping \<Rightarrow> 'z"
      proof -
        have "f (merged[i := ?m'] ! j) = f (merged ! j)" for j
          using that i(1) by (cases "j = i") simp_all
        then show ?thesis unfolding locates_def by simp
      qed
      have st': "merge_state (merged[i := ?m']) byHost byNative"
        using st unfolding merge_state_def keys
        by (simp add: loc nativeTurnKey_extends [OF ext])
      show ?thesis
        by (rule via [OF fill(3) st', of i])
          (use i nt fill(2) ext in \<open>auto simp: mapping_covers_def mappings_extend_def nth_list_update\<close>)
    qed
  qed
qed

subsection \<open>The operations\<close>

text \<open>
  Merging keeps every stored Turn at its position with its native Turn, may only fill in a
  missing checkpoint, covers every update, and never lets two mappings share a Host or native Turn.
\<close>

theorem mergeMappings_extends:
  assumes "mergeMappings current updates = Inr merged"
    and "distinct (List.map tm_hostTurnId current)" and "distinct (List.map nativeTurnKey current)"
  shows "mappings_extend current merged \<and> distinct (List.map tm_hostTurnId merged) \<and>
     distinct (List.map nativeTurnKey merged) \<and>
     (\<forall>u\<in>set updates. \<exists>m\<in>set merged. mapping_covers u m)"
  using merge_loop_extends [OF assms(1) [unfolded mergeMappings_def]] assms(2,3)
  by (simp add: merge_state_def locates_positions)

definition sample_mapping :: "string \<Rightarrow> string \<Rightarrow> string option \<Rightarrow> turn_mapping" where
  "sample_mapping host native checkpoint =
     \<lparr>tm_hostTurnId = host,
      tm_nativeTurnRef = \<lparr>nt_harnessId = ''claude'', nt_nativeSessionId = ''s'', nt_nativeTurnKey = native\<rparr>,
      tm_nativeCheckpointRef =
        map_option (\<lambda>c. \<lparr>nc_harnessId = ''claude'', nc_nativeSessionId = ''s'', nc_checkpointId = c, nc_locator = None\<rparr>)
          checkpoint\<rparr>"

theorem mergeMappings_extends_witness:
  "mappings_extend [sample_mapping ''h1'' ''n1'' None]
     [sample_mapping ''h1'' ''n1'' (Some ''c''), sample_mapping ''h2'' ''n2'' None]"
proof -
  have "mergeMappings [sample_mapping ''h1'' ''n1'' None]
      [sample_mapping ''h1'' ''n1'' (Some ''c''), sample_mapping ''h2'' ''n2'' None] =
      Inr [sample_mapping ''h1'' ''n1'' (Some ''c''), sample_mapping ''h2'' ''n2'' None]"
    by code_simp
  from mergeMappings_extends [OF this] show ?thesis by simp
qed

text \<open>An accepted update of \<open>reconcileTurnMappings\<close> moves no Turn of the stored mappings.\<close>

definition same_identity_mapping :: "turn_mapping \<Rightarrow> turn_mapping \<Rightarrow> bool" where
  "same_identity_mapping m u =
     ((tm_hostTurnId m = tm_hostTurnId u \<longrightarrow> tm_nativeTurnRef m = tm_nativeTurnRef u) \<and>
      (nativeTurnKey m = nativeTurnKey u \<longrightarrow> tm_hostTurnId m = tm_hostTurnId u))"

lemma reconcile_loop_Inr:
  assumes "reconcile_loop current byHost byNative seenHost seenNative us = Inr result"
    and "locates byHost tm_hostTurnId current" and "locates byNative nativeTurnKey current"
  shows "result = us \<and> distinct (List.map tm_hostTurnId us) \<and> distinct (List.map nativeTurnKey us) \<and>
     set (List.map tm_hostTurnId us) \<inter> set seenHost = {} \<and>
     set (List.map nativeTurnKey us) \<inter> set seenNative = {} \<and>
     (\<forall>u\<in>set us. \<forall>m\<in>set current. same_identity_mapping m u)"
  using assms
proof (induction us arbitrary: seenHost seenNative result)
  case Nil
  then show ?case by simp
next
  case (Cons u us)
  obtain rest where rest: "reconcile_loop current byHost byNative
      (tm_hostTurnId u # seenHost) (nativeTurnKey u # seenNative) us = Inr rest" "result = u # rest"
    using Cons.prems(1) by (auto simp: Let_def bindE_Inr_iff split: if_splits)
  note ih = Cons.IH [OF rest(1) Cons.prems(2,3)]
  have hosts: "tm_hostTurnId u \<notin> set seenHost" "nativeTurnKey u \<notin> set seenNative"
    using Cons.prems(1) by (auto simp: Let_def split: if_splits)
  have "same_identity_mapping m u" if m: "m \<in> set current" for m
  proof -
    obtain i where i: "i < length current" "current ! i = m" using m by (auto simp: in_set_conv_nth)
    have "tm_nativeTurnRef m = tm_nativeTurnRef u" if "tm_hostTurnId m = tm_hostTurnId u"
    proof -
      have "js_get byHost (tm_hostTurnId u) = Some i"
        using locatesD [OF Cons.prems(2)] i that by simp
      then show ?thesis using Cons.prems(1) i by (auto simp: Let_def split: if_splits)
    qed
    moreover have "tm_hostTurnId m = tm_hostTurnId u" if "nativeTurnKey m = nativeTurnKey u"
    proof -
      have "js_get byNative (nativeTurnKey u) = Some i"
        using locatesD [OF Cons.prems(3)] i that by simp
      then show ?thesis using Cons.prems(1) i by (auto simp: Let_def split: if_splits)
    qed
    ultimately show ?thesis by (simp add: same_identity_mapping_def)
  qed
  then show ?case using ih rest(2) hosts by auto
qed

text \<open>
  Reconciling stores exactly the given mappings, in the given order, and only when they name
  no Turn twice and neither give a stored Host Turn another native Turn nor a stored native Turn
  another Host Turn.
\<close>

theorem reconcileMappings_exact:
  assumes "reconcileMappings current mappings = Inr result"
    and "distinct (List.map tm_hostTurnId current)" and "distinct (List.map nativeTurnKey current)"
  shows "result = mappings \<and> distinct (List.map tm_hostTurnId mappings) \<and>
     distinct (List.map nativeTurnKey mappings) \<and>
     (\<forall>u\<in>set mappings. \<forall>m\<in>set current. same_identity_mapping m u)"
  using reconcile_loop_Inr [OF assms(1) [unfolded reconcileMappings_def]
      locates_positions [OF assms(2)] locates_positions [OF assms(3)]]
  by simp

theorem reconcileMappings_exact_witness:
  "distinct (List.map tm_hostTurnId [sample_mapping ''h2'' ''n2'' None, sample_mapping ''h1'' ''n1'' None])"
proof -
  have "reconcileMappings [sample_mapping ''h1'' ''n1'' (Some ''c'')]
      [sample_mapping ''h2'' ''n2'' None, sample_mapping ''h1'' ''n1'' None] =
      Inr [sample_mapping ''h2'' ''n2'' None, sample_mapping ''h1'' ''n1'' None]"
    by code_simp
  from reconcileMappings_exact [OF this] show ?thesis by simp
qed

end
