(* ===== verification/StoreStartup.thy ===== *)
theory StoreStartup
  imports StorePresentation TurnMappings
begin

text \<open>
  Start and stop of the mapping store: \<open>initialize\<close>, \<open>#readRecord\<close>, \<open>#cleanupResidue\<close> and
  \<open>close\<close> (\<open>packages/mapping-store/src/mapping-store.ts\<close>). The names \<open>readdir\<close> lists are the
  keys of the directory; the lock file has a model of its own (\<open>StoreLock\<close>), so the outcome of
  \<open>#acquireLock\<close> is an argument here. A quarantine name carries a time stamp and is new.
\<close>

subsection \<open>Reading one Thread\<close>

definition parse_file :: "string \<Rightarrow> thread_record stored_file \<Rightarrow> store_error + thread_record" where
  "parse_file name f =
     (case f of
        Corrupt \<Rightarrow> Inl SYSTEM_ERROR
      | Parsed raw \<Rightarrow>
          (case parse_record raw of
             None \<Rightarrow> Inl INVALID_RECORD
           | Some r \<Rightarrow> if tr_hostThreadId r = name then Inr r else Inl INVALID_RECORD))"

definition readRecord :: "(disk \<Rightarrow> (string, thread_record stored_file) jsmap) \<Rightarrow> string \<Rightarrow> thread_record eff" where
  "readRecord dir name =
     thenE (syscall SYSTEM_ERROR) (\<lambda>_ w.
       case js_get (dir (w_disk w)) name of
         None \<Rightarrow> (Inl SYSTEM_ERROR, w)
       | Some f \<Rightarrow> (parse_file name f, w))"

text \<open>
  The quarantine of an unreadable Thread: metadata is copied first, then the record moves. The
  result tells whether the name stays pending.
\<close>

definition quarantineThread :: "string \<Rightarrow> bool eff" where
  "quarantineThread name =
     catchE
       (thenE (syscall SYSTEM_ERROR) (\<lambda>_.
        thenE (syscall SYSTEM_ERROR) (\<lambda>_.
        thenE (syscall SYSTEM_ERROR) (\<lambda>_.
        thenE (modDisk (\<lambda>d. d\<lparr>dk_threads := js_delete name (dk_threads d),
                              dk_quarantine := dk_quarantine d @ [name]\<rparr>)) (\<lambda>_. retE False)))))
       (\<lambda>_. retE True)"

text \<open>\<open>record.state === "creating" && !record.nativeSessionRef && !record.importSourceRef\<close>\<close>

definition abandoned :: "thread_record \<Rightarrow> bool" where
  "abandoned r =
     (tr_state r = Creating \<and> tr_nativeSessionRef r = None \<and> tr_importSourceRef r = None)"

text \<open>The record of a readable Thread, or \<open>None\<close> for one that is left behind.\<close>

definition admitThread :: "string \<Rightarrow> thread_record \<Rightarrow> thread_record option eff" where
  "admitThread name r =
     (if abandoned r then
        thenE (rmThread name) (\<lambda>_.
        thenE (rmBackup name) (\<lambda>_.
        thenE (rmMetadata (tr_hostThreadId r)) (\<lambda>_. retE None)))
      else
        thenE (readMetadata (tr_hostThreadId r)) (\<lambda>metadata.
          case metadata of
            Some md \<Rightarrow> retE (Some (withThreadMetadata r md))
          | None \<Rightarrow>
              if threadMetadataOf r = None then retE (Some r)
              else
                thenE (writeMetadataFile (tr_hostThreadId r) (threadMetadataOf r)) (\<lambda>_.
                thenE (replaceFile name r False) (\<lambda>_. retE (Some r)))))"

definition loadThread :: "string \<Rightarrow> (thread_record option \<times> bool) eff" where
  "loadThread name =
     thenE
       (catchE (thenE (readRecord dk_threads name) (\<lambda>r. retE (Inr r)))
          (\<lambda>_. catchE
                 (thenE (readRecord dk_backups name) (\<lambda>r.
                  thenE (replaceFile name r False) (\<lambda>_. retE (Inr r))))
                 (\<lambda>_. thenE (quarantineThread name) (\<lambda>pending. retE (Inl pending)))))
       (\<lambda>found. case found of
            Inl pending \<Rightarrow> retE (None, pending)
          | Inr r \<Rightarrow> thenE (admitThread name r) (\<lambda>admitted. retE (admitted, False)))"

text \<open>The loop over the names: the names whose quarantine is still pending.\<close>

fun loadThreads :: "string list \<Rightarrow> string list eff" where
  "loadThreads [] = retE []"
| "loadThreads (name # names) =
     thenE (loadThread name) (\<lambda>(admitted, pending).
     thenE (case admitted of None \<Rightarrow> retE () | Some r \<Rightarrow> modStore (setRecord r)) (\<lambda>_.
     thenE (loadThreads names) (\<lambda>rest. retE (if pending then name # rest else rest))))"

subsection \<open>The other files\<close>

fun each :: "('a \<Rightarrow> unit eff) \<Rightarrow> 'a list \<Rightarrow> unit eff" where
  "each f [] = retE ()"
| "each f (x # xs) = thenE (f x) (\<lambda>_. each f xs)"

definition bestEffort :: "unit eff \<Rightarrow> unit eff" where
  "bestEffort m = catchE m (\<lambda>_. retE ())"

definition removeOrphanMetadata :: "string list \<Rightarrow> unit eff" where
  "removeOrphanMetadata pending =
     thenE (syscall SYSTEM_ERROR) (\<lambda>_ w.
       each (\<lambda>name. bestEffort (rmMetadata name))
         (filter (\<lambda>name. \<not> js_has (st_records (w_store w)) name \<and> name \<notin> set pending)
            (js_keys (dk_metadata (w_disk w)))) w)"

definition parse_delegation :: "string \<Rightarrow> delegation_record stored_file \<Rightarrow> delegation_record option" where
  "parse_delegation name f =
     (case f of
        Corrupt \<Rightarrow> None
      | Parsed d \<Rightarrow> if delegation_ok d \<and> dl_delegationId d = name then Some d else None)"

definition loadDelegation :: "string \<Rightarrow> unit eff" where
  "loadDelegation name =
     catchE
       (thenE (syscall SYSTEM_ERROR) (\<lambda>_ w.
          case js_get (dk_delegations (w_disk w)) name of
            None \<Rightarrow> (Inl SYSTEM_ERROR, w)
          | Some f \<Rightarrow>
              (case parse_delegation name f of
                 None \<Rightarrow> (Inl SYSTEM_ERROR, w)
               | Some d \<Rightarrow>
                   modStore (\<lambda>s. s\<lparr>st_delegations := js_set (dl_delegationId d) d (st_delegations s)\<rparr>) w)))
       (\<lambda>_. bestEffort
              (thenE (syscall SYSTEM_ERROR) (\<lambda>_.
               modDisk (\<lambda>d. d\<lparr>dk_delegations := js_delete name (dk_delegations d),
                              dk_quarantine := dk_quarantine d @ [name]\<rparr>))))"

definition loadSectionPlacements :: "unit eff" where
  "loadSectionPlacements =
     catchE
       (thenE readSectionPlacementsFile (\<lambda>ps. modStore (\<lambda>s. s\<lparr>st_sectionPlacements := ps\<rparr>)))
       (\<lambda>_. thenE
              (bestEffort
                (thenE (syscall SYSTEM_ERROR) (\<lambda>_. modDisk (\<lambda>d. d\<lparr>dk_placements := None\<rparr>))))
              (\<lambda>_. modStore (\<lambda>s. s\<lparr>st_sectionPlacements := []\<rparr>)))"

definition loadSupersededSessions :: "unit eff" where
  "loadSupersededSessions =
     catchE
       (thenE readSupersededSessionsFile (\<lambda>ss. modStore (\<lambda>s. s\<lparr>st_supersededSessions := ss\<rparr>)))
       (\<lambda>_. thenE
              (bestEffort
                (thenE (syscall SYSTEM_ERROR) (\<lambda>_. modDisk (\<lambda>d. d\<lparr>dk_superseded := None\<rparr>))))
              (\<lambda>_. modStore (\<lambda>s. s\<lparr>st_supersededSessions := []\<rparr>)))"

text \<open>\<open>#cleanupResidue\<close> lists the directories and removes invisible temporary files.\<close>

definition cleanupResidue :: "unit eff" where
  "cleanupResidue = thenE (syscall SYSTEM_ERROR) (\<lambda>_. syscall SYSTEM_ERROR)"

definition close :: "unit eff" where
  "close = modStore (\<lambda>s. s\<lparr>st_lockHeld := False, st_initialized := False\<rparr>)"

subsection \<open>initialize\<close>

definition loadAll :: "unit eff" where
  "loadAll =
     thenE cleanupResidue (\<lambda>_.
     thenE (syscall SYSTEM_ERROR) (\<lambda>_.
     thenE (\<lambda>w. loadThreads (js_keys (dk_threads (w_disk w))) w) (\<lambda>pending.
     thenE (removeOrphanMetadata pending) (\<lambda>_.
     thenE (syscall SYSTEM_ERROR) (\<lambda>_.
     thenE (\<lambda>w. each loadDelegation (js_keys (dk_delegations (w_disk w))) w) (\<lambda>_.
     thenE loadSectionPlacements (\<lambda>_.
     thenE loadSupersededSessions (\<lambda>_.
     thenE rebuildE (\<lambda>_.
     modStore (\<lambda>s. s\<lparr>st_initialized := True\<rparr>))))))))))"

text \<open>What a failed load leaves behind: nothing of the partial load, and no lock.\<close>

definition discardLoad :: "store \<Rightarrow> store" where
  "discardLoad s =
     s\<lparr>st_records := [], st_delegations := [], st_sectionPlacements := [], st_supersededSessions := []\<rparr>"

definition initialize :: "store_error + unit \<Rightarrow> unit eff" where
  "initialize acquired =
     thenE getStore (\<lambda>s.
       if st_initialized s then retE ()
       else
         thenE (syscall SYSTEM_ERROR) (\<lambda>_.
         thenE (liftE acquired) (\<lambda>_.
         thenE (modStore (\<lambda>s. s\<lparr>st_lockHeld := True\<rparr>)) (\<lambda>_.
         catchE loadAll
           (\<lambda>e. thenE (modStore discardLoad) (\<lambda>_.
                thenE rebuildE (\<lambda>_. thenE close (\<lambda>_. throwE e))))))))"

end
