(* ===== verification/StoreRecovery.thy ===== *)
theory StoreRecovery
  imports StoreStartup
begin

text \<open>
  Memory and disk agree: what every operation of the store leaves on disk, when at most one
  system call fails in the whole run, and what the next start reads back from it.
\<close>

subsection \<open>Agreement\<close>

definition nfaults :: "world \<Rightarrow> nat" where
  "nfaults w = length (filter (\<lambda>f. f) (w_faults w))"

text \<open>The metadata file of a record: present exactly when the record has metadata to keep.\<close>

definition metadata_fields_of :: "thread_metadata \<Rightarrow> thread_record \<Rightarrow> bool" where
  "metadata_fields_of md r =
     (md_usageMeasurements md = tr_usageMeasurements r \<and> md_preview md = tr_preview r \<and>
      md_projectId md = tr_projectId r \<and> md_projectlessWorkspace md = tr_projectlessWorkspace r \<and>
      md_daybreakEnabled md = tr_daybreakEnabled r \<and> md_gitInfo md = tr_gitInfo r)"

definition metadata_agrees :: "thread_metadata stored_file option \<Rightarrow> thread_record \<Rightarrow> bool" where
  "metadata_agrees g r =
     (case g of
        None \<Rightarrow> threadMetadataOf r = None
      | Some Corrupt \<Rightarrow> False
      | Some (Parsed md) \<Rightarrow>
          metadata_ok md \<and> md_hostThreadId md = tr_hostThreadId r \<and> metadata_fields_of md r)"

text \<open>The Thread file: the record without its metadata, up to a stale measurement.\<close>

definition thread_agrees :: "thread_record stored_file option \<Rightarrow> thread_record \<Rightarrow> bool" where
  "thread_agrees f r =
     (case f of
        Some (Parsed raw) \<Rightarrow>
          raw = (withoutThreadMetadata r)\<lparr>tr_usageMeasurements := tr_usageMeasurements raw\<rparr> \<and>
          opt_ok storedUsage_ok (tr_usageMeasurements raw)
      | _ \<Rightarrow> False)"

definition record_on_disk :: "disk \<Rightarrow> host_thread_id \<Rightarrow> thread_record option \<Rightarrow> bool" where
  "record_on_disk d hid r =
     (case r of
        None \<Rightarrow> js_get (dk_threads d) hid = None \<and> js_get (dk_metadata d) hid = None
      | Some r \<Rightarrow>
          opt_ok storedUsage_ok (tr_usageMeasurements r) \<and>
          thread_agrees (js_get (dk_threads d) hid) r \<and> metadata_agrees (js_get (dk_metadata d) hid) r)"

definition disk_agrees :: "world \<Rightarrow> bool" where
  "disk_agrees w =
     (distinct (js_keys (dk_threads (w_disk w))) \<and> distinct (js_keys (dk_delegations (w_disk w))) \<and>
      (\<forall>hid. record_on_disk (w_disk w) hid (js_get (st_records (w_store w)) hid)) \<and>
      (\<forall>k. js_get (dk_delegations (w_disk w)) k = map_option Parsed (js_get (st_delegations (w_store w)) k)))"

subsection \<open>One file operation: done, or a fault and nothing changed\<close>

lemma syscall_cases:
  assumes "syscall e w = (r, w')"
  shows "w_store w' = w_store w \<and> w_disk w' = w_disk w \<and>
     (r = Inr () \<and> nfaults w' = nfaults w \<or> r = Inl e \<and> Suc (nfaults w') = nfaults w)"
  using assms by (auto simp: syscall_def nfaults_def split: list.splits if_splits)

text \<open>
  \<open>touches m f w\<close>: \<open>m\<close> either returns with the disk changed by \<open>f\<close>, or throws after a fault with
  the Thread, metadata and delegation files as they were.
\<close>

definition same_files :: "disk \<Rightarrow> disk \<Rightarrow> bool" where
  "same_files d d' =
     (dk_threads d' = dk_threads d \<and> dk_metadata d' = dk_metadata d \<and> dk_delegations d' = dk_delegations d)"

definition touches :: "unit eff \<Rightarrow> (disk \<Rightarrow> disk) \<Rightarrow> world \<Rightarrow> bool" where
  "touches m f w =
     (w_store (snd (m w)) = w_store w \<and>
      (fst (m w) = Inr () \<and> nfaults (snd (m w)) = nfaults w \<and> same_files (f (w_disk w)) (w_disk (snd (m w))) \<or>
       (\<exists>e. fst (m w) = Inl e) \<and> nfaults (snd (m w)) < nfaults w \<and> same_files (w_disk w) (w_disk (snd (m w)))))"

lemma touchesD:
  assumes "touches m f w" and "m w = (r, w')"
  shows "w_store w' = w_store w"
    and "r = Inr u \<Longrightarrow> nfaults w' = nfaults w \<and> same_files (f (w_disk w)) (w_disk w')"
    and "r = Inl e \<Longrightarrow> nfaults w' < nfaults w \<and> same_files (w_disk w) (w_disk w')"
  using assms by (auto simp: touches_def)

lemma touchesI:
  assumes "\<And>r w'. m w = (r, w') \<Longrightarrow> w_store w' = w_store w \<and>
     (r = Inr () \<and> nfaults w' = nfaults w \<and> same_files (f (w_disk w)) (w_disk w') \<or>
      (\<exists>e. r = Inl e) \<and> nfaults w' < nfaults w \<and> same_files (w_disk w) (w_disk w'))"
  shows "touches m f w"
  using assms [of "fst (m w)" "snd (m w)"] by (simp add: touches_def)

lemma same_files_refl [simp]: "same_files d d"
  by (simp add: same_files_def)

lemma touches_rm:
  "touches (rmThread h) (\<lambda>d. d\<lparr>dk_threads := js_delete h (dk_threads d)\<rparr>) w"
  "touches (rmBackup h) (\<lambda>d. d) w"
  "touches (rmMetadata h) (\<lambda>d. d\<lparr>dk_metadata := js_delete h (dk_metadata d)\<rparr>) w"
  by (intro touchesI; auto simp: rmThread_def rmBackup_def rmMetadata_def thenE_def modDisk_def same_files_def
      nfaults_def syscall_def split: list.splits if_splits)+

lemma touches_replaceFile:
  "touches (replaceFile t r b) (\<lambda>d. d\<lparr>dk_threads := js_set t (Parsed (withoutThreadMetadata r)) (dk_threads d)\<rparr>) w"
  by (intro touchesI)
    (auto simp: replaceFile_def thenE_def modDisk_def same_files_def nfaults_def syscall_def
      split: list.splits if_splits option.splits)

lemma touches_replaceDelegationFile:
  "touches (replaceDelegationFile d)
     (\<lambda>k. k\<lparr>dk_delegations := js_set (dl_delegationId d) (Parsed d) (dk_delegations k)\<rparr>) w"
  by (intro touchesI)
    (auto simp: replaceDelegationFile_def thenE_def modDisk_def same_files_def nfaults_def syscall_def
      split: list.splits if_splits)

text \<open>Touching effects compose.\<close>

lemma touches_eq: "touches m f w \<Longrightarrow> f (w_disk w) = g (w_disk w) \<Longrightarrow> touches m g w"
  by (simp add: touches_def)

lemma touches_mod: "touches (modDisk f) f w"
  by (simp add: touches_def modDisk_def nfaults_def)

lemma touches_sys:
  assumes "\<And>w. touches m f w"
  shows "touches (thenE (syscall e) (\<lambda>_. m)) f w"
proof (rule touchesI)
  fix r w' assume run: "thenE (syscall e) (\<lambda>_. m) w = (r, w')"
  obtain r1 w1 where s: "syscall e w = (r1, w1)" by (cases "syscall e w")
  from syscall_cases [OF s] consider "r1 = Inr ()" "nfaults w1 = nfaults w" "w_store w1 = w_store w" "w_disk w1 = w_disk w"
    | "r1 = Inl e" "nfaults w1 < nfaults w" "w_store w1 = w_store w" "w_disk w1 = w_disk w" by auto
  then show "w_store w' = w_store w \<and>
     (r = Inr () \<and> nfaults w' = nfaults w \<and> same_files (f (w_disk w)) (w_disk w') \<or>
      (\<exists>e. r = Inl e) \<and> nfaults w' < nfaults w \<and> same_files (w_disk w) (w_disk w'))"
    using run s assms [of w1] by cases (auto simp: thenE_def touches_def)
qed

lemma touches_catch:
  assumes "touches m f w"
  shows "touches (catchE m (\<lambda>_. throwE e)) f w"
  using assms by (auto simp: touches_def catchE_def throwE_def split: prod.splits sum.splits)

lemma touches_after_read:
  assumes c: "\<And>r w'. m w = (r, w') \<Longrightarrow> w_store w' = w_store w \<and> w_disk w' = w_disk w \<and>
     (r = Inr v \<and> nfaults w' = nfaults w \<or> r = Inl e \<and> nfaults w' < nfaults w)"
    and k: "\<And>w1. w_disk w1 = w_disk w \<Longrightarrow> touches (g v) f w1"
  shows "touches (thenE m g) f w"
proof (rule touchesI)
  fix r w' assume run: "thenE m g w = (r, w')"
  obtain r1 w1 where s: "m w = (r1, w1)" by (cases "m w")
  show "w_store w' = w_store w \<and>
     (r = Inr () \<and> nfaults w' = nfaults w \<and> same_files (f (w_disk w)) (w_disk w') \<or>
      (\<exists>e. r = Inl e) \<and> nfaults w' < nfaults w \<and> same_files (w_disk w) (w_disk w'))"
    using c [OF s] run s k [of w1] by (auto simp: thenE_def touches_def)
qed

text \<open>Writing metadata over a valid file, or over none.\<close>

definition put_metadata :: "host_thread_id \<Rightarrow> thread_metadata option \<Rightarrow> disk \<Rightarrow> disk" where
  "put_metadata hid md d =
     (let retained = (case js_get (dk_metadata d) hid of Some (Parsed m) \<Rightarrow> md_extra m | _ \<Rightarrow> [])
      in if md = None \<and> retained = [] then d\<lparr>dk_metadata := js_delete hid (dk_metadata d)\<rparr>
         else d\<lparr>dk_metadata := js_set hid
                (Parsed ((case md of None \<Rightarrow> empty_metadata hid
                          | Some m \<Rightarrow> m\<lparr>md_hostThreadId := hid\<rparr>)\<lparr>md_extra := retained\<rparr>))
                (dk_metadata d)\<rparr>)"

definition metadata_readable :: "disk \<Rightarrow> host_thread_id \<Rightarrow> bool" where
  "metadata_readable d hid =
     (case js_get (dk_metadata d) hid of None \<Rightarrow> True | Some f \<Rightarrow> parse_metadata hid f \<noteq> None)"

lemma readMetadata_cases:
  assumes "metadata_readable (w_disk w) hid" and "readMetadata hid w = (r, w')"
  shows "w_store w' = w_store w \<and> w_disk w' = w_disk w \<and>
     (r = Inr (case js_get (dk_metadata (w_disk w)) hid of None \<Rightarrow> None | Some f \<Rightarrow> parse_metadata hid f) \<and>
        nfaults w' = nfaults w \<or>
      r = Inl SYSTEM_ERROR \<and> nfaults w' < nfaults w)"
  using assms
  by (auto simp: readMetadata_def thenE_def metadata_readable_def nfaults_def syscall_def
      split: list.splits if_splits option.splits)

lemma parse_metadata_extra: "parse_metadata hid f = Some m \<Longrightarrow> \<exists>raw. f = Parsed raw \<and> md_extra m = md_extra raw"
  by (auto simp: parse_metadata_def split: stored_file.splits if_splits)

lemma touches_writeMetadataFile:
  assumes "metadata_readable (w_disk w) hid"
  shows "touches (writeMetadataFile hid md) (put_metadata hid md) w"
proof -
  let ?g = "case js_get (dk_metadata (w_disk w)) hid of None \<Rightarrow> None | Some f \<Rightarrow> parse_metadata hid f"
  let ?retained = "case ?g of None \<Rightarrow> [] | Some m \<Rightarrow> md_extra m"
  let ?new = "Parsed ((case md of None \<Rightarrow> empty_metadata hid | Some m \<Rightarrow> m\<lparr>md_hostThreadId := hid\<rparr>)
      \<lparr>md_extra := ?retained\<rparr>)"
  let ?tail = "if md = None \<and> ?retained = [] then
        thenE (syscall IO_ERROR) (\<lambda>_. modDisk (\<lambda>d. d\<lparr>dk_metadata := js_delete hid (dk_metadata d)\<rparr>))
      else
        thenE (syscall IO_ERROR) (\<lambda>_. thenE (syscall IO_ERROR) (\<lambda>_.
          modDisk (\<lambda>d. d\<lparr>dk_metadata := js_set hid ?new (dk_metadata d)\<rparr>)))"
  have ex: "(case js_get (dk_metadata (w_disk w)) hid of Some (Parsed m) \<Rightarrow> md_extra m | _ \<Rightarrow> []) = ?retained"
    using assms parse_metadata_extra
    by (fastforce simp: metadata_readable_def split: option.splits stored_file.splits)
  have tail: "touches ?tail (put_metadata hid md) w1" if "w_disk w1 = w_disk w" for w1
  proof (cases "md = None \<and> ?retained = []")
    case True
    show ?thesis
      unfolding if_P [OF True]
      by (rule touches_eq [OF touches_sys [OF touches_mod]])
        (simp only: that put_metadata_def Let_def ex if_P [OF True])
  next
    case False
    show ?thesis
      unfolding if_not_P [OF False]
      by (rule touches_eq [OF touches_sys [OF touches_sys [OF touches_mod]]])
        (simp only: that put_metadata_def Let_def ex if_not_P [OF False])
  qed
  have "touches (thenE (readMetadata hid) (\<lambda>existing.
          let retained = (case existing of None \<Rightarrow> [] | Some m \<Rightarrow> md_extra m)
          in if md = None \<and> retained = [] then
               thenE (syscall IO_ERROR) (\<lambda>_.
               modDisk (\<lambda>d. d\<lparr>dk_metadata := js_delete hid (dk_metadata d)\<rparr>))
             else
               thenE (syscall IO_ERROR) (\<lambda>_.
               thenE (syscall IO_ERROR) (\<lambda>_.
               modDisk (\<lambda>d. d\<lparr>dk_metadata :=
                 js_set hid
                   (Parsed ((case md of None \<Rightarrow> empty_metadata hid
                             | Some m \<Rightarrow> m\<lparr>md_hostThreadId := hid\<rparr>)\<lparr>md_extra := retained\<rparr>))
                   (dk_metadata d)\<rparr>))))) (put_metadata hid md) w"
    by (rule touches_after_read [OF readMetadata_cases [OF assms]], assumption, unfold Let_def, erule tail)
  then show ?thesis
    unfolding writeMetadataFile_def by (rule touches_catch)
qed

subsection \<open>Rules for whole worlds\<close>

definition wruns :: "world \<Rightarrow> 'a eff \<Rightarrow> (store_error + 'a \<Rightarrow> world \<Rightarrow> bool) \<Rightarrow> bool" where
  "wruns w m Q = Q (fst (m w)) (snd (m w))"

lemma wruns_basic [simp]:
  "wruns w (retE a) Q = Q (Inr a) w"
  "wruns w (throwE e) Q = Q (Inl e) w"
  "wruns w (thenE getStore f) Q = wruns w (f (w_store w)) Q"
  "wruns w (thenE (modStore g) h) Q = wruns (w\<lparr>w_store := g (w_store w)\<rparr>) (h ()) Q"
  "wruns w (thenE (retE b) k) Q = wruns w (k b) Q"
  by (simp_all add: wruns_def eff_defs)

lemma wruns_require:
  "(st_initialized (w_store w) \<Longrightarrow> wruns w (f ()) Q) \<Longrightarrow> (\<not> st_initialized (w_store w) \<Longrightarrow> Q (Inl STORE_NOT_INITIALIZED) w) \<Longrightarrow>
   wruns w (thenE requireInitialized f) Q"
  by (simp add: wruns_def thenE_def requireInitialized_def)

lemma wruns_lift:
  "(\<And>e. r = Inl e \<Longrightarrow> Q (Inl e) w) \<Longrightarrow> (\<And>a. r = Inr a \<Longrightarrow> wruns w (f a) Q) \<Longrightarrow> wruns w (thenE (liftE r) f) Q"
  by (cases r) (simp_all add: wruns_def eff_defs)

lemma wruns_option:
  "(x = None \<Longrightarrow> wruns w a Q) \<Longrightarrow> (\<And>v. x = Some v \<Longrightarrow> wruns w (b v) Q) \<Longrightarrow>
   wruns w (case x of None \<Rightarrow> a | Some v \<Rightarrow> b v) Q"
  by (cases x) auto

lemma wruns_if: "(c \<Longrightarrow> wruns w a Q) \<Longrightarrow> (\<not> c \<Longrightarrow> wruns w b Q) \<Longrightarrow> wruns w (if c then a else b) Q"
  by simp

lemma wruns_touch:
  assumes "touches m f w"
    and "\<And>e w1. w_store w1 = w_store w \<Longrightarrow> nfaults w1 < nfaults w \<Longrightarrow> same_files (w_disk w) (w_disk w1) \<Longrightarrow> Q (Inl e) w1"
    and "\<And>w1. w_store w1 = w_store w \<Longrightarrow> nfaults w1 = nfaults w \<Longrightarrow> same_files (f (w_disk w)) (w_disk w1) \<Longrightarrow>
      wruns w1 (g ()) Q"
  shows "wruns w (thenE m g) Q"
  using assms(1) assms(2,3) [of "snd (m w)"] unfolding touches_def wruns_def thenE_def
  by (cases "m w"; cases "fst (m w)") auto

lemma wruns_catch:
  assumes "touches m f w"
    and "\<And>e w1. w_store w1 = w_store w \<Longrightarrow> nfaults w1 < nfaults w \<Longrightarrow> same_files (w_disk w) (w_disk w1) \<Longrightarrow>
      wruns w1 (thenE (h e) g) Q"
    and "\<And>w1. w_store w1 = w_store w \<Longrightarrow> nfaults w1 = nfaults w \<Longrightarrow> same_files (f (w_disk w)) (w_disk w1) \<Longrightarrow>
      wruns w1 (g ()) Q"
  shows "wruns w (thenE (catchE m h) g) Q"
  using assms(1) assms(2,3) [of "snd (m w)"] unfolding touches_def wruns_def thenE_def catchE_def
  by (cases "m w"; cases "fst (m w)") auto

lemma thenE_assoc: "thenE (thenE m f) g = thenE m (\<lambda>a. thenE (f a) g)"
  by (simp add: thenE_def fun_eq_iff split: prod.splits sum.splits)

lemma thenE_throw [simp]: "thenE (throwE e) f = throwE e"
  by (simp add: thenE_def throwE_def fun_eq_iff)

subsection \<open>Rebuilding the indexes keeps the data\<close>

definition same_data :: "store \<Rightarrow> store \<Rightarrow> bool" where
  "same_data s s' =
     (st_records s' = st_records s \<and> st_delegations s' = st_delegations s \<and>
      st_sectionPlacements s' = st_sectionPlacements s \<and>
      st_supersededSessions s' = st_supersededSessions s \<and>
      st_initialized s' = st_initialized s \<and> st_lockHeld s' = st_lockHeld s)"

lemma index_records_data: "same_data s (snd (index_records rs s))"
  by (induction rs s rule: index_records.induct)
    (auto simp: same_data_def index_record_def split: sum.splits)

lemma index_delegations_data: "same_data s (snd (index_delegations ds s))"
  by (induction ds s rule: index_delegations.induct)
    (auto simp: same_data_def Let_def split: option.splits)

lemma rebuildIndexes_data: "same_data s (snd (rebuildIndexes s))"
proof -
  obtain r s1 where d: "index_delegations (st_delegations s) (clear_indexes s) = (r, s1)"
    by (cases "index_delegations (st_delegations s) (clear_indexes s)")
  have "same_data (clear_indexes s) s1" using index_delegations_data [of "clear_indexes s"] d by (metis snd_conv)
  moreover have "same_data s1 (snd (index_records (st_records s) s1))" by (rule index_records_data)
  ultimately show ?thesis
    unfolding rebuildIndexes_def d by (cases r) (simp_all add: same_data_def clear_indexes_def)
qed

text \<open>Files do not see the indexes.\<close>

lemma disk_agrees_data:
  assumes "same_data (w_store w) (w_store w')" and "same_files (w_disk w) (w_disk w')"
  shows "disk_agrees w' = disk_agrees w"
  using assms unfolding disk_agrees_def same_data_def same_files_def record_on_disk_def
  by (simp cong: option.case_cong)

lemma wruns_rebuild:
  assumes "\<And>r s'. same_data (w_store w) s' \<Longrightarrow> P r (w\<lparr>w_store := s'\<rparr>)"
  shows "wruns w rebuildE P"
  using assms [OF rebuildIndexes_data] by (simp add: wruns_def rebuildE_def split: prod.splits) (metis snd_conv)

lemma wruns_rebuild_then:
  assumes "\<And>s'. same_data (w_store w) s' \<Longrightarrow> wruns (w\<lparr>w_store := s'\<rparr>) (f ()) P"
    and "\<And>s' e. same_data (w_store w) s' \<Longrightarrow> P (Inl e) (w\<lparr>w_store := s'\<rparr>)"
  shows "wruns w (thenE rebuildE f) P"
  using assms [OF rebuildIndexes_data [of "w_store w"]]
  by (cases "rebuildIndexes (w_store w)"; cases "fst (rebuildIndexes (w_store w))")
    (auto simp: wruns_def rebuildE_def thenE_def)

end
