(* ===== verification/StoreDisk.thy ===== *)
theory StoreDisk
  imports StoreRecovery
begin

text \<open>
  Memory and disk stay in agreement through every operation of the store, as long as the whole
  run meets at most one failing system call.
\<close>

subsection \<open>One Thread at a time\<close>

lemma record_ok_metadata:
  assumes "record_ok r" and "threadMetadataOf r = Some m"
  shows "metadata_ok (m\<lparr>md_extra := x\<rparr>)" and "md_hostThreadId m = tr_hostThreadId r"
    and "metadata_fields_of (m\<lparr>md_extra := x\<rparr>) r"
  using assms
  by (auto simp: threadMetadataOf_def record_ok_def threadCore_ok_def metadataFields_ok_def metadata_ok_def
      metadata_fields_of_def split: if_splits)

lemma put_metadata_agrees:
  assumes ok: "record_ok r" and hid: "tr_hostThreadId r = hid"
  shows "metadata_agrees (js_get (dk_metadata (put_metadata hid (threadMetadataOf r) d)) hid) r"
proof (cases "threadMetadataOf r")
  case None
  have "storedHostThreadId_ok hid" using ok hid by (simp add: record_ok_def threadCore_ok_def)
  moreover note None [unfolded threadMetadataOf_None_iff]
  ultimately show ?thesis
    using hid
    by (simp add: put_metadata_def Let_def metadata_agrees_def empty_metadata_def metadata_ok_def
        metadata_fields_of_def None)
next
  case (Some m)
  with record_ok_metadata [OF ok Some] hid show ?thesis
    by (cases m) (simp add: put_metadata_def Let_def metadata_agrees_def)
qed

lemma put_metadata_other:
  "dk_threads (put_metadata hid md d) = dk_threads d"
  "dk_delegations (put_metadata hid md d) = dk_delegations d"
  "h \<noteq> hid \<Longrightarrow> js_get (dk_metadata (put_metadata hid md d)) h = js_get (dk_metadata d) h"
  by (simp_all add: put_metadata_def Let_def)

lemma metadata_readable_agrees:
  assumes agrees: "disk_agrees w" and inv: "store_inv (w_store w)"
  shows "metadata_readable (w_disk w) hid"
proof (cases "js_get (st_records (w_store w)) hid")
  case None
  then have "js_get (dk_metadata (w_disk w)) hid = None"
    using agrees by (auto simp: disk_agrees_def record_on_disk_def dest: spec [of _ hid])
  then show ?thesis by (simp add: metadata_readable_def)
next
  case (Some r)
  then have "metadata_agrees (js_get (dk_metadata (w_disk w)) hid) r"
    using agrees by (auto simp: disk_agrees_def record_on_disk_def dest: spec [of _ hid])
  then show ?thesis
    using records_get_id(1) [OF inv Some]
    by (auto simp: metadata_readable_def metadata_agrees_def parse_metadata_def
        split: option.splits stored_file.splits)
qed

lemma thread_agrees_written:
  "opt_ok storedUsage_ok (tr_usageMeasurements r) \<Longrightarrow>
   thread_agrees (Some (Parsed (withoutThreadMetadata r))) r"
  by (simp add: thread_agrees_def withoutThreadMetadata_def)

lemma opt_ok_catch_usage: "opt_ok storedUsage_ok (catch_usage u)"
  by (simp add: catch_usage_def)

lemma parse_record_usage: "parse_record r = Some p \<Longrightarrow> opt_ok storedUsage_ok (tr_usageMeasurements p)"
  using opt_ok_catch_usage by (auto dest!: parse_record_Some(2))

text \<open>A change of one Thread's files and record.\<close>

lemma disk_agrees_at:
  assumes "disk_agrees w"
    and "\<And>h. h \<noteq> hid \<Longrightarrow> js_get (dk_threads d') h = js_get (dk_threads (w_disk w)) h"
    and "\<And>h. h \<noteq> hid \<Longrightarrow> js_get (dk_metadata d') h = js_get (dk_metadata (w_disk w)) h"
    and "\<And>h. h \<noteq> hid \<Longrightarrow> js_get (st_records s') h = js_get (st_records (w_store w)) h"
    and "distinct (js_keys (dk_threads d'))" and "dk_delegations d' = dk_delegations (w_disk w)"
    and "st_delegations s' = st_delegations (w_store w)"
    and "record_on_disk d' hid (js_get (st_records s') hid)"
    and "w_store w' = s'" and "w_disk w' = d'"
  shows "disk_agrees w'"
proof -
  have "record_on_disk d' h (js_get (st_records s') h)" for h
  proof (cases "h = hid")
    case False
    then show ?thesis
      using assms(1) assms(2-4) [OF False] by (auto simp: disk_agrees_def record_on_disk_def cong: option.case_cong)
  qed (simp add: assms(8))
  then show ?thesis using assms by (simp add: disk_agrees_def)
qed

lemma disk_agrees_same:
  "disk_agrees w \<Longrightarrow> w_store w1 = w_store w \<Longrightarrow> same_files (w_disk w) (w_disk w1) \<Longrightarrow> disk_agrees w1"
  using disk_agrees_data [of w w1] by (simp add: same_data_def)

lemma disk_agreesD:
  assumes "disk_agrees w"
  shows "distinct (js_keys (dk_threads (w_disk w)))" and "distinct (js_keys (dk_delegations (w_disk w)))"
    and "record_on_disk (w_disk w) hid (js_get (st_records (w_store w)) hid)"
    and "js_get (dk_delegations (w_disk w)) k = map_option Parsed (js_get (st_delegations (w_store w)) k)"
  using assms by (simp_all add: disk_agrees_def)

subsection \<open>Updates\<close>

lemma update_record_agrees:
  assumes agrees: "disk_agrees w" and inv: "store_inv (w_store w)" and budget: "nfaults w \<le> 1"
    and ch: "change_ok change"
  shows "wruns w (update_record now hid change keep) (\<lambda>_. disk_agrees)"
  unfolding update_record_def
proof (rule wruns_require, unfold wruns_basic, rule wruns_option, unfold wruns_basic, rule agrees,
    rule wruns_lift, rule agrees, rule wruns_option, unfold wruns_basic, rule agrees,
    rule wruns_option, unfold wruns_basic, rule agrees, rule wruns_lift, rule agrees)
  fix current changed c "next" u
  assume cur: "js_get (st_records (w_store w)) hid = Some current"
    and ch1: "change (w_store w) current = Inr changed" and c: "changed = Some c"
    and p: "parse_record (c\<lparr>tr_revision := tr_revision current + 1,
                tr_updatedAt := (if keep then tr_updatedAt current else now)\<rparr>) = Some next"
  have hid: "tr_hostThreadId current = hid" "tr_hostThreadId next = hid"
    using records_get_id(1) [OF inv cur] parse_record_id [OF p] ch ch1 c
    by (auto simp: change_ok_def same_identity_def)
  have ok: "record_ok next" "opt_ok storedUsage_ok (tr_usageMeasurements next)"
    using parse_record_Some(1) [OF p] parse_record_usage [OF p] by auto
  let ?put = "\<lambda>r d. d\<lparr>dk_threads := js_set hid (Parsed (withoutThreadMetadata r)) (dk_threads d)\<rparr>"
  note disk = disk_agreesD(3) [OF agrees, of hid, unfolded cur record_on_disk_def, simplified]
  have meta_same: "metadata_agrees g next" if "threadMetadataOf current = threadMetadataOf next" "metadata_agrees g current" for g
    using that hid by (auto simp: metadata_agrees_def metadata_fields_of_def threadMetadataOf_def
        split: option.splits stored_file.splits if_splits)
  have finish: "wruns w2 (thenE (modStore (\<lambda>s. s\<lparr>st_records := js_set hid next (st_records s)\<rparr>)) (\<lambda>_.
      thenE rebuildE (\<lambda>_. retE next))) (\<lambda>_. disk_agrees)"
    if w2: "w_store w2 = w_store w" "same_files (put_meta (?put next (w_disk w))) (w_disk w2)"
      and pm: "\<And>d. dk_threads (put_meta d) = dk_threads d" "\<And>d. dk_delegations (put_meta d) = dk_delegations d"
        "\<And>d h. h \<noteq> hid \<Longrightarrow> js_get (dk_metadata (put_meta d)) h = js_get (dk_metadata d) h"
        "metadata_agrees (js_get (dk_metadata (put_meta (?put next (w_disk w)))) hid) next"
    for w2 :: world and put_meta
  proof -
    have agree: "disk_agrees (w2\<lparr>w_store := (w_store w2)\<lparr>st_records := js_set hid next (st_records (w_store w2))\<rparr>,
        w_store := s'\<rparr>)" if "same_data (w_store (w2\<lparr>w_store := (w_store w2)\<lparr>st_records := js_set hid next (st_records (w_store w2))\<rparr>\<rparr>)) s'" for s'
      using that by (intro disk_agrees_at [OF agrees, of hid "w_disk w2" s'])
        (use w2 pm ok disk_agreesD(1) [OF agrees] in
          \<open>auto simp: same_files_def same_data_def record_on_disk_def thread_agrees_written\<close>)
    show ?thesis
      by (unfold wruns_basic, rule wruns_rebuild_then, unfold wruns_basic) (erule agree)+
  qed
  show "wruns w (thenE (replaceFile hid next True) (\<lambda>_.
        thenE
          (if threadMetadataOf current = threadMetadataOf next then retE ()
           else catchE (writeMetadataFile hid (threadMetadataOf next))
                  (\<lambda>e. thenE (catchE (replaceFile hid current False) (\<lambda>_. retE ()))
                         (\<lambda>_. throwE e))) (\<lambda>_.
        thenE (modStore (\<lambda>s. s\<lparr>st_records := js_set hid next (st_records s)\<rparr>)) (\<lambda>_.
        thenE rebuildE (\<lambda>_. retE next))))) (\<lambda>_. disk_agrees)"
  proof (rule wruns_touch [OF touches_replaceFile])
    fix e and w1 :: world assume "w_store w1 = w_store w" "same_files (w_disk w) (w_disk w1)"
    then show "disk_agrees w1" by (rule disk_agrees_same [OF agrees])
  next
    fix w1 :: world assume w1: "w_store w1 = w_store w" "nfaults w1 = nfaults w"
      "same_files (?put next (w_disk w)) (w_disk w1)"
    show "wruns w1 (thenE
          (if threadMetadataOf current = threadMetadataOf next then retE ()
           else catchE (writeMetadataFile hid (threadMetadataOf next))
                  (\<lambda>e. thenE (catchE (replaceFile hid current False) (\<lambda>_. retE ()))
                         (\<lambda>_. throwE e))) (\<lambda>_.
        thenE (modStore (\<lambda>s. s\<lparr>st_records := js_set hid next (st_records s)\<rparr>)) (\<lambda>_.
        thenE rebuildE (\<lambda>_. retE next)))) (\<lambda>_. disk_agrees)"
    proof (cases "threadMetadataOf current = threadMetadataOf next")
      case True
      show ?thesis
        unfolding if_P [OF True] wruns_basic(5)
        by (rule finish [OF w1(1), of id]) (use w1 disk meta_same [OF True] in auto)
    next
      case False
      have readable: "metadata_readable (w_disk w1) hid"
        using metadata_readable_agrees [OF agrees inv] w1(3)
        by (simp add: metadata_readable_def same_files_def)
      show ?thesis
        unfolding if_not_P [OF False]
      proof (rule wruns_catch [OF touches_writeMetadataFile [OF readable]])
        fix w2 :: world assume w2: "w_store w2 = w_store w1"
          "same_files (put_metadata hid (threadMetadataOf next) (w_disk w1)) (w_disk w2)"
        have "same_files (put_metadata hid (threadMetadataOf next) (?put next (w_disk w))) (w_disk w2)"
          using w1(3) w2(2) by (simp add: same_files_def put_metadata_def Let_def)
        then show "wruns w2 (thenE (modStore (\<lambda>s. s\<lparr>st_records := js_set hid next (st_records s)\<rparr>)) (\<lambda>_.
            thenE rebuildE (\<lambda>_. retE next))) (\<lambda>_. disk_agrees)"
          using w1(1) w2(1) put_metadata_agrees [OF ok(1) hid(2)]
          by (intro finish [of w2 "put_metadata hid (threadMetadataOf next)"]) (auto simp: put_metadata_other)
      next
        fix e and w2 :: world assume w2: "w_store w2 = w_store w1" "nfaults w2 < nfaults w1"
          "same_files (w_disk w1) (w_disk w2)"
        have zero: "nfaults w2 = 0" using w2(2) w1(2) budget by simp
        show "wruns w2 (thenE (thenE (catchE (replaceFile hid current False) (\<lambda>_. retE ())) (\<lambda>_. throwE e))
            (\<lambda>_. thenE (modStore (\<lambda>s. s\<lparr>st_records := js_set hid next (st_records s)\<rparr>)) (\<lambda>_.
             thenE rebuildE (\<lambda>_. retE next)))) (\<lambda>_. disk_agrees)"
          unfolding thenE_assoc thenE_throw
        proof (rule wruns_catch [OF touches_replaceFile], use zero in simp, unfold wruns_basic)
          fix w3 :: world assume w3: "w_store w3 = w_store w2" "same_files (?put current (w_disk w2)) (w_disk w3)"
          show "disk_agrees w3"
            by (rule disk_agrees_at [OF agrees, of hid "w_disk w3" "w_store w3"])
              (use w1 w2 w3 disk cur disk_agreesD(1) [OF agrees] in
                \<open>auto simp: same_files_def record_on_disk_def thread_agrees_written\<close>)
        qed
      qed
    qed
  qed
qed (rule agrees)

subsection \<open>Creation and removal\<close>

lemma disk_agrees_absent:
  assumes "disk_agrees w" and "\<not> js_has (st_records (w_store w)) hid"
  shows "js_get (dk_threads (w_disk w)) hid = None" and "js_get (dk_metadata (w_disk w)) hid = None"
  using disk_agreesD(3) [OF assms(1), of hid] assms(2) by (simp_all add: js_has_def record_on_disk_def)

lemma writeNew_agrees:
  assumes agrees: "disk_agrees w" and inv: "store_inv (w_store w)" and budget: "nfaults w \<le> 1"
    and ok: "record_ok r" "opt_ok storedUsage_ok (tr_usageMeasurements r)" and hid: "tr_hostThreadId r = hid"
    and fresh: "\<not> js_has (st_records (w_store w)) hid"
  shows "wruns w (writeNew r) (\<lambda>_. disk_agrees)"
proof -
  note gone = disk_agrees_absent [OF agrees fresh] and md = metadata_readable_agrees [OF agrees inv, of hid]
  note dist = disk_agreesD(1) [OF agrees]
  let ?put = "\<lambda>d. d\<lparr>dk_threads := js_set hid (Parsed (withoutThreadMetadata r)) (dk_threads d)\<rparr>"
  let ?meta = "if threadMetadataOf r = None then (\<lambda>d. d) else put_metadata hid (threadMetadataOf r)"
  have fin: "wruns w2 (thenE (modStore (setRecord r)) (\<lambda>_. rebuildE)) (\<lambda>_. disk_agrees)"
    if w2: "w_store w2 = w_store w" "same_files (?put (?meta (w_disk w))) (w_disk w2)" for w2 :: world
    unfolding wruns_basic
  proof (rule wruns_rebuild)
    fix s' assume "same_data (w_store (w2\<lparr>w_store := setRecord r (w_store w2)\<rparr>)) s'"
    then show "disk_agrees (w2\<lparr>w_store := setRecord r (w_store w2), w_store := s'\<rparr>)"
      using w2 ok gone dist hid put_metadata_agrees [OF ok(1) hid, of "w_disk w"]
      by (intro disk_agrees_at [OF agrees, of hid "w_disk w2" s'])
        (auto simp: same_files_def same_data_def record_on_disk_def thread_agrees_written setRecord_def
          put_metadata_other metadata_agrees_def split: if_splits)
  qed
  have second: "wruns w1 (thenE
       (catchE (replaceFile hid r False)
          (\<lambda>e. thenE (if threadMetadataOf r = None then retE ()
                       else catchE (rmMetadata hid) (\<lambda>_. retE ()))
                 (\<lambda>_. throwE e))) (\<lambda>_.
     thenE (modStore (setRecord r)) (\<lambda>_. rebuildE))) (\<lambda>_. disk_agrees)"
    if w1: "w_store w1 = w_store w" "nfaults w1 = nfaults w" "same_files (?meta (w_disk w)) (w_disk w1)" for w1 :: world
  proof (rule wruns_catch [OF touches_replaceFile])
    fix w2 :: world assume w2: "w_store w2 = w_store w1" "same_files (?put (w_disk w1)) (w_disk w2)"
    show "wruns w2 (thenE (modStore (setRecord r)) (\<lambda>_. rebuildE)) (\<lambda>_. disk_agrees)"
      by (rule fin) (use w1 w2 in \<open>auto simp: same_files_def\<close>)
  next
    fix e and w2 :: world assume w2: "w_store w2 = w_store w1" "nfaults w2 < nfaults w1" "same_files (w_disk w1) (w_disk w2)"
    have zero: "nfaults w2 = 0" using w1 w2 budget by simp
    show "wruns w2 (thenE (thenE (if threadMetadataOf r = None then retE () else catchE (rmMetadata hid) (\<lambda>_. retE ()))
          (\<lambda>_. throwE e)) (\<lambda>_. thenE (modStore (setRecord r)) (\<lambda>_. rebuildE))) (\<lambda>_. disk_agrees)"
    proof (cases "threadMetadataOf r = None")
      case True
      then show ?thesis
        using disk_agrees_same [OF agrees, of w2] w1 w2
        unfolding thenE_assoc thenE_throw by (simp add: same_files_def)
    next
      case False
      show ?thesis
        unfolding if_not_P [OF False] thenE_assoc thenE_throw
      proof (rule wruns_catch [OF touches_rm(3)], use zero in simp, unfold wruns_basic)
        fix w3 :: world assume w3: "w_store w3 = w_store w2"
          "same_files ((w_disk w2)\<lparr>dk_metadata := js_delete hid (dk_metadata (w_disk w2))\<rparr>) (w_disk w3)"
        show "disk_agrees w3"
          by (rule disk_agrees_at [OF agrees, of hid "w_disk w3" "w_store w3"])
            (use w1 w2 w3 gone dist fresh False in
              \<open>auto simp: same_files_def record_on_disk_def put_metadata_other js_has_def\<close>)
      qed
    qed
  qed
  have first: "wruns w (thenE (if threadMetadataOf r = None then retE () else writeMetadataFile hid (threadMetadataOf r)) (\<lambda>_.
     thenE
       (catchE (replaceFile hid r False)
          (\<lambda>e. thenE (if threadMetadataOf r = None then retE ()
                       else catchE (rmMetadata hid) (\<lambda>_. retE ()))
                 (\<lambda>_. throwE e))) (\<lambda>_.
     thenE (modStore (setRecord r)) (\<lambda>_. rebuildE)))) (\<lambda>_. disk_agrees)"
  proof (cases "threadMetadataOf r = None")
    case True
    then show ?thesis using second [of w] by simp
  next
    case False
    show ?thesis
      unfolding if_not_P [OF False]
      by (rule wruns_touch [OF touches_writeMetadataFile [OF md]], rule disk_agrees_same [OF agrees])
        (use second False in \<open>simp_all add: if_not_P [OF False]\<close>)
  qed
  show ?thesis
    unfolding writeNew_def Let_def hid wruns_basic
    by (rule wruns_lift, rule agrees, rule first)
qed

lemma wruns_then:
  assumes "wruns w m (\<lambda>_. P)" and "\<And>a w1. P w1 \<Longrightarrow> wruns w1 (f a) (\<lambda>_. P)"
  shows "wruns w (thenE m f) (\<lambda>_. P)"
  using assms unfolding wruns_def thenE_def by (cases "m w"; cases "fst (m w)") auto

lemma createProvisional_agrees:
  assumes agrees: "disk_agrees w" and inv: "store_inv (w_store w)" and budget: "nfaults w \<le> 1"
  shows "wruns w (createProvisional now i) (\<lambda>_. disk_agrees)"
  unfolding createProvisional_def
proof (rule wruns_require, unfold wruns_basic, intro wruns_option wruns_if; (unfold wruns_basic)?; (rule agrees)?)
  fix r
  assume fresh: "\<not> js_has (st_records (w_store w)) (cp_hostThreadId i)" and p: "parse_record (new_record now i) = Some r"
  have hid: "tr_hostThreadId r = cp_hostThreadId i"
    using parse_record_id [OF p] by (simp add: new_record_def)
  show "wruns w (thenE (writeNew r) (\<lambda>_. retE r)) (\<lambda>_. disk_agrees)"
    by (rule wruns_then [OF writeNew_agrees [OF agrees inv budget parse_record_Some(1) [OF p]
          parse_record_usage [OF p] hid fresh]]) simp
qed

end
