(* ===== verification/StoreCrash.thy ===== *)
theory StoreCrash
  imports StoreDisk
begin

text \<open>
  The remaining operations keep disk and memory in agreement; any run that meets at most one
  failing system call therefore does.
\<close>

subsection \<open>Removal\<close>

lemma removeRecord_agrees:
  assumes agrees: "disk_agrees w" and inv: "store_inv (w_store w)" and budget: "nfaults w \<le> 1"
  shows "wruns w (removeRecord hid) (\<lambda>_. disk_agrees)"
  unfolding removeRecord_def wruns_basic
proof (rule wruns_option; (unfold wruns_basic)?)
  fix current assume cur: "js_get (st_records (w_store w)) hid = Some current"
  note disk = disk_agreesD(3) [OF agrees, of hid, unfolded cur record_on_disk_def, simplified]
  note dist = disk_agreesD(1) [OF agrees]
  let ?rm = "\<lambda>d. d\<lparr>dk_threads := js_delete hid (dk_threads d)\<rparr>"
  let ?put = "\<lambda>d. d\<lparr>dk_threads := js_set hid (Parsed (withoutThreadMetadata current)) (dk_threads d)\<rparr>"
  let ?tail = "thenE (modStore (\<lambda>s. s\<lparr>st_records := js_delete hid (st_records s)\<rparr>)) (\<lambda>_. rebuildE)"
  have restore: "wruns w2 (thenE (thenE (replaceFile hid current False) (\<lambda>_. throwE e)) (\<lambda>_. ?tail)) (\<lambda>_. disk_agrees)"
    if w2: "w_store w2 = w_store w" "nfaults w2 = 0" "same_files (?rm (w_disk w)) (w_disk w2)" for w2 :: world and e
    unfolding thenE_assoc thenE_throw
  proof (rule wruns_touch [OF touches_replaceFile], use w2(2) in simp, unfold wruns_basic)
    fix w3 :: world assume "w_store w3 = w_store w2" "same_files (?put (w_disk w2)) (w_disk w3)"
    then show "disk_agrees w3"
      by (intro disk_agrees_at [OF agrees, of hid "w_disk w3" "w_store w3"])
        (use w2 disk cur dist in \<open>auto simp: same_files_def record_on_disk_def thread_agrees_written\<close>)
  qed
  have fin: "wruns w2 ?tail (\<lambda>_. disk_agrees)"
    if w2: "w_store w2 = w_store w"
      "same_files ((?rm (w_disk w))\<lparr>dk_metadata := js_delete hid (dk_metadata (w_disk w))\<rparr>) (w_disk w2)" for w2 :: world
    unfolding wruns_basic
  proof (rule wruns_rebuild)
    fix s' assume "same_data (w_store (w2\<lparr>w_store := (w_store w2)\<lparr>st_records := js_delete hid (st_records (w_store w2))\<rparr>\<rparr>)) s'"
    then show "disk_agrees (w2\<lparr>w_store := (w_store w2)\<lparr>st_records := js_delete hid (st_records (w_store w2))\<rparr>, w_store := s'\<rparr>)"
      by (intro disk_agrees_at [OF agrees, of hid "w_disk w2" s'])
        (use w2 dist in \<open>auto simp: same_files_def same_data_def record_on_disk_def\<close>)
  qed
  have two: "touches (thenE (rmBackup hid) (\<lambda>_. rmMetadata hid))
      (\<lambda>d. d\<lparr>dk_metadata := js_delete hid (dk_metadata d)\<rparr>) w1" for w1
  proof (rule touchesI)
    fix r w' assume run: "thenE (rmBackup hid) (\<lambda>_. rmMetadata hid) w1 = (r, w')"
    obtain r1 w2 where b: "rmBackup hid w1 = (r1, w2)" by (cases "rmBackup hid w1")
    show "w_store w' = w_store w1 \<and>
       (r = Inr () \<and> nfaults w' = nfaults w1 \<and>
          same_files ((w_disk w1)\<lparr>dk_metadata := js_delete hid (dk_metadata (w_disk w1))\<rparr>) (w_disk w') \<or>
        (\<exists>e. r = Inl e) \<and> nfaults w' < nfaults w1 \<and> same_files (w_disk w1) (w_disk w'))"
      using touches_rm(2) [of hid w1] touches_rm(3) [of hid w2] run b
      by (cases r1) (auto simp: thenE_def touches_def same_files_def)
  qed
  show "wruns w (thenE (rmThread hid) (\<lambda>_.
           thenE (catchE (thenE (rmBackup hid) (\<lambda>_. rmMetadata hid))
                    (\<lambda>e. thenE (replaceFile hid current False) (\<lambda>_. throwE e))) (\<lambda>_. ?tail))) (\<lambda>_. disk_agrees)"
  proof (rule wruns_touch [OF touches_rm(1)], rule disk_agrees_same [OF agrees], assumption+,
      rule wruns_catch [OF two])
    fix w1 w2 :: world
    assume w1: "w_store w1 = w_store w" "nfaults w1 = nfaults w" "same_files (?rm (w_disk w)) (w_disk w1)"
    {
      fix e assume "w_store w2 = w_store w1" "nfaults w2 < nfaults w1" "same_files (w_disk w1) (w_disk w2)"
      then show "wruns w2 (thenE (thenE (replaceFile hid current False) (\<lambda>_. throwE e)) (\<lambda>_. ?tail)) (\<lambda>_. disk_agrees)"
        using w1 budget by (intro restore) (auto simp: same_files_def)
    next
      assume "w_store w2 = w_store w1"
        "same_files ((w_disk w1)\<lparr>dk_metadata := js_delete hid (dk_metadata (w_disk w1))\<rparr>) (w_disk w2)"
      then show "wruns w2 ?tail (\<lambda>_. disk_agrees)"
        using w1 by (intro fin) (auto simp: same_files_def)
    }
  qed
qed (rule agrees)

subsection \<open>Measurements\<close>

lemma merge_measurement_ok:
  assumes "opt_ok P kept" and "opt_ok P new"
  shows "opt_ok P (merge_measurement retained kept new)"
  using assms by (auto simp: merge_measurement_def split: option.splits)

lemma merged_usage_ok:
  assumes cur: "opt_ok storedUsage_ok (tr_usageMeasurements r)" and vals: "usageMeasurements_ok values"
    and ref: "nativeSessionRef_ok expected"
  shows "opt_ok storedUsage_ok (merged_usage r expected values)"
proof -
  have "opt_ok P (case tr_usageMeasurements r of None \<Rightarrow> None
      | Some u \<Rightarrow> if su_nativeSessionRef u = expected
          then (case f (su_values u) of None \<Rightarrow> None | Some v \<Rightarrow> if um_turnId v \<in> T then Some v else None)
          else None)"
    if "\<And>u. usageMeasurements_ok u \<Longrightarrow> opt_ok P (f u)" for P f T
  proof (cases "tr_usageMeasurements r")
    case (Some u)
    then have "opt_ok P (f (su_values u))" using cur by (intro that) (simp add: storedUsage_ok_def)
    then show ?thesis using Some by (auto split: option.splits)
  qed simp
  then show ?thesis
    using vals ref unfolding merged_usage_def Let_def
    by (auto simp: storedUsage_ok_def usageMeasurements_ok_def intro!: merge_measurement_ok)
qed

lemma saveUsageMeasurements_agrees:
  assumes agrees: "disk_agrees w" and inv: "store_inv (w_store w)"
  shows "wruns w (saveUsageMeasurements hid expected values) (\<lambda>_. disk_agrees)"
  unfolding saveUsageMeasurements_def Let_def
proof (rule wruns_require)
  show "wruns w (thenE (if usageMeasurements_ok values then retE () else throwE ZOD_ERROR) (\<lambda>_.
     thenE getStore (\<lambda>s.
       case js_get (st_records s) hid of
         None \<Rightarrow> throwE THREAD_NOT_FOUND
       | Some current \<Rightarrow>
           if tr_state current \<noteq> Ready \<or> tr_nativeSessionRef current \<noteq> Some expected then retE current
           else if tr_usageMeasurements current =
                   tr_usageMeasurements (current\<lparr>tr_usageMeasurements := merged_usage current expected values\<rparr>)
                then retE current
                else
                  thenE (writeMetadataFile hid
                    (threadMetadataOf (current\<lparr>tr_usageMeasurements := merged_usage current expected values\<rparr>))) (\<lambda>_.
                  thenE (modStore (\<lambda>s. s\<lparr>st_records :=
                    js_set hid (current\<lparr>tr_usageMeasurements := merged_usage current expected values\<rparr>)
                      (st_records s)\<rparr>)) (\<lambda>_.
                  retE (current\<lparr>tr_usageMeasurements := merged_usage current expected values\<rparr>)))))) (\<lambda>_. disk_agrees)"
  proof (cases "usageMeasurements_ok values")
    case True
    show ?thesis
      unfolding if_P [OF True] wruns_basic
    proof (rule wruns_option; (unfold wruns_basic)?; (rule agrees)?; intro wruns_if; (unfold wruns_basic)?; (rule agrees)?)
      fix current
      assume cur: "js_get (st_records (w_store w)) hid = Some current"
        and "\<not> (tr_state current \<noteq> Ready \<or> tr_nativeSessionRef current \<noteq> Some expected)"
      then have ref: "tr_nativeSessionRef current = Some expected" by simp
      let ?next = "current\<lparr>tr_usageMeasurements := merged_usage current expected values\<rparr>"
      note ids = records_get_id [OF inv cur]
      note disk = disk_agreesD(3) [OF agrees, of hid, unfolded cur record_on_disk_def, simplified]
      have "nativeSessionRef_ok expected"
        using ids(2) ref by (simp add: record_ok_def threadCore_ok_def)
      then have usage: "opt_ok storedUsage_ok (merged_usage current expected values)"
        using disk True by (intro merged_usage_ok) auto
      have ok: "record_ok ?next" "tr_hostThreadId ?next = hid" using ids by auto
      have thr: "thread_agrees f ?next" if "thread_agrees f current" for f
        using that by (auto simp: thread_agrees_def withoutThreadMetadata_def split: option.splits stored_file.splits)
      show "wruns w (thenE (writeMetadataFile hid (threadMetadataOf ?next)) (\<lambda>_.
          thenE (modStore (\<lambda>s. s\<lparr>st_records := js_set hid ?next (st_records s)\<rparr>)) (\<lambda>_. retE ?next))) (\<lambda>_. disk_agrees)"
      proof (rule wruns_touch [OF touches_writeMetadataFile [OF metadata_readable_agrees [OF agrees inv]]],
          rule disk_agrees_same [OF agrees], assumption+, unfold wruns_basic)
        fix w1 :: world
        assume w1: "w_store w1 = w_store w" "same_files (put_metadata hid (threadMetadataOf ?next) (w_disk w)) (w_disk w1)"
        show "disk_agrees (w1\<lparr>w_store := (w_store w1)\<lparr>st_records := js_set hid ?next (st_records (w_store w1))\<rparr>\<rparr>)"
          by (rule disk_agrees_at [OF agrees, of hid "w_disk w1"
                "(w_store w1)\<lparr>st_records := js_set hid ?next (st_records (w_store w1))\<rparr>"])
            (use w1 disk usage disk_agreesD(1) [OF agrees] put_metadata_agrees [OF ok, of "w_disk w"] thr in
              \<open>auto simp: same_files_def record_on_disk_def put_metadata_other\<close>)
      qed
    qed
  qed (simp add: agrees)
qed (rule agrees)

subsection \<open>Delegations and presentation state\<close>

lemma storeDelegation_agrees:
  assumes agrees: "disk_agrees w" and key: "dl_delegationId d = key"
  shows "wruns w (storeDelegation key d) (\<lambda>_. disk_agrees)"
  unfolding storeDelegation_def
proof (rule wruns_touch [OF touches_replaceDelegationFile], rule disk_agrees_same [OF agrees], assumption+,
    unfold wruns_basic)
  fix w1 :: world
  assume w1: "w_store w1 = w_store w"
    "same_files ((w_disk w)\<lparr>dk_delegations := js_set (dl_delegationId d) (Parsed d) (dk_delegations (w_disk w))\<rparr>) (w_disk w1)"
  have agree: "disk_agrees (w1\<lparr>w_store := (w_store w1)\<lparr>st_delegations := js_set key d (st_delegations (w_store w1))\<rparr>, w_store := s'\<rparr>)"
    if "same_data (w_store (w1\<lparr>w_store := (w_store w1)\<lparr>st_delegations := js_set key d (st_delegations (w_store w1))\<rparr>\<rparr>)) s'" for s'
    using that w1 agrees key
    by (auto simp: disk_agrees_def same_data_def same_files_def record_on_disk_def cong: option.case_cong)
  show "wruns (w1\<lparr>w_store := (w_store w1)\<lparr>st_delegations := js_set key d (st_delegations (w_store w1))\<rparr>\<rparr>)
      (thenE rebuildE (\<lambda>_. retE d)) (\<lambda>_. disk_agrees)"
    by (rule wruns_rebuild_then, unfold wruns_basic) (erule agree)+
qed

lemma removeDelegation_agrees:
  assumes agrees: "disk_agrees w"
  shows "wruns w (removeDelegation did) (\<lambda>_. disk_agrees)"
proof -
  let ?rm = "\<lambda>k. k\<lparr>dk_delegations := js_delete did (dk_delegations k)\<rparr>"
  have t: "touches (thenE (syscall SYSTEM_ERROR) (\<lambda>_. modDisk ?rm)) ?rm w" by (rule touches_sys [OF touches_mod])
  have eq: "thenE (syscall SYSTEM_ERROR) (\<lambda>_. thenE (modDisk ?rm) k) =
      thenE (thenE (syscall SYSTEM_ERROR) (\<lambda>_. modDisk ?rm)) k" for k :: "unit \<Rightarrow> unit eff"
    by (simp add: thenE_assoc)
  show ?thesis
    unfolding removeDelegation_def eq
  proof (rule wruns_require)
    show "wruns w (thenE (thenE (syscall SYSTEM_ERROR) (\<lambda>_. modDisk ?rm))
          (\<lambda>_. thenE (modStore (\<lambda>s. s\<lparr>st_delegations := js_delete did (st_delegations s)\<rparr>)) (\<lambda>_. rebuildE))) (\<lambda>_. disk_agrees)"
    proof (rule wruns_touch [OF t], rule disk_agrees_same [OF agrees], assumption+, unfold wruns_basic)
      fix w1 :: world assume w1: "w_store w1 = w_store w" "same_files (?rm (w_disk w)) (w_disk w1)"
      show "wruns (w1\<lparr>w_store := (w_store w1)\<lparr>st_delegations := js_delete did (st_delegations (w_store w1))\<rparr>\<rparr>)
          rebuildE (\<lambda>_. disk_agrees)"
      proof (rule wruns_rebuild)
        fix s' assume "same_data (w_store (w1\<lparr>w_store := (w_store w1)\<lparr>st_delegations := js_delete did (st_delegations (w_store w1))\<rparr>\<rparr>)) s'"
        then show "disk_agrees (w1\<lparr>w_store := (w_store w1)\<lparr>st_delegations := js_delete did (st_delegations (w_store w1))\<rparr>, w_store := s'\<rparr>)"
          using w1 agrees
          by (auto simp: disk_agrees_def same_data_def same_files_def record_on_disk_def cong: option.case_cong)
      qed
    qed
  qed (rule agrees)
qed

text \<open>The two presentation files are none of the three kinds that must agree.\<close>

lemma touches_presentation:
  "wruns w (writeSectionPlacementsFile ps) (\<lambda>_ w'. w_store w' = w_store w \<and> same_files (w_disk w) (w_disk w'))"
  "wruns w (writeSupersededSessionsFile ss) (\<lambda>_ w'. w_store w' = w_store w \<and> same_files (w_disk w) (w_disk w'))"
  by (auto simp: wruns_def writeSectionPlacementsFile_def writeSupersededSessionsFile_def eff_defs same_files_def
      syscall_def split: list.splits if_splits sum.splits prod.splits)

lemma disk_agrees_presentation [simp]:
  "disk_agrees (w\<lparr>w_store := (w_store w)\<lparr>st_sectionPlacements := ps\<rparr>\<rparr>) = disk_agrees w"
  "disk_agrees (w\<lparr>w_store := (w_store w)\<lparr>st_supersededSessions := ss\<rparr>\<rparr>) = disk_agrees w"
  by (simp_all add: disk_agrees_def)

lemma wruns_conseq: "wruns w m P \<Longrightarrow> (\<And>r w'. P r w' \<Longrightarrow> Q r w') \<Longrightarrow> wruns w m Q"
  by (simp add: wruns_def)

lemma wruns_catch_all:
  assumes "wruns w m (\<lambda>_. P)" and "\<And>e w1. P w1 \<Longrightarrow> wruns w1 (h e) (\<lambda>_. P)"
  shows "wruns w (catchE m h) (\<lambda>_. P)"
  using assms unfolding wruns_def catchE_def by (cases "m w"; cases "fst (m w)") auto

lemma recordSuperseded_agrees:
  assumes "disk_agrees w"
  shows "wruns w (recordSuperseded now previous replaced) (\<lambda>_. disk_agrees)"
  unfolding recordSuperseded_def Let_def
proof (intro wruns_option wruns_if wruns_catch_all; (unfold wruns_basic)?; (rule assms)?)
  fix current
  show "wruns w (thenE (writeSupersededSessionsFile
          (filter (\<lambda>x. \<not> (ss_harnessId x = ns_harnessId previous \<and> ss_nativeSessionId x = current) \<and>
                       \<not> (ss_harnessId x = ns_harnessId previous \<and> ss_nativeSessionId x = ns_nativeSessionId previous))
             (st_supersededSessions (w_store w)) @
           [\<lparr>ss_harnessId = ns_harnessId previous, ss_nativeSessionId = ns_nativeSessionId previous,
             ss_hostThreadId = tr_hostThreadId replaced, ss_supersededAt = now\<rparr>])) (\<lambda>ss.
        modStore (\<lambda>s. s\<lparr>st_supersededSessions := ss\<rparr>))) (\<lambda>_. disk_agrees)"
    by (rule wruns_then [OF wruns_conseq [OF touches_presentation(2)]])
      (auto simp: wruns_def modStore_def disk_agrees_same [OF assms])
qed assumption

lemma replaceSectionPlacements_agrees:
  assumes "disk_agrees w"
  shows "wruns w (replaceSectionPlacements ps) (\<lambda>_. disk_agrees)"
  unfolding replaceSectionPlacements_def
proof (rule wruns_require, unfold wruns_basic, rule wruns_then, rule wruns_catch_all)
  show "wruns w (writeSectionPlacementsFile
      (filter (\<lambda>p. js_has (st_records (w_store w)) (pl_hostThreadId p)) ps)) (\<lambda>_. disk_agrees)"
    by (rule wruns_conseq [OF touches_presentation(1)]) (auto simp: disk_agrees_same [OF assms])
qed (use assms in auto)

subsection \<open>Every operation\<close>

lemma run_op_agrees:
  assumes agrees: "disk_agrees w" and inv: "store_inv (w_store w)" and budget: "nfaults w \<le> 1"
  shows "wruns w (run_op op) (\<lambda>_. disk_agrees)"
proof -
  have disc: "wruns w m (\<lambda>_. disk_agrees) \<Longrightarrow> wruns w (discard m) (\<lambda>_. disk_agrees)" for m :: "'b eff"
    unfolding discard_def by (erule wruns_then) simp
  have upd: "wruns w (update_record now hid change keep) (\<lambda>_. disk_agrees)" if "change_ok change" for now hid change keep
    by (rule update_record_agrees [OF agrees inv budget that])
  have sup: "wruns w (thenE (update_record now hid change keep) (\<lambda>replaced.
      thenE (recordSuperseded now previous replaced) (\<lambda>_. retE replaced))) (\<lambda>_. disk_agrees)"
    if "change_ok change" for now hid change keep previous
    by (rule wruns_then [OF upd [OF that]], rule wruns_then [OF recordSuperseded_agrees]) simp_all
  have rec: "wruns w (reconcileTurnMappings now h ms) (\<lambda>_. disk_agrees)" for now h ms
    unfolding reconcileTurnMappings_def by (rule upd [OF changes_ok(6)])
  have meta: "wruns w (updateMetadata lib now h p pid) (\<lambda>_. disk_agrees)" for lib now h p pid
    unfolding updateMetadata_def by (rule upd [OF metadata_change_ok])
  have rem: "wruns w (removeThread h) (\<lambda>_. disk_agrees)" "wruns w (removeProvisional h) (\<lambda>_. disk_agrees)" for h
    unfolding removeThread_def removeProvisional_def
    by (rule wruns_require; (unfold wruns_basic)?; (intro wruns_option wruns_if)?; (unfold wruns_basic)?;
        (rule removeRecord_agrees [OF agrees inv budget] agrees)?)+
  have create: "wruns w (createDelegation now i) (\<lambda>_. disk_agrees)" for now i
    unfolding createDelegation_def
    by (rule wruns_require, unfold wruns_basic, rule wruns_lift, rule agrees,
        rule storeDelegation_agrees [OF agrees refl], rule agrees)
  have status: "wruns w (setDelegationStatus now did st) (\<lambda>_. disk_agrees)" for now did st
    unfolding setDelegationStatus_def Let_def
  proof (rule wruns_require, unfold wruns_basic, intro wruns_option wruns_if; (unfold wruns_basic)?; (rule agrees)?)
    fix d assume "js_get (st_delegations (w_store w)) did = Some d"
    then have "dl_delegationId d = did"
      using delegations_invD(2) [OF store_invD(2) [OF inv]] js_get_mem by metis
    then show "wruns w (storeDelegation did (d\<lparr>dl_revision := dl_revision d + 1, dl_status := st, dl_updatedAt := now\<rparr>))
        (\<lambda>_. disk_agrees)"
      by (intro storeDelegation_agrees [OF agrees]) simp
  qed
  show ?thesis
    by (cases op)
      (simp_all add: disc upd sup rec meta rem create status createProvisional_agrees [OF agrees inv budget]
        removeDelegation_agrees [OF agrees] saveUsageMeasurements_agrees [OF agrees inv]
        replaceSectionPlacements_agrees [OF agrees]
        commitReady_def rebindSubagentSession_def replaceReadySession_def
        replaceReadySessionAfterLastTurn_def upsertTurnMappings_def setTitle_def setTransportModelId_def setArchived_def)
qed

subsection \<open>Faults are only used up\<close>

definition consumes :: "'a eff \<Rightarrow> bool" where
  "consumes m = (\<forall>w. nfaults (snd (m w)) \<le> nfaults w)"

named_theorems consume \<open>effects that never lengthen the fault script\<close>

lemma consumes_basic [consume]:
  "consumes (retE a)" "consumes (throwE e)" "consumes (liftE r)" "consumes getStore" "consumes (modStore g)"
  "consumes (modDisk f)" "consumes (syscall e)" "consumes requireInitialized" "consumes rebuildE"
  "consumes (\<lambda>w. (r', w))"
  by (auto simp: consumes_def eff_defs syscall_def requireInitialized_def rebuildE_def nfaults_def
      split: list.splits prod.splits)

lemma consumes_thenE [consume]: "consumes m \<Longrightarrow> (\<And>a. consumes (f a)) \<Longrightarrow> consumes (thenE m f)"
  by (auto simp: consumes_def thenE_def split: prod.splits sum.splits) (metis order_trans snd_conv)+

lemma consumes_catchE [consume]: "consumes m \<Longrightarrow> (\<And>e. consumes (h e)) \<Longrightarrow> consumes (catchE m h)"
  by (auto simp: consumes_def catchE_def split: prod.splits sum.splits) (metis order_trans snd_conv)+

lemma consumes_cases [consume]:
  "consumes a \<Longrightarrow> (\<And>v. consumes (b v)) \<Longrightarrow> consumes (case x of None \<Rightarrow> a | Some v \<Rightarrow> b v)"
  "consumes a \<Longrightarrow> consumes c \<Longrightarrow> consumes (if p then a else c)"
  by (auto split: option.splits)

lemma consumes_fun_cases [consume]:
  "consumes a \<Longrightarrow> (\<And>v. consumes (b v)) \<Longrightarrow> consumes (\<lambda>w. case x w of None \<Rightarrow> a w | Some v \<Rightarrow> b v w)"
  "consumes a \<Longrightarrow> consumes c \<Longrightarrow> consumes (\<lambda>w. if p then a w else c w)"
  by (auto simp: consumes_def split: option.splits)

lemma consumes_files [consume]:
  "consumes (replaceFile t r b)" "consumes (readMetadata h)" "consumes (writeMetadataFile h md)"
  "consumes (replaceDelegationFile d)" "consumes (rmThread h)" "consumes (rmBackup h)"
  "consumes (rmMetadata h)" "consumes (writeSectionPlacementsFile ps)"
  "consumes (writeSupersededSessionsFile ss)"
  unfolding replaceFile_def readMetadata_def writeMetadataFile_def replaceDelegationFile_def rmThread_def
    rmBackup_def rmMetadata_def writeSectionPlacementsFile_def writeSupersededSessionsFile_def Let_def
  by (intro consume)+

lemma consumes_writers [consume]:
  "consumes (update_record now hid change keep)" "consumes (recordSuperseded now previous replaced)"
  "consumes (storeDelegation k d)" "consumes (writeNew r)" "consumes (removeRecord h)"
  unfolding update_record_def recordSuperseded_def storeDelegation_def writeNew_def removeRecord_def Let_def
  by (intro consume)+

lemma consumes_run_op: "consumes (run_op op)"
proof -
  have status: "consumes (setDelegationStatus now did st)" for now did st
    unfolding setDelegationStatus_def Let_def by (intro consume)
  have usage: "consumes (saveUsageMeasurements h ref v)" for h ref v
    unfolding saveUsageMeasurements_def Let_def by (intro consume)
  have others: "consumes (createProvisional now i)" "consumes (createDelegation now j)"
    "consumes (replaceSectionPlacements ps)" "consumes (removeDelegation d)" "consumes (removeProvisional h)"
    "consumes (removeThread h)" for now i j ps d h
    unfolding createProvisional_def createDelegation_def replaceSectionPlacements_def removeDelegation_def
      removeProvisional_def removeThread_def
    by (intro consume)+
  show ?thesis
    by (cases op)
      (simp_all add: discard_def status usage others commitReady_def rebindSubagentSession_def
        replaceReadySession_def replaceReadySessionAfterLastTurn_def upsertTurnMappings_def
        reconcileTurnMappings_def setTitle_def setTransportModelId_def setArchived_def updateMetadata_def
        consumes_thenE consumes_basic consumes_writers)
qed

definition crash_safe :: "world \<Rightarrow> bool" where
  "crash_safe w = (disk_agrees w \<and> store_inv (w_store w) \<and> nfaults w \<le> 1)"

interpretation crash: machine store_step crash_safe
proof
  fix w op assume safe: "crash_safe w"
  then have "disk_agrees w" "store_inv (w_store w)" "nfaults w \<le> 1" by (auto simp: crash_safe_def)
  from run_op_agrees [OF this, of op] consumes_run_op [of op]
    mapping_store.step_inv [OF this(2), of op] this(3)
  show "crash_safe (store_step w op)"
    unfolding crash_safe_def store_step_def wruns_def consumes_def by (auto intro: order_trans)
qed

end
