(* ===== verification/StoreRestart.thy ===== *)
theory StoreRestart
  imports StoreCrash
begin

text \<open>
  What a start reads back: after any run of operations with at most one failing system call, the
  next \<open>initialize\<close> restores every Thread that is worth keeping and every delegation.
\<close>

subsection \<open>One Thread\<close>

text \<open>The record a start makes of \<open>r\<close>: a measurement may come back from the Thread file.\<close>

definition reloads :: "thread_record \<Rightarrow> thread_record \<Rightarrow> bool" where
  "reloads r r' =
     (r' = r\<lparr>tr_usageMeasurements := tr_usageMeasurements r'\<rparr> \<and>
      (tr_usageMeasurements r = None \<or> tr_usageMeasurements r' = tr_usageMeasurements r))"

lemma reloads_same:
  assumes "reloads r r'"
  shows "record_ok r' = record_ok r" "tr_hostThreadId r' = tr_hostThreadId r"
    "compatible r' x = compatible r x" "compatible x r' = compatible x r"
proof -
  obtain u where u: "r' = r\<lparr>tr_usageMeasurements := u\<rparr>"
    using assms unfolding reloads_def by blast
  show "record_ok r' = record_ok r" "tr_hostThreadId r' = tr_hostThreadId r" unfolding u by simp_all
  have "ownSessionKey r' = ownSessionKey r" unfolding u by (simp add: ownSessionKey_def)
  then show "compatible r' x = compatible r x" "compatible x r' = compatible x r"
    unfolding compatible_def u by simp_all
qed

definition quiet :: "world \<Rightarrow> bool" where
  "quiet w = (w_faults w = [])"

text \<open>\<open>only_at hid w w'\<close>: memory and every other Thread's files are as before.\<close>

definition only_at :: "string \<Rightarrow> world \<Rightarrow> world \<Rightarrow> bool" where
  "only_at hid w w' =
     (w_store w' = w_store w \<and> quiet w' \<and> dk_delegations (w_disk w') = dk_delegations (w_disk w) \<and>
      (\<forall>h. h \<noteq> hid \<longrightarrow> js_get (dk_threads (w_disk w')) h = js_get (dk_threads (w_disk w)) h \<and>
         js_get (dk_metadata (w_disk w')) h = js_get (dk_metadata (w_disk w)) h))"

lemma syscall_quiet [simp]: "quiet w \<Longrightarrow> syscall e w = (Inr (), w)"
  by (simp add: quiet_def syscall_def)

lemma quiet_disk [simp]: "quiet (w\<lparr>w_disk := d\<rparr>) = quiet w" "quiet (w\<lparr>w_store := s\<rparr>) = quiet w"
  by (simp_all add: quiet_def)

lemma readRecord_agrees:
  assumes "quiet w" and "thread_agrees (js_get (dk_threads (w_disk w)) hid) r" and "record_ok r"
    and "tr_hostThreadId r = hid"
  shows "\<exists>u. readRecord dk_threads hid w =
     (Inr ((withoutThreadMetadata r)\<lparr>tr_usageMeasurements := u\<rparr>), w) \<and> opt_ok storedUsage_ok u"
proof -
  obtain u where u: "js_get (dk_threads (w_disk w)) hid =
        Some (Parsed ((withoutThreadMetadata r)\<lparr>tr_usageMeasurements := u\<rparr>))" "opt_ok storedUsage_ok u"
    using assms(2) by (auto simp: thread_agrees_def split: option.splits stored_file.splits)
  have "record_ok ((withoutThreadMetadata r)\<lparr>tr_usageMeasurements := u\<rparr>)"
    using record_ok_withoutThreadMetadata [OF assms(3)] by simp
  then have "readRecord dk_threads hid w = (Inr ((withoutThreadMetadata r)\<lparr>tr_usageMeasurements := u\<rparr>), w)"
    using assms(1,4) u
    by (simp add: readRecord_def thenE_def parse_file_def parse_record_def catch_usage_def)
  then show ?thesis using u(2) by blast
qed

text \<open>What \<open>only_at\<close> asks of the file operations of a quiet world.\<close>

lemma only_at_files:
  assumes "quiet w"
  shows "\<exists>w'. rmThread hid w = (Inr (), w') \<and> only_at hid w w'"
    and "\<exists>w'. rmBackup hid w = (Inr (), w') \<and> only_at hid w w'"
    and "\<exists>w'. rmMetadata hid w = (Inr (), w') \<and> only_at hid w w'"
    and "\<exists>w'. replaceFile hid r False w = (Inr (), w') \<and> only_at hid w w'"
  using assms
  by (auto simp: rmThread_def rmBackup_def rmMetadata_def replaceFile_def thenE_def modDisk_def only_at_def)

lemma only_at_writeMetadataFile:
  assumes "quiet w" and "js_get (dk_metadata (w_disk w)) hid = None"
  shows "\<exists>w'. writeMetadataFile hid md w = (Inr (), w') \<and> only_at hid w w'"
  using assms
  by (auto simp: writeMetadataFile_def readMetadata_def catchE_def thenE_def modDisk_def only_at_def Let_def
      split: prod.splits)

lemma only_at_trans: "only_at h w w1 \<Longrightarrow> only_at h w1 w2 \<Longrightarrow> only_at h w w2"
  by (simp add: only_at_def)

lemma only_at_refl: "quiet w \<Longrightarrow> only_at h w w"
  by (simp add: only_at_def)

lemma thenE_step: "m w = (Inr a, w1) \<Longrightarrow> thenE m f w = f a w1"
  by (simp add: thenE_def)

lemma admitThread_abandoned:
  assumes q: "quiet w" and "abandoned r" and "tr_hostThreadId r = hid"
  shows "\<exists>w'. admitThread hid r w = (Inr None, w') \<and> only_at hid w w'"
proof -
  obtain w1 where 1: "rmThread hid w = (Inr (), w1)" "only_at hid w w1" using only_at_files(1) [OF q] by blast
  then have "quiet w1" by (simp add: only_at_def)
  then obtain w2 where 2: "rmBackup hid w1 = (Inr (), w2)" "only_at hid w1 w2" using only_at_files(2) by blast
  then have "quiet w2" by (simp add: only_at_def)
  then obtain w3 where 3: "rmMetadata hid w2 = (Inr (), w3)" "only_at hid w2 w3" using only_at_files(3) by blast
  have "admitThread hid r w = (Inr None, w3)"
    using assms(2,3) 1 2 3 by (simp add: admitThread_def thenE_step retE_def)
  then show ?thesis using 1 2 3 only_at_trans by blast
qed

lemma admitThread_kept:
  assumes q: "quiet w" and live: "\<not> abandoned r" and hid: "tr_hostThreadId r = hid"
    and raw: "raw = (withoutThreadMetadata r)\<lparr>tr_usageMeasurements := u\<rparr>"
    and usage: "opt_ok storedUsage_ok (tr_usageMeasurements r)"
    and md: "metadata_agrees (js_get (dk_metadata (w_disk w)) hid) r"
  shows "\<exists>w' r'. admitThread hid raw w = (Inr (Some r'), w') \<and> only_at hid w w' \<and> reloads r r'"
proof (cases "js_get (dk_metadata (w_disk w)) hid")
  case None
  have fields: "threadMetadataOf r = None" using md None by (simp add: metadata_agrees_def)
  have raw': "raw = r\<lparr>tr_usageMeasurements := u\<rparr>"
    using fields unfolding raw threadMetadataOf_None_iff withoutThreadMetadata_def by (cases r) simp
  have rl: "reloads r raw" using fields unfolding raw' threadMetadataOf_None_iff by (simp add: reloads_def)
  have read: "readMetadata hid w = (Inr None, w)" using q None by (simp add: readMetadata_def thenE_def)
  have "\<not> abandoned raw" "tr_hostThreadId raw = hid" using live hid unfolding raw' by (simp_all add: abandoned_def)
  then have adm: "admitThread hid raw w =
      (if threadMetadataOf raw = None then (Inr (Some raw), w)
       else thenE (writeMetadataFile hid (threadMetadataOf raw)) (\<lambda>_.
            thenE (replaceFile hid raw False) (\<lambda>_. retE (Some raw))) w)"
    by (simp add: admitThread_def thenE_def read retE_def)
  show ?thesis
  proof (cases "threadMetadataOf raw = None")
    case True
    then show ?thesis using adm only_at_refl [OF q] rl by auto
  next
    case False
    obtain w1 where 1: "writeMetadataFile hid (threadMetadataOf raw) w = (Inr (), w1)" "only_at hid w w1"
      using only_at_writeMetadataFile [OF q None] by blast
    then have "quiet w1" by (simp add: only_at_def)
    then obtain w2 where 2: "replaceFile hid raw False w1 = (Inr (), w2)" "only_at hid w1 w2"
      using only_at_files(4) by blast
    have "admitThread hid raw w = (Inr (Some raw), w2)"
      using adm False 1 2 by (simp add: thenE_step retE_def)
    then show ?thesis using only_at_trans [OF 1(2) 2(2)] rl by blast
  qed
next
  case (Some f)
  then obtain m where m: "f = Parsed m" "metadata_ok m" "md_hostThreadId m = hid" "metadata_fields_of m r"
    using md hid by (auto simp: metadata_agrees_def split: stored_file.splits)
  have catch': "m\<lparr>md_usageMeasurements := catch_usage (md_usageMeasurements m)\<rparr> = m"
    using m(4) usage by (simp add: metadata_fields_of_def catch_usage_def)
  have read: "readMetadata hid w = (Inr (Some m), w)"
    using q Some m catch' by (simp add: readMetadata_def thenE_def parse_metadata_def)
  have rl: "reloads r (withThreadMetadata raw m)"
    using m(4) unfolding raw reloads_def
    by (cases r) (auto simp: withThreadMetadata_def withoutThreadMetadata_def metadata_fields_of_def assign_field_def
        Let_def split: option.split)
  have "\<not> abandoned raw" "tr_hostThreadId raw = hid" using live hid
    unfolding raw by (simp_all add: abandoned_def withoutThreadMetadata_def)
  then have "admitThread hid raw w = (Inr (Some (withThreadMetadata raw m)), w)"
    by (simp add: admitThread_def thenE_def read retE_def)
  then show ?thesis using only_at_refl [OF q] rl by blast
qed

lemma loadThread_agrees:
  assumes q: "quiet w" and ok: "record_ok r" and hid: "tr_hostThreadId r = hid"
    and disk: "record_on_disk (w_disk w) hid (Some r)"
  shows "\<exists>w' r'. loadThread hid w = (Inr (r', False), w') \<and> only_at hid w w' \<and>
     (if abandoned r then r' = None else \<exists>x. r' = Some x \<and> reloads r x)"
proof -
  have d: "opt_ok storedUsage_ok (tr_usageMeasurements r)" "thread_agrees (js_get (dk_threads (w_disk w)) hid) r"
    "metadata_agrees (js_get (dk_metadata (w_disk w)) hid) r" using disk by (simp_all add: record_on_disk_def)
  from readRecord_agrees [OF q d(2) ok hid] obtain u where
    u: "readRecord dk_threads hid w = (Inr ((withoutThreadMetadata r)\<lparr>tr_usageMeasurements := u\<rparr>), w)" by blast
  let ?raw = "(withoutThreadMetadata r)\<lparr>tr_usageMeasurements := u\<rparr>"
  have same: "abandoned ?raw = abandoned r" "tr_hostThreadId ?raw = hid"
    using hid by (simp_all add: abandoned_def withoutThreadMetadata_def)
  have load: "loadThread hid w = thenE (admitThread hid ?raw) (\<lambda>admitted. retE (admitted, False)) w"
    by (simp add: loadThread_def thenE_def catchE_def retE_def u)
  show ?thesis
  proof (cases "abandoned r")
    case True
    then obtain w' where "admitThread hid ?raw w = (Inr None, w')" "only_at hid w w'"
      using admitThread_abandoned [OF q] same by blast
    then show ?thesis using True load by (simp add: thenE_step retE_def)
  next
    case False
    from admitThread_kept [OF q False hid refl d(1,3)] obtain w' x where
      "admitThread hid ?raw w = (Inr (Some x), w')" "only_at hid w w'" "reloads r x" by blast
    then show ?thesis using False load by (simp add: thenE_step retE_def)
  qed
qed

subsection \<open>All Threads\<close>

text \<open>What the loop makes of the stored records \<open>rs\<close> under the given names.\<close>

definition reloaded :: "(string, thread_record) jsmap \<Rightarrow> string list \<Rightarrow> (string, thread_record) jsmap \<Rightarrow> bool" where
  "reloaded rs names rs' =
     (distinct (js_keys rs') \<and>
      (\<forall>h r. js_get rs h = Some r \<longrightarrow> h \<in> set names \<longrightarrow>
         (if abandoned r then js_get rs' h = None else \<exists>x. js_get rs' h = Some x \<and> reloads r x)) \<and>
      (\<forall>h. h \<notin> set names \<longrightarrow> js_get rs' h = None))"

lemma reloaded_set: "set a = set b \<Longrightarrow> reloaded rs a x = reloaded rs b x"
  by (simp add: reloaded_def)

lemma loadThreads_agrees:
  assumes "quiet w" and "distinct names"
    and "\<And>h. h \<in> set names \<Longrightarrow> \<exists>r. js_get rs h = Some r \<and> record_ok r \<and> tr_hostThreadId r = h \<and>
      record_on_disk (w_disk w) h (Some r)"
    and "reloaded rs seen (st_records (w_store w))" and "set seen \<inter> set names = {}"
  shows "\<exists>w'. loadThreads names w = (Inr [], w') \<and> quiet w' \<and>
     dk_delegations (w_disk w') = dk_delegations (w_disk w) \<and>
     reloaded rs (names @ seen) (st_records (w_store w')) \<and>
     w_store w' = (w_store w)\<lparr>st_records := st_records (w_store w')\<rparr>"
  using assms
proof (induction names arbitrary: w seen)
  case Nil
  then show ?case by (simp add: retE_def)
next
  case (Cons n names)
  obtain r where r: "js_get rs n = Some r" "record_ok r" "tr_hostThreadId r = n" "record_on_disk (w_disk w) n (Some r)"
    using Cons.prems(3) by (meson list.set_intros(1))
  from loadThread_agrees [OF Cons.prems(1) r(2-4)] obtain w1 r' where
    w1: "loadThread n w = (Inr (r', False), w1)" "only_at n w w1"
      "if abandoned r then r' = None else \<exists>x. r' = Some x \<and> reloads r x" by blast
  let ?w2 = "case r' of None \<Rightarrow> w1 | Some x \<Rightarrow> w1\<lparr>w_store := setRecord x (w_store w1)\<rparr>"
  have step: "loadThreads (n # names) w = loadThreads names ?w2"
    using w1(1) by (auto simp: thenE_def retE_def modStore_def fun_eq_iff split: option.splits prod.splits sum.splits)
  have same: "w_store w1 = w_store w" "quiet w1" "dk_delegations (w_disk w1) = dk_delegations (w_disk w)"
    using w1(2) by (simp_all add: only_at_def)
  have disk2: "w_disk ?w2 = w_disk w1" "quiet ?w2" using same by (simp_all split: option.split)
  have id: "tr_hostThreadId x = n" if "r' = Some x" for x
    using w1(3) that r(3) reloads_same(2) by (auto split: if_splits)
  have seen': "reloaded rs (n # seen) (st_records (w_store ?w2))"
    using Cons.prems(4,5) w1(3) r(1) id same(1)
    by (cases r') (auto simp: reloaded_def setRecord_def split: if_splits)
  have "\<exists>w'. loadThreads names ?w2 = (Inr [], w') \<and> quiet w' \<and>
     dk_delegations (w_disk w') = dk_delegations (w_disk ?w2) \<and>
     reloaded rs (names @ n # seen) (st_records (w_store w')) \<and>
     w_store w' = (w_store ?w2)\<lparr>st_records := st_records (w_store w')\<rparr>"
  proof (rule Cons.IH [OF disk2(2) _ _ seen'])
    show "distinct names" "set (n # seen) \<inter> set names = {}" using Cons.prems(2,5) by auto
    fix h assume h: "h \<in> set names"
    then have "h \<noteq> n" using Cons.prems(2) by auto
    with h show "\<exists>r. js_get rs h = Some r \<and> record_ok r \<and> tr_hostThreadId r = h \<and>
        record_on_disk (w_disk ?w2) h (Some r)"
      using Cons.prems(3) [of h] w1(2) disk2(1) by (simp add: only_at_def record_on_disk_def)
  qed
  then obtain w' where w': "loadThreads names ?w2 = (Inr [], w')" "quiet w'"
     "dk_delegations (w_disk w') = dk_delegations (w_disk w)"
     "reloaded rs (names @ n # seen) (st_records (w_store w'))"
     "w_store w' = (w_store ?w2)\<lparr>st_records := st_records (w_store w')\<rparr>"
    using disk2 same by auto
  have "w_store w' = (w_store w)\<lparr>st_records := st_records (w_store w')\<rparr>"
    using w'(5) same(1) by (auto simp: setRecord_def split: option.splits)
  moreover have "reloaded rs ((n # names) @ seen) (st_records (w_store w'))"
    using w'(4) reloaded_set [of "(n # names) @ seen" "names @ n # seen"] by simp
  ultimately show ?case using step w' by simp
qed

subsection \<open>The other files\<close>

lemma each_quiet:
  assumes "quiet w" and "\<And>x w. quiet w \<Longrightarrow> \<exists>w'. f x w = (Inr (), w') \<and> quiet w' \<and> P w w'"
    and "\<And>w. P w w" and "\<And>a b c. P a b \<Longrightarrow> P b c \<Longrightarrow> P a c"
  shows "\<exists>w'. each f xs w = (Inr (), w') \<and> quiet w' \<and> P w w'"
  using assms(1)
proof (induction xs arbitrary: w)
  case Nil
  then show ?case using assms(3) by (simp add: retE_def)
next
  case (Cons x xs)
  obtain w1 where w1: "f x w = (Inr (), w1)" "quiet w1" "P w w1" using assms(2) [OF Cons.prems] by blast
  obtain w2 where "each f xs w1 = (Inr (), w2)" "quiet w2" "P w1 w2" using Cons.IH [OF w1(2)] by blast
  then show ?case using w1 assms(4) by (auto simp: thenE_def)
qed

lemma removeOrphanMetadata_quiet:
  assumes "quiet w"
  shows "\<exists>w'. removeOrphanMetadata pending w = (Inr (), w') \<and> quiet w' \<and> w_store w' = w_store w \<and>
     dk_delegations (w_disk w') = dk_delegations (w_disk w)"
proof -
  let ?P = "\<lambda>(w :: world) (w' :: world). w_store w' = w_store w \<and> dk_delegations (w_disk w') = dk_delegations (w_disk w)"
  have "\<exists>w'. bestEffort (rmMetadata n) w = (Inr (), w') \<and> quiet w' \<and> ?P w w'" if "quiet w" for n and w :: world
    using that by (auto simp: bestEffort_def rmMetadata_def catchE_def thenE_def modDisk_def)
  then have "\<exists>w'. each (\<lambda>n. bestEffort (rmMetadata n)) ns w = (Inr (), w') \<and> quiet w' \<and> ?P w w'" for ns
    by (intro each_quiet [where P = ?P] assms) auto
  then show ?thesis
    using assms by (simp add: removeOrphanMetadata_def thenE_def)
qed

lemma loadDelegations_agrees:
  assumes "quiet w" and "\<And>n. n \<in> set names \<Longrightarrow> \<exists>d. js_get (dk_delegations (w_disk w)) n = Some (Parsed d) \<and>
      delegation_ok d \<and> dl_delegationId d = n"
    and "distinct (js_keys (st_delegations (w_store w)))"
  shows "\<exists>w'. each loadDelegation names w = (Inr (), w') \<and> quiet w' \<and>
     w_store w' = (w_store w)\<lparr>st_delegations := st_delegations (w_store w')\<rparr> \<and>
     distinct (js_keys (st_delegations (w_store w'))) \<and>
     (\<forall>k. map_option Parsed (js_get (st_delegations (w_store w')) k) =
        (if k \<in> set names then js_get (dk_delegations (w_disk w)) k
         else map_option Parsed (js_get (st_delegations (w_store w)) k)))"
  using assms
proof (induction names arbitrary: w)
  case Nil
  then show ?case by (simp add: retE_def)
next
  case (Cons n names)
  obtain d where d: "js_get (dk_delegations (w_disk w)) n = Some (Parsed d)" "delegation_ok d" "dl_delegationId d = n"
    using Cons.prems(2) by (meson list.set_intros(1))
  let ?w1 = "w\<lparr>w_store := (w_store w)\<lparr>st_delegations := js_set n d (st_delegations (w_store w))\<rparr>\<rparr>"
  have one: "loadDelegation n w = (Inr (), ?w1)"
    using Cons.prems(1) d by (simp add: loadDelegation_def catchE_def thenE_def parse_delegation_def modStore_def)
  have "\<exists>w'. each loadDelegation names ?w1 = (Inr (), w') \<and> quiet w' \<and>
     w_store w' = (w_store ?w1)\<lparr>st_delegations := st_delegations (w_store w')\<rparr> \<and>
     distinct (js_keys (st_delegations (w_store w'))) \<and>
     (\<forall>k. map_option Parsed (js_get (st_delegations (w_store w')) k) =
        (if k \<in> set names then js_get (dk_delegations (w_disk ?w1)) k
         else map_option Parsed (js_get (st_delegations (w_store ?w1)) k)))"
    by (rule Cons.IH) (use Cons.prems in auto)
  then obtain w' where w': "each loadDelegation names ?w1 = (Inr (), w')" "quiet w'"
     "w_store w' = (w_store w)\<lparr>st_delegations := st_delegations (w_store w')\<rparr>"
     "distinct (js_keys (st_delegations (w_store w')))"
     "\<And>k. map_option Parsed (js_get (st_delegations (w_store w')) k) =
        (if k \<in> set names then js_get (dk_delegations (w_disk w)) k
         else map_option Parsed (js_get (js_set n d (st_delegations (w_store w))) k))"
    by auto
  have "map_option Parsed (js_get (st_delegations (w_store w')) k) =
      (if k \<in> set (n # names) then js_get (dk_delegations (w_disk w)) k
       else map_option Parsed (js_get (st_delegations (w_store w)) k))" for k
    unfolding w'(5) using d(1) by (cases "k = n") (simp_all del: map_of_eq_Some_iff)
  then show ?case using one w'(1-4) by (intro exI [of _ w']) (simp add: thenE_def one)
qed

lemma loadPresentation_quiet:
  assumes "quiet w"
  shows "\<exists>w' ps. loadSectionPlacements w = (Inr (), w') \<and> quiet w' \<and>
      w_store w' = (w_store w)\<lparr>st_sectionPlacements := ps\<rparr>"
    and "\<exists>w' ss. loadSupersededSessions w = (Inr (), w') \<and> quiet w' \<and>
      w_store w' = (w_store w)\<lparr>st_supersededSessions := ss\<rparr>"
  using assms
  by (auto simp: loadSectionPlacements_def loadSupersededSessions_def readSectionPlacementsFile_def
      readSupersededSessionsFile_def bestEffort_def catchE_def thenE_def modStore_def modDisk_def
      split: option.splits stored_file.splits sum.splits prod.splits)

subsection \<open>Restart\<close>

definition restart :: "world \<Rightarrow> world" where
  "restart w = \<lparr>w_store = new_store, w_disk = w_disk w, w_faults = []\<rparr>"

lemma reloaded_records_inv:
  assumes inv: "store_inv s" and rl: "reloaded (st_records s) names rs'"
    and names: "\<And>h r. js_get rs' h = Some r \<Longrightarrow> js_has (st_records s) h"
  shows "records_inv rs'"
proof -
  note ri = store_invD(1) [OF inv]
  have dist: "distinct (js_keys rs')" using rl by (simp add: reloaded_def)
  have from_old: "\<exists>r. (h, r) \<in> set (st_records s) \<and> reloads r x" if x: "(h, x) \<in> set rs'" for h x
  proof -
    have get: "js_get rs' h = Some x" using dist x by simp
    then obtain r where r: "js_get (st_records s) h = Some r" using names by (auto simp: js_has_def)
    have "h \<in> set names" using rl get by (metis option.distinct(1) reloaded_def)
    with rl r have "if abandoned r then js_get rs' h = None else \<exists>y. js_get rs' h = Some y \<and> reloads r y"
      unfolding reloaded_def by blast
    then have "reloads r x" using get by (metis option.distinct(1) option.inject)
    then show ?thesis using js_get_mem [OF r] by blast
  qed
  have ids: "tr_hostThreadId x = h" "record_ok x" if x: "(h, x) \<in> set rs'" for h x
  proof -
    obtain r where r: "(h, r) \<in> set (st_records s)" "reloads r x" using from_old [OF x] by blast
    show "tr_hostThreadId x = h" "record_ok x"
      using records_invD(2,3) [OF ri r(1)] reloads_same(1,2) [OF r(2)] by simp_all
  qed
  have comp: "compatible x x'" if xs: "(h, x) \<in> set rs'" "(h', x') \<in> set rs'" "h \<noteq> h'" for h x h' x'
  proof -
    from from_old [OF xs(1)] from_old [OF xs(2)] obtain r r' where
      r: "(h, r) \<in> set (st_records s)" "reloads r x" "(h', r') \<in> set (st_records s)" "reloads r' x'" by blast
    show ?thesis
      using records_invD(4) [OF ri r(1,3) xs(3)] reloads_same(3) [OF r(2)] reloads_same(4) [OF r(4)] by simp
  qed
  show ?thesis
    unfolding records_inv_def using dist ids comp by blast
qed

lemma delegations_inv_get:
  assumes "delegations_inv ds" and "distinct (js_keys es)" and "\<And>k. js_get es k = js_get ds k"
  shows "delegations_inv es"
proof -
  have "set es = set ds"
  proof (rule set_eqI)
    fix x show "x \<in> set es \<longleftrightarrow> x \<in> set ds"
      using assms delegations_invD(1) [OF assms(1)] by (cases x) (metis js_get_Some_iff)
  qed
  then show ?thesis using assms by (simp add: delegations_inv_def)
qed

lemma loadAll_locked:
  assumes agrees: "disk_agrees w" and inv: "store_inv (w_store w)"
  shows "\<exists>w'. loadAll ((restart w)\<lparr>w_store := new_store\<lparr>st_lockHeld := True\<rparr>\<rparr>) = (Inr (), w') \<and> st_initialized (w_store w') \<and> store_inv (w_store w') \<and>
     reloaded (st_records (w_store w)) (js_keys (st_records (w_store w))) (st_records (w_store w')) \<and>
     (\<forall>k. js_get (st_delegations (w_store w')) k = js_get (st_delegations (w_store w)) k)"
proof -
  let ?w0 = "(restart w)\<lparr>w_store := new_store\<lparr>st_lockHeld := True\<rparr>\<rparr>" and ?rs = "st_records (w_store w)"
  have q: "quiet ?w0" by (simp add: restart_def quiet_def)
  have init: "(syscall e :: unit eff) ?w0 = (Inr (), ?w0)" for e using q by simp
  have names: "\<exists>r. js_get ?rs h = Some r \<and> record_ok r \<and> tr_hostThreadId r = h \<and>
      record_on_disk (w_disk ?w0) h (Some r)" if "h \<in> set (js_keys (dk_threads (w_disk ?w0)))" for h
  proof -
    have "js_get (dk_threads (w_disk w)) h \<noteq> None" using that by (simp add: restart_def map_of_eq_None_iff)
    then obtain r where r: "js_get ?rs h = Some r"
      using disk_agreesD(3) [OF agrees, of h] by (cases "js_get ?rs h") (auto simp: record_on_disk_def)
    then show ?thesis
      using records_get_id [OF inv r] disk_agreesD(3) [OF agrees, of h] by (simp add: restart_def)
  qed
  have same_keys: "set (js_keys (dk_threads (w_disk w))) = set (js_keys ?rs)"
  proof -
    have "js_get (dk_threads (w_disk w)) h = None \<longleftrightarrow> js_get ?rs h = None" for h
      using disk_agreesD(3) [OF agrees, of h]
      by (cases "js_get ?rs h") (auto simp: record_on_disk_def thread_agrees_def split: option.splits)
    then show ?thesis by (auto simp: map_of_eq_None_iff)
  qed
  have "reloaded ?rs [] (st_records (w_store ?w0))" by (simp add: reloaded_def restart_def new_store_def)
  from loadThreads_agrees [OF q _ names this, of "js_keys (dk_threads (w_disk ?w0))"]
    disk_agreesD(1) [OF agrees] obtain w1 where
    w1: "loadThreads (js_keys (dk_threads (w_disk ?w0))) ?w0 = (Inr [], w1)" "quiet w1"
      "dk_delegations (w_disk w1) = dk_delegations (w_disk w)"
      "reloaded ?rs (js_keys (dk_threads (w_disk w))) (st_records (w_store w1))"
      "w_store w1 = new_store\<lparr>st_lockHeld := True, st_records := st_records (w_store w1)\<rparr>"
    by (auto simp: restart_def)
  obtain w2 where w2: "removeOrphanMetadata [] w1 = (Inr (), w2)" "quiet w2" "w_store w2 = w_store w1"
      "dk_delegations (w_disk w2) = dk_delegations (w_disk w)"
    using removeOrphanMetadata_quiet [OF w1(2)] w1(3) by metis
  have dels: "\<exists>d. js_get (dk_delegations (w_disk w2)) n = Some (Parsed d) \<and> delegation_ok d \<and> dl_delegationId d = n"
    if "n \<in> set (js_keys (dk_delegations (w_disk w2)))" for n
  proof -
    have "js_get (dk_delegations (w_disk w)) n \<noteq> None" using that w2(4) by (simp add: map_of_eq_None_iff)
    then obtain d where d: "js_get (st_delegations (w_store w)) n = Some d"
      "js_get (dk_delegations (w_disk w)) n = Some (Parsed d)"
      using disk_agreesD(4) [OF agrees, of n] by (cases "js_get (st_delegations (w_store w)) n") auto
    then show ?thesis
      using delegations_invD(2,3) [OF store_invD(2) [OF inv] js_get_mem [OF d(1)]] w2(4) by simp
  qed
  have del0: "st_delegations (w_store w2) = []" using w1(5) w2(3)
    by (metis (no_types, lifting) new_store_def store.select_convs(2) store.surjective store.update_convs(1,12))
  then have "distinct (js_keys (st_delegations (w_store w2)))" by simp
  from loadDelegations_agrees [OF w2(2) dels this, of "js_keys (dk_delegations (w_disk w2))"] obtain w3 where
    w3: "each loadDelegation (js_keys (dk_delegations (w_disk w2))) w2 = (Inr (), w3)" "quiet w3"
      "w_store w3 = (w_store w2)\<lparr>st_delegations := st_delegations (w_store w3)\<rparr>"
      "distinct (js_keys (st_delegations (w_store w3)))"
      "\<And>k. map_option Parsed (js_get (st_delegations (w_store w3)) k) =
        (if k \<in> set (js_keys (dk_delegations (w_disk w2))) then js_get (dk_delegations (w_disk w2)) k
         else map_option Parsed (js_get (st_delegations (w_store w2)) k))" by auto
  obtain w4 ps where w4: "loadSectionPlacements w3 = (Inr (), w4)" "quiet w4"
      "w_store w4 = (w_store w3)\<lparr>st_sectionPlacements := ps\<rparr>"
    using loadPresentation_quiet(1) [OF w3(2)] by blast
  obtain w5 ss where w5: "loadSupersededSessions w4 = (Inr (), w5)" "quiet w5"
      "w_store w5 = (w_store w4)\<lparr>st_supersededSessions := ss\<rparr>"
    using loadPresentation_quiet(2) [OF w4(2)] by blast
  have "st_records (w_store w3) = st_records (w_store w2)" by (subst w3(3)) simp
  then have rs5: "st_records (w_store w5) = st_records (w_store w1)" using w5(3) w4(3) w2(3) by simp
  have ds5: "st_delegations (w_store w5) = st_delegations (w_store w3)" using w5(3) w4(3) by simp
  have dget: "js_get (st_delegations (w_store w3)) k = js_get (st_delegations (w_store w)) k" for k
  proof -
    have "map_option Parsed (js_get (st_delegations (w_store w3)) k) =
        map_option Parsed (js_get (st_delegations (w_store w)) k)"
      unfolding w3(5) disk_agreesD(4) [OF agrees, symmetric] w2(4) del0
      using map_of_eq_None_iff [of "dk_delegations (w_disk w)" k] by (auto split: if_splits)
    then show ?thesis by (rule option.inj_map_strong [rotated]) simp
  qed
  have rl: "reloaded ?rs (js_keys ?rs) (st_records (w_store w5))"
    using w1(4) reloaded_set [OF same_keys] rs5 by simp
  have "records_inv (st_records (w_store w5))"
  proof (rule reloaded_records_inv [OF inv rl])
    fix h r assume "js_get (st_records (w_store w5)) h = Some r"
    then show "js_has ?rs h" using rl by (metis js_has_iff option.distinct(1) reloaded_def)
  qed
  moreover have "delegations_inv (st_delegations (w_store w5))"
    using delegations_inv_get [OF store_invD(2) [OF inv] w3(4) dget] ds5 by simp
  ultimately obtain s' where s': "rebuildIndexes (w_store w5) = (Inr (), s')" "store_inv s'"
      "st_records s' = st_records (w_store w5)" "st_delegations s' = st_delegations (w_store w5)"
    using rebuildIndexes_ok by blast
  let ?w6 = "w5\<lparr>w_store := s'\<lparr>st_initialized := True\<rparr>\<rparr>"
  have w1': "loadThreads (js_keys (dk_threads (w_disk (restart w)))) ?w0 = (Inr [], w1)" using w1(1) by simp
  have run: "loadAll ?w0 = (Inr (), ?w6)"
    using q w2(2) by (simp add: loadAll_def cleanupResidue_def thenE_def w1' w2(1) w3(1) w4(1) w5(1) rebuildE_def s'(1)
        modStore_def)
  have "store_inv (s'\<lparr>st_initialized := True\<rparr>)"
    using s'(2) by (simp add: store_inv_def records_indexed_def delegations_indexed_def)
  then show ?thesis
    using run s'(3,4) rl dget ds5 by (intro exI [of _ ?w6]) simp
qed


lemma crash_safe_ready: "crash_safe (ready_world [False, True])"
  unfolding crash_safe_def
  by (simp add: disk_agrees_def record_on_disk_def ready_world_def empty_disk_def new_store_def nfaults_def
      store_inv_def records_inv_def delegations_inv_def records_indexed_def delegations_indexed_def)

definition sample_session :: native_session_ref where
  "sample_session = \<lparr>ns_harnessId = ''claude'', ns_nativeSessionId = ''s'', ns_locator = None\<rparr>"

definition sample_ops :: "store_op list" where
  "sample_ops =
     [CreateProvisional 1 (sample_create ''t1'' ''r1''), CreateProvisional 2 (sample_create ''t1'' ''r1''),
      CommitReady 3 ''t1'' sample_session [sample_mapping ''h1'' ''n1'' None, sample_mapping ''h2'' ''n2'' None]]"


text \<open>
  The exception \<open>reloads\<close> allows is real: \<open>withoutThreadMetadata\<close> leaves \<open>usageMeasurements\<close> in the
  Thread file, and a metadata file without the field does not override it.
\<close>

definition measured_ops :: "store_op list" where
  "measured_ops =
     [CreateProvisional 1 (sample_create ''t1'' ''r1''),
      CommitReady 2 ''t1'' sample_session [sample_mapping ''h1'' ''n1'' None, sample_mapping ''h2'' ''n2'' None],
      SaveUsageMeasurements ''t1'' sample_session
        \<lparr>um_outputTokensPerSecond = Some \<lparr>um_value = 1, um_turnId = ''h2'', um_at = 5\<rparr>,
         um_timeToFirstOutputMs = None\<rparr>,
      ReconcileTurnMappings 6 ''t1'' [sample_mapping ''h1'' ''n1'' None],
      SaveUsageMeasurements ''t1'' sample_session
        \<lparr>um_outputTokensPerSecond = None, um_timeToFirstOutputMs = None\<rparr>]"

text \<open>
  A measurement that the store dropped from its record comes back after a restart, although
  the Turn it belongs to is no longer mapped.
\<close>

theorem dropped_measurement_returns:
  "map_option tr_usageMeasurements
     (js_get (st_records (w_store (foldl store_step (ready_world []) measured_ops))) ''t1'') = Some None \<and>
   map_option (\<lambda>r. map_option (\<lambda>u. map_option um_turnId (um_outputTokensPerSecond (su_values u))) (tr_usageMeasurements r))
     (js_get (st_records (w_store (snd (initialize (Inr ())
        (restart (foldl store_step (ready_world []) measured_ops)))))) ''t1'') = Some (Some (Some ''h2''))"
  by code_simp

end
