(* ===== verification/StoreInit.thy ===== *)
theory StoreInit
  imports StoreRestart
begin

text \<open>
  \<open>initialize\<close> on an arbitrary directory, with arbitrary failures: what it accepts satisfies the
  identity invariant, and what it refuses leaves nothing loaded.
\<close>

subsection \<open>Indexes built without an error certify the records\<close>

definition records_loaded :: "(host_thread_id, thread_record) jsmap \<Rightarrow> bool" where
  "records_loaded rs = (distinct (js_keys rs) \<and> (\<forall>(k, r)\<in>set rs. tr_hostThreadId r = k \<and> record_ok r))"

definition delegations_loaded :: "(host_thread_id, delegation_record) jsmap \<Rightarrow> bool" where
  "delegations_loaded ds = (distinct (js_keys ds) \<and> (\<forall>(k, d)\<in>set ds. dl_delegationId d = k \<and> delegation_ok d))"

lemma records_loaded_step:
  assumes "records_inv pre" and "records_loaded (pre @ (k, r) # rs)"
    and "\<forall>(k', r')\<in>set pre. compatible r r'"
  shows "records_inv (pre @ [(k, r)])"
  using assms unfolding records_inv_def records_loaded_def
  by (auto intro: compatible_sym)

lemma delegations_loaded_step:
  assumes "delegations_inv pre" and "delegations_loaded (pre @ (k, d) # ds)"
    and "\<forall>(k', d')\<in>set pre. delegations_compatible d d'"
  shows "delegations_inv (pre @ [(k, d)])"
proof -
  have "delegations_compatible d' d" if "(k', d') \<in> set pre" for k' d'
    using assms(3) that by (auto simp: delegations_compatible_def)
  then show ?thesis using assms unfolding delegations_inv_def delegations_loaded_def by auto
qed

lemma index_records_certifies:
  assumes "index_records rs s = (Inr u, s')" and "records_indexed pre s" and "records_inv pre"
    and "records_loaded (pre @ rs)"
  shows "records_inv (pre @ rs)"
  using assms
proof (induction rs arbitrary: pre s)
  case (Cons kr rs)
  obtain k r where kr: "kr = (k, r)" by (cases kr)
  have id: "tr_hostThreadId r = k" "record_ok r"
    using Cons.prems(4) kr by (auto simp: records_loaded_def)
  have v: "validateGlobal s r (Some k) = Inr ()" and rest: "index_records rs (index_record r s) = (Inr u, s')"
    using Cons.prems(1) kr id by (auto split: sum.splits)
  have comp: "\<forall>(k', r')\<in>set pre. compatible r r'"
  proof clarify
    fix k' r' assume mem: "(k', r') \<in> set pre"
    have "k' \<noteq> k"
      using distinct_keys_mid [of pre k r rs k' r'] mem Cons.prems(4) kr by (auto simp: records_loaded_def)
    then show "compatible r r'"
      using admitted_compatible_indexed [OF Cons.prems(2) v mem] records_invD(2,3) [OF Cons.prems(3) mem] by simp
  qed
  have "records_inv (pre @ [(k, r)])"
    using records_loaded_step [OF Cons.prems(3) _ comp] Cons.prems(4) kr by blast
  moreover have "records_indexed (pre @ [(k, r)]) (index_record r s)"
    using index_record_step(2) [OF Cons.prems(2) comp id(2)] id(1) by simp
  ultimately have "records_inv ((pre @ [(k, r)]) @ rs)"
    by (intro Cons.IH [OF rest]) (use Cons.prems(4) kr in simp_all)
  then show ?case using kr by simp
qed simp

lemma index_delegations_certifies:
  assumes "index_delegations ds s = (Inr u, s')" and "delegations_indexed pre s" and "delegations_inv pre"
    and "delegations_loaded (pre @ ds)"
  shows "delegations_inv (pre @ ds)"
  using assms
proof (induction ds arbitrary: pre s)
  case (Cons kd ds)
  obtain k d where kd: "kd = (k, d)" by (cases kd)
  have id: "dl_delegationId d = k" "delegation_ok d"
    using Cons.prems(4) kd by (auto simp: delegations_loaded_def)
  note ixD = delegations_indexedD [OF Cons.prems(2)]
  let ?s1 = "s\<lparr>st_delegationChildren := js_set (dl_childHostThreadId d) k (st_delegationChildren s)\<rparr>"
  let ?s2 = "case dl_requestId d of None \<Rightarrow> ?s1
     | Some q \<Rightarrow> ?s1\<lparr>st_delegationRequests := js_set q k (st_delegationRequests s)\<rparr>"
  have child: "js_get (st_delegationChildren s) (dl_childHostThreadId d) = None"
    and req: "\<And>q. dl_requestId d = Some q \<Longrightarrow> js_get (st_delegationRequests s) q = None"
    and rest: "index_delegations ds ?s2 = (Inr u, s')"
    using Cons.prems(1) kd id delegation_requestId_nonempty [OF id(2)]
    by (auto simp: js_has_def Let_def split: option.splits if_splits)
  have comp: "delegations_compatible d d'" if mem: "(k', d') \<in> set pre" for k' d'
  proof -
    have "dl_childHostThreadId d \<noteq> dl_childHostThreadId d'"
      using child ixD(1) mem by (metis option.distinct(1))
    moreover have "dl_requestId d' \<noteq> Some q" if "dl_requestId d = Some q" for q
      using req [OF that] ixD(2) mem by (metis option.distinct(1))
    ultimately show ?thesis by (cases "dl_requestId d") (auto simp: delegations_compatible_def)
  qed
  then have comp': "dl_childHostThreadId d' \<noteq> dl_childHostThreadId d"
    "dl_requestId d = Some q \<Longrightarrow> dl_requestId d' \<noteq> Some q" if "(k', d') \<in> set pre" for k' d' q
    using that by (fastforce simp: delegations_compatible_def)+
  from comp have "delegations_inv (pre @ [(k, d)])"
    using delegations_loaded_step [OF Cons.prems(3)] Cons.prems(4) kd by blast
  moreover have "delegations_indexed (pre @ [(k, d)]) ?s2"
    using comp' by (cases "dl_requestId d") (auto simp: delegations_indexed_def ixD)
  ultimately have "delegations_inv ((pre @ [(k, d)]) @ ds)"
    by (intro Cons.IH [OF rest]) (use Cons.prems(4) kd in simp_all)
  then show ?case using kd by simp
qed simp

lemma rebuildIndexes_certifies:
  assumes "rebuildIndexes s = (Inr u, s')" and "records_loaded (st_records s)"
    and "delegations_loaded (st_delegations s)"
  shows "store_inv s'"
proof -
  obtain u1 s1 where d: "index_delegations (st_delegations s) (clear_indexes s) = (Inr u1, s1)"
    and r: "index_records (st_records s) s1 = (Inr u, s')"
    using assms(1) by (auto simp: rebuildIndexes_def split: prod.splits sum.splits)
  have "delegations_indexed [] (clear_indexes s)"
    by (simp add: delegations_indexed_def clear_indexes_def)
  then have ds: "delegations_inv (st_delegations s)"
    using index_delegations_certifies [OF d, of "[]"] assms(3) by (simp add: delegations_inv_def)
  from index_delegations_ok [of "[]" "st_delegations s", OF _ \<open>delegations_indexed [] (clear_indexes s)\<close>] ds d
  have "same_but_delegation_indexes (clear_indexes s) s1" by auto
  then have "records_indexed [] s1"
    by (auto simp: records_indexed_def same_but_delegation_indexes_def clear_indexes_def)
  then have "records_inv (st_records s)"
    using index_records_certifies [OF r, of "[]"] assms(2) by (simp add: records_inv_def)
  from rebuildIndexes_ok [OF this ds] assms(1) show ?thesis by auto
qed

subsection \<open>What a load may admit\<close>

definition returns :: "'a eff \<Rightarrow> ('a \<Rightarrow> bool) \<Rightarrow> bool" where
  "returns m P = (\<forall>w a w'. m w = (Inr a, w') \<longrightarrow> P a)"

lemma returnsD: "returns m P \<Longrightarrow> m w = (Inr a, w') \<Longrightarrow> P a"
  by (auto simp: returns_def)

lemma returns_ret: "P a \<Longrightarrow> returns (retE a) P"
  by (simp add: returns_def retE_def)

lemma returns_any: "(\<And>a. P a) \<Longrightarrow> returns m P"
  by (simp add: returns_def)

lemma returns_thenE: "returns m P \<Longrightarrow> (\<And>a. P a \<Longrightarrow> returns (f a) Q) \<Longrightarrow> returns (thenE m f) Q"
  unfolding returns_def thenE_def by (fastforce split: prod.splits sum.splits)

lemma returns_catchE: "returns m Q \<Longrightarrow> (\<And>e. returns (h e) Q) \<Longrightarrow> returns (catchE m h) Q"
  unfolding returns_def catchE_def by (fastforce split: prod.splits sum.splits)

definition admissible :: "string \<Rightarrow> thread_record \<Rightarrow> bool" where
  "admissible name r = (record_ok r \<and> tr_hostThreadId r = name)"

lemma returns_readRecord: "returns (readRecord dir name) (admissible name)"
  by (auto simp: returns_def readRecord_def thenE_def syscall_def parse_file_def admissible_def
      dest: parse_record_Some(1) split: list.splits option.splits stored_file.splits if_splits prod.splits sum.splits)

lemma returns_readMetadata:
  "returns (readMetadata hid) (\<lambda>x. \<forall>md. x = Some md \<longrightarrow> metadata_ok md)"
proof -
  have ok: "metadata_ok md" if "parse_metadata hid f = Some md" for f md
    using that by (auto simp: parse_metadata_def metadata_ok_def split: stored_file.splits if_splits)
  show ?thesis
    by (auto simp: returns_def readMetadata_def thenE_def catchE_def retE_def syscall_def modDisk_def ok
        split: list.splits option.splits if_splits prod.splits sum.splits)
qed

lemma admissible_withThreadMetadata:
  "admissible name r \<Longrightarrow> metadata_ok md \<Longrightarrow> admissible name (withThreadMetadata r md)"
  by (auto simp: admissible_def withThreadMetadata_def withoutThreadMetadata_def Let_def record_ok_def
      threadCore_ok_def metadataFields_ok_def refineThreadRecord_def metadata_ok_def assign_field_def
      split: option.splits)

lemma returns_admitThread:
  assumes "admissible name r"
  shows "returns (admitThread name r) (\<lambda>x. \<forall>y. x = Some y \<longrightarrow> admissible name y)"
proof -
  let ?Q = "\<lambda>x. \<forall>y. x = Some y \<longrightarrow> admissible name y"
  have skip: "returns (thenE m f) ?Q" if "\<And>a. returns (f a) ?Q" for m :: "'b eff" and f
    using that by (intro returns_thenE [OF returns_any, of "\<lambda>_. True"]) simp_all
  have none: "returns (retE None) ?Q" and keep: "returns (retE (Some r)) ?Q"
    using assms by (simp_all add: returns_ret)
  have md: "returns (retE (Some (withThreadMetadata r m))) ?Q" if "metadata_ok m" for m
    using admissible_withThreadMetadata [OF assms that] by (simp add: returns_ret)
  show ?thesis
  proof (cases "abandoned r")
    case True
    then show ?thesis by (simp add: admitThread_def skip none)
  next
    case False
    have "returns (case x of Some m \<Rightarrow> retE (Some (withThreadMetadata r m))
        | None \<Rightarrow> if threadMetadataOf r = None then retE (Some r)
            else thenE (writeMetadataFile (tr_hostThreadId r) (threadMetadataOf r)) (\<lambda>_.
                 thenE (replaceFile name r False) (\<lambda>_. retE (Some r)))) ?Q"
      if "\<forall>m. x = Some m \<longrightarrow> metadata_ok m" for x
      using that by (cases x) (simp_all add: skip keep md)
    then show ?thesis using False by (simp add: admitThread_def returns_thenE [OF returns_readMetadata])
  qed
qed

lemma returns_loadThread:
  "returns (loadThread name) (\<lambda>(x, _). \<forall>y. x = Some y \<longrightarrow> admissible name y)"
proof -
  have found: "returns (catchE (thenE (readRecord dk_threads name) (\<lambda>r. retE (Inr r)))
      (\<lambda>_. catchE (thenE (readRecord dk_backups name) (\<lambda>r. thenE (replaceFile name r False) (\<lambda>_. retE (Inr r))))
             (\<lambda>_. thenE (quarantineThread name) (\<lambda>pending. retE (Inl pending)))))
      (\<lambda>x. \<forall>r. x = Inr r \<longrightarrow> admissible name r)"
    by (intro returns_catchE returns_thenE [OF returns_readRecord] returns_thenE [OF returns_any] returns_ret) auto
  show ?thesis
    unfolding loadThread_def
    by (rule returns_thenE [OF found])
      (auto intro!: returns_ret returns_thenE [OF returns_admitThread] split: sum.split)
qed

lemma keeps_cases [keeps]:
  "keepsStore a \<Longrightarrow> (\<And>v. keepsStore (b v)) \<Longrightarrow> keepsStore (case x of None \<Rightarrow> a | Some v \<Rightarrow> b v)"
  "(\<And>p. keepsStore (c p)) \<Longrightarrow> (\<And>q. keepsStore (d q)) \<Longrightarrow> keepsStore (case y of Inl p \<Rightarrow> c p | Inr q \<Rightarrow> d q)"
  by (auto split: option.splits sum.splits)

lemma keeps_loading [keeps]:
  "keepsStore (readRecord dir name)" "keepsStore (quarantineThread name)" "keepsStore (admitThread name r)"
  "keepsStore (loadThread name)"
proof -
  show read: "keepsStore (readRecord dir name)" for dir
    by (auto simp: keepsStore_def readRecord_def thenE_def syscall_def split: list.splits option.splits)
  show quarantine: "keepsStore (quarantineThread name)"
    unfolding quarantineThread_def by (intro keeps)
  show admit: "keepsStore (admitThread name r)" for r
    unfolding admitThread_def by (intro keeps)
  show "keepsStore (loadThread name)"
    unfolding loadThread_def by (intro keeps read quarantine admit)
qed

text \<open>The parts of the memory a load does not touch before it is complete.\<close>

definition load_frame :: "store \<Rightarrow> store \<Rightarrow> bool" where
  "load_frame s s' = (st_initialized s' = st_initialized s \<and> st_lockHeld s' = st_lockHeld s)"

definition loaded :: "store \<Rightarrow> bool" where
  "loaded s = (records_loaded (st_records s) \<and> delegations_loaded (st_delegations s))"

lemma loaded_setRecord: "loaded s \<Longrightarrow> admissible name r \<Longrightarrow> loaded (setRecord r s)"
  by (auto simp: loaded_def records_loaded_def setRecord_def admissible_def set_js_set)

lemma loadThreads_loaded:
  assumes "loaded (w_store w)" and "loadThreads names w = (r, w')"
  shows "loaded (w_store w') \<and> load_frame (w_store w) (w_store w')"
  using assms
proof (induction names arbitrary: w r w')
  case Nil
  then show ?case by (auto simp: retE_def load_frame_def)
next
  case (Cons n names)
  obtain r1 w1 where l: "loadThread n w = (r1, w1)" by (cases "loadThread n w")
  have s1: "w_store w1 = w_store w" by (rule keepsStoreD [OF keeps_loading(4) l])
  show ?case
  proof (cases r1)
    case (Inl e)
    then show ?thesis using Cons.prems l s1 by (auto simp: thenE_def load_frame_def)
  next
    case (Inr a)
    obtain x pending where a: "a = (x, pending)" by (cases a)
    let ?w2 = "case x of None \<Rightarrow> w1 | Some y \<Rightarrow> w1\<lparr>w_store := setRecord y (w_store w1)\<rparr>"
    have ld: "loaded (w_store ?w2)" "load_frame (w_store w) (w_store ?w2)"
      using returnsD [OF returns_loadThread, of n w a w1] l Inr a Cons.prems(1) s1 loaded_setRecord
      by (auto simp: load_frame_def setRecord_def split: option.splits)
    obtain r3 w3 where rest: "loadThreads names ?w2 = (r3, w3)" by (cases "loadThreads names ?w2")
    have "w' = w3"
      using Cons.prems(2) l Inr a rest
      by (cases x; cases r3) (auto simp: thenE_def retE_def modStore_def)
    then show ?thesis using Cons.IH [OF ld(1) rest] ld(2) by (simp add: load_frame_def)
  qed
qed

lemma loadDelegation_loaded:
  assumes "loaded (w_store w)" and "loadDelegation n w = (r, w')"
  shows "loaded (w_store w') \<and> load_frame (w_store w) (w_store w')"
proof -
  have "loaded (s\<lparr>st_delegations := js_set (dl_delegationId d) d (st_delegations s)\<rparr>)"
    if "loaded s" "parse_delegation n f = Some d" for s f d
    using that by (auto simp: loaded_def delegations_loaded_def set_js_set parse_delegation_def
        split: stored_file.splits if_splits)
  then show ?thesis
    using assms
    by (auto simp: loadDelegation_def bestEffort_def catchE_def thenE_def syscall_def modStore_def modDisk_def
        retE_def load_frame_def split: list.splits option.splits if_splits prod.splits sum.splits)
qed

lemma each_loadDelegation_loaded:
  "loaded (w_store w) \<Longrightarrow> each loadDelegation names w = (r, w') \<Longrightarrow>
   loaded (w_store w') \<and> load_frame (w_store w) (w_store w')"
proof (induction names arbitrary: w r w')
  case Nil
  then show ?case by (auto simp: retE_def load_frame_def)
next
  case (Cons n names)
  obtain r1 w1 where l: "loadDelegation n w = (r1, w1)" by (cases "loadDelegation n w")
  note one = loadDelegation_loaded [OF Cons.prems(1) l]
  show ?case
    using Cons.prems(2) l one Cons.IH [of w1 r w'] by (cases r1) (auto simp: thenE_def load_frame_def)
qed

lemma keeps_each [keeps]: "(\<And>x. keepsStore (f x)) \<Longrightarrow> keepsStore (each f xs)"
  by (induction xs) (simp_all add: keeps)

lemma keeps_bestEffort [keeps]: "keepsStore m \<Longrightarrow> keepsStore (bestEffort m)"
  unfolding bestEffort_def by (intro keeps)

lemma keeps_removeOrphanMetadata: "keepsStore (removeOrphanMetadata pending)"
proof -
  have "keepsStore (each (\<lambda>name. bestEffort (rmMetadata name)) xs)" for xs by (intro keeps)
  then show ?thesis
    by (auto simp: removeOrphanMetadata_def keepsStore_def thenE_def syscall_def split: list.splits)
qed

definition load_result :: "store \<Rightarrow> store \<Rightarrow> bool" where
  "load_result s s' = (loaded s' \<and> load_frame s s')"

lemma load_result_trans: "load_result a b \<Longrightarrow> load_result b c \<Longrightarrow> load_result a c"
  by (simp add: load_result_def load_frame_def)

definition loads :: "'a eff \<Rightarrow> bool" where
  "loads m = (\<forall>w r w'. loaded (w_store w) \<longrightarrow> m w = (r, w') \<longrightarrow> load_result (w_store w) (w_store w'))"

lemma loads_keeps: "keepsStore m \<Longrightarrow> loads m"
  by (auto simp: loads_def load_result_def load_frame_def dest: keepsStoreD)

lemma loads_parts:
  "loads cleanupResidue" "loads (syscall e)" "loads (removeOrphanMetadata pending)"
  "loads (\<lambda>w. loadThreads (js_keys (dk_threads (w_disk w))) w)"
  "loads (\<lambda>w. each loadDelegation (js_keys (dk_delegations (w_disk w))) w)"
  "loads loadSectionPlacements" "loads loadSupersededSessions"
proof -
  show "loads cleanupResidue" "loads (syscall e)" "loads (removeOrphanMetadata pending)"
    by (rule loads_keeps, (unfold cleanupResidue_def)?, (intro keeps keeps_removeOrphanMetadata))+
  show "loads (\<lambda>w. loadThreads (js_keys (dk_threads (w_disk w))) w)"
    "loads (\<lambda>w. each loadDelegation (js_keys (dk_delegations (w_disk w))) w)"
    unfolding loads_def load_result_def using loadThreads_loaded each_loadDelegation_loaded by blast+
  show "loads loadSectionPlacements" "loads loadSupersededSessions"
    by (auto simp: loadSectionPlacements_def loadSupersededSessions_def readSectionPlacementsFile_def
      readSupersededSessionsFile_def bestEffort_def catchE_def thenE_def modStore_def modDisk_def retE_def syscall_def
      loads_def load_result_def load_frame_def loaded_def
      split: list.splits option.splits stored_file.splits sum.splits prod.splits if_splits)
qed

definition load_post :: "store \<Rightarrow> store_error + unit \<Rightarrow> world \<Rightarrow> bool" where
  "load_post s r w' =
     (st_lockHeld (w_store w') = st_lockHeld s \<and>
      (r = Inr () \<longrightarrow> store_inv (w_store w') \<and> st_initialized (w_store w')))"

lemma wruns_loads:
  assumes "loads m" and "load_result s (w_store w)"
    and "\<And>a w'. load_result s (w_store w') \<Longrightarrow> wruns w' (f a) (load_post s)"
  shows "wruns w (thenE m f) (load_post s)"
proof -
  obtain r w' where m: "m w = (r, w')" by (cases "m w")
  have "load_result s (w_store w')"
    using assms(1,2) m load_result_trans unfolding loads_def load_result_def by metis
  then show ?thesis
    using assms(3) [of w'] m
    by (cases r) (auto simp: wruns_def thenE_def load_post_def load_result_def load_frame_def)
qed

lemma wruns_loaded_rebuild:
  assumes l: "load_result s (w_store w)"
  shows "wruns w (thenE rebuildE (\<lambda>_. modStore (\<lambda>s. s\<lparr>st_initialized := True\<rparr>))) (load_post s)"
proof -
  obtain r s' where rb: "rebuildIndexes (w_store w) = (r, s')" by (cases "rebuildIndexes (w_store w)")
  have data: "same_data (w_store w) s'" using rebuildIndexes_data [of "w_store w"] rb by simp
  have "store_inv s'" if "r = Inr u" for u
    using rebuildIndexes_certifies [of "w_store w" u s'] rb that l by (simp add: load_result_def loaded_def)
  then have "store_inv (s'\<lparr>st_initialized := True\<rparr>)" if "r = Inr u" for u
    using that by (simp add: store_inv_def records_indexed_def delegations_indexed_def)
  then show ?thesis
    using data l rb
    by (cases r) (auto simp: wruns_def thenE_def rebuildE_def modStore_def same_data_def load_post_def
        load_result_def load_frame_def)
qed

lemma loadAll_certifies:
  assumes "loaded (w_store w)"
  shows "wruns w loadAll (load_post (w_store w))"
proof -
  have "load_result (w_store w) (w_store w)" using assms by (simp add: load_result_def load_frame_def)
  then show ?thesis
    unfolding loadAll_def by (intro wruns_loads [OF loads_parts(1)] wruns_loads [OF loads_parts(2)]
        wruns_loads [OF loads_parts(3)] wruns_loads [OF loads_parts(4)] wruns_loads [OF loads_parts(5)]
        wruns_loads [OF loads_parts(6)] wruns_loads [OF loads_parts(7)] wruns_loaded_rebuild)
qed



end
