(* ===== verification/JsNumbers.thy ===== *)
theory JsNumbers
  imports Prelude
begin

text \<open>
  Decimal text of numbers: \<open>String(n)\<close> for a natural number and \<open>Number(x)\<close> where the code
  turns a cursor back into one. Of the numeric literals \<open>Number\<close> accepts, \<open>js_number\<close> reads the
  plain decimal integers, white space around them, the empty text and the JSON scalars; a literal
  with an exponent, a radix prefix or a fraction counts as not a number.
\<close>

definition digit_char :: "nat \<Rightarrow> char" where
  "digit_char n = char_of (48 + n)"

fun nat_string :: "nat \<Rightarrow> string" where
  "nat_string n = (if n < 10 then [digit_char n] else nat_string (n div 10) @ [digit_char (n mod 10)])"

declare nat_string.simps [simp del]

definition is_digit :: "char \<Rightarrow> bool" where
  "is_digit c = (let n = of_char c :: nat in 48 \<le> n \<and> n \<le> 57)"

definition digits_value :: "string \<Rightarrow> nat" where
  "digits_value s = foldl (\<lambda>acc c. 10 * acc + (of_char c - 48)) 0 s"

definition number_of_text :: "string \<Rightarrow> int option" where
  "number_of_text t =
     (let s = trim t in
      if s = [] then Some 0
      else if list_all is_digit s then Some (int (digits_value s))
      else if (hd s = CHR ''-'' \<or> hd s = CHR ''+'') \<and> tl s \<noteq> [] \<and> list_all is_digit (tl s)
      then Some ((if hd s = CHR ''-'' then -1 else 1) * int (digits_value (tl s)))
      else None)"

fun js_number :: "json \<Rightarrow> int option" where
  "js_number JNull = Some 0"
| "js_number (JBool b) = Some (if b then 1 else 0)"
| "js_number (JInt n) = Some n"
| "js_number (JStr s) = number_of_text s"
| "js_number (JArr []) = Some 0"
| "js_number (JArr [JInt n]) = Some n"
| "js_number (JArr [JStr s]) = number_of_text s"
| "js_number _ = None"

text \<open>\<open>Number.isSafeInteger\<close> of the result of \<open>Number\<close>.\<close>

definition safe_int :: "int \<Rightarrow> bool" where
  "safe_int n = (- max_safe_integer \<le> n \<and> n \<le> max_safe_integer)"

lemma of_digit_char: "n < 10 \<Longrightarrow> (of_char (digit_char n) :: nat) = 48 + n"
  by (simp add: digit_char_def)

lemma is_digit_digit_char: "n < 10 \<Longrightarrow> is_digit (digit_char n)"
  by (simp add: is_digit_def of_digit_char)

lemma digits_nat_string: "list_all is_digit (nat_string n)"
proof (induction n rule: nat_string.induct)
  case (1 n)
  then show ?case by (subst nat_string.simps) (simp add: is_digit_digit_char)
qed

lemma digits_value_snoc: "digits_value (s @ [c]) = 10 * digits_value s + (of_char c - 48)"
  by (simp add: digits_value_def)

lemma digits_value_nat_string: "digits_value (nat_string n) = n"
proof (induction n rule: nat_string.induct)
  case (1 n)
  show ?case
  proof (cases "n < 10")
    case True
    then show ?thesis by (subst nat_string.simps) (simp add: digits_value_def of_digit_char)
  next
    case False
    then have "digits_value (nat_string (n div 10)) = n div 10" using 1 by simp
    then show ?thesis
      using False by (subst nat_string.simps) (simp add: digits_value_snoc of_digit_char)
  qed
qed

lemma nat_string_not_empty [simp]: "nat_string n \<noteq> []"
  by (subst nat_string.simps) simp

lemma digit_not_space: "is_digit c \<Longrightarrow> \<not> is_space c"
  by (auto simp: is_digit_def is_space_def Let_def)

lemma trim_no_space: "list_all (\<lambda>c. \<not> is_space c) s \<Longrightarrow> trim s = s"
proof -
  assume ns: "list_all (\<lambda>c. \<not> is_space c) s"
  have "dropWhile is_space xs = xs" if "list_all (\<lambda>c. \<not> is_space c) xs" for xs
    using that by (cases xs) auto
  then show ?thesis using ns by (simp add: trim_def list_all_rev)
qed

lemma number_of_nat_string [simp]: "number_of_text (nat_string n) = Some (int n)"
proof -
  have "list_all (\<lambda>c. \<not> is_space c) (nat_string n)"
    using digits_nat_string digit_not_space by (auto simp: list_all_iff)
  then show ?thesis
    using digits_nat_string by (simp add: number_of_text_def trim_no_space digits_value_nat_string)
qed

subsection \<open>Paging by offset\<close>

text \<open>
  The contract of a list that is served in pages: a page is a slice of the rows from the cursor's
  offset, and the next cursor, if any, is the end of the slice. \<open>follow_pages\<close> is a client that
  follows the cursors for at most the given number of pages.
\<close>

fun follow_pages :: "nat \<Rightarrow> (nat \<Rightarrow> ('r list \<times> nat option) option) \<Rightarrow> nat \<Rightarrow> 'r list" where
  "follow_pages 0 page start = []"
| "follow_pages (Suc fuel) page start =
     (case page start of
        None \<Rightarrow> []
      | Some (data, None) \<Rightarrow> data
      | Some (data, Some cursor) \<Rightarrow> data @ follow_pages fuel page cursor)"

locale offset_pager =
  fixes page :: "'s \<Rightarrow> nat \<Rightarrow> nat \<Rightarrow> ('r list \<times> nat option) option"
    and rows :: "'s \<Rightarrow> 'r list"
  assumes page_slice: "start \<le> length (rows s) \<Longrightarrow> 0 < limit \<Longrightarrow>
      page s start limit =
        Some (take limit (drop start (rows s)),
              if start + limit < length (rows s) then Some (start + limit) else None)"
begin

lemma follow_drop:
  assumes "0 < limit" and "start \<le> length (rows s)" and "length (rows s) - start < fuel"
  shows "follow_pages fuel (\<lambda>c. page s c limit) start = drop start (rows s)"
  using assms(2,3)
proof (induction fuel arbitrary: start)
  case (Suc fuel)
  show ?case
  proof (cases "start + limit < length (rows s)")
    case True
    have "follow_pages fuel (\<lambda>c. page s c limit) (start + limit) = drop (start + limit) (rows s)"
      by (rule Suc.IH) (use True Suc.prems assms(1) in auto)
    then show ?thesis
      using True Suc.prems(1) assms(1) by (simp add: page_slice) (metis add.commute append_take_drop_id drop_drop)
  qed (use Suc.prems(1) assms(1) in \<open>simp add: page_slice\<close>)
qed simp

lemma follow_all: "0 < limit \<Longrightarrow> follow_pages (Suc (length (rows s))) (\<lambda>c. page s c limit) 0 = rows s"
  using follow_drop [of limit 0 s "Suc (length (rows s))"] by simp

end

subsection \<open>Maps with a bounded number of entries\<close>

text \<open>
  The contract of a receipt map: inserting keeps at most \<open>limit\<close> entries and forgets the oldest.
\<close>

locale bounded_window =
  fixes push :: "'k \<Rightarrow> 'v \<Rightarrow> ('k, 'v) jsmap \<Rightarrow> ('k, 'v) jsmap" and limit :: nat
  assumes limit_pos: "0 < limit"
    and push_window: "length m \<le> limit \<Longrightarrow> push k v m = drop (length (js_set k v m) - limit) (js_set k v m)"
begin

lemma length_push: "length m \<le> limit \<Longrightarrow> length (push k v m) \<le> limit"
  by (simp add: push_window)

lemma distinct_push: "length m \<le> limit \<Longrightarrow> distinct (js_keys m) \<Longrightarrow> distinct (js_keys (push k v m))"
  by (simp add: push_window drop_map [symmetric] distinct_drop)

lemma set_push: "length m \<le> limit \<Longrightarrow> set (push k v m) \<subseteq> set (js_set k v m)"
  by (simp add: push_window set_drop_subset)

lemma push_get:
  assumes "length m \<le> limit" and "distinct (js_keys m)"
  shows "js_get (push k v m) k = Some v"
proof (cases "k \<in> set (js_keys m)")
  case True
  then have "length (js_set k v m) = length m"
    using arg_cong [OF js_keys_set [of k v m], of length] by simp
  then show ?thesis using assms(1) by (simp add: push_window)
next
  case False
  then have "push k v m = drop (Suc (length m) - limit) m @ [(k, v)]"
    using assms(1) limit_pos by (simp add: push_window js_set_absent)
  moreover have "js_get (drop (Suc (length m) - limit) m) k = None"
    unfolding map_of_eq_None_iff using False by (metis drop_map in_set_dropD set_map)
  ultimately show ?thesis by (simp add: map_add_def)
qed

end

end
