(* ===== verification/ThreadQueue.thy ===== *)
theory ThreadQueue
  imports JsNumbers
begin

text \<open>
  The queue of messages waiting for an External Thread:
  \<open>packages/host-runtime/src/external-thread-queue.ts\<close>.

  A queued submission is a mutable object that the item list of its Thread and the receipt map
  may both reference, so objects live in a heap: an address is a position of \<open>qu_heap\<close>. A random
  UUID is an argument of the operation that draws it, and so is \<open>externalTurnInputText\<close>, the
  text of a turn input (\<open>external-turn-input.ts\<close>), which may throw (\<open>None\<close>).
\<close>

subsection \<open>State\<close>

datatype paused_reason = Interrupted | OutcomeUnknown | Failed

record queued_submission =
  qs_id :: string
  qs_clientUserMessageId :: string
  qs_input :: "json list"
  qs_presentationInput :: "json list option"
  qs_sourceHostId :: "string option"

datatype queue_error = ExternalQueueError int | PlainError string

type_synonym addr = nat

record thread_queue =
  tq_items :: "addr list"
  tq_pausedReason :: "paused_reason option"

record queue =
  qu_heap :: "queued_submission list"
  qu_receipts :: "(string, addr) jsmap"
  qu_acceptedSteers :: "(string, string) jsmap"
  qu_states :: "(string, thread_queue) jsmap"

record taken_submission =
  tk_submission :: queued_submission
  tk_sourceHostId :: "string option"
  tk_index :: nat
  tk_pausedReason :: "paused_reason option"

definition new_queue :: queue where
  "new_queue = \<lparr>qu_heap = [], qu_receipts = [], qu_acceptedSteers = [], qu_states = []\<rparr>"

definition MAX_QUEUED_SUBMISSIONS :: nat where
  "MAX_QUEUED_SUBMISSIONS = 32"

abbreviation obj :: "queue \<Rightarrow> addr \<Rightarrow> queued_submission" where
  "obj q a \<equiv> qu_heap q ! a"

definition put_obj :: "addr \<Rightarrow> queued_submission \<Rightarrow> queue \<Rightarrow> queue" where
  "put_obj a x q = q\<lparr>qu_heap := (qu_heap q)[a := x]\<rparr>"

definition put_state :: "string \<Rightarrow> thread_queue \<Rightarrow> queue \<Rightarrow> queue" where
  "put_state t st q = q\<lparr>qu_states := js_set t st (qu_states q)\<rparr>"

definition items_of :: "queue \<Rightarrow> string \<Rightarrow> queued_submission list" where
  "items_of q t =
     (case js_get (qu_states q) t of None \<Rightarrow> [] | Some st \<Rightarrow> List.map (obj q) (tq_items st))"

definition paused_of :: "queue \<Rightarrow> string \<Rightarrow> paused_reason option" where
  "paused_of q t = (case js_get (qu_states q) t of None \<Rightarrow> None | Some st \<Rightarrow> tq_pausedReason st)"

definition receiptKey :: "string \<Rightarrow> string \<Rightarrow> string" where
  "receiptKey threadId clientUserMessageId = threadId @ [CHR 0x00] @ clientUserMessageId"

text \<open>\<open>#state\<close>: the Thread's state, made when missing.\<close>

definition ensure_state :: "string \<Rightarrow> queue \<Rightarrow> thread_queue \<times> queue" where
  "ensure_state t q =
     (case js_get (qu_states q) t of
        Some st \<Rightarrow> (st, q)
      | None \<Rightarrow> (let st = \<lparr>tq_items = [], tq_pausedReason = None\<rparr> in (st, put_state t st q)))"

definition prune :: "string \<Rightarrow> thread_queue \<Rightarrow> queue \<Rightarrow> queue" where
  "prune t st q =
     (if tq_items st = [] then q\<lparr>qu_states := js_delete t (qu_states q)\<rparr> else q)"

subsection \<open>Reading\<close>

definition snapshot :: "queue \<Rightarrow> string \<Rightarrow> queued_submission list \<times> paused_reason option" where
  "snapshot q t = (items_of q t, paused_of q t)"

definition text_part :: "json \<Rightarrow> json" where
  "text_part part =
     (case part of
        JObj kvs \<Rightarrow>
          if map_of kvs ''type'' = Some (JStr ''text'') then
            JObj (js_set ''text_elements''
                    (case map_of kvs ''text_elements'' of
                       None \<Rightarrow> JArr [] | Some JNull \<Rightarrow> JArr [] | Some v \<Rightarrow> v) kvs)
          else part
      | _ \<Rightarrow> part)"

definition nativeQueuedSubmission :: "queued_submission \<Rightarrow> json" where
  "nativeQueuedSubmission s =
     JObj [(''id'', JStr (qs_id s)), (''clientUserMessageId'', JStr (qs_clientUserMessageId s)),
           (''input'', JArr (List.map text_part (qs_input s)))]"

definition list_start :: "json option \<Rightarrow> int option" where
  "list_start cursor =
     (case cursor of None \<Rightarrow> Some 0 | Some JNull \<Rightarrow> Some 0 | Some c \<Rightarrow> js_number c)"

definition list_limit :: "json option \<Rightarrow> nat" where
  "list_limit limit =
     (case limit of
        Some (JInt n) \<Rightarrow> if safe_int n \<and> 0 < n then nat n else 50
      | _ \<Rightarrow> 50)"

definition queue_page :: "'a list \<Rightarrow> nat \<Rightarrow> nat \<Rightarrow> ('a list \<times> nat option) option" where
  "queue_page items start limit =
     (if length items < start then None
      else let end = min (length items) (start + limit)
           in Some (take (end - start) (drop start items),
                    if end < length items then Some end else None))"

definition queue_list :: "queue \<Rightarrow> string \<Rightarrow> json option \<Rightarrow> json option \<Rightarrow> queue_error + (json list \<times> string option)" where
  "queue_list q t cursor limit =
     (case list_start cursor of
        None \<Rightarrow> Inl (ExternalQueueError (-32602))
      | Some start \<Rightarrow>
          if \<not> safe_int start \<or> start < 0 then Inl (ExternalQueueError (-32602))
          else
            (case queue_page (items_of q t) (nat start) (list_limit limit) of
               None \<Rightarrow> Inl (ExternalQueueError (-32602))
             | Some (data, next) \<Rightarrow>
                 Inr (List.map nativeQueuedSubmission data, map_option nat_string next)))"

definition queue_find :: "queue \<Rightarrow> string \<Rightarrow> string \<Rightarrow> queued_submission option" where
  "queue_find q t itemId = find (\<lambda>s. qs_id s = itemId) (items_of q t)"

definition head :: "queue \<Rightarrow> string \<Rightarrow> queued_submission option" where
  "head q t = (case items_of q t of [] \<Rightarrow> None | s # _ \<Rightarrow> Some s)"

definition isPaused :: "queue \<Rightarrow> string \<Rightarrow> bool" where
  "isPaused q t = (paused_of q t \<noteq> None)"

definition has :: "queue \<Rightarrow> string \<Rightarrow> bool" where
  "has q t = (items_of q t \<noteq> [])"

subsection \<open>Writing\<close>

text \<open>A map that grew past its limit loses its oldest key.\<close>

definition evict_oldest :: "nat \<Rightarrow> ('k, 'v) jsmap \<Rightarrow> ('k, 'v) jsmap" where
  "evict_oldest limit m = (if limit < length m then tl m else m)"

definition truthy_text :: "string option \<Rightarrow> bool" where
  "truthy_text x = (case x of None \<Rightarrow> False | Some s \<Rightarrow> s \<noteq> [])"

definition queue_add ::
  "string \<Rightarrow> string \<Rightarrow> string \<Rightarrow> json list \<Rightarrow> string option \<Rightarrow> json list option \<Rightarrow> json option \<Rightarrow>
   queue \<Rightarrow> (queue_error + queued_submission) \<times> queue" where
  "queue_add uuid messageUuid t input clientUserMessageId presentationInput sourceHostId q =
     (let key = receiptKey t (case clientUserMessageId of None \<Rightarrow> [] | Some c \<Rightarrow> c);
          existing = (if truthy_text clientUserMessageId then js_get (qu_receipts q) key else None)
      in case existing of
           Some a \<Rightarrow>
             (if qs_input (obj q a) \<noteq> input \<or> qs_presentationInput (obj q a) \<noteq> presentationInput
              then (Inl (PlainError ''Message ID was already used with different input''), q)
              else (Inr (obj q a), q))
         | None \<Rightarrow>
             (case ensure_state t q of (st, q1) \<Rightarrow>
                if MAX_QUEUED_SUBMISSIONS \<le> length (tq_items st)
                then (Inl (PlainError ''External Thread queue is full''), q1)
                else
                  let s = \<lparr>qs_id = uuid,
                           qs_clientUserMessageId =
                             (case clientUserMessageId of None \<Rightarrow> messageUuid | Some c \<Rightarrow> c),
                           qs_input = input, qs_presentationInput = presentationInput,
                           qs_sourceHostId = (case sourceHostId of Some (JStr h) \<Rightarrow> Some h | _ \<Rightarrow> None)\<rparr>;
                      a = length (qu_heap q1);
                      q2 = put_state t (st\<lparr>tq_items := tq_items st @ [a]\<rparr>) (q1\<lparr>qu_heap := qu_heap q1 @ [s]\<rparr>)
                  in (Inr s,
                      if truthy_text clientUserMessageId
                      then q2\<lparr>qu_receipts := evict_oldest 256 (js_set key a (qu_receipts q2))\<rparr>
                      else q2)))"

definition with_input :: "json list \<Rightarrow> json list option \<Rightarrow> queued_submission \<Rightarrow> queued_submission" where
  "with_input input presentationInput s = s\<lparr>qs_input := input, qs_presentationInput := presentationInput\<rparr>"

definition find_addr :: "queue \<Rightarrow> string \<Rightarrow> string \<Rightarrow> addr option" where
  "find_addr q t itemId =
     (case js_get (qu_states q) t of
        None \<Rightarrow> None
      | Some st \<Rightarrow> find (\<lambda>a. qs_id (obj q a) = itemId) (tq_items st))"

definition queue_update ::
  "string \<Rightarrow> string \<Rightarrow> json list \<Rightarrow> json list option \<Rightarrow> queue \<Rightarrow> queued_submission option \<times> queue" where
  "queue_update t itemId input presentationInput q =
     (case find_addr q t itemId of
        None \<Rightarrow> (None, q)
      | Some a \<Rightarrow>
          let q1 = put_obj a (with_input input presentationInput (obj q a)) q;
              q2 = (case js_get (qu_receipts q1) (receiptKey t (qs_clientUserMessageId (obj q1 a))) of
                      None \<Rightarrow> q1
                    | Some b \<Rightarrow> put_obj b (with_input input presentationInput (obj q1 b)) q1)
          in (Some (obj q2 a), q2))"

definition queue_delete :: "string \<Rightarrow> string \<Rightarrow> queue \<Rightarrow> bool \<times> queue" where
  "queue_delete t itemId q =
     (let accepted = (js_get (qu_acceptedSteers q) itemId = Some t)
      in case js_get (qu_states q) t of
           None \<Rightarrow> (accepted, q)
         | Some st \<Rightarrow>
             (case index_of itemId (List.map (\<lambda>a. qs_id (obj q a)) (tq_items st)) of
                None \<Rightarrow> (accepted, q)
              | Some i \<Rightarrow>
                  let st' = st\<lparr>tq_items := splice_out i (tq_items st)\<rparr>
                  in (True, prune t st' (put_state t st' q))))"

text \<open>The loop of \<open>reorder\<close> takes the named items out of the map of the remaining ones.\<close>

fun take_named :: "string list \<Rightarrow> (string, addr) jsmap \<Rightarrow> (addr list \<times> (string, addr) jsmap) option" where
  "take_named [] byId = Some ([], byId)"
| "take_named (i # is) byId =
     (case js_get byId i of
        None \<Rightarrow> None
      | Some a \<Rightarrow> map_option (\<lambda>(xs, rest). (a # xs, rest)) (take_named is (js_delete i byId)))"

definition queue_reorder :: "string \<Rightarrow> string list \<Rightarrow> queue \<Rightarrow> bool \<times> queue" where
  "queue_reorder t itemIds q =
     (case js_get (qu_states q) t of
        None \<Rightarrow> (itemIds = [], q)
      | Some st \<Rightarrow>
          if length (tq_items st) < length itemIds then (False, q)
          else
            let byId = fold (\<lambda>a. js_set (qs_id (obj q a)) a) (tq_items st) []
            in if \<not> distinct itemIds then (False, q)
               else case take_named itemIds byId of
                      None \<Rightarrow> (False, q)
                    | Some (xs, rest) \<Rightarrow>
                        (True, put_state t (st\<lparr>tq_items := xs @ js_values rest\<rparr>) q))"

text \<open>
  \<open>takeSteered\<close>: \<open>Inr None\<close> is an undefined result; the texts of both inputs are computed before
  the comparison, so either may throw.
\<close>

definition takeSteered ::
  "(json \<Rightarrow> string option) \<Rightarrow> string \<Rightarrow> json option \<Rightarrow> json \<Rightarrow> queue \<Rightarrow>
   (queue_error + taken_submission option) \<times> queue" where
  "takeSteered inputText t clientUserMessageId input q =
     (case clientUserMessageId of
        Some (JStr c) \<Rightarrow>
          (case js_get (qu_states q) t of
             None \<Rightarrow> (Inr None, q)
           | Some st \<Rightarrow>
               (case filter (\<lambda>a. qs_clientUserMessageId (obj q a) = c) (tq_items st) of
                  [] \<Rightarrow> (Inr None, q)
                | a # others \<Rightarrow>
                    let refuse = Inl (ExternalQueueError (-32602));
                        thrown = Inl (PlainError ''external input'')
                    in if others \<noteq> [] then (refuse, q)
                       else
                         (case (inputText (JArr (qs_input (obj q a))), inputText input) of
                            (Some x, Some y) \<Rightarrow>
                              if x \<noteq> y then (refuse, q)
                              else
                                (case index_of a (tq_items st) of
                                   None \<Rightarrow> (Inr None, q)
                                 | Some i \<Rightarrow>
                                     let st' = st\<lparr>tq_items := splice_out i (tq_items st)\<rparr>
                                     in (Inr (Some \<lparr>tk_submission = obj q a,
                                                    tk_sourceHostId = qs_sourceHostId (obj q a),
                                                    tk_index = i, tk_pausedReason = tq_pausedReason st\<rparr>),
                                         prune t st' (put_state t st' q)))
                          | _ \<Rightarrow> (thrown, q))))
      | _ \<Rightarrow> (Inr None, q))"

definition acceptSteered :: "string \<Rightarrow> taken_submission \<Rightarrow> queue \<Rightarrow> queue" where
  "acceptSteered t taken q =
     (let m = js_set (qs_id (tk_submission taken)) t (qu_acceptedSteers q)
      in q\<lparr>qu_acceptedSteers := drop (length m - 128) m\<rparr>)"

definition restore :: "string \<Rightarrow> taken_submission \<Rightarrow> queue \<Rightarrow> queue" where
  "restore t taken q =
     (let (st, q1) =
            (case js_get (qu_states q) t of
               Some st \<Rightarrow> (st, q)
             | None \<Rightarrow>
                 (let st = \<lparr>tq_items = [], tq_pausedReason = tk_pausedReason taken\<rparr>
                  in (st, put_state t st q)))
      in if qs_id (tk_submission taken) \<in> set (List.map (\<lambda>a. qs_id (obj q1 a)) (tq_items st)) then q1
         else
           put_state t
             (st\<lparr>tq_items := splice_in (min (tk_index taken) (length (tq_items st)))
                              (length (qu_heap q1)) (tq_items st)\<rparr>)
             (q1\<lparr>qu_heap := qu_heap q1 @ [tk_submission taken]\<rparr>))"

definition queue_pause :: "string \<Rightarrow> paused_reason \<Rightarrow> queue \<Rightarrow> bool \<times> queue" where
  "queue_pause t reason q =
     (case js_get (qu_states q) t of
        None \<Rightarrow> (False, q)
      | Some st \<Rightarrow>
          if tq_items st = [] \<or> tq_pausedReason st = Some reason then (False, q)
          else (True, put_state t (st\<lparr>tq_pausedReason := Some reason\<rparr>) q))"

definition queue_resume :: "string \<Rightarrow> queue \<Rightarrow> bool \<times> queue" where
  "queue_resume t q =
     (case js_get (qu_states q) t of
        None \<Rightarrow> (False, q)
      | Some st \<Rightarrow>
          if tq_pausedReason st = None then (False, q)
          else (True, put_state t (st\<lparr>tq_pausedReason := None\<rparr>) q))"

definition queue_clear :: "string \<Rightarrow> queue \<Rightarrow> queue" where
  "queue_clear t q =
     q\<lparr>qu_states := js_delete t (qu_states q),
       qu_receipts := filter (\<lambda>(key, _). \<not> starts_with (t @ [CHR 0x00]) key) (qu_receipts q),
       qu_acceptedSteers := filter (\<lambda>(_, owner). owner \<noteq> t) (qu_acceptedSteers q)\<rparr>"

end
