(* ===== verification/ThreadQueueFlows.thy ===== *)
theory ThreadQueueFlows
  imports ThreadQueueProps "HOL-Library.Multiset"
begin

text \<open>
  What a client sees of the queue of an External Thread: retries, permutations, steering that
  fails, and the one place where two messages share their content.
\<close>

lemma queue_ids_unique_witness:
  "distinct (List.map qs_id (items_of (fst (foldl (queue_step nat_string (\<lambda>_. None)) (new_queue, [])
     [QAdd ''t'' [] None None None, QAdd ''t'' [] (Some ''m'') None None, QReorder ''t'' [''2'', ''0'']])) ''t''))"
  using queue_ids_unique [OF inj_nat_string prod.collapse [symmetric]] by blast

subsection \<open>Retries\<close>

text \<open>Operations that neither edit a message nor touch the receipts.\<close>

fun keeps_receipts :: "queue_op \<Rightarrow> bool" where
  "keeps_receipts (QAdd _ _ _ _ _) = False"
| "keeps_receipts (QUpdate _ _ _ _) = False"
| "keeps_receipts (QClear _) = False"
| "keeps_receipts _ = True"

lemma step_keeps_receipts:
  "keeps_receipts e \<Longrightarrow>
   qu_receipts (fst (queue_step uuid plain w e)) = qu_receipts (fst w) \<and>
   (\<exists>xs. qu_heap (fst (queue_step uuid plain w e)) = qu_heap (fst w) @ xs)"
  by (cases w; cases e)
     (auto simp: queue_delete_def queue_reorder_def takeSteered_def acceptSteered_def restore_def
      queue_pause_def queue_resume_def put_state_def put_obj_def prune_def Let_def
      split: option.split sum.split json.split list.split)

lemma run_keeps_receipts:
  "\<forall>e \<in> set es. keeps_receipts e \<Longrightarrow>
   qu_receipts (fst (foldl (queue_step uuid plain) w es)) = qu_receipts (fst w) \<and>
   (\<exists>xs. qu_heap (fst (foldl (queue_step uuid plain) w es)) = qu_heap (fst w) @ xs)"
proof (induction es rule: rev_induct)
  case (snoc e es)
  then show ?case
    using step_keeps_receipts [of e uuid plain "foldl (queue_step uuid plain) w es"] by fastforce
qed simp

text \<open>The state right after an \<open>add\<close> that stored a message under its receipt.\<close>

lemma add_receipt:
  assumes ok: "queue_ok uuid q" and add: "queue_add u m t i (Some c) p h q = (Inr s, q')" and c: "c \<noteq> []"
  obtains a where "js_get (qu_receipts q') (receiptKey t c) = Some a" "a < length (qu_heap q')"
    "obj q' a = s" "qs_input s = i" "qs_presentationInput s = p"
proof (cases "js_get (qu_receipts q) (receiptKey t c)")
  case (Some a)
  have "a < length (qu_heap q)" using queue_okD(6) [OF ok Some] .
  then show ?thesis
    using add c Some that by (auto simp: queue_add_def truthy_text_def Let_def split: if_splits)
next
  case None
  obtain st q1 where e: "ensure_state t q = (st, q1)" by fastforce
  have r: "qu_receipts q1 = qu_receipts q" using ensure_state_ok(4) [OF ok, of t] e by simp
  have get: "js_get (evict_oldest 256 (js_set (receiptKey t c) a (qu_receipts q))) (receiptKey t c) = Some a" for a
    using receipts.push_get [OF queue_okD(7,2) [OF ok]] .
  show ?thesis
    using add c None that by (auto simp: queue_add_def truthy_text_def Let_def e put_state_def r get split: if_splits)
qed


definition sample_queue :: queue where
  "sample_queue = fst (foldl (queue_step nat_string (\<lambda>_. Some [])) (new_queue, [])
     [QAdd ''t'' [JInt 1] (Some ''m'') None None, QAdd ''t'' [JInt 2] (Some ''n'') None None,
      QAdd ''t'' [JInt 3] None None None])"

lemma sample_queue_ok: "queue_ok nat_string sample_queue"
  using world_run_ok [OF inj_nat_string, of "(new_queue, [])"] new_queue_ok
  unfolding sample_queue_def by (simp add: world_ok_def del: foldl_Cons)


subsection \<open>Reordering\<close>

lemma other_snapshot: "t' \<noteq> t \<Longrightarrow> snapshot (put_state t st q) t' = snapshot q t'"
  by (simp add: snapshot_def items_of_def paused_of_def put_state_def cong: option.case_cong)

text \<open>
  \<open>reorder\<close> succeeds exactly on distinct ids of queued messages; then those messages come
  first, in the order named, the others follow in their old order, nothing is lost or
  duplicated, the pause survives and no other Thread changes. Otherwise it returns false and
  changes nothing.
\<close>

theorem queue_reorder_permutes:
  assumes "queue_ok uuid q"
  shows "if distinct is \<and> set is \<subseteq> qs_id ` set (items_of q t)
    then \<exists>q'. queue_reorder t is q = (True, q') \<and>
      snapshot q' t = (List.map (\<lambda>i. the (queue_find q t i)) is @ filter (\<lambda>s. qs_id s \<notin> set is) (items_of q t),
                       paused_of q t) \<and>
      mset (items_of q' t) = mset (items_of q t) \<and> (\<forall>t'. t' \<noteq> t \<longrightarrow> snapshot q' t' = snapshot q t')
    else queue_reorder t is q = (False, q)"
proof (cases "js_get (qu_states q) t")
  case None
  then show ?thesis by (auto simp: queue_reorder_def items_of_def snapshot_def paused_of_def)
next
  case (Some st)
  let ?id = "\<lambda>a. qs_id (obj q a)" and ?xs = "tq_items st"
  let ?get = "\<lambda>i. the (find (\<lambda>a. ?id a = i) ?xs)" and ?rest = "filter (\<lambda>a. ?id a \<notin> set is) ?xs"
  have items: "items_of q t = List.map (obj q) ?xs" by (simp add: items_of_def Some)
  have d: "distinct (List.map ?id ?xs)" using queue_okD(5) [OF assms Some] by (simp add: state_ok_def)
  show ?thesis
  proof (cases "distinct is \<and> set is \<subseteq> ?id ` set ?xs")
    case True
    define q' where "q' = put_state t (st\<lparr>tq_items := List.map ?get is @ ?rest\<rparr>) q"
    have r: "queue_reorder t is q = (True, q')" using True by (simp add: queue_reorder_eq [OF assms Some] q'_def)
    have f: "?get i \<in> set ?xs \<and> ?id (?get i) = i" if "i \<in> set is" for i
      using that True find_distinct [OF d] by auto
    then have "obj q (?get i) = the (queue_find q t i)" if "i \<in> set is" for i
      using that True find_distinct [OF d] by (auto simp: queue_find_map [OF Some])
    then have i': "items_of q' t =
        List.map (\<lambda>i. the (queue_find q t i)) is @ filter (\<lambda>s. qs_id s \<notin> set is) (items_of q t)"
      by (simp add: items q'_def) (simp add: items_of_def put_state_def filter_map comp_def)
    have "distinct (List.map ?get is)"
      using True f by (simp add: distinct_map inj_on_inverseI [of "set is" ?id ?get])
    moreover have "set (List.map ?get is) = {a \<in> set ?xs. ?id a \<in> set is}"
    proof (intro equalityI subsetI)
      fix a assume a: "a \<in> {a \<in> set ?xs. ?id a \<in> set is}"
      then have "?get (?id a) = a" using find_distinct [OF d, of a] by simp
      then show "a \<in> set (List.map ?get is)" 
        unfolding list.set_map by (intro image_eqI [where x = "?id a"]) (use a in auto)
    qed (use f in auto)
    ultimately have "mset (List.map ?get is) = mset (filter (\<lambda>a. ?id a \<in> set is) ?xs)"
      using d by (intro set_eq_iff_mset_eq_distinct [THEN iffD1]) (auto simp: distinct_map)
    then have "mset (List.map ?get is @ ?rest) = mset ?xs"
      unfolding mset_append by (simp only: mset_filter multiset_partition [symmetric])
    then have "image_mset (obj q) (mset (List.map ?get is @ ?rest)) = image_mset (obj q) (mset ?xs)"
      by (rule arg_cong)
    then have m: "mset (items_of q' t) = mset (items_of q t)"
      unfolding items by (simp only: q'_def items_of_def put_state_def) (simp add: multiset.map_comp)
    have "paused_of q' t = paused_of q t" by (simp add: q'_def paused_of_def put_state_def Some)
    then have "snapshot q' t = (List.map (\<lambda>i. the (queue_find q t i)) is @ filter (\<lambda>s. qs_id s \<notin> set is) (items_of q t),
        paused_of q t)"
      using i' by (simp only: snapshot_def)
    moreover have "\<forall>t'. t' \<noteq> t \<longrightarrow> snapshot q' t' = snapshot q t'" by (simp add: q'_def other_snapshot)
    moreover have c: "distinct is \<and> set is \<subseteq> qs_id ` set (items_of q t)" using True by (simp add: items image_image)
    ultimately show ?thesis unfolding if_P [OF c] using r m by blast
  next
    case False
    then show ?thesis by (auto simp: queue_reorder_eq [OF assms Some] items image_image)
  qed
qed


lemma queue_reorder_permutes_witness:
  "\<exists>q'. queue_reorder ''t'' [''4'', ''0''] sample_queue = (True, q') \<and>
     List.map qs_input (items_of q' ''t'') = [[JInt 3], [JInt 1], [JInt 2]]"
proof -
  have "distinct [''4'', ''0''] \<and> set [''4'', ''0''] \<subseteq> qs_id ` set (items_of sample_queue ''t'')" by code_simp
  moreover have "List.map qs_input (List.map (\<lambda>i. the (queue_find sample_queue ''t'' i)) [''4'', ''0''] @
      filter (\<lambda>s. qs_id s \<notin> set [''4'', ''0'']) (items_of sample_queue ''t'')) = [[JInt 3], [JInt 1], [JInt 2]]"
    by code_simp
  ultimately show ?thesis
    using queue_reorder_permutes [OF sample_queue_ok, of "[''4'', ''0'']" "''t''"]
    unfolding snapshot_def prod.inject if_P by metis
qed

subsection \<open>Steering\<close>

lemma snapshot_prune:
  "js_get (qu_states q) t = Some st \<Longrightarrow> items_of (prune t st q) t = List.map (obj q) (tq_items st)"
  by (auto simp: prune_def items_of_def)

text \<open>
  C12. A message taken for steering that could not be delivered goes back exactly where it was:
  after \<open>takeSteered\<close> and \<open>restore\<close> the Thread lists the same messages in the same order with
  the same pause, even when the take had emptied and dropped the queue; meanwhile the taken
  message is not listed, and no other Thread is touched.
\<close>

theorem steer_restore_round_trip:
  assumes "queue_ok uuid q" and "takeSteered plain t c i q = (Inr (Some taken), q')"
  shows "snapshot (restore t taken q') t = snapshot q t \<and>
    tk_submission taken \<notin> set (items_of q' t) \<and> tk_submission taken \<in> set (items_of q t) \<and>
    (\<forall>t'. t' \<noteq> t \<longrightarrow> snapshot (restore t taken q') t' = snapshot q t')"
proof (rule takeSteered_Some [OF assms(2)])
  fix st a k
  assume st: "js_get (qu_states q) t = Some st" and k: "index_of a (tq_items st) = Some k"
    and taken: "taken = \<lparr>tk_submission = obj q a, tk_sourceHostId = qs_sourceHostId (obj q a), tk_index = k,
           tk_pausedReason = tq_pausedReason st\<rparr>"
    and q': "q' = prune t (st\<lparr>tq_items := splice_out k (tq_items st)\<rparr>)
           (put_state t (st\<lparr>tq_items := splice_out k (tq_items st)\<rparr>) q)"
  let ?xs = "tq_items st" and ?rest = "splice_out k (tq_items st)"
  have k': "k < length ?xs" "?xs ! k = a" using index_of_Some [OF k] by auto
  have ok: "\<forall>b \<in> set ?xs. b < length (qu_heap q)" "distinct (List.map (\<lambda>b. qs_id (obj q b)) ?xs)"
    using queue_okD(5) [OF assms(1) st] by (simp_all add: state_ok_def)
  have heap: "qu_heap q' = qu_heap q" by (simp add: q' prune_def put_state_def)
  have bck: "splice_in k a ?rest = ?xs" using splice_in_out k' by metis
  have "distinct (List.map (\<lambda>b. qs_id (obj q b)) (splice_in k a ?rest))" using ok(2) bck by simp
  then have fresh: "qs_id (obj q a) \<notin> (\<lambda>b. qs_id (obj q b)) ` set ?rest" by (simp add: map_splice_in)
  have len: "min k (length ?rest) = k" using k'(1) by (simp add: length_splice_out)
  have old: "\<forall>b \<in> set ?rest. b < length (qu_heap q)" using ok(1) set_splice_out_subset by fastforce
  have new: "List.map ((!) (qu_heap q @ [obj q a])) (splice_in k (length (qu_heap q)) ?rest) = List.map (obj q) ?xs"
    using old by (subst bck [symmetric]) (auto simp: map_splice_in nth_append intro!: arg_cong2 [where f = "splice_in k"])
  have nil: "splice_in j x [] = [x]" for j and x :: nat by (simp add: splice_in_def)
  have here: "snapshot (restore t taken q') t = snapshot q t"
    using new fresh
    by (auto simp: q' prune_def restore_def put_state_def snapshot_def items_of_def paused_of_def taken st len Let_def nil
        image_iff)
  have there: "snapshot (restore t taken q') t' = snapshot q t'" if "t' \<noteq> t" for t'
  proof -
    have "\<forall>b \<in> set (tq_items s). b < length (qu_heap q)" if "js_get (qu_states q) t' = Some s" for s
      using queue_okD(5) [OF assms(1) that] by (simp add: state_ok_def)
    then show ?thesis using that
      by (auto simp: q' prune_def restore_def put_state_def snapshot_def items_of_def paused_of_def taken Let_def
          nth_append split: option.split)
  qed
  have "items_of q' t = List.map (obj q) ?rest"
    by (auto simp: q' prune_def put_state_def items_of_def)
  then have "obj q a \<notin> set (items_of q' t)" using fresh by auto
  then show ?thesis using here there k' by (auto simp: taken items_of_def st)
qed

lemma steer_restore_round_trip_witness:
  "snapshot (restore ''t'' (projr (map_sum id the (fst (takeSteered (\<lambda>_. Some []) ''t'' (Some (JStr ''n'')) JNull sample_queue))))
      (snd (takeSteered (\<lambda>_. Some []) ''t'' (Some (JStr ''n'')) JNull sample_queue))) ''t'' = snapshot sample_queue ''t''"
proof -
  have "takeSteered (\<lambda>_. Some []) ''t'' (Some (JStr ''n'')) JNull sample_queue =
      (Inr (Some (projr (map_sum id the (fst (takeSteered (\<lambda>_. Some []) ''t'' (Some (JStr ''n'')) JNull sample_queue))))),
       snd (takeSteered (\<lambda>_. Some []) ''t'' (Some (JStr ''n'')) JNull sample_queue))"
    by code_simp
  from steer_restore_round_trip [OF sample_queue_ok this] show ?thesis by blast
qed

definition two_messages :: queue where
  "two_messages = fst (foldl (queue_step nat_string (\<lambda>_. Some [])) (new_queue, [])
     [QAdd ''t'' [JInt 1] None None None, QAdd ''t'' [JInt 2] (Some ''1'') None None])"

text \<open>
  Message ids keep a retry from overwriting another message only while both carried one: a
  message queued without an id of its own gets a random one, and a later request may send that
  id; then editing the first message replaces the content of the second as well.
\<close>

theorem queue_update_overwrites_other:
  "List.map qs_input (items_of two_messages ''t'') = [[JInt 1], [JInt 2]] \<and>
   List.map qs_input (items_of (snd (queue_update ''t'' ''0'' [JInt 9] None two_messages)) ''t'') = [[JInt 9], [JInt 9]]"
  by code_simp

lemma starts_with_iff: "starts_with p s \<longleftrightarrow> (\<exists>r. s = p @ r)"
  by (auto simp: starts_with_def) (metis append_take_drop_id)

lemma map_of_filter_key: "map_of (filter (\<lambda>(k, _). P k) m) k = (if P k then map_of m k else None)"
  by (induction m) auto

lemma takeWhile_not_in: "x \<notin> set xs \<Longrightarrow> takeWhile (\<lambda>y. y \<noteq> x) (xs @ x # ys) = xs"
  by (induction xs) auto

lemma receiptKey_prefix:
  assumes "CHR 0x00 \<notin> set t" and "CHR 0x00 \<notin> set t'"
  shows "starts_with (t @ [CHR 0x00]) (receiptKey t' c) \<longleftrightarrow> t = t'"
proof
  assume "starts_with (t @ [CHR 0x00]) (receiptKey t' c)"
  then obtain r where "t' @ CHR 0x00 # c = t @ CHR 0x00 # r" by (auto simp: starts_with_iff receiptKey_def)
  then have "takeWhile (\<lambda>x. x \<noteq> CHR 0x00) (t' @ CHR 0x00 # c) = takeWhile (\<lambda>x. x \<noteq> CHR 0x00) (t @ CHR 0x00 # r)" by simp
  then show "t = t'" using assms by (simp add: takeWhile_not_in)
qed (simp add: starts_with_iff receiptKey_def)

text \<open>
  Clearing one Thread forgets its messages, receipts and accepted steers and leaves every
  other Thread alone, for Thread ids without a NUL character.
\<close>

theorem queue_clear_isolates:
  assumes "queue_ok uuid q" and "CHR 0x00 \<notin> set t" and "CHR 0x00 \<notin> set t'"
  shows "snapshot (queue_clear t q) t' = (if t' = t then ([], None) else snapshot q t') \<and>
    js_get (qu_receipts (queue_clear t q)) (receiptKey t' c) =
      (if t' = t then None else js_get (qu_receipts q) (receiptKey t' c)) \<and>
    (js_get (qu_acceptedSteers (queue_clear t q)) x = Some t' \<longleftrightarrow>
      t' \<noteq> t \<and> js_get (qu_acceptedSteers q) x = Some t')"
proof -
  have key: "js_get (qu_receipts (queue_clear t q)) (receiptKey t' c) =
      (if t' = t then None else js_get (qu_receipts q) (receiptKey t' c))"
    using map_of_filter_key [of "\<lambda>k. \<not> starts_with (t @ [CHR 0x00]) k" "qu_receipts q" "receiptKey t' c"]
      receiptKey_prefix [OF assms(2,3), of c]
    by (auto simp: queue_clear_def case_prod_beta')
  have "distinct (js_keys (qu_acceptedSteers q))" using queue_okD(3) [OF assms(1)] .
  then have "js_get (qu_acceptedSteers (queue_clear t q)) x = Some t' \<longleftrightarrow>
      t' \<noteq> t \<and> js_get (qu_acceptedSteers q) x = Some t'"
    by (auto simp: queue_clear_def distinct_keys_filter)
  moreover have "snapshot (queue_clear t q) t' = (if t' = t then ([], None) else snapshot q t')"
    by (simp add: snapshot_def items_of_def paused_of_def queue_clear_def cong: option.case_cong)
  ultimately show ?thesis using key by blast
qed

lemma queue_clear_isolates_witness:
  "snapshot (queue_clear ''s'' sample_queue) ''t'' = snapshot sample_queue ''t''"
  using queue_clear_isolates [OF sample_queue_ok, of "''s''" "''t''"] by simp

end
