(* ===== verification/JsonRoundTrip.thy ===== *)
theory JsonRoundTrip
  imports JsonText
begin

text \<open>Printed JSON text, and its base64url form, read back as the value that was printed.\<close>

subsection \<open>base64url\<close>

lemma of_char_of_small: "n < 256 \<Longrightarrow> (of_char (char_of n) :: nat) = n"
  by simp

lemma b64_value_char: "n < 64 \<Longrightarrow> b64_value (b64_char n) = Some n"
  unfolding b64_value_def b64_char_def Let_def by (auto simp: of_char_of_small)

lemma b64_char_not_eq: "b64_char n \<noteq> CHR ''='' \<or> 64 \<le> n"
proof -
  have "b64_value (CHR ''='') = None" by (simp add: b64_value_def)
  then show ?thesis using b64_value_char [of n] by (cases "n < 64") auto
qed

lemma b64_small: "n < 64 \<Longrightarrow> b64_char n \<noteq> CHR ''=''"
  using b64_char_not_eq [of n] by auto

definition b64_values :: "string \<Rightarrow> nat list" where
  "b64_values s = List.map_filter b64_value (takeWhile (\<lambda>c. c \<noteq> CHR ''='') s)"

lemma b64_values_Cons: "n < 64 \<Longrightarrow> b64_values (b64_char n # s) = n # b64_values s"
  by (simp add: b64_values_def b64_small b64_value_char map_filter_simps)

lemma b64_values_Nil: "b64_values [] = []"
  by (simp add: b64_values_def map_filter_simps)

lemma b64_decode_values: "b64_decode s = b64_bytes (b64_values s)"
  by (simp add: b64_decode_def b64_values_def)

lemma sextet_bounds:
  fixes a b c :: nat
  assumes "a < 256" "b < 256" "c < 256"
  shows "a div 4 < 64" "a mod 4 * 16 < 64" "a mod 4 * 16 + b div 16 < 64" "b mod 16 * 4 < 64"
    "b mod 16 * 4 + c div 64 < 64" "c mod 64 < 64"
  using assms by (auto simp: less_mult_imp_div_less)

lemma octet_back:
  fixes a b c :: nat
  assumes "a < 256" "b < 256" "c < 256"
  shows "a div 4 * 4 + (a mod 4 * 16 + b div 16) div 16 = a"
    "(a mod 4 * 16 + b div 16) mod 16 * 16 + (b mod 16 * 4 + c div 64) div 4 = b"
    "(b mod 16 * 4 + c div 64) mod 4 * 64 + c mod 64 = c"
    "a div 4 * 4 + a mod 4 * 16 div 16 = a"
    "(a mod 4 * 16 + b div 16) mod 16 * 16 + b mod 16 * 4 div 4 = b"
proof -
  have "b div 16 < 16" "c div 64 < 4" using assms by auto
  then have e: "(a mod 4 * 16 + b div 16) div 16 = a mod 4" "(a mod 4 * 16 + b div 16) mod 16 = b div 16"
    "(b mod 16 * 4 + c div 64) div 4 = b mod 16" "(b mod 16 * 4 + c div 64) mod 4 = c div 64"
    by auto
  show "a div 4 * 4 + (a mod 4 * 16 + b div 16) div 16 = a"
    "(a mod 4 * 16 + b div 16) mod 16 * 16 + (b mod 16 * 4 + c div 64) div 4 = b"
    "(b mod 16 * 4 + c div 64) mod 4 * 64 + c mod 64 = c"
    "a div 4 * 4 + a mod 4 * 16 div 16 = a"
    "(a mod 4 * 16 + b div 16) mod 16 * 16 + b mod 16 * 4 div 4 = b"
    unfolding e by simp_all
qed

lemma b64_round_trip: "\<forall>b \<in> set bs. b < 256 \<Longrightarrow> b64_bytes (b64_values (b64_encode bs)) = bs"
proof (induction bs rule: b64_encode.induct)
  case 1
  then show ?case by (simp add: b64_values_Nil)
next
  case (2 a)
  then show ?case
    using sextet_bounds(1,2) [of a 0 0] octet_back(4) [of a 0 0] by (simp add: b64_values_Cons b64_values_Nil)
next
  case (3 a b)
  then show ?case
    using sextet_bounds(1,3,4) [of a b 0] octet_back(1,5) [of a b 0] by (simp add: b64_values_Cons b64_values_Nil)
next
  case (4 a b c bs)
  then have lt: "a < 256" "b < 256" "c < 256" and ih: "b64_bytes (b64_values (b64_encode bs)) = bs" by simp_all
  show ?case
    by (simp only: b64_encode.simps append.simps b64_values_Cons sextet_bounds [OF lt] octet_back [OF lt]
        b64_bytes.simps ih)
qed

lemma of_char_small: "(of_char c :: nat) < 256"
  by simp

lemma utf8_bytes: "b \<in> set (utf8 s) \<Longrightarrow> b < 256"
proof -
  have "b < 256" if "b \<in> set (utf8_char c)" for c
  proof -
    have "(of_char c :: nat) div 64 < 4" using of_char_small [of c] by (intro less_mult_imp_div_less) simp
    then show ?thesis using that by (auto simp: utf8_char_def Let_def split: if_splits)
  qed
  then show "b \<in> set (utf8 s) \<Longrightarrow> ?thesis" by (auto simp: utf8_def)
qed

lemma utf8_decode_Cons:
  "b < 128 \<Longrightarrow> utf8_decode (b # bs) = map_option ((#) (char_of b)) (utf8_decode bs)"
  by (cases bs) auto

lemma utf8_decode_char: "utf8_decode (utf8_char c @ bs) = map_option ((#) c) (utf8_decode bs)"
proof (cases "(of_char c :: nat) < 128")
  case True
  then show ?thesis by (simp add: utf8_char_def Let_def utf8_decode_Cons)
next
  case False
  let ?n = "of_char c :: nat"
  have "m div 64 = 2 \<or> m div 64 = 3" if "128 \<le> m" "m < 256" for m :: nat
  proof -
    have "m div 64 < 4" using that(2) by (intro less_mult_imp_div_less) simp
    moreover have "128 div 64 \<le> m div 64" using that(1) by (rule div_le_mono)
    ultimately show ?thesis by auto
  qed
  then have "?n div 64 = 2 \<or> ?n div 64 = 3" using False of_char_small [of c] by (simp only: not_less)
  then have b: "(192 + ?n div 64 = 194 \<or> 192 + ?n div 64 = 195) \<and> 128 \<le> 128 + ?n mod 64 \<and> 128 + ?n mod 64 < 192"
    by auto
  have "(192 + ?n div 64 - 192) * 64 + (128 + ?n mod 64 - 128) = ?n"
    by (simp only: diff_add_inverse div_mult_mod_eq)
  then have c: "char_of ((192 + ?n div 64 - 192) * 64 + (128 + ?n mod 64 - 128)) = c"
    by (simp only: char_of_char)
  have "utf8_char c = [192 + ?n div 64, 128 + ?n mod 64]" using False by (simp add: utf8_char_def Let_def)
  moreover have "\<not> 192 + ?n div 64 < 128" by simp
  ultimately show ?thesis
    using b by (simp only: append.simps utf8_decode.simps c if_True if_False simp_thms)
qed

lemma utf8_round_trip: "utf8_decode (utf8 s) = Some s"
  by (induction s) (simp_all add: utf8_def utf8_decode_char)

subsection \<open>String literals\<close>

lemma hex_value_digit: "n < 16 \<Longrightarrow> hex_value (hex_digit n) = Some n"
  by (auto simp: hex_value_def hex_digit_def digit_char_def Let_def)

lemma char_eq_of: "c = d \<longleftrightarrow> (of_char c :: nat) = of_char d"
  by simp

lemma read_escape:
  "\<exists>d t. escape_char c = d # t \<and> d \<noteq> CHR 0x22 \<and> (\<forall>r. read_char d (t @ r) = Some (c, r))"
proof -
  let ?n = "of_char c :: nat"
  have c: "c = char_of ?n" by simp
  consider "?n = 34" | "?n = 92" | "?n = 8" | "?n = 9" | "?n = 10" | "?n = 12" | "?n = 13"
    | "?n < 32" "?n \<notin> {8, 9, 10, 12, 13}" | "32 \<le> ?n" "?n \<noteq> 34" "?n \<noteq> 92" by fastforce
  then show ?thesis
  proof cases
    case 8
    have h: "hex4 (CHR ''0'') (CHR ''0'') (hex_digit (?n div 16)) (hex_digit (?n mod 16)) = Some ?n"
      using 8 by (simp add: hex4_def hex_value_digit) (simp add: hex_value_def)
    show ?thesis using 8 h by (simp add: escape_char_def read_char_def Let_def)
  next
    case 9
    then have "c \<noteq> CHR 0x22" "c \<noteq> CHR 0x5C" by auto
    then show ?thesis using 9 by (simp add: escape_char_def read_char_def Let_def)
  qed (auto simp: escape_char_def read_char_def short_escape_def Let_def char_of_eq_iff char_eq_of [of _ "CHR ''b''"]
      char_eq_of [of _ c] simp del: of_char_eq_iff)
qed

lemma read_chars_escaped:
  "length (concat (List.map escape_char s)) < n \<Longrightarrow>
   read_chars n (concat (List.map escape_char s) @ CHR 0x22 # rest) = Some (s, rest)"
proof (induction s arbitrary: n)
  case Nil
  then show ?case by (cases n) auto
next
  case (Cons c s)
  obtain d t where d: "escape_char c = d # t" "d \<noteq> CHR 0x22" "\<forall>r. read_char d (t @ r) = Some (c, r)"
    using read_escape [of c] by blast
  then obtain m where n: "n = Suc m" "length (concat (List.map escape_char s)) < m"
    using Cons.prems by (cases n) auto
  then show ?case using Cons.IH [OF n(2)] d by simp
qed

lemma read_quoted_text: "read_quoted (quote_text s @ rest) = Some (s, rest)"
  by (simp add: read_quoted_def quote_text_def read_chars_escaped)

subsection \<open>Values\<close>

fun json_plain :: "json \<Rightarrow> bool" and items_plain :: "json list \<Rightarrow> bool"
  and members_plain :: "(string \<times> json) list \<Rightarrow> bool" where
  "json_plain (JFrac s) = False"
| "json_plain (JArr xs) = items_plain xs"
| "json_plain (JObj kvs) = (distinct (List.map fst kvs) \<and> members_plain kvs)"
| "json_plain JNull = True"
| "json_plain (JBool b) = True"
| "json_plain (JInt n) = True"
| "json_plain (JStr s) = True"
| "items_plain [] = True"
| "items_plain (x # xs) = (json_plain x \<and> items_plain xs)"
| "members_plain [] = True"
| "members_plain ((k, v) # kvs) = (json_plain v \<and> members_plain kvs)"

lemma starts_with_Cons: "starts_with (p # ps) s \<longleftrightarrow> (\<exists>t. s = p # t \<and> starts_with ps t)"
  by (cases s) (auto simp: starts_with_def)

lemma nat_string_hd: "is_digit (hd (nat_string n)) \<and> (hd (nat_string n) \<noteq> CHR ''0'' \<or> tl (nat_string n) = [])"
proof (induction n rule: nat_string.induct)
  case (1 n)
  show ?case
  proof (cases "n < 10")
    case True
    then show ?thesis by (subst (1 2 3) nat_string.simps) (simp add: is_digit_digit_char)
  next
    case False
    have z: "hd (nat_string m) \<noteq> CHR ''0''" if "0 < m" for m
      using that
    proof (induction m rule: nat_string.induct)
      case (1 m)
      show ?case
      proof (cases "m < 10")
        case True
        then have "(of_char (digit_char m) :: nat) \<noteq> of_char (CHR ''0'')" using 1 by (simp add: of_digit_char)
        then show ?thesis using True by (subst nat_string.simps) auto
      next
        case False
        then show ?thesis using 1 by (subst nat_string.simps) simp
      qed
    qed
    show ?thesis using False 1 z [of n]
      by (subst nat_string.simps) (simp, use z [of "n div 10"] in \<open>simp add: nat_string.simps [of n]\<close>)
  qed
qed

lemma plain_nat_string: "plain_digits (nat_string n)"
  using nat_string_hd [of n] digits_nat_string [of n] by (simp add: plain_digits_def)

lemma digit_number_char: "is_digit c \<Longrightarrow> number_char c"
  by (simp add: number_char_def)

lemma int_text_chars: "list_all number_char (int_text n)"
  using digits_nat_string [of "nat (- n)"] digits_nat_string [of "nat n"]
  by (auto simp: int_text_def number_char_def list_all_iff)

lemma minus_not_digit: "\<not> is_digit (CHR ''-'')"
  by (simp add: is_digit_def)

lemma json_number_int: "json_number (int_text n) = Some (JInt n)"
proof (cases "n < 0")
  case True
  then show ?thesis
    using plain_nat_string [of "nat (- n)"]
    by (simp add: json_number_def int_text_def Let_def digits_value_nat_string)
next
  case False
  have "hd (nat_string (nat n)) \<noteq> CHR ''-''"
    using nat_string_hd [of "nat n"] minus_not_digit by metis
  then show ?thesis
    using False plain_nat_string [of "nat n"]
    by (simp add: json_number_def int_text_def Let_def digits_value_nat_string)
qed

lemma int_text_hd: "\<exists>c t. int_text n = c # t \<and> (c = CHR ''-'' \<or> is_digit c)"
proof -
  have "int_text n = CHR ''-'' # nat_string (nat (- n)) \<or> int_text n = nat_string (nat n)"
    by (simp add: int_text_def)
  moreover have "\<exists>c t. nat_string m = c # t \<and> is_digit c" for m
    using nat_string_hd [of m] nat_string_not_empty [of m] by (cases "nat_string m") auto
  ultimately show ?thesis by fastforce
qed

definition plain_end :: "string \<Rightarrow> bool" where
  "plain_end rest = (rest = [] \<or> \<not> number_char (hd rest))"

lemma number_split:
  assumes "list_all number_char s" and "plain_end rest"
  shows "takeWhile number_char (s @ rest) = s \<and> dropWhile number_char (s @ rest) = rest"
proof -
  have "takeWhile number_char rest = [] \<and> dropWhile number_char rest = rest"
    using assms(2) by (cases rest) (auto simp: plain_end_def)
  then show ?thesis using assms(1) by (simp add: list_all_iff)
qed

definition value_start :: "char \<Rightarrow> bool" where
  "value_start c = (\<not> json_space c \<and> c \<noteq> CHR '']'' \<and> c \<noteq> CHR ''}'')"

lemma digit_start: "is_digit c \<Longrightarrow> value_start c \<and> c \<noteq> CHR 0x22 \<and> c \<noteq> CHR ''['' \<and> c \<noteq> CHR ''{'' \<and>
   c \<noteq> CHR ''n'' \<and> c \<noteq> CHR ''t'' \<and> c \<noteq> CHR ''f''"
  by (auto simp: is_digit_def value_start_def json_space_def Let_def)

lemma json_text_start: "json_plain v \<Longrightarrow> \<exists>c t. json_text v = c # t \<and> value_start c"
proof (cases v)
  case (JInt n)
  then show ?thesis using int_text_hd [of n] digit_start by (fastforce simp: value_start_def json_space_def)
qed (auto simp: value_start_def json_space_def quote_text_def)

lemma skip_start: "value_start c \<Longrightarrow> skip_space (c # t) = c # t"
  by (simp add: value_start_def skip_space_def)

lemma skip_char: "\<not> json_space c \<Longrightarrow> skip_space (c # t) = c # t"
  by (simp add: skip_space_def)

lemma word_value_int:
  assumes "plain_end rest"
  shows "word_value (int_text n @ rest) = Some (JInt n, rest)"
proof -
  obtain c t where c: "int_text n = c # t" "c = CHR ''-'' \<or> is_digit c" using int_text_hd by blast
  then have "c \<noteq> CHR ''n''" "c \<noteq> CHR ''t''" "c \<noteq> CHR ''f''" using digit_start [of c] by auto
  then have "\<not> starts_with ''null'' (int_text n @ rest)" "\<not> starts_with ''true'' (int_text n @ rest)"
    "\<not> starts_with ''false'' (int_text n @ rest)"
    using c(1) by (auto simp: starts_with_Cons)
  then show ?thesis
    using number_split [OF int_text_chars assms] by (simp add: word_value_def json_number_int)
qed

lemma read_int:
  assumes "plain_end rest" and "0 < n"
  shows "read_value n (int_text i @ rest) = Some (JInt i, rest)"
proof -
  obtain c t where c: "int_text i = c # t" "c = CHR ''-'' \<or> is_digit c" using int_text_hd by blast
  then have "value_start c" "c \<noteq> CHR 0x22" "c \<noteq> CHR ''[''" "c \<noteq> CHR ''{''"
    using digit_start [of c] by (auto simp: value_start_def json_space_def)
  then show ?thesis
    using assms(2) word_value_int [OF assms(1), of i] c(1) by (cases n) (simp_all add: skip_start)
qed

lemma json_space_simps [simp]:
  "\<not> json_space (CHR 0x22)" "\<not> json_space (CHR '','')" "\<not> json_space (CHR '':'')"
  "\<not> json_space (CHR '']'')" "\<not> json_space (CHR ''}'')" "\<not> json_space (CHR ''['')" "\<not> json_space (CHR ''{'')"
  "\<not> json_space (CHR ''n'')" "\<not> json_space (CHR ''t'')" "\<not> json_space (CHR ''f'')"
  by (simp_all add: json_space_def)

lemma plain_end_simps [simp]:
  "plain_end []" "plain_end (CHR '','' # s)" "plain_end (CHR '']'' # s)" "plain_end (CHR ''}'' # s)"
  by (simp_all add: plain_end_def number_char_def is_digit_def)

lemma word_values:
  "word_value (''null'' @ rest) = Some (JNull, rest)"
  "word_value (''true'' @ rest) = Some (JBool True, rest)"
  "word_value (''false'' @ rest) = Some (JBool False, rest)"
  by (simp_all add: word_value_def starts_with_def)

lemma read_value_quoted: "0 < n \<Longrightarrow> read_value n (quote_text s @ rest) = Some (JStr s, rest)"
  using read_quoted_text [of s rest] by (cases n) (simp_all add: quote_text_def skip_char)

lemma read_text:
  "json_plain v \<Longrightarrow> length (json_text v) \<le> n \<Longrightarrow> plain_end rest \<Longrightarrow>
     read_value n (json_text v @ rest) = Some (v, rest)"
  "items_plain xs \<Longrightarrow> xs \<noteq> [] \<Longrightarrow> length (items_text xs) < n \<Longrightarrow>
     read_items n (items_text xs @ CHR '']'' # rest) = Some (xs, rest)"
  "members_plain kvs \<Longrightarrow> kvs \<noteq> [] \<Longrightarrow> length (members_text kvs) < n \<Longrightarrow>
     distinct (List.map fst acc @ List.map fst kvs) \<Longrightarrow>
     read_members n acc (members_text kvs @ CHR ''}'' # rest) = Some (acc @ kvs, rest)"
proof (induction v and xs and kvs arbitrary: n rest and n rest and n rest acc
    rule: json_text_items_text_members_text.induct)
  case 1
  then show ?case using word_values(1) [of rest] by (cases n) (simp_all add: skip_char)
next
  case (2 b)
  then show ?case using word_values(2,3) [of rest] by (cases n; cases b) (simp_all add: skip_char)
next
  case (3 i)
  moreover have "int_text i \<noteq> []" using int_text_hd [of i] by auto
  ultimately have "0 < n" by (cases n) auto
  then show ?case using 3 by (simp add: read_int)
next
  case (4 s)
  then show ?case by simp
next
  case (5 s)
  then have "0 < n" by (cases n) (simp_all add: quote_text_def)
  then show ?case by (simp add: read_value_quoted)
next
  case (6 xs)
  obtain m where n: "n = Suc m" using "6.prems" by (cases n) auto
  show ?case
  proof (cases xs)
    case Nil
    then show ?thesis using n by (simp add: skip_char)
  next
    case (Cons x ys)
    obtain c t where c: "json_text x = c # t" "value_start c"
      using json_text_start [of x] "6.prems"(1) Cons by auto
    have "read_items m (items_text xs @ CHR '']'' # rest) = Some (xs, rest)"
      by (rule "6.IH") (use "6.prems" n Cons in auto)
    then show ?thesis
      using n Cons c by (simp add: skip_char skip_start value_start_def)
  qed
next
  case (7 kvs)
  obtain m where n: "n = Suc m" using "7.prems" by (cases n) auto
  show ?case
  proof (cases kvs)
    case Nil
    then show ?thesis using n by (simp add: skip_char)
  next
    case (Cons x ys)
    obtain k w where x: "x = (k, w)" by fastforce
    have "read_members m [] (members_text kvs @ CHR ''}'' # rest) = Some ([] @ kvs, rest)"
      by (rule "7.IH") (use "7.prems" n Cons in auto)
    then show ?thesis
      using n Cons x by (simp add: skip_char quote_text_def)
  qed
next
  case 8
  then show ?case by simp
next
  case (9 x xs)
  obtain m where n: "n = Suc m" using "9.prems" by (cases n) auto
  show ?case
  proof (cases "xs = []")
    case True
    have "read_value m (json_text x @ CHR '']'' # rest) = Some (x, CHR '']'' # rest)"
      by (rule "9.IH"(1)) (use "9.prems" n True in auto)
    then show ?thesis using n True by (simp add: skip_char)
  next
    case False
    have v: "read_value m (json_text x @ CHR '','' # items_text xs @ CHR '']'' # rest) =
        Some (x, CHR '','' # items_text xs @ CHR '']'' # rest)"
      by (rule "9.IH"(1)) (use "9.prems" n False in auto)
    have "read_items m (items_text xs @ CHR '']'' # rest) = Some (xs, rest)"
      by (rule "9.IH"(2)) (use "9.prems" n False in auto)
    then show ?thesis using n v False by (simp add: skip_char)
  qed
next
  case 10
  then show ?case by simp
next
  case (11 k v kvs)
  obtain m where n: "n = Suc m" using "11.prems" by (cases n) auto
  have q: "read_quoted (quote_text k @ r) = Some (k, r)" for r by (rule read_quoted_text)
  have sk: "skip_space (quote_text k @ r) = quote_text k @ r" for r by (simp add: quote_text_def skip_char)
  have k: "k \<notin> set (js_keys acc)" using "11.prems"(4) by auto
  show ?case
  proof (cases "kvs = []")
    case True
    have "read_value m (json_text v @ CHR ''}'' # rest) = Some (v, CHR ''}'' # rest)"
      by (rule "11.IH"(1)) (use "11.prems" n True in auto)
    then show ?thesis using n True k by (simp add: skip_char q sk js_set_absent)
  next
    case False
    have v: "read_value m (json_text v @ CHR '','' # members_text kvs @ CHR ''}'' # rest) =
        Some (v, CHR '','' # members_text kvs @ CHR ''}'' # rest)"
      by (rule "11.IH"(1)) (use "11.prems" n False in auto)
    have "read_members m (acc @ [(k, v)]) (members_text kvs @ CHR ''}'' # rest) = Some ((acc @ [(k, v)]) @ kvs, rest)"
      by (rule "11.IH"(2)) (use "11.prems" n False in auto)
    then show ?thesis using n v False k by (simp add: skip_char q sk js_set_absent)
  qed
qed

lemma json_parse_text: "json_plain v \<Longrightarrow> json_parse (json_text v) = Some v"
  using read_text(1) [of v "Suc (length (json_text v))" "[]"]
  by (simp add: json_parse_def skip_space_def)

lemma base64url_round_trip: "json_plain v \<Longrightarrow> json_base64url (base64url_json v) = Some v"
proof -
  assume p: "json_plain v"
  have "b64_decode (b64_encode (utf8 (json_text v))) = utf8 (json_text v)"
    using b64_round_trip [of "utf8 (json_text v)"] utf8_bytes by (simp add: b64_decode_values)
  then show ?thesis
    using p by (simp add: json_base64url_def base64url_json_def utf8_round_trip json_parse_text)
qed

end
