(* ===== verification/ThreadManagement.thy ===== *)
theory ThreadManagement
  imports JsonRoundTrip
begin

text \<open>
  Decoding of the Thread requests that a client sends:
  \<open>packages/protocol-core/src/thread-management.ts\<close>. A thrown \<open>Error\<close> is its message; \<open>None\<close>
  inside an \<open>Inr\<close> is \<open>null\<close>, a request of another method. \<open>sha256\<close> stands for
  \<open>createHash("sha256")\<close> of \<open>node:crypto\<close>.
\<close>

subsection \<open>Types\<close>

record rpc_request =
  rq_method :: string
  rq_params :: "json option"

datatype sort_direction = Asc | Desc
datatype sort_key = CreatedAt | UpdatedAt | RecencyAt | SectionPosition

record external_anchor =
  an_timestamp :: int
  an_threadId :: string

record host_cursor =
  hc_queryFingerprint :: string
  hc_sortDirection :: sort_direction
  hc_officialCursor :: "string option"
  hc_officialDone :: bool
  hc_externalAnchor :: "external_anchor option"
  hc_externalDone :: bool

record list_request =
  lr_params :: json
  lr_archived :: bool
  lr_cwd :: "string list option"
  lr_isPinned :: "bool option"
  lr_limit :: nat
  lr_modelProviders :: "string list option"
  lr_parentThreadId :: "string option"
  lr_ancestorThreadId :: "string option"
  lr_projectId :: "string option option"
  lr_searchTerm :: "string option"
  lr_sectionId :: "string option option"
  lr_sortDirection :: sort_direction
  lr_sortKey :: sort_key
  lr_sourceKinds :: "string list option"
  lr_useStateDbOnly :: bool
  lr_queryFingerprint :: string
  lr_cursor :: "host_cursor option"
  lr_sectionOffset :: "nat option"
  lr_supportsExternal :: bool

record section_move_request =
  mv_threadId :: string
  mv_sectionId :: "string option"
  mv_beforeThreadId :: "string option"

record git_info_update =
  gp_branch :: "string option option"
  gp_originUrl :: "string option option"
  gp_sha :: "string option option"

record metadata_request =
  mr_threadId :: string
  mr_projectId :: "string option option"
  mr_daybreakEnabled :: "bool option"
  mr_gitInfo :: "git_info_update option"
  mr_unsupportedFields :: "string list"

record official_page =
  op_data :: "json list"
  op_nextCursor :: "string option"
  op_backwardsCursor :: "string option"

definition HOST_CURSOR_PREFIX :: string where
  "HOST_CURSOR_PREFIX = ''codexhost:thread-list:v1:''"

definition SECTION_CURSOR_PREFIX :: string where
  "SECTION_CURSOR_PREFIX = ''codexhost:thread-section-list:v1:''"

definition MAX_CURSOR_LENGTH :: nat where
  "MAX_CURSOR_LENGTH = 65536"

definition THREAD_LIST_FIELDS :: "string list" where
  "THREAD_LIST_FIELDS =
     [''ancestorThreadId'', ''archived'', ''cursor'', ''cwd'', ''isPinned'', ''limit'', ''modelProviders'',
      ''parentThreadId'', ''projectId'', ''searchTerm'', ''sectionId'', ''sortDirection'', ''sortKey'',
      ''sourceKinds'', ''useStateDbOnly'']"

definition THREAD_SOURCE_KINDS :: "string list" where
  "THREAD_SOURCE_KINDS =
     [''cli'', ''vscode'', ''exec'', ''appServer'', ''subAgent'', ''subAgentReview'', ''subAgentCompact'',
      ''subAgentThreadSpawn'', ''subAgentOther'', ''unknown'']"

definition UINT32_MAX :: int where
  "UINT32_MAX = 4294967295"

subsection \<open>Fields\<close>

text \<open>\<open>undefined\<close> and \<open>null\<close> are the same to most fields.\<close>

definition absent :: "json option \<Rightarrow> bool" where
  "absent v = (v = None \<or> v = Some JNull)"

definition paramsObject :: "rpc_request \<Rightarrow> string \<Rightarrow> string + json" where
  "paramsObject request method =
     (case rq_params request of
        Some (JObj kvs) \<Rightarrow> Inr (JObj kvs)
      | None \<Rightarrow> if method = ''thread/list'' then Inr (JObj []) else Inl (method @ '' params must be an object'')
      | _ \<Rightarrow> Inl (method @ '' params must be an object''))"

definition nullableText :: "json option \<Rightarrow> string \<Rightarrow> string + string option" where
  "nullableText value name =
     (if absent value then Inr None
      else case value of Some (JStr s) \<Rightarrow> Inr (Some s) | _ \<Rightarrow> Inl (name @ '' must be text or null''))"

definition nullableBoolean :: "json option \<Rightarrow> string \<Rightarrow> string + bool option" where
  "nullableBoolean value name =
     (if absent value then Inr None
      else case value of Some (JBool b) \<Rightarrow> Inr (Some b) | _ \<Rightarrow> Inl (name @ '' must be boolean or null''))"

fun all_texts :: "json list \<Rightarrow> string list option" where
  "all_texts [] = Some []"
| "all_texts (JStr s # vs) = map_option ((#) s) (all_texts vs)"
| "all_texts (_ # vs) = None"

definition nullableTextArray :: "json option \<Rightarrow> string \<Rightarrow> string + string list option" where
  "nullableTextArray value name =
     (let bad = Inl (name @ '' must be a text array or null'')
      in if absent value then Inr None
         else case value of
                Some (JArr vs) \<Rightarrow> (case all_texts vs of None \<Rightarrow> bad | Some ss \<Rightarrow> Inr (Some ss))
              | _ \<Rightarrow> bad)"

definition decodeCwd :: "json option \<Rightarrow> string + string list option" where
  "decodeCwd value =
     (case value of
        Some (JStr s) \<Rightarrow> Inr (Some [s])
      | _ \<Rightarrow> nullableTextArray value ''thread/list params.cwd'')"

definition decodeLimit :: "json option \<Rightarrow> string + nat" where
  "decodeLimit value =
     (if absent value then Inr 25
      else case value of
             Some (JInt n) \<Rightarrow> if safe_int n \<and> 0 \<le> n \<and> n \<le> UINT32_MAX then Inr (min (nat n) 100)
                              else Inl ''thread/list params.limit must be a uint32 or null''
           | _ \<Rightarrow> Inl ''thread/list params.limit must be a uint32 or null'')"

definition decodeSortKey :: "json option \<Rightarrow> string + sort_key" where
  "decodeSortKey value =
     (if absent value then Inr CreatedAt
      else if value = Some (JStr ''created_at'') then Inr CreatedAt
      else if value = Some (JStr ''updated_at'') then Inr UpdatedAt
      else if value = Some (JStr ''recency_at'') then Inr RecencyAt
      else if value = Some (JStr ''section_position'') then Inr SectionPosition
      else Inl ''thread/list params.sortKey is unsupported'')"

definition decodeSortDirection :: "json option \<Rightarrow> sort_key \<Rightarrow> string + sort_direction" where
  "decodeSortDirection value sortKey =
     (if absent value then Inr (if sortKey = SectionPosition then Asc else Desc)
      else if value = Some (JStr ''asc'') then Inr Asc
      else if value = Some (JStr ''desc'') then Inr Desc
      else Inl ''thread/list params.sortDirection must be 'asc', 'desc', or null'')"

definition direction_text :: "sort_direction \<Rightarrow> string" where
  "direction_text d = (case d of Asc \<Rightarrow> ''asc'' | Desc \<Rightarrow> ''desc'')"

definition sort_key_text :: "sort_key \<Rightarrow> string" where
  "sort_key_text k =
     (case k of CreatedAt \<Rightarrow> ''created_at'' | UpdatedAt \<Rightarrow> ''updated_at'' | RecencyAt \<Rightarrow> ''recency_at''
      | SectionPosition \<Rightarrow> ''section_position'')"

definition opt_text :: "string option \<Rightarrow> json" where
  "opt_text v = (case v of None \<Rightarrow> JNull | Some s \<Rightarrow> JStr s)"

definition opt_bool :: "bool option \<Rightarrow> json" where
  "opt_bool v = (case v of None \<Rightarrow> JNull | Some b \<Rightarrow> JBool b)"

definition opt_texts :: "string list option \<Rightarrow> json" where
  "opt_texts v = (case v of None \<Rightarrow> JNull | Some ss \<Rightarrow> JArr (List.map JStr ss))"

subsection \<open>Cursors\<close>

definition hex64 :: "string \<Rightarrow> bool" where
  "hex64 s = (length s = 64 \<and>
     list_all (\<lambda>c. let n = of_char c :: nat in 97 \<le> n \<and> n \<le> 102 \<or> 48 \<le> n \<and> n \<le> 57) s)"

definition cursorPayload :: "host_cursor \<Rightarrow> json" where
  "cursorPayload value =
     JObj [(''formatVersion'', JInt 1),
           (''queryFingerprint'', JStr (hc_queryFingerprint value)),
           (''sortDirection'', JStr (direction_text (hc_sortDirection value))),
           (''officialCursor'', opt_text (hc_officialCursor value)),
           (''officialDone'', JBool (hc_officialDone value)),
           (''externalAnchor'',
              (case hc_externalAnchor value of
                 None \<Rightarrow> JNull
               | Some a \<Rightarrow> JObj [(''timestamp'', JInt (an_timestamp a)), (''threadId'', JStr (an_threadId a))])),
           (''externalDone'', JBool (hc_externalDone value))]"

definition parse_anchor :: "json \<Rightarrow> string + external_anchor option" where
  "parse_anchor v =
     (if v = JNull then Inr None
      else case (is_record v, jfield v ''timestamp'', jfield v ''threadId'') of
             (True, Some (JInt n), Some (JStr t)) \<Rightarrow>
               if safe_int n \<and> t \<noteq> [] then Inr (Some \<lparr>an_timestamp = n, an_threadId = t\<rparr>)
               else Inl ''Host cursor is invalid''
           | _ \<Rightarrow> Inl ''Host cursor is invalid'')"

definition parseCursorPayload :: "json \<Rightarrow> string + host_cursor" where
  "parseCursorPayload value =
     (let bad = Inl ''Host cursor is invalid'' in
      if \<not> is_record value \<or> jfield value ''formatVersion'' \<noteq> Some (JInt 1) then bad
      else
        (case (jfield value ''queryFingerprint'', jfield value ''sortDirection'', jfield value ''officialCursor'',
               jfield value ''officialDone'', jfield value ''externalDone'') of
           (Some (JStr fingerprint), Some (JStr dir), Some official, Some (JBool officialDone),
            Some (JBool externalDone)) \<Rightarrow>
             if \<not> hex64 fingerprint \<or> (dir \<noteq> ''asc'' \<and> dir \<noteq> ''desc'') then bad
             else
               (case (case official of JNull \<Rightarrow> Some None | JStr c \<Rightarrow> Some (Some c) | _ \<Rightarrow> None) of
                  None \<Rightarrow> bad
                | Some officialCursor \<Rightarrow>
                    (case jfield value ''externalAnchor'' of
                       None \<Rightarrow> bad
                     | Some a \<Rightarrow>
                         bindE (parse_anchor a) (\<lambda>anchor.
                           Inr \<lparr>hc_queryFingerprint = fingerprint,
                                hc_sortDirection = (if dir = ''asc'' then Asc else Desc),
                                hc_officialCursor = officialCursor, hc_officialDone = officialDone,
                                hc_externalAnchor = anchor, hc_externalDone = externalDone\<rparr>)))
         | _ \<Rightarrow> bad))"

definition encodeHostThreadListCursor :: "host_cursor \<Rightarrow> string + string" where
  "encodeHostThreadListCursor value =
     bindE (parseCursorPayload (cursorPayload value)) (\<lambda>parsed.
       Inr (HOST_CURSOR_PREFIX @ base64url_json (cursorPayload parsed)))"

definition decodeHostThreadListCursor :: "string \<Rightarrow> string \<Rightarrow> sort_direction \<Rightarrow> string + host_cursor" where
  "decodeHostThreadListCursor value fingerprint direction =
     (if MAX_CURSOR_LENGTH < length value \<or> \<not> starts_with HOST_CURSOR_PREFIX value
      then Inl ''thread/list cursor is not a codexhost cursor''
      else
        (case json_base64url (drop (length HOST_CURSOR_PREFIX) value) of
           None \<Rightarrow> Inl ''thread/list cursor is invalid''
         | Some decoded \<Rightarrow>
             bindE (parseCursorPayload decoded) (\<lambda>cursor.
               if hc_queryFingerprint cursor \<noteq> fingerprint \<or> hc_sortDirection cursor \<noteq> direction
               then Inl ''thread/list cursor does not match the current query''
               else Inr cursor)))"

definition carriesHostThreadListCursor :: "rpc_request \<Rightarrow> bool" where
  "carriesHostThreadListCursor request =
     (rq_method request = ''thread/list'' \<and>
      (case rq_params request of
         Some (JObj kvs) \<Rightarrow>
           (case map_of kvs ''cursor'' of
              Some (JStr cursor) \<Rightarrow>
                starts_with HOST_CURSOR_PREFIX cursor \<or> starts_with SECTION_CURSOR_PREFIX cursor
            | _ \<Rightarrow> False)
       | _ \<Rightarrow> False))"

definition encodeSectionThreadListCursor :: "string \<Rightarrow> int \<Rightarrow> string + string" where
  "encodeSectionThreadListCursor queryFingerprint offset =
     (if \<not> safe_int offset \<or> offset \<le> 0 then Inl ''Section cursor is invalid''
      else Inr (SECTION_CURSOR_PREFIX @
        base64url_json (JObj [(''formatVersion'', JInt 1), (''queryFingerprint'', JStr queryFingerprint),
                              (''offset'', JInt offset)])))"

definition decodeSectionCursor :: "string \<Rightarrow> string \<Rightarrow> string + nat" where
  "decodeSectionCursor value queryFingerprint =
     (if MAX_CURSOR_LENGTH < length value then Inl ''thread/list cursor is invalid''
      else
        (case json_base64url (drop (length SECTION_CURSOR_PREFIX) value) of
           None \<Rightarrow> Inl ''thread/list cursor is invalid''
         | Some decoded \<Rightarrow>
             (case (is_record decoded, jfield decoded ''formatVersion'', jfield decoded ''offset'') of
                (True, Some (JInt v), Some (JInt offset)) \<Rightarrow>
                  if v \<noteq> 1 \<or> \<not> safe_int offset \<or> offset \<le> 0 then Inl ''thread/list cursor is invalid''
                  else if jfield decoded ''queryFingerprint'' \<noteq> Some (JStr queryFingerprint)
                  then Inl ''thread/list cursor does not match the current query''
                  else Inr (nat offset)
              | _ \<Rightarrow> Inl ''thread/list cursor is invalid'')))"

subsection \<open>\<open>thread/list\<close>\<close>

definition fingerprint_payload ::
  "string option \<Rightarrow> bool \<Rightarrow> string list option \<Rightarrow> bool option \<Rightarrow> string list option \<Rightarrow> string option \<Rightarrow>
   string option option \<Rightarrow> string option \<Rightarrow> string option option \<Rightarrow> sort_direction \<Rightarrow> sort_key \<Rightarrow>
   string list option \<Rightarrow> bool \<Rightarrow> json" where
  "fingerprint_payload ancestor archived cwd isPinned providers parent projectId searchTerm sectionId direction sortKey
     sourceKinds useStateDbOnly =
     JObj ([(''ancestorThreadId'', opt_text ancestor), (''archived'', JBool archived), (''cwd'', opt_texts cwd),
            (''isPinned'', opt_bool isPinned), (''modelProviders'', opt_texts providers),
            (''parentThreadId'', opt_text parent)] @
           (case projectId of None \<Rightarrow> [] | Some p \<Rightarrow> [(''projectId'', opt_text p)]) @
           [(''searchTerm'', opt_text searchTerm)] @
           (case sectionId of None \<Rightarrow> [] | Some s \<Rightarrow> [(''sectionId'', opt_text s)]) @
           (if sortKey = SectionPosition then [(''sortDirection'', JStr (direction_text direction))] else []) @
           [(''sortKey'', JStr (sort_key_text sortKey)), (''sourceKinds'', opt_texts sourceKinds),
            (''useStateDbOnly'', JBool useStateDbOnly)])"

definition queryFingerprint :: "(string \<Rightarrow> string) \<Rightarrow> json \<Rightarrow> string" where
  "queryFingerprint sha256 value = sha256 (json_text value)"

definition undefined_or_text :: "json option \<Rightarrow> string \<Rightarrow> string + string option option" where
  "undefined_or_text value name =
     (if value = None then Inr None else bindE (nullableText value name) (\<lambda>v. Inr (Some v)))"

text \<open>The checked fields of the request, before its cursor is looked at.\<close>

definition decode_filters :: "(string \<Rightarrow> string) \<Rightarrow> json \<Rightarrow> string + list_request" where
  "decode_filters sha256 p =
     bindE (nullableBoolean (jfield p ''archived'') ''thread/list params.archived'') (\<lambda>archived.
     bindE (decodeCwd (jfield p ''cwd'')) (\<lambda>cwd.
     bindE (nullableBoolean (jfield p ''isPinned'') ''thread/list params.isPinned'') (\<lambda>isPinned.
     bindE (nullableTextArray (jfield p ''modelProviders'') ''thread/list params.modelProviders'') (\<lambda>providers.
     bindE (nullableText (jfield p ''parentThreadId'') ''thread/list params.parentThreadId'') (\<lambda>parent.
     bindE (nullableText (jfield p ''ancestorThreadId'') ''thread/list params.ancestorThreadId'') (\<lambda>ancestor.
     if parent \<noteq> None \<and> ancestor \<noteq> None
     then Inl ''thread/list cannot combine parentThreadId and ancestorThreadId'' else
     bindE (undefined_or_text (jfield p ''projectId'') ''thread/list params.projectId'') (\<lambda>projectId.
     bindE (nullableText (jfield p ''searchTerm'') ''thread/list params.searchTerm'') (\<lambda>searchTerm.
     bindE (undefined_or_text (jfield p ''sectionId'') ''thread/list params.sectionId'') (\<lambda>sectionId.
     bindE (decodeSortKey (jfield p ''sortKey'')) (\<lambda>sortKey.
     bindE (decodeSortDirection (jfield p ''sortDirection'') sortKey) (\<lambda>direction.
     bindE (nullableTextArray (jfield p ''sourceKinds'') ''thread/list params.sourceKinds'') (\<lambda>sourceKinds.
     if (case sourceKinds of None \<Rightarrow> False | Some ks \<Rightarrow> \<not> set ks \<subseteq> set THREAD_SOURCE_KINDS)
     then Inl ''thread/list params.sourceKinds contains an unsupported value''
     else if (case jfield p ''useStateDbOnly'' of None \<Rightarrow> False | Some (JBool _) \<Rightarrow> False | _ \<Rightarrow> True)
     then Inl ''thread/list params.useStateDbOnly must be boolean'' else
       (let flag = (case archived of Some b \<Rightarrow> b | None \<Rightarrow> False);
            stateDb = (jfield p ''useStateDbOnly'' = Some (JBool True))
        in Inr \<lparr>lr_params = p, lr_archived = flag, lr_cwd = cwd, lr_isPinned = isPinned, lr_limit = 0,
                lr_modelProviders = providers, lr_parentThreadId = parent, lr_ancestorThreadId = ancestor,
                lr_projectId = projectId, lr_searchTerm = searchTerm, lr_sectionId = sectionId,
                lr_sortDirection = direction, lr_sortKey = sortKey, lr_sourceKinds = sourceKinds,
                lr_useStateDbOnly = stateDb,
                lr_queryFingerprint = queryFingerprint sha256
                  (fingerprint_payload ancestor flag cwd isPinned providers parent projectId searchTerm sectionId
                     direction sortKey sourceKinds stateDb),
                lr_cursor = None, lr_sectionOffset = None, lr_supportsExternal = False\<rparr>)))))))))))))"

definition has_prefix :: "string option \<Rightarrow> string \<Rightarrow> bool" where
  "has_prefix t p = (case t of None \<Rightarrow> False | Some s \<Rightarrow> starts_with p s)"

definition params_keys :: "json \<Rightarrow> string list" where
  "params_keys p = (case p of JObj kvs \<Rightarrow> List.map fst kvs | _ \<Rightarrow> [])"

definition host_part :: "bool \<Rightarrow> string option \<Rightarrow> list_request \<Rightarrow> string + host_cursor option" where
  "host_part wanted cursorText d =
     (if wanted
      then bindE (decodeHostThreadListCursor (the cursorText) (lr_queryFingerprint d) (lr_sortDirection d))
             (\<lambda>c. Inr (Some c))
      else Inr None)"

definition section_part :: "bool \<Rightarrow> string option \<Rightarrow> list_request \<Rightarrow> string + nat option" where
  "section_part wanted cursorText d =
     (if wanted
      then bindE (decodeSectionCursor (the cursorText) (lr_queryFingerprint d)) (\<lambda>n. Inr (Some n))
      else Inr None)"

definition decode_continuation :: "json \<Rightarrow> list_request \<Rightarrow> string + list_request" where
  "decode_continuation p d =
     bindE (nullableText (jfield p ''cursor'') ''thread/list params.cursor'') (\<lambda>cursorText.
       let unknown = (\<not> set (params_keys p) \<subseteq> set THREAD_LIST_FIELDS);
           isHost = has_prefix cursorText HOST_CURSOR_PREFIX;
           isSection = has_prefix cursorText SECTION_CURSOR_PREFIX;
           bySection = (lr_sortKey d = SectionPosition)
       in if bySection \<and> isHost
          then Inl ''thread/list Host cursor cannot be used with section_position sorting''
          else if \<not> bySection \<and> isSection
          then Inl ''thread/list section cursor requires section_position sorting''
          else
            let supports = (\<not> unknown \<and> (cursorText = None \<or> (if bySection then isSection else isHost)))
            in bindE (host_part (supports \<and> isHost) cursorText d) (\<lambda>cursor.
               bindE (section_part isSection cursorText d) (\<lambda>offset.
               bindE (decodeLimit (jfield p ''limit'')) (\<lambda>limit.
                 Inr (d\<lparr>lr_limit := limit, lr_cursor := cursor, lr_sectionOffset := offset,
                        lr_supportsExternal := supports\<rparr>)))))"

definition decodeThreadListRequest :: "(string \<Rightarrow> string) \<Rightarrow> rpc_request \<Rightarrow> string + list_request option" where
  "decodeThreadListRequest sha256 request =
     (if rq_method request \<noteq> ''thread/list'' then Inr None
      else bindE (paramsObject request ''thread/list'') (\<lambda>p.
           bindE (decode_filters sha256 p) (\<lambda>d.
           bindE (decode_continuation p d) (\<lambda>d'. Inr (Some d')))))"

subsection \<open>Other Thread requests\<close>

definition required_text :: "json \<Rightarrow> string \<Rightarrow> string \<Rightarrow> string + string" where
  "required_text p name message =
     (case jfield p name of Some (JStr t) \<Rightarrow> if t = [] then Inl message else Inr t | _ \<Rightarrow> Inl message)"

definition decodeThreadSectionMoveRequest :: "rpc_request \<Rightarrow> string + section_move_request option" where
  "decodeThreadSectionMoveRequest request =
     (if rq_method request \<noteq> ''thread/section/move'' then Inr None
      else
        bindE (paramsObject request ''thread/section/move'') (\<lambda>p.
        bindE (required_text p ''threadId'' ''thread/section/move params.threadId must be non-empty text'') (\<lambda>t.
        bindE (case jfield p ''sectionId'' of
                 Some JNull \<Rightarrow> Inr None
               | Some (JStr s) \<Rightarrow> Inr (Some s)
               | _ \<Rightarrow> Inl ''thread/section/move params.sectionId must be text or null'') (\<lambda>section.
        bindE (nullableText (jfield p ''beforeThreadId'') ''thread/section/move params.beforeThreadId'') (\<lambda>before.
          Inr (Some \<lparr>mv_threadId = t, mv_sectionId = section, mv_beforeThreadId = before\<rparr>))))))"

definition decodeThreadArchiveRequest :: "rpc_request \<Rightarrow> string + string option" where
  "decodeThreadArchiveRequest request =
     (if rq_method request \<noteq> ''thread/archive'' \<and> rq_method request \<noteq> ''thread/unarchive'' then Inr None
      else
        bindE (paramsObject request (rq_method request)) (\<lambda>p.
        bindE (required_text p ''threadId'' (rq_method request @ '' params.threadId must be non-empty text''))
          (\<lambda>t. Inr (Some t))))"

definition nonBlankTextOrNull :: "json \<Rightarrow> string \<Rightarrow> string + string option" where
  "nonBlankTextOrNull value name =
     (case value of
        JNull \<Rightarrow> Inr None
      | JStr s \<Rightarrow> if nonblank s then Inr (Some s) else Inl (name @ '' must be non-empty text or null'')
      | _ \<Rightarrow> Inl (name @ '' must be non-empty text or null''))"

text \<open>\<open>Array.prototype.sort\<close> on strings: by code units.\<close>

fun insert_text :: "string \<Rightarrow> string list \<Rightarrow> string list" where
  "insert_text x [] = [x]"
| "insert_text x (y # ys) = (if str_less y x then y # insert_text x ys else x # y # ys)"

definition sort_texts :: "string list \<Rightarrow> string list" where
  "sort_texts xs = foldr insert_text xs []"

definition git_field :: "json \<Rightarrow> string \<Rightarrow> string + string option option" where
  "git_field g name =
     (case jfield g name of
        None \<Rightarrow> Inr None
      | Some v \<Rightarrow> bindE (nonBlankTextOrNull v (''thread/metadata/update params.gitInfo.'' @ name))
                    (\<lambda>x. Inr (Some x)))"

definition decode_git_info :: "json option \<Rightarrow> string + (git_info_update \<times> string list) option" where
  "decode_git_info value =
     (if absent value then Inr None
      else case value of
        Some (JObj kvs) \<Rightarrow>
          bindE (git_field (JObj kvs) ''branch'') (\<lambda>branch.
          bindE (git_field (JObj kvs) ''originUrl'') (\<lambda>url.
          bindE (git_field (JObj kvs) ''sha'') (\<lambda>sha.
            Inr (Some (\<lparr>gp_branch = branch, gp_originUrl = url, gp_sha = sha\<rparr>,
                       List.map (\<lambda>name. ''gitInfo.'' @ name)
                         (filter (\<lambda>name. name \<notin> {''branch'', ''originUrl'', ''sha''}) (List.map fst kvs)))))))
      | _ \<Rightarrow> Inl ''thread/metadata/update params.gitInfo must be an object or null'')"

definition THREAD_METADATA_UPDATE_FIELDS :: "string list" where
  "THREAD_METADATA_UPDATE_FIELDS = [''threadId'', ''projectId'', ''daybreakEnabled'', ''gitInfo'']"

definition decodeThreadMetadataUpdateRequest :: "rpc_request \<Rightarrow> string + metadata_request option" where
  "decodeThreadMetadataUpdateRequest request =
     (if rq_method request \<noteq> ''thread/metadata/update'' then Inr None
      else
        bindE (paramsObject request ''thread/metadata/update'') (\<lambda>p.
        bindE (required_text p ''threadId'' ''thread/metadata/update params.threadId must be non-empty text'') (\<lambda>t.
        let unsupported = filter (\<lambda>n. n \<notin> set THREAD_METADATA_UPDATE_FIELDS) (params_keys p) in
        bindE (nullableText (jfield p ''projectId'') ''thread/metadata/update params.projectId'') (\<lambda>projectText.
        bindE (case projectText of
                 None \<Rightarrow> Inr None
               | Some s \<Rightarrow>
                   if s = [] then Inr (Some None)
                   else bindE (nonBlankTextOrNull (JStr s) ''thread/metadata/update params.projectId'')
                          (\<lambda>v. Inr (Some v))) (\<lambda>projectId.
        bindE (nullableBoolean (jfield p ''daybreakEnabled'') ''thread/metadata/update params.daybreakEnabled'')
          (\<lambda>daybreak.
        bindE (decode_git_info (jfield p ''gitInfo'')) (\<lambda>git.
          Inr (Some \<lparr>mr_threadId = t, mr_projectId = projectId, mr_daybreakEnabled = daybreak,
                     mr_gitInfo = map_option fst git,
                     mr_unsupportedFields =
                       (case git of
                          None \<Rightarrow> sort_texts unsupported
                        | Some (_, xs) \<Rightarrow> sort_texts (sort_texts unsupported @ xs))\<rparr>))))))))"

definition observeDeletedProject :: "json \<Rightarrow> string option" where
  "observeDeletedProject value =
     (if jfield value ''method'' \<noteq> Some (JStr ''project/changed'') \<or> jfield value ''id'' \<noteq> None then None
      else
        (case jfield value ''params'' of
           None \<Rightarrow> None
         | Some params \<Rightarrow>
             if jfield params ''changeType'' \<noteq> Some (JStr ''deleted'') then None
             else (case jfield params ''projectId'' of
                     Some (JStr t) \<Rightarrow> if t = [] then None else Some t
                   | _ \<Rightarrow> None)))"

definition optionalCursor :: "json option \<Rightarrow> string \<Rightarrow> string + string option" where
  "optionalCursor value name =
     (if absent value then Inr None
      else case value of
             Some (JStr s) \<Rightarrow> Inr (Some s)
           | _ \<Rightarrow> Inl (''Official thread/list '' @ name @ '' is invalid''))"

definition decodeOfficialThreadListPage :: "json \<Rightarrow> string + official_page" where
  "decodeOfficialThreadListPage value =
     (case jfield value ''data'' of
        Some (JArr rows) \<Rightarrow>
          if \<not> list_all is_record rows then Inl ''Official thread/list response is invalid''
          else
            bindE (optionalCursor (jfield value ''nextCursor'') ''nextCursor'') (\<lambda>next.
            bindE (optionalCursor (jfield value ''backwardsCursor'') ''backwardsCursor'') (\<lambda>back.
              Inr \<lparr>op_data = rows, op_nextCursor = next, op_backwardsCursor = back\<rparr>))
      | _ \<Rightarrow> Inl ''Official thread/list response is invalid'')"

end
