(* ===== verification/ThreadFork.thy ===== *)
theory ThreadFork
  imports ThreadManagement
begin

text \<open>
  Requests that fork, revert and roll back a Thread, the errors a Harness reports for them, and
  their results: \<open>packages/protocol-core/src/thread-fork.ts\<close>.
\<close>

subsection \<open>Types\<close>

record fork_request =
  fk_threadId :: string
  fk_lastTurnId :: "string option"
  fk_beforeTurnId :: "string option"
  fk_path :: "string option"
  fk_model :: "string option"
  fk_modelProvider :: "string option"
  fk_cwd :: "string option"
  fk_excludeTurns :: bool
  fk_ephemeral :: "bool option"
  fk_runtimeWorkspaceRoots :: "string list option"
  fk_approvalPolicy :: "string option"
  fk_sandbox :: "string option"
  fk_serviceTier :: "string option"

record rollback_request =
  rb_threadId :: string
  rb_numTurns :: nat

record revert_request =
  rv_threadId :: string
  rv_beforeTurnId :: string

record rpc_error =
  re_code :: int
  re_message :: string

datatype harness_error_code =
    InvalidRequest | SessionBusy | Unsupported | SessionNotFound | CheckpointNotFound
  | NotInstalled | Unavailable | AuthenticationRequired | ConfigurationRequired
  | NativeFailure | ProtocolError | ProcessExited | InternalError | InvalidState

datatype thread_operation = OpCreate | OpRead | OpResume | OpFork | OpTurn

definition operation_text :: "thread_operation \<Rightarrow> string" where
  "operation_text op =
     (case op of OpCreate \<Rightarrow> ''create'' | OpRead \<Rightarrow> ''read'' | OpResume \<Rightarrow> ''resume'' | OpFork \<Rightarrow> ''fork''
      | OpTurn \<Rightarrow> ''turn'')"

subsection \<open>Decoding\<close>

definition optionalText :: "json \<Rightarrow> string \<Rightarrow> bool \<Rightarrow> string + string option" where
  "optionalText params name allowEmpty =
     (if absent (jfield params name) then Inr None
      else case jfield params name of
             Some (JStr s) \<Rightarrow>
               if s = [] \<and> \<not> allowEmpty then Inl (''thread/fork params.'' @ name @ '' must be text or null'')
               else Inr (Some s)
           | _ \<Rightarrow> Inl (''thread/fork params.'' @ name @ '' must be text or null''))"

definition optionalBoolean :: "json \<Rightarrow> string \<Rightarrow> string + bool option" where
  "optionalBoolean params name =
     (case jfield params name of
        None \<Rightarrow> Inr None
      | Some (JBool b) \<Rightarrow> Inr (Some b)
      | _ \<Rightarrow> Inl (''thread/fork params.'' @ name @ '' must be boolean''))"

text \<open>\<open>hostTurnIdSchema.parse\<close>\<close>

definition parse_turn_id :: "string \<Rightarrow> string + string" where
  "parse_turn_id t = (if nonblank t then Inr t else Inl ''Identifier must not be empty or whitespace'')"

definition parse_turn_field :: "string option \<Rightarrow> string + string option" where
  "parse_turn_field t =
     (case t of None \<Rightarrow> Inr None | Some s \<Rightarrow> bindE (parse_turn_id s) (\<lambda>i. Inr (Some i)))"

definition workspace_roots :: "json option \<Rightarrow> string + string list option" where
  "workspace_roots value =
     (let bad = Inl ''thread/fork params.runtimeWorkspaceRoots must be text paths or null''
      in if absent value then Inr None
         else case value of
                Some (JArr vs) \<Rightarrow>
                  (case all_texts vs of
                     None \<Rightarrow> bad
                   | Some ss \<Rightarrow> if [] \<in> set ss then bad else Inr (Some ss))
              | _ \<Rightarrow> bad)"

definition params_record :: "rpc_request \<Rightarrow> string \<Rightarrow> string + json" where
  "params_record request message =
     (case rq_params request of Some (JObj kvs) \<Rightarrow> Inr (JObj kvs) | _ \<Rightarrow> Inl message)"

definition decodeThreadForkRequest :: "rpc_request \<Rightarrow> string + fork_request option" where
  "decodeThreadForkRequest request =
     (if rq_method request \<noteq> ''thread/fork'' then Inr None
      else
        bindE (params_record request ''thread/fork params must be an object'') (\<lambda>p.
        bindE (optionalText p ''threadId'' False) (\<lambda>thread.
        if thread = None then Inl ''thread/fork params.threadId must be non-empty text'' else
        bindE (optionalText p ''lastTurnId'' False) (\<lambda>lastText.
        bindE (optionalText p ''beforeTurnId'' False) (\<lambda>beforeText.
        if lastText \<noteq> None \<and> beforeText \<noteq> None
        then Inl ''thread/fork cannot combine lastTurnId and beforeTurnId'' else
        bindE (workspace_roots (jfield p ''runtimeWorkspaceRoots'')) (\<lambda>roots.
        bindE (optionalText p ''path'' True) (\<lambda>path.
        bindE (optionalBoolean p ''ephemeral'') (\<lambda>ephemeral.
        bindE (parse_turn_field lastText) (\<lambda>lastTurn.
        bindE (parse_turn_field beforeText) (\<lambda>beforeTurn.
        bindE (optionalText p ''model'' False) (\<lambda>model.
        bindE (optionalText p ''modelProvider'' False) (\<lambda>provider.
        bindE (optionalText p ''cwd'' False) (\<lambda>cwd.
        bindE (optionalBoolean p ''excludeTurns'') (\<lambda>exclude.
        bindE (optionalText p ''approvalPolicy'' False) (\<lambda>policy.
        bindE (optionalText p ''sandbox'' False) (\<lambda>sandbox.
        bindE (optionalText p ''serviceTier'' False) (\<lambda>tier.
          Inr (Some \<lparr>fk_threadId = the thread, fk_lastTurnId = lastTurn, fk_beforeTurnId = beforeTurn,
                     fk_path = (if path = Some [] then None else path), fk_model = model,
                     fk_modelProvider = provider, fk_cwd = cwd,
                     fk_excludeTurns = (case exclude of None \<Rightarrow> False | Some b \<Rightarrow> b),
                     fk_ephemeral = ephemeral, fk_runtimeWorkspaceRoots = roots,
                     fk_approvalPolicy = policy, fk_sandbox = sandbox, fk_serviceTier = tier\<rparr>)))))))))))))))))) "

definition decodeThreadRevertRequest :: "rpc_request \<Rightarrow> string + revert_request option" where
  "decodeThreadRevertRequest request =
     (if rq_method request \<noteq> ''thread/revert'' then Inr None
      else
        bindE (params_record request ''thread/revert params must be an object'') (\<lambda>p.
        bindE (required_text p ''threadId'' ''thread/revert params.threadId must be non-empty text'') (\<lambda>t.
        bindE (required_text p ''beforeTurnId'' ''thread/revert params.beforeTurnId must be non-empty text'')
          (\<lambda>before.
        bindE (parse_turn_id before) (\<lambda>turn.
          Inr (Some \<lparr>rv_threadId = t, rv_beforeTurnId = turn\<rparr>))))))"

definition decodeThreadRollbackRequest :: "rpc_request \<Rightarrow> string + rollback_request option" where
  "decodeThreadRollbackRequest request =
     (if rq_method request \<noteq> ''thread/rollback'' then Inr None
      else
        bindE (params_record request ''thread/rollback params must be an object'') (\<lambda>p.
        bindE (required_text p ''threadId'' ''thread/rollback params.threadId must be non-empty text'') (\<lambda>t.
        case jfield p ''numTurns'' of
          Some (JInt n) \<Rightarrow>
            if safe_int n \<and> 0 < n then Inr (Some \<lparr>rb_threadId = t, rb_numTurns = nat n\<rparr>)
            else Inl ''thread/rollback params.numTurns must be a positive safe integer''
        | _ \<Rightarrow> Inl ''thread/rollback params.numTurns must be a positive safe integer'')))"

subsection \<open>Errors and results\<close>

fun mapExternalThreadHarnessError :: "harness_error_code \<Rightarrow> thread_operation \<Rightarrow> rpc_error" where
  "mapExternalThreadHarnessError InvalidRequest op =
     \<lparr>re_code = -32602, re_message = ''External Thread '' @ operation_text op @ '' request is invalid''\<rparr>"
| "mapExternalThreadHarnessError SessionBusy op =
     \<lparr>re_code = -32072, re_message =
        (if op = OpResume
         then ''External Native Session is busy. Close it in the other client or wait for its active operation to finish, then retry.''
         else ''External Thread has an active operation'')\<rparr>"
| "mapExternalThreadHarnessError Unsupported op =
     \<lparr>re_code = -32076, re_message = ''External Harness does not support '' @ operation_text op\<rparr>"
| "mapExternalThreadHarnessError SessionNotFound op =
     \<lparr>re_code = -32079, re_message = ''External Native Session is unavailable''\<rparr>"
| "mapExternalThreadHarnessError CheckpointNotFound op =
     \<lparr>re_code = -32080, re_message = ''External Fork Checkpoint is unavailable''\<rparr>"
| "mapExternalThreadHarnessError code op =
     (if code \<in> {NotInstalled, Unavailable, AuthenticationRequired, ConfigurationRequired}
      then \<lparr>re_code = -32077, re_message = ''External Harness is unavailable''\<rparr>
      else \<lparr>re_code = -32076, re_message = ''External Thread '' @ operation_text op @ '' failed''\<rparr>)"

definition spread :: "json \<Rightarrow> (string \<times> json) list" where
  "spread v = (case v of JObj kvs \<Rightarrow> kvs | _ \<Rightarrow> [])"

definition threadRevertResult :: "json \<Rightarrow> json" where
  "threadRevertResult thread = JObj [(''thread'', JObj (js_set ''turns'' (JArr []) (spread thread)))]"

definition threadRollbackResult :: "json \<Rightarrow> json" where
  "threadRollbackResult thread = JObj [(''thread'', thread)]"

definition threadForkResult ::
  "json \<Rightarrow> string \<Rightarrow> string \<Rightarrow> string list option \<Rightarrow> string option \<Rightarrow> json \<Rightarrow> string option \<Rightarrow> json" where
  "threadForkResult thread model cwd roots policy sandbox tier =
     JObj [(''thread'', thread), (''model'', JStr model), (''modelProvider'', JStr ''codexhost''),
           (''serviceTier'', opt_text tier), (''cwd'', JStr cwd),
           (''runtimeWorkspaceRoots'', JArr (case roots of None \<Rightarrow> [] | Some rs \<Rightarrow> List.map JStr rs)),
           (''instructionSources'', JArr []),
           (''approvalPolicy'', JStr (case policy of None \<Rightarrow> ''never'' | Some p \<Rightarrow> p)),
           (''approvalsReviewer'', JStr ''user''), (''sandbox'', sandbox),
           (''activePermissionProfile'', JNull), (''reasoningEffort'', JStr ''medium''),
           (''multiAgentMode'', JStr ''explicitRequestOnly'')]"

subsection \<open>Properties\<close>

lemma optionalText_Some: "optionalText p name False = Inr (Some s) \<Longrightarrow> s \<noteq> []"
  by (cases "jfield p name"; cases "the (jfield p name)") (auto simp: optionalText_def split: if_splits)

lemma parse_turn_field_Some: "parse_turn_field t = Inr (Some i) \<Longrightarrow> t = Some i \<and> nonblank i"
  by (auto simp: parse_turn_field_def parse_turn_id_def bindE_Inr_iff split: option.splits if_splits)

lemma workspace_roots_Some: "workspace_roots v = Inr (Some rs) \<Longrightarrow> [] \<notin> set rs"
  by (cases v; cases "the v") (auto simp: workspace_roots_def Let_def absent_def split: option.splits if_splits)

text \<open>
  A decoded fork names one Thread and at most one Turn: the Turn after which, or before which,
  the history is cut is never both, never blank; every optional text that is present is non-empty.
\<close>

theorem decoded_fork_sound:
  assumes "decodeThreadForkRequest request = Inr (Some f)"
  shows "fk_threadId f \<noteq> [] \<and> (fk_lastTurnId f = None \<or> fk_beforeTurnId f = None) \<and>
    (\<forall>i. fk_lastTurnId f = Some i \<or> fk_beforeTurnId f = Some i \<longrightarrow> nonblank i) \<and>
    fk_path f \<noteq> Some [] \<and> fk_model f \<noteq> Some [] \<and> fk_cwd f \<noteq> Some [] \<and>
    (\<forall>rs. fk_runtimeWorkspaceRoots f = Some rs \<longrightarrow> [] \<notin> set rs)"
  using assms unfolding decodeThreadForkRequest_def
proof (elim bindE_InrE if_InlE if_NoneE)
  fix p thread lastText beforeText roots path ephemeral lastTurn beforeTurn model provider cwd exclude policy sandbox tier
  assume f: "optionalText p ''threadId'' False = Inr thread" "thread \<noteq> None" "\<not> (lastText \<noteq> None \<and> beforeText \<noteq> None)"
    "workspace_roots (jfield p ''runtimeWorkspaceRoots'') = Inr roots"
    "parse_turn_field lastText = Inr lastTurn" "parse_turn_field beforeText = Inr beforeTurn"
    "optionalText p ''model'' False = Inr model" "optionalText p ''cwd'' False = Inr cwd"
    "Inr (Some \<lparr>fk_threadId = the thread, fk_lastTurnId = lastTurn, fk_beforeTurnId = beforeTurn,
                     fk_path = (if path = Some [] then None else path), fk_model = model,
                     fk_modelProvider = provider, fk_cwd = cwd,
                     fk_excludeTurns = (case exclude of None \<Rightarrow> False | Some b \<Rightarrow> b),
                     fk_ephemeral = ephemeral, fk_runtimeWorkspaceRoots = roots,
                     fk_approvalPolicy = policy, fk_sandbox = sandbox, fk_serviceTier = tier\<rparr>) =
      (Inr (Some f) :: string + fork_request option)"
  have "the thread \<noteq> []" using f(1,2) optionalText_Some by (cases thread) auto
  moreover have "lastTurn = None \<or> beforeTurn = None"
    using f(3,5,6) parse_turn_field_Some by (metis not_None_eq)
  moreover have "nonblank i" if "lastTurn = Some i \<or> beforeTurn = Some i" for i
    using that f(5,6) parse_turn_field_Some by blast
  moreover have "model \<noteq> Some []" "cwd \<noteq> Some []" using f(7,8) optionalText_Some by fastforce+
  moreover have "[] \<notin> set rs" if "roots = Some rs" for rs using that f(4) workspace_roots_Some by blast
  moreover have "(if path = Some [] then None else path) \<noteq> Some []" by simp
  ultimately show ?thesis using f(9) by (auto split del: if_split)
qed

definition sample_fork :: rpc_request where
  "sample_fork = \<lparr>rq_method = ''thread/fork'', rq_params = Some (JObj
     [(''threadId'', JStr ''t''), (''beforeTurnId'', JStr ''turn''), (''path'', JStr [])])\<rparr>"

lemma decoded_fork_sound_witness:
  "fk_threadId (the (projr (decodeThreadForkRequest sample_fork))) \<noteq> []"
proof -
  have "decodeThreadForkRequest sample_fork = Inr (Some (the (projr (decodeThreadForkRequest sample_fork))))"
    by code_simp
  from decoded_fork_sound [OF this] show ?thesis by blast
qed

end
