(* ===== verification/OfficialServer.thy ===== *)
theory OfficialServer
  imports ThreadManagement
begin

text \<open>
  Requests to the official app-server. Its answers come from another process, so a server is a
  function of the requests it has received so far and of the current one; a rejected request is
  an \<open>Inl\<close>. A computation that asks the server threads the log of requests.
\<close>

datatype host_error =
    ThreadSectionError string
  | OfficialThreadListError json
  | HostError string

type_synonym call = "string \<times> json"
type_synonym official = "call list \<Rightarrow> string \<Rightarrow> json \<Rightarrow> host_error + json"
type_synonym 'a asks = "call list \<Rightarrow> (host_error + 'a) \<times> call list"

definition ret :: "'a \<Rightarrow> 'a asks" where
  "ret x = (\<lambda>log. (Inr x, log))"

definition throw :: "host_error \<Rightarrow> 'a asks" where
  "throw e = (\<lambda>log. (Inl e, log))"

definition ask :: "official \<Rightarrow> string \<Rightarrow> json \<Rightarrow> json asks" where
  "ask server method params = (\<lambda>log. (server log method params, log @ [(method, params)]))"

definition bindA :: "'a asks \<Rightarrow> ('a \<Rightarrow> 'b asks) \<Rightarrow> 'b asks" where
  "bindA m f = (\<lambda>log. case m log of (Inl e, log') \<Rightarrow> (Inl e, log') | (Inr x, log') \<Rightarrow> f x log')"

definition lift_result :: "string + 'a \<Rightarrow> 'a asks" where
  "lift_result r = (case r of Inl m \<Rightarrow> throw (HostError m) | Inr x \<Rightarrow> ret x)"

lemma asks_simps [simp]:
  "ret x log = (Inr x, log)" "throw e log = (Inl e, log)"
  "ask server m p log = (server log m p, log @ [(m, p)])"
  by (simp_all add: ret_def throw_def ask_def)

lemma bindA_case: "bindA m f log = (case m log of (Inl e, log') \<Rightarrow> (Inl e, log') | (Inr x, log') \<Rightarrow> f x log')"
  by (simp add: bindA_def)

lemma bindA_simps [simp]:
  "bindA (ret x) f = f x" "bindA (throw e) f = throw e"
  by (auto simp: bindA_def ret_def throw_def)

lemma bindA_Inr_iff:
  "bindA m f log = (Inr y, log') \<longleftrightarrow> (\<exists>x log1. m log = (Inr x, log1) \<and> f x log1 = (Inr y, log'))"
  by (cases "m log"; cases "fst (m log)") (auto simp: bindA_case)

text \<open>At most \<open>n\<close> further requests.\<close>

definition asks_at_most :: "nat \<Rightarrow> 'a asks \<Rightarrow> bool" where
  "asks_at_most n m = (\<forall>log. \<exists>more. snd (m log) = log @ more \<and> length more \<le> n)"

lemma asks_at_mostI: "(\<And>log. \<exists>more. snd (m log) = log @ more \<and> length more \<le> n) \<Longrightarrow> asks_at_most n m"
  by (simp add: asks_at_most_def)

lemma asks_ret [intro, simp]: "asks_at_most n (ret x)" and asks_throw [intro, simp]: "asks_at_most n (throw e)"
  by (auto simp: asks_at_most_def)

lemma asks_lift [intro, simp]: "asks_at_most n (lift_result r)"
  by (cases r) (auto simp: lift_result_def)

lemma asks_ask [intro, simp]: "asks_at_most (Suc n) (ask server m p)"
  by (auto simp: asks_at_most_def)

lemma asks_weaken: "asks_at_most m f \<Longrightarrow> m \<le> n \<Longrightarrow> asks_at_most n f"
  unfolding asks_at_most_def by (meson order_trans)

lemma asks_bind:
  assumes "asks_at_most m f" and "\<And>x. asks_at_most n (g x)"
  shows "asks_at_most (m + n) (bindA f g)"
proof (rule asks_at_mostI)
  fix log
  obtain r log1 where f: "f log = (r, log1)" by fastforce
  then obtain more where more: "log1 = log @ more" "length more \<le> m"
    using assms(1) unfolding asks_at_most_def by (metis snd_conv)
  show "\<exists>more. snd (bindA f g log) = log @ more \<and> length more \<le> m + n"
  proof (cases r)
    case (Inl e)
    then show ?thesis using f more by (auto simp: bindA_case)
  next
    case (Inr x)
    obtain more2 where "snd (g x log1) = log1 @ more2" "length more2 \<le> n"
      using assms(2) [of x] by (auto simp: asks_at_most_def)
    then show ?thesis using f more Inr by (auto simp: bindA_case intro!: exI [of _ "more @ more2"])
  qed
qed

subsection \<open>Rows of the official server\<close>

text \<open>\<open>String(value)\<close>\<close>

fun js_text :: "json \<Rightarrow> string" and js_join :: "json list \<Rightarrow> string" where
  "js_text JNull = ''null''"
| "js_text (JBool b) = (if b then ''true'' else ''false'')"
| "js_text (JInt n) = int_text n"
| "js_text (JFrac s) = s"
| "js_text (JStr s) = s"
| "js_text (JArr xs) = js_join xs"
| "js_text (JObj kvs) = ''[object Object]''"
| "js_join [] = []"
| "js_join (x # xs) =
     (if x = JNull then [] else js_text x) @ (if xs = [] then [] else CHR '','' # js_join xs)"

definition row_id :: "json \<Rightarrow> string" where
  "row_id row = (case jfield row ''id'' of None \<Rightarrow> ''undefined'' | Some v \<Rightarrow> js_text v)"

definition fields_of :: "json \<Rightarrow> (string \<times> json) list" where
  "fields_of v = (case v of JObj kvs \<Rightarrow> kvs | _ \<Rightarrow> [])"

definition officialThreadListPageFromResponse :: "json \<Rightarrow> host_error + official_page" where
  "officialThreadListPageFromResponse response =
     (case jfield response ''error'' of
        Some (JObj e) \<Rightarrow>
          (case (map_of e ''code'', map_of e ''message'') of
             (Some (JInt n), Some (JStr _)) \<Rightarrow>
               if safe_int n then Inl (OfficialThreadListError (JObj e))
               else Inl (HostError ''Official thread/list error response is invalid'')
           | _ \<Rightarrow> Inl (HostError ''Official thread/list error response is invalid''))
      | _ \<Rightarrow>
          (case jfield response ''result'' of
             None \<Rightarrow> Inl (HostError ''Official thread/list response has no result'')
           | Some result \<Rightarrow> map_sum HostError id (decodeOfficialThreadListPage result)))"

end
