(* ===== verification/ThreadSections.thy ===== *)
theory ThreadSections
  imports OfficialServer StoreState
begin

text \<open>
  Sections of Threads with two owners: \<open>packages/host-runtime/src/external-thread-sections.ts\<close>.
  The official server orders its own Threads; an External Thread is stored as a placement anchored
  to the Thread it precedes, and the Host merges the two.
\<close>

subsection \<open>Merging\<close>

text \<open>One pass of the outer loop: the new order and the placements deferred to the next pass.\<close>

fun merge_round ::
  "string list \<Rightarrow> string list \<Rightarrow> section_placement list \<Rightarrow> string list \<times> section_placement list" where
  "merge_round waiting order [] = (order, [])"
| "merge_round waiting order (p # ps) =
     (let i = pl_hostThreadId p;
          found = (case pl_beforeThreadId p of None \<Rightarrow> None | Some b \<Rightarrow> index_of b order)
      in case found of
           Some k \<Rightarrow> merge_round (removeAll i waiting) (splice_in k i order) ps
         | None \<Rightarrow>
             (case pl_beforeThreadId p of
                Some b \<Rightarrow>
                  if b \<noteq> i \<and> b \<in> set waiting
                  then (case merge_round waiting order ps of (order', deferred) \<Rightarrow> (order', p # deferred))
                  else merge_round (removeAll i waiting) (order @ [i]) ps
              | None \<Rightarrow> merge_round (removeAll i waiting) (order @ [i]) ps))"

lemma merge_round_deferred: "length (snd (merge_round waiting order ps)) \<le> length ps"
  by (induction ps arbitrary: waiting order)
     (auto simp: Let_def case_prod_beta' le_SucI split: option.split)

function merge_rounds :: "string list \<Rightarrow> section_placement list \<Rightarrow> string list" where
  "merge_rounds order pending =
     (if pending = [] then order
      else
        (let r = merge_round (List.map pl_hostThreadId pending) order pending
         in if length (snd r) = length pending then fst r @ List.map pl_hostThreadId (snd r)
            else merge_rounds (fst r) (snd r)))"
  by pat_completeness auto
termination
  by (relation "measure (\<lambda>(_, pending). length pending)")
     (simp_all add: merge_round_deferred le_neq_implies_less case_prod_beta')

declare merge_rounds.simps [simp del]

definition mergeSectionOrder :: "string list \<Rightarrow> section_placement list \<Rightarrow> string list" where
  "mergeSectionOrder officialIds placements =
     merge_rounds (filter (\<lambda>i. i \<notin> set (List.map pl_hostThreadId placements)) officialIds) placements"

subsection \<open>Planning a move\<close>

record section_move_plan =
  sp_placements :: "section_placement list"
  sp_officialBeforeThreadId :: "string option"

text \<open>\<open>order[order.indexOf(id) + 1] ?? null\<close>\<close>

definition successor :: "string list \<Rightarrow> nat \<Rightarrow> string option" where
  "successor order i = (if Suc i < length order then Some (order ! Suc i) else None)"

definition reanchor :: "string \<Rightarrow> string list \<Rightarrow> section_placement list \<Rightarrow> section_placement list" where
  "reanchor sectionId order placements =
     List.map (\<lambda>p.
       if sc_id (pl_section p) \<noteq> sectionId then p
       else
         (case index_of (pl_hostThreadId p) order of
            None \<Rightarrow> p
          | Some i \<Rightarrow> p\<lparr>pl_beforeThreadId := successor order i\<rparr>)) placements"

definition order_without :: "(string \<Rightarrow> string list option) \<Rightarrow> string \<Rightarrow> string \<Rightarrow> string list" where
  "order_without orders threadId sectionId =
     filter (\<lambda>i. i \<noteq> threadId) (case orders sectionId of None \<Rightarrow> [] | Some order \<Rightarrow> order)"

definition insert_before :: "string \<Rightarrow> string option \<Rightarrow> string list \<Rightarrow> string list option" where
  "insert_before threadId before base =
     (case before of
        None \<Rightarrow> Some (base @ [threadId])
      | Some b \<Rightarrow> map_option (\<lambda>i. splice_in i threadId base) (index_of b base))"

definition moved_placement ::
  "section_move_request \<Rightarrow> section_placement list \<Rightarrow> thread_section \<Rightarrow> timestamp \<Rightarrow> section_placement" where
  "moved_placement move placements destination now =
     \<lparr>pl_hostThreadId = mv_threadId move, pl_section = destination,
      pl_enteredAt =
        (case find (\<lambda>p. pl_hostThreadId p = mv_threadId move) placements of
           Some previous \<Rightarrow> if sc_id (pl_section previous) = sc_id destination then pl_enteredAt previous else now
         | None \<Rightarrow> now),
      pl_beforeThreadId = None\<rparr>"

definition planSectionMove ::
  "section_move_request \<Rightarrow> bool \<Rightarrow> string option \<Rightarrow> thread_section option \<Rightarrow>
   (string \<Rightarrow> string list option) \<Rightarrow> section_placement list \<Rightarrow> (string \<Rightarrow> bool) \<Rightarrow> timestamp \<Rightarrow>
   host_error + section_move_plan" where
  "planSectionMove move movingExternal currentSectionId destination orders placements isExternal now =
     (let others = filter (\<lambda>p. pl_hostThreadId p \<noteq> mv_threadId move) placements;
          left = (case currentSectionId of
                    Some c \<Rightarrow>
                      if map_option sc_id destination \<noteq> Some c
                      then reanchor c (order_without orders (mv_threadId move) c) others else others
                  | None \<Rightarrow> others)
      in case destination of
           None \<Rightarrow> Inr \<lparr>sp_placements = left, sp_officialBeforeThreadId = None\<rparr>
         | Some dest \<Rightarrow>
             let base = order_without orders (mv_threadId move) (sc_id dest)
             in (case insert_before (mv_threadId move) (mv_beforeThreadId move) base of
                   None \<Rightarrow> Inl (ThreadSectionError (''before thread '' @ the (mv_beforeThreadId move) @
                                ''is not in section '' @ sc_id dest))
                 | Some intended \<Rightarrow>
                     let i = (case mv_beforeThreadId move of None \<Rightarrow> length base | Some b \<Rightarrow> the (index_of b base));
                         placed = (if movingExternal then left @ [moved_placement move placements dest now] else left)
                     in Inr \<lparr>sp_placements = reanchor (sc_id dest) intended placed,
                             sp_officialBeforeThreadId = find (\<lambda>x. \<not> isExternal x) (drop (Suc i) intended)\<rparr>))"

subsection \<open>Asking the official server\<close>

text \<open>
  The request loops give up after 256 pages. \<open>fuel\<close> counts the pages left; it is the bound of the
  source's own loop, not of the model.
\<close>

definition with_fields :: "json \<Rightarrow> (string \<times> json) list \<Rightarrow> json" where
  "with_fields params extra = JObj (fold (\<lambda>(k, v). js_set k v) extra (fields_of params))"

fun official_rows :: "official \<Rightarrow> json \<Rightarrow> nat \<Rightarrow> string option \<Rightarrow> json list \<Rightarrow> json list asks" where
  "official_rows server params 0 cursor rows =
     throw (HostError ''Official thread/list pagination exceeded its request bound'')"
| "official_rows server params (Suc fuel) cursor rows =
     bindA (ask server ''thread/list'' (with_fields params [(''cursor'', opt_text cursor), (''limit'', JInt 100)]))
       (\<lambda>response. case officialThreadListPageFromResponse response of
          Inl e \<Rightarrow> throw e
        | Inr page \<Rightarrow>
            if op_nextCursor page = None \<or> op_nextCursor page = cursor then ret (rows @ op_data page)
            else official_rows server params fuel (op_nextCursor page) (rows @ op_data page))"

definition listAllOfficialRows :: "official \<Rightarrow> json \<Rightarrow> json list asks" where
  "listAllOfficialRows server params = official_rows server params 256 None []"

definition sectionOrder :: "official \<Rightarrow> string \<Rightarrow> section_placement list \<Rightarrow> string list asks" where
  "sectionOrder server sectionId placements =
     bindA (listAllOfficialRows server
              (JObj [(''sectionId'', JStr sectionId), (''sortKey'', JStr ''section_position''),
                     (''modelProviders'', JArr []), (''useStateDbOnly'', JBool True)]))
       (\<lambda>rows. ret (mergeSectionOrder (List.map row_id rows)
                       (filter (\<lambda>p. sc_id (pl_section p) = sectionId) placements)))"

definition text_or :: "string option \<Rightarrow> json option \<Rightarrow> string option" where
  "text_or d v = (case v of Some (JStr s) \<Rightarrow> Some s | _ \<Rightarrow> d)"

definition section_of :: "string \<Rightarrow> json \<Rightarrow> thread_section" where
  "section_of sectionId entry =
     \<lparr>sc_id = sectionId, sc_name = the (text_or (Some []) (jfield entry ''name'')),
      sc_appearance =
        (case jfield entry ''appearance'' of
           Some (JObj a) \<Rightarrow> Some \<lparr>ap_icon = text_or None (map_of a ''icon''), ap_color = text_or None (map_of a ''color'')\<rparr>
         | _ \<Rightarrow> None)\<rparr>"

fun official_section :: "official \<Rightarrow> string \<Rightarrow> nat \<Rightarrow> string option \<Rightarrow> thread_section asks" where
  "official_section server sectionId 0 cursor =
     throw (ThreadSectionError (''section '' @ sectionId @ '' does not exist''))"
| "official_section server sectionId (Suc fuel) cursor =
     bindA (ask server ''threadSection/list'' (JObj [(''cursor'', opt_text cursor), (''limit'', JInt 100)]))
       (\<lambda>response. case jfield response ''result'' of
          Some (JObj result) \<Rightarrow>
            (case find (\<lambda>entry. is_record entry \<and> jfield entry ''id'' = Some (JStr sectionId))
                    (case map_of result ''data'' of Some (JArr entries) \<Rightarrow> entries | _ \<Rightarrow> []) of
               Some entry \<Rightarrow> ret (section_of sectionId entry)
             | None \<Rightarrow>
                 let next = text_or None (map_of result ''nextCursor'')
                 in if next = None \<or> next = cursor
                    then throw (ThreadSectionError (''section '' @ sectionId @ '' does not exist''))
                    else official_section server sectionId fuel next)
        | _ \<Rightarrow> throw (HostError ''Official threadSection/list failed''))"

definition findOfficialSection :: "official \<Rightarrow> string \<Rightarrow> thread_section asks" where
  "findOfficialSection server sectionId = official_section server sectionId 256 None"

subsection \<open>Listing a section\<close>

record section_page =
  sg_data :: "json list"
  sg_nextCursor :: "string option"

text \<open>A page of the merged order; the position after it, when there is more.\<close>

definition order_page :: "'a list \<Rightarrow> nat \<Rightarrow> nat \<Rightarrow> ('a list \<times> nat option) option" where
  "order_page order offset limit =
     Some (take limit (drop offset order),
           if offset + limit < length order \<and> 0 < limit then Some (offset + limit) else None)"

definition merged_section ::
  "list_request \<Rightarrow> section_placement list \<Rightarrow> (string, json) jsmap \<Rightarrow> json list \<Rightarrow> string list \<times> (string, json) jsmap" where
  "merged_section query inSection externalRows officialRows =
     (let rows = fold (\<lambda>row. js_set (row_id row) row) officialRows externalRows;
          order = filter (js_has rows) (mergeSectionOrder (List.map row_id officialRows) inSection)
      in (if lr_sortDirection query = Desc then rev order else order, rows))"

definition section_reply ::
  "list_request \<Rightarrow> string list \<Rightarrow> (string, json) jsmap \<Rightarrow> nat \<Rightarrow> section_page option asks" where
  "section_reply query order rows offset =
     (case order_page order offset (lr_limit query) of
        None \<Rightarrow> ret None
      | Some (ids, None) \<Rightarrow> ret (Some \<lparr>sg_data = List.map_filter (js_get rows) ids, sg_nextCursor = None\<rparr>)
      | Some (ids, Some position) \<Rightarrow>
          bindA (lift_result (encodeSectionThreadListCursor (lr_queryFingerprint query) (int position)))
            (\<lambda>c. ret (Some \<lparr>sg_data = List.map_filter (js_get rows) ids, sg_nextCursor = Some c\<rparr>)))"

definition listSectionThreads ::
  "official \<Rightarrow> list_request \<Rightarrow> section_placement list \<Rightarrow> (string, json) jsmap \<Rightarrow> section_page option asks" where
  "listSectionThreads server query placements externalRows =
     (case lr_sectionId query of
        Some (Some sectionId) \<Rightarrow>
          let inSection = filter (\<lambda>p. sc_id (pl_section p) = sectionId) placements
          in if lr_sectionOffset query = None \<and> \<not> list_ex (\<lambda>p. js_has externalRows (pl_hostThreadId p)) inSection
             then ret None
             else
               let params = JObj (js_delete ''limit'' (js_delete ''cursor''
                              (js_set ''sortDirection'' (JStr ''asc'') (fields_of (lr_params query)))))
               in bindA (listAllOfficialRows server params) (\<lambda>officialRows.
                    case merged_section query inSection externalRows officialRows of
                      (order, rows) \<Rightarrow>
                        section_reply query order rows
                          (case lr_sectionOffset query of None \<Rightarrow> 0 | Some n \<Rightarrow> n))
      | _ \<Rightarrow> ret None)"

subsection \<open>Moving a Thread\<close>

datatype section_move_outcome =
    Forward
  | Moved "host_error option"
  | MoveError json

text \<open>The placements saved so far, beside the log of requests.\<close>

type_synonym saved = "section_placement list option"

definition officialError :: "json \<Rightarrow> json option" where
  "officialError response = (case jfield response ''error'' of Some (JObj e) \<Rightarrow> Some (JObj e) | _ \<Rightarrow> None)"

definition obj_field :: "json option \<Rightarrow> string \<Rightarrow> json option" where
  "obj_field v name = (case v of None \<Rightarrow> None | Some x \<Rightarrow> jfield x name)"

text \<open>The section the Thread leaves and the one it enters, or the error the official server gave.\<close>

definition move_sections ::
  "official \<Rightarrow> section_move_request \<Rightarrow> bool \<Rightarrow> section_placement list \<Rightarrow>
   (json + string option \<times> thread_section option) asks" where
  "move_sections server move movingExternal placements =
     (if movingExternal then
        let current = map_option (\<lambda>p. sc_id (pl_section p))
                        (find (\<lambda>p. pl_hostThreadId p = mv_threadId move) placements)
        in (case mv_sectionId move of
              None \<Rightarrow> ret (Inr (current, None))
            | Some s \<Rightarrow> bindA (findOfficialSection server s) (\<lambda>d. ret (Inr (current, Some d))))
      else
        bindA (ask server ''thread/read'' (JObj [(''threadId'', JStr (mv_threadId move))])) (\<lambda>response.
          case officialError response of
            Some e \<Rightarrow> ret (Inl e)
          | None \<Rightarrow>
              let section = obj_field (obj_field (jfield response ''result'') ''thread'') ''section''
              in ret (Inr (text_or None (obj_field section ''id''),
                           map_option (\<lambda>s. \<lparr>sc_id = s, sc_name = [], sc_appearance = None\<rparr>) (mv_sectionId move)))))"

text \<open>\<open>new Set([currentSectionId, move.sectionId])\<close>, without null.\<close>

definition affected_sections :: "string option \<Rightarrow> string option \<Rightarrow> string list" where
  "affected_sections current target =
     (case (current, target) of
        (None, None) \<Rightarrow> []
      | (Some c, None) \<Rightarrow> [c]
      | (None, Some t) \<Rightarrow> [t]
      | (Some c, Some t) \<Rightarrow> if c = t then [c] else [c, t])"

fun section_orders ::
  "official \<Rightarrow> section_placement list \<Rightarrow> string list \<Rightarrow> (string, string list) jsmap \<Rightarrow>
   (string, string list) jsmap asks" where
  "section_orders server placements [] orders = ret orders"
| "section_orders server placements (s # ss) orders =
     bindA (sectionOrder server s placements) (\<lambda>order. section_orders server placements ss (js_set s order orders))"

definition plan_move ::
  "official \<Rightarrow> section_move_request \<Rightarrow> bool \<Rightarrow> string set \<Rightarrow> section_placement list \<Rightarrow> timestamp \<Rightarrow>
   (json + section_move_plan) asks" where
  "plan_move server move movingExternal externalThreadIds placements now =
     bindA (move_sections server move movingExternal placements) (\<lambda>sections.
       case sections of
         Inl e \<Rightarrow> ret (Inl e)
       | Inr (current, destination) \<Rightarrow>
           bindA (section_orders server placements (affected_sections current (mv_sectionId move)) []) (\<lambda>orders.
             case planSectionMove move movingExternal current destination (js_get orders) placements
                    (\<lambda>t. t \<in> externalThreadIds) now of
               Inl e \<Rightarrow> throw e
             | Inr plan \<Rightarrow> ret (Inr plan)))"

text \<open>
  \<open>save\<close> is the outcome of \<open>savePlacements\<close>: an error, or \<open>None\<close> once the placements are stored.
\<close>

definition apply_move ::
  "official \<Rightarrow> (section_placement list \<Rightarrow> host_error option) \<Rightarrow> section_move_request \<Rightarrow> bool \<Rightarrow>
   section_move_plan \<Rightarrow> (section_move_outcome \<times> saved) asks" where
  "apply_move server save move movingExternal plan =
     (if movingExternal then
        (case save (sp_placements plan) of
           Some e \<Rightarrow> throw e
         | None \<Rightarrow> ret (Moved None, Some (sp_placements plan)))
      else
        bindA (ask server ''thread/section/move''
                 (JObj [(''threadId'', JStr (mv_threadId move)), (''sectionId'', opt_text (mv_sectionId move)),
                        (''beforeThreadId'', opt_text (sp_officialBeforeThreadId plan))])) (\<lambda>response.
          case officialError response of
            Some e \<Rightarrow> ret (MoveError e, None)
          | None \<Rightarrow>
              (case save (sp_placements plan) of
                 Some e \<Rightarrow> ret (Moved (Some e), None)
               | None \<Rightarrow> ret (Moved None, Some (sp_placements plan)))))"

definition section_error :: "string \<Rightarrow> json" where
  "section_error message = JObj [(''code'', JInt (-32600)), (''message'', JStr message)]"

text \<open>The \<open>catch\<close> clause.\<close>

definition caught :: "(section_move_outcome \<times> saved) asks \<Rightarrow> (section_move_outcome \<times> saved) asks" where
  "caught m = (\<lambda>log. case m log of
     (Inl (ThreadSectionError text), log') \<Rightarrow> (Inr (MoveError (section_error text), None), log')
   | (Inl (OfficialThreadListError e), log') \<Rightarrow> (Inr (MoveError e, None), log')
   | r \<Rightarrow> r)"

definition moveThreadSection ::
  "official \<Rightarrow> (section_placement list \<Rightarrow> host_error option) \<Rightarrow> section_move_request \<Rightarrow> bool \<Rightarrow> string set \<Rightarrow>
   section_placement list \<Rightarrow> timestamp \<Rightarrow> (section_move_outcome \<times> saved) asks" where
  "moveThreadSection server save move movingExternal externalThreadIds placements now =
     (if \<not> movingExternal \<and> placements = [] \<and>
         \<not> (case mv_beforeThreadId move of None \<Rightarrow> False | Some b \<Rightarrow> b \<in> externalThreadIds)
      then ret (Forward, None)
      else caught
        (bindA (plan_move server move movingExternal externalThreadIds placements now) (\<lambda>r.
           case r of Inl e \<Rightarrow> ret (MoveError e, None) | Inr plan \<Rightarrow> apply_move server save move movingExternal plan)))"

end
