(* ===== verification/ThreadSectionsProps.thy ===== *)
theory ThreadSectionsProps
  imports ThreadSections "HOL-Library.Multiset" "HOL-Library.Sublist"
begin

text \<open>
  Merging keeps every Thread and the official order, and merging the placements that a move plans
  gives back the order that the move intends.
\<close>

subsection \<open>What merging keeps\<close>

abbreviation ids_of :: "section_placement list \<Rightarrow> string list" where
  "ids_of ps \<equiv> List.map pl_hostThreadId ps"

lemma mset_splice_in [simp]: "mset (splice_in i x xs) = add_mset x (mset xs)"
proof -
  have "mset (take i xs) + mset (drop i xs) = mset xs"
    by (simp flip: mset_append)
  then show ?thesis by (simp add: splice_in_def)
qed

lemma filter_splice_in: "\<not> P x \<Longrightarrow> filter P (splice_in i x xs) = filter P xs"
  by (simp add: splice_in_def) (simp flip: filter_append)

lemma merge_round_mset:
  "mset (fst (merge_round w order ps)) + mset (ids_of (snd (merge_round w order ps))) = mset order + mset (ids_of ps)"
  by (induction ps arbitrary: w order) (auto simp: Let_def case_prod_beta' split: option.split)

lemma merge_round_filter:
  "\<forall>p \<in> set ps. \<not> P (pl_hostThreadId p) \<Longrightarrow> filter P (fst (merge_round w order ps)) = filter P order"
  by (induction ps arbitrary: w order) (auto simp: Let_def case_prod_beta' filter_splice_in split: option.split)

lemma merge_round_subseq: "subseq (snd (merge_round w order ps)) ps"
proof (induction ps arbitrary: w order)
  case (Cons p ps)
  have skip: "subseq (snd (merge_round w' order' ps)) (p # ps)" for w' order'
    using Cons.IH by (rule list_emb_Cons)
  have keep: "subseq (p # snd (merge_round w' order' ps)) (p # ps)" for w' order'
    using Cons.IH by simp
  show ?case by (auto simp: Let_def case_prod_beta' skip keep simp del: subseq_Cons2_iff split: option.split)
qed simp

lemma merge_round_subset: "set (snd (merge_round w order ps)) \<subseteq> set ps"
  using merge_round_subseq [of w order ps] set_nths_subset by (fastforce simp: subseq_conv_nths)

lemma merge_rounds_mset: "mset (merge_rounds order ps) = mset order + mset (ids_of ps)"
proof (induction order ps rule: merge_rounds.induct)
  case (1 order ps)
  show ?case
    using 1 merge_round_mset [of "ids_of ps" order ps]
    by (subst merge_rounds.simps) (auto simp: Let_def)
qed

lemma merge_rounds_filter:
  "\<forall>p \<in> set ps. \<not> P (pl_hostThreadId p) \<Longrightarrow> filter P (merge_rounds order ps) = filter P order"
proof (induction order ps rule: merge_rounds.induct)
  case (1 order ps)
  let ?r = "merge_round (ids_of ps) order ps"
  have sub: "\<forall>p \<in> set (snd ?r). \<not> P (pl_hostThreadId p)"
    using "1.prems" merge_round_subset [of "ids_of ps" order ps] by blast
  then have "filter P (ids_of (snd ?r)) = []" by (simp add: filter_empty_conv)
  then show ?case
    using 1 sub merge_round_filter [of ps P "ids_of ps" order]
    by (subst merge_rounds.simps) (auto simp: Let_def)
qed

text \<open>
  Merging loses and duplicates nothing: whatever the anchors say, dangling, circular or in any
  order, the merged section lists each official Thread without a placement and each placed Thread
  exactly as often as it was given, and official Threads keep their order.
\<close>

theorem section_merge_preserves:
  "mset (mergeSectionOrder officialIds placements) =
     mset (filter (\<lambda>i. i \<notin> set (ids_of placements)) officialIds) + mset (ids_of placements) \<and>
   filter (\<lambda>i. i \<notin> set (ids_of placements)) (mergeSectionOrder officialIds placements) =
     filter (\<lambda>i. i \<notin> set (ids_of placements)) officialIds"
  by (simp add: mergeSectionOrder_def merge_rounds_mset merge_rounds_filter del: set_map)
    (simp add: merge_rounds_filter)

subsection \<open>Anchors that name the successor\<close>

text \<open>\<open>anchored order p\<close>: the placement stands before its immediate successor in the order.\<close>

definition anchored :: "string list \<Rightarrow> section_placement \<Rightarrow> bool" where
  "anchored order p \<longleftrightarrow> (\<exists>i. index_of (pl_hostThreadId p) order = Some i \<and> pl_beforeThreadId p = successor order i)"

lemma anchored_split:
  assumes "distinct order" and "anchored order p"
  obtains (inner) pre b post where "order = pre @ pl_hostThreadId p # b # post" "pl_beforeThreadId p = Some b"
    | (final) pre where "order = pre @ [pl_hostThreadId p]" "pl_beforeThreadId p = None"
proof -
  obtain i where i: "index_of (pl_hostThreadId p) order = Some i" "pl_beforeThreadId p = successor order i"
    using assms(2) by (auto simp: anchored_def)
  have lt: "i < length order" "order ! i = pl_hostThreadId p" using index_of_Some [OF i(1)] by auto
  show thesis
  proof (cases "Suc i < length order")
    case True
    then have "order = take i order @ pl_hostThreadId p # order ! Suc i # drop (Suc (Suc i)) order"
      using lt by (metis Cons_nth_drop_Suc id_take_nth_drop)
    then show thesis using inner i(2) True by (simp add: successor_def)
  next
    case False
    then have "order = take i order @ [pl_hostThreadId p]"
      using lt by (metis Suc_lessI hd_drop_conv_nth id_take_nth_drop drop_all not_less)
    then show thesis using final i(2) False by (simp add: successor_def)
  qed
qed

lemma index_of_append: "x \<notin> set xs \<Longrightarrow> index_of x (xs @ x # ys) = Some (length xs)"
  by (induction xs) auto

lemma splice_in_length: "splice_in (length xs) x (xs @ ys) = xs @ x # ys"
  by (simp add: splice_in_def)

text \<open>Placing one anchored Thread of the unplaced set \<open>U\<close> before its successor.\<close>

lemma place_inner:
  assumes "distinct (pre @ i # b # post)" and "i \<in> U" and "b \<notin> U"
  shows "index_of b (filter (\<lambda>x. x \<notin> U) (pre @ i # b # post)) = Some (length (filter (\<lambda>x. x \<notin> U) pre))"
    and "splice_in (length (filter (\<lambda>x. x \<notin> U) pre)) i (filter (\<lambda>x. x \<notin> U) (pre @ i # b # post)) =
      filter (\<lambda>x. x \<notin> U - {i}) (pre @ i # b # post)"
proof -
  have b: "b \<notin> set (filter (\<lambda>x. x \<notin> U) pre)" using assms(1) by auto
  have e: "filter (\<lambda>x. x \<notin> U) (pre @ i # b # post) = filter (\<lambda>x. x \<notin> U) pre @ b # filter (\<lambda>x. x \<notin> U) post"
    using assms(2,3) by simp
  then show "index_of b (filter (\<lambda>x. x \<notin> U) (pre @ i # b # post)) = Some (length (filter (\<lambda>x. x \<notin> U) pre))"
    using index_of_append [OF b] by simp
  have "filter (\<lambda>x. x \<notin> U - {i}) xs = filter (\<lambda>x. x \<notin> U) xs" if "i \<notin> set xs" for xs
    using that by (auto intro!: filter_cong)
  then have "filter (\<lambda>x. x \<notin> U - {i}) (pre @ i # b # post) =
      filter (\<lambda>x. x \<notin> U) pre @ i # b # filter (\<lambda>x. x \<notin> U) post"
    using assms by auto
  then show "splice_in (length (filter (\<lambda>x. x \<notin> U) pre)) i (filter (\<lambda>x. x \<notin> U) (pre @ i # b # post)) =
      filter (\<lambda>x. x \<notin> U - {i}) (pre @ i # b # post)"
    using e by (simp only: splice_in_length)
qed

lemma place_final:
  assumes "distinct (pre @ [i])" and "i \<in> U"
  shows "filter (\<lambda>x. x \<notin> U) (pre @ [i]) @ [i] = filter (\<lambda>x. x \<notin> U - {i}) (pre @ [i])"
  using assms by (auto intro!: filter_cong)

lemma merge_round_anchored:
  assumes "distinct order" and "\<forall>p \<in> set ps. anchored order p" and "distinct (ids_of ps)"
    and "set w = U" and "set (ids_of ps) \<subseteq> U"
  shows "fst (merge_round w (filter (\<lambda>x. x \<notin> U) order) ps) =
      filter (\<lambda>x. x \<notin> (U - set (ids_of ps)) \<union> set (ids_of (snd (merge_round w (filter (\<lambda>x. x \<notin> U) order) ps)))) order \<and>
    (\<forall>p \<in> set (snd (merge_round w (filter (\<lambda>x. x \<notin> U) order) ps)). \<exists>b \<in> U. pl_beforeThreadId p = Some b)"
  using assms(2-)
proof (induction ps arbitrary: w U)
  case Nil
  then show ?case by simp
next
  case (Cons p ps)
  let ?i = "pl_hostThreadId p"
  have i: "?i \<in> U" "?i \<notin> set (ids_of ps)" and rest: "\<forall>p \<in> set ps. anchored order p" "distinct (ids_of ps)"
    using Cons.prems by auto
  have no: "\<forall>x \<in> set ps. pl_hostThreadId x \<noteq> ?i"
    using i(2) by (metis image_eqI list.set_map)
  have placed: ?case
    if m: "merge_round w (filter (\<lambda>x. x \<notin> U) order) (p # ps) =
        merge_round (removeAll ?i w) (filter (\<lambda>x. x \<notin> U - {?i}) order) ps"
  proof -
    have "set (removeAll ?i w) = U - {?i}" "set (ids_of ps) \<subseteq> U - {?i}"
      using Cons.prems i(2) by (auto simp del: set_map)
    from Cons.IH [OF rest this] show ?thesis
      unfolding m using no by (auto simp: Diff_insert2 [symmetric] intro!: filter_cong)
  qed
  show ?case
  proof (rule anchored_split [OF assms(1), of p])
    show "anchored order p" using Cons.prems(1) by simp
  next
    fix pre b post assume o: "order = pre @ ?i # b # post" "pl_beforeThreadId p = Some b"
    have bi: "b \<noteq> ?i" using assms(1) o(1) by auto
    show ?case
    proof (cases "b \<in> U")
      case False
      note pl = place_inner [OF assms(1) [unfolded o(1)] i(1) False, folded o(1)]
      show ?thesis by (rule placed) (simp add: o(2) pl Let_def)
    next
      case True
      then have "b \<notin> set (filter (\<lambda>x. x \<notin> U) order)" by simp
      then have none: "index_of b (filter (\<lambda>x. x \<notin> U) order) = None" by simp
      have w: "b \<in> set w" using True Cons.prems(3) by simp
      have "set (ids_of ps) \<subseteq> U" using Cons.prems(4) by simp
      note ih = Cons.IH [OF rest Cons.prems(3) this]
      have m: "merge_round w (filter (\<lambda>x. x \<notin> U) order) (p # ps) =
          (fst (merge_round w (filter (\<lambda>x. x \<notin> U) order) ps), p # snd (merge_round w (filter (\<lambda>x. x \<notin> U) order) ps))"
        using w bi o(2) by (simp add: none Let_def case_prod_beta')
      show ?thesis
        unfolding m fst_conv snd_conv using no ih i o(2) True by (auto intro: rev_image_eqI intro!: filter_cong)
    qed
  next
    fix pre assume o: "order = pre @ [?i]" "pl_beforeThreadId p = None"
    show ?case
      by (rule placed) (use place_final [OF assms(1) [unfolded o(1)] i(1), folded o(1)] in \<open>simp add: o(2) Let_def\<close>)
  qed
qed

lemma merge_round_all_deferred:
  "length (snd (merge_round w order ps)) = length ps \<Longrightarrow> snd (merge_round w order ps) = ps"
  using merge_round_subseq by (metis subseq_same_length)

lemma merge_round_distinct: "distinct (ids_of ps) \<Longrightarrow> distinct (ids_of (snd (merge_round w order ps)))"
  using subseq_map [OF merge_round_subseq [of w order ps], of pl_hostThreadId]
  by (auto simp: subseq_conv_nths intro: distinct_nthsI)

text \<open>The last of a set of unplaced Threads has no unplaced successor.\<close>

lemma last_unplaced:
  assumes "distinct order" and "U \<noteq> {}" and "U \<subseteq> set order"
  obtains pre i post where "order = pre @ i # post" "i \<in> U" "set post \<inter> U = {}"
proof -
  have "\<exists>x \<in> set order. x \<in> U" using assms(2,3) by blast
  from split_list_last_propE [OF this] show thesis using that by (metis disjoint_iff)
qed

lemma merge_rounds_anchored:
  assumes "distinct order"
  shows "\<forall>p \<in> set ps. anchored order p \<Longrightarrow> distinct (ids_of ps) \<Longrightarrow>
    merge_rounds (filter (\<lambda>x. x \<notin> set (ids_of ps)) order) ps = order"
proof (induction "length ps" arbitrary: ps rule: less_induct)
  case less
  show ?case
  proof (cases "ps = []")
    case True
    then show ?thesis by (simp add: merge_rounds.simps)
  next
    case False
    let ?U = "set (ids_of ps)"
    let ?r = "merge_round (ids_of ps) (filter (\<lambda>x. x \<notin> ?U) order) ps"
    have r: "fst ?r = filter (\<lambda>x. x \<notin> set (ids_of (snd ?r))) order"
      "\<forall>p \<in> set (snd ?r). \<exists>b \<in> ?U. pl_beforeThreadId p = Some b"
      using merge_round_anchored [OF assms less.prems refl subset_refl] by auto
    have "length (snd ?r) \<noteq> length ps"
    proof
      assume "length (snd ?r) = length ps"
      then have all: "\<forall>p \<in> set ps. \<exists>b \<in> ?U. pl_beforeThreadId p = Some b"
        using merge_round_all_deferred r(2) by metis
      have "?U \<subseteq> set order"
        using less.prems(1) index_of_Some by (fastforce simp: anchored_def in_set_conv_nth)
      then obtain pre i post where o: "order = pre @ i # post" "i \<in> ?U" "set post \<inter> ?U = {}"
        using last_unplaced [OF assms, of ?U] False by (metis list.map_disc_iff set_empty)
      then obtain p where p: "p \<in> set ps" "pl_hostThreadId p = i" by auto
      then obtain b where b: "b \<in> ?U" "pl_beforeThreadId p = Some b" using all by blast
      have "index_of i order = Some (length pre)" using assms o(1) index_of_append by auto
      then have "pl_beforeThreadId p = successor order (length pre)"
        using less.prems(1) p by (auto simp: anchored_def)
      then have "b \<in> set post" using b(2) o(1) by (auto simp: successor_def nth_append nth_Cons' split: if_splits)
      then show False using b(1) o(3) by blast
    qed
    moreover have "merge_rounds (filter (\<lambda>x. x \<notin> set (ids_of (snd ?r))) order) (snd ?r) = order"
    proof (rule less.hyps)
      show "length (snd ?r) < length ps"
        using calculation merge_round_deferred [of "ids_of ps" "filter (\<lambda>x. x \<notin> ?U) order" ps] by simp
      show "\<forall>p \<in> set (snd ?r). anchored order p"
        using less.prems(1) merge_round_subset by fastforce
      show "distinct (ids_of (snd ?r))" by (rule merge_round_distinct) (rule less.prems)
    qed
    ultimately show ?thesis using False r(1) by (subst merge_rounds.simps) (simp add: Let_def)
  qed
qed

subsection \<open>Planning a move\<close>

lemma reanchor_ids [simp]: "ids_of (reanchor s order ps) = ids_of ps"
  by (auto simp: reanchor_def split: option.split)

lemma reanchor_section: "List.map pl_section (reanchor s order ps) = List.map pl_section ps"
  by (auto simp: reanchor_def split: option.split)

lemma set_reanchor:
  assumes "p' \<in> set (reanchor s order ps)" and "sc_id (pl_section p') = s" and "pl_hostThreadId p' \<in> set order"
  shows "anchored order p'"
proof -
  obtain p where p: "p \<in> set ps" "p' = (if sc_id (pl_section p) \<noteq> s then p else
      (case index_of (pl_hostThreadId p) order of None \<Rightarrow> p
       | Some i \<Rightarrow> p\<lparr>pl_beforeThreadId := successor order i\<rparr>))"
    using assms(1) by (auto simp: reanchor_def)
  have s: "sc_id (pl_section p) = s" using p(2) assms(2) by (auto split: if_splits)
  obtain i where i: "index_of (pl_hostThreadId p') order = Some i" using index_of_ex [OF assms(3)] by blast
  have "pl_hostThreadId p' = pl_hostThreadId p" using p(2) by (auto split: option.splits)
  then show ?thesis using p(2) s i by (simp add: anchored_def)
qed

lemma filter_reanchor:
  "filter (\<lambda>p. sc_id (pl_section p) = s') (reanchor s order ps) =
   reanchor s order (filter (\<lambda>p. sc_id (pl_section p) = s') ps)"
  by (induction ps) (auto simp: reanchor_def split: option.splits)

lemma insert_before_split:
  assumes "insert_before t before base = Some intended"
  obtains xs ys where "base = xs @ ys" "intended = xs @ t # ys"
    "length xs = (case before of None \<Rightarrow> length base | Some b \<Rightarrow> the (index_of b base))"
proof (cases before)
  case None
  then show thesis using that [of base "[]"] assms by (simp add: insert_before_def)
next
  case (Some b)
  then obtain i where i: "index_of b base = Some i" "intended = splice_in i t base"
    using assms by (auto simp: insert_before_def)
  then show thesis
    using that [of "take i base" "drop i base"] index_of_Some [OF i(1)] Some by (simp add: splice_in_def)
qed

definition in_section :: "string \<Rightarrow> section_placement list \<Rightarrow> section_placement list" where
  "in_section s ps = filter (\<lambda>p. sc_id (pl_section p) = s) ps"

text \<open>
  The situation of a move: the destination's merged order lists every Thread once, and every
  stored placement in that section is listed.
\<close>

definition order_complete :: "string list \<Rightarrow> string \<Rightarrow> section_placement list \<Rightarrow> bool" where
  "order_complete order s placements \<longleftrightarrow>
     distinct order \<and> distinct (ids_of placements) \<and> set (ids_of (in_section s placements)) \<subseteq> set order"

lemma in_section_reanchor: "in_section s (reanchor c order ps) = reanchor c order (in_section s ps)"
  by (simp add: in_section_def filter_reanchor)

lemma planned_move:
  assumes "planSectionMove move movingExternal current (Some dest) orders placements isExternal now = Inr plan"
    and "orders (sc_id dest) = Some order"
  obtains intended xs ys placed
  where "insert_before (mv_threadId move) (mv_beforeThreadId move) (filter (\<lambda>i. i \<noteq> mv_threadId move) order) = Some intended"
    and "filter (\<lambda>i. i \<noteq> mv_threadId move) order = xs @ ys" and "intended = xs @ mv_threadId move # ys"
    and "sp_placements plan = reanchor (sc_id dest) intended placed"
    and "sp_officialBeforeThreadId plan = find (\<lambda>x. \<not> isExternal x) ys"
    and "ids_of (in_section (sc_id dest) placed) =
        filter (\<lambda>i. i \<noteq> mv_threadId move) (ids_of (in_section (sc_id dest) placements)) @
        (if movingExternal then [mv_threadId move] else [])"
proof -
  let ?t = "mv_threadId move" and ?d = "sc_id dest"
  let ?base = "filter (\<lambda>i. i \<noteq> ?t) order"
  define others where "others = filter (\<lambda>p. pl_hostThreadId p \<noteq> ?t) placements"
  define left where "left = (case current of
                    Some c \<Rightarrow> if c \<noteq> ?d then reanchor c (order_without orders ?t c) others else others
                  | None \<Rightarrow> others)"
  define placed where "placed = (if movingExternal then left @ [moved_placement move placements dest now] else left)"
  have base: "order_without orders ?t ?d = ?base" by (simp add: order_without_def assms(2))
  obtain intended where ins: "insert_before ?t (mv_beforeThreadId move) ?base = Some intended"
    using assms(1) by (auto simp: planSectionMove_def Let_def base split: option.splits)
  obtain xs ys where xy: "?base = xs @ ys" "intended = xs @ ?t # ys"
    "length xs = (case mv_beforeThreadId move of None \<Rightarrow> length ?base | Some b \<Rightarrow> the (index_of b ?base))"
    using insert_before_split [OF ins] .
  have left_eq: "(case current of
                    Some c \<Rightarrow> if map_option sc_id (Some dest) \<noteq> Some c
                      then reanchor c (order_without orders ?t c) others else others
                  | None \<Rightarrow> others) = left"
    by (auto simp: left_def split: option.split)
  have plan [symmetric]: "plan = \<lparr>sp_placements = reanchor ?d intended placed,
      sp_officialBeforeThreadId = find (\<lambda>x. \<not> isExternal x) (drop (Suc (length xs)) intended)\<rparr>"
    using assms(1) unfolding planSectionMove_def Let_def others_def [symmetric] left_eq
    by (simp add: base [abs_def] ins placed_def xy(3) cong: option.case_cong)
  have "ids_of (in_section ?d left) = ids_of (in_section ?d others)"
    by (simp add: left_def in_section_reanchor split: option.split)
  also have "\<dots> = filter (\<lambda>i. i \<noteq> ?t) (ids_of (in_section ?d placements))"
    unfolding others_def in_section_def filter_filter filter_map by (simp add: comp_def conj_commute)
  finally have "ids_of (in_section ?d placed) =
      filter (\<lambda>i. i \<noteq> ?t) (ids_of (in_section ?d placements)) @ (if movingExternal then [?t] else [])"
    by (auto simp: placed_def in_section_def moved_placement_def)
  then show thesis using that ins xy(1,2) by (simp add: plan [symmetric])
qed

text \<open>
  C24. A planned move is carried out exactly: merging the official order with the planned placements
  of the destination gives the section's old order without the moved Thread, with the Thread put
  immediately before the requested one, or last.
\<close>

theorem section_move_reproduces_order:
  assumes "planSectionMove move movingExternal current (Some dest) orders placements isExternal now = Inr plan"
    and "orders (sc_id dest) = Some order" and "order_complete order (sc_id dest) placements"
  shows "\<exists>intended. insert_before (mv_threadId move) (mv_beforeThreadId move)
        (filter (\<lambda>i. i \<noteq> mv_threadId move) order) = Some intended \<and>
      mergeSectionOrder (filter (\<lambda>i. i \<notin> set (ids_of (in_section (sc_id dest) (sp_placements plan)))) intended)
        (in_section (sc_id dest) (sp_placements plan)) = intended"
proof (rule planned_move [OF assms(1,2)])
  fix intended xs ys placed
  let ?t = "mv_threadId move" and ?d = "sc_id dest"
  let ?ps = "in_section ?d (sp_placements plan)"
  assume p: "insert_before ?t (mv_beforeThreadId move) (filter (\<lambda>i. i \<noteq> ?t) order) = Some intended"
    "filter (\<lambda>i. i \<noteq> ?t) order = xs @ ys" "intended = xs @ ?t # ys"
    "sp_placements plan = reanchor ?d intended placed"
    "ids_of (in_section ?d placed) = filter (\<lambda>i. i \<noteq> ?t) (ids_of (in_section ?d placements)) @
        (if movingExternal then [?t] else [])"
  have o: "distinct order" "distinct (ids_of placements)" "set (ids_of (in_section ?d placements)) \<subseteq> set order"
    using assms(3) by (simp_all add: order_complete_def)
  have "distinct (xs @ ys)" "?t \<notin> set (xs @ ys)" using o(1) p(2) [symmetric] by simp_all
  then have di: "distinct intended" by (simp add: p(3))
  have ids: "ids_of ?ps = filter (\<lambda>i. i \<noteq> ?t) (ids_of (in_section ?d placements)) @ (if movingExternal then [?t] else [])"
    by (simp add: p(4,5) in_section_reanchor)
  have "distinct (ids_of (in_section ?d placements))"
    unfolding in_section_def using o(2) by (rule distinct_map_filter)
  then have dp: "distinct (ids_of ?ps)" unfolding ids by simp
  have "set (ids_of ?ps) \<subseteq> insert ?t (set (filter (\<lambda>i. i \<noteq> ?t) order))"
    unfolding ids using o(3) by auto
  then have sub: "set (ids_of ?ps) \<subseteq> set intended" by (simp add: p(2,3))
  have an: "\<forall>q \<in> set ?ps. anchored intended q"
  proof
    fix q assume q: "q \<in> set ?ps"
    then have "q \<in> set (reanchor ?d intended placed)" "sc_id (pl_section q) = ?d" by (auto simp: in_section_def p(4))
    moreover have "pl_hostThreadId q \<in> set intended" using q sub by auto
    ultimately show "anchored intended q" by (rule set_reanchor)
  qed
  have "mergeSectionOrder (filter (\<lambda>i. i \<notin> set (ids_of ?ps)) intended) ?ps = intended"
    using merge_rounds_anchored [OF di an dp] by (simp add: mergeSectionOrder_def)
  then show ?thesis using p(1) by blast
qed

lemma find_filter: "find P xs = (case filter P xs of [] \<Rightarrow> None | x # _ \<Rightarrow> Some x)"
  by (induction xs) auto

text \<open>
  For an official Thread the Host forwards a move before the next official Thread: in the
  official order the Thread then stands exactly where the intended order has it.
\<close>

theorem official_move_agrees:
  assumes "planSectionMove move False current (Some dest) orders placements isExternal now = Inr plan"
    and "orders (sc_id dest) = Some order" and "distinct order" and "\<not> isExternal (mv_threadId move)"
  shows "\<exists>intended. insert_before (mv_threadId move) (mv_beforeThreadId move)
        (filter (\<lambda>i. i \<noteq> mv_threadId move) order) = Some intended \<and>
      insert_before (mv_threadId move) (sp_officialBeforeThreadId plan)
        (filter (\<lambda>i. i \<noteq> mv_threadId move \<and> \<not> isExternal i) order) = Some (filter (\<lambda>i. \<not> isExternal i) intended)"
proof (rule planned_move [OF assms(1,2)])
  fix intended xs ys placed
  let ?t = "mv_threadId move" and ?f = "filter (\<lambda>i. \<not> isExternal i)"
  assume p: "insert_before ?t (mv_beforeThreadId move) (filter (\<lambda>i. i \<noteq> ?t) order) = Some intended"
    "filter (\<lambda>i. i \<noteq> ?t) order = xs @ ys" "intended = xs @ ?t # ys"
    "sp_officialBeforeThreadId plan = find (\<lambda>x. \<not> isExternal x) ys"
  have "filter (\<lambda>i. i \<noteq> ?t \<and> \<not> isExternal i) order = ?f (filter (\<lambda>i. i \<noteq> ?t) order)"
    by (simp add: conj_commute)
  then have base: "filter (\<lambda>i. i \<noteq> ?t \<and> \<not> isExternal i) order = ?f xs @ ?f ys" by (simp only: p(2) filter_append)
  have "distinct (xs @ ys)" using assms(3) p(2) [symmetric] by simp
  have "insert_before ?t (find (\<lambda>x. \<not> isExternal x) ys) (?f xs @ ?f ys) = Some (?f xs @ ?t # ?f ys)"
  proof (cases "?f ys")
    case Nil
    then have "find (\<lambda>x. \<not> isExternal x) ys = None" by (auto simp: find_None_iff filter_empty_conv)
    then show ?thesis using Nil by (simp add: insert_before_def)
  next
    case (Cons b bs)
    have "find (\<lambda>x. \<not> isExternal x) ys = Some b"
      using Cons by (simp add: find_filter)
    moreover have "b \<notin> set (?f xs)" using Cons \<open>distinct (xs @ ys)\<close> by (auto dest!: filter_eq_ConsD)
    ultimately show ?thesis using Cons by (simp add: insert_before_def index_of_append splice_in_length)
  qed
  then show ?thesis using p(1,3,4) base assms(4) by auto
qed

end
