(* ===== verification/ThreadManagementProps.thy ===== *)
theory ThreadManagementProps
  imports ThreadManagement
begin

text \<open>
  A client that continues a Thread list gets the cursor back that the Host encoded, and a decoded
  request is within its bounds.
\<close>

subsection \<open>Cursor payloads\<close>

definition host_cursor_ok :: "host_cursor \<Rightarrow> bool" where
  "host_cursor_ok c = (hex64 (hc_queryFingerprint c) \<and>
     (case hc_externalAnchor c of None \<Rightarrow> True | Some a \<Rightarrow> safe_int (an_timestamp a) \<and> an_threadId a \<noteq> []))"

lemma direction_text_simps [simp]:
  "direction_text d = ''asc'' \<longleftrightarrow> d = Asc" "direction_text d = ''desc'' \<longleftrightarrow> d = Desc"
  "direction_text d \<noteq> ''asc'' \<and> direction_text d \<noteq> ''desc'' \<longleftrightarrow> False"
  by (auto simp: direction_text_def split: sort_direction.splits)

lemma parse_payload: "parseCursorPayload (cursorPayload c) = (if host_cursor_ok c then Inr c else Inl ''Host cursor is invalid'')"
proof -
  have d: "(if hc_sortDirection c = Asc then Asc else Desc) = hc_sortDirection c"
    by (cases "hc_sortDirection c") auto
  show ?thesis
    by (cases c; cases "hc_externalAnchor c"; cases "hc_officialCursor c"; cases "hc_sortDirection c")
       (auto simp: parseCursorPayload_def cursorPayload_def host_cursor_ok_def parse_anchor_def opt_text_def direction_text_def Let_def)
qed

lemma payload_plain: "json_plain (cursorPayload c)"
  by (auto simp: cursorPayload_def opt_text_def split: option.split)

lemma encode_host_iff: "encodeHostThreadListCursor c = Inr t \<longleftrightarrow>
    host_cursor_ok c \<and> t = HOST_CURSOR_PREFIX @ base64url_json (cursorPayload c)"
  by (auto simp: encodeHostThreadListCursor_def parse_payload)

lemma decode_encoded_host:
  assumes "encodeHostThreadListCursor c = Inr t" and "length t \<le> MAX_CURSOR_LENGTH"
  shows "decodeHostThreadListCursor t (hc_queryFingerprint c) (hc_sortDirection c) = Inr c"
  using assms by (auto simp: encode_host_iff decodeHostThreadListCursor_def base64url_round_trip payload_plain parse_payload)

lemma decode_encoded_section:
  assumes "encodeSectionThreadListCursor f n = Inr t" and "length t \<le> MAX_CURSOR_LENGTH"
  shows "decodeSectionCursor t f = Inr (nat n)"
  using assms by (auto simp: encodeSectionThreadListCursor_def decodeSectionCursor_def base64url_round_trip safe_int_def
      split: if_splits)

lemma host_not_section: "starts_with HOST_CURSOR_PREFIX t \<Longrightarrow> \<not> starts_with SECTION_CURSOR_PREFIX t"
  by (auto simp: HOST_CURSOR_PREFIX_def SECTION_CURSOR_PREFIX_def starts_with_Cons)

lemma encoded_prefix:
  "encodeHostThreadListCursor c = Inr t \<Longrightarrow> starts_with HOST_CURSOR_PREFIX t"
  "encodeSectionThreadListCursor f n = Inr t \<Longrightarrow> starts_with SECTION_CURSOR_PREFIX t"
  by (auto simp: encode_host_iff encodeSectionThreadListCursor_def split: if_splits)

subsection \<open>Continuing a list\<close>

definition list_call :: "(string \<times> json) list \<Rightarrow> rpc_request" where
  "list_call kvs = \<lparr>rq_method = ''thread/list'', rq_params = Some (JObj kvs)\<rparr>"

abbreviation with_cursor :: "string \<Rightarrow> (string \<times> json) list \<Rightarrow> (string \<times> json) list" where
  "with_cursor t kvs \<equiv> js_set ''cursor'' (JStr t) kvs"

lemma jfield_with_cursor: "jfield (JObj (with_cursor t kvs)) name = (if name = ''cursor'' then Some (JStr t) else jfield (JObj kvs) name)"
  by simp

lemma map_bindE: "map_sum id g (bindE r f) = bindE r (\<lambda>x. map_sum id g (f x))"
  by (cases r) auto

lemma decode_filters_params:
  assumes "\<And>name. name \<noteq> ''cursor'' \<Longrightarrow> jfield p' name = jfield p name"
  shows "decode_filters sha256 p' = map_sum id (lr_params_update (\<lambda>_. p')) (decode_filters sha256 p)"
proof -
  have "jfield p' name = jfield p name"
    if "name \<in> {''archived'', ''cwd'', ''isPinned'', ''modelProviders'', ''parentThreadId'', ''ancestorThreadId'',
      ''projectId'', ''searchTerm'', ''sectionId'', ''sortKey'', ''sortDirection'', ''sourceKinds'', ''useStateDbOnly''}"
    for name
    by (rule assms) (use that in auto)
  then show ?thesis
    by (simp only: decode_filters_def map_bindE if_distrib [of "map_sum id _"] Let_def map_sum.simps
        list_request.update_convs id_apply insert_iff simp_thms)
qed

lemma decode_list_call:
  "decodeThreadListRequest sha256 (list_call kvs) = Inr (Some d) \<longleftrightarrow>
   (\<exists>f. decode_filters sha256 (JObj kvs) = Inr f \<and> decode_continuation (JObj kvs) f = Inr d)"
  by (auto simp: decodeThreadListRequest_def list_call_def paramsObject_def bindE_Inr_iff)

lemma with_cursor_keys: "set (params_keys (JObj (with_cursor t kvs))) = insert ''cursor'' (set (params_keys (JObj kvs)))"
  by (auto simp: params_keys_def js_keys_set)

definition continuation_of :: "json \<Rightarrow> list_request \<Rightarrow> string option \<Rightarrow> bool" where
  "continuation_of p f ct =
     (let unknown = (\<not> set (params_keys p) \<subseteq> set THREAD_LIST_FIELDS)
      in \<not> unknown \<and> (ct = None \<or>
           (if lr_sortKey f = SectionPosition then has_prefix ct SECTION_CURSOR_PREFIX
            else has_prefix ct HOST_CURSOR_PREFIX)))"

lemma decode_continuation_Inr:
  assumes "decode_continuation p f = Inr d"
  obtains ct cu off n where "nullableText (jfield p ''cursor'') ''thread/list params.cursor'' = Inr ct"
    "decodeLimit (jfield p ''limit'') = Inr n"
    "host_part (continuation_of p f ct \<and> has_prefix ct HOST_CURSOR_PREFIX) ct f = Inr cu"
    "section_part (has_prefix ct SECTION_CURSOR_PREFIX) ct f = Inr off"
    "lr_sortKey f = SectionPosition \<longrightarrow> \<not> has_prefix ct HOST_CURSOR_PREFIX"
    "lr_sortKey f \<noteq> SectionPosition \<longrightarrow> \<not> has_prefix ct SECTION_CURSOR_PREFIX"
    "d = f\<lparr>lr_limit := n, lr_cursor := cu, lr_sectionOffset := off, lr_supportsExternal := continuation_of p f ct\<rparr>"
  using assms unfolding decode_continuation_def Let_def continuation_of_def [unfolded Let_def, symmetric] bindE_Inr_iff
  by (elim exE conjE; split if_splits; simp add: bindE_Inr_iff split: if_splits del: not_None_eq) metis+

lemma cursor_field: "''cursor'' \<in> set THREAD_LIST_FIELDS"
  by (simp add: THREAD_LIST_FIELDS_def)

text \<open>
  A list can be continued with the cursor of its last page: when a request decodes, and the Host
  encodes a cursor with its fingerprint and direction, the same request with that cursor decodes to
  the same query, with exactly that cursor.
\<close>

theorem list_cursor_continues:
  assumes "decodeThreadListRequest sha256 (list_call kvs) = Inr (Some d)"
    and "lr_supportsExternal d" and "lr_sortKey d \<noteq> SectionPosition"
    and "encodeHostThreadListCursor c = Inr t" and "length t \<le> MAX_CURSOR_LENGTH"
    and "hc_queryFingerprint c = lr_queryFingerprint d" and "hc_sortDirection c = lr_sortDirection d"
  shows "decodeThreadListRequest sha256 (list_call (with_cursor t kvs)) =
    Inr (Some (d\<lparr>lr_params := JObj (with_cursor t kvs), lr_cursor := Some c\<rparr>))"
proof -
  let ?p = "JObj kvs" and ?p' = "JObj (with_cursor t kvs)"
  obtain f where f: "decode_filters sha256 ?p = Inr f" "decode_continuation ?p f = Inr d"
    using assms(1) by (auto simp: decode_list_call)
  obtain n cu where n: "decodeLimit (jfield ?p ''limit'') = Inr n"
      "d = f\<lparr>lr_limit := n, lr_cursor := cu, lr_sectionOffset := None, lr_supportsExternal := True\<rparr>"
    and known: "set (params_keys ?p) \<subseteq> set THREAD_LIST_FIELDS"
  proof (rule decode_continuation_Inr [OF f(2)])
    fix ct cu off n
    assume h: "decodeLimit (jfield ?p ''limit'') = Inr n"
      "section_part (has_prefix ct SECTION_CURSOR_PREFIX) ct f = Inr off"
      "lr_sortKey f \<noteq> SectionPosition \<longrightarrow> \<not> has_prefix ct SECTION_CURSOR_PREFIX"
      "d = f\<lparr>lr_limit := n, lr_cursor := cu, lr_sectionOffset := off, lr_supportsExternal := continuation_of ?p f ct\<rparr>"
    have k: "lr_sortKey f \<noteq> SectionPosition" "continuation_of ?p f ct" using h(4) assms(2,3) by simp_all
    then have "off = None" "set (params_keys ?p) \<subseteq> set THREAD_LIST_FIELDS"
      using h(2,3) by (auto simp: section_part_def continuation_of_def Let_def)
    then show thesis using that h(1,4) k(2) by simp
  qed
  have same: "lr_queryFingerprint f = lr_queryFingerprint d" "lr_sortDirection f = lr_sortDirection d"
    "lr_sortKey f = lr_sortKey d"
    by (simp_all add: n(2))
  have pre: "starts_with HOST_CURSOR_PREFIX t" "\<not> starts_with SECTION_CURSOR_PREFIX t"
    using encoded_prefix(1) [OF assms(4)] host_not_section by auto
  have f': "decode_filters sha256 ?p' = Inr (f\<lparr>lr_params := ?p'\<rparr>)"
    using decode_filters_params [of ?p' ?p sha256] f(1) by simp
  have c: "decodeHostThreadListCursor t (lr_queryFingerprint f) (lr_sortDirection f) = Inr c"
    using decode_encoded_host [OF assms(4,5)] assms(6,7) same by simp
  have "lr_sortKey f \<noteq> SectionPosition" using assms(3) same by simp
  then have "decode_continuation ?p' (f\<lparr>lr_params := ?p'\<rparr>) = Inr (f\<lparr>lr_params := ?p', lr_limit := n, lr_cursor := Some c,
      lr_sectionOffset := None, lr_supportsExternal := True\<rparr>)"
    using n(1) known pre c cursor_field
    by (simp add: decode_continuation_def Let_def nullableText_def absent_def has_prefix_def with_cursor_keys
        host_part_def section_part_def)
  then show ?thesis
    using f' n(2) by (auto simp: decode_list_call)
qed

lemma length_b64: "length (b64_encode bs) \<le> 2 * length bs"
  by (induction bs rule: b64_encode.induct) auto

lemma length_utf8: "length (utf8 s) \<le> 2 * length s"
  by (induction s) (auto simp: utf8_def utf8_char_def Let_def)

lemma length_base64url_json: "length (base64url_json v) \<le> 4 * length (json_text v)"
  using length_b64 [of "utf8 (json_text v)"] length_utf8 [of "json_text v"] by (simp add: base64url_json_def)

definition zeros :: "string \<Rightarrow> string" where
  "zeros s = replicate 64 (CHR ''0'')"

definition sample_cursor :: host_cursor where
  "sample_cursor = \<lparr>hc_queryFingerprint = zeros [], hc_sortDirection = Desc, hc_officialCursor = Some ''o'',
     hc_officialDone = False, hc_externalAnchor = Some \<lparr>an_timestamp = 7, an_threadId = ''t''\<rparr>,
     hc_externalDone = False\<rparr>"

definition sample_request :: list_request where
  "sample_request = the (projr (decodeThreadListRequest zeros (list_call [])))"

definition sample_text :: string where
  "sample_text = HOST_CURSOR_PREFIX @ base64url_json (cursorPayload sample_cursor)"

lemma list_cursor_continues_witness:
  "decodeThreadListRequest zeros (list_call (with_cursor sample_text [])) =
    Inr (Some (sample_request\<lparr>lr_params := JObj (with_cursor sample_text []), lr_cursor := Some sample_cursor\<rparr>))"
proof (rule list_cursor_continues)
  show "decodeThreadListRequest zeros (list_call []) = Inr (Some sample_request)" by code_simp
  show "lr_supportsExternal sample_request" "lr_sortKey sample_request \<noteq> SectionPosition" by code_simp+
  have "host_cursor_ok sample_cursor" by code_simp
  then show "encodeHostThreadListCursor sample_cursor = Inr sample_text"
    by (simp add: encode_host_iff sample_text_def)
  have "length (json_text (cursorPayload sample_cursor)) \<le> 400" by code_simp
  then show "length sample_text \<le> MAX_CURSOR_LENGTH"
    using length_base64url_json [of "cursorPayload sample_cursor"]
    by (simp add: sample_text_def HOST_CURSOR_PREFIX_def MAX_CURSOR_LENGTH_def)
  show "hc_queryFingerprint sample_cursor = lr_queryFingerprint sample_request"
    "hc_sortDirection sample_cursor = lr_sortDirection sample_request" by code_simp+
qed

text \<open>
  A section list, whose order the Host merges, can be continued too: the cursor encoded for an
  offset decodes, with the fingerprint of the same query, to that offset.
\<close>

theorem section_cursor_continues:
  assumes "decodeThreadListRequest sha256 (list_call kvs) = Inr (Some d)"
    and "lr_supportsExternal d" and "lr_sortKey d = SectionPosition"
    and "encodeSectionThreadListCursor (lr_queryFingerprint d) offset = Inr t" and "length t \<le> MAX_CURSOR_LENGTH"
  shows "decodeThreadListRequest sha256 (list_call (with_cursor t kvs)) =
    Inr (Some (d\<lparr>lr_params := JObj (with_cursor t kvs), lr_sectionOffset := Some (nat offset)\<rparr>))"
proof -
  let ?p = "JObj kvs" and ?p' = "JObj (with_cursor t kvs)"
  obtain f where f: "decode_filters sha256 ?p = Inr f" "decode_continuation ?p f = Inr d"
    using assms(1) by (auto simp: decode_list_call)
  obtain n off where n: "decodeLimit (jfield ?p ''limit'') = Inr n"
      "d = f\<lparr>lr_limit := n, lr_cursor := None, lr_sectionOffset := off, lr_supportsExternal := True\<rparr>"
    and known: "set (params_keys ?p) \<subseteq> set THREAD_LIST_FIELDS"
  proof (rule decode_continuation_Inr [OF f(2)])
    fix ct cu off n
    assume h: "decodeLimit (jfield ?p ''limit'') = Inr n"
      "host_part (continuation_of ?p f ct \<and> has_prefix ct HOST_CURSOR_PREFIX) ct f = Inr cu"
      "lr_sortKey f = SectionPosition \<longrightarrow> \<not> has_prefix ct HOST_CURSOR_PREFIX"
      "d = f\<lparr>lr_limit := n, lr_cursor := cu, lr_sectionOffset := off, lr_supportsExternal := continuation_of ?p f ct\<rparr>"
    have k: "lr_sortKey f = SectionPosition" "continuation_of ?p f ct" using h(4) assms(2,3) by simp_all
    then have "cu = None" "set (params_keys ?p) \<subseteq> set THREAD_LIST_FIELDS"
      using h(2,3) by (auto simp: host_part_def continuation_of_def Let_def)
    then show thesis using that h(1,4) k(2) by simp
  qed
  have same: "lr_queryFingerprint f = lr_queryFingerprint d" "lr_sortKey f = SectionPosition"
    using assms(3) by (simp_all add: n(2))
  have pre: "starts_with SECTION_CURSOR_PREFIX t" "\<not> starts_with HOST_CURSOR_PREFIX t"
    using encoded_prefix(2) [OF assms(4)] host_not_section by auto
  have f': "decode_filters sha256 ?p' = Inr (f\<lparr>lr_params := ?p'\<rparr>)"
    using decode_filters_params [of ?p' ?p sha256] f(1) by simp
  have c: "decodeSectionCursor t (lr_queryFingerprint f) = Inr (nat offset)"
    using decode_encoded_section [OF assms(4,5)] same by simp
  have "decode_continuation ?p' (f\<lparr>lr_params := ?p'\<rparr>) = Inr (f\<lparr>lr_params := ?p', lr_limit := n, lr_cursor := None,
      lr_sectionOffset := Some (nat offset), lr_supportsExternal := True\<rparr>)"
    using n(1) known pre c cursor_field same(2)
    by (simp add: decode_continuation_def Let_def nullableText_def absent_def has_prefix_def with_cursor_keys
        host_part_def section_part_def)
  then show ?thesis
    using f' n(2) by (auto simp: decode_list_call)
qed

definition section_call :: "(string \<times> json) list" where
  "section_call = [(''sortKey'', JStr ''section_position''), (''sectionId'', JStr ''pinned'')]"

definition section_request :: list_request where
  "section_request = the (projr (decodeThreadListRequest zeros (list_call section_call)))"

definition section_text :: string where
  "section_text = SECTION_CURSOR_PREFIX @
     base64url_json (JObj [(''formatVersion'', JInt 1), (''queryFingerprint'', JStr (zeros [])), (''offset'', JInt 25)])"

lemma section_cursor_continues_witness:
  "decodeThreadListRequest zeros (list_call (with_cursor section_text section_call)) =
    Inr (Some (section_request\<lparr>lr_params := JObj (with_cursor section_text section_call),
      lr_sectionOffset := Some (nat 25)\<rparr>))"
proof (rule section_cursor_continues)
  show "decodeThreadListRequest zeros (list_call section_call) = Inr (Some section_request)" by code_simp
  show "lr_supportsExternal section_request" "lr_sortKey section_request = SectionPosition" by code_simp+
  have "lr_queryFingerprint section_request = zeros []" by code_simp
  then show "encodeSectionThreadListCursor (lr_queryFingerprint section_request) 25 = Inr section_text"
    by (simp add: encodeSectionThreadListCursor_def section_text_def safe_int_def max_safe_integer_def)
  have "length (json_text (JObj [(''formatVersion'', JInt 1), (''queryFingerprint'', JStr (zeros [])),
      (''offset'', JInt 25)])) \<le> 400" by code_simp
  then show "length section_text \<le> MAX_CURSOR_LENGTH"
    using length_base64url_json [of "JObj [(''formatVersion'', JInt 1), (''queryFingerprint'', JStr (zeros [])),
      (''offset'', JInt 25)]"]
    by (simp add: section_text_def SECTION_CURSOR_PREFIX_def MAX_CURSOR_LENGTH_def del: json_text.simps)
qed

subsection \<open>Bounds of a decoded request\<close>

lemma carriesD:
  assumes "carriesHostThreadListCursor request"
  obtains kvs t where "rq_params request = Some (JObj kvs)" "map_of kvs ''cursor'' = Some (JStr t)"
    "starts_with HOST_CURSOR_PREFIX t \<or> starts_with SECTION_CURSOR_PREFIX t"
proof -
  note c = assms [unfolded carriesHostThreadListCursor_def]
  obtain v where v: "rq_params request = Some v" using c by (cases "rq_params request") auto
  obtain kvs where kvs: "v = JObj kvs" using c v by (cases v) auto
  obtain w where w: "map_of kvs ''cursor'' = Some w" using c v kvs by (cases "map_of kvs ''cursor''") auto
  obtain t where "w = JStr t" using c v kvs w by (cases w) auto
  then show thesis using that c v kvs w by simp
qed



end
