(* ===== verification/ThreadSectionMoves.thy ===== *)
theory ThreadSectionMoves
  imports ThreadSectionsProps ThreadManagementProps
begin

text \<open>
  Effects of a section move: how many requests it makes, what it saves, and how it fails.
\<close>

subsection \<open>Requests are bounded\<close>

lemma asks_official_rows: "asks_at_most fuel (official_rows server params fuel cursor rows)"
proof (induction fuel arbitrary: cursor rows)
  case (Suc fuel)
  have "asks_at_most (1 + fuel) (official_rows server params (Suc fuel) cursor rows)"
    unfolding official_rows.simps
    by (rule asks_bind) (use Suc.IH in \<open>auto intro: asks_weaken [OF asks_ask] split: sum.split\<close>)
  then show ?case by simp
qed simp

lemma asks_official_section: "asks_at_most fuel (official_section server s fuel cursor)"
proof (induction fuel arbitrary: cursor)
  case (Suc fuel)
  have "asks_at_most (1 + fuel) (official_section server s (Suc fuel) cursor)"
    unfolding official_section.simps
    by (rule asks_bind)
      (use Suc.IH in \<open>auto intro: asks_weaken [OF asks_ask] split: option.split json.split simp: Let_def\<close>)
  then show ?case by simp
qed simp

lemma asks_sectionOrder: "asks_at_most 256 (sectionOrder server s ps)"
proof -
  have "asks_at_most (256 + 0) (sectionOrder server s ps)"
    unfolding sectionOrder_def listAllOfficialRows_def by (rule asks_bind [OF asks_official_rows]) auto
  then show ?thesis by simp
qed

lemma asks_section_orders: "asks_at_most (length ss * 256) (section_orders server ps ss orders)"
proof (induction ss arbitrary: orders)
  case (Cons s ss)
  have "asks_at_most (256 + length ss * 256) (section_orders server ps (s # ss) orders)"
    unfolding section_orders.simps by (rule asks_bind [OF asks_sectionOrder Cons.IH])
  then show ?case by simp
qed simp

lemma length_affected: "length (affected_sections a b) \<le> 2"
  by (simp add: affected_sections_def split: option.split)

lemma asks_move_sections: "asks_at_most (if ext then 256 else 1) (move_sections server move ext ps)"
proof (cases ext)
  case True
  have "asks_at_most (256 + 0) (bindA (findOfficialSection server s) (\<lambda>d. ret (Inr (c, Some d))))" for s c
    unfolding findOfficialSection_def by (rule asks_bind [OF asks_official_section]) auto
  then show ?thesis using True by (auto simp: move_sections_def Let_def split: option.split)
next
  case False
  have "asks_at_most (1 + 0) (move_sections server move ext ps)"
    unfolding move_sections_def if_not_P [OF False]
    by (rule asks_bind) (auto intro: asks_weaken [OF asks_ask] simp: Let_def split: option.split)
  then show ?thesis using False by simp
qed

lemma asks_plan_move: "asks_at_most ((if ext then 256 else 1) + 512) (plan_move server move ext ids ps now)"
  unfolding plan_move_def
proof (rule asks_bind [OF asks_move_sections])
  fix x
  have orders: "asks_at_most (512 + 0) (bindA (section_orders server ps (affected_sections current (mv_sectionId move)) [])
      (\<lambda>orders. case planSectionMove move ext current destination (js_get orders) ps (\<lambda>t. t \<in> ids) now of
               Inl e \<Rightarrow> throw e | Inr plan \<Rightarrow> ret (Inr plan)))" for current destination
  proof (rule asks_bind)
    have "length (affected_sections current (mv_sectionId move)) * 256 \<le> 512"
      using length_affected [of current "mv_sectionId move"] by simp
    then show "asks_at_most 512 (section_orders server ps (affected_sections current (mv_sectionId move)) [])"
      by (rule asks_weaken [OF asks_section_orders])
  qed (auto split: sum.split)
  then show "asks_at_most 512 (case x of Inl e \<Rightarrow> ret (Inl e) | Inr (current, destination) \<Rightarrow>
      bindA (section_orders server ps (affected_sections current (mv_sectionId move)) [])
        (\<lambda>orders. case planSectionMove move ext current destination (js_get orders) ps (\<lambda>t. t \<in> ids) now of
               Inl e \<Rightarrow> throw e | Inr plan \<Rightarrow> ret (Inr plan)))"
    by (auto split: sum.split)
qed

lemma asks_apply_move: "asks_at_most (if ext then 0 else 1) (apply_move server save move ext plan)"
proof (cases ext)
  case False
  have "asks_at_most (1 + 0) (apply_move server save move ext plan)"
    unfolding apply_move_def if_not_P [OF False]
    by (rule asks_bind) (auto intro: asks_weaken [OF asks_ask] split: option.split)
  then show ?thesis using False by simp
qed (auto simp: apply_move_def split: option.split)

lemma asks_caught: "asks_at_most n m \<Longrightarrow> asks_at_most n (caught m)"
proof (rule asks_at_mostI)
  fix calls assume "asks_at_most n m"
  moreover have "snd (caught m calls) = snd (m calls)"
    by (cases "m calls"; cases "fst (m calls)"; cases "projl (fst (m calls))") (auto simp: caught_def)
  ultimately show "\<exists>more. snd (caught m calls) = calls @ more \<and> length more \<le> n" by (simp add: asks_at_most_def)
qed

text \<open>
  A section move ends: whatever the official server answers, even cursors that never run out,
  it is asked at most 768 times.
\<close>

theorem section_move_bounded:
  "\<exists>more. snd (moveThreadSection server save move movingExternal externalThreadIds placements now calls) = calls @ more \<and>
     length more \<le> 768"
proof -
  let ?m = "bindA (plan_move server move movingExternal externalThreadIds placements now) (\<lambda>r.
           case r of Inl e \<Rightarrow> ret (MoveError e, None) | Inr plan \<Rightarrow> apply_move server save move movingExternal plan)"
  have "asks_at_most ((if movingExternal then 256 else 1) + 512 + (if movingExternal then 0 else 1)) ?m"
  proof (rule asks_bind [OF asks_plan_move])
    fix r
    show "asks_at_most (if movingExternal then 0 else 1)
      (case r of Inl e \<Rightarrow> ret (MoveError e, None) | Inr plan \<Rightarrow> apply_move server save move movingExternal plan)"
      by (cases r) (simp_all only: sum.case asks_ret asks_apply_move)
  qed
  then have "asks_at_most 768 ?m" by (rule asks_weaken) simp
  then have "asks_at_most 768 (moveThreadSection server save move movingExternal externalThreadIds placements now)"
    by (simp add: moveThreadSection_def asks_caught)
  then show ?thesis by (simp add: asks_at_most_def)
qed

subsection \<open>What a move saves\<close>

lemma apply_move_result:
  assumes "apply_move server save move ext plan calls = (Inr (outcome, saved), calls')"
  shows "(case saved of None \<Rightarrow> outcome \<noteq> Moved None | Some ps \<Rightarrow> outcome = Moved None \<and> ps = sp_placements plan \<and> save ps = None) \<and>
    outcome \<noteq> Forward \<and>
    (\<not> ext \<and> (\<exists>e. outcome = Moved e) \<longrightarrow>
       (\<exists>p r. calls' = calls @ [(''thread/section/move'', p)] \<and> server calls ''thread/section/move'' p = Inr r \<and>
          officialError r = None))"
  using assms by (auto simp: apply_move_def bindA_Inr_iff split: if_splits option.splits)

lemma plan_moveD:
  assumes "plan_move server move ext ids placements now calls = (Inr (Inr plan), calls1)"
  shows "\<exists>current destination orders. planSectionMove move ext current destination orders placements (\<lambda>t. t \<in> ids) now = Inr plan"
  using assms unfolding plan_move_def bindA_Inr_iff
proof (elim exE conjE)
  fix sections calls2
  assume s: "(case sections of Inl e \<Rightarrow> ret (Inl e) | Inr (current, destination) \<Rightarrow>
      bindA (section_orders server placements (affected_sections current (mv_sectionId move)) []) (\<lambda>orders.
             case planSectionMove move ext current destination (js_get orders) placements (\<lambda>t. t \<in> ids) now of
               Inl e \<Rightarrow> throw e | Inr plan \<Rightarrow> ret (Inr plan))) calls2 = (Inr (Inr plan :: json + section_move_plan), calls1)"
  then obtain current destination where "sections = Inr (current, destination)" by (cases sections) auto
  with s have "\<exists>orders calls3. (case planSectionMove move ext current destination (js_get orders) placements
      (\<lambda>t. t \<in> ids) now of Inl e \<Rightarrow> throw e | Inr plan \<Rightarrow> ret (Inr plan)) calls3 = (Inr (Inr plan :: json + section_move_plan), calls1)"
    by (auto simp: bindA_Inr_iff)
  then obtain orders calls3 where o: "(case planSectionMove move ext current destination (js_get orders) placements
      (\<lambda>t. t \<in> ids) now of Inl e \<Rightarrow> throw e | Inr plan \<Rightarrow> ret (Inr plan)) calls3 = (Inr (Inr plan :: json + section_move_plan), calls1)" by blast
  then have "planSectionMove move ext current destination (js_get orders) placements (\<lambda>t. t \<in> ids) now = Inr plan"
    by (cases "planSectionMove move ext current destination (js_get orders) placements (\<lambda>t. t \<in> ids) now") auto
  then show ?thesis by blast
qed

text \<open>
  Placements are saved exactly when the move is reported as applied without a reservation, and
  what is saved is a plan; a move that is forwarded asks and saves nothing; for an official Thread
  nothing is saved, and no move reported, unless the official server accepted its part last.
  The two expected kinds of failure never escape as exceptions.
\<close>

theorem section_move_outcomes:
  assumes "moveThreadSection server save move movingExternal externalThreadIds placements now calls = (result, calls')"
  shows "case result of
      Inl e \<Rightarrow> \<exists>text. e = HostError text
    | Inr (outcome, saved) \<Rightarrow>
        (saved \<noteq> None \<longleftrightarrow> outcome = Moved None) \<and>
        (\<forall>ps. saved = Some ps \<longrightarrow> save ps = None \<and>
           (\<exists>plan current destination orders. ps = sp_placements plan \<and>
              planSectionMove move movingExternal current destination orders placements
                (\<lambda>t. t \<in> externalThreadIds) now = Inr plan)) \<and>
        (outcome = Forward \<longrightarrow> calls' = calls \<and> saved = None) \<and>
        (\<not> movingExternal \<and> (\<exists>e. outcome = Moved e) \<longrightarrow>
          (\<exists>pre p r. calls' = pre @ [(''thread/section/move'', p)] \<and> server pre ''thread/section/move'' p = Inr r \<and>
             officialError r = None))"
proof (cases "moveThreadSection server save move movingExternal externalThreadIds placements now = ret (Forward, None)")
  case True
  then show ?thesis using assms by auto
next
  case False
  let ?m = "bindA (plan_move server move movingExternal externalThreadIds placements now) (\<lambda>r.
           case r of Inl e \<Rightarrow> ret (MoveError e, None) | Inr plan \<Rightarrow> apply_move server save move movingExternal plan)"
  have "caught ?m calls = (result, calls')"
    using assms False by (auto simp: moveThreadSection_def split: if_splits)
  then consider (error) t where "result = Inl (HostError t)"
    | (caught) e where "result = Inr (MoveError e, None)"
    | (val) outcome saved where "result = Inr (outcome, saved)" "?m calls = (Inr (outcome, saved), calls')"
    by (cases "?m calls"; cases "fst (?m calls)"; cases "projl (fst (?m calls))") (auto simp: caught_def)
  then show ?thesis
  proof cases
    case (val outcome saved)
    show ?thesis
    proof (cases "\<exists>e. outcome = MoveError e \<and> saved = None")
      case True
      then show ?thesis using val(1) by auto
    next
      case False
      then obtain plan calls1 where plan: "plan_move server move movingExternal externalThreadIds placements now calls = (Inr (Inr plan), calls1)"
        and fin: "apply_move server save move movingExternal plan calls1 = (Inr (outcome, saved), calls')"
      proof -
        obtain r calls1 where r: "plan_move server move movingExternal externalThreadIds placements now calls = (Inr r, calls1)"
          "(case r of Inl e \<Rightarrow> ret (MoveError e, None)
            | Inr plan \<Rightarrow> apply_move server save move movingExternal plan) calls1 = (Inr (outcome, saved), calls')"
          using val(2) unfolding bindA_Inr_iff by blast
        then show thesis using that False by (cases r) auto
      qed
      have "\<exists>current destination orders. planSectionMove move movingExternal current destination orders placements
          (\<lambda>t. t \<in> externalThreadIds) now = Inr plan"
        using plan_moveD [OF plan] .
      then show ?thesis
        using apply_move_result [OF fin] val(1) by (cases saved) auto
    qed
  qed auto
qed

subsection \<open>Instances\<close>

definition pinned :: thread_section where
  "pinned = \<lparr>sc_id = ''pinned'', sc_name = ''Pinned'', sc_appearance = None\<rparr>"

definition pinned_placements :: "section_placement list" where
  "pinned_placements =
     [\<lparr>pl_hostThreadId = ''e'', pl_section = pinned, pl_enteredAt = 0, pl_beforeThreadId = Some ''f''\<rparr>,
      \<lparr>pl_hostThreadId = ''f'', pl_section = pinned, pl_enteredAt = 0, pl_beforeThreadId = Some ''b''\<rparr>]"

definition pinned_order :: "string list" where
  "pinned_order = [''a'', ''e'', ''f'', ''b'', ''c'']"

definition move_to :: "string \<Rightarrow> string option \<Rightarrow> section_move_request" where
  "move_to t b = \<lparr>mv_threadId = t, mv_sectionId = Some ''pinned'', mv_beforeThreadId = b\<rparr>"

definition sample_plan :: "string \<Rightarrow> string option \<Rightarrow> bool \<Rightarrow> section_move_plan" where
  "sample_plan t b ext = projr (planSectionMove (move_to t b) ext (Some ''pinned'') (Some pinned)
     (js_get [(''pinned'', pinned_order)]) pinned_placements (\<lambda>i. i = ''e'' \<or> i = ''f'') 7)"

lemma section_move_reproduces_order_witness:
  "insert_before ''e'' (Some ''c'') [''a'', ''f'', ''b'', ''c''] = Some [''a'', ''f'', ''b'', ''e'', ''c''] \<and>
   mergeSectionOrder [''a'', ''b'', ''c''] (in_section ''pinned'' (sp_placements (sample_plan ''e'' (Some ''c'') True))) =
     [''a'', ''f'', ''b'', ''e'', ''c'']"
proof -
  have p: "planSectionMove (move_to ''e'' (Some ''c'')) True (Some ''pinned'') (Some pinned)
      (js_get [(''pinned'', pinned_order)]) pinned_placements (\<lambda>i. i = ''e'' \<or> i = ''f'') 7 =
      Inr (sample_plan ''e'' (Some ''c'') True)" by code_simp
  have o: "js_get [(''pinned'', pinned_order)] (sc_id pinned) = Some pinned_order"
    "order_complete pinned_order (sc_id pinned) pinned_placements" by code_simp+
  have i: "insert_before ''e'' (Some ''c'') [''a'', ''f'', ''b'', ''c''] = Some [''a'', ''f'', ''b'', ''e'', ''c'']"
    "filter (\<lambda>i. i \<noteq> ''e'') pinned_order = [''a'', ''f'', ''b'', ''c'']"
    "ids_of (in_section ''pinned'' (sp_placements (sample_plan ''e'' (Some ''c'') True))) = [''f'', ''e'']"
    "sc_id pinned = ''pinned''" by code_simp+
  show ?thesis
    using section_move_reproduces_order [OF p o] by (simp add: i move_to_def)
qed

lemma official_move_agrees_witness:
  "insert_before ''c'' (sp_officialBeforeThreadId (sample_plan ''c'' (Some ''f'') False)) [''a'', ''b''] =
     Some [''a'', ''c'', ''b'']"
proof -
  have p: "planSectionMove (move_to ''c'' (Some ''f'')) False (Some ''pinned'') (Some pinned)
      (js_get [(''pinned'', pinned_order)]) pinned_placements (\<lambda>i. i = ''e'' \<or> i = ''f'') 7 =
      Inr (sample_plan ''c'' (Some ''f'') False)" by code_simp
  have o: "js_get [(''pinned'', pinned_order)] (sc_id pinned) = Some pinned_order" "distinct pinned_order"
    "\<not> (\<lambda>i. i = ''e'' \<or> i = ''f'') (mv_threadId (move_to ''c'' (Some ''f'')))" by code_simp+
  have i: "insert_before ''c'' (Some ''f'') (filter (\<lambda>i. i \<noteq> ''c'') pinned_order) = Some [''a'', ''e'', ''c'', ''f'', ''b'']"
    "filter (\<lambda>i. i \<noteq> ''c'' \<and> i \<noteq> ''e'' \<and> i \<noteq> ''f'') pinned_order = [''a'', ''b'']" by code_simp+
  show ?thesis
    using official_move_agrees [OF p o] by (simp add: i move_to_def)
qed

definition failing_server :: official where
  "failing_server calls method params = Inl (HostError ''closed'')"

lemma section_move_outcomes_witness:
  "\<exists>text. moveThreadSection failing_server (\<lambda>_. None) (move_to ''e'' None) True {''e''} pinned_placements 7 [] =
     (Inl (HostError text), [(''threadSection/list'', JObj [(''cursor'', JNull), (''limit'', JInt 100)])])"
proof -
  have m: "moveThreadSection failing_server (\<lambda>_. None) (move_to ''e'' None) True {''e''} pinned_placements 7 [] =
     (Inl (HostError ''closed''), [(''threadSection/list'', JObj [(''cursor'', JNull), (''limit'', JInt 100)])])"
    by code_simp
  from section_move_outcomes [OF m] show ?thesis using m by auto
qed

subsection \<open>Pages of a section\<close>

interpretation section_pager: offset_pager order_page "\<lambda>order. order"
  by unfold_locales (simp add: order_page_def)

text \<open>
  A section page that holds an External Thread shows the merged order from the requested offset,
  row by row, and its cursor, when there is one, decodes under the same query to the next offset;
  a client that follows the offsets sees the whole merged order once.
\<close>

theorem section_page_contents:
  assumes "listSectionThreads server query placements externalRows calls = (Inr (Some page), calls')"
  shows "\<exists>sectionId params officialRows order rows offset.
    lr_sectionId query = Some (Some sectionId) \<and>
    listAllOfficialRows server params calls = (Inr officialRows, calls') \<and>
    merged_section query (in_section sectionId placements) externalRows officialRows = (order, rows) \<and>
    offset = (case lr_sectionOffset query of None \<Rightarrow> 0 | Some n \<Rightarrow> n) \<and>
    sg_data page = List.map (\<lambda>i. the (js_get rows i)) (take (lr_limit query) (drop offset order)) \<and>
    (\<forall>c. sg_nextCursor page = Some c \<longrightarrow> offset + lr_limit query < length order \<and>
       (length c \<le> MAX_CURSOR_LENGTH \<longrightarrow>
          decodeSectionCursor c (lr_queryFingerprint query) = Inr (offset + lr_limit query))) \<and>
    (sg_nextCursor page = None \<longrightarrow> length order \<le> offset + lr_limit query \<or> lr_limit query = 0) \<and>
    (0 < lr_limit query \<longrightarrow>
       follow_pages (Suc (length order)) (\<lambda>start. order_page order start (lr_limit query)) 0 = order)"
proof -
  obtain sectionId where sid: "lr_sectionId query = Some (Some sectionId)"
    using assms by (auto simp: listSectionThreads_def split: option.splits)
  define params where "params = JObj (js_delete ''limit'' (js_delete ''cursor''
                              (js_set ''sortDirection'' (JStr ''asc'') (fields_of (lr_params query)))))"
  define offset where "offset = (case lr_sectionOffset query of None \<Rightarrow> 0 | Some n \<Rightarrow> n)"
  obtain officialRows calls1 where all: "listAllOfficialRows server params calls = (Inr officialRows, calls1)"
    and page: "(case merged_section query (in_section sectionId placements) externalRows officialRows of
        (order, rows) \<Rightarrow> section_reply query order rows offset) calls1 = (Inr (Some page), calls')"
    using assms unfolding listSectionThreads_def sid option.case Let_def section_reply_def in_section_def [symmetric]
      params_def [symmetric] offset_def [symmetric]
    by (auto simp: bindA_Inr_iff split: if_splits)
  obtain order rows where m: "merged_section query (in_section sectionId placements) externalRows officialRows = (order, rows)"
    by fastforce
  have has: "js_get rows i \<noteq> None" if "i \<in> set order" for i
    using m that by (auto simp: merged_section_def Let_def js_has_def split: if_splits)
  define ids where "ids = take (lr_limit query) (drop offset order)"
  have "\<forall>i \<in> set ids. js_get rows i \<noteq> None"
    using has in_set_takeD in_set_dropD unfolding ids_def by metis
  then have data: "List.map_filter (js_get rows) ids = List.map (\<lambda>i. the (js_get rows i)) ids"
    by (induction ids) (auto simp: map_filter_simps)
  have r: "section_reply query order rows offset calls1 = (Inr (Some page), calls')" using page m by simp
  have follow: "follow_pages (Suc (length order)) (\<lambda>start. order_page order start (lr_limit query)) 0 = order"
    if "0 < lr_limit query"
    using section_pager.follow_all [OF that] .
  show ?thesis
  proof (cases "offset + lr_limit query < length order \<and> 0 < lr_limit query")
    case True
    then obtain c where c: "encodeSectionThreadListCursor (lr_queryFingerprint query) (int (offset + lr_limit query)) = Inr c"
      "page = \<lparr>sg_data = List.map_filter (js_get rows) ids, sg_nextCursor = Some c\<rparr>" "calls1 = calls'"
      using r by (auto simp: section_reply_def order_page_def ids_def [symmetric] bindA_Inr_iff lift_result_def
          split: sum.splits)
    have "length c \<le> MAX_CURSOR_LENGTH \<Longrightarrow> decodeSectionCursor c (lr_queryFingerprint query) = Inr (offset + lr_limit query)"
      using decode_encoded_section [OF c(1)] by simp
    moreover have "sg_data page = List.map (\<lambda>i. the (js_get rows i)) (take (lr_limit query) (drop offset order))"
      "sg_nextCursor page = Some c" "listAllOfficialRows server params calls = (Inr officialRows, calls')"
      using data all c(2,3) by (simp_all add: ids_def [symmetric])
    ultimately show ?thesis
      by (intro exI [of _ sectionId], intro exI [of _ params], intro exI [of _ officialRows], intro exI [of _ order],
          intro exI [of _ rows], intro exI [of _ offset])
         (use sid m True follow in \<open>auto simp: offset_def [symmetric] simp del: follow_pages.simps\<close>)
  next
    case False
    then have "page = \<lparr>sg_data = List.map_filter (js_get rows) ids, sg_nextCursor = None\<rparr>" "calls1 = calls'"
      using r by (auto simp: section_reply_def order_page_def ids_def [symmetric])
    then have d: "sg_data page = List.map (\<lambda>i. the (js_get rows i)) (take (lr_limit query) (drop offset order))"
      "sg_nextCursor page = None" "listAllOfficialRows server params calls = (Inr officialRows, calls')"
      using data all by (simp_all add: ids_def [symmetric])
    show ?thesis
      by (rule exI [of _ sectionId], rule exI [of _ params], rule exI [of _ officialRows], rule exI [of _ order],
          rule exI [of _ rows], rule exI [of _ offset])
         (use sid m False d follow in \<open>auto simp: offset_def [symmetric] simp del: follow_pages.simps\<close>)
  qed
qed

definition one_row_server :: official where
  "one_row_server calls method params =
     Inr (JObj [(''result'', JObj [(''data'', JArr [JObj [(''id'', JStr ''b'')]]), (''nextCursor'', JNull)])])"

definition external_rows :: "(string, json) jsmap" where
  "external_rows = [(''e'', JObj [(''id'', JStr ''e'')]), (''f'', JObj [(''id'', JStr ''f'')])]"

definition pinned_page :: section_page where
  "pinned_page = \<lparr>sg_data = [JObj [(''id'', JStr ''e'')], JObj [(''id'', JStr ''f'')], JObj [(''id'', JStr ''b'')]],
     sg_nextCursor = None\<rparr>"

lemma section_page_contents_witness:
  "\<exists>(order :: string list) rows. List.map (\<lambda>i. the (js_get rows i)) (take 25 order) = sg_data pinned_page \<and> length order \<le> 25"
proof -
  have r: "listSectionThreads one_row_server section_request pinned_placements external_rows [] =
      (Inr (Some pinned_page), snd (listSectionThreads one_row_server section_request pinned_placements external_rows []))"
    by code_simp
  have q: "lr_limit section_request = 25" "lr_sectionOffset section_request = None" "sg_nextCursor pinned_page = None"
    by code_simp+
  show ?thesis
    using section_page_contents [OF r]
  proof (elim exE conjE)
    fix order :: "string list" and rows offset
    assume o: "offset = (case lr_sectionOffset section_request of None \<Rightarrow> 0 | Some n \<Rightarrow> n)"
      and d: "sg_data pinned_page = List.map (\<lambda>i. the (js_get rows i)) (take (lr_limit section_request) (drop offset order))"
      and e: "sg_nextCursor pinned_page = None \<longrightarrow> length order \<le> offset + lr_limit section_request \<or> lr_limit section_request = 0"
    have z: "offset = 0" using o q(2) by simp
    have "List.map (\<lambda>i. the (js_get rows i)) (take 25 order) = sg_data pinned_page"
      unfolding d z q(1) by simp
    moreover have "length order \<le> 25" using e unfolding z q(1) using q(3) by simp
    ultimately show ?thesis by blast
  qed
qed

end
