(* ===== verification/ThreadList.thy ===== *)
theory ThreadList
  imports ThreadSections
begin

text \<open>
  The External half of \<open>thread/list\<close>: \<open>packages/host-runtime/src/external-thread-list.ts\<close> with the row
  of a Thread, \<open>externalThreadValue\<close> of \<open>external-thread-repository.ts\<close>. Timestamps of stored records are
  epoch milliseconds, so the \<open>Date.parse\<close> of a stored time always succeeds. The preview that the first
  user message of the turns gives is an argument of the row; it is not used by the list, which passes
  no turns.
\<close>

subsection \<open>The row of an External Thread\<close>

definition appearance_json :: "section_appearance option \<Rightarrow> json" where
  "appearance_json a =
     (case a of None \<Rightarrow> JNull
      | Some x \<Rightarrow> JObj [(''icon'', opt_text (ap_icon x)), (''color'', opt_text (ap_color x))])"

definition threadSectionFields :: "section_placement option \<Rightarrow> (string \<times> json) list" where
  "threadSectionFields placement =
     (case placement of
        None \<Rightarrow> [(''section'', JNull), (''sectionEnteredAt'', JNull)]
      | Some p \<Rightarrow>
          [(''section'', JObj [(''id'', JStr (sc_id (pl_section p))), (''name'', JStr (sc_name (pl_section p))),
              (''appearance'', appearance_json (sc_appearance (pl_section p)))]),
           (''sectionEnteredAt'', JInt (pl_enteredAt p div 1000))])"

definition text_or_null :: "string \<Rightarrow> json" where
  "text_or_null s = (if s = [] then JNull else JStr s)"

definition source_json :: "thread_record \<Rightarrow> json" where
  "source_json r =
     (case tr_subagent r of
        None \<Rightarrow> JStr ''vscode''
      | Some a \<Rightarrow> JObj [(''subAgent'', JObj [(''thread_spawn'', JObj
          [(''parent_thread_id'', JStr (sa_parentHostThreadId a)), (''depth'', JInt 1), (''agent_path'', JNull),
           (''agent_nickname'', text_or_null (tr_title r)), (''agent_role'', opt_text (sa_role a))])])])"

text \<open>\<open>loaded\<close> is \<open>Some False\<close> for a Thread without a runtime; \<open>running\<close> is absent or a flag.\<close>

definition status_json :: "bool option \<Rightarrow> bool option \<Rightarrow> json" where
  "status_json loaded running =
     (if loaded = Some False then JObj [(''type'', JStr ''notLoaded'')]
      else if running = Some True then JObj [(''type'', JStr ''active''), (''activeFlags'', JArr [])]
      else JObj [(''type'', JStr ''idle'')])"

definition git_json :: "git_info option \<Rightarrow> json" where
  "git_json g =
     (case g of None \<Rightarrow> JNull
      | Some x \<Rightarrow> JObj [(''branch'', opt_text (gi_branch x)), (''originUrl'', opt_text (gi_originUrl x)),
                          (''sha'', opt_text (gi_sha x))])"

definition import_source_fields :: "thread_record \<Rightarrow> (string \<times> json) list" where
  "import_source_fields r =
     (case (tr_importSourceRef r, tr_nativeSessionRef r) of
        (Some i, Some n) \<Rightarrow>
          if ns_nativeSessionId i \<noteq> ns_nativeSessionId n
          then [(''codexhostImportSource'', JObj [(''harnessId'', JStr (ns_harnessId i)),
                  (''nativeSessionId'', JStr (ns_nativeSessionId i))])]
          else []
      | _ \<Rightarrow> [])"

definition projectless_fields :: "thread_record \<Rightarrow> (string \<times> json) list" where
  "projectless_fields r =
     (case tr_projectlessWorkspace r of
        None \<Rightarrow> []
      | Some w \<Rightarrow>
          if tr_projectId r \<noteq> None \<and> tr_projectId r \<noteq> Some [] then []
          else [(''workspaceKind'', JStr ''projectless''), (''projectlessOutputDirectory'', JStr (pw_outputDirectory w))])"

definition externalThreadValue ::
  "thread_record \<Rightarrow> json list \<Rightarrow> string option \<Rightarrow> string \<Rightarrow> bool option \<Rightarrow> bool option \<Rightarrow> section_placement option \<Rightarrow> json"
where
  "externalThreadValue r turns turnsPreview sessionId running loaded placement =
     (let updatedAt = JInt (tr_updatedAt r div 1000);
          parent = opt_text (map_option sa_parentHostThreadId (tr_subagent r));
          nickname = (if tr_subagent r = None then JNull else text_or_null (tr_title r));
          role = opt_text (Option.bind (tr_subagent r) sa_role)
      in JObj (
        [(''id'', JStr (tr_hostThreadId r)), (''sessionId'', JStr sessionId), (''path'', JNull), (''cwd'', JStr (tr_cwd r)),
         (''source'', source_json r),
         (''threadSource'', if tr_subagent r = None then JNull else JStr ''subAgentThreadSpawn''),
         (''modelProvider'', JStr ''codexhost''), (''cliVersion'', JStr ''codexhost''),
         (''createdAt'', JInt (tr_createdAt r div 1000)), (''updatedAt'', updatedAt), (''recencyAt'', updatedAt),
         (''status'', status_json loaded running), (''turns'', JArr turns),
         (''preview'', JStr (case tr_preview r of Some t \<Rightarrow> t
                              | None \<Rightarrow> (case turnsPreview of Some t \<Rightarrow> t | None \<Rightarrow> []))),
         (''name'', text_or_null (tr_title r)), (''gitInfo'', git_json (tr_gitInfo r)),
         (''forkedFromId'', opt_text (map_option fs_hostThreadId (tr_forkSource r)))] @
        import_source_fields r @
        [(''parentThreadId'', parent), (''ephemeral'', JBool (tr_ephemeral r)),
         (''canAcceptDirectInput'', if tr_subagent r \<noteq> None then JBool False
                                     else if loaded = Some False then JNull else JBool True),
         (''historyMode'', JStr (case tr_historyMode r of Legacy \<Rightarrow> ''legacy'' | Paginated \<Rightarrow> ''paginated'')),
         (''isPinned'', JBool False), (''projectId'', opt_text (tr_projectId r))] @
        projectless_fields r @
        [(''daybreakEnabled'', opt_bool (tr_daybreakEnabled r))] @ threadSectionFields placement @
        [(''agentNickname'', nickname), (''agentRole'', role), (''extra'', JNull)]))"

subsection \<open>Entries and their order\<close>

datatype entry_source = External | Official

record list_entry =
  en_source :: entry_source
  en_thread :: json
  en_timestamp :: int

record external_page =
  ep_data :: "list_entry list"
  ep_hasMore :: bool

text \<open>\<open>threadId\<close>: the stable identifier of a row.\<close>

definition stable_id :: "json \<Rightarrow> string option" where
  "stable_id thread = (case jfield thread ''id'' of Some (JStr s) \<Rightarrow> if s = [] then None else Some s | _ \<Rightarrow> None)"

definition no_stable_id :: "host_error + 'a" where
  "no_stable_id = Inl (HostError ''Thread list row has no stable ID'')"

definition threadListTimestamp :: "json \<Rightarrow> sort_key \<Rightarrow> host_error + int" where
  "threadListTimestamp thread key =
     (let field = (case key of
            CreatedAt \<Rightarrow> jfield thread ''createdAt''
          | UpdatedAt \<Rightarrow> jfield thread ''updatedAt''
          | _ \<Rightarrow> if absent (jfield thread ''recencyAt'') then jfield thread ''updatedAt'' else jfield thread ''recencyAt'')
      in case field of
           Some (JInt n) \<Rightarrow>
             if safe_int n then Inr n
             else Inl (HostError (''Thread list row has no valid '' @ sort_key_text key @ '' timestamp''))
         | _ \<Rightarrow> Inl (HostError (''Thread list row has no valid '' @ sort_key_text key @ '' timestamp'')))"

text \<open>
  The position of an entry among entries of its own kind: its time, read in the direction of the
  list, and then its identifier. The numbers a comparator returns are \<open>negative\<close>, \<open>zero\<close>, \<open>positive\<close>.
\<close>

datatype list_position = ListPosition (lp_time: int) (lp_id: string)

instantiation list_position :: linorder
begin

definition less_list_position :: "list_position \<Rightarrow> list_position \<Rightarrow> bool" where
  "less_list_position a b = (lp_time a < lp_time b \<or> lp_time a = lp_time b \<and> str_less (lp_id a) (lp_id b))"

definition less_eq_list_position :: "list_position \<Rightarrow> list_position \<Rightarrow> bool" where
  "less_eq_list_position a b = (a < b \<or> a = b)"

instance
proof
  fix a b c :: list_position
  show "(a < b) = (a \<le> b \<and> \<not> b \<le> a)"
    by (auto simp: less_eq_list_position_def less_list_position_def dest: str_less_trans)
  show "a \<le> a" by (simp add: less_eq_list_position_def)
  show "a \<le> b \<Longrightarrow> b \<le> c \<Longrightarrow> a \<le> c"
    by (auto simp: less_eq_list_position_def less_list_position_def dest: str_less_trans)
  show "a \<le> b \<Longrightarrow> b \<le> a \<Longrightarrow> a = b"
    by (auto simp: less_eq_list_position_def less_list_position_def dest: str_less_trans)
  show "a \<le> b \<or> b \<le> a"
    using str_less_linear [of "lp_id a" "lp_id b"]
    by (cases a; cases b) (auto simp: less_eq_list_position_def less_list_position_def)
qed

end

definition directed :: "sort_direction \<Rightarrow> int \<Rightarrow> int" where
  "directed direction t = (case direction of Asc \<Rightarrow> t | Desc \<Rightarrow> - t)"

definition compareTimestamp :: "int \<Rightarrow> int \<Rightarrow> sort_direction \<Rightarrow> int" where
  "compareTimestamp left right direction =
     (if left = right then 0 else case direction of Asc \<Rightarrow> left - right | Desc \<Rightarrow> right - left)"

definition compare_ids :: "string \<Rightarrow> string \<Rightarrow> int" where
  "compare_ids a b = (if a = b then 0 else if str_less a b then - 1 else 1)"

definition compareThreadListEntries ::
  "list_entry \<Rightarrow> list_entry \<Rightarrow> sort_direction \<Rightarrow> host_error + int" where
  "compareThreadListEntries left right direction =
     (let byTimestamp = compareTimestamp (en_timestamp left) (en_timestamp right) direction
      in if byTimestamp \<noteq> 0 then Inr byTimestamp
         else if en_source left \<noteq> en_source right then Inr (if en_source left = External then - 1 else 1)
         else if en_source left = Official then Inr 0
         else (case (stable_id (en_thread left), stable_id (en_thread right)) of
                 (Some l, Some r) \<Rightarrow> Inr (compare_ids l r)
               | _ \<Rightarrow> no_stable_id))"

definition compareExternalAnchor :: "list_entry \<Rightarrow> external_anchor \<Rightarrow> sort_direction \<Rightarrow> host_error + int" where
  "compareExternalAnchor entry anchor direction =
     (let byTimestamp = compareTimestamp (en_timestamp entry) (an_timestamp anchor) direction
      in if byTimestamp \<noteq> 0 then Inr byTimestamp
         else (case stable_id (en_thread entry) of
                 None \<Rightarrow> no_stable_id
               | Some i \<Rightarrow> Inr (compare_ids i (an_threadId anchor))))"

definition externalAnchor :: "list_entry \<Rightarrow> host_error + external_anchor" where
  "externalAnchor entry =
     (if en_source entry \<noteq> External then Inl (HostError ''Expected an External Thread list entry'')
      else (case stable_id (en_thread entry) of
              None \<Rightarrow> no_stable_id
            | Some i \<Rightarrow> Inr \<lparr>an_timestamp = en_timestamp entry, an_threadId = i\<rparr>))"

subsection \<open>Which records a query lists\<close>

text \<open>\<open>new Map(records.map(...))\<close>: the last record of an identifier.\<close>

definition by_id :: "thread_record list \<Rightarrow> string \<Rightarrow> thread_record option" where
  "by_id records i = find (\<lambda>r. tr_hostThreadId r = i) (rev records)"

lemma by_id_Some: "by_id records i = Some r \<Longrightarrow> r \<in> set records \<and> tr_hostThreadId r = i"
  by (auto simp: by_id_def find_Some_iff) (metis length_rev nth_mem set_rev)

definition record_ids :: "thread_record list \<Rightarrow> string set" where
  "record_ids records = tr_hostThreadId ` set records"

lemma finite_record_ids [simp]: "finite (record_ids records)"
  by (simp add: record_ids_def)

lemma by_id_in: "by_id records i = Some r \<Longrightarrow> i \<in> record_ids records \<and> tr_hostThreadId r = i"
  using by_id_Some unfolding record_ids_def by blast

text \<open>A walk to a record not visited before leaves fewer records to visit.\<close>

lemma fewer_to_visit:
  assumes "x \<notin> V" "y \<in> I" "finite I"
  shows "card (insert y I - insert x V) < card (insert x I - V)"
proof (rule psubset_card_mono)
  show "finite (insert x I - V)" using assms(3) by simp
  show "insert y I - insert x V \<subset> insert x I - V" using assms(1,2) by auto
qed

definition same_native_session :: "thread_record \<Rightarrow> thread_record \<Rightarrow> bool" where
  "same_native_session a b =
     (map_option ns_nativeSessionId (tr_nativeSessionRef a) = map_option ns_nativeSessionId (tr_nativeSessionRef b))"

text \<open>The walk from a subagent to the Thread that owns its Native Session.\<close>

function owned_session :: "thread_record list \<Rightarrow> string list \<Rightarrow> thread_record \<Rightarrow> bool" where
  "owned_session records owners current =
     (case tr_subagent current of
        None \<Rightarrow> True
      | Some a \<Rightarrow>
          if tr_hostThreadId current \<in> set owners then False
          else (case by_id records (sa_parentHostThreadId a) of
                  None \<Rightarrow> False
                | Some parent \<Rightarrow>
                    if tr_state parent \<noteq> Ready \<or> tr_harnessId parent \<noteq> tr_harnessId current \<or>
                       \<not> same_native_session parent current
                    then False
                    else owned_session records (tr_hostThreadId current # owners) parent))"
  by pat_completeness auto
termination
  by (relation "measure (\<lambda>(records, owners, current).
        card (insert (tr_hostThreadId current) (record_ids records) - set owners))")
     (auto dest!: by_id_in intro: fewer_to_visit)

declare owned_session.simps [simp del]

text \<open>The walk to an ancestor: the identifier it stops at, \<open>None\<close> when it runs out of parents.\<close>

function ancestor_walk :: "thread_record list \<Rightarrow> string \<Rightarrow> string list \<Rightarrow> string option \<Rightarrow> string option" where
  "ancestor_walk records ancestor visited parentId =
     (case parentId of
        None \<Rightarrow> None
      | Some p \<Rightarrow>
          if p = [] \<or> p = ancestor \<or> p \<in> set visited then Some p
          else (case by_id records p of
                  None \<Rightarrow> None
                | Some r \<Rightarrow> ancestor_walk records ancestor (p # visited) (map_option sa_parentHostThreadId (tr_subagent r))))"
  by pat_completeness auto
termination
proof (relation "measure (\<lambda>(records, ancestor, visited, parentId). card (record_ids records - set visited))")
  show "wf (measure (\<lambda>(records, ancestor, visited, parentId). card (record_ids records - set visited)))" by simp
  fix records ancestor visited and parentId :: "string option" and p r
  assume "parentId = Some p" "\<not> (p = [] \<or> p = ancestor \<or> p \<in> set visited)" "by_id records p = Some r"
  then have "p \<in> record_ids records" "p \<notin> set visited" using by_id_in by auto
  then show "((records, ancestor, p # visited, map_option sa_parentHostThreadId (tr_subagent r)), records, ancestor, visited, parentId)
      \<in> measure (\<lambda>(records, ancestor, visited, parentId). card (record_ids records - set visited))"
    by (simp add: Diff_insert2 [symmetric] card_gt_0_iff) (metis DiffI card_gt_0_iff empty_iff finite_Diff finite_record_ids diff_less zero_less_one One_nat_def)
qed

declare ancestor_walk.simps [simp del]

definition parent_id :: "thread_record \<Rightarrow> string option" where
  "parent_id r = map_option sa_parentHostThreadId (tr_subagent r)"

definition within_scope :: "thread_record list \<Rightarrow> list_request \<Rightarrow> thread_record \<Rightarrow> bool" where
  "within_scope records query r =
     ((case lr_parentThreadId query of None \<Rightarrow> True | Some p \<Rightarrow> parent_id r = Some p) \<and>
      (case lr_ancestorThreadId query of
         None \<Rightarrow> True
       | Some a \<Rightarrow> tr_hostThreadId r \<noteq> a \<and>
           ancestor_walk records a [tr_hostThreadId r] (parent_id r) = Some a))"

definition source_matches :: "list_request \<Rightarrow> thread_record \<Rightarrow> bool" where
  "source_matches query r =
     (case lr_sourceKinds query of
        None \<Rightarrow> True
      | Some kinds \<Rightarrow>
          kinds = [] \<or> (if tr_subagent r = None then ''vscode'' else ''subAgentThreadSpawn'') \<in> set kinds \<or>
          tr_subagent r \<noteq> None \<and> ''subAgent'' \<in> set kinds)"

definition includesExternalRecord ::
  "thread_record \<Rightarrow> list_request \<Rightarrow> thread_record list \<Rightarrow> string option \<Rightarrow> bool" where
  "includesExternalRecord r query records sectionId =
     (if tr_state r \<noteq> Ready \<or> tr_nativeSessionRef r = None then False
      else if \<not> owned_session records [] r then False
      else if tr_subagent r \<noteq> None \<and> lr_parentThreadId query = None \<and> lr_ancestorThreadId query = None \<and>
         \<not> (case lr_sourceKinds query of None \<Rightarrow> False
             | Some kinds \<Rightarrow> list_ex (\<lambda>k. k = ''subAgent'' \<or> k = ''subAgentThreadSpawn'') kinds) then False
      else if \<not> within_scope records query r then False
      else if tr_archived r \<noteq> lr_archived query then False
      else if (case lr_projectId query of None \<Rightarrow> False | Some p \<Rightarrow> tr_projectId r \<noteq> p) then False
      else if (case lr_cwd query of None \<Rightarrow> False | Some dirs \<Rightarrow> tr_cwd r \<notin> set dirs) then False
      else if (case lr_modelProviders query of None \<Rightarrow> False
               | Some ps \<Rightarrow> ps \<noteq> [] \<and> ''codexhost'' \<notin> set ps) then False
      else if \<not> source_matches query r then False
      else if (case lr_searchTerm query of None \<Rightarrow> False
               | Some t \<Rightarrow> \<not> str_includes (to_lower (tr_title r)) (to_lower t)) then False
      else if lr_isPinned query = Some True then False
      else (case lr_sectionId query of None \<Rightarrow> True | Some s \<Rightarrow> s = sectionId))"

subsection \<open>Session trees\<close>

definition source_id :: "thread_record \<Rightarrow> string option" where
  "source_id r =
     (case tr_subagent r of
        Some a \<Rightarrow> Some (sa_parentHostThreadId a)
      | None \<Rightarrow> map_option fs_hostThreadId (tr_forkSource r))"

definition source_record :: "thread_record list \<Rightarrow> thread_record \<Rightarrow> thread_record option" where
  "source_record records r =
     (case source_id r of None \<Rightarrow> None | Some i \<Rightarrow> if i = [] then None else by_id records i)"

definition set_all :: "string list \<Rightarrow> string \<Rightarrow> (string, string) jsmap \<Rightarrow> (string, string) jsmap" where
  "set_all path r resolved = foldl (\<lambda>m i. js_set i r m) resolved path"

definition known_root :: "(string, string) jsmap \<Rightarrow> string \<Rightarrow> string option" where
  "known_root resolved i = (case js_get resolved i of None \<Rightarrow> None | Some k \<Rightarrow> if k = [] then None else Some k)"

definition cycle_error :: "host_error + 'a" where
  "cycle_error = Inl (HostError ''External Thread Fork tree contains a cycle'')"

text \<open>The loop of \<open>resolve\<close>: \<open>path\<close> holds the identifiers visited, in order.\<close>

function resolve_walk ::
  "thread_record list \<Rightarrow> (string, string) jsmap \<Rightarrow> string list \<Rightarrow> thread_record \<Rightarrow> host_error + (string, string) jsmap"
where
  "resolve_walk records resolved path current =
     (let i = tr_hostThreadId current in
      case known_root resolved i of
        Some known \<Rightarrow> Inr (set_all path known resolved)
      | None \<Rightarrow>
          if i \<in> set path then cycle_error
          else (case source_record records current of
                  None \<Rightarrow> Inr (set_all (path @ [i]) i resolved)
                | Some source \<Rightarrow> resolve_walk records resolved (path @ [i]) source))"
  by pat_completeness auto
termination
  by (relation "measure (\<lambda>(records, resolved, path, current).
        card (insert (tr_hostThreadId current) (record_ids records) - set path))")
     (auto simp: source_record_def dest!: by_id_in split: option.splits if_splits intro: fewer_to_visit)

declare resolve_walk.simps [simp del]

fun resolve_all ::
  "thread_record list \<Rightarrow> (string, string) jsmap \<Rightarrow> thread_record list \<Rightarrow> host_error + (string, string) jsmap" where
  "resolve_all records resolved [] = Inr resolved"
| "resolve_all records resolved (r # rest) =
     bindE (if known_root resolved (tr_hostThreadId r) \<noteq> None then Inr resolved else resolve_walk records resolved [] r)
       (\<lambda>resolved'. resolve_all records resolved' rest)"

definition resolveExternalSessionTreeIds :: "thread_record list \<Rightarrow> host_error + (string, string) jsmap" where
  "resolveExternalSessionTreeIds records = resolve_all records [] records"

subsection \<open>The page\<close>

record list_input =
  li_records :: "thread_record list"
  li_query :: list_request
  li_runtimeFor :: "string \<Rightarrow> bool option"
  li_placementOf :: "string \<Rightarrow> section_placement option"

definition external_entry :: "list_input \<Rightarrow> (string, string) jsmap \<Rightarrow> thread_record \<Rightarrow> host_error + list_entry" where
  "external_entry input sessionIds r =
     (case js_get sessionIds (tr_hostThreadId r) of
        None \<Rightarrow> Inl (HostError ''External Thread Session tree could not be resolved'')
      | Some sessionId \<Rightarrow>
          if sessionId = [] then Inl (HostError ''External Thread Session tree could not be resolved'')
          else
            let runtime = li_runtimeFor input (tr_hostThreadId r)
            in Inr \<lparr>en_source = External,
                 en_thread = externalThreadValue r [] None sessionId runtime
                   (if runtime = None then Some False else None) (li_placementOf input (tr_hostThreadId r)),
                 en_timestamp =
                   (if lr_sortKey (li_query input) = CreatedAt then tr_createdAt r else tr_updatedAt r) div 1000\<rparr>)"

fun collect :: "('a \<Rightarrow> 'e + 'b) \<Rightarrow> 'a list \<Rightarrow> 'e + 'b list" where
  "collect f [] = Inr []"
| "collect f (x # xs) = bindE (f x) (\<lambda>y. bindE (collect f xs) (\<lambda>ys. Inr (y # ys)))"

definition externalThreadListEntries :: "list_input \<Rightarrow> host_error + list_entry list" where
  "externalThreadListEntries input =
     bindE (resolveExternalSessionTreeIds (li_records input)) (\<lambda>sessionIds.
       collect (external_entry input sessionIds)
         (filter (\<lambda>r. includesExternalRecord r (li_query input) (li_records input)
            (map_option (\<lambda>p. sc_id (pl_section p)) (li_placementOf input (tr_hostThreadId r)))) (li_records input)))"

definition shared_entry :: "sort_key \<Rightarrow> json \<Rightarrow> host_error + list_entry" where
  "shared_entry key thread =
     bindE (threadListTimestamp thread key) (\<lambda>t.
       Inr \<lparr>en_source = External, en_thread = thread, en_timestamp = t\<rparr>)"

definition entry_position :: "sort_direction \<Rightarrow> list_entry \<Rightarrow> list_position" where
  "entry_position direction e =
     ListPosition (directed direction (en_timestamp e))
       (case stable_id (en_thread e) of None \<Rightarrow> [] | Some i \<Rightarrow> i)"

text \<open>
  \<open>entries.sort(compareThreadListEntries)\<close> on External entries. A stable comparison sort compares all
  neighbours of its result, so it meets the comparison of two entries of one time, and throws when
  one of them has no identifier, iff there is such a pair; otherwise it is the stable sort by position.
\<close>

definition uncomparable :: "list_entry list \<Rightarrow> bool" where
  "uncomparable entries =
     list_ex (\<lambda>e. stable_id (en_thread e) = None \<and>
       1 < length (filter (\<lambda>e'. en_timestamp e' = en_timestamp e) entries)) entries"

definition sort_entries :: "sort_direction \<Rightarrow> list_entry list \<Rightarrow> host_error + list_entry list" where
  "sort_entries direction entries =
     (if uncomparable entries then no_stable_id else Inr (List.sort_key (entry_position direction) entries))"

fun after_anchor ::
  "sort_direction \<Rightarrow> external_anchor option \<Rightarrow> list_entry list \<Rightarrow> host_error + list_entry list" where
  "after_anchor direction None entries = Inr entries"
| "after_anchor direction (Some anchor) [] = Inr []"
| "after_anchor direction (Some anchor) (e # es) =
     bindE (compareExternalAnchor e anchor direction) (\<lambda>c.
       bindE (after_anchor direction (Some anchor) es) (\<lambda>rest. Inr (if 0 < c then e # rest else rest)))"

definition listExternalThreadMetadata ::
  "list_input \<Rightarrow> json list \<Rightarrow> external_anchor option \<Rightarrow> nat option \<Rightarrow> host_error + external_page" where
  "listExternalThreadMetadata input sharedThreads anchor limit =
     (if \<not> lr_supportsExternal (li_query input) \<or> lr_sortKey (li_query input) = SectionPosition
      then Inr \<lparr>ep_data = [], ep_hasMore = False\<rparr>
      else
        bindE (collect (shared_entry (lr_sortKey (li_query input))) sharedThreads) (\<lambda>shared.
        bindE (externalThreadListEntries input) (\<lambda>own.
        bindE (sort_entries (lr_sortDirection (li_query input))
                (filter (\<lambda>e. jfield (en_thread e) ''id'' \<notin> set (List.map (\<lambda>s. jfield (en_thread s) ''id'') shared)) own @ shared))
          (\<lambda>sorted.
        bindE (after_anchor (lr_sortDirection (li_query input)) anchor sorted) (\<lambda>entries.
          let n = (case limit of None \<Rightarrow> lr_limit (li_query input) | Some l \<Rightarrow> l)
          in Inr \<lparr>ep_data = take n entries, ep_hasMore = n < length entries\<rparr>)))))"

definition officialThreadListEntry :: "json \<Rightarrow> sort_key \<Rightarrow> host_error + list_entry" where
  "officialThreadListEntry thread key =
     bindE (threadListTimestamp thread key) (\<lambda>t.
       Inr \<lparr>en_source = Official, en_thread = thread, en_timestamp = t\<rparr>)"

end
