(* ===== verification/ThreadListProps.thy ===== *)
theory ThreadListProps
  imports ThreadList ThreadManagementProps "HOL-Library.Multiset"
begin

text \<open>
  Properties of the External half of \<open>thread/list\<close>: the Session tree of every record is its root, the
  resolution fails exactly on a cycle, and the pages cut by anchors put the sorted list back together.
\<close>

subsection \<open>Session trees\<close>

definition source_step :: "thread_record list \<Rightarrow> thread_record \<Rightarrow> thread_record \<Rightarrow> bool" where
  "source_step records r s = (source_record records r = Some s)"

inductive root_of :: "thread_record list \<Rightarrow> thread_record \<Rightarrow> string \<Rightarrow> bool" for records where
  top: "source_record records r = None \<Longrightarrow> root_of records r (tr_hostThreadId r)"
| up: "source_record records r = Some s \<Longrightarrow> root_of records s t \<Longrightarrow> root_of records r t"

inductive_cases root_of_elim: "root_of records r t"

lemma root_up: "source_record records r = Some s \<Longrightarrow> root_of records r t \<longleftrightarrow> root_of records s t"
  by (auto intro: root_of.up elim: root_of_elim)

lemma root_unique: "root_of records r t \<Longrightarrow> root_of records r u \<Longrightarrow> t = u"
  by (induction rule: root_of.induct) (auto elim: root_of_elim)

lemma rooted_acyclic: "root_of records r t \<Longrightarrow> \<not> (source_step records)\<^sup>+\<^sup>+ r r"
proof (induction rule: root_of.induct)
  case (top r)
  then show ?case by (metis option.distinct(1) source_step_def tranclpD)
next
  case (up r s t)
  show ?case
  proof
    assume "(source_step records)\<^sup>+\<^sup>+ r r"
    then have "(source_step records)\<^sup>*\<^sup>* s r"
      using up.hyps(1) by (metis option.inject source_step_def tranclpD)
    then have "(source_step records)\<^sup>+\<^sup>+ s s"
      using up.hyps(1) by (metis rtranclp_into_tranclp1 source_step_def)
    with up.IH show False ..
  qed
qed

lemma by_id_self:
  assumes "distinct (List.map tr_hostThreadId records)" "r \<in> set records"
  shows "by_id records (tr_hostThreadId r) = Some r"
proof -
  obtain r' where r': "by_id records (tr_hostThreadId r) = Some r'"
    using assms(2) by (cases "by_id records (tr_hostThreadId r)") (auto simp: by_id_def find_None_iff)
  then have "r' \<in> set records" "tr_hostThreadId r' = tr_hostThreadId r" using by_id_Some by auto
  then have "r' = r" using assms by (auto simp: distinct_map dest: inj_onD)
  with r' show ?thesis by simp
qed

text \<open>The cache: what it holds are roots.\<close>

definition roots_ok :: "thread_record list \<Rightarrow> (string, string) jsmap \<Rightarrow> bool" where
  "roots_ok records m =
     (\<forall>i t. js_get m i = Some t \<longrightarrow> (\<exists>r. by_id records i = Some r \<and> root_of records r t))"

text \<open>The path: records that reach the current one, and so share its root.\<close>

definition path_ok :: "thread_record list \<Rightarrow> string list \<Rightarrow> thread_record \<Rightarrow> bool" where
  "path_ok records path current =
     (\<forall>i \<in> set path. \<exists>r. by_id records i = Some r \<and> (source_step records)\<^sup>+\<^sup>+ r current)"

lemma reaches_root: "(source_step records)\<^sup>+\<^sup>+ r s \<Longrightarrow> root_of records r t \<longleftrightarrow> root_of records s t"
  by (induction rule: tranclp_induct) (auto simp: source_step_def root_up)

lemma set_all_get: "js_get (set_all path t m) i = (if i \<in> set path then Some t else js_get m i)"
  by (induction path arbitrary: m) (auto simp: set_all_def)

lemma set_all_ok:
  assumes "roots_ok records m" "\<forall>i \<in> set path. \<exists>r. by_id records i = Some r \<and> root_of records r t"
  shows "roots_ok records (set_all path t m)"
  using assms by (auto simp: roots_ok_def set_all_get split: if_splits)

lemma known_root_get: "known_root m i = Some t \<Longrightarrow> js_get m i = Some t"
  by (auto simp: known_root_def split: option.splits if_splits)

lemma walk_resolves:
  assumes d: "distinct (List.map tr_hostThreadId records)"
  shows "roots_ok records resolved \<Longrightarrow> path_ok records path current \<Longrightarrow> current \<in> set records \<Longrightarrow>
    (case resolve_walk records resolved path current of
       Inl e \<Rightarrow> \<nexists>t. root_of records current t
     | Inr m \<Rightarrow> roots_ok records m \<and> (\<exists>t. js_get m (tr_hostThreadId current) = Some t) \<and>
         (\<forall>i \<in> set path. js_get m i \<noteq> None) \<and> (\<forall>i. js_get resolved i \<noteq> None \<longrightarrow> js_get m i \<noteq> None))"
proof (induction "card (insert (tr_hostThreadId current) (record_ids records) - set path)"
    arbitrary: path current rule: less_induct)
  case less
  let ?i = "tr_hostThreadId current"
  have me: "by_id records ?i = Some current" using d less.prems(3) by (rule by_id_self)
  have path_root: "\<forall>i \<in> set path. \<exists>r. by_id records i = Some r \<and> root_of records r t"
    if "root_of records current t" for t
    using less.prems(2) that by (auto simp: path_ok_def dest: reaches_root)
  show ?case
  proof (cases "known_root resolved ?i")
    case (Some known)
    then have "js_get resolved ?i = Some known" by (rule known_root_get)
    then obtain r where "by_id records ?i = Some r" "root_of records r known"
      using less.prems(1) unfolding roots_ok_def by blast
    then have "root_of records current known" using me by simp
    from path_root [OF this] show ?thesis
      using less.prems(1) Some known_root_get [OF Some] set_all_ok
      by (subst resolve_walk.simps) (auto simp: set_all_get Let_def)
  next
    case unknown: None
    show ?thesis
    proof (cases "?i \<in> set path")
      case True
      then have "(source_step records)\<^sup>+\<^sup>+ current current" using less.prems(2) me by (auto simp: path_ok_def)
      then have "\<nexists>t. root_of records current t" using rooted_acyclic by blast
      then show ?thesis using unknown True by (subst resolve_walk.simps) (simp add: cycle_error_def Let_def)
    next
      case fresh: False
      show ?thesis
      proof (cases "source_record records current")
        case None
        then have "root_of records current ?i" by (rule root_of.top)
        with path_root [OF this] me have
          "\<forall>i \<in> set (path @ [?i]). \<exists>r. by_id records i = Some r \<and> root_of records r ?i" by auto
        then show ?thesis
          using less.prems(1) unknown fresh None set_all_ok
          by (subst resolve_walk.simps) (auto simp: set_all_get Let_def)
      next
        case (Some source)
        then have s: "source \<in> set records" "tr_hostThreadId source \<in> record_ids records"
          by (auto simp: source_record_def record_ids_def dest!: by_id_Some split: option.splits if_splits)
        have step: "source_step records current source" using Some by (simp add: source_step_def)
        have "path_ok records (path @ [?i]) source"
          using less.prems(2) me step unfolding path_ok_def
          by (auto intro: tranclp.r_into_trancl tranclp.trancl_into_trancl)
        moreover have "card (insert (tr_hostThreadId source) (record_ids records) - set (path @ [?i]))
            < card (insert ?i (record_ids records) - set path)"
          using fewer_to_visit [OF fresh s(2)] by simp
        ultimately have "(case resolve_walk records resolved (path @ [?i]) source of
            Inl e \<Rightarrow> \<nexists>t. root_of records source t
          | Inr m \<Rightarrow> roots_ok records m \<and> (\<exists>t. js_get m (tr_hostThreadId source) = Some t) \<and>
              (\<forall>i \<in> set (path @ [?i]). js_get m i \<noteq> None) \<and>
              (\<forall>i. js_get resolved i \<noteq> None \<longrightarrow> js_get m i \<noteq> None))"
          using less.hyps less.prems(1) s(1) by blast
        then show ?thesis
          using unknown fresh Some root_up [OF Some]
          by (subst resolve_walk.simps) (auto simp: Let_def split: sum.splits)
      qed
    qed
  qed
qed

lemma resolve_all_roots:
  assumes "distinct (List.map tr_hostThreadId records)"
  shows "roots_ok records resolved \<Longrightarrow> set todo \<subseteq> set records \<Longrightarrow>
    (case resolve_all records resolved todo of
       Inl e \<Rightarrow> \<exists>r \<in> set todo. \<nexists>t. root_of records r t
     | Inr m \<Rightarrow> roots_ok records m \<and> (\<forall>r \<in> set todo. js_get m (tr_hostThreadId r) \<noteq> None) \<and>
         (\<forall>i. js_get resolved i \<noteq> None \<longrightarrow> js_get m i \<noteq> None))"
proof (induction todo arbitrary: resolved)
  case (Cons r todo)
  define step where "step = (if known_root resolved (tr_hostThreadId r) \<noteq> None then Inr resolved
    else resolve_walk records resolved [] r)"
  have "case step of Inl e \<Rightarrow> \<nexists>t. root_of records r t
     | Inr m \<Rightarrow> roots_ok records m \<and> (\<exists>t. js_get m (tr_hostThreadId r) = Some t) \<and>
         (\<forall>i. js_get resolved i \<noteq> None \<longrightarrow> js_get m i \<noteq> None)"
    using walk_resolves [OF assms Cons.prems(1), of "[]" r] Cons.prems known_root_get [of resolved "tr_hostThreadId r"]
    by (auto simp: step_def path_ok_def split: sum.splits)
  then have st: "case step of Inl e \<Rightarrow> \<nexists>t. root_of records r t
     | Inr m \<Rightarrow> roots_ok records m \<and> (\<exists>t. js_get m (tr_hostThreadId r) = Some t) \<and>
         (\<forall>i. js_get resolved i \<noteq> None \<longrightarrow> js_get m i \<noteq> None)" .
  have all: "resolve_all records resolved (r # todo) = bindE step (\<lambda>m. resolve_all records m todo)"
    by (simp add: step_def)
  show ?case
  proof (cases step)
    case (Inl e)
    then show ?thesis using st unfolding all by (simp add: bindE_def)
  next
    case (Inr m)
    have a: "resolve_all records resolved (r # todo) = resolve_all records m todo"
      unfolding all Inr by (simp add: bindE_def)
    have "roots_ok records m" "set todo \<subseteq> set records" using st Inr Cons.prems by auto
    from Cons.IH [OF this] st show ?thesis
      unfolding a Inr by (cases "resolve_all records m todo") auto
  qed
qed simp

text \<open>
  Every External Thread gets the Session tree of its root: when the resolution succeeds, the
  identifier found for a record is that of the record reached by following subagent parents and fork
  sources until there is none, whatever order the records are resolved in and whatever is cached.
\<close>

theorem session_tree_roots:
  assumes "distinct (List.map tr_hostThreadId records)"
    and "resolveExternalSessionTreeIds records = Inr m" and "r \<in> set records"
  shows "\<exists>t. js_get m (tr_hostThreadId r) = Some t \<and> root_of records r t"
proof -
  have "roots_ok records m" "js_get m (tr_hostThreadId r) \<noteq> None"
    using resolve_all_roots [OF assms(1), of "[]" records] assms(2,3)
    by (auto simp: resolveExternalSessionTreeIds_def roots_ok_def)
  then show ?thesis using by_id_self [OF assms(1,3)] by (fastforce simp: roots_ok_def)
qed

text \<open>
  The resolution of Session trees ends, and fails only for a cycle: it succeeds iff every record
  reaches a root, and a record that reaches itself makes it fail.
\<close>

theorem session_trees_resolve:
  assumes "distinct (List.map tr_hostThreadId records)"
  shows "((\<exists>m. resolveExternalSessionTreeIds records = Inr m) \<longleftrightarrow> (\<forall>r \<in> set records. \<exists>t. root_of records r t)) \<and>
    ((\<exists>r \<in> set records. (source_step records)\<^sup>+\<^sup>+ r r) \<longrightarrow> (\<exists>e. resolveExternalSessionTreeIds records = Inl e))"
proof -
  have ok: "roots_ok records []" by (simp add: roots_ok_def)
  have sound: "\<exists>t. root_of records r t"
    if "resolveExternalSessionTreeIds records = Inr m" "r \<in> set records" for m r
    using resolve_all_roots [OF assms ok subset_refl] that by_id_self [OF assms that(2)]
    unfolding resolveExternalSessionTreeIds_def by (fastforce simp: roots_ok_def)
  have complete: "\<exists>m. resolveExternalSessionTreeIds records = Inr m" if "\<forall>r \<in> set records. \<exists>t. root_of records r t"
    using resolve_all_roots [OF assms ok subset_refl] that
    unfolding resolveExternalSessionTreeIds_def by (auto split: sum.splits)
  have cyclic: "\<exists>e. resolveExternalSessionTreeIds records = Inl e" if "r \<in> set records" "(source_step records)\<^sup>+\<^sup>+ r r" for r
    using sound [OF _ that(1)] rooted_acyclic [of records r] that(2)
    by (cases "resolveExternalSessionTreeIds records") auto
  show ?thesis using sound complete cyclic by blast
qed

subsection \<open>Pages\<close>

lemma stable_id_own [simp]:
  "stable_id (externalThreadValue r turns tp sid running loaded placement) =
    (if tr_hostThreadId r = [] then None else Some (tr_hostThreadId r))"
  by (simp add: stable_id_def externalThreadValue_def Let_def)

lemma compare_position:
  assumes "stable_id (en_thread e) = Some i"
  shows "compareExternalAnchor e anchor direction = Inr c \<Longrightarrow>
    0 < c \<longleftrightarrow> ListPosition (directed direction (an_timestamp anchor)) (an_threadId anchor) < entry_position direction e"
  using assms str_less_linear [of i "an_threadId anchor"]
  by (cases direction)
     (auto simp: compareExternalAnchor_def compareTimestamp_def Let_def compare_ids_def entry_position_def directed_def
        less_list_position_def dest: str_less_trans split: if_splits)

lemma compare_anchor_total: "stable_id (en_thread e) = Some i \<Longrightarrow> \<exists>c. compareExternalAnchor e anchor direction = Inr c"
  by (auto simp: compareExternalAnchor_def Let_def)

lemma after_anchor_filter:
  assumes "\<forall>e \<in> set entries. stable_id (en_thread e) \<noteq> None"
  shows "after_anchor direction (Some anchor) entries =
    Inr (filter (\<lambda>e. ListPosition (directed direction (an_timestamp anchor)) (an_threadId anchor) < entry_position direction e) entries)"
  using assms
proof (induction entries)
  case (Cons e es)
  then obtain i where i: "stable_id (en_thread e) = Some i" by auto
  obtain c where c: "compareExternalAnchor e anchor direction = Inr c" using compare_anchor_total [OF i] by blast
  show ?case using Cons c compare_position [OF i c] by (simp add: bindE_def)
qed simp

lemma after_nth:
  fixes f :: "'a \<Rightarrow> 'b::linorder"
  assumes "sorted (List.map f xs)" "distinct (List.map f xs)" "k < length xs"
  shows "filter (\<lambda>x. f (xs ! k) < f x) xs = drop (Suc k) xs"
proof -
  have split: "xs = take (Suc k) xs @ drop (Suc k) xs" by simp
  have mono: "\<And>i j. i \<le> j \<Longrightarrow> j < length xs \<Longrightarrow> f (xs ! i) \<le> f (xs ! j)"
    using assms(1) by (auto simp: sorted_iff_nth_mono)
  have neq: "\<And>i j. i < length xs \<Longrightarrow> j < length xs \<Longrightarrow> i \<noteq> j \<Longrightarrow> f (xs ! i) \<noteq> f (xs ! j)"
    using assms(2) by (auto simp: distinct_conv_nth)
  have "filter (\<lambda>x. f (xs ! k) < f x) (take (Suc k) xs) = []"
    using assms(3) mono by (auto simp: filter_empty_conv in_set_conv_nth not_less)
  moreover have "filter (\<lambda>x. f (xs ! k) < f x) (drop (Suc k) xs) = drop (Suc k) xs"
    unfolding filter_id_conv
  proof
    fix x
    assume "x \<in> set (drop (Suc k) xs)"
    then obtain j where "j < length xs - Suc k" "x = xs ! (Suc k + j)"
      by (auto simp: in_set_conv_nth)
    then have j: "Suc k + j < length xs" "x = xs ! (Suc k + j)" by auto
    then show "f (xs ! k) < f x"
      using mono [of k "Suc k + j"] neq [of k "Suc k + j"] by (simp add: less_le)
  qed
  ultimately show ?thesis by (metis (no_types, lifting) append_Nil filter_append split)
qed

text \<open>The rows of the whole list, before an anchor and a limit cut them.\<close>

definition all_entries :: "list_input \<Rightarrow> json list \<Rightarrow> host_error + list_entry list" where
  "all_entries input sharedThreads =
     bindE (collect (shared_entry (lr_sortKey (li_query input))) sharedThreads) (\<lambda>shared.
     bindE (externalThreadListEntries input) (\<lambda>own.
       sort_entries (lr_sortDirection (li_query input))
         (filter (\<lambda>e. jfield (en_thread e) ''id'' \<notin> set (List.map (\<lambda>s. jfield (en_thread s) ''id'') shared)) own @ shared)))"

lemma bindE_assoc: "bindE (bindE m f) g = bindE m (\<lambda>x. bindE (f x) g)"
  by (simp add: bindE_def split: sum.split)

lemma list_from_all:
  assumes "lr_supportsExternal (li_query input)" "lr_sortKey (li_query input) \<noteq> SectionPosition"
  shows "listExternalThreadMetadata input sharedThreads anchor limit =
    bindE (all_entries input sharedThreads) (\<lambda>sorted.
      bindE (after_anchor (lr_sortDirection (li_query input)) anchor sorted) (\<lambda>entries.
        let n = (case limit of None \<Rightarrow> lr_limit (li_query input) | Some l \<Rightarrow> l)
        in Inr \<lparr>ep_data = take n entries, ep_hasMore = n < length entries\<rparr>))"
  using assms by (simp add: listExternalThreadMetadata_def all_entries_def bindE_assoc)

lemma all_entries_Inr:
  assumes "all_entries input sharedThreads = Inr rows"
  obtains shared own where "collect (shared_entry (lr_sortKey (li_query input))) sharedThreads = Inr shared"
    "externalThreadListEntries input = Inr own"
    "rows = List.sort_key (entry_position (lr_sortDirection (li_query input)))
        (filter (\<lambda>e. jfield (en_thread e) ''id'' \<notin> set (List.map (\<lambda>s. jfield (en_thread s) ''id'') shared)) own @ shared)"
  using assms unfolding all_entries_def
  by (elim bindE_InrE) (use that in \<open>auto simp: sort_entries_def no_stable_id_def split: if_splits\<close>)

lemma collect_external:
  "collect f xs = Inr ys \<Longrightarrow> (\<And>x y. f x = Inr y \<Longrightarrow> en_source y = External) \<Longrightarrow> \<forall>y \<in> set ys. en_source y = External"
  by (induction xs arbitrary: ys) (auto elim!: bindE_InrE)

lemma all_external:
  assumes "all_entries input sharedThreads = Inr entries"
  shows "\<forall>e \<in> set entries. en_source e = External"
proof -
  obtain shared own where s: "collect (shared_entry (lr_sortKey (li_query input))) sharedThreads = Inr shared"
    and o: "externalThreadListEntries input = Inr own"
    and e: "set entries \<subseteq> set own \<union> set shared"
    using assms by (rule all_entries_Inr) (use that in auto)
  have "\<forall>e \<in> set shared. en_source e = External"
    by (rule collect_external [OF s]) (auto simp: shared_entry_def elim!: bindE_InrE)
  moreover have "\<forall>e \<in> set own. en_source e = External"
    using o unfolding externalThreadListEntries_def
    by (elim bindE_InrE) (rule collect_external, assumption,
       auto simp: external_entry_def Let_def split: option.splits if_splits)
  ultimately show ?thesis using e by blast
qed

text \<open>
  The pages of External Threads put the list together: if the rows have identifiers, each its own,
  then the page after the anchor of any row holds exactly the rows that follow it, up to the limit, and
  says that there are more iff rows remain; nothing is lost or shown twice between pages.
\<close>

theorem external_page_resumes:
  assumes "lr_supportsExternal (li_query input)" "lr_sortKey (li_query input) \<noteq> SectionPosition"
    and "all_entries input sharedThreads = Inr rows"
    and "\<forall>e \<in> set rows. stable_id (en_thread e) \<noteq> None"
    and "distinct (List.map (\<lambda>e. stable_id (en_thread e)) rows)"
    and "k < length rows"
  shows "\<exists>anchor. externalAnchor (rows ! k) = Inr anchor \<and>
    listExternalThreadMetadata input sharedThreads (Some anchor) (Some n) =
      Inr \<lparr>ep_data = take n (drop (Suc k) rows), ep_hasMore = n < length rows - Suc k\<rparr>"
proof -
  let ?d = "lr_sortDirection (li_query input)"
  obtain i where i: "stable_id (en_thread (rows ! k)) = Some i" using assms(4,6) by (meson not_None_eq nth_mem)
  have ext: "en_source (rows ! k) = External" using all_external [OF assms(3)] assms(6) by simp
  define anchor where "anchor = \<lparr>an_timestamp = en_timestamp (rows ! k), an_threadId = i\<rparr>"
  have a: "externalAnchor (rows ! k) = Inr anchor" using i ext by (simp add: externalAnchor_def anchor_def)
  have pos: "ListPosition (directed ?d (an_timestamp anchor)) (an_threadId anchor) = entry_position ?d (rows ! k)"
    using i by (simp add: anchor_def entry_position_def)
  have sorted: "sorted (List.map (entry_position ?d) rows)"
    using assms(3) by (rule all_entries_Inr) simp
  have distinct: "distinct (List.map (entry_position ?d) rows)"
    using assms(4,5) unfolding distinct_map inj_on_def entry_position_def by (auto split: option.splits)
  have "after_anchor ?d (Some anchor) rows = Inr (drop (Suc k) rows)"
    using after_anchor_filter [OF assms(4)] after_nth [OF sorted distinct assms(6)] by (simp add: pos)
  then show ?thesis
    using a list_from_all [OF assms(1,2)] assms(3) by (auto simp: bindE_def)
qed

text \<open>
  A page of External Threads is sound and complete: its rows are in the order of the list, no more
  than the limit, and when it says that there are no more, they are the matching stored Threads that no
  shared row replaces together with the shared rows, each once.
\<close>

theorem external_page_contents:
  assumes "lr_supportsExternal (li_query input)" "lr_sortKey (li_query input) \<noteq> SectionPosition"
    and "listExternalThreadMetadata input sharedThreads None (Some n) = Inr page"
  shows "\<exists>own. externalThreadListEntries input = Inr own \<and> length (ep_data page) \<le> n \<and>
    sorted (List.map (entry_position (lr_sortDirection (li_query input))) (ep_data page)) \<and>
    (\<not> ep_hasMore page \<longrightarrow>
      mset (List.map en_thread (ep_data page)) =
        mset (filter (\<lambda>t. jfield t ''id'' \<notin> set (List.map (\<lambda>s. jfield s ''id'') sharedThreads)) (List.map en_thread own)) +
        mset sharedThreads)"
proof -
  obtain rows where r: "all_entries input sharedThreads = Inr rows"
    and p: "page = \<lparr>ep_data = take n rows, ep_hasMore = n < length rows\<rparr>"
    using assms(3) unfolding list_from_all [OF assms(1,2)] by (auto elim!: bindE_InrE)
  obtain shared own where s: "collect (shared_entry (lr_sortKey (li_query input))) sharedThreads = Inr shared"
    and o: "externalThreadListEntries input = Inr own"
    and e: "rows = List.sort_key (entry_position (lr_sortDirection (li_query input)))
        (filter (\<lambda>e. jfield (en_thread e) ''id'' \<notin> set (List.map (\<lambda>s. jfield (en_thread s) ''id'') shared)) own @ shared)"
    using r by (rule all_entries_Inr)
  have threads: "List.map en_thread shared = sharedThreads"
    using s by (induction sharedThreads arbitrary: shared) (auto simp: shared_entry_def elim!: bindE_InrE)
  then have ids: "List.map (\<lambda>s. jfield (en_thread s) ''id'') shared = List.map (\<lambda>s. jfield s ''id'') sharedThreads"
    by auto
  have "sorted (List.map (entry_position (lr_sortDirection (li_query input))) rows)" unfolding e by simp
  then have "sorted (List.map (entry_position (lr_sortDirection (li_query input))) (take n rows))"
    by (simp add: take_map [symmetric] sorted_wrt_take)
  moreover have "mset (List.map en_thread rows) =
      mset (filter (\<lambda>t. jfield t ''id'' \<notin> set (List.map (\<lambda>s. jfield s ''id'') sharedThreads)) (List.map en_thread own)) +
      mset sharedThreads"
    unfolding e by (simp add: threads [symmetric] filter_map comp_def)
  ultimately show ?thesis using o by (auto simp: p)
qed

subsection \<open>Concrete runs\<close>

definition listed_thread :: "string \<Rightarrow> string option \<Rightarrow> timestamp \<Rightarrow> thread_record" where
  "listed_thread i forkedFrom updatedAt =
     \<lparr>tr_revision = 1, tr_hostThreadId = i, tr_createRequestId = i, tr_harnessId = ''h'', tr_state = Ready,
      tr_nativeSessionRef = Some \<lparr>ns_harnessId = ''h'', ns_nativeSessionId = i, ns_locator = None\<rparr>,
      tr_importSourceRef = None, tr_cwd = ''/w'', tr_title = ''T'', tr_archived = False, tr_transportModelId = ''m'',
      tr_ephemeral = False, tr_historyMode = Legacy,
      tr_forkSource = map_option (\<lambda>f. \<lparr>fs_hostThreadId = f, fs_hostTurnId = ''u''\<rparr>) forkedFrom,
      tr_subagent = None, tr_turnMappings = [], tr_createdAt = 0, tr_updatedAt = updatedAt, tr_extra = [],
      tr_usageMeasurements = None, tr_preview = None, tr_projectId = None, tr_projectlessWorkspace = None,
      tr_daybreakEnabled = None, tr_gitInfo = None\<rparr>"

definition forked_threads :: "thread_record list" where
  "forked_threads = [listed_thread ''c'' (Some ''b'') 9000, listed_thread ''b'' (Some ''a'') 5000,
     listed_thread ''a'' None 5000]"

definition looped_threads :: "thread_record list" where
  "looped_threads = [listed_thread ''a'' (Some ''b'') 0, listed_thread ''b'' (Some ''a'') 0]"

lemma session_tree_roots_witness:
  "root_of forked_threads (listed_thread ''c'' (Some ''b'') 9000) ''a''"
proof -
  have "\<not> isl (resolveExternalSessionTreeIds forked_threads)" by code_simp
  then have r: "resolveExternalSessionTreeIds forked_threads = Inr (projr (resolveExternalSessionTreeIds forked_threads))"
    by simp
  have d: "distinct (List.map tr_hostThreadId forked_threads)" by code_simp
  have i: "listed_thread ''c'' (Some ''b'') 9000 \<in> set forked_threads" by (simp add: forked_threads_def)
  have "js_get (projr (resolveExternalSessionTreeIds forked_threads)) ''c'' = Some ''a''" by code_simp
  then show ?thesis using session_tree_roots [OF d r i] by (auto simp: listed_thread_def)
qed

lemma session_trees_resolve_witness:
  "list_all (\<lambda>r. \<exists>t. root_of forked_threads r t) forked_threads \<and>
   \<not> list_all (\<lambda>r. \<exists>t. root_of looped_threads r t) looped_threads"
proof -
  have d: "distinct (List.map tr_hostThreadId forked_threads)" "distinct (List.map tr_hostThreadId looped_threads)"
    by code_simp+
  have "\<not> isl (resolveExternalSessionTreeIds forked_threads)" "isl (resolveExternalSessionTreeIds looped_threads)"
    by code_simp+
  then have "\<exists>m. resolveExternalSessionTreeIds forked_threads = Inr m" "\<nexists>m. resolveExternalSessionTreeIds looped_threads = Inr m"
    by (cases "resolveExternalSessionTreeIds forked_threads"; cases "resolveExternalSessionTreeIds looped_threads"; simp)+
  then show ?thesis using session_trees_resolve [OF d(1)] session_trees_resolve [OF d(2)] by (simp add: list_all_iff)
qed

definition list_page_input :: list_input where
  "list_page_input = \<lparr>li_records = forked_threads, li_query = sample_request, li_runtimeFor = (\<lambda>_. None),
     li_placementOf = (\<lambda>_. None)\<rparr>"

lemma sample_supported: "lr_supportsExternal (li_query list_page_input)" "lr_sortKey (li_query list_page_input) \<noteq> SectionPosition"
  by code_simp+

definition listed_rows :: "list_entry list" where
  "listed_rows = projr (all_entries list_page_input [])"

lemma external_page_resumes_witness:
  "\<exists>anchor. externalAnchor (listed_rows ! 0) = Inr anchor \<and>
    listExternalThreadMetadata list_page_input [] (Some anchor) (Some 1) =
      Inr \<lparr>ep_data = take 1 (drop 1 listed_rows), ep_hasMore = True\<rparr>"
proof -
  have "\<not> isl (all_entries list_page_input [])" by code_simp
  then have rows: "all_entries list_page_input [] = Inr listed_rows" by (simp add: listed_rows_def)
  have ids: "\<forall>e \<in> set listed_rows. stable_id (en_thread e) \<noteq> None"
    "distinct (List.map (\<lambda>e. stable_id (en_thread e)) listed_rows)" "length listed_rows = 3"
    by code_simp+
  have "0 < length listed_rows" using ids(3) by simp
  from external_page_resumes [OF sample_supported rows ids(1,2) this, of 1]
  show ?thesis using ids(3) by simp
qed

lemma external_page_contents_witness:
  "\<exists>page own. listExternalThreadMetadata list_page_input [] None (Some 5) = Inr page \<and>
    externalThreadListEntries list_page_input = Inr own \<and>
    mset (List.map en_thread (ep_data page)) = mset (List.map en_thread own)"
proof -
  have "\<not> isl (listExternalThreadMetadata list_page_input [] None (Some 5))" by code_simp
  then obtain page where p: "listExternalThreadMetadata list_page_input [] None (Some 5) = Inr page"
    by (cases "listExternalThreadMetadata list_page_input [] None (Some 5)") auto
  have "\<not> ep_hasMore (projr (listExternalThreadMetadata list_page_input [] None (Some 5)))" by code_simp
  then have "\<not> ep_hasMore page" using p by simp
  with external_page_contents [OF sample_supported p] p show ?thesis by auto
qed

end
