(* ===== verification/ThreadAggregator.thy ===== *)
theory ThreadAggregator
  imports ThreadListProps
begin

text \<open>
  One \<open>thread/list\<close> page for two owners: \<open>packages/host-runtime/src/thread-list-aggregator.ts\<close>. The
  official rows come from \<open>requestOfficialPage\<close>, a function of the requests made so far and the
  parameters of the current one; the External rows from \<open>listExternalThreadMetadata\<close>. The tie anchor
  U+FFFF has no \<^typ>\<open>char\<close> and is an argument.
\<close>

type_synonym page_server = "call list \<Rightarrow> json \<Rightarrow> host_error + official_page"

record aggregated_page =
  ag_data :: "json list"
  ag_nextCursor :: "string option"
  ag_backwardsCursor :: "string option"

definition MAX_OFFICIAL_PAGE_REQUESTS :: nat where
  "MAX_OFFICIAL_PAGE_REQUESTS = 256"

definition opposite :: "sort_direction \<Rightarrow> sort_direction" where
  "opposite direction = (case direction of Asc \<Rightarrow> Desc | Desc \<Rightarrow> Asc)"

definition officialParams :: "list_request \<Rightarrow> string option \<Rightarrow> nat \<Rightarrow> json" where
  "officialParams query cursor limit =
     JObj (js_set ''limit'' (JInt (int limit)) (js_set ''cursor'' (opt_text cursor) (fields_of (lr_params query))))"

definition cursorValue ::
  "list_request \<Rightarrow> sort_direction \<Rightarrow> string option \<Rightarrow> bool \<Rightarrow> external_anchor option \<Rightarrow> bool \<Rightarrow> string + string" where
  "cursorValue query direction officialCursor officialDone anchor externalDone =
     encodeHostThreadListCursor
       \<lparr>hc_queryFingerprint = lr_queryFingerprint query, hc_sortDirection = direction,
        hc_officialCursor = officialCursor, hc_officialDone = officialDone,
        hc_externalAnchor = anchor, hc_externalDone = externalDone\<rparr>"

definition lift_host :: "host_error + 'a \<Rightarrow> 'a asks" where
  "lift_host r = (case r of Inl e \<Rightarrow> throw e | Inr x \<Rightarrow> ret x)"

subsection \<open>The official side\<close>

record official_state =
  os_cursor :: "string option"
  os_done :: bool
  os_batchStart :: "string option"
  os_batch :: "official_page option"
  os_entries :: "list_entry list"
  os_index :: nat
  os_firstBackwards :: "string option option"
  os_requests :: nat

definition requestOfficial ::
  "page_server \<Rightarrow> list_request \<Rightarrow> nat \<Rightarrow> string option \<Rightarrow> nat \<Rightarrow> official_page asks" where
  "requestOfficial server query requests cursor limit =
     (if MAX_OFFICIAL_PAGE_REQUESTS < Suc requests
      then throw (HostError ''Official thread/list pagination exceeded its request bound'')
      else (\<lambda>calls. (server calls (officialParams query cursor limit),
                     calls @ [(''thread/list'', officialParams query cursor limit)])))"

text \<open>The consumed batch gives way to its continuation.\<close>

definition next_batch :: "official_state \<Rightarrow> official_state" where
  "next_batch a =
     (case os_batch a of
        None \<Rightarrow> a
      | Some page \<Rightarrow> a\<lparr>os_cursor := op_nextCursor page, os_done := (op_nextCursor page = None), os_batch := None,
                         os_entries := [], os_index := 0\<rparr>)"

definition fetched_batch :: "official_state \<Rightarrow> official_page \<Rightarrow> list_entry list \<Rightarrow> official_state" where
  "fetched_batch a page entries =
     a\<lparr>os_batchStart := os_cursor a, os_requests := Suc (os_requests a),
       os_firstBackwards := (case os_firstBackwards a of None \<Rightarrow> Some (op_backwardsCursor page) | known \<Rightarrow> known),
       os_batch := Some page, os_entries := entries, os_index := 0\<rparr>"

text \<open>\<open>ensureOfficial\<close> and the loop around it that passes over rows an External Thread stands for.\<close>

function next_official ::
  "page_server \<Rightarrow> list_request \<Rightarrow> string list \<Rightarrow> official_state \<Rightarrow> (list_entry option \<times> official_state) asks" where
  "next_official server query externalIds a =
     (if os_done a then ret (None, a)
      else if os_index a < length (os_entries a)
      then (if row_id (en_thread (os_entries a ! os_index a)) \<in> set externalIds
            then next_official server query externalIds (a\<lparr>os_index := Suc (os_index a)\<rparr>)
            else ret (Some (os_entries a ! os_index a), a))
      else if os_done (next_batch a) then ret (None, next_batch a)
      else if MAX_OFFICIAL_PAGE_REQUESTS < Suc (os_requests (next_batch a))
      then throw (HostError ''Official thread/list pagination exceeded its request bound'')
      else
        bindA (requestOfficial server query (os_requests (next_batch a)) (os_cursor (next_batch a)) (max 1 (lr_limit query)))
          (\<lambda>page. bindA (lift_host (collect (\<lambda>t. officialThreadListEntry t (lr_sortKey query)) (op_data page)))
            (\<lambda>entries.
              if entries = [] then
                (if op_nextCursor page = None \<or> op_nextCursor page = os_cursor (next_batch a)
                 then ret (None, (fetched_batch (next_batch a) page entries)\<lparr>os_done := True\<rparr>)
                 else next_official server query externalIds
                   ((fetched_batch (next_batch a) page entries)\<lparr>os_cursor := op_nextCursor page, os_batch := None\<rparr>))
              else next_official server query externalIds (fetched_batch (next_batch a) page entries))))"
  by pat_completeness auto

lemma next_batch_requests [simp]: "os_requests (next_batch a) = os_requests a"
  by (simp add: next_batch_def split: option.split)

lemma fetched_batch_requests [simp]: "os_requests (fetched_batch a page entries) = Suc (os_requests a)"
  by (simp add: fetched_batch_def)

termination next_official
  by (relation "measures [\<lambda>(_, _, _, a). MAX_OFFICIAL_PAGE_REQUESTS - os_requests a,
        \<lambda>(_, _, _, a). length (os_entries a) - os_index a]")
     (auto simp: MAX_OFFICIAL_PAGE_REQUESTS_def)

declare next_official.simps [simp del]

subsection \<open>The merge\<close>

record merge_state =
  ms_output :: "list_entry list"
  ms_index :: nat
  ms_anchor :: "external_anchor option"
  ms_official :: official_state

definition took_external :: "merge_state \<Rightarrow> official_state \<Rightarrow> list_entry \<Rightarrow> external_anchor \<Rightarrow> merge_state" where
  "took_external m a e anchor =
     m\<lparr>ms_output := ms_output m @ [e], ms_index := Suc (ms_index m), ms_anchor := Some anchor, ms_official := a\<rparr>"

definition took_official :: "merge_state \<Rightarrow> official_state \<Rightarrow> list_entry \<Rightarrow> merge_state" where
  "took_official m a r = m\<lparr>ms_output := ms_output m @ [r], ms_official := a\<lparr>os_index := Suc (os_index a)\<rparr>\<rparr>"

text \<open>The choice of one step: an External row goes first unless an official row is strictly before it.\<close>

definition external_first :: "sort_direction \<Rightarrow> list_entry \<Rightarrow> list_entry option \<Rightarrow> host_error + bool" where
  "external_first direction e official =
     (case official of
        None \<Rightarrow> Inr True
      | Some r \<Rightarrow> bindE (compareThreadListEntries e r direction) (\<lambda>c. Inr (c \<le> 0)))"

text \<open>The main loop; the number counts the rows the page still takes.\<close>

fun merge_rows ::
  "page_server \<Rightarrow> list_request \<Rightarrow> string list \<Rightarrow> list_entry list \<Rightarrow> nat \<Rightarrow> merge_state \<Rightarrow> merge_state asks" where
  "merge_rows server query externalIds externals 0 m = ret m"
| "merge_rows server query externalIds externals (Suc n) m =
     bindA (next_official server query externalIds (ms_official m)) (\<lambda>(official, a).
       if ms_index m < length externals then
         bindA (lift_host (external_first (lr_sortDirection query) (externals ! ms_index m) official)) (\<lambda>first.
           if first then
             bindA (lift_host (externalAnchor (externals ! ms_index m))) (\<lambda>anchor.
               merge_rows server query externalIds externals n (took_external m a (externals ! ms_index m) anchor))
           else merge_rows server query externalIds externals n (took_official m a (the official)))
       else
         (case official of
            None \<Rightarrow> ret (m\<lparr>ms_official := a\<rparr>)
          | Some r \<Rightarrow> merge_rows server query externalIds externals n (took_official m a r)))"

text \<open>Where the official side resumes: its cursor and whether it is done.\<close>

definition official_resume ::
  "page_server \<Rightarrow> list_request \<Rightarrow> official_state \<Rightarrow> (string option \<times> bool) asks" where
  "official_resume server query a =
     (case os_batch a of
        None \<Rightarrow> ret (os_cursor a, os_done a)
      | Some page \<Rightarrow>
          if os_done a then ret (os_cursor a, os_done a)
          else if os_index a = 0 then ret (os_batchStart a, False)
          else if os_index a < length (os_entries a) then
            bindA (requestOfficial server query (os_requests a) (os_batchStart a) (os_index a)) (\<lambda>exact.
              if length (op_data exact) \<noteq> os_index a \<or> op_nextCursor exact = None
              then throw (HostError ''Official thread/list did not return an exact consumed prefix cursor'')
              else ret (op_nextCursor exact, False))
          else ret (op_nextCursor page, op_nextCursor page = None))"

definition start_cursor :: "list_request \<Rightarrow> host_cursor" where
  "start_cursor query =
     (case lr_cursor query of
        Some c \<Rightarrow> c
      | None \<Rightarrow> \<lparr>hc_queryFingerprint = lr_queryFingerprint query, hc_sortDirection = lr_sortDirection query,
                   hc_officialCursor = None, hc_officialDone = False, hc_externalAnchor = None, hc_externalDone = False\<rparr>)"

definition start_official :: "host_cursor \<Rightarrow> official_state" where
  "start_official start =
     \<lparr>os_cursor = hc_officialCursor start, os_done = hc_officialDone start, os_batchStart = hc_officialCursor start,
      os_batch = None, os_entries = [], os_index = 0, os_firstBackwards = None, os_requests = 0\<rparr>"

definition external_side :: "list_input \<Rightarrow> json list \<Rightarrow> host_error + external_page" where
  "external_side input sharedThreads =
     (let start = start_cursor (li_query input)
      in if hc_externalDone start then Inr \<lparr>ep_data = [], ep_hasMore = False\<rparr>
         else listExternalThreadMetadata input sharedThreads (hc_externalAnchor start) (Some (lr_limit (li_query input))))"

definition external_ids :: "list_input \<Rightarrow> json list \<Rightarrow> string list" where
  "external_ids input sharedThreads = List.map tr_hostThreadId (li_records input) @ List.map row_id sharedThreads"

definition backwards_anchor :: "string \<Rightarrow> list_entry \<Rightarrow> external_anchor" where
  "backwards_anchor tieAnchor first =
     \<lparr>an_timestamp = en_timestamp first,
      an_threadId = (if en_source first = External then row_id (en_thread first) else tieAnchor)\<rparr>"

definition external_remaining :: "list_request \<Rightarrow> external_page \<Rightarrow> nat \<Rightarrow> bool" where
  "external_remaining query externalPage index =
     (index < length (ep_data externalPage) \<or> ep_hasMore externalPage \<or>
      lr_limit query = 0 \<and> \<not> hc_externalDone (start_cursor query))"

definition page_cursor :: "string + string \<Rightarrow> bool \<Rightarrow> string option asks" where
  "page_cursor cursor wanted = (if wanted then bindA (lift_result cursor) (\<lambda>c. ret (Some c)) else ret None)"

definition aggregateThreadList ::
  "string \<Rightarrow> page_server \<Rightarrow> list_input \<Rightarrow> json list \<Rightarrow> aggregated_page asks" where
  "aggregateThreadList tieAnchor server input sharedThreads =
     (let query = li_query input; start = start_cursor query in
      if \<not> lr_supportsExternal query \<or> lr_sortKey query = SectionPosition
      then throw (HostError ''External aggregation is not supported for query'')
      else
        bindA (lift_host (external_side input sharedThreads)) (\<lambda>externalPage.
        bindA (merge_rows server query (external_ids input sharedThreads) (ep_data externalPage) (lr_limit query)
            \<lparr>ms_output = [], ms_index = 0, ms_anchor = hc_externalAnchor start, ms_official = start_official start\<rparr>) (\<lambda>m.
        bindA (official_resume server query (ms_official m)) (\<lambda>(nextOfficialCursor, nextOfficialDone).
        let remaining = external_remaining query externalPage (ms_index m) in
        bindA (page_cursor (cursorValue query (lr_sortDirection query) nextOfficialCursor nextOfficialDone
                 (ms_anchor m) (\<not> remaining)) (remaining \<or> \<not> nextOfficialDone)) (\<lambda>nextCursor.
        bindA (case ms_output m of
                 [] \<Rightarrow> ret None
               | first # _ \<Rightarrow>
                   let back = Option.bind (os_firstBackwards (ms_official m)) id
                   in page_cursor (cursorValue query (opposite (lr_sortDirection query)) back (back = None)
                        (Some (backwards_anchor tieAnchor first)) False) True) (\<lambda>backwardsCursor.
        ret \<lparr>ag_data = List.map en_thread (ms_output m), ag_nextCursor = nextCursor,
             ag_backwardsCursor = backwardsCursor\<rparr>))))))"

end
