(* ===== verification/ThreadAggregatorProps.thy ===== *)
theory ThreadAggregatorProps
  imports ThreadAggregator
begin

text \<open>
  Properties of the aggregated page: it is the merge of the External page with rows of the official
  server, its cursor resumes the External rows behind the last one shown, and the number of requests
  is bounded.
\<close>

subsection \<open>The official side\<close>

definition entries_official :: "official_state \<Rightarrow> bool" where
  "entries_official a = (\<forall>e \<in> set (os_entries a). en_source e = Official)"

text \<open>The row the official side offers and has not given yet.\<close>

definition offers :: "string list \<Rightarrow> official_state \<Rightarrow> list_entry \<Rightarrow> bool" where
  "offers ids a r =
     (\<not> os_done a \<and> os_index a < length (os_entries a) \<and> os_entries a ! os_index a = r \<and>
      row_id (en_thread r) \<notin> set ids)"

lemma next_official_offered: "offers ids a r \<Longrightarrow> next_official server query ids a = ret (Some r, a)"
  by (subst next_official.simps) (auto simp: offers_def)

lemma next_official_done: "os_done a \<Longrightarrow> next_official server query ids a = ret (None, a)"
  by (subst next_official.simps) simp

lemma lift_host_Inr [simp]: "lift_host r calls = (Inr x, calls') \<longleftrightarrow> r = Inr x \<and> calls' = calls"
  by (auto simp: lift_host_def split: sum.splits)

lemma official_entries:
  "collect (\<lambda>t. officialThreadListEntry t key) threads = Inr entries \<Longrightarrow> \<forall>e \<in> set entries. en_source e = Official"
  by (induction threads arbitrary: entries) (auto simp: officialThreadListEntry_def elim!: bindE_InrE)

lemma next_official_result:
  "next_official server query ids a calls = (Inr (r, a'), calls') \<Longrightarrow> entries_official a \<Longrightarrow>
    entries_official a' \<and> (case r of None \<Rightarrow> os_done a' | Some x \<Rightarrow> offers ids a' x \<and> en_source x = Official)"
proof (induction server query ids a arbitrary: calls rule: next_official.induct)
  case (1 server query ids a)
  show ?case
  proof (cases "os_done a \<or> os_index a < length (os_entries a)")
    case True
    then show ?thesis
      using "1.prems" "1.IH"(1)
      by (subst (asm) next_official.simps)
         (auto simp: offers_def entries_official_def split: if_splits)
  next
    case False
    have keep: "entries_official (next_batch a)"
      using "1.prems"(2) by (auto simp: entries_official_def next_batch_def split: option.splits)
    show ?thesis
    proof (cases "os_done (next_batch a)")
      case True
      then show ?thesis using False "1.prems" keep by (subst (asm) next_official.simps) auto
    next
      case going: False
      define b where "b = next_batch a"
      obtain page entries calls1 where bound: "\<not> MAX_OFFICIAL_PAGE_REQUESTS < Suc (os_requests b)"
        and p: "requestOfficial server query (os_requests b) (os_cursor b) (max 1 (lr_limit query)) calls = (Inr page, calls1)"
        and e: "collect (\<lambda>t. officialThreadListEntry t (lr_sortKey query)) (op_data page) = Inr entries"
        and rest: "(if entries = [] then
                (if op_nextCursor page = None \<or> op_nextCursor page = os_cursor b
                 then ret (None, (fetched_batch b page entries)\<lparr>os_done := True\<rparr>)
                 else next_official server query ids
                   ((fetched_batch b page entries)\<lparr>os_cursor := op_nextCursor page, os_batch := None\<rparr>))
              else next_official server query ids (fetched_batch b page entries)) calls1 = (Inr (r, a'), calls')"
        using False going "1.prems"(1) unfolding b_def
        by (subst (asm) next_official.simps) (auto simp: bindA_Inr_iff split: if_splits)
      have f: "entries_official (fetched_batch b page entries)"
        using official_entries [OF e] by (simp add: entries_official_def fetched_batch_def)
      have guards: "\<not> os_done a" "\<not> os_index a < length (os_entries a)" "\<not> os_done (next_batch a)"
        "\<not> MAX_OFFICIAL_PAGE_REQUESTS < Suc (os_requests (next_batch a))"
        using False going bound unfolding b_def by simp_all
      show ?thesis
      proof (cases "entries = []")
        case True
        show ?thesis
        proof (cases "op_nextCursor page = None \<or> op_nextCursor page = os_cursor b")
          case True
          then show ?thesis using rest f \<open>entries = []\<close> by (auto simp: entries_official_def)
        next
          case again: False
          have "next_official server query ids
              ((fetched_batch b page entries)\<lparr>os_cursor := op_nextCursor page, os_batch := None\<rparr>) calls1 = (Inr (r, a'), calls')"
            using rest True again by simp
          moreover have "entries_official ((fetched_batch b page entries)\<lparr>os_cursor := op_nextCursor page, os_batch := None\<rparr>)"
            using f by (simp add: entries_official_def)
          ultimately show ?thesis using "1.IH"(2) [OF guards True] again unfolding b_def by blast
        qed
      next
        case more: False
        then have "next_official server query ids (fetched_batch b page entries) calls1 = (Inr (r, a'), calls')"
          using rest by simp
        then show ?thesis using "1.IH"(3) [OF guards more] f unfolding b_def by blast
      qed
    qed
  qed
qed

subsection \<open>The merge\<close>

text \<open>The reference: merging two lists, the first one first among rows of one time.\<close>

definition not_after :: "sort_direction \<Rightarrow> list_entry \<Rightarrow> list_entry \<Rightarrow> bool" where
  "not_after direction x y = (directed direction (en_timestamp x) \<le> directed direction (en_timestamp y))"

fun merge_lists :: "sort_direction \<Rightarrow> list_entry list \<Rightarrow> list_entry list \<Rightarrow> list_entry list" where
  "merge_lists direction [] ys = ys"
| "merge_lists direction (x # xs) [] = x # xs"
| "merge_lists direction (x # xs) (y # ys) =
     (if not_after direction x y then x # merge_lists direction xs (y # ys)
      else y # merge_lists direction (x # xs) ys)"

lemma merge_lists_Nil [simp]: "merge_lists direction xs [] = xs"
  by (cases xs) simp_all

lemma set_merge_lists [simp]: "set (merge_lists direction xs ys) = set xs \<union> set ys"
  by (induction direction xs ys rule: merge_lists.induct) auto

lemma sorted_merge_lists:
  "sorted (List.map (\<lambda>e. directed d (en_timestamp e)) xs) \<Longrightarrow> sorted (List.map (\<lambda>e. directed d (en_timestamp e)) ys) \<Longrightarrow>
    sorted (List.map (\<lambda>e. directed d (en_timestamp e)) (merge_lists d xs ys))"
  by (induction d xs ys rule: merge_lists.induct) (auto simp: not_after_def)

lemma external_first_not_after:
  "en_source e = External \<Longrightarrow> en_source r = Official \<Longrightarrow> external_first direction e (Some r) = Inr (not_after direction e r)"
  by (cases direction)
     (auto simp: external_first_def compareThreadListEntries_def compareTimestamp_def not_after_def directed_def Let_def
        bindE_def)

text \<open>What a run of the loop adds, with the official rows it met.\<close>

definition merged_with ::
  "sort_direction \<Rightarrow> string list \<Rightarrow> list_entry list \<Rightarrow> nat \<Rightarrow> merge_state \<Rightarrow> merge_state \<Rightarrow> list_entry list \<Rightarrow> bool" where
  "merged_with direction ids externals n m m' officials =
     (let new = take n (merge_lists direction (drop (ms_index m) externals) officials)
      in ms_output m' = ms_output m @ new \<and>
         ms_index m' = ms_index m + length (filter (\<lambda>e. en_source e = External) new) \<and>
         (\<forall>r \<in> set officials. en_source r = Official \<and> row_id (en_thread r) \<notin> set ids) \<and>
         (os_done (ms_official m) \<longrightarrow> officials = []) \<and>
         (\<forall>r. offers ids (ms_official m) r \<longrightarrow> (\<exists>rest. officials = r # rest)) \<and>
         (if ms_index m' = ms_index m then ms_anchor m' = ms_anchor m
          else \<exists>anchor. externalAnchor (externals ! (ms_index m' - 1)) = Inr anchor \<and> ms_anchor m' = Some anchor))"

lemma merge_rows_result:
  assumes "\<forall>e \<in> set externals. en_source e = External"
  shows "merge_rows server query ids externals n m calls = (Inr m', calls') \<Longrightarrow> entries_official (ms_official m) \<Longrightarrow>
    ms_index m \<le> length externals \<Longrightarrow>
    \<exists>officials. merged_with (lr_sortDirection query) ids externals n m m' officials"
proof (induction n arbitrary: m calls)
  case 0
  let ?a = "ms_official m"
  let ?r = "os_entries ?a ! os_index ?a"
  have "merged_with (lr_sortDirection query) ids externals 0 m m (if offers ids ?a ?r then [?r] else [])"
    using 0 by (auto simp: merged_with_def offers_def entries_official_def)
  then show ?case using 0 by auto
next
  case (Suc n)
  let ?d = "lr_sortDirection query"
  obtain official a calls1 where nx: "next_official server query ids (ms_official m) calls = (Inr (official, a), calls1)"
    and rest: "(if ms_index m < length externals then
         bindA (lift_host (external_first ?d (externals ! ms_index m) official)) (\<lambda>first.
           if first then
             bindA (lift_host (externalAnchor (externals ! ms_index m))) (\<lambda>anchor.
               merge_rows server query ids externals n (took_external m a (externals ! ms_index m) anchor))
           else merge_rows server query ids externals n (took_official m a (the official)))
       else
         (case official of
            None \<Rightarrow> ret (m\<lparr>ms_official := a\<rparr>)
          | Some r \<Rightarrow> merge_rows server query ids externals n (took_official m a r))) calls1 = (Inr m', calls')"
    using Suc.prems(1) by (auto simp: bindA_Inr_iff)
  have off: "entries_official a" "case official of None \<Rightarrow> os_done a | Some x \<Rightarrow> offers ids a x \<and> en_source x = Official"
    using next_official_result [OF nx Suc.prems(2)] by auto
  have stay: "os_done (ms_official m) \<Longrightarrow> official = None" "offers ids (ms_official m) r \<Longrightarrow> official = Some r" for r
    using nx next_official_done [of "ms_official m" server query ids] next_official_offered [of ids "ms_official m" r server query]
    by auto
  have row: "row_id (en_thread r) \<notin> set ids \<and> en_source r = Official" if "official = Some r" for r
    using off(2) that by (auto simp: offers_def)
  have official_step: "\<exists>officials. merged_with ?d ids externals (Suc n) m m' officials"
    if r: "official = Some r" and run: "merge_rows server query ids externals n (took_official m a r) calls1 = (Inr m', calls')"
      and after: "ms_index m < length externals \<Longrightarrow> \<not> not_after ?d (externals ! ms_index m) r" for r
  proof -
    have "entries_official (ms_official (took_official m a r))" "ms_index (took_official m a r) \<le> length externals"
      using off(1) Suc.prems(3) by (simp_all add: took_official_def entries_official_def)
    from Suc.IH [OF run this] obtain officials
      where o: "merged_with ?d ids externals n (took_official m a r) m' officials" by blast
    have "merge_lists ?d (drop (ms_index m) externals) (r # officials) =
        r # merge_lists ?d (drop (ms_index m) externals) officials"
      using after by (cases "ms_index m < length externals") (auto simp: Cons_nth_drop_Suc [symmetric])
    then have "merged_with ?d ids externals (Suc n) m m' (r # officials)"
      using o row [OF r] stay r by (auto simp: merged_with_def Let_def took_official_def)
    then show ?thesis by blast
  qed
  show ?case
  proof (cases "ms_index m < length externals")
    case False
    show ?thesis
    proof (cases official)
      case None
      then have "m' = m\<lparr>ms_official := a\<rparr>" using rest False by simp
      then have "merged_with ?d ids externals (Suc n) m m' []"
        using False stay None by (auto simp: merged_with_def Let_def)
      then show ?thesis by blast
    next
      case (Some r)
      then show ?thesis using official_step [OF Some] rest False by auto
    qed
  next
    case True
    let ?e = "externals ! ms_index m"
    have e: "en_source ?e = External" using assms True by simp
    obtain first where f: "external_first ?d ?e official = Inr first"
      and rest': "(if first then
             bindA (lift_host (externalAnchor ?e)) (\<lambda>anchor.
               merge_rows server query ids externals n (took_external m a ?e anchor))
           else merge_rows server query ids externals n (took_official m a (the official))) calls1 = (Inr m', calls')"
      using rest True by (auto simp: bindA_Inr_iff)
    have first: "first = (case official of None \<Rightarrow> True | Some r \<Rightarrow> not_after ?d ?e r)"
      using f row external_first_not_after [OF e] by (auto simp: external_first_def split: option.splits)
    show ?thesis
    proof (cases first)
      case False
      then obtain r where r: "official = Some r" "\<not> not_after ?d ?e r" using first by (auto split: option.splits)
      then show ?thesis using official_step [OF r(1)] rest' False by auto
    next
      case taken: True
      obtain anchor where an: "externalAnchor ?e = Inr anchor"
        and run: "merge_rows server query ids externals n (took_external m a ?e anchor) calls1 = (Inr m', calls')"
        using rest' taken by (auto simp: bindA_Inr_iff)
      have "entries_official (ms_official (took_external m a ?e anchor))"
        "ms_index (took_external m a ?e anchor) \<le> length externals"
        using off(1) True by (simp_all add: took_external_def)
      from Suc.IH [OF run this] obtain officials
        where o: "merged_with ?d ids externals n (took_external m a ?e anchor) m' officials" by blast
      have "merge_lists ?d (drop (ms_index m) externals) officials =
          ?e # merge_lists ?d (drop (Suc (ms_index m)) externals) officials"
        using True o off(2) first taken
        by (cases official) (auto simp: Cons_nth_drop_Suc [symmetric] merged_with_def Let_def took_external_def)
      then have "merged_with ?d ids externals (Suc n) m m' officials"
        using o e an off(2) stay
        by (auto simp: merged_with_def Let_def took_external_def split: if_splits option.splits)
      then show ?thesis by blast
    qed
  qed
qed

subsection \<open>The page\<close>

lemma after_anchor_keeps:
  "after_anchor d anchor es = Inr es' \<Longrightarrow> set es' \<subseteq> set es \<and>
    (sorted (List.map (f :: list_entry \<Rightarrow> int) es) \<longrightarrow> sorted (List.map f es'))"
proof (induction d anchor es arbitrary: es' rule: after_anchor.induct)
  case (3 d anchor e es)
  obtain c rest where c: "compareExternalAnchor e anchor d = Inr c" and r: "after_anchor d (Some anchor) es = Inr rest"
    and es': "es' = (if 0 < c then e # rest else rest)"
    using "3.prems" by (auto elim!: bindE_InrE)
  from "3.IH" [OF r] show ?case by (auto simp: es')
qed auto

lemma position_time: "entry_position d a \<le> entry_position d b \<Longrightarrow>
    directed d (en_timestamp a) \<le> directed d (en_timestamp b)"
  by (auto simp: entry_position_def less_eq_list_position_def less_list_position_def)

lemma external_side_sorted:
  assumes "external_side input sharedThreads = Inr external"
    and "lr_supportsExternal (li_query input)" "lr_sortKey (li_query input) \<noteq> SectionPosition"
  shows "(\<forall>e \<in> set (ep_data external). en_source e = External) \<and>
    sorted (List.map (\<lambda>e. directed (lr_sortDirection (li_query input)) (en_timestamp e)) (ep_data external))"
proof (cases "hc_externalDone (start_cursor (li_query input))")
  case True
  then show ?thesis using assms(1) by (auto simp: external_side_def Let_def)
next
  case False
  let ?d = "lr_sortDirection (li_query input)"
  obtain rows entries where r: "all_entries input sharedThreads = Inr rows"
    and a: "after_anchor ?d (hc_externalAnchor (start_cursor (li_query input))) rows = Inr entries"
    and e: "ep_data external = take (lr_limit (li_query input)) entries"
    using assms False by (auto simp: external_side_def Let_def list_from_all elim!: bindE_InrE)
  have "sorted (List.map (entry_position ?d) rows)" using r by (rule all_entries_Inr) simp
  then have "sorted (List.map (\<lambda>e. directed ?d (en_timestamp e)) rows)"
    by (auto simp: sorted_map intro: sorted_wrt_mono_rel [rotated] position_time)
  then have "sorted (List.map (\<lambda>e. directed ?d (en_timestamp e)) entries)" using after_anchor_keeps [OF a] by blast
  then show ?thesis
    using after_anchor_keeps [OF a, of "\<lambda>_. 0"] all_external [OF r]
    by (auto simp: e take_map [symmetric] sorted_wrt_take dest!: in_set_takeD)
qed

text \<open>The External rows of a page are resumed by its cursor.\<close>

definition resumes ::
  "list_request \<Rightarrow> external_page \<Rightarrow> nat \<Rightarrow> host_cursor \<Rightarrow> bool" where
  "resumes query external shown cursor =
     (hc_queryFingerprint cursor = lr_queryFingerprint query \<and> hc_sortDirection cursor = lr_sortDirection query \<and>
      hc_externalDone cursor = (\<not> external_remaining query external shown) \<and>
      (if shown = 0 then hc_externalAnchor cursor = hc_externalAnchor (start_cursor query)
       else \<exists>anchor. externalAnchor (ep_data external ! (shown - 1)) = Inr anchor \<and> hc_externalAnchor cursor = Some anchor))"


subsection \<open>Requests\<close>

text \<open>
  A computation that starts with \<open>used\<close> requests counted stays within the bound, and its result says
  how many are counted at its end.
\<close>

definition spends :: "nat \<Rightarrow> ('a \<Rightarrow> nat) \<Rightarrow> 'a asks \<Rightarrow> bool" where
  "spends used spent f =
     (used \<le> MAX_OFFICIAL_PAGE_REQUESTS \<longrightarrow>
      (\<forall>calls. \<exists>more. snd (f calls) = calls @ more \<and> used + length more \<le> MAX_OFFICIAL_PAGE_REQUESTS \<and>
        (\<forall>x. fst (f calls) = Inr x \<longrightarrow> used + length more \<le> spent x \<and> spent x \<le> MAX_OFFICIAL_PAGE_REQUESTS)))"

lemma spends_ret: "used \<le> spent x \<Longrightarrow> spent x \<le> MAX_OFFICIAL_PAGE_REQUESTS \<Longrightarrow> spends used spent (ret x)"
  by (simp add: spends_def)

lemma spends_throw: "spends used spent (throw e)"
  by (simp add: spends_def)

lemma spends_lift: "spends used (\<lambda>_. used) (lift_host r)"
  by (cases r) (simp_all add: lift_host_def spends_ret spends_throw spends_def)

lemma spends_bind:
  assumes "spends used spent f" "\<And>x. spends (spent x) spent' (g x)"
  shows "spends used spent' (bindA f g)"
  unfolding spends_def
proof (intro impI allI)
  fix calls
  assume u: "used \<le> MAX_OFFICIAL_PAGE_REQUESTS"
  obtain r calls1 where f: "f calls = (r, calls1)" by fastforce
  then obtain more where m: "calls1 = calls @ more" "used + length more \<le> MAX_OFFICIAL_PAGE_REQUESTS"
    "\<forall>x. r = Inr x \<longrightarrow> used + length more \<le> spent x \<and> spent x \<le> MAX_OFFICIAL_PAGE_REQUESTS"
    using assms(1) u unfolding spends_def by (metis fst_conv snd_conv)
  show "\<exists>more. snd (bindA f g calls) = calls @ more \<and> used + length more \<le> MAX_OFFICIAL_PAGE_REQUESTS \<and>
      (\<forall>x. fst (bindA f g calls) = Inr x \<longrightarrow> used + length more \<le> spent' x \<and> spent' x \<le> MAX_OFFICIAL_PAGE_REQUESTS)"
  proof (cases r)
    case (Inl e)
    then show ?thesis using f m by (auto simp: bindA_case)
  next
    case (Inr x)
    then have "spent x \<le> MAX_OFFICIAL_PAGE_REQUESTS" using m(3) by simp
    then obtain more2 where "snd (g x calls1) = calls1 @ more2" "spent x + length more2 \<le> MAX_OFFICIAL_PAGE_REQUESTS"
      "\<forall>y. fst (g x calls1) = Inr y \<longrightarrow> spent x + length more2 \<le> spent' y \<and> spent' y \<le> MAX_OFFICIAL_PAGE_REQUESTS"
      using assms(2) [of x] unfolding spends_def by meson
    moreover have "used + length more \<le> spent x" using m(3) Inr by simp
    ultimately show ?thesis using f m(1) Inr by (fastforce simp: bindA_case intro!: exI [of _ "more @ more2"])
  qed
qed

lemma spends_request: "spends used (\<lambda>_. Suc used) (requestOfficial server query used cursor limit)"
  by (auto simp: spends_def requestOfficial_def)

lemma spends_weaken: "spends u spent f \<Longrightarrow> (\<And>x. spent x \<le> MAX_OFFICIAL_PAGE_REQUESTS \<Longrightarrow> spent x \<le> spent' x \<and> spent' x \<le> MAX_OFFICIAL_PAGE_REQUESTS) \<Longrightarrow> spends u spent' f"
  unfolding spends_def by (meson order_trans)

lemma next_official_spends:
  "spends (os_requests a) (\<lambda>(_, a'). os_requests a') (next_official server query ids a)"
proof (induction server query ids a rule: next_official.induct)
  case (1 server query ids a)
  define b where "b = next_batch a"
  consider (finished) "os_done a" | (offer) "\<not> os_done a" "os_index a < length (os_entries a)"
    | (ended) "\<not> os_done a" "\<not> os_index a < length (os_entries a)" "os_done b"
    | (over) "\<not> os_done a" "\<not> os_index a < length (os_entries a)" "\<not> os_done b"
        "MAX_OFFICIAL_PAGE_REQUESTS < Suc (os_requests b)"
    | (fetch) "\<not> os_done a" "\<not> os_index a < length (os_entries a)" "\<not> os_done b"
        "\<not> MAX_OFFICIAL_PAGE_REQUESTS < Suc (os_requests b)"
    by blast
  then show ?case
  proof cases
    case finished
    then show ?thesis by (simp add: next_official_done spends_def)
  next
    case offer
    then show ?thesis using "1.IH"(1)
      by (subst next_official.simps) (auto simp: spends_def)
  next
    case ended
    then show ?thesis by (subst next_official.simps) (simp add: b_def spends_def)
  next
    case over
    then show ?thesis by (subst next_official.simps) (simp add: b_def spends_throw)
  next
    case fetch
    note guards = fetch [unfolded b_def]
    have step: "next_official server query ids a =
        bindA (requestOfficial server query (os_requests a) (os_cursor b) (max 1 (lr_limit query)))
          (\<lambda>page. bindA (lift_host (collect (\<lambda>t. officialThreadListEntry t (lr_sortKey query)) (op_data page)))
            (\<lambda>entries.
              if entries = [] then
                (if op_nextCursor page = None \<or> op_nextCursor page = os_cursor b
                 then ret (None, (fetched_batch b page entries)\<lparr>os_done := True\<rparr>)
                 else next_official server query ids
                   ((fetched_batch b page entries)\<lparr>os_cursor := op_nextCursor page, os_batch := None\<rparr>))
              else next_official server query ids (fetched_batch b page entries)))"
      using guards unfolding b_def by (subst next_official.simps) simp
    show ?thesis
      unfolding step
    proof (rule spends_bind [OF spends_request], rule spends_bind [OF spends_lift])
      fix page entries
      show "spends (Suc (os_requests a)) (\<lambda>(_, a'). os_requests a')
          (if entries = [] then
                (if op_nextCursor page = None \<or> op_nextCursor page = os_cursor b
                 then ret (None, (fetched_batch b page entries)\<lparr>os_done := True\<rparr>)
                 else next_official server query ids
                   ((fetched_batch b page entries)\<lparr>os_cursor := op_nextCursor page, os_batch := None\<rparr>))
              else next_official server query ids (fetched_batch b page entries))"
        using "1.IH"(2) [OF guards] "1.IH"(3) [OF guards]
        by (auto simp: b_def spends_def)
    qed
  qed
qed

lemma merge_rows_spends:
  "spends (os_requests (ms_official m)) (\<lambda>m'. os_requests (ms_official m'))
    (merge_rows server query ids externals n m)"
proof (induction n arbitrary: m)
  case 0
  then show ?case by (simp add: spends_def)
next
  case (Suc n)
  have took: "spends (os_requests a) (\<lambda>m'. os_requests (ms_official m'))
      (merge_rows server query ids externals n (took_official m a r))"
    "spends (os_requests a) (\<lambda>m'. os_requests (ms_official m'))
      (merge_rows server query ids externals n (took_external m a r anchor))" for a r anchor
    using Suc.IH [of "took_official m a r"] Suc.IH [of "took_external m a r anchor"]
    by (simp_all add: took_official_def took_external_def)
  show ?case
    unfolding merge_rows.simps
  proof (rule spends_bind [OF next_official_spends], clarsimp split del: if_split)
    fix official a
    show "spends (os_requests a) (\<lambda>m'. os_requests (ms_official m'))
      (if ms_index m < length externals then
         bindA (lift_host (external_first (lr_sortDirection query) (externals ! ms_index m) official)) (\<lambda>first.
           if first then
             bindA (lift_host (externalAnchor (externals ! ms_index m))) (\<lambda>anchor.
               merge_rows server query ids externals n (took_external m a (externals ! ms_index m) anchor))
           else merge_rows server query ids externals n (took_official m a (the official)))
       else
         (case official of
            None \<Rightarrow> ret (m\<lparr>ms_official := a\<rparr>)
          | Some r \<Rightarrow> merge_rows server query ids externals n (took_official m a r)))"
    proof (cases "ms_index m < length externals")
      case True
      show ?thesis
        unfolding if_P [OF True]
        by (rule spends_bind [OF spends_lift]) (auto intro!: took spends_bind [OF spends_lift])
    next
      case False
      then show ?thesis by (cases official) (simp_all add: took spends_def [of _ _ "ret _"])
    qed
  qed
qed

lemma resume_spends: "spends (os_requests a) (\<lambda>_. MAX_OFFICIAL_PAGE_REQUESTS) (official_resume server query a)"
proof -
  have "spends (os_requests a) (\<lambda>_. MAX_OFFICIAL_PAGE_REQUESTS)
      (bindA (requestOfficial server query (os_requests a) (os_batchStart a) (os_index a)) (\<lambda>exact.
        if length (op_data exact) \<noteq> os_index a \<or> op_nextCursor exact = None
        then throw (HostError ''Official thread/list did not return an exact consumed prefix cursor'')
        else ret (op_nextCursor exact, False)))"
    by (rule spends_bind [OF spends_request]) (auto simp: spends_def)
  then show ?thesis
    by (auto simp: official_resume_def spends_def split: option.split)
qed

lemma quiet_spends:
  "\<forall>calls. snd (f calls) = calls \<Longrightarrow> spends MAX_OFFICIAL_PAGE_REQUESTS (\<lambda>_. MAX_OFFICIAL_PAGE_REQUESTS) f"
  by (auto simp: spends_def)

lemma page_cursor_quiet: "snd (page_cursor cursor wanted calls) = calls"
  by (auto simp: page_cursor_def bindA_case lift_result_def split: sum.split)

lemma page_cursor_calls: "page_cursor cursor wanted calls = (r, calls') \<Longrightarrow> calls' = calls"
  by (metis page_cursor_quiet snd_conv)

text \<open>
  Aggregating one page asks the official server at most 256 times, whatever it answers: cursors that
  never end, empty pages and pages of rows that External Threads stand for included.
\<close>

theorem aggregation_bounded:
  "asks_at_most MAX_OFFICIAL_PAGE_REQUESTS (aggregateThreadList tieAnchor server input sharedThreads)"
proof -
  let ?q = "li_query input"
  have tail: "spends MAX_OFFICIAL_PAGE_REQUESTS (\<lambda>_. MAX_OFFICIAL_PAGE_REQUESTS) f"
    if "\<And>calls. snd (f calls) = calls" for f :: "aggregated_page asks"
    using that by (simp add: quiet_spends)
  have "spends 0 (\<lambda>_. MAX_OFFICIAL_PAGE_REQUESTS) (aggregateThreadList tieAnchor server input sharedThreads)"
  proof (cases "\<not> lr_supportsExternal ?q \<or> lr_sortKey ?q = SectionPosition")
    case True
    then show ?thesis by (simp add: aggregateThreadList_def spends_throw)
  next
    case False
    have m: "spends 0 (\<lambda>m'. os_requests (ms_official m'))
        (merge_rows server ?q ids ext n \<lparr>ms_output = [], ms_index = 0, ms_anchor = an, ms_official = start_official st\<rparr>)"
      for ids ext n an st
      using merge_rows_spends [of "\<lparr>ms_output = [], ms_index = 0, ms_anchor = an, ms_official = start_official st\<rparr>"]
      by (simp add: start_official_def)
    show ?thesis
      unfolding aggregateThreadList_def Let_def if_not_P [OF False]
      by (rule spends_bind [OF spends_lift], rule spends_bind [OF m], rule spends_bind [OF resume_spends])
         (auto simp: bindA_case dest!: page_cursor_calls intro!: tail split: sum.splits list.splits prod.splits)
  qed
  then show ?thesis unfolding spends_def asks_at_most_def by (metis add_0 le0)
qed

subsection \<open>A concrete page\<close>

definition official_row :: "string \<Rightarrow> int \<Rightarrow> json" where
  "official_row i t = JObj [(''id'', JStr i), (''createdAt'', JInt t), (''updatedAt'', JInt t)]"

definition prefix_server :: page_server where
  "prefix_server calls params =
     (if jfield params ''limit'' = Some (JInt 1)
      then Inr \<lparr>op_data = [official_row ''o1'' 7], op_nextCursor = Some ''after o1'', op_backwardsCursor = Some ''b''\<rparr>
      else Inr \<lparr>op_data = [official_row ''o1'' 7, official_row ''a'' 6], op_nextCursor = Some ''n'', op_backwardsCursor = Some ''b''\<rparr>)"

definition plain_query :: list_request where
  "plain_query =
     \<lparr>lr_params = JObj [], lr_archived = False, lr_cwd = None, lr_isPinned = None, lr_limit = 2, lr_modelProviders = None,
      lr_parentThreadId = None, lr_ancestorThreadId = None, lr_projectId = None, lr_searchTerm = None,
      lr_sectionId = None, lr_sortDirection = Desc, lr_sortKey = UpdatedAt, lr_sourceKinds = None,
      lr_useStateDbOnly = False, lr_queryFingerprint = replicate 64 (CHR ''0''), lr_cursor = None, lr_sectionOffset = None,
      lr_supportsExternal = True\<rparr>"

definition short_page_input :: list_input where
  "short_page_input = \<lparr>li_records = [], li_query = plain_query, li_runtimeFor = (\<lambda>_. None), li_placementOf = (\<lambda>_. None)\<rparr>"

definition shared_rows :: "json list" where
  "shared_rows = [official_row ''a'' 5, official_row ''c'' 9]"

definition anchor_ok :: "external_anchor \<Rightarrow> bool" where
  "anchor_ok a = (safe_int (an_timestamp a) \<and> an_threadId a \<noteq> [])"

lemma cursor_encodes:
  "hex64 (lr_queryFingerprint query) \<Longrightarrow> opt_ok anchor_ok anchor \<Longrightarrow>
    \<exists>t. page_cursor (cursorValue query d oc od anchor ed) wanted calls = (Inr t, calls)"
proof -
  assume "hex64 (lr_queryFingerprint query)" "opt_ok anchor_ok anchor"
  then have "\<exists>t. cursorValue query d oc od anchor ed = Inr t"
    by (cases anchor) (auto simp: cursorValue_def encode_host_iff host_cursor_ok_def anchor_ok_def)
  then show ?thesis by (auto simp: page_cursor_def lift_result_def)
qed

lemma aggregate_succeeds:
  assumes "lr_supportsExternal (li_query input)" "lr_sortKey (li_query input) \<noteq> SectionPosition"
    and "external_side input shared = Inr external" "hex64 (lr_queryFingerprint (li_query input))"
    and "merge_rows server (li_query input) (external_ids input shared) (ep_data external) (lr_limit (li_query input))
      \<lparr>ms_output = [], ms_index = 0, ms_anchor = hc_externalAnchor (start_cursor (li_query input)),
       ms_official = start_official (start_cursor (li_query input))\<rparr> calls = (Inr m, calls1)"
    and "official_resume server (li_query input) (ms_official m) calls1 = (Inr (oc, od), calls2)"
    and "opt_ok anchor_ok (ms_anchor m)" "\<forall>first \<in> set (ms_output m). anchor_ok (backwards_anchor tie first)"
  shows "\<exists>page. aggregateThreadList tie server input shared calls = (Inr page, calls2) \<and>
    ag_data page = List.map en_thread (ms_output m)"
proof -
  let ?q = "li_query input"
  obtain nxt where n: "page_cursor (cursorValue ?q (lr_sortDirection ?q) oc od (ms_anchor m)
      (\<not> external_remaining ?q external (ms_index m)))
      (external_remaining ?q external (ms_index m) \<or> \<not> od) calls2 = (Inr nxt, calls2)"
    using cursor_encodes [OF assms(4,7)] by blast
  have "\<exists>back. (case ms_output m of [] \<Rightarrow> ret None
      | first # _ \<Rightarrow>
          let back = Option.bind (os_firstBackwards (ms_official m)) id
          in page_cursor (cursorValue ?q (opposite (lr_sortDirection ?q)) back (back = None)
               (Some (backwards_anchor tie first)) False) True) calls2 = (Inr back, calls2)"
    using cursor_encodes [OF assms(4)] assms(8) by (cases "ms_output m") (simp_all add: Let_def)
  then show ?thesis
    using assms(1-3,5,6) n by (auto simp: aggregateThreadList_def Let_def bindA_case lift_host_def)
qed

definition mixed_state :: merge_state where
  "mixed_state = projr (fst (merge_rows prefix_server plain_query [''a'', ''c'']
     (ep_data (projr (external_side short_page_input shared_rows))) 2
     \<lparr>ms_output = [], ms_index = 0, ms_anchor = None, ms_official = start_official (start_cursor plain_query)\<rparr> []))"


end
