(* ===== verification/CodexApproval.thy ===== *)
theory CodexApproval
  imports OfficialServer
begin

text \<open>
  Approvals shown in Codex Desktop: \<open>packages/protocol-core/src/codex-approval.ts\<close>. A Host Approval
  becomes an elicitation request, and the client's answer is read back as one declared action. The
  ellipsis U+2026 has no \<^typ>\<open>char\<close>, so \<open>ellipsis\<close> is an argument; \<open>parseResponse\<close> of the source is a
  function in the projection.
\<close>

datatype approval_effect = AllowOnce | AllowForSession | AllowAlways | Deny

record approval_action =
  aa_id :: string
  aa_label :: string
  aa_effect :: approval_effect

record approval_interaction =
  ai_turnId :: string
  ai_title :: string
  ai_description :: "string option"
  ai_subjectType :: string
  ai_actions :: "approval_action list"

record approval_projection =
  apj_request :: json
  apj_denyResponse :: string
  apj_parseResponse :: "json \<Rightarrow> string + string"

definition trim_end :: "string \<Rightarrow> string" where
  "trim_end s = rev (dropWhile is_space (rev s))"

definition approval_bounded_text :: "string \<Rightarrow> string \<Rightarrow> nat \<Rightarrow> string + string" where
  "approval_bounded_text value field maxLength =
     (let t = trim value in
      if t = [] \<or> maxLength < length t
      then Inl (''Host Approval '' @ field @ '' must contain 1 to '' @ nat_string maxLength @ '' characters'')
      else Inr t)"

definition clampedText :: "char \<Rightarrow> string \<Rightarrow> string \<Rightarrow> nat \<Rightarrow> string + string" where
  "clampedText ellipsis value field maxLength =
     (let t = trim value in
      if t = [] then Inl (''Host Approval '' @ field @ '' must contain at least 1 character'')
      else if length t \<le> maxLength then Inr t
      else Inr (trim_end (take (maxLength - 1) t) @ [ellipsis]))"

definition actionsForEffect :: "approval_interaction \<Rightarrow> approval_effect \<Rightarrow> approval_action list" where
  "actionsForEffect interaction effect = filter (\<lambda>a. aa_effect a = effect) (ai_actions interaction)"

definition effect_text :: "approval_effect \<Rightarrow> string" where
  "effect_text e =
     (case e of AllowOnce \<Rightarrow> ''allowOnce'' | AllowForSession \<Rightarrow> ''allowForSession'' | AllowAlways \<Rightarrow> ''allowAlways''
      | Deny \<Rightarrow> ''deny'')"

definition requiredActionForEffect :: "approval_interaction \<Rightarrow> approval_effect \<Rightarrow> string + approval_action" where
  "requiredActionForEffect interaction effect =
     (case actionsForEffect interaction effect of
        [a] \<Rightarrow> Inr a
      | _ \<Rightarrow> Inl (''Host Approval must declare exactly one '' @ effect_text effect @ '' action''))"

definition optionalActionForEffect ::
  "approval_interaction \<Rightarrow> approval_effect \<Rightarrow> string + approval_action option" where
  "optionalActionForEffect interaction effect =
     (case actionsForEffect interaction effect of
        [] \<Rightarrow> Inr None
      | [a] \<Rightarrow> Inr (Some a)
      | _ \<Rightarrow> Inl (''Host Approval must declare at most one '' @ effect_text effect @ '' action''))"

fun validate_actions :: "string list \<Rightarrow> approval_action list \<Rightarrow> string + unit" where
  "validate_actions ids [] = Inr ()"
| "validate_actions ids (a # rest) =
     (if aa_id a = [] \<or> \<not> nonblank (aa_label a) then Inl ''Host Approval action ID and label must be non-empty''
      else if aa_id a \<in> set ids then Inl ''Host Approval action IDs must be unique''
      else validate_actions (aa_id a # ids) rest)"

definition approval_response_error :: "string \<Rightarrow> string + 'a" where
  "approval_response_error message = Inl (''Codex Approval response is invalid: '' @ message)"

text \<open>\<open>responsePersist\<close>: the session scope is \<open>Some False\<close>, the permanent one \<open>Some True\<close>.\<close>

definition responsePersist :: "json option \<Rightarrow> string + bool option" where
  "responsePersist value =
     (if absent value then Inr None
      else
        (case value of
           Some (JObj [(k, JStr v)]) \<Rightarrow>
             if k = ''persist'' \<and> v = ''session'' then Inr (Some False)
             else if k = ''persist'' \<and> v = ''always'' then Inr (Some True)
             else approval_response_error ''contains malformed persist metadata''
         | _ \<Rightarrow> approval_response_error ''contains malformed persist metadata''))"

definition reviewed_keys :: "(string \<times> json) list \<Rightarrow> bool" where
  "reviewed_keys kvs = list_all (\<lambda>(k, _). k = ''action'' \<or> k = ''content'' \<or> k = ''_meta'') kvs"

definition is_denial :: "string \<Rightarrow> bool" where
  "is_denial action = (action = ''decline'' \<or> action = ''cancel'')"

definition scoped_action :: "approval_action option \<Rightarrow> string \<Rightarrow> string + string" where
  "scoped_action a message =
     (case a of None \<Rightarrow> approval_response_error message | Some x \<Rightarrow> Inr (aa_id x))"

definition parse_compact ::
  "approval_action \<Rightarrow> approval_action option \<Rightarrow> approval_action option \<Rightarrow> approval_action \<Rightarrow> json \<Rightarrow> string + string" where
  "parse_compact allow session always deny result =
     (case result of
        JObj kvs \<Rightarrow>
          (case map_of kvs ''action'' of
             Some (JStr action) \<Rightarrow>
               if \<not> reviewed_keys kvs then approval_response_error ''contains unreviewed fields''
               else bindE (responsePersist (map_of kvs ''_meta'')) (\<lambda>persist.
                 if action = ''accept'' then
                   (if map_of kvs ''content'' \<noteq> None \<and> map_of kvs ''content'' \<noteq> Some (JObj [])
                    then approval_response_error ''contains non-empty accepted content''
                    else (case persist of
                            Some False \<Rightarrow> scoped_action session ''contains an undeclared session scope''
                          | Some True \<Rightarrow> scoped_action always ''contains an undeclared always scope''
                          | None \<Rightarrow> Inr (aa_id allow)))
                 else if is_denial action then
                   (if \<not> absent (map_of kvs ''content'') \<or> persist \<noteq> None
                    then approval_response_error ''contains fields incompatible with denial''
                    else Inr (aa_id deny))
                 else approval_response_error ''contains an unsupported action'')
           | _ \<Rightarrow> approval_response_error ''missing action'')
      | _ \<Rightarrow> approval_response_error ''missing action'')"

definition parse_choice :: "approval_interaction \<Rightarrow> approval_action \<Rightarrow> json \<Rightarrow> string + string" where
  "parse_choice interaction deny result =
     (case result of
        JObj kvs \<Rightarrow>
          (case map_of kvs ''action'' of
             Some (JStr action) \<Rightarrow>
               if \<not> reviewed_keys kvs then approval_response_error ''contains unreviewed fields''
               else if \<not> absent (map_of kvs ''_meta'')
               then approval_response_error ''contains unexpected persist metadata''
               else if is_denial action then
                 (if \<not> absent (map_of kvs ''content'')
                  then approval_response_error ''contains fields incompatible with denial''
                  else Inr (aa_id deny))
               else if action \<noteq> ''accept'' then approval_response_error ''contains an undeclared approval choice''
               else
                 (case map_of kvs ''content'' of
                    Some (JObj [(k, JStr x)]) \<Rightarrow>
                      if k = ''actionId'' \<and> x \<in> set (List.map aa_id (ai_actions interaction)) then Inr x
                      else approval_response_error ''contains an undeclared approval choice''
                  | _ \<Rightarrow> approval_response_error ''contains an undeclared approval choice'')
           | _ \<Rightarrow> approval_response_error ''missing action'')
      | _ \<Rightarrow> approval_response_error ''missing action'')"

definition elicitation :: "(string \<times> json) list \<Rightarrow> json" where
  "elicitation params = JObj [(''method'', JStr ''mcpServer/elicitation/request''), (''params'', JObj params)]"

definition projectApprovalChoices ::
  "char \<Rightarrow> string \<Rightarrow> approval_interaction \<Rightarrow> string \<Rightarrow> string + approval_projection" where
  "projectApprovalChoices ellipsis threadId interaction serverName =
     (case (actionsForEffect interaction AllowOnce, actionsForEffect interaction Deny) of
        (allow # _, deny # _) \<Rightarrow>
          bindE (approval_bounded_text serverName ''server name'' 80) (\<lambda>server.
          bindE (clampedText ellipsis (ai_title interaction) ''title'' 150) (\<lambda>title.
            Inr \<lparr>apj_request = elicitation
                   [(''serverName'', JStr server), (''threadId'', JStr threadId), (''turnId'', JStr (ai_turnId interaction)),
                    (''mode'', JStr ''form''),
                    (''message'', JStr (case ai_description interaction of
                       None \<Rightarrow> title | Some d \<Rightarrow> if d = [] then title else title @ [CHR 0x0A, CHR 0x0A] @ d)),
                    (''requestedSchema'', JObj
                      [(''type'', JStr ''object''),
                       (''properties'', JObj [(''actionId'', JObj
                          [(''type'', JStr ''string''), (''title'', JStr ''Approval''),
                           (''oneOf'', JArr (List.map (\<lambda>a. JObj [(''const'', JStr (aa_id a)), (''title'', JStr (aa_label a))])
                                             (ai_actions interaction))),
                           (''default'', JStr (aa_id allow))])]),
                       (''required'', JArr [JStr ''actionId''])])],
                 apj_denyResponse = aa_id deny, apj_parseResponse = parse_choice interaction deny\<rparr>))
      | _ \<Rightarrow> Inl ''Host Approval must declare allowOnce and deny actions'')"

definition clamped_description :: "char \<Rightarrow> string option \<Rightarrow> string + string option" where
  "clamped_description ellipsis d =
     (case d of
        None \<Rightarrow> Inr None
      | Some t \<Rightarrow> if t = [] then Inr None
                  else bindE (clampedText ellipsis t ''description'' 500) (\<lambda>x. Inr (Some x)))"

definition persist_meta :: "approval_action option \<Rightarrow> approval_action option \<Rightarrow> (string \<times> json) list" where
  "persist_meta session always =
     (case (session, always) of
        (None, None) \<Rightarrow> []
      | (Some _, None) \<Rightarrow> [(''persist'', JStr ''session'')]
      | (None, Some _) \<Rightarrow> [(''persist'', JStr ''always'')]
      | (Some _, Some _) \<Rightarrow> [(''persist'', JArr [JStr ''session'', JStr ''always''])])"

definition projectCodexApprovalRequest ::
  "char \<Rightarrow> string \<Rightarrow> approval_interaction \<Rightarrow> string \<Rightarrow> string + approval_projection" where
  "projectCodexApprovalRequest ellipsis threadId interaction serverName =
     (if ai_subjectType interaction \<noteq> ''nativeAction'' then Inl ''Host Approval subject is unsupported''
      else
        bindE (validate_actions [] (ai_actions interaction)) (\<lambda>_.
        if \<not> distinct (List.map aa_effect (ai_actions interaction))
        then projectApprovalChoices ellipsis threadId interaction serverName
        else
          bindE (requiredActionForEffect interaction AllowOnce) (\<lambda>allow.
          bindE (optionalActionForEffect interaction AllowForSession) (\<lambda>session.
          bindE (optionalActionForEffect interaction AllowAlways) (\<lambda>always.
          bindE (requiredActionForEffect interaction Deny) (\<lambda>deny.
          bindE (approval_bounded_text serverName ''server name'' 80) (\<lambda>server.
          bindE (clampedText ellipsis (ai_title interaction) ''title'' 150) (\<lambda>title.
          bindE (clamped_description ellipsis (ai_description interaction)) (\<lambda>description.
            Inr \<lparr>apj_request = elicitation
                   [(''serverName'', JStr server), (''threadId'', JStr threadId), (''turnId'', JStr (ai_turnId interaction)),
                    (''mode'', JStr ''form''), (''message'', JStr title),
                    (''requestedSchema'', JObj [(''type'', JStr ''object''), (''properties'', JObj [])]),
                    (''_meta'', JObj ([(''codex_approval_kind'', JStr ''mcp_tool_call'')] @
                       (case description of None \<Rightarrow> [] | Some d \<Rightarrow> [(''reason'', JStr d)]) @
                       persist_meta session always))],
                 apj_denyResponse = aa_id deny,
                 apj_parseResponse = parse_compact allow session always deny\<rparr>)))))))))"

subsection \<open>Properties\<close>

lemma required_action: "requiredActionForEffect i e = Inr a \<Longrightarrow> a \<in> set (ai_actions i) \<and> aa_effect a = e"
proof -
  assume "requiredActionForEffect i e = Inr a"
  then have "actionsForEffect i e = [a]"
    by (auto simp: requiredActionForEffect_def split: list.splits)
  then have "a \<in> set (actionsForEffect i e)" by simp
  then show ?thesis by (simp add: actionsForEffect_def)
qed

lemma optional_action: "optionalActionForEffect i e = Inr (Some a) \<Longrightarrow> a \<in> set (ai_actions i) \<and> aa_effect a = e"
proof -
  assume "optionalActionForEffect i e = Inr (Some a)"
  then have "actionsForEffect i e = [a]"
    by (auto simp: optionalActionForEffect_def split: list.splits)
  then have "a \<in> set (actionsForEffect i e)" by simp
  then show ?thesis by (simp add: actionsForEffect_def)
qed

lemma validated_ids:
  "validate_actions ids actions = Inr () \<Longrightarrow>
    distinct (List.map aa_id actions) \<and> set ids \<inter> aa_id ` set actions = {}"
  by (induction ids actions rule: validate_actions.induct) (auto split: if_splits)

lemma validated_unique:
  assumes "validate_actions [] actions = Inr ()" "a \<in> set actions" "b \<in> set actions" "aa_id a = aa_id b"
  shows "a = b"
  using validated_ids [OF assms(1)] assms(2-4) by (auto simp: distinct_map dest: inj_onD)

text \<open>An answer that says accept; every other answer is a refusal.\<close>

definition accepting :: "json \<Rightarrow> bool" where
  "accepting r = (case r of JObj kvs \<Rightarrow> map_of kvs ''action'' = Some (JStr ''accept'') | _ \<Rightarrow> False)"

text \<open>The persist scope of an answer, as the compact form reads it.\<close>

definition answer_scope :: "json \<Rightarrow> string + bool option" where
  "answer_scope r = (case r of JObj kvs \<Rightarrow> responsePersist (map_of kvs ''_meta'') | _ \<Rightarrow> Inr None)"

definition scope_effect :: "bool option \<Rightarrow> approval_effect" where
  "scope_effect p = (case p of None \<Rightarrow> AllowOnce | Some False \<Rightarrow> AllowForSession | Some True \<Rightarrow> AllowAlways)"

lemmas approval_defs = approval_response_error_def scoped_action_def accepting_def answer_scope_def scope_effect_def

lemma compact_answers:
  assumes "parse_compact allow session always deny r = Inr x"
  shows "if accepting r then
      (answer_scope r = Inr None \<and> x = aa_id allow) \<or>
      (answer_scope r = Inr (Some False) \<and> (\<exists>s. session = Some s \<and> x = aa_id s)) \<or>
      (answer_scope r = Inr (Some True) \<and> (\<exists>s. always = Some s \<and> x = aa_id s))
    else answer_scope r = Inr None \<and> x = aa_id deny"
  using assms unfolding parse_compact_def approval_defs
  by (auto simp: bindE_def is_denial_def split: json.splits option.splits if_splits sum.splits bool.splits)

lemma choice_answers:
  assumes "parse_choice i deny r = Inr x"
  shows "if accepting r then x \<in> aa_id ` set (ai_actions i) else x = aa_id deny"
  using assms unfolding parse_choice_def approval_defs
  by (auto simp: is_denial_def split: json.splits option.splits if_splits list.splits prod.splits)

lemma projection_cases:
  assumes "projectCodexApprovalRequest e t i s = Inr p"
  obtains (choice) deny where "\<not> distinct (List.map aa_effect (ai_actions i))" "deny \<in> set (ai_actions i)"
      "aa_effect deny = Deny" "apj_parseResponse p = parse_choice i deny"
      "validate_actions [] (ai_actions i) = Inr ()"
  | (compact) allow session always deny where "distinct (List.map aa_effect (ai_actions i))"
      "requiredActionForEffect i AllowOnce = Inr allow" "optionalActionForEffect i AllowForSession = Inr session"
      "optionalActionForEffect i AllowAlways = Inr always" "requiredActionForEffect i Deny = Inr deny"
      "apj_parseResponse p = parse_compact allow session always deny"
      "validate_actions [] (ai_actions i) = Inr ()"
proof (cases "distinct (List.map aa_effect (ai_actions i))")
  case True
  then show ?thesis
    using assms compact unfolding projectCodexApprovalRequest_def
    by (elim bindE_InrE if_InlE) (auto elim!: bindE_InrE)
next
  case False
  then have v: "validate_actions [] (ai_actions i) = Inr ()"
    and c: "projectApprovalChoices e t i s = Inr p"
    using assms unfolding projectCodexApprovalRequest_def by (auto elim!: bindE_InrE if_InlE)
  obtain allow rest deny rest' where a: "actionsForEffect i AllowOnce = allow # rest"
      "actionsForEffect i Deny = deny # rest'"
    using c unfolding projectApprovalChoices_def by (auto split: list.splits)
  then have "deny \<in> set (actionsForEffect i Deny)" by simp
  then have "deny \<in> set (ai_actions i)" "aa_effect deny = Deny" by (simp_all add: actionsForEffect_def)
  moreover have "apj_parseResponse p = parse_choice i deny"
    using c a unfolding projectApprovalChoices_def by (auto elim!: bindE_InrE)
  ultimately show ?thesis using choice False v by blast
qed

text \<open>
  C26. An accepted Approval answer names exactly one declared action; an answer that does not say accept
  selects a denial; and in the compact form (one action for each effect) accepting grants exactly the
  effect of the answer's persist scope.
\<close>

theorem approval_answer_declared:
  assumes "projectCodexApprovalRequest ellipsis threadId i serverName = Inr p"
    and "apj_parseResponse p r = Inr x"
  shows "\<exists>a \<in> set (ai_actions i). aa_id a = x \<and> (\<forall>b \<in> set (ai_actions i). aa_id b = x \<longrightarrow> b = a) \<and>
    (\<not> accepting r \<longrightarrow> aa_effect a = Deny) \<and>
    (accepting r \<and> distinct (List.map aa_effect (ai_actions i)) \<longrightarrow>
      (\<exists>scope. answer_scope r = Inr scope \<and> aa_effect a = scope_effect scope))"
  using assms(1)
proof (cases rule: projection_cases)
  case (choice deny)
  have "\<exists>a \<in> set (ai_actions i). aa_id a = x \<and> (\<not> accepting r \<longrightarrow> aa_effect a = Deny)"
    using choice_answers [of i deny r x] assms(2) choice by (auto split: if_splits)
  then show ?thesis using choice(1) validated_unique [OF choice(5)] by blast
next
  case (compact allow session always deny)
  have "\<exists>a \<in> set (ai_actions i). aa_id a = x \<and> (\<not> accepting r \<longrightarrow> aa_effect a = Deny) \<and>
      (accepting r \<longrightarrow> (\<exists>scope. answer_scope r = Inr scope \<and> aa_effect a = scope_effect scope))"
    using compact_answers [of allow session always deny r x] assms(2) compact
      required_action [OF compact(2)] required_action [OF compact(5)]
      optional_action [of i AllowForSession] optional_action [of i AllowAlways]
    by (auto simp: scope_effect_def split: if_splits)
  then show ?thesis using validated_unique [OF compact(7)] by blast
qed

text \<open>
  Every declared action can be answered: for each of them there is a response the projection reads
  as that action, in the compact form as in the explicit one, so projecting an Approval loses no choice.
\<close>

theorem approval_actions_reachable:
  assumes "projectCodexApprovalRequest ellipsis threadId i serverName = Inr p" and "a \<in> set (ai_actions i)"
  shows "\<exists>r. apj_parseResponse p r = Inr (aa_id a)"
  using assms(1)
proof (cases rule: projection_cases)
  case (choice deny)
  have "parse_choice i deny (JObj [(''action'', JStr ''accept''), (''content'', JObj [(''actionId'', JStr (aa_id a))])])
      = Inr (aa_id a)"
    using assms(2) by (simp add: parse_choice_def reviewed_keys_def absent_def is_denial_def)
  then show ?thesis using choice(4) by metis
next
  case (compact allow session always deny)
  have only: "actionsForEffect i (aa_effect a) = [b] \<Longrightarrow> b = a" for b
  proof -
    assume b: "actionsForEffect i (aa_effect a) = [b]"
    have "a \<in> set (actionsForEffect i (aa_effect a))" using assms(2) by (simp add: actionsForEffect_def)
    then show "b = a" using b by simp
  qed
  have req: "requiredActionForEffect i (aa_effect a) = Inr b \<Longrightarrow> b = a" for b
    using only by (auto simp: requiredActionForEffect_def split: list.splits)
  have opt: "optionalActionForEffect i (aa_effect a) = Inr b \<Longrightarrow> b = Some a" for b
    using only assms(2) by (auto simp: optionalActionForEffect_def actionsForEffect_def filter_empty_conv split: list.splits)
  have parse: "parse_compact allow session always deny (JObj kvs) = Inr (aa_id a)"
    if "kvs = (case aa_effect a of Deny \<Rightarrow> [(''action'', JStr ''decline'')]
      | AllowOnce \<Rightarrow> [(''action'', JStr ''accept'')]
      | AllowForSession \<Rightarrow> [(''action'', JStr ''accept''), (''_meta'', JObj [(''persist'', JStr ''session'')])]
      | AllowAlways \<Rightarrow> [(''action'', JStr ''accept''), (''_meta'', JObj [(''persist'', JStr ''always'')])])" for kvs
    using that req opt compact(2-5)
    by (cases "aa_effect a")
       (auto simp: parse_compact_def reviewed_keys_def absent_def is_denial_def responsePersist_def scoped_action_def)
  then show ?thesis using compact(6) by metis
qed

definition shell_approval :: approval_interaction where
  "shell_approval = \<lparr>ai_turnId = ''t'', ai_title = ''Run ls'', ai_description = None, ai_subjectType = ''nativeAction'',
     ai_actions = [\<lparr>aa_id = ''once'', aa_label = ''Allow'', aa_effect = AllowOnce\<rparr>,
       \<lparr>aa_id = ''session'', aa_label = ''Session'', aa_effect = AllowForSession\<rparr>,
       \<lparr>aa_id = ''no'', aa_label = ''Deny'', aa_effect = Deny\<rparr>]\<rparr>"

definition shell_projection :: approval_projection where
  "shell_projection = projr (projectCodexApprovalRequest CHR ''~'' ''thread'' shell_approval ''codexhost'')"

lemma shell_projected:
  "projectCodexApprovalRequest CHR ''~'' ''thread'' shell_approval ''codexhost'' = Inr shell_projection"
proof -
  have "\<not> isl (projectCodexApprovalRequest CHR ''~'' ''thread'' shell_approval ''codexhost'')" by code_simp
  then show ?thesis by (simp add: shell_projection_def)
qed

lemma approval_answer_declared_witness:
  "\<exists>a \<in> set (ai_actions shell_approval). aa_id a = ''session'' \<and> aa_effect a = AllowForSession"
proof -
  define r where "r = JObj [(''action'', JStr ''accept''), (''_meta'', JObj [(''persist'', JStr ''session'')])]"
  have p: "apj_parseResponse shell_projection r = Inr ''session''" "accepting r"
    "distinct (List.map aa_effect (ai_actions shell_approval))" "answer_scope r = Inr (Some False)"
    unfolding r_def by code_simp+
  show ?thesis
    using approval_answer_declared [OF shell_projected p(1)] p(2-4) by (auto simp: scope_effect_def)
qed

lemma approval_actions_reachable_witness:
  "\<exists>r. apj_parseResponse shell_projection r = Inr ''no''"
proof -
  have "\<lparr>aa_id = ''no'', aa_label = ''Deny'', aa_effect = Deny\<rparr> \<in> set (ai_actions shell_approval)" by code_simp
  from approval_actions_reachable [OF shell_projected this] show ?thesis by simp
qed

end
