(* ===== verification/CodexQuestion.thy ===== *)
theory CodexQuestion
  imports OfficialServer
begin

text \<open>
  Questions shown in Codex Desktop: \<open>packages/protocol-core/src/codex-question.ts\<close>. The questions of an
  Interaction become a request for user input, and the client's answer is mapped back from option
  labels to option values. \<open>Date.parse\<close> is a parameter (\<open>None\<close> for \<open>NaN\<close>), as is the clock;
  \<open>parseResponse\<close> is a function in the projection. Objects are read by their own fields only.
\<close>

record question_option =
  qo_value :: string
  qo_label :: string
  qo_description :: "string option"

datatype host_question =
    ChoiceQuestion (q_id: string) (q_prompt: string) (q_options: "question_option list") (q_multiple: bool)
      (q_allowOther: bool) (q_optional: bool)
  | TextQuestion (q_id: string) (q_prompt: string) (q_multiline: bool) (q_secret: bool) (q_optional: bool)
      (q_placeholder: "string option") (q_prefill: "string option")

record question_interaction =
  qi_turnId :: string
  qi_title :: "string option"
  qi_questions :: "host_question list"
  qi_expiresAt :: "string option"

record question_response =
  qr_answers :: "(string, string list) jsmap"
  qr_cancelled :: bool

record question_projection =
  qp_request :: json
  qp_parseResponse :: "json \<Rightarrow> string + question_response"

definition question_error :: "string \<Rightarrow> string + 'a" where
  "question_error message = Inl (''Codex Question response is invalid: '' @ message)"

text \<open>The \<open>labels\<close> map of one choice question.\<close>

fun question_labels :: "(string, string) jsmap \<Rightarrow> question_option list \<Rightarrow> string + (string, string) jsmap" where
  "question_labels labels [] = Inr labels"
| "question_labels labels (opt # rest) =
     (if qo_value opt = [] \<or> qo_label opt = [] \<or> js_has labels (qo_label opt)
      then Inl ''Choice Question option values and labels must be non-empty and labels unique''
      else question_labels (js_set (qo_label opt) (qo_value opt) labels) rest)"

definition question_header :: "question_interaction \<Rightarrow> json" where
  "question_header interaction = JStr (case qi_title interaction of None \<Rightarrow> ''Question'' | Some t \<Rightarrow> t)"

definition text_question_json :: "json \<Rightarrow> host_question \<Rightarrow> json" where
  "text_question_json header q = JObj
     [(''id'', JStr (q_id q)), (''header'', header), (''question'', JStr (q_prompt q)), (''isOther'', JBool False),
      (''isSecret'', JBool (q_secret q)), (''options'', JNull)]"

definition choice_question_json :: "json \<Rightarrow> host_question \<Rightarrow> json" where
  "choice_question_json header q = JObj
     [(''id'', JStr (q_id q)), (''header'', header), (''question'', JStr (q_prompt q)),
      (''isOther'', JBool (q_allowOther q)), (''isSecret'', JBool False),
      (''options'', JArr (List.map (\<lambda>opt. JObj
         [(''label'', JStr (qo_label opt)),
          (''description'', JStr (case qo_description opt of None \<Rightarrow> [] | Some d \<Rightarrow> d))]) (q_options q)))]"

text \<open>The \<open>map\<close> over the questions: the identifiers seen, the label maps and the projected questions.\<close>

fun project_questions ::
  "json \<Rightarrow> string list \<Rightarrow> (string, (string, string) jsmap) jsmap \<Rightarrow> host_question list \<Rightarrow>
   string + (json list \<times> (string, (string, string) jsmap) jsmap)" where
  "project_questions header ids choiceLabels [] = Inr ([], choiceLabels)"
| "project_questions header ids choiceLabels (q # rest) =
     (if q_id q = [] \<or> q_id q \<in> set ids then Inl ''Host Question IDs must be non-empty and unique''
      else
        (case q of
           TextQuestion _ _ _ secret _ _ _ \<Rightarrow>
             if secret then Inl ''Current Codex Desktop does not safely render secret Question input''
             else bindE (project_questions header (q_id q # ids) choiceLabels rest) (\<lambda>(shown, labels).
               Inr (text_question_json header q # shown, labels))
         | ChoiceQuestion _ _ options _ _ _ \<Rightarrow>
             if options = [] then Inl ''Choice Question must contain at least one option''
             else bindE (question_labels [] options) (\<lambda>labels.
               bindE (project_questions header (q_id q # ids) (js_set (q_id q) labels choiceLabels) rest) (\<lambda>(shown, ls).
                 Inr (choice_question_json header q # shown, ls)))))"

fun string_values :: "json list \<Rightarrow> string list option" where
  "string_values [] = Some []"
| "string_values (JStr s # rest) = map_option ((#) s) (string_values rest)"
| "string_values (_ # rest) = None"

fun map_choices :: "(string, string) jsmap \<Rightarrow> bool \<Rightarrow> string list \<Rightarrow> string + string list" where
  "map_choices labels allowOther [] = Inr []"
| "map_choices labels allowOther (v # rest) =
     (case js_get labels v of
        Some mapped \<Rightarrow> bindE (map_choices labels allowOther rest) (\<lambda>vs. Inr (mapped # vs))
      | None \<Rightarrow> if allowOther then bindE (map_choices labels allowOther rest) (\<lambda>vs. Inr (v # vs))
                else question_error ''contains an undeclared choice'')"

text \<open>The body of the loop over the answer entries.\<close>

definition read_answer ::
  "host_question list \<Rightarrow> (string, (string, string) jsmap) jsmap \<Rightarrow> string \<Rightarrow> json \<Rightarrow> string + string list" where
  "read_answer questions choiceLabels questionId answerValue =
     (case find (\<lambda>q. q_id q = questionId) questions of
        None \<Rightarrow> question_error ''contains an unknown Question ID''
      | Some q \<Rightarrow>
          (case jfield answerValue ''answers'' of
             Some (JArr items) \<Rightarrow>
               (case string_values items of
                  None \<Rightarrow> question_error ''answer values must be strings''
                | Some values \<Rightarrow>
                    (case q of
                       TextQuestion _ _ _ _ _ _ _ \<Rightarrow>
                         if 1 < length values then question_error ''text Question has multiple answers'' else Inr values
                     | ChoiceQuestion _ _ _ multiple allowOther _ \<Rightarrow>
                         if \<not> multiple \<and> 1 < length values then question_error ''single-choice Question has multiple answers''
                         else
                           (case js_get choiceLabels questionId of
                              None \<Rightarrow> question_error ''choice label mapping is unavailable''
                            | Some labels \<Rightarrow> map_choices labels allowOther values)))
           | _ \<Rightarrow> question_error ''answer entry has no answers array''))"

fun read_answers ::
  "host_question list \<Rightarrow> (string, (string, string) jsmap) jsmap \<Rightarrow> (string, string list) jsmap \<Rightarrow>
   (string \<times> json) list \<Rightarrow> string + (string, string list) jsmap" where
  "read_answers questions choiceLabels answers [] = Inr answers"
| "read_answers questions choiceLabels answers ((k, v) # rest) =
     bindE (read_answer questions choiceLabels k v) (\<lambda>values.
       read_answers questions choiceLabels (js_set k values answers) rest)"

definition omits_required :: "host_question list \<Rightarrow> (string, string list) jsmap \<Rightarrow> bool" where
  "omits_required questions answers =
     list_ex (\<lambda>q. \<not> q_optional q \<and> (case js_get answers (q_id q) of None \<Rightarrow> True | Some values \<Rightarrow> values = [])) questions"

definition parse_question_response ::
  "host_question list \<Rightarrow> (string, (string, string) jsmap) jsmap \<Rightarrow> json \<Rightarrow> string + question_response" where
  "parse_question_response questions choiceLabels result =
     (case jfield result ''answers'' of
        Some (JObj entries) \<Rightarrow>
          if entries = [] then Inr \<lparr>qr_answers = [], qr_cancelled = True\<rparr>
          else bindE (read_answers questions choiceLabels [] entries) (\<lambda>answers.
            if omits_required questions answers then question_error ''omits a required answer''
            else Inr \<lparr>qr_answers = answers, qr_cancelled = False\<rparr>)
      | _ \<Rightarrow> question_error ''missing answers object'')"

definition auto_resolution :: "(string \<Rightarrow> int option) \<Rightarrow> string option \<Rightarrow> int \<Rightarrow> json" where
  "auto_resolution date_parse expiresAt emittedAtMs =
     (case expiresAt of
        None \<Rightarrow> JNull
      | Some t \<Rightarrow> if t = [] then JNull
          else (case date_parse t of None \<Rightarrow> JNull | Some ms \<Rightarrow> JInt (max 0 (ms - emittedAtMs))))"

definition projectCodexQuestionRequest ::
  "(string \<Rightarrow> int option) \<Rightarrow> string \<Rightarrow> question_interaction \<Rightarrow> string \<Rightarrow> int \<Rightarrow> string + question_projection" where
  "projectCodexQuestionRequest date_parse threadId interaction itemId emittedAtMs =
     (if qi_questions interaction = [] then Inl ''Host Question Interaction must contain at least one Question''
      else
        bindE (project_questions (question_header interaction) [] [] (qi_questions interaction)) (\<lambda>(shown, choiceLabels).
          Inr \<lparr>qp_request = JObj [(''method'', JStr ''item/tool/requestUserInput''),
                 (''params'', JObj [(''threadId'', JStr threadId), (''turnId'', JStr (qi_turnId interaction)),
                    (''itemId'', JStr itemId), (''questions'', JArr shown), (''isBlocking'', JBool True),
                    (''autoResolutionMs'', auto_resolution date_parse (qi_expiresAt interaction) emittedAtMs)])],
               qp_parseResponse = parse_question_response (qi_questions interaction) choiceLabels\<rparr>))"

subsection \<open>The label maps\<close>

definition option_labels :: "host_question \<Rightarrow> (string, string) jsmap" where
  "option_labels q = List.map (\<lambda>opt. (qo_label opt, qo_value opt)) (q_options q)"

lemma question_labels_append:
  "question_labels labels options = Inr ls \<Longrightarrow>
    ls = labels @ List.map (\<lambda>opt. (qo_label opt, qo_value opt)) options \<and>
    (distinct (js_keys labels) \<longrightarrow> distinct (js_keys ls))"
proof (induction options arbitrary: labels)
  case (Cons opt rest)
  then have fresh: "qo_label opt \<notin> set (js_keys labels)"
    by (auto simp: js_has_iff split: if_splits)
  then have "js_set (qo_label opt) (qo_value opt) labels = labels @ [(qo_label opt, qo_value opt)]"
    by (rule js_set_absent)
  then have r: "question_labels (labels @ [(qo_label opt, qo_value opt)]) rest = Inr ls"
    using Cons.prems by (simp split: if_splits)
  show ?case using Cons.IH [OF r] fresh by (force simp: disjoint_iff image_iff)
qed simp

definition labels_known :: "host_question list \<Rightarrow> (string, (string, string) jsmap) jsmap \<Rightarrow> bool" where
  "labels_known questions choiceLabels =
     list_all (\<lambda>q. case q of
        ChoiceQuestion _ _ _ _ _ _ \<Rightarrow>
          js_get choiceLabels (q_id q) = Some (option_labels q) \<and> distinct (js_keys (option_labels q))
      | TextQuestion _ _ _ _ _ _ _ \<Rightarrow> True) questions"

lemma projected_questions:
  "project_questions header ids choiceLabels questions = Inr (shown, ls) \<Longrightarrow>
    distinct (List.map q_id questions) \<and> set ids \<inter> q_id ` set questions = {} \<and>
    labels_known questions ls \<and>
    (\<forall>k. k \<notin> q_id ` set questions \<longrightarrow> js_get ls k = js_get choiceLabels k)"
proof (induction questions arbitrary: ids choiceLabels shown)
  case (Cons q rest)
  then have fresh: "q_id q \<notin> set ids" by (auto split: if_splits)
  show ?case
  proof (cases q)
    case [simp]: (ChoiceQuestion i p options m a opt)
    obtain labels shown' where l: "question_labels [] options = Inr labels"
      and r: "project_questions header (q_id q # ids) (js_set (q_id q) labels choiceLabels) rest = Inr (shown', ls)"
      using Cons.prems by (auto elim!: bindE_InrE split: if_splits prod.splits)
    then show ?thesis
      using Cons.IH [OF r] question_labels_append [OF l] fresh
      by (auto simp: labels_known_def option_labels_def)
  next
    case [simp]: (TextQuestion i p ml sec opt pl pf)
    obtain shown' where r: "project_questions header (q_id q # ids) choiceLabels rest = Inr (shown', ls)"
      using Cons.prems by (auto elim!: bindE_InrE split: if_splits prod.splits)
    then show ?thesis using Cons.IH [OF r] fresh by (auto simp: labels_known_def)
  qed
qed (simp add: labels_known_def)

lemma question_projection:
  assumes "projectCodexQuestionRequest date_parse threadId i itemId now = Inr p"
  obtains choiceLabels where "qp_parseResponse p = parse_question_response (qi_questions i) choiceLabels"
    "labels_known (qi_questions i) choiceLabels" "distinct (List.map q_id (qi_questions i))" "qi_questions i \<noteq> []"
  using assms unfolding projectCodexQuestionRequest_def
  by (elim if_InlE bindE_InrE) (use projected_questions that in \<open>fastforce split: prod.splits\<close>)

subsection \<open>What an accepted answer may hold\<close>

definition allowed_answer :: "host_question \<Rightarrow> string list \<Rightarrow> bool" where
  "allowed_answer q values =
     (case q of
        TextQuestion _ _ _ _ _ _ _ \<Rightarrow> length values \<le> 1
      | ChoiceQuestion _ _ _ multiple allowOther _ \<Rightarrow>
          (multiple \<or> length values \<le> 1) \<and>
          (allowOther \<or> set values \<subseteq> qo_value ` set (q_options q)))"

lemma mapped_choices:
  "map_choices labels other vs = Inr ws \<Longrightarrow> length ws = length vs \<and> (other \<or> set ws \<subseteq> snd ` set labels)"
  by (induction vs arbitrary: ws)
     (auto simp: question_error_def elim!: bindE_InrE split: option.splits if_splits dest!: map_of_SomeD, force+)

lemma read_answer_allowed:
  assumes "read_answer questions ls k v = Inr values" "labels_known questions ls"
  shows "\<exists>q \<in> set questions. q_id q = k \<and> allowed_answer q values"
proof -
  obtain q where f: "find (\<lambda>q. q_id q = k) questions = Some q"
    using assms(1) by (auto simp: read_answer_def question_error_def split: option.splits)
  then have q: "q \<in> set questions" "q_id q = k" by (auto simp: find_Some_iff)
  have "allowed_answer q values"
  proof (cases q)
    case [simp]: (ChoiceQuestion i p options m a opt)
    have known: "js_get ls k = Some (option_labels q)"
      using assms(2) q by (auto simp: labels_known_def list_all_iff)
    obtain vs where "m \<or> length vs \<le> 1" "map_choices (option_labels q) a vs = Inr values"
      using assms(1) f known by (auto simp: read_answer_def question_error_def not_less
          split: option.splits json.splits if_splits)
    then show ?thesis using mapped_choices [of "option_labels q" a vs "values"]
      by (auto simp: allowed_answer_def option_labels_def image_image)
  next
    case (TextQuestion i p ml sec opt pl pf)
    then show ?thesis using assms(1) f
      by (auto simp: read_answer_def question_error_def allowed_answer_def split: option.splits json.splits if_splits)
  qed
  then show ?thesis using q by blast
qed

lemma read_answers_allowed:
  "read_answers questions ls answers entries = Inr got \<Longrightarrow> labels_known questions ls \<Longrightarrow>
    \<forall>k values. js_get answers k = Some values \<longrightarrow> (\<exists>q \<in> set questions. q_id q = k \<and> allowed_answer q values) \<Longrightarrow>
    (\<forall>k values. js_get got k = Some values \<longrightarrow> (\<exists>q \<in> set questions. q_id q = k \<and> allowed_answer q values)) \<and>
    set (js_keys got) = set (js_keys answers) \<union> set (js_keys entries)"
proof (induction entries arbitrary: answers)
  case (Cons e rest)
  obtain k v where [simp]: "e = (k, v)" by (cases e)
  obtain ws where v: "read_answer questions ls k v = Inr ws"
    and r: "read_answers questions ls (js_set k ws answers) rest = Inr got"
    using Cons.prems(1) by (auto elim!: bindE_InrE)
  have "\<forall>k' vals. js_get (js_set k ws answers) k' = Some vals \<longrightarrow>
      (\<exists>q \<in> set questions. q_id q = k' \<and> allowed_answer q vals)"
    using Cons.prems(3) read_answer_allowed [OF v Cons.prems(2)] by simp
  note i = Cons.IH [OF r Cons.prems(2) this]
  have "set (js_keys (js_set k ws answers)) = insert k (set (js_keys answers))"
    by (auto simp: js_keys_set)
  with i show ?case by simp
qed simp


subsection \<open>Answering with the labels shown\<close>

text \<open>An answer picks, for each question, pairs of a shown text and the value it stands for.\<close>

definition proper_pick :: "host_question \<Rightarrow> (string \<times> string) list \<Rightarrow> bool" where
  "proper_pick q pairs =
     ((q_optional q \<or> pairs \<noteq> []) \<and>
      (case q of
         TextQuestion _ _ _ _ _ _ _ \<Rightarrow> length pairs \<le> 1 \<and> (\<forall>(shown, meant) \<in> set pairs. shown = meant)
       | ChoiceQuestion _ _ _ multiple _ _ \<Rightarrow>
           (multiple \<or> length pairs \<le> 1) \<and> set pairs \<subseteq> set (option_labels q)))"

definition answer_json :: "(string \<times> string) list \<Rightarrow> json" where
  "answer_json pairs = JObj [(''answers'', JArr (List.map (\<lambda>x. JStr (fst x)) pairs))]"

lemma string_values_strings [simp]: "string_values (List.map (\<lambda>x. JStr (f x)) xs) = Some (List.map f xs)"
  by (induction xs) auto

lemma map_choices_pick:
  "distinct (js_keys labels) \<Longrightarrow> set pairs \<subseteq> set labels \<Longrightarrow>
    map_choices labels other (List.map fst pairs) = Inr (List.map snd pairs)"
  by (induction pairs) (auto simp: bindE_def)

lemma find_own:
  "distinct (List.map f xs) \<Longrightarrow> x \<in> set xs \<Longrightarrow> find (\<lambda>y. f y = f x) xs = Some x"
  by (induction xs) (auto simp: rev_image_eqI)

lemma read_picked_answer:
  assumes "distinct (List.map q_id questions)" "labels_known questions ls" "q \<in> set questions" "proper_pick q pairs"
  shows "read_answer questions ls (q_id q) (answer_json pairs) = Inr (List.map snd pairs)"
proof (cases q)
  case [simp]: (ChoiceQuestion i p options m a opt)
  have "js_get ls (q_id q) = Some (option_labels q)" "distinct (js_keys (option_labels q))"
    using assms(2,3) by (auto simp: labels_known_def list_all_iff)
  then show ?thesis
    using find_own [OF assms(1,3)] assms(4) map_choices_pick [of "option_labels q" pairs a]
    by (auto simp: read_answer_def answer_json_def proper_pick_def comp_def)
next
  case (TextQuestion i p ml sec opt pl pf)
  then show ?thesis
    using find_own [OF assms(1,3)] assms(4)
    by (auto simp: read_answer_def answer_json_def proper_pick_def comp_def length_Suc_conv le_Suc_eq)
qed

lemma read_picked_answers:
  assumes "distinct (List.map q_id questions)" "labels_known questions ls"
  shows "distinct (List.map q_id qs) \<Longrightarrow> set qs \<subseteq> set questions \<Longrightarrow> \<forall>q \<in> set qs. proper_pick q (pick q) \<Longrightarrow>
    set (js_keys answers) \<inter> q_id ` set qs = {} \<Longrightarrow>
    read_answers questions ls answers (List.map (\<lambda>q. (q_id q, answer_json (pick q))) qs) =
      Inr (answers @ List.map (\<lambda>q. (q_id q, List.map snd (pick q))) qs)"
proof (induction qs arbitrary: answers)
  case (Cons q qs)
  have "read_answer questions ls (q_id q) (answer_json (pick q)) = Inr (List.map snd (pick q))"
    using read_picked_answer [OF assms] Cons.prems by simp
  moreover have "js_set (q_id q) (List.map snd (pick q)) answers = answers @ [(q_id q, List.map snd (pick q))]"
    using Cons.prems by (intro js_set_absent) auto
  ultimately show ?case
    using Cons.IH [of "answers @ [(q_id q, List.map snd (pick q))]"] Cons.prems
    by (auto simp: bindE_def)
qed simp

text \<open>
  Answering with what was shown is read back exactly: when every question is answered with labels of
  its own options (or with one text), the parsed response holds, for each question, the values of those
  options in the order they were picked.
\<close>

theorem question_answer_round_trip:
  assumes "projectCodexQuestionRequest date_parse threadId i itemId now = Inr p"
    and "\<forall>q \<in> set (qi_questions i). proper_pick q (pick q)"
  shows "qp_parseResponse p
      (JObj [(''answers'', JObj (List.map (\<lambda>q. (q_id q, answer_json (pick q))) (qi_questions i)))]) =
    Inr \<lparr>qr_answers = List.map (\<lambda>q. (q_id q, List.map snd (pick q))) (qi_questions i), qr_cancelled = False\<rparr>"
proof -
  obtain ls where p: "qp_parseResponse p = parse_question_response (qi_questions i) ls"
    and known: "labels_known (qi_questions i) ls" "distinct (List.map q_id (qi_questions i))" "qi_questions i \<noteq> []"
    using assms(1) by (rule question_projection)
  let ?got = "List.map (\<lambda>q. (q_id q, List.map snd (pick q))) (qi_questions i)"
  have "distinct (js_keys ?got)" using known(2) by (simp add: comp_def)
  then have "js_get ?got (q_id q) = Some (List.map snd (pick q))" if "q \<in> set (qi_questions i)" for q
    using that by simp
  then have "\<not> omits_required (qi_questions i) ?got"
    using assms(2) by (auto simp: omits_required_def list_ex_iff proper_pick_def)
  moreover have "read_answers (qi_questions i) ls [] (List.map (\<lambda>q. (q_id q, answer_json (pick q))) (qi_questions i)) = Inr ?got"
    using read_picked_answers [OF known(2,1), of "qi_questions i" pick "[]"] known(2) assms(2) by simp
  ultimately show ?thesis
    using known(3) unfolding p parse_question_response_def by (simp add: bindE_def)
qed

definition color_question :: host_question where
  "color_question = ChoiceQuestion ''c'' ''Color?''
     [\<lparr>qo_value = ''r'', qo_label = ''Red'', qo_description = None\<rparr>,
      \<lparr>qo_value = ''b'', qo_label = ''Blue'', qo_description = None\<rparr>] True False False"

definition survey :: question_interaction where
  "survey = \<lparr>qi_turnId = ''t'', qi_title = None,
     qi_questions = [color_question, TextQuestion ''n'' ''Name?'' False False False None None], qi_expiresAt = None\<rparr>"

definition survey_pick :: "host_question \<Rightarrow> (string \<times> string) list" where
  "survey_pick q = (if q_id q = ''c'' then [(''Blue'', ''b''), (''Red'', ''r'')] else [(''Ada'', ''Ada'')])"

definition survey_projection :: question_projection where
  "survey_projection = projr (projectCodexQuestionRequest (\<lambda>_. None) ''thread'' survey ''item'' 0)"

lemma survey_projected:
  "projectCodexQuestionRequest (\<lambda>_. None) ''thread'' survey ''item'' 0 = Inr survey_projection"
proof -
  have "\<not> isl (projectCodexQuestionRequest (\<lambda>_. None) ''thread'' survey ''item'' 0)" by code_simp
  then show ?thesis by (simp add: survey_projection_def)
qed

lemma question_answer_round_trip_witness:
  "qp_parseResponse survey_projection
      (JObj [(''answers'', JObj [(''c'', answer_json [(''Blue'', ''b''), (''Red'', ''r'')]),
        (''n'', answer_json [(''Ada'', ''Ada'')])])]) =
    Inr \<lparr>qr_answers = [(''c'', [''b'', ''r'']), (''n'', [''Ada''])], qr_cancelled = False\<rparr>"
proof -
  have "\<forall>q \<in> set (qi_questions survey). proper_pick q (survey_pick q)" by code_simp
  from question_answer_round_trip [OF survey_projected this]
  show ?thesis by (simp add: survey_def survey_pick_def color_question_def)
qed


end
