(* ===== verification/Jsonl.thy ===== *)
theory Jsonl
  imports JsonRoundTrip
begin

text \<open>
  JSON Lines: \<open>packages/protocol-core/src/jsonl.ts\<close>. A byte is a number below 256; a stream is the list
  of the chunks it delivers; a generator is the list of the frames it yields with the way it ends.
  The schema of a JSON value accepts every value of the type \<open>json\<close>, which has no cycles. The write
  side waits for one of three events.
\<close>

subsection \<open>Reading frames\<close>

type_synonym frames = "nat list list \<times> (string + unit)"

definition over_limit :: "int option \<Rightarrow> nat \<Rightarrow> bool" where
  "over_limit maximum n = (case maximum of None \<Rightarrow> False | Some m \<Rightarrow> m < int n)"

definition frame_limit_error :: string where
  "frame_limit_error = ''Protocol frame exceeds its limit''"

text \<open>The loop over one chunk from \<open>frameStart\<close> on: the frames, and the pending chunks and their length.\<close>

function scan_chunk ::
  "int option \<Rightarrow> nat list list \<Rightarrow> nat \<Rightarrow> nat list \<Rightarrow> nat list list \<times> (string + nat list list \<times> nat)" where
  "scan_chunk maximum pendingChunks pendingLength bytes =
     (if 10 \<in> set bytes then
        (let tail = takeWhile (\<lambda>b. b \<noteq> 10) bytes; frameLength = pendingLength + length tail in
         if over_limit maximum frameLength then ([], Inl frame_limit_error)
         else if pendingLength = 0
         then (let (frames, r) = scan_chunk maximum pendingChunks 0 (drop (Suc (length tail)) bytes) in (tail # frames, r))
         else (let (frames, r) = scan_chunk maximum [] 0 (drop (Suc (length tail)) bytes)
               in (concat (pendingChunks @ [tail]) # frames, r)))
      else if bytes \<noteq> [] then
        (if over_limit maximum (pendingLength + length bytes) then ([], Inl frame_limit_error)
         else ([], Inr (pendingChunks @ [bytes], pendingLength + length bytes)))
      else ([], Inr (pendingChunks, pendingLength)))"
  by pat_completeness auto
termination by (relation "measure (\<lambda>(_, _, _, bytes). length bytes)") (auto intro: diff_less length_pos_if_in_set)

declare scan_chunk.simps [simp del]

fun scan_chunks :: "int option \<Rightarrow> nat list list \<Rightarrow> nat \<Rightarrow> nat list list \<Rightarrow> frames" where
  "scan_chunks maximum pendingChunks pendingLength [] =
     ([], if pendingLength \<noteq> 0 then Inl ''Protocol stream ended with an unterminated JSONL frame'' else Inr ())"
| "scan_chunks maximum pendingChunks pendingLength (chunk # chunks) =
     (case scan_chunk maximum pendingChunks pendingLength chunk of
        (frames, Inl e) \<Rightarrow> (frames, Inl e)
      | (frames, Inr (pending, len)) \<Rightarrow>
          (let (more, r) = scan_chunks maximum pending len chunks in (frames @ more, r)))"

definition readLfFrames :: "int option \<Rightarrow> nat list list \<Rightarrow> frames" where
  "readLfFrames maxFrameBytes chunks =
     (case maxFrameBytes of
        None \<Rightarrow> scan_chunks None [] 0 chunks
      | Some m \<Rightarrow> if max_safe_integer < m \<or> m < 1 then ([], Inl ''Invalid protocol frame limit'')
                  else scan_chunks (Some m) [] 0 chunks)"

subsection \<open>One frame\<close>

definition parseJsonFrame :: "nat list \<Rightarrow> string + json" where
  "parseJsonFrame frame =
     (if frame = [] then Inl ''Protocol stream contained an empty JSONL frame''
      else (case Option.bind (utf8_decode frame) json_parse of
              None \<Rightarrow> Inl ''Protocol stream contained invalid JSONL''
            | Some v \<Rightarrow> Inr v))"

definition encodeJsonFrame :: "json \<Rightarrow> nat list" where
  "encodeJsonFrame v = utf8 (json_text v @ [CHR 0x0A])"

subsection \<open>Writing\<close>

datatype stream_event = Drained | Failed string | Closed

text \<open>
  \<open>writeBytes\<close>: \<open>accepted\<close> is the answer of \<open>stream.write\<close>, the events are the later ones of the stream;
  the first of them settles the promise and removes the listeners. \<open>None\<close> is a promise still pending.
\<close>

fun writeBytes :: "bool \<Rightarrow> stream_event list \<Rightarrow> (string + unit) option" where
  "writeBytes True events = Some (Inr ())"
| "writeBytes False [] = None"
| "writeBytes False (Drained # _) = Some (Inr ())"
| "writeBytes False (Failed e # _) = Some (Inl e)"
| "writeBytes False (Closed # _) = Some (Inl ''Protocol stream closed before pending write drained'')"

definition writeJsonFrame :: "json \<Rightarrow> nat list" where
  "writeJsonFrame v = encodeJsonFrame v"

definition writeFrame :: "nat list \<Rightarrow> nat list" where
  "writeFrame frame = frame @ [10]"

subsection \<open>The reference: splitting the whole stream\<close>

function split_frames :: "int option \<Rightarrow> nat list \<Rightarrow> frames" where
  "split_frames maximum bytes =
     (let frame = takeWhile (\<lambda>b. b \<noteq> 10) bytes in
      if over_limit maximum (length frame) then ([], Inl frame_limit_error)
      else if 10 \<in> set bytes
      then (let (frames, r) = split_frames maximum (drop (Suc (length frame)) bytes) in (frame # frames, r))
      else ([], if bytes \<noteq> [] then Inl ''Protocol stream ended with an unterminated JSONL frame'' else Inr ()))"
  by pat_completeness auto
termination by (relation "measure (\<lambda>(_, bytes). length bytes)") (auto intro: diff_less length_pos_if_in_set)

declare split_frames.simps [simp del]

text \<open>A limit the reader accepts leaves the empty frame within it.\<close>

definition positive_limit :: "int option \<Rightarrow> bool" where
  "positive_limit maximum = (case maximum of None \<Rightarrow> True | Some m \<Rightarrow> 1 \<le> m)"

lemma over_limit_mono: "over_limit m a \<Longrightarrow> a \<le> b \<Longrightarrow> over_limit m b"
  by (auto simp: over_limit_def split: option.splits)

lemma not_over_zero [simp]: "positive_limit m \<Longrightarrow> \<not> over_limit m 0"
  by (auto simp: over_limit_def positive_limit_def split: option.splits)

lemma takeWhile_line [simp]:
  "10 \<notin> set line \<Longrightarrow> takeWhile (\<lambda>b. b \<noteq> (10::nat)) (line @ 10 # rest) = line"
  "10 \<notin> set line \<Longrightarrow> takeWhile (\<lambda>b. b \<noteq> (10::nat)) line = line"
  by (induction line) auto

lemma split_line:
  assumes "10 \<notin> set line"
  shows "split_frames m (line @ 10 # rest) =
    (if over_limit m (length line) then ([], Inl frame_limit_error)
     else (let (frames, r) = split_frames m rest in (line # frames, r)))"
  using assms by (subst split_frames.simps) (simp add: Let_def)

lemma split_partial:
  assumes "over_limit m (length line)" "10 \<notin> set line"
  shows "split_frames m (line @ rest) = ([], Inl frame_limit_error)"
proof -
  have "takeWhile (\<lambda>b. b \<noteq> 10) (line @ rest) = line @ takeWhile (\<lambda>b. b \<noteq> 10) rest"
    using assms(2) by (intro takeWhile_append2) auto
  then show ?thesis using assms(1) by (subst split_frames.simps) (auto simp: Let_def intro: over_limit_mono)
qed

lemma split_ended:
  assumes "10 \<notin> set line" "\<not> over_limit m (length line)"
  shows "split_frames m line =
    ([], if line \<noteq> [] then Inl ''Protocol stream ended with an unterminated JSONL frame'' else Inr ())"
  using assms by (subst split_frames.simps) (simp add: Let_def)

text \<open>What is pending between two chunks: no line feed, its length kept, and within the limit.\<close>

definition pending_ok :: "int option \<Rightarrow> nat list list \<Rightarrow> nat \<Rightarrow> bool" where
  "pending_ok m chunks len = (10 \<notin> set (concat chunks) \<and> length (concat chunks) = len \<and> \<not> over_limit m len)"

lemma first_line:
  "10 \<in> set bytes \<Longrightarrow> bytes = takeWhile (\<lambda>b. b \<noteq> 10) bytes @ 10 # drop (Suc (length (takeWhile (\<lambda>b. b \<noteq> 10) bytes))) bytes"
  by (induction bytes) auto

lemma scan_line:
  assumes "10 \<notin> set tail" "length (concat chunks) = len"
  shows "scan_chunk m chunks len (tail @ 10 # bytes) =
    (if over_limit m (length (concat chunks @ tail)) then ([], Inl frame_limit_error)
     else (let (frames, r) = scan_chunk m (if len = 0 then chunks else []) 0 bytes
           in ((concat chunks @ tail) # frames, r)))"
proof (cases "len = 0")
  case True
  then have e: "concat chunks = []" using assms(2) by (metis length_0_conv)
  show ?thesis unfolding e using True assms(1) by (subst scan_chunk.simps) (simp add: Let_def)
next
  case False
  then show ?thesis using assms by (subst scan_chunk.simps) (simp add: Let_def add.commute)
qed

lemma scan_chunk_splits:
  assumes "positive_limit m"
  shows "pending_ok m chunks len \<Longrightarrow>
    (case scan_chunk m chunks len bytes of
       (frames, Inl e) \<Rightarrow> split_frames m (concat chunks @ bytes @ rest) = (frames, Inl e)
     | (frames, Inr (pending, n)) \<Rightarrow> pending_ok m pending n \<and>
         split_frames m (concat chunks @ bytes @ rest) =
           (let (more, r) = split_frames m (concat pending @ rest) in (frames @ more, r)))"
proof (induction "length bytes" arbitrary: chunks len bytes rule: less_induct)
  case less
  have ok: "10 \<notin> set (concat chunks)" "length (concat chunks) = len" "\<not> over_limit m len"
    using less.prems by (auto simp: pending_ok_def)
  consider (line) tail bytes' where "bytes = tail @ 10 # bytes'" "10 \<notin> set tail"
    | (piece) "10 \<notin> set bytes" "bytes \<noteq> []" | (nothing) "bytes = []"
    by (metis split_list_first)
  then show ?case
  proof cases
    case line
    have t: "10 \<notin> set (concat chunks @ tail)" using ok line by auto
    have p: "pending_ok m (if len = 0 then chunks else []) 0"
      using assms ok by (cases "len = 0") (simp_all add: pending_ok_def)
    have "concat (if len = 0 then chunks else []) = []" using ok(2) by (cases "len = 0") simp_all
    with less.hyps [OF _ p, of bytes'] show ?thesis
      using split_line [OF t, of m "bytes' @ rest"] scan_line [OF line(2) ok(2), of m bytes']
      by (auto simp: line(1) Let_def split: prod.splits sum.splits)
  next
    case piece
    then have t: "10 \<notin> set (concat chunks @ bytes)" using ok by auto
    show ?thesis
      using piece ok t split_partial [OF _ t, of m rest]
      by (subst scan_chunk.simps) (auto simp: pending_ok_def add.commute)
  next
    case nothing
    then show ?thesis using less.prems by (subst scan_chunk.simps) simp
  qed
qed

lemma scan_chunks_split:
  assumes "positive_limit m"
  shows "pending_ok m pending len \<Longrightarrow>
    scan_chunks m pending len chunks = split_frames m (concat pending @ concat chunks)"
proof (induction chunks arbitrary: pending len)
  case Nil
  then show ?case using split_ended [of "concat pending" m] by (auto simp: pending_ok_def)
next
  case (Cons chunk chunks)
  show ?case
    using scan_chunk_splits [OF assms Cons.prems, of chunk "concat chunks"] Cons.IH
    by (auto split: prod.splits sum.splits)
qed

text \<open>
  C28. Reading JSON Lines does not depend on how the bytes arrive: whatever the chunks, the reader yields
  the frames, and ends with the error or the success, of splitting the whole byte stream at its line
  feeds under the same limit.
\<close>

theorem jsonl_chunking:
  assumes "case maxFrameBytes of None \<Rightarrow> True | Some m \<Rightarrow> 1 \<le> m \<and> m \<le> max_safe_integer"
  shows "readLfFrames maxFrameBytes chunks = split_frames maxFrameBytes (concat chunks)"
proof -
  have "positive_limit maxFrameBytes" using assms by (simp add: positive_limit_def split: option.splits)
  then have "scan_chunks maxFrameBytes [] 0 chunks = split_frames maxFrameBytes (concat chunks)"
    by (subst scan_chunks_split) (simp_all add: pending_ok_def)
  then show ?thesis using assms by (auto simp: readLfFrames_def split: option.splits)
qed

lemma jsonl_chunking_witness:
  "readLfFrames (Some 3) [[1], [2, 10, 10, 7], [8, 9], [10]] = ([[1, 2], [], [7, 8, 9]], Inr ()) \<and>
   readLfFrames (Some 3) [[1, 2], [3, 4]] = ([], Inl frame_limit_error)"
proof -
  have "1 \<le> (3::int) \<and> 3 \<le> max_safe_integer" by (simp add: max_safe_integer_def)
  then show ?thesis
    using jsonl_chunking [of "Some 3" "[[1], [2, 10, 10, 7], [8, 9], [10]]"] jsonl_chunking [of "Some 3" "[[1, 2], [3, 4]]"]
    by (simp add: split_frames.simps over_limit_def frame_limit_error_def)
qed

subsection \<open>Values written and read back\<close>

lemma hex_digit_lf: "n < 16 \<Longrightarrow> hex_digit n \<noteq> CHR 0x0A"
  by (auto simp: char_eq_of hex_digit_def digit_char_def)

lemma escape_no_lf: "CHR 0x0A \<notin> set (escape_char c)"
proof -
  have "(of_char c :: nat) < 32 \<Longrightarrow> hex_digit (of_char c div 16) \<noteq> CHR 0x0A \<and> hex_digit (of_char c mod 16) \<noteq> CHR 0x0A"
    by (intro conjI hex_digit_lf) auto
  then show ?thesis by (auto simp: escape_char_def Let_def)
qed

lemma number_no_lf: "list_all number_char s \<Longrightarrow> CHR 0x0A \<notin> set s"
  by (auto simp: list_all_iff number_char_def is_digit_def)

lemma json_text_no_lf:
  "json_plain v \<Longrightarrow> CHR 0x0A \<notin> set (json_text v)"
  "items_plain xs \<Longrightarrow> CHR 0x0A \<notin> set (items_text xs)"
  "members_plain kvs \<Longrightarrow> CHR 0x0A \<notin> set (members_text kvs)"
  by (induction v and xs and kvs rule: json_text_items_text_members_text.induct)
     (use escape_no_lf number_no_lf [OF int_text_chars] in \<open>auto simp: quote_text_def\<close>)

lemma utf8_char_lf: "10 \<in> set (utf8_char c) \<Longrightarrow> c = CHR 0x0A"
  by (auto simp: utf8_char_def Let_def char_eq_of split: if_splits)

lemma utf8_no_lf: "CHR 0x0A \<notin> set s \<Longrightarrow> 10 \<notin> set (utf8 s)"
proof
  assume n: "CHR 0x0A \<notin> set s" and "10 \<in> set (utf8 s)"
  then obtain c where "c \<in> set s" "10 \<in> set (utf8_char c)" unfolding utf8_def by auto
  with n utf8_char_lf [of c] show False by metis
qed

definition frame_bytes :: "json \<Rightarrow> nat list" where
  "frame_bytes v = utf8 (json_text v)"

lemma encoded_frame: "encodeJsonFrame v = frame_bytes v @ [10]"
  by (simp add: encodeJsonFrame_def frame_bytes_def utf8_def utf8_char_def)

lemma frame_parses: "json_plain v \<Longrightarrow> parseJsonFrame (frame_bytes v) = Inr v"
proof -
  assume p: "json_plain v"
  obtain c t where "json_text v = c # t" using json_text_start [OF p] by blast
  then have "utf8 (json_text v) \<noteq> []" by (simp add: utf8_def utf8_char_def Let_def)
  then show ?thesis by (simp add: parseJsonFrame_def frame_bytes_def utf8_round_trip json_parse_text [OF p])
qed



end
