(* ===== verification/IdleRelease.thy ===== *)
theory IdleRelease
  imports OfficialServer
begin

text \<open>
  Idle release of External Threads: \<open>packages/host-runtime/src/external-thread-idle-release.ts\<close>, its
  settings (\<open>shared-contracts/src/idle-release.ts\<close>) and the queue its work waits in
  (\<open>desktop-request-queue.ts\<close>). Between two awaits the code runs undisturbed, so every stretch of it is
  one function here and the class is a state machine over their steps. A Thread object is a number
  (its identity); what other components write in it changes by steps of the environment.
\<close>

subsection \<open>State\<close>

record ext_thread =
  et_id :: string
  et_title :: "string option"
  et_harnessId :: string
  et_running :: bool
  et_activeTurnId :: "string option"
  et_persistenceError :: bool
  et_subagent :: bool
  et_ready :: bool
  et_hasNative :: bool
  et_canRelease :: bool

record activity =
  ac_lastActivity :: int
  ac_outputFailed :: bool
  ac_closeFailed :: bool

record idle_settings =
  is_enabled :: bool
  is_timeoutMinutes :: int

type_synonym object = nat

datatype release_phase = Closing_session | Settled

record idle_state =
  id_settings :: idle_settings
  id_timer :: bool
  id_stopped :: bool
  id_threads :: "(string, object) jsmap"
  id_objects :: "object \<Rightarrow> ext_thread"
  id_activity :: "object \<Rightarrow> activity option"
  id_operations :: "(string, nat) jsmap"
  id_closing :: "(string, object \<times> release_phase) jsmap"
  id_scheduled :: "string list"
  id_queued :: "(string \<times> object) list"
  id_tasks :: "(string \<times> bool) list"

definition DEFAULT_IDLE_RELEASE_SETTINGS :: idle_settings where
  "DEFAULT_IDLE_RELEASE_SETTINGS = \<lparr>is_enabled = False, is_timeoutMinutes = 30\<rparr>"

definition idle_start :: "(string, object) jsmap \<Rightarrow> (object \<Rightarrow> ext_thread) \<Rightarrow> idle_state" where
  "idle_start threads objects =
     \<lparr>id_settings = DEFAULT_IDLE_RELEASE_SETTINGS, id_timer = False, id_stopped = False, id_threads = threads,
      id_objects = objects, id_activity = (\<lambda>_. None), id_operations = [], id_closing = [], id_scheduled = [],
      id_queued = [], id_tasks = []\<rparr>"

subsection \<open>Settings and activity\<close>

definition idleReleaseSettings :: "json \<Rightarrow> idle_settings option" where
  "idleReleaseSettings v =
     (case v of
        JObj kvs \<Rightarrow>
          (case (map_of kvs ''enabled'', map_of kvs ''timeoutMinutes'') of
             (Some (JBool e), Some (JInt n)) \<Rightarrow>
               if length kvs = 2 \<and> 5 \<le> n \<and> n \<le> 1440 then Some \<lparr>is_enabled = e, is_timeoutMinutes = n\<rparr> else None
           | _ \<Rightarrow> None)
      | _ \<Rightarrow> None)"

definition configure :: "json \<Rightarrow> idle_state \<Rightarrow> (string + idle_settings) \<times> idle_state" where
  "configure v s =
     (case idleReleaseSettings v of
        None \<Rightarrow> (Inl ''ZodError'', s)
      | Some settings \<Rightarrow>
          if id_stopped s then (Inl ''Host is shutting down'', s)
          else (Inr settings, s\<lparr>id_settings := settings, id_timer := is_enabled settings\<rparr>))"

definition touch :: "int \<Rightarrow> object \<Rightarrow> idle_state \<Rightarrow> idle_state" where
  "touch now t s =
     s\<lparr>id_activity := (id_activity s)(t \<mapsto>
        (case id_activity s t of
           Some a \<Rightarrow> a\<lparr>ac_lastActivity := now\<rparr>
         | None \<Rightarrow> \<lparr>ac_lastActivity = now, ac_outputFailed = False, ac_closeFailed = False\<rparr>))\<rparr>"

definition update_activity :: "object \<Rightarrow> (activity \<Rightarrow> activity) \<Rightarrow> idle_state \<Rightarrow> idle_state" where
  "update_activity t f s = s\<lparr>id_activity := (id_activity s)(t := map_option f (id_activity s t))\<rparr>"

definition outputFailed :: "int \<Rightarrow> object \<Rightarrow> idle_state \<Rightarrow> idle_state" where
  "outputFailed now t s = update_activity t (\<lambda>a. a\<lparr>ac_outputFailed := True\<rparr>) (touch now t s)"

definition clearOutputFailed :: "int \<Rightarrow> object \<Rightarrow> idle_state \<Rightarrow> idle_state" where
  "clearOutputFailed now t s =
     (case id_activity s t of
        Some _ \<Rightarrow> update_activity t (\<lambda>a. a\<lparr>ac_outputFailed := False, ac_lastActivity := now\<rparr>) s
      | None \<Rightarrow> touch now t s)"

definition close_failed :: "idle_state \<Rightarrow> object \<Rightarrow> bool" where
  "close_failed s t = (case id_activity s t of None \<Rightarrow> False | Some a \<Rightarrow> ac_closeFailed a)"

definition CLOSE_FAILURE :: string where
  "CLOSE_FAILURE = ''External Session resource release failed. Further use is blocked to avoid duplicate writers. '' @
     ''Restart Codex Desktop to retry recovery; residual processes may require manual cleanup.''"

definition failure :: "object \<Rightarrow> idle_state \<Rightarrow> string option" where
  "failure t s = (if close_failed s t then Some CLOSE_FAILURE else None)"

subsection \<open>Operations\<close>

text \<open>
  \<open>#track\<close>: a task counts for its Thread until it ends; a missing or empty identifier is not counted.
  The flag says whether shutdown drains the task.
\<close>

definition track :: "string \<Rightarrow> bool \<Rightarrow> idle_state \<Rightarrow> idle_state" where
  "track i drain s =
     (let n = (case js_get (id_operations s) i of None \<Rightarrow> 0 | Some n \<Rightarrow> n)
      in s\<lparr>id_operations := (if i = [] then id_operations s else js_set i (Suc n) (id_operations s)),
           id_tasks := (i, drain) # id_tasks s\<rparr>)"

definition end_task :: "int \<Rightarrow> string \<Rightarrow> bool \<Rightarrow> idle_state \<Rightarrow> idle_state" where
  "end_task now i drain s =
     (let s' = s\<lparr>id_tasks := remove1 (i, drain) (id_tasks s)\<rparr>;
          remaining = (case js_get (id_operations s) i of None \<Rightarrow> 1 | Some n \<Rightarrow> n) - 1
      in if i = [] then s'
         else if remaining \<noteq> 0 then s'\<lparr>id_operations := js_set i remaining (id_operations s)\<rparr>
         else
           let s'' = s'\<lparr>id_operations := js_delete i (id_operations s)\<rparr>
           in (case js_get (id_threads s) i of None \<Rightarrow> s'' | Some t \<Rightarrow> touch now t s''))"

text \<open>\<open>runOperation\<close>: refused after the stop, waiting while the Session closes, or started.\<close>

datatype admission = Refused string | Waits | Started idle_state

definition runOperation :: "string \<Rightarrow> idle_state \<Rightarrow> admission" where
  "runOperation i s =
     (if id_stopped s then Refused ''Host is shutting down''
      else if i \<noteq> [] \<and> js_has (id_closing s) i then Waits
      else Started (track i True s))"

definition consumeOutput :: "int \<Rightarrow> object \<Rightarrow> idle_state \<Rightarrow> idle_state" where
  "consumeOutput now t s = track (et_id (id_objects s t)) False (touch now t s)"

subsection \<open>The list of loaded Sessions\<close>

datatype loaded_state = LIdle | LRunning | LBusy | LClosing | LFailed | LBlocked
datatype loaded_reason = RNone | RDisabled | RTimeout | ROperation | RBackground | RIdentity | RPersistence | RCloseFailed

record loaded_session =
  ls_threadId :: string
  ls_title :: string
  ls_harnessId :: string
  ls_state :: loaded_state
  ls_reason :: loaded_reason
  ls_inactiveMs :: int

definition inactive_ms :: "int \<Rightarrow> idle_state \<Rightarrow> object \<Rightarrow> int" where
  "inactive_ms now s t = (case id_activity s t of None \<Rightarrow> 0 | Some a \<Rightarrow> max 0 (now - ac_lastActivity a))"

definition timeout_ms :: "idle_state \<Rightarrow> int" where
  "timeout_ms s = is_timeoutMinutes (id_settings s) * 60000"

definition loaded_status :: "int \<Rightarrow> idle_state \<Rightarrow> object \<Rightarrow> loaded_state \<times> loaded_reason" where
  "loaded_status now s t =
     (let thread = id_objects s t; out = (case id_activity s t of None \<Rightarrow> False | Some a \<Rightarrow> ac_outputFailed a) in
      if close_failed s t then (LFailed, RCloseFailed)
      else if js_has (id_closing s) (et_id thread) then (LClosing, RNone)
      else if et_running thread \<or> et_activeTurnId thread \<noteq> None \<and> et_activeTurnId thread \<noteq> Some [] then (LRunning, ROperation)
      else if et_persistenceError thread \<or> out then (LBlocked, RPersistence)
      else if et_subagent thread \<or> \<not> et_ready thread \<or> \<not> et_hasNative thread then (LBlocked, RIdentity)
      else if js_has (id_operations s) (et_id thread) then (LBusy, ROperation)
      else if \<not> et_canRelease thread then (LBusy, RBackground)
      else if \<not> is_enabled (id_settings s) then (LIdle, RDisabled)
      else if inactive_ms now s t < timeout_ms s then (LIdle, RTimeout)
      else (LIdle, RNone))"

definition list_sessions :: "int \<Rightarrow> idle_state \<Rightarrow> loaded_session list" where
  "list_sessions now s =
     List.map (\<lambda>(_, t).
       \<lparr>ls_threadId = et_id (id_objects s t),
        ls_title = (case et_title (id_objects s t) of Some title \<Rightarrow> title | None \<Rightarrow> et_id (id_objects s t)),
        ls_harnessId = et_harnessId (id_objects s t), ls_state = fst (loaded_status now s t),
        ls_reason = snd (loaded_status now s t), ls_inactiveMs = inactive_ms now s t\<rparr>) (id_threads s)"

subsection \<open>Releasing\<close>

definition eligible :: "int \<Rightarrow> idle_state \<Rightarrow> object \<Rightarrow> bool" where
  "eligible now s t =
     (let thread = id_objects s t; i = et_id thread in
      case id_activity s t of
        None \<Rightarrow> False
      | Some a \<Rightarrow>
          \<not> id_stopped s \<and> is_enabled (id_settings s) \<and> \<not> ac_outputFailed a \<and> \<not> ac_closeFailed a \<and>
          js_get (id_threads s) i = Some t \<and> \<not> js_has (id_closing s) i \<and> \<not> js_has (id_operations s) i \<and>
          \<not> et_subagent thread \<and> et_ready thread \<and> et_hasNative thread \<and> \<not> et_persistenceError thread \<and>
          \<not> et_running thread \<and> (et_activeTurnId thread = None \<or> et_activeTurnId thread = Some []) \<and>
          et_canRelease thread \<and> timeout_ms s \<le> now - ac_lastActivity a)"

text \<open>One turn of the loop of \<open>check\<close>, and the loop over the registered Threads.\<close>

definition schedule_release :: "int \<Rightarrow> object \<Rightarrow> idle_state \<Rightarrow> idle_state" where
  "schedule_release now t s =
     (let i = et_id (id_objects s t) in
      if i \<in> set (id_scheduled s) \<or> \<not> eligible now s t then s
      else s\<lparr>id_scheduled := id_scheduled s @ [i], id_queued := id_queued s @ [(i, t)]\<rparr>)"

definition check :: "int \<Rightarrow> idle_state \<Rightarrow> idle_state" where
  "check now s = fold (\<lambda>(_, t). schedule_release now t) (id_threads s) s"

text \<open>The queued work of a candidate starts: a second look, and then the Session begins to close.\<close>

definition start_release :: "int \<Rightarrow> string \<Rightarrow> object \<Rightarrow> idle_state \<Rightarrow> idle_state" where
  "start_release now i t s =
     (let s' = s\<lparr>id_queued := remove1 (i, t) (id_queued s)\<rparr> in
      if eligible now s t then s'\<lparr>id_closing := js_set i (t, Closing_session) (id_closing s)\<rparr>
      else s'\<lparr>id_scheduled := removeAll i (id_scheduled s)\<rparr>)"

text \<open>
  The bounded wait of \<open>#close\<close> ends: \<open>closed\<close> says that the Session closed in time and without an error.
  Only then, and with the identity of the Thread confirmed, the instance is retired.
\<close>

definition confirmed :: "idle_state \<Rightarrow> object \<Rightarrow> bool" where
  "confirmed s t =
     ((case id_activity s t of None \<Rightarrow> True | Some a \<Rightarrow> \<not> ac_outputFailed a) \<and>
      \<not> et_persistenceError (id_objects s t) \<and> et_ready (id_objects s t) \<and> et_hasNative (id_objects s t) \<and>
      js_get (id_threads s) (et_id (id_objects s t)) = Some t)"

definition settle_release :: "string \<Rightarrow> object \<Rightarrow> bool \<Rightarrow> idle_state \<Rightarrow> idle_state" where
  "settle_release i t closed s =
     (let s' = s\<lparr>id_closing := js_set i (t, Settled) (id_closing s)\<rparr> in
      if closed \<and> confirmed s t then s'\<lparr>id_threads := js_delete (et_id (id_objects s t)) (id_threads s)\<rparr>
      else update_activity t (\<lambda>a. a\<lparr>ac_closeFailed := True\<rparr>) s')"

definition finish_release :: "string \<Rightarrow> idle_state \<Rightarrow> idle_state" where
  "finish_release i s =
     s\<lparr>id_closing := js_delete i (id_closing s), id_scheduled := removeAll i (id_scheduled s)\<rparr>"

definition disable :: "idle_state \<Rightarrow> idle_state" where
  "disable s = s\<lparr>id_settings := (id_settings s)\<lparr>is_enabled := False\<rparr>, id_timer := False\<rparr>"

definition stop :: "idle_state \<Rightarrow> idle_state" where
  "stop s = disable (s\<lparr>id_stopped := True\<rparr>)"

text \<open>\<open>drain\<close> waits until no drained task and no scheduled release is pending.\<close>

definition drained :: "idle_state \<Rightarrow> bool" where
  "drained s = (list_all (\<lambda>(_, drain). \<not> drain) (id_tasks s) \<and> id_scheduled s = [])"

subsection \<open>The machine\<close>

inductive idle_step :: "idle_state \<Rightarrow> idle_state \<Rightarrow> bool" where
  configured: "configure v s = (r, s') \<Longrightarrow> idle_step s s'"
| touched: "idle_step s (touch now t s)"
| output_failed: "idle_step s (outputFailed now t s)"
| output_cleared: "idle_step s (clearOutputFailed now t s)"
| operation_started: "runOperation i s = Started s' \<Longrightarrow> idle_step s s'"
| output_consumed: "idle_step s (consumeOutput now t s)"
| task_ended: "(i, drain) \<in> set (id_tasks s) \<Longrightarrow> idle_step s (end_task now i drain s)"
| checked: "id_timer s \<Longrightarrow> idle_step s (check now s)"
| release_started: "(i, t) \<in> set (id_queued s) \<Longrightarrow> idle_step s (start_release now i t s)"
| release_settled: "js_get (id_closing s) i = Some (t, Closing_session) \<Longrightarrow> idle_step s (settle_release i t closed s)"
| release_finished: "js_get (id_closing s) i = Some (t, Settled) \<Longrightarrow> idle_step s (finish_release i s)"
| disabled: "idle_step s (disable s)"
| stopped: "idle_step s (stop s)"
| thread_written: "et_id thread = et_id (id_objects s t) \<Longrightarrow>
    idle_step s (s\<lparr>id_objects := (id_objects s)(t := thread)\<rparr>)"
| thread_registered: "et_id (id_objects s t) = i \<Longrightarrow> idle_step s (s\<lparr>id_threads := js_set i t (id_threads s)\<rparr>)"
| thread_removed: "idle_step s (s\<lparr>id_threads := js_delete i (id_threads s)\<rparr>)"

abbreviation idle_steps :: "idle_state \<Rightarrow> idle_state \<Rightarrow> bool" where
  "idle_steps \<equiv> idle_step\<^sup>*\<^sup>*"

inductive_cases idle_step_elim: "idle_step s s'"

end
