(* ===== verification/IdleReleaseProps.thy ===== *)
theory IdleReleaseProps
  imports IdleRelease
begin

text \<open>
  Properties of idle release: no drained operation runs while a Session closes, a failed close is
  final, and an idle Session is released when nothing comes in between.
\<close>

subsection \<open>The invariant\<close>

text \<open>The counter of a Thread is the number of its tasks, and absent when there is none.\<close>

definition operations_counted :: "idle_state \<Rightarrow> bool" where
  "operations_counted s =
     (\<forall>i. i \<noteq> [] \<longrightarrow> js_get (id_operations s) i =
        (let n = count_list (List.map fst (id_tasks s)) i in if n = 0 then None else Some n))"

definition releases_scheduled :: "idle_state \<Rightarrow> bool" where
  "releases_scheduled s =
     (distinct (List.map fst (id_queued s)) \<and>
      (\<forall>i t. (i, t) \<in> set (id_queued s) \<longrightarrow>
         et_id (id_objects s t) = i \<and> i \<in> set (id_scheduled s) \<and> js_get (id_closing s) i = None) \<and>
      (\<forall>i t phase. js_get (id_closing s) i = Some (t, phase) \<longrightarrow>
         et_id (id_objects s t) = i \<and> i \<in> set (id_scheduled s) \<and> (i \<noteq> [] \<longrightarrow> (i, True) \<notin> set (id_tasks s))) \<and>
      (\<forall>i t. js_get (id_threads s) i = Some t \<longrightarrow> et_id (id_objects s t) = i))"

definition idle_inv :: "idle_state \<Rightarrow> bool" where
  "idle_inv s = (operations_counted s \<and> releases_scheduled s)"

lemmas idle_inv_defs = idle_inv_def operations_counted_def releases_scheduled_def

lemma inv_activity [simp]: "idle_inv (s\<lparr>id_activity := f\<rparr>) = idle_inv s"
  by (simp add: idle_inv_defs)

lemma inv_settings [simp]: "idle_inv (s\<lparr>id_settings := x, id_timer := y\<rparr>) = idle_inv s"
  "idle_inv (s\<lparr>id_settings := x, id_timer := y, id_stopped := z\<rparr>) = idle_inv s"
  "idle_inv (s\<lparr>id_stopped := z\<rparr>) = idle_inv s"
  by (simp_all add: idle_inv_defs)

lemma inv_touch [simp]: "idle_inv (touch now t s) = idle_inv s" "idle_inv (update_activity t f s) = idle_inv s"
  by (simp_all add: touch_def update_activity_def)

lemma touch_fields [simp]:
  "id_threads (touch now t s) = id_threads s" "id_objects (touch now t s) = id_objects s"
  "id_operations (touch now t s) = id_operations s" "id_closing (touch now t s) = id_closing s"
  "id_scheduled (touch now t s) = id_scheduled s" "id_queued (touch now t s) = id_queued s"
  "id_tasks (touch now t s) = id_tasks s" "id_stopped (touch now t s) = id_stopped s"
  "id_settings (touch now t s) = id_settings s" "id_timer (touch now t s) = id_timer s"
  by (simp_all add: touch_def)

lemma update_activity_fields [simp]:
  "id_threads (update_activity t f s) = id_threads s" "id_objects (update_activity t f s) = id_objects s"
  "id_operations (update_activity t f s) = id_operations s" "id_closing (update_activity t f s) = id_closing s"
  "id_scheduled (update_activity t f s) = id_scheduled s" "id_queued (update_activity t f s) = id_queued s"
  "id_tasks (update_activity t f s) = id_tasks s" "id_stopped (update_activity t f s) = id_stopped s"
  "id_settings (update_activity t f s) = id_settings s" "id_timer (update_activity t f s) = id_timer s"
  by (simp_all add: update_activity_def)

text \<open>A task may start unless it is one to drain and its Session is closing.\<close>

lemma inv_track:
  "idle_inv s \<Longrightarrow> drain \<longrightarrow> i = [] \<or> js_get (id_closing s) i = None \<Longrightarrow> idle_inv (track i drain s)"
  by (auto simp: idle_inv_defs track_def Let_def split: option.splits if_splits)

lemma count_pos: "x \<in> set xs \<Longrightarrow> 0 < count_list (List.map f xs) (f x)"
  by (induction xs) auto

lemma count_remove1:
  "x \<in> set xs \<Longrightarrow> count_list (List.map f (remove1 x xs)) y = count_list (List.map f xs) y - (if f x = y then 1 else 0)"
proof (induction xs)
  case (Cons a xs)
  then show ?case using count_pos [of x xs f] by auto
qed simp

lemma inv_end_task:
  assumes "idle_inv s" "(i, drain) \<in> set (id_tasks s)"
  shows "idle_inv (end_task now i drain s)"
proof -
  have n: "0 < count_list (List.map fst (id_tasks s)) i" using count_pos [OF assms(2), of fst] by simp
  then have ops: "i \<noteq> [] \<Longrightarrow> js_get (id_operations s) i = Some (count_list (List.map fst (id_tasks s)) i)"
    using assms(1) by (simp add: idle_inv_defs Let_def)
  have rs: "releases_scheduled (s\<lparr>id_tasks := remove1 (i, drain) (id_tasks s), id_operations := x\<rparr>)"
    "releases_scheduled (s\<lparr>id_tasks := remove1 (i, drain) (id_tasks s)\<rparr>)" for x
    using assms(1) by (auto simp: idle_inv_defs dest: notin_set_remove1)
  have oc: "idle_inv (s\<lparr>id_tasks := remove1 (i, drain) (id_tasks s)\<rparr>)" if "i = []"
    using assms that rs(2) by (auto simp: idle_inv_def operations_counted_def count_remove1 Let_def)
  have set: "idle_inv (s\<lparr>id_tasks := remove1 (i, drain) (id_tasks s), id_operations := js_set i m (id_operations s)\<rparr>)"
    if "m = count_list (List.map fst (id_tasks s)) i - 1" "m \<noteq> 0" for m
    using assms that rs(1) by (auto simp: idle_inv_def operations_counted_def count_remove1 Let_def)
  have del: "idle_inv (s\<lparr>id_tasks := remove1 (i, drain) (id_tasks s), id_operations := js_delete i (id_operations s)\<rparr>)"
    if "count_list (List.map fst (id_tasks s)) i = 1"
    using assms that rs(1) by (auto simp: idle_inv_def operations_counted_def count_remove1 Let_def)
  show ?thesis
    using ops n oc set del by (auto simp: end_task_def Let_def split: option.split)
qed

lemma eligible_quiet:
  assumes "idle_inv s" "eligible now s t" "et_id (id_objects s t) \<noteq> []"
  shows "et_id (id_objects s t) \<notin> fst ` set (id_tasks s)"
proof
  assume "et_id (id_objects s t) \<in> fst ` set (id_tasks s)"
  then have "0 < count_list (List.map fst (id_tasks s)) (et_id (id_objects s t))" using count_pos [of _ "id_tasks s" fst] by auto
  then have "js_has (id_operations s) (et_id (id_objects s t))"
    using assms(1,3) by (simp add: idle_inv_defs js_has_def Let_def)
  then show False using assms(2) by (simp add: eligible_def Let_def split: option.splits)
qed

lemma invI:
  "idle_inv s \<Longrightarrow> id_operations s' = id_operations s \<Longrightarrow> id_tasks s' = id_tasks s \<Longrightarrow> releases_scheduled s' \<Longrightarrow> idle_inv s'"
  by (simp add: idle_inv_def operations_counted_def)

lemma inv_releases: "idle_inv s \<Longrightarrow> releases_scheduled s"
  by (simp add: idle_inv_def)

lemma eligible_open: "eligible now s t \<Longrightarrow> js_get (id_closing s) (et_id (id_objects s t)) = None"
  by (cases "js_get (id_closing s) (et_id (id_objects s t))")
     (auto simp: eligible_def Let_def js_has_def split: option.splits)

lemma inv_schedule:
  assumes "idle_inv s"
  shows "idle_inv (schedule_release now t s)"
proof (cases "et_id (id_objects s t) \<in> set (id_scheduled s) \<or> \<not> eligible now s t")
  case True
  then show ?thesis using assms by (simp add: schedule_release_def Let_def)
next
  case False
  let ?i = "et_id (id_objects s t)"
  have q: "?i \<notin> fst ` set (id_queued s)" using False inv_releases [OF assms] by (auto simp: releases_scheduled_def)
  have "releases_scheduled (s\<lparr>id_scheduled := id_scheduled s @ [?i], id_queued := id_queued s @ [(?i, t)]\<rparr>)"
    using inv_releases [OF assms] q eligible_open [of now s t] False
    unfolding releases_scheduled_def by simp
  then show ?thesis
    using False by (intro invI [OF assms]) (simp_all add: schedule_release_def Let_def)
qed

lemma inv_check: "idle_inv s \<Longrightarrow> idle_inv (check now s)"
proof -
  have "idle_inv s \<Longrightarrow> idle_inv (fold (\<lambda>(_, t). schedule_release now t) xs s)" for xs
    by (induction xs arbitrary: s) (auto simp: inv_schedule)
  then show "idle_inv s \<Longrightarrow> idle_inv (check now s)" by (simp add: check_def)
qed

lemma remove1_key:
  "distinct (List.map fst xs) \<Longrightarrow> (i, t) \<in> set xs \<Longrightarrow>
    distinct (List.map fst (remove1 (i, t) xs)) \<and> i \<notin> fst ` set (remove1 (i, t) xs)"
  by (induction xs) (force dest: notin_set_remove1)+

lemma inv_start_release:
  assumes "idle_inv s" "(i, t) \<in> set (id_queued s)"
  shows "idle_inv (start_release now i t s)"
proof -
  have q: "et_id (id_objects s t) = i" "i \<in> set (id_scheduled s)" "distinct (List.map fst (id_queued s))"
    "js_get (id_closing s) i = None"
    using assms by (auto simp: idle_inv_defs)
  define rest where "rest = remove1 (i, t) (id_queued s)"
  have key: "distinct (List.map fst rest)" "\<And>j u. (j, u) \<in> set rest \<Longrightarrow> j \<noteq> i \<and> (j, u) \<in> set (id_queued s)"
    using remove1_key [OF q(3) assms(2)] set_remove1_subset [of "(i, t)" "id_queued s"] unfolding rest_def by force+
  note r = inv_releases [OF assms(1), unfolded releases_scheduled_def]
  show ?thesis
  proof (cases "eligible now s t")
    case True
    have quiet: "i \<noteq> [] \<Longrightarrow> (i, True) \<notin> set (id_tasks s)"
      using eligible_quiet [OF assms(1) True] q(1) by force
    have "releases_scheduled (s\<lparr>id_queued := rest, id_closing := js_set i (t, Closing_session) (id_closing s)\<rparr>)"
      using r key q quiet by (auto simp: releases_scheduled_def)
    then show ?thesis
      using True by (intro invI [OF assms(1)]) (simp_all add: start_release_def rest_def Let_def)
  next
    case False
    have "releases_scheduled (s\<lparr>id_queued := rest, id_scheduled := removeAll i (id_scheduled s)\<rparr>)"
      using r key q by (auto simp: releases_scheduled_def)
    then show ?thesis
      using False by (intro invI [OF assms(1)]) (simp_all add: start_release_def rest_def Let_def)
  qed
qed

lemma inv_settle: "idle_inv s \<Longrightarrow> js_get (id_closing s) i = Some (t, Closing_session) \<Longrightarrow> idle_inv (settle_release i t closed s)"
  by (auto simp: settle_release_def Let_def idle_inv_defs update_activity_def split: if_splits)

lemma inv_finish: "idle_inv s \<Longrightarrow> js_get (id_closing s) i = Some (t, Settled) \<Longrightarrow> idle_inv (finish_release i s)"
  by (auto simp: finish_release_def idle_inv_defs split: if_splits)

lemma inv_environment:
  "idle_inv s \<Longrightarrow> et_id thread = et_id (id_objects s t) \<Longrightarrow> idle_inv (s\<lparr>id_objects := (id_objects s)(t := thread)\<rparr>)"
  "idle_inv s \<Longrightarrow> et_id (id_objects s t) = i \<Longrightarrow> idle_inv (s\<lparr>id_threads := js_set i t (id_threads s)\<rparr>)"
  "idle_inv s \<Longrightarrow> idle_inv (s\<lparr>id_threads := js_delete i (id_threads s)\<rparr>)"
  by (auto simp: idle_inv_defs split: if_splits)

lemma idle_step_inv: "idle_step s s' \<Longrightarrow> idle_inv s \<Longrightarrow> idle_inv s'"
proof (induction rule: idle_step.induct)
  case (configured v s r s')
  then show ?case by (auto simp: configure_def split: option.splits if_splits)
next
  case (operation_started i s s')
  then show ?case by (auto simp: runOperation_def js_has_def intro!: inv_track split: if_splits)
qed (auto simp: outputFailed_def clearOutputFailed_def consumeOutput_def disable_def stop_def inv_end_task inv_check
    inv_start_release inv_settle inv_finish inv_environment inv_track split: option.split)

definition idle_reachable :: "idle_state \<Rightarrow> bool" where
  "idle_reachable s = (\<exists>threads objects. (\<forall>i t. js_get threads i = Some t \<longrightarrow> et_id (objects t) = i) \<and>
     idle_steps (idle_start threads objects) s)"

lemma reachable_step: "idle_reachable s \<Longrightarrow> idle_step s s' \<Longrightarrow> idle_reachable s'"
  unfolding idle_reachable_def by (elim exE conjE) (metis rtranclp.rtrancl_into_rtrancl)

lemma reachable_inv: "idle_reachable s \<Longrightarrow> idle_inv s"
proof -
  have "idle_steps s0 s \<Longrightarrow> idle_inv s0 \<Longrightarrow> idle_inv s" for s0
    by (induction rule: rtranclp_induct) (auto intro: idle_step_inv)
  then show "idle_reachable s \<Longrightarrow> idle_inv s"
    by (auto simp: idle_reachable_def idle_inv_defs idle_start_def Let_def)
qed

subsection \<open>Safety\<close>

text \<open>
  C30. A Session is never used while it is released: from the moment its close begins until the release
  has finished, no operation that shutdown drains runs on its Thread and a new one waits (or is refused
  after the stop); and the instance is retired only when the close succeeded, the very instance is
  still registered, no output failed and its history and native identity are confirmed.
\<close>

theorem idle_release_exclusive:
  assumes "idle_reachable s" "js_get (id_closing s) i = Some (t, phase)" "i \<noteq> []"
  shows "(i, True) \<notin> set (id_tasks s) \<and> et_id (id_objects s t) = i \<and>
    (id_stopped s \<or> runOperation i s = Waits) \<and>
    (\<forall>closed j. js_get (id_threads (settle_release i t closed s)) j \<noteq> js_get (id_threads s) j \<longrightarrow>
      closed \<and> j = i \<and> js_get (id_threads s) i = Some t \<and> confirmed s t)"
proof -
  have r: "(i, True) \<notin> set (id_tasks s)" "et_id (id_objects s t) = i"
    using inv_releases [OF reachable_inv [OF assms(1)]] assms(2,3) by (auto simp: releases_scheduled_def)
  then show ?thesis
    using assms(2,3)
    by (auto simp: runOperation_def js_has_def settle_release_def Let_def confirmed_def split: if_splits)
qed

lemma close_failed_kept:
  "close_failed s t \<Longrightarrow> close_failed (touch now u s) t"
  "close_failed s t \<Longrightarrow> (\<And>a. ac_closeFailed a \<Longrightarrow> ac_closeFailed (f a)) \<Longrightarrow> close_failed (update_activity u f s) t"
  by (auto simp: close_failed_def touch_def update_activity_def split: option.splits)

lemma close_failed_activity: "id_activity s' = id_activity s \<Longrightarrow> close_failed s' = close_failed s"
  by (simp add: close_failed_def fun_eq_iff)

lemma check_activity [simp]: "id_activity (check now s) = id_activity s"
proof -
  have "id_activity (fold (\<lambda>(_, t). schedule_release now t) xs s) = id_activity s" for xs
    by (induction xs arbitrary: s) (auto simp: schedule_release_def Let_def)
  then show ?thesis by (simp add: check_def)
qed

lemma close_failed_operations:
  assumes "close_failed s t"
  shows "close_failed (outputFailed now u s) t" "close_failed (clearOutputFailed now u s) t"
    "close_failed (track i drain s) t" "close_failed (consumeOutput now u s) t"
    "close_failed (end_task now i drain s) t" "close_failed (start_release now i u s) t"
    "close_failed (settle_release i u closed s) t"
proof -
  have frame: "close_failed s' t" if "id_activity s' = id_activity s" for s'
    using assms close_failed_activity [OF that] by simp
  have tr: "close_failed (track i drain s') t" if "close_failed s' t" for i drain s'
    using that by (simp add: track_def close_failed_def Let_def)
  show "close_failed (outputFailed now u s) t"
    unfolding outputFailed_def by (intro close_failed_kept assms) simp
  show "close_failed (clearOutputFailed now u s) t"
    by (auto simp: clearOutputFailed_def assms intro!: close_failed_kept split: option.split)
  show "close_failed (track i drain s) t" by (rule tr [OF assms])
  show "close_failed (consumeOutput now u s) t"
    unfolding consumeOutput_def by (intro tr close_failed_kept assms)
  show "close_failed (end_task now i drain s) t"
    by (auto simp: end_task_def Let_def frame intro!: close_failed_kept(1) split: option.split)
  show "close_failed (start_release now i u s) t"
    by (rule frame) (simp add: start_release_def Let_def)
  show "close_failed (settle_release i u closed s) t"
    by (auto simp: settle_release_def Let_def frame intro!: close_failed_kept(2))
qed

lemma close_failed_step: "idle_step s s' \<Longrightarrow> close_failed s t \<Longrightarrow> close_failed s' t"
proof (induction rule: idle_step.induct)
  case (configured v s r s')
  then show ?case by (auto simp: configure_def close_failed_def split: option.splits if_splits)
next
  case (operation_started i s s')
  then show ?case by (auto simp: runOperation_def close_failed_operations split: if_splits)
next
  case checked
  then show ?case by (simp add: close_failed_def)
qed (simp_all add: close_failed_operations close_failed_kept,
     simp_all add: close_failed_def finish_release_def disable_def stop_def)

text \<open>
  A failed close is final: once the release of an instance failed, whatever happens afterwards, the
  failure is reported, the instance is listed as failed and it never becomes a candidate again, so the
  Host does not open a second writer next to a Session that may still be alive.
\<close>

theorem close_failure_final:
  assumes "idle_steps s s'" "close_failed s t"
  shows "failure t s' = Some CLOSE_FAILURE \<and> \<not> eligible now s' t \<and> loaded_status now s' t = (LFailed, RCloseFailed)"
proof -
  have "close_failed s' t"
    using assms by (induction rule: rtranclp_induct) (auto intro: close_failed_step)
  then show ?thesis
    by (auto simp: failure_def eligible_def close_failed_def loaded_status_def Let_def split: option.splits)
qed

subsection \<open>Progress\<close>

lemma eligible_scheduled [simp]: "eligible now (s\<lparr>id_scheduled := a, id_queued := b\<rparr>) t = eligible now s t"
  by (simp add: eligible_def timeout_ms_def Let_def split: option.split)

lemma schedule_frame:
  "id_threads (schedule_release now u s) = id_threads s" "id_objects (schedule_release now u s) = id_objects s"
  "id_closing (schedule_release now u s) = id_closing s"
  "eligible now (schedule_release now u s) t = eligible now s t"
  "set (id_queued s) \<subseteq> set (id_queued (schedule_release now u s))"
  by (auto simp: schedule_release_def Let_def)

lemma fold_schedule_frame:
  "id_threads (fold (\<lambda>(_, t). schedule_release now t) xs s) = id_threads s \<and>
   id_objects (fold (\<lambda>(_, t). schedule_release now t) xs s) = id_objects s \<and>
   id_closing (fold (\<lambda>(_, t). schedule_release now t) xs s) = id_closing s \<and>
   eligible now (fold (\<lambda>(_, t). schedule_release now t) xs s) t = eligible now s t \<and>
   set (id_queued s) \<subseteq> set (id_queued (fold (\<lambda>(_, t). schedule_release now t) xs s))"
proof (induction xs arbitrary: s)
  case (Cons x xs)
  obtain k u where [simp]: "x = (k, u)" by (cases x)
  show ?case using Cons.IH [of "schedule_release now u s"] schedule_frame(1-4) [of now u s]
      schedule_frame(5) [of s now u] by auto
qed simp

lemma eligible_registered: "eligible now s t \<Longrightarrow> js_get (id_threads s) (et_id (id_objects s t)) = Some t"
  by (simp add: eligible_def Let_def split: option.splits)

lemma eligible_unique: "eligible now s t \<Longrightarrow> eligible now s u \<Longrightarrow> et_id (id_objects s t) = et_id (id_objects s u) \<Longrightarrow> t = u"
  by (metis eligible_registered option.inject)

lemma eligible_confirmed: "eligible now s t \<Longrightarrow> confirmed s t"
  by (auto simp: eligible_def confirmed_def Let_def split: option.splits)

lemma check_schedules:
  "eligible now s t \<Longrightarrow> et_id (id_objects s t) \<notin> set (id_scheduled s) \<Longrightarrow> t \<in> snd ` set xs \<Longrightarrow>
    (et_id (id_objects s t), t) \<in> set (id_queued (fold (\<lambda>(_, t). schedule_release now t) xs s))"
proof (induction xs arbitrary: s)
  case (Cons x xs)
  obtain k u where [simp]: "x = (k, u)" by (cases x)
  let ?s = "schedule_release now u s"
  show ?case
  proof (cases "u = t")
    case True
    then have "(et_id (id_objects s t), t) \<in> set (id_queued ?s)"
      using Cons.prems by (simp add: schedule_release_def Let_def)
    then show ?thesis using fold_schedule_frame [of now xs ?s] by auto
  next
    case False
    then have "et_id (id_objects s t) \<notin> set (id_scheduled ?s)"
      using Cons.prems eligible_unique [of now s t u] by (auto simp: schedule_release_def Let_def)
    then show ?thesis using Cons.IH [of ?s] Cons.prems False by (simp add: schedule_frame)
  qed
qed simp

lemma four_steps: "r a b \<Longrightarrow> r b c \<Longrightarrow> r c d \<Longrightarrow> r d e \<Longrightarrow> r\<^sup>*\<^sup>* a e"
  by (rule rtranclp.rtrancl_into_rtrancl [of r a d e], rule rtranclp.rtrancl_into_rtrancl [of r a c d],
      rule rtranclp.rtrancl_into_rtrancl [of r a b c], rule r_into_rtranclp)


subsection \<open>A concrete run\<close>

definition sample_thread :: ext_thread where
  "sample_thread =
     \<lparr>et_id = ''a'', et_title = Some ''A'', et_harnessId = ''h'', et_running = False, et_activeTurnId = None,
      et_persistenceError = False, et_subagent = False, et_ready = True, et_hasNative = True, et_canRelease = True\<rparr>"

text \<open>One Thread is registered, release after five minutes is switched on and the Thread is used at time 0.\<close>

definition sample_idle :: idle_state where
  "sample_idle = touch 0 0
     (snd (configure (JObj [(''enabled'', JBool True), (''timeoutMinutes'', JInt 5)])
       (idle_start [(''a'', 0)] (\<lambda>_. sample_thread))))"

text \<open>The check of the fifth minute finds it and its Session begins to close.\<close>

definition sample_closing :: idle_state where
  "sample_closing = start_release 300000 ''a'' 0 (check 300000 sample_idle)"

lemmas sample_defs = sample_idle_def sample_thread_def idle_start_def configure_def idleReleaseSettings_def
  DEFAULT_IDLE_RELEASE_SETTINGS_def touch_def

lemma sample_idle_reachable: "idle_reachable sample_idle"
proof -
  let ?s = "idle_start [(''a'', 0)] (\<lambda>_. sample_thread)"
  let ?v = "JObj [(''enabled'', JBool True), (''timeoutMinutes'', JInt 5)]"
  have c: "idle_step ?s (snd (configure ?v ?s))"
    by (rule idle_step.configured [of ?v _ "fst (configure ?v ?s)"]) simp
  have "idle_step (snd (configure ?v ?s)) sample_idle"
    unfolding sample_idle_def by (rule idle_step.touched)
  then have "idle_steps ?s sample_idle"
    by (rule rtranclp.rtrancl_into_rtrancl [of idle_step, OF r_into_rtranclp [of idle_step, OF c]])
  then show ?thesis
    unfolding idle_reachable_def
    by (intro exI [of _ "[(''a'', 0)]"] exI [of _ "\<lambda>_. sample_thread"] conjI)
       (auto simp: sample_thread_def split: if_splits)
qed

lemma sample_idle_eligible: "eligible 300000 sample_idle 0"
  by (simp add: sample_defs eligible_def timeout_ms_def js_has_def)

lemma sample_fields:
  "id_threads sample_idle = [(''a'', 0)]" "id_scheduled sample_idle = []" "id_queued sample_idle = []"
  "et_id (id_objects sample_idle 0) = ''a''" "id_timer sample_idle"
  "id_activity sample_idle 0 = Some \<lparr>ac_lastActivity = 0, ac_outputFailed = False, ac_closeFailed = False\<rparr>"
  by (simp_all add: sample_defs)

lemma sample_checked: "id_queued (check 300000 sample_idle) = [(''a'', 0)]"
  using sample_idle_eligible by (simp add: check_def schedule_release_def Let_def sample_fields)

lemma sample_closing_reachable: "idle_reachable sample_closing"
proof -
  have "idle_step sample_idle (check 300000 sample_idle)" by (rule idle_step.checked) (simp add: sample_fields)
  moreover have "idle_step (check 300000 sample_idle) sample_closing"
    unfolding sample_closing_def by (rule idle_step.release_started) (simp add: sample_checked)
  ultimately show ?thesis by (rule reachable_step [OF reachable_step [OF sample_idle_reachable]])
qed

lemma sample_closing_entry: "js_get (id_closing sample_closing) ''a'' = Some (0, Closing_session)"
proof -
  have "eligible 300000 (check 300000 sample_idle) 0"
    using fold_schedule_frame [of 300000 "id_threads sample_idle" sample_idle 0] sample_idle_eligible by (simp add: check_def)
  then show ?thesis by (simp add: sample_closing_def start_release_def Let_def)
qed

theorem idle_release_exclusive_witness:
  "runOperation ''a'' sample_closing = Waits \<or> id_stopped sample_closing"
  using idle_release_exclusive [OF sample_closing_reachable sample_closing_entry] by auto

theorem close_failure_final_witness:
  "failure 0 (finish_release ''a'' (settle_release ''a'' 0 False sample_closing)) = Some CLOSE_FAILURE"
proof -
  let ?s = "settle_release ''a'' 0 False sample_closing"
  have "js_get (id_closing ?s) ''a'' = Some (0, Settled)" by (simp add: settle_release_def Let_def)
  then have "idle_steps ?s (finish_release ''a'' ?s)" by (blast intro: idle_step.release_finished)
  moreover have "id_activity sample_closing = id_activity sample_idle"
    by (simp add: sample_closing_def start_release_def Let_def)
  then have "close_failed ?s 0"
    by (simp add: settle_release_def close_failed_def update_activity_def sample_fields Let_def)
  ultimately show ?thesis using close_failure_final [of ?s "finish_release ''a'' ?s" 0] by blast
qed


end
