(* ===== verification/ClientHello.thy ===== *)
theory ClientHello
  imports Prelude
begin

text \<open>
  The first bytes of a TLS connection through the remote relay: \<open>packages/remote-relay/src/client-hello.ts\<close>.
  The relay looks for the server name and the protocols a client offers, and hands every byte on. A byte
  is a number below 256; a read outside a \<open>Buffer\<close> throws a \<open>RangeError\<close>; the encoding \<open>ascii\<close> drops
  the top bit of a byte.
\<close>

subsection \<open>Reading a Buffer\<close>

definition range_error :: string where
  "range_error = ''RangeError''"

definition readUInt8 :: "nat list \<Rightarrow> nat \<Rightarrow> string + nat" where
  "readUInt8 b i = (case drop i b of x # _ \<Rightarrow> Inr x | _ \<Rightarrow> Inl range_error)"

definition readUInt16BE :: "nat list \<Rightarrow> nat \<Rightarrow> string + nat" where
  "readUInt16BE b i = (case drop i b of x # y # _ \<Rightarrow> Inr (256 * x + y) | _ \<Rightarrow> Inl range_error)"

definition subarray :: "nat list \<Rightarrow> nat \<Rightarrow> nat \<Rightarrow> nat list" where
  "subarray b i j = take (j - i) (drop i b)"

definition ascii :: "nat list \<Rightarrow> nat \<Rightarrow> nat \<Rightarrow> string" where
  "ascii b i j = List.map (\<lambda>x. char_of (x mod 128)) (subarray b i j)"

subsection \<open>The extensions of a ClientHello\<close>

definition maxHelloSize :: nat where
  "maxHelloSize = 16 * 1024"

record client_hello =
  ch_servername :: string
  ch_alpn :: "string list"

text \<open>The loop over the names of one \<open>server_name\<close> extension; the last host name counts.\<close>

function sni_names :: "nat list \<Rightarrow> nat \<Rightarrow> nat \<Rightarrow> string \<Rightarrow> string + string" where
  "sni_names hello limit cursor servername =
     (if cursor < limit then
        bindE (readUInt8 hello cursor) (\<lambda>nameType.
          bindE (readUInt16BE hello (cursor + 1)) (\<lambda>size.
            if limit < cursor + 3 + size then Inl ''Invalid SNI''
            else sni_names hello limit (cursor + 3 + size)
                   (if nameType = 0 then ascii hello (cursor + 3) (cursor + 3 + size) else servername)))
      else Inr servername)"
  by pat_completeness auto
termination sni_names by (relation "measure (\<lambda>(_, limit, cursor, _). limit - cursor)") auto

function alpn_names :: "nat list \<Rightarrow> nat \<Rightarrow> nat \<Rightarrow> string list \<Rightarrow> string + string list" where
  "alpn_names hello limit cursor alpn =
     (if cursor < limit then
        bindE (readUInt8 hello cursor) (\<lambda>size.
          if limit < cursor + 1 + size then Inl ''Invalid ALPN''
          else alpn_names hello limit (cursor + 1 + size) (alpn @ [ascii hello (cursor + 1) (cursor + 1 + size)]))
      else Inr alpn)"
  by pat_completeness auto
termination alpn_names by (relation "measure (\<lambda>(_, limit, cursor, _). limit - cursor)") auto

definition read_extension :: "nat list \<Rightarrow> nat \<Rightarrow> nat \<Rightarrow> nat \<Rightarrow> client_hello \<Rightarrow> string + client_hello" where
  "read_extension hello extType offset limit found =
     (if extType = 0
      then bindE (sni_names hello limit (offset + 2) (ch_servername found)) (\<lambda>name. Inr (found\<lparr>ch_servername := name\<rparr>))
      else if extType = 16
      then bindE (alpn_names hello limit (offset + 2) (ch_alpn found)) (\<lambda>alpn. Inr (found\<lparr>ch_alpn := alpn\<rparr>))
      else Inr found)"

function read_extensions :: "nat list \<Rightarrow> nat \<Rightarrow> nat \<Rightarrow> client_hello \<Rightarrow> string + client_hello" where
  "read_extensions hello limit offset found =
     (if offset < limit then
        bindE (readUInt16BE hello offset) (\<lambda>extType.
          bindE (readUInt16BE hello (offset + 2)) (\<lambda>extLength.
            if length hello < offset + 4 + extLength then Inl ''Invalid ClientHello extension''
            else bindE (read_extension hello extType (offset + 4) (offset + 4 + extLength) found) (\<lambda>found'.
              read_extensions hello limit (offset + 4 + extLength) found')))
      else Inr found)"
  by pat_completeness auto
termination read_extensions by (relation "measure (\<lambda>(_, limit, offset, _). limit - offset)") auto

definition extensions :: "nat list \<Rightarrow> string + client_hello" where
  "extensions hello =
     (let session = 4 + 2 + 32 in
      bindE (readUInt8 hello session) (\<lambda>n.
        let ciphers = session + 1 + n in
        bindE (readUInt16BE hello ciphers) (\<lambda>n.
          let compression = ciphers + 2 + n in
          bindE (readUInt8 hello compression) (\<lambda>n.
            let offset = compression + 1 + n in
            bindE (readUInt16BE hello offset) (\<lambda>n.
              let limit = offset + 2 + n in
              bindE (read_extensions hello limit (offset + 2) \<lparr>ch_servername = [], ch_alpn = []\<rparr>) (\<lambda>found.
                if limit \<noteq> length hello \<or> ch_servername found = [] then Inl ''Missing SNI or invalid ClientHello''
                else Inr found))))))"

subsection \<open>Records\<close>

definition hello_too_big :: string where
  "hello_too_big = ''ClientHello exceeds 16 KiB''"

definition hello_length :: "nat list \<Rightarrow> nat" where
  "hello_length hello = 4 + (65536 * hello ! 1 + 256 * hello ! 2 + hello ! 3)"

text \<open>The loop over the TLS records; \<open>hello\<close> is the concatenation of the fragments read so far.\<close>

function parse_records :: "nat list \<Rightarrow> nat \<Rightarrow> nat list \<Rightarrow> string + client_hello option" where
  "parse_records bytes offset hello =
     (if offset + 5 \<le> length bytes then
        (let recordEnd = offset + 5 + (256 * bytes ! (offset + 3) + bytes ! (offset + 4));
             hello' = hello @ subarray bytes (offset + 5) recordEnd
         in if bytes ! offset \<noteq> 22 then Inl ''Expected TLS handshake record''
            else if maxHelloSize < recordEnd then Inl hello_too_big
            else if length bytes < recordEnd then Inr None
            else if 4 \<le> length hello' then
              (if hello' ! 0 \<noteq> 1 then Inl ''Expected ClientHello''
               else if maxHelloSize - 5 < hello_length hello' then Inl hello_too_big
               else if hello_length hello' \<le> length hello'
               then bindE (extensions (take (hello_length hello') hello')) (\<lambda>found. Inr (Some found))
               else parse_records bytes recordEnd hello')
            else parse_records bytes recordEnd hello')
      else if maxHelloSize \<le> length bytes then Inl hello_too_big
      else Inr None)"
  by pat_completeness auto
termination parse_records by (relation "measure (\<lambda>(bytes, offset, _). length bytes - offset)") auto

definition parseClientHello :: "nat list \<Rightarrow> string + client_hello option" where
  "parseClientHello bytes = parse_records bytes 0 []"

declare sni_names.simps [simp del] alpn_names.simps [simp del] read_extensions.simps [simp del] parse_records.simps [simp del]

subsection \<open>Reading from the socket\<close>

text \<open>
  The handler of \<open>readable\<close>. The socket is the list of the chunks it still delivers, then it ends. The
  result is the greeting and what is in the readable queue afterwards: the bytes given back and the rest
  of the last chunk.
\<close>

fun readClientHello :: "nat list \<Rightarrow> nat list list \<Rightarrow> string + client_hello \<times> nat list" where
  "readClientHello bytes [] = Inl ''Connection closed during ClientHello''"
| "readClientHello bytes (chunk # chunks) =
     (let inspected = bytes @ take (maxHelloSize - length bytes) chunk in
      bindE (parseClientHello inspected) (\<lambda>hello.
        case hello of
          Some h \<Rightarrow> Inr (h, inspected @ drop (maxHelloSize - length bytes) chunk)
        | None \<Rightarrow> readClientHello inspected chunks))"

end
