(* ===== verification/ClientHelloProps.thy ===== *)
theory ClientHelloProps
  imports ClientHello
begin

text \<open>
  Properties of the ClientHello reader: what it reads does not depend on how the bytes arrive, no byte
  is lost, and a ClientHello in any records is read back.
\<close>

subsection \<open>Chunks\<close>

lemma subarray_append [simp]: "j \<le> length b \<Longrightarrow> subarray (b @ rest) i j = subarray b i j"
  by (simp add: subarray_def)

text \<open>One record: where it ends, and what becomes of its fragment.\<close>

definition record_end :: "nat list \<Rightarrow> nat \<Rightarrow> nat" where
  "record_end bytes offset = offset + 5 + (256 * bytes ! (offset + 3) + bytes ! (offset + 4))"

definition after_record :: "(nat list \<Rightarrow> string + client_hello option) \<Rightarrow> nat list \<Rightarrow> string + client_hello option" where
  "after_record continue hello =
     (if 4 \<le> length hello then
        (if hello ! 0 \<noteq> 1 then Inl ''Expected ClientHello''
         else if maxHelloSize - 5 < hello_length hello then Inl hello_too_big
         else if hello_length hello \<le> length hello
         then bindE (extensions (take (hello_length hello) hello)) (\<lambda>found. Inr (Some found))
         else continue hello)
      else continue hello)"

lemma parse_records_step:
  "parse_records bytes offset hello =
     (if length bytes < offset + 5 then (if maxHelloSize \<le> length bytes then Inl hello_too_big else Inr None)
      else if bytes ! offset \<noteq> 22 then Inl ''Expected TLS handshake record''
      else if maxHelloSize < record_end bytes offset then Inl hello_too_big
      else if length bytes < record_end bytes offset then Inr None
      else after_record (parse_records bytes (record_end bytes offset))
             (hello @ subarray bytes (offset + 5) (record_end bytes offset)))"
  by (subst parse_records.simps) (simp add: Let_def record_end_def after_record_def)

lemma after_record_cong:
  "after_record k h \<noteq> Inr None \<Longrightarrow> (k h \<noteq> Inr None \<Longrightarrow> k' h = k h) \<Longrightarrow> after_record k' h = after_record k h"
  by (simp add: after_record_def split: if_splits)

lemma after_record_None: "after_record k h = Inr None \<Longrightarrow> k h = Inr None"
  by (auto simp: after_record_def bindE_Inr_iff split: if_splits)

text \<open>Induction along the records.\<close>

lemma records_induct:
  "(\<And>offset hello. (\<And>hello'. offset + 5 \<le> length bytes \<Longrightarrow> P (record_end bytes offset) hello') \<Longrightarrow> P offset hello) \<Longrightarrow>
    P offset (hello :: nat list)"
proof (induction "length bytes - offset" arbitrary: offset hello rule: less_induct)
  case less
  show ?case
    by (rule less.prems, rule less.hyps) (auto simp: record_end_def intro: less.prems)
qed

lemma parse_records_append:
  assumes "length bytes < maxHelloSize"
  shows "parse_records bytes offset hello \<noteq> Inr None \<longrightarrow>
    parse_records (bytes @ rest) offset hello = parse_records bytes offset hello"
proof (rule records_induct [of bytes "\<lambda>offset hello. parse_records bytes offset hello \<noteq> Inr None \<longrightarrow>
    parse_records (bytes @ rest) offset hello = parse_records bytes offset hello"], intro impI)
  fix offset hello
  assume ih: "\<And>hello'. offset + 5 \<le> length bytes \<Longrightarrow> parse_records bytes (record_end bytes offset) hello' \<noteq> Inr None \<longrightarrow>
      parse_records (bytes @ rest) (record_end bytes offset) hello' = parse_records bytes (record_end bytes offset) hello'"
    and ne: "parse_records bytes offset hello \<noteq> Inr None"
  have long: "offset + 5 \<le> length bytes"
    using ne assms by (simp add: parse_records_step [of bytes] split: if_splits)
  have same: "(bytes @ rest) ! offset = bytes ! offset" "record_end (bytes @ rest) offset = record_end bytes offset"
    using long by (simp_all add: record_end_def nth_append)
  show "parse_records (bytes @ rest) offset hello = parse_records bytes offset hello"
  proof (cases "bytes ! offset = 22 \<and> record_end bytes offset \<le> maxHelloSize")
    case False
    then show ?thesis using long same by (simp add: parse_records_step [of _ offset] not_le)
  next
    case True
    let ?h = "hello @ subarray bytes (offset + 5) (record_end bytes offset)"
    have fits: "record_end bytes offset \<le> length bytes"
      using ne True long by (simp add: parse_records_step [of bytes offset] split: if_splits)
    have "after_record (parse_records bytes (record_end bytes offset)) ?h \<noteq> Inr None"
      using ne True long fits by (simp add: parse_records_step [of bytes offset])
    then have "after_record (parse_records (bytes @ rest) (record_end bytes offset)) ?h =
        after_record (parse_records bytes (record_end bytes offset)) ?h"
      by (rule after_record_cong) (use ih long in simp)
    then show ?thesis
      using True long fits same by (simp add: parse_records_step [of _ offset])
  qed
qed

lemma parse_records_full:
  assumes "maxHelloSize \<le> length bytes"
  shows "parse_records bytes offset hello \<noteq> Inr None"
proof (rule records_induct [of bytes "\<lambda>offset hello. parse_records bytes offset hello \<noteq> Inr None"])
  fix offset hello
  assume ih: "\<And>hello'. offset + 5 \<le> length bytes \<Longrightarrow> parse_records bytes (record_end bytes offset) hello' \<noteq> Inr None"
  show "parse_records bytes offset hello \<noteq> Inr None"
    using assms ih by (subst parse_records_step) (auto dest: after_record_None)
qed

lemma parse_nothing: "parseClientHello [] = Inr None"
  by (simp add: parseClientHello_def parse_records.simps maxHelloSize_def)

lemma read_chunks:
  assumes "parseClientHello bytes = Inr None"
  shows "case parseClientHello (take maxHelloSize (bytes @ concat chunks)) of
      Inl e \<Rightarrow> readClientHello bytes chunks = Inl e
    | Inr None \<Rightarrow> readClientHello bytes chunks = Inl ''Connection closed during ClientHello''
    | Inr (Some h) \<Rightarrow> (\<exists>k. readClientHello bytes chunks = Inr (h, bytes @ concat (take k chunks)))"
  using assms
proof (induction chunks arbitrary: bytes)
  case Nil
  have "length bytes < maxHelloSize"
    using Nil parse_records_full [of bytes 0 "[]"] by (fastforce simp: parseClientHello_def)
  then show ?case using Nil by simp
next
  case (Cons chunk chunks)
  let ?max = maxHelloSize
  have short: "length bytes < ?max"
    using Cons.prems parse_records_full [of bytes 0 "[]"] by (fastforce simp: parseClientHello_def)
  let ?seen = "bytes @ take (?max - length bytes) chunk"
  show ?case
  proof (cases "parseClientHello ?seen = Inr None")
    case True
    then have "length ?seen < ?max"
      using parse_records_full [of ?seen 0 "[]"] by (fastforce simp: parseClientHello_def)
    then have "?seen = bytes @ chunk" "drop (?max - length bytes) chunk = []" using short by auto
    then show ?thesis
      using Cons.IH [of "bytes @ chunk"] True
      by (auto split: sum.splits option.splits) (metis concat.simps(2) take_Suc_Cons)
  next
    case False
    have "parseClientHello (take ?max (bytes @ concat (chunk # chunks))) = parseClientHello ?seen"
    proof (cases "length ?seen < ?max")
      case True
      then have "take ?max (bytes @ concat (chunk # chunks)) = ?seen @ take (?max - length ?seen) (concat chunks)"
        using short by auto
      then show ?thesis
        using parse_records_append [OF True, of 0 "[]"] False by (simp add: parseClientHello_def)
    next
      case full: False
      then show ?thesis using short by auto
    qed
    then show ?thesis
      using False
      by (auto split: sum.splits option.splits intro!: exI [of _ "Suc 0"])
  qed
qed


subsection \<open>A ClientHello as a client writes it\<close>

datatype hello_extension = ServerName string | Protocols "string list" | OtherExtension nat "nat list"

definition u16 :: "nat \<Rightarrow> nat list" where
  "u16 n = [n div 256, n mod 256]"

definition text_bytes :: "string \<Rightarrow> nat list" where
  "text_bytes s = List.map of_char s"

fun extension_type :: "hello_extension \<Rightarrow> nat" where
  "extension_type (ServerName _) = 0"
| "extension_type (Protocols _) = 16"
| "extension_type (OtherExtension t _) = t"

fun extension_body :: "hello_extension \<Rightarrow> nat list" where
  "extension_body (ServerName name) = u16 (length name + 3) @ [0] @ u16 (length name) @ text_bytes name"
| "extension_body (Protocols ps) =
     (let names = concat (List.map (\<lambda>p. length p # text_bytes p) ps) in u16 (length names) @ names)"
| "extension_body (OtherExtension _ body) = body"

definition extension_bytes :: "hello_extension \<Rightarrow> nat list" where
  "extension_bytes e = u16 (extension_type e) @ u16 (length (extension_body e)) @ extension_body e"

definition plain_text :: "string \<Rightarrow> bool" where
  "plain_text s = list_all (\<lambda>c. (of_char c :: nat) < 128) s"

fun extension_ok :: "hello_extension \<Rightarrow> bool" where
  "extension_ok (ServerName name) = plain_text name"
| "extension_ok (Protocols ps) = list_all (\<lambda>p. plain_text p \<and> length p < 256) ps"
| "extension_ok (OtherExtension t _) = (t \<noteq> 0 \<and> t \<noteq> 16 \<and> t < 65536)"

text \<open>What the extensions say: the last server name and all protocols.\<close>

fun says :: "client_hello \<Rightarrow> hello_extension \<Rightarrow> client_hello" where
  "says found (ServerName name) = found\<lparr>ch_servername := name\<rparr>"
| "says found (Protocols ps) = found\<lparr>ch_alpn := ch_alpn found @ ps\<rparr>"
| "says found (OtherExtension _ _) = found"

definition hello_body :: "nat list \<Rightarrow> nat list \<Rightarrow> nat list \<Rightarrow> nat list \<Rightarrow> hello_extension list \<Rightarrow> nat list" where
  "hello_body versionRandom session ciphers compression es =
     (let extensionBytes = concat (List.map extension_bytes es)
      in versionRandom @ [length session] @ session @ u16 (length ciphers) @ ciphers @
         [length compression] @ compression @ u16 (length extensionBytes) @ extensionBytes)"

definition hello_message :: "nat list \<Rightarrow> nat list" where
  "hello_message body = [1, length body div 65536, length body div 256 mod 256, length body mod 256] @ body"

definition tls_record :: "nat list \<Rightarrow> nat list" where
  "tls_record fragment = [22, 3, 1] @ u16 (length fragment) @ fragment"

lemma read_u8: "drop i b = x # rest \<Longrightarrow> readUInt8 b i = Inr x"
  by (simp add: readUInt8_def)

lemma read_u16: "drop i b = u16 n @ rest \<Longrightarrow> readUInt16BE b i = Inr n"
  by (simp add: readUInt16BE_def u16_def)

lemma drop_more: "drop i b = xs @ ys \<Longrightarrow> n = length xs \<Longrightarrow> drop (i + n) b = ys"
  by (metis append_eq_conv_conj drop_drop add.commute)

lemma ascii_text: "drop i b = text_bytes s @ rest \<Longrightarrow> plain_text s \<Longrightarrow> n = length s \<Longrightarrow> ascii b i (i + n) = s"
  by (simp add: ascii_def subarray_def text_bytes_def plain_text_def list_all_iff map_idI)

lemma length_text [simp]: "length (text_bytes s) = length s"
  by (simp add: text_bytes_def)

lemma length_u16 [simp]: "length (u16 n) = 2"
  by (simp add: u16_def)

lemma sni_read:
  assumes "drop i b = [0] @ u16 (length name) @ text_bytes name @ rest" "plain_text name"
  shows "sni_names b (i + 3 + length name) i old = Inr name"
proof -
  have d: "drop (i + 1) b = u16 (length name) @ text_bytes name @ rest"
    using assms(1) by (rule drop_more) simp
  have e: "drop (i + 3) b = text_bytes name @ rest"
    using drop_more [OF d, of 2] by (simp add: numeral_3_eq_3)
  show ?thesis
    using assms(1) read_u16 [OF d] ascii_text [OF e assms(2) refl]
    by (simp add: sni_names.simps [of b _ i] sni_names.simps [of b "i + 3 + length name"] read_u8 [of i b 0])
qed

lemma alpn_read:
  assumes "drop i b = concat (List.map (\<lambda>p. length p # text_bytes p) ps) @ rest" "list_all (\<lambda>p. plain_text p \<and> length p < 256) ps"
  shows "alpn_names b (i + length (concat (List.map (\<lambda>p. length p # text_bytes p) ps))) i found = Inr (found @ ps)"
  using assms
proof (induction ps arbitrary: i found)
  case Nil
  then show ?case by (simp add: alpn_names.simps)
next
  case (Cons p ps)
  let ?names = "concat (List.map (\<lambda>p. length p # text_bytes p) ps)"
  have d: "drop i b = length p # text_bytes p @ ?names @ rest" using Cons.prems(1) by simp
  have e: "drop (i + 1) b = text_bytes p @ ?names @ rest"
    using drop_more [of i b "[length p]"] d by simp
  have f: "drop (i + 1 + length p) b = ?names @ rest" using e by (rule drop_more) simp
  have "ascii b (i + 1) (i + 1 + length p) = p" using ascii_text [OF e] Cons.prems(2) by simp
  moreover have "alpn_names b (i + 1 + length p + length ?names) (i + 1 + length p) (found @ [p]) = Inr (found @ [p] @ ps)"
    using Cons.IH [OF f, of "found @ [p]"] Cons.prems(2) by simp
  ultimately show ?case
    using read_u8 [OF d] by (subst alpn_names.simps) (simp add: add.assoc)
qed

lemma extension_read:
  assumes "drop i b = extension_body e @ rest" "extension_ok e"
  shows "read_extension b (extension_type e) i (i + length (extension_body e)) found = Inr (says found e)"
proof (cases e)
  case (ServerName name)
  have "drop (i + 2) b = [0] @ u16 (length name) @ text_bytes name @ rest"
    by (rule drop_more [of i b "u16 (length name + 3)"]) (use assms(1) ServerName in simp_all)
  then have "sni_names b (i + 2 + 3 + length name) (i + 2) (ch_servername found) = Inr name"
    using assms(2) ServerName by (intro sni_read) simp_all
  moreover have "i + length (extension_body e) = i + 2 + 3 + length name" using ServerName by simp
  ultimately show ?thesis using ServerName by (simp only: read_extension_def extension_type.simps says.simps bindE_simps if_True refl)
next
  case (Protocols ps)
  let ?names = "concat (List.map (\<lambda>p. length p # text_bytes p) ps)"
  have "drop (i + 2) b = ?names @ rest"
    by (rule drop_more [of i b "u16 (length ?names)"]) (use assms(1) Protocols in \<open>simp_all add: Let_def\<close>)
  from alpn_read [OF this] show ?thesis
    using assms(2) Protocols by (simp add: read_extension_def Let_def add.assoc)
next
  case OtherExtension
  then show ?thesis using assms(2) by (simp add: read_extension_def)
qed

lemma extensions_read:
  assumes "drop i b = concat (List.map extension_bytes es) @ rest" "list_all extension_ok es"
  shows "read_extensions b (i + length (concat (List.map extension_bytes es))) i found = Inr (foldl says found es)"
  using assms
proof (induction es arbitrary: i found)
  case Nil
  then show ?case by (simp add: read_extensions.simps)
next
  case (Cons e es)
  let ?body = "extension_body e" and ?others = "concat (List.map extension_bytes es)"
  have t: "drop i b = u16 (extension_type e) @ u16 (length ?body) @ ?body @ ?others @ rest"
    using Cons.prems(1) by (simp add: extension_bytes_def [of e])
  have l: "drop (i + 2) b = u16 (length ?body) @ ?body @ ?others @ rest" using t by (rule drop_more) simp
  have c: "drop (i + 4) b = ?body @ ?others @ rest" using drop_more [OF l, of 2] by (simp add: numeral_eq_Suc)
  have n: "drop (i + 4 + length ?body) b = ?others @ rest" using c by (rule drop_more) simp
  have "length b \<ge> i + 4 + length ?body"
    using arg_cong [OF l, of length] by simp
  moreover have limit: "i + length (concat (List.map extension_bytes (e # es))) = i + 4 + length ?body + length ?others"
    by (simp add: extension_bytes_def [of e])
  ultimately show ?case
    using read_u16 [OF t] read_u16 [OF l] extension_read [OF c] Cons.IH [OF n] Cons.prems(2)
    unfolding limit by (subst read_extensions.simps) simp
qed

lemma three_bytes: "65536 * (n div 65536) + 256 * (n div 256 mod 256) + n mod 256 = (n :: nat)"
proof -
  have "n div 65536 = n div 256 div 256" by (simp add: div_mult2_eq [symmetric])
  moreover have "256 * (n div 256 div 256) + n div 256 mod 256 = n div 256" "256 * (n div 256) + n mod 256 = n"
    by (simp_all only: mult_div_mod_eq)
  ultimately show ?thesis by linarith
qed

lemma hello_message_shape:
  "hello_message body ! 0 = 1" "hello_length (hello_message body) = length (hello_message body)" "4 \<le> length (hello_message body)"
  using three_bytes [of "length body"] by (simp_all add: hello_message_def hello_length_def)

lemma message_extensions:
  assumes "length versionRandom = 34" "list_all extension_ok es"
    and "ch_servername (foldl says \<lparr>ch_servername = [], ch_alpn = []\<rparr> es) \<noteq> []"
  shows "extensions (hello_message (hello_body versionRandom session ciphers compression es)) =
    Inr (foldl says \<lparr>ch_servername = [], ch_alpn = []\<rparr> es)"
proof -
  let ?es = "concat (List.map extension_bytes es)"
  define b where "b = hello_message (hello_body versionRandom session ciphers compression es)"
  have s: "drop 38 b = [length session] @ session @ u16 (length ciphers) @ ciphers @ [length compression] @ compression @
      u16 (length ?es) @ ?es"
    using assms(1) by (simp add: b_def hello_message_def hello_body_def Let_def)
  have c: "drop (39 + length session) b = u16 (length ciphers) @ ciphers @ [length compression] @ compression @
      u16 (length ?es) @ ?es"
    using drop_more [of 38 b "[length session] @ session"] s by simp
  have m: "drop (41 + length session + length ciphers) b = [length compression] @ compression @ u16 (length ?es) @ ?es"
    using drop_more [of "39 + length session" b "u16 (length ciphers) @ ciphers"] c by (simp add: add.commute add.left_commute)
  have e: "drop (42 + length session + length ciphers + length compression) b = u16 (length ?es) @ ?es"
    using drop_more [of "41 + length session + length ciphers" b "[length compression] @ compression"] m
    by (simp add: add.commute add.left_commute)
  have x: "drop (44 + length session + length ciphers + length compression) b = ?es @ []"
    using drop_more [OF e, of 2] by (simp add: add.commute add.left_commute)
  have len: "length b = 44 + length session + length ciphers + length compression + length ?es"
    using assms(1) by (simp add: b_def hello_message_def hello_body_def Let_def)
  have r: "read_extensions b (44 + length session + length ciphers + length compression + length ?es)
      (44 + length session + length ciphers + length compression) \<lparr>ch_servername = [], ch_alpn = []\<rparr> =
      Inr (foldl says \<lparr>ch_servername = [], ch_alpn = []\<rparr> es)"
    by (rule extensions_read [OF x assms(2)])
  have "extensions b = Inr (foldl says \<lparr>ch_servername = [], ch_alpn = []\<rparr> es)"
    using read_u8 [of 38 b] s read_u16 [OF c] read_u8 [of "41 + length session + length ciphers" b] m read_u16 [OF e] r len assms(3)
    by (simp add: extensions_def Let_def numeral_eq_Suc)
  then show ?thesis by (simp add: b_def)
qed

lemma fragments_parse:
  assumes "bytes = pre @ concat (List.map tls_record fragments)" "h @ concat fragments = hello" "length h < length hello"
    and "hello ! 0 = 1" "hello_length hello = length hello" "4 \<le> length hello"
    and "extensions hello = Inr found" "length bytes \<le> maxHelloSize" "length hello \<le> maxHelloSize - 5"
  shows "parse_records bytes (length pre) h = Inr (Some found)"
  using assms(1-3)
proof (induction fragments arbitrary: pre h)
  case Nil
  then show ?case by simp
next
  case (Cons f fs)
  let ?h = "h @ f"
  have b: "drop (length pre) bytes = [22, 3, 1] @ u16 (length f) @ f @ concat (List.map tls_record fs)"
    using Cons.prems(1) by (simp add: tls_record_def [of f])
  have nth: "bytes ! length pre = 22" "record_end bytes (length pre) = length pre + 5 + length f"
    using Cons.prems(1) by (simp_all add: record_end_def nth_append tls_record_def [of f] u16_def)
  have sub: "subarray bytes (length pre + 5) (length pre + 5 + length f) = f"
    using Cons.prems(1) by (simp add: subarray_def tls_record_def [of f] u16_def)
  have fits: "length pre + 5 + length f \<le> length bytes"
    using Cons.prems(1) by (simp add: tls_record_def [of f] u16_def)
  have pos: "length (pre @ tls_record f) = length pre + 5 + length f" by (simp add: tls_record_def)
  have next_record: "parse_records bytes (length pre + 5 + length f) ?h = Inr (Some found)" if "length ?h < length hello"
    using Cons.IH [of "pre @ tls_record f" ?h, unfolded pos] Cons.prems(1,2) that by (simp only: append_assoc list.map concat.simps)
  have same: "?h ! 0 = hello ! 0 \<and> hello_length ?h = hello_length hello" if "4 \<le> length ?h"
    using that Cons.prems(2) by (auto simp: hello_length_def nth_append simp flip: append_assoc)
  have whole: "?h = hello" if "length hello \<le> length ?h"
    using that Cons.prems(2) by auto
  have "after_record (parse_records bytes (length pre + 5 + length f)) ?h = Inr (Some found)"
    using next_record same whole assms(4-7,9)
    by (cases "length hello \<le> length ?h") (auto simp: after_record_def)
  then show ?case
    using nth sub fits assms(8) by (simp add: parse_records_step [of bytes "length pre"])
qed

text \<open>
  C33. A ClientHello is read as the client wrote it: whatever its session, cipher suites and other
  extensions, and however it is cut into TLS records of together at most 16 KiB, the reader finds the last
  server name and all the protocols it offers, in order.
\<close>

theorem client_hello_round_trip:
  assumes "length versionRandom = 34" "list_all extension_ok es"
    and "found = foldl says \<lparr>ch_servername = [], ch_alpn = []\<rparr> es" "ch_servername found \<noteq> []"
    and "concat fragments = hello_message (hello_body versionRandom session ciphers compression es)"
    and "length (concat (List.map tls_record fragments)) \<le> maxHelloSize"
  shows "parseClientHello (concat (List.map tls_record fragments)) = Inr (Some found)"
proof -
  let ?hello = "hello_message (hello_body versionRandom session ciphers compression es)"
  have "length (concat (List.map tls_record fragments)) = 5 * length fragments + length (concat fragments)"
    by (induction fragments) (auto simp: tls_record_def)
  moreover have "fragments \<noteq> []" using assms(5) by (auto simp: hello_message_def)
  then have "1 \<le> length fragments" by (cases fragments) auto
  ultimately have "length ?hello \<le> maxHelloSize - 5" using assms(5,6) by (simp add: maxHelloSize_def)
  moreover have "?hello \<noteq> []" by (simp add: hello_message_def)
  ultimately show ?thesis
    using fragments_parse [of _ "[]" fragments "[]" ?hello, OF refl] assms hello_message_shape
      message_extensions [OF assms(1,2)]
    by (simp add: parseClientHello_def)
qed

text \<open>A client that offers two protocols to one server, in two records.\<close>

definition sample_extensions :: "hello_extension list" where
  "sample_extensions = [OtherExtension 10 [0, 2, 0, 29], ServerName ''ab.example'', Protocols [''h2'', ''http/1.1'']]"

definition sample_hello :: "nat list" where
  "sample_hello = hello_message (hello_body (replicate 34 7) [4, 2, 3] [19, 5] [0] sample_extensions)"

theorem client_hello_round_trip_witness:
  "parseClientHello (tls_record (take 50 sample_hello) @ tls_record (drop 50 sample_hello)) =
     Inr (Some \<lparr>ch_servername = ''ab.example'', ch_alpn = [''h2'', ''http/1.1'']\<rparr>)"
proof -
  have "list_all extension_ok sample_extensions"
    by (simp add: sample_extensions_def plain_text_def)
  moreover have "foldl says \<lparr>ch_servername = [], ch_alpn = []\<rparr> sample_extensions =
      \<lparr>ch_servername = ''ab.example'', ch_alpn = [''h2'', ''http/1.1'']\<rparr>"
    by (simp add: sample_extensions_def)
  moreover have "length sample_hello \<le> 1000"
    by (simp add: sample_hello_def hello_message_def hello_body_def sample_extensions_def extension_bytes_def Let_def)
  ultimately have "parseClientHello (concat (List.map tls_record [take 50 sample_hello, drop 50 sample_hello])) =
      Inr (Some \<lparr>ch_servername = ''ab.example'', ch_alpn = [''h2'', ''http/1.1'']\<rparr>)"
    by (intro client_hello_round_trip [of "replicate 34 7" sample_extensions _ _ "[4, 2, 3]" "[19, 5]" "[0]"])
       (simp_all add: sample_hello_def [symmetric] tls_record_def maxHelloSize_def)
  then show ?thesis by simp
qed

end
