(* ===== verification/SessionLog.thy ===== *)
theory SessionLog
  imports ThreadManagement
begin

text \<open>
  The event journal of a Session: \<open>packages/session-runtime/src/session-log.ts\<close>. The class is a record;
  its methods run without an await, so each is one function. A sink is a number, and what it was sent is
  the list of its frames; the data store is the two files of the Session. The clock, fresh identifiers
  and \<open>hasEarlier\<close> are arguments.
\<close>

subsection \<open>State\<close>

record wire_event =
  we_type :: string
  we_seq :: int
  we_time :: int
  we_data :: json
  we_surfaceOp :: "json option"
  we_sourceEventSeqs :: "int list option"
  we_ignorable :: bool

record session_header =
  sh_id :: string
  sh_createdAt :: int
  sh_cwd :: "string option"
  sh_agentPreset :: "string option"

record active_attempt =
  at_attemptId :: string
  at_startedAfterSeq :: int
  at_turn :: int
  at_step :: int
  at_nextIndex :: nat
  at_stream :: "(int \<times> json) list"

record page_window =
  pw_maxMessages :: "int option"
  pw_turnWindow :: "(int \<times> int) option"

datatype attempt_outcome = Abandoned | Committed string int

datatype stream_frame =
    StreamStart string nat int int int
  | StreamChunk string nat nat int json
  | StreamEnd string nat nat attempt_outcome

record log_snapshot =
  sn_epoch :: string
  sn_resumedAfter :: "int option"
  sn_header :: session_header
  sn_cursor :: int
  sn_records :: "wire_event list"
  sn_hasMore :: bool
  sn_projections :: "int \<times> (string, json) jsmap"
  sn_assistantStream :: "(nat \<times> active_attempt option) option"

datatype log_frame =
    SnapshotFrame log_snapshot
  | EventFrame wire_event
  | ProjectionFrame string string json int
  | StreamFrame stream_frame
  | EndFrame
  | FailFrame string string

record session_log =
  sl_header :: session_header
  sl_events :: "wire_event list"
  sl_projections :: "(string, json) jsmap"
  sl_followers :: "nat list"
  sl_frames :: "nat \<Rightarrow> log_frame list"
  sl_revision :: nat
  sl_epoch :: string
  sl_attempt :: "active_attempt option"
  sl_attemptCounter :: nat
  sl_sequenceStart :: int
  sl_file :: "wire_event list"
  sl_projectionFile :: "(string, json) jsmap option"

definition jnum :: "string \<Rightarrow> int \<Rightarrow> string \<times> json" where
  "jnum k n = (k, JInt n)"

definition defaultProjections :: "(string, json) jsmap" where
  "defaultProjections =
     [(''title'', JNull), (''goal'', JNull), (''codexhostUsage'', JNull),
      (''tokenUsage'', JObj [jnum ''uncachedInputTokens'' 0, jnum ''outputTokens'' 0, jnum ''cacheReadTokens'' 0,
         jnum ''cacheWriteTokens'' 0]),
      (''contextPressure'', JObj []), (''agentPreset'', JStr ''standard''), (''subagentCatalog'', JArr []),
      (''subagentTiming'', JObj [jnum ''settledMs'' 0]), (''subagent'', JNull),
      (''inbox'', JObj [(''next-turn'', JArr []), (''next-step'', JArr [])]),
      (''queueState'', JObj [(''pausedReason'', JNull)]), (''turnOutline'', JArr []),
      (''userQuestions'', JObj [(''active'', JArr []), (''settled'', JArr [])]),
      (''permissions'', JObj [(''currentValue'', JStr ''default'')]),
      (''sessionStats'', JObj [jnum ''turns'' 0, jnum ''steps'' 0, jnum ''llmMs'' 0, jnum ''toolMs'' 0, jnum ''ttftMs'' 0,
         jnum ''ttftSteps'' 0, jnum ''decodeMs'' 0, jnum ''decodeTokens'' 0]),
      (''todos'', JNull), (''plan'', JObj [(''active'', JBool False), (''pending'', JBool False)]),
      (''modelSelection'', JObj [(''lastUsed'', JNull), (''next'', JNull)]),
      (''sessionListMetadata'', JObj [(''blank'', JBool True), (''lastPromptAt'', JNull)]),
      (''attachmentInput'', JObj [(''enabled'', JBool False)]),
      (''imageLimits'', JObj [jnum ''maxImageBytes'' 20971520, jnum ''maxImagesPerMessage'' 20,
         jnum ''maxMessageImageBytes'' 209715200, jnum ''maxImagePixels'' 64000000, jnum ''maxImageDimension'' 8192,
         (''mediaTypes'', JArr [JStr ''image/png'', JStr ''image/jpeg'', JStr ''image/webp'', JStr ''image/gif''])])]"

definition open_log ::
  "session_header \<Rightarrow> string \<Rightarrow> int \<Rightarrow> wire_event list \<Rightarrow> (string, json) jsmap option \<Rightarrow> session_log" where
  "open_log header uuid sequenceStart lines projectionFile =
     \<lparr>sl_header = header, sl_events = lines,
      sl_projections = js_delete ''contextBreakdown''
        (fold (\<lambda>(k, v). js_set k v) (case projectionFile of None \<Rightarrow> [] | Some stored \<Rightarrow> stored) defaultProjections),
      sl_followers = [], sl_frames = (\<lambda>_. []), sl_revision = 0, sl_epoch = uuid, sl_attempt = None,
      sl_attemptCounter = length (filter (\<lambda>e. we_type e = ''assistant/message'') lines),
      sl_sequenceStart = sequenceStart, sl_file = lines, sl_projectionFile = projectionFile\<rparr>"

definition lastSeq :: "session_log \<Rightarrow> int" where
  "lastSeq l = sl_sequenceStart l + int (length (sl_events l)) - 1"

definition firstSeq :: "session_log \<Rightarrow> int" where
  "firstSeq l = sl_sequenceStart l"

subsection \<open>Writing\<close>

text \<open>A frame for one sink, and for all followers.\<close>

definition push_to :: "nat \<Rightarrow> log_frame \<Rightarrow> session_log \<Rightarrow> session_log" where
  "push_to sink frame l = l\<lparr>sl_frames := (sl_frames l)(sink := sl_frames l sink @ [frame])\<rparr>"

definition push_all :: "log_frame \<Rightarrow> session_log \<Rightarrow> session_log" where
  "push_all frame l =
     l\<lparr>sl_frames := (\<lambda>sink. if sink \<in> set (sl_followers l) then sl_frames l sink @ [frame] else sl_frames l sink)\<rparr>"

definition log_reset :: "string \<Rightarrow> session_log \<Rightarrow> session_log" where
  "log_reset uuid l = l\<lparr>sl_epoch := uuid, sl_events := [], sl_file := [], sl_attempt := None\<rparr>"

record event_extra =
  ee_surfaceOp :: "json option"
  ee_sourceEventSeqs :: "int list option"
  ee_ignorable :: bool

definition no_extra :: event_extra where
  "no_extra = \<lparr>ee_surfaceOp = None, ee_sourceEventSeqs = None, ee_ignorable = False\<rparr>"

text \<open>\<open>append\<close>; the time is that of the call, of the replay clock or of now.\<close>

definition next_event :: "session_log \<Rightarrow> string \<Rightarrow> json \<Rightarrow> event_extra \<Rightarrow> int \<Rightarrow> wire_event" where
  "next_event l type data extra time =
     \<lparr>we_type = type, we_seq = sl_sequenceStart l + int (length (sl_events l)), we_time = time, we_data = data,
      we_surfaceOp = ee_surfaceOp extra, we_sourceEventSeqs = ee_sourceEventSeqs extra, we_ignorable = ee_ignorable extra\<rparr>"

definition log_append :: "string \<Rightarrow> json \<Rightarrow> event_extra \<Rightarrow> int \<Rightarrow> session_log \<Rightarrow> wire_event \<times> session_log" where
  "log_append type data extra time l =
     (let event = next_event l type data extra time
      in (event, push_all (EventFrame event) (l\<lparr>sl_events := sl_events l @ [event], sl_file := sl_file l @ [event]\<rparr>)))"

text \<open>The scan of \<open>closeOrphanedTurn\<close>; a Turn or step without its end is still open.\<close>

definition nullish_zero :: "json option \<Rightarrow> json" where
  "nullish_zero v = (case v of None \<Rightarrow> JInt 0 | Some JNull \<Rightarrow> JInt 0 | Some x \<Rightarrow> x)"

definition scan_open :: "json option \<times> (json \<times> json) option \<Rightarrow> wire_event \<Rightarrow> json option \<times> (json \<times> json) option" where
  "scan_open opened e =
     (let (openTurn, openStep) = opened in
      if we_type e = ''turn/start'' then (jfield (we_data e) ''turn'', openStep)
      else if we_type e = ''turn/end'' then (None, openStep)
      else if we_type e = ''step/start''
      then (openTurn, Some (nullish_zero (jfield (we_data e) ''turn''), nullish_zero (jfield (we_data e) ''step'')))
      else if we_type e = ''step/end'' then (openTurn, None)
      else (openTurn, openStep))"

definition open_parts :: "session_log \<Rightarrow> json option \<times> (json \<times> json) option" where
  "open_parts l = foldl scan_open (None, None) (sl_events l)"

definition closeOrphanedTurn :: "int \<Rightarrow> int \<Rightarrow> session_log \<Rightarrow> bool \<times> session_log" where
  "closeOrphanedTurn now now' l =
     (let (openTurn, openStep) = open_parts l;
          l1 = (case openStep of
                  None \<Rightarrow> l
                | Some (turn, step) \<Rightarrow>
                    snd (log_append ''step/end'' (JObj [(''turn'', turn), (''step'', step)]) no_extra now l));
          l2 = (case openTurn of
                  None \<Rightarrow> l1
                | Some turn \<Rightarrow>
                    snd (log_append ''turn/end''
                      (JObj [(''turn'', turn), (''reason'', JObj [(''kind'', JStr ''interrupted'')])]) no_extra now' l1))
      in if openTurn = None \<and> openStep = None then (False, l) else (True, l2))"

definition shift_event :: "int \<Rightarrow> wire_event \<Rightarrow> wire_event" where
  "shift_event shift e =
     e\<lparr>we_seq := we_seq e + shift, we_sourceEventSeqs := map_option (List.map (\<lambda>s. s + shift)) (we_sourceEventSeqs e)\<rparr>"

definition log_prepend :: "wire_event list \<Rightarrow> session_log \<Rightarrow> string + session_log" where
  "log_prepend events l =
     (if events = [] then Inr l
      else
        let start = sl_sequenceStart l - int (length events); shift = start - we_seq (hd events)
        in if start < 0 then Inl ''History rendering sequence range exhausted''
           else Inr (l\<lparr>sl_events := List.map (shift_event shift) events @ sl_events l, sl_sequenceStart := start\<rparr>))"

text \<open>The listener of the constructor gets the value that \<open>setProjection\<close> returns beside the log.\<close>

definition setProjection :: "string \<Rightarrow> json \<Rightarrow> session_log \<Rightarrow> (string \<times> string \<times> json \<times> int) \<times> session_log" where
  "setProjection key v l =
     (let projections = js_set key v (sl_projections l)
      in ((sh_id (sl_header l), key, v, max (lastSeq l) 0),
          l\<lparr>sl_projections := projections, sl_projectionFile := Some projections\<rparr>))"

definition pushProjection :: "string \<Rightarrow> json \<Rightarrow> int \<Rightarrow> session_log \<Rightarrow> session_log" where
  "pushProjection key v seq l = push_all (ProjectionFrame (sh_id (sl_header l)) key v seq) l"

definition projectionBaseline :: "session_log \<Rightarrow> int \<times> (string, json) jsmap" where
  "projectionBaseline l = (max (lastSeq l) 0, sl_projections l)"

subsection \<open>The assistant stream\<close>

definition startAttempt :: "int \<Rightarrow> int \<Rightarrow> session_log \<Rightarrow> session_log" where
  "startAttempt turn step l =
     (let n = Suc (sl_attemptCounter l);
          attempt = \<lparr>at_attemptId = sh_id (sl_header l) @ '':'' @ nat_string n, at_startedAfterSeq = lastSeq l,
                     at_turn = turn, at_step = step, at_nextIndex = 0, at_stream = []\<rparr>;
          r = Suc (sl_revision l)
      in push_all (StreamFrame (StreamStart (at_attemptId attempt) r (lastSeq l) turn step))
           (l\<lparr>sl_attemptCounter := n, sl_attempt := Some attempt, sl_revision := r\<rparr>))"

definition log_chunk :: "int \<Rightarrow> json \<Rightarrow> session_log \<Rightarrow> session_log" where
  "log_chunk now chunk l =
     (case sl_attempt l of
        None \<Rightarrow> l
      | Some attempt \<Rightarrow>
          let r = Suc (sl_revision l)
          in push_all (StreamFrame (StreamChunk (at_attemptId attempt) r (at_nextIndex attempt) now chunk))
               (l\<lparr>sl_revision := r,
                  sl_attempt := Some (attempt\<lparr>at_stream := at_stream attempt @ [(now, chunk)],
                                              at_nextIndex := Suc (at_nextIndex attempt)\<rparr>)\<rparr>))"

definition endAttempt :: "wire_event option \<Rightarrow> session_log \<Rightarrow> session_log" where
  "endAttempt committed l =
     (case sl_attempt l of
        None \<Rightarrow> l
      | Some attempt \<Rightarrow>
          let r = Suc (sl_revision l)
          in push_all (StreamFrame (StreamEnd (at_attemptId attempt) r (at_nextIndex attempt)
                 (case committed of None \<Rightarrow> Abandoned | Some e \<Rightarrow> Committed (we_type e) (we_seq e))))
               (l\<lparr>sl_attempt := None, sl_revision := r\<rparr>))"

definition reconnectFollowers :: "session_log \<Rightarrow> session_log" where
  "reconnectFollowers l = push_all EndFrame l"

definition invalidate :: "string \<Rightarrow> string \<Rightarrow> session_log \<Rightarrow> session_log" where
  "invalidate code message l = push_all (FailFrame code message) l"

subsection \<open>Windows and pages\<close>

definition turn_start :: "wire_event \<Rightarrow> bool" where
  "turn_start e = (we_type e = ''turn/start'')"

definition counts_as_message :: "wire_event \<Rightarrow> bool" where
  "counts_as_message e =
     ((we_type e = ''user/message'' \<or> we_type e = ''assistant/message'') \<and> we_surfaceOp e = Some (JStr ''append''))"

text \<open>The inner loop: the last Turn start among the first \<open>n\<close> events.\<close>

fun turn_before :: "wire_event list \<Rightarrow> nat \<Rightarrow> nat option" where
  "turn_before events 0 = None"
| "turn_before events (Suc i) = (if turn_start (events ! i) then Some i else turn_before events i)"

definition full_window :: "wire_event list \<Rightarrow> nat \<Rightarrow> nat" where
  "full_window events i = (case turn_before events (Suc i) of Some back \<Rightarrow> back | None \<Rightarrow> i)"

text \<open>The outer loop; \<open>minTurns\<close> is absent when it is infinite.\<close>

fun window_loop :: "wire_event list \<Rightarrow> int \<Rightarrow> int \<Rightarrow> int option \<Rightarrow> nat \<Rightarrow> int \<Rightarrow> int \<Rightarrow> nat" where
  "window_loop events maxMessages minMessages minTurns 0 messages turns = 0"
| "window_loop events maxMessages minMessages minTurns (Suc i) messages turns =
     (let e = events ! i;
          messages' = (if counts_as_message e then messages + 1 else messages);
          turns' = (if turn_start e then turns + 1 else turns)
      in if turn_start e \<and> minMessages \<le> messages' \<and> (case minTurns of None \<Rightarrow> False | Some n \<Rightarrow> n \<le> turns') then i
         else if maxMessages \<le> messages' then full_window events i
         else window_loop events maxMessages minMessages minTurns i messages' turns')"

definition log_window :: "wire_event list \<Rightarrow> nat \<Rightarrow> page_window \<Rightarrow> nat" where
  "log_window events limit request =
     (let maxMessages = (case pw_maxMessages request of None \<Rightarrow> 500 | Some n \<Rightarrow> n)
      in window_loop events maxMessages (case pw_turnWindow request of None \<Rightarrow> maxMessages | Some (m, _) \<Rightarrow> m)
           (map_option snd (pw_turnWindow request)) limit 0 0)"

definition log_page :: "bool \<Rightarrow> int \<Rightarrow> int option \<Rightarrow> page_window \<Rightarrow> session_log \<Rightarrow> wire_event list \<times> bool" where
  "log_page hasEarlier throughSeq beforeSeq request l =
     (let limit = nat (max 0 (min (min ((case beforeSeq of None \<Rightarrow> throughSeq + 1 | Some b \<Rightarrow> b) - sl_sequenceStart l)
                                       (throughSeq + 1 - sl_sequenceStart l)) (int (length (sl_events l)))));
          start = log_window (sl_events l) limit request
      in (drop start (take limit (sl_events l)), 0 < start \<or> hasEarlier))"

subsection \<open>Followers\<close>

record follow_request =
  fr_window :: page_window
  fr_assistantStream :: bool
  fr_resume :: "(string \<times> int) option"

definition can_resume :: "session_log \<Rightarrow> (string \<times> int) option \<Rightarrow> int option" where
  "can_resume l resume =
     (case resume of
        None \<Rightarrow> None
      | Some (epoch, cursor) \<Rightarrow>
          if epoch = sl_epoch l \<and> \<bar>cursor\<bar> \<le> max_safe_integer \<and> firstSeq l - 1 \<le> cursor \<and> cursor \<le> lastSeq l
          then Some cursor else None)"

definition follow_start :: "session_log \<Rightarrow> follow_request \<Rightarrow> nat" where
  "follow_start l request =
     (case can_resume l (fr_resume request) of
        Some cursor \<Rightarrow> nat (cursor + 1 - firstSeq l)
      | None \<Rightarrow> log_window (sl_events l) (length (sl_events l)) (fr_window request))"

definition log_snapshot_of :: "bool \<Rightarrow> session_log \<Rightarrow> follow_request \<Rightarrow> log_snapshot" where
  "log_snapshot_of hasEarlier l request =
     \<lparr>sn_epoch = sl_epoch l, sn_resumedAfter = can_resume l (fr_resume request), sn_header = sl_header l,
      sn_cursor = lastSeq l, sn_records = drop (follow_start l request) (sl_events l),
      sn_hasMore = (0 < follow_start l request \<or> hasEarlier), sn_projections = projectionBaseline l,
      sn_assistantStream = (if fr_assistantStream request then Some (sl_revision l, sl_attempt l) else None)\<rparr>"

definition follow :: "bool \<Rightarrow> nat \<Rightarrow> follow_request \<Rightarrow> session_log \<Rightarrow> session_log" where
  "follow hasEarlier sink request l =
     (let l1 = l\<lparr>sl_followers := (if sink \<in> set (sl_followers l) then sl_followers l else sl_followers l @ [sink])\<rparr>
      in push_to sink (SnapshotFrame (log_snapshot_of hasEarlier l1 request)) l1)"

definition unfollow :: "nat \<Rightarrow> session_log \<Rightarrow> session_log" where
  "unfollow sink l = l\<lparr>sl_followers := removeAll sink (sl_followers l)\<rparr>"

subsection \<open>The log as a machine\<close>

datatype log_op =
    LogAppend string json event_extra int
  | LogReset string
  | LogCloseOrphaned int int
  | LogPrepend "wire_event list"
  | LogSetProjection string json
  | LogPushProjection string json int
  | LogStartAttempt int int
  | LogChunk int json
  | LogEndAttempt "wire_event option"
  | LogReconnect
  | LogInvalidate string string
  | LogFollow bool nat follow_request
  | LogUnfollow nat

fun log_step :: "session_log \<Rightarrow> log_op \<Rightarrow> session_log" where
  "log_step l (LogAppend type data extra time) = snd (log_append type data extra time l)"
| "log_step l (LogReset uuid) = log_reset uuid l"
| "log_step l (LogCloseOrphaned now now') = snd (closeOrphanedTurn now now' l)"
| "log_step l (LogPrepend events) = (case log_prepend events l of Inl _ \<Rightarrow> l | Inr l' \<Rightarrow> l')"
| "log_step l (LogSetProjection key v) = snd (setProjection key v l)"
| "log_step l (LogPushProjection key v seq) = pushProjection key v seq l"
| "log_step l (LogStartAttempt turn step) = startAttempt turn step l"
| "log_step l (LogChunk now chunk) = log_chunk now chunk l"
| "log_step l (LogEndAttempt committed) = endAttempt committed l"
| "log_step l LogReconnect = reconnectFollowers l"
| "log_step l (LogInvalidate code message) = invalidate code message l"
| "log_step l (LogFollow hasEarlier sink request) = follow hasEarlier sink request l"
| "log_step l (LogUnfollow sink) = unfollow sink l"

end
