(* ===== verification/SessionLogProps.thy ===== *)
theory SessionLogProps
  imports SessionLog
begin

text \<open>
  Properties of the Session journal: its sequence has no gaps, a follower sees all of it from where it
  came in, pages put it together, and an orphaned Turn is closed once.
\<close>

subsection \<open>A dense sequence\<close>

definition consecutive :: "int \<Rightarrow> wire_event list \<Rightarrow> bool" where
  "consecutive start events = (\<forall>i < length events. we_seq (events ! i) = start + int i)"

definition log_dense :: "session_log \<Rightarrow> bool" where
  "log_dense l = consecutive (sl_sequenceStart l) (sl_events l)"

lemma consecutive_Nil [simp]: "consecutive start []"
  by (simp add: consecutive_def)

lemma consecutive_append:
  "consecutive start (xs @ ys) \<longleftrightarrow> consecutive start xs \<and> consecutive (start + int (length xs)) ys"
  unfolding consecutive_def
proof safe
  fix i
  assume a: "\<forall>i<length (xs @ ys). we_seq ((xs @ ys) ! i) = start + int i"
  show "we_seq (xs ! i) = start + int i" if "i < length xs" using a [rule_format, of i] that by (simp add: nth_append)
  show "we_seq (ys ! i) = start + int (length xs) + int i" if "i < length ys"
    using a [rule_format, of "length xs + i"] that by simp
next
  fix i
  assume "\<forall>i<length xs. we_seq (xs ! i) = start + int i" "\<forall>i<length ys. we_seq (ys ! i) = start + int (length xs) + int i"
    "i < length (xs @ ys)"
  then show "we_seq ((xs @ ys) ! i) = start + int i" by (cases "i < length xs") (auto simp: nth_append)
qed

lemma consecutive_shift: "consecutive start xs \<Longrightarrow> consecutive (start + d) (List.map (shift_event d) xs)"
  by (simp add: consecutive_def shift_event_def)

text \<open>A page to prepend is numbered consecutively itself.\<close>

fun op_ok :: "log_op \<Rightarrow> bool" where
  "op_ok (LogPrepend events) = (events \<noteq> [] \<longrightarrow> consecutive (we_seq (hd events)) events)"
| "op_ok _ = True"

lemma push_fields [simp]:
  "sl_events (push_all f l) = sl_events l" "sl_sequenceStart (push_all f l) = sl_sequenceStart l"
  "sl_followers (push_all f l) = sl_followers l" "sl_epoch (push_all f l) = sl_epoch l" "sl_file (push_all f l) = sl_file l"
  "sl_events (push_to sink f l) = sl_events l" "sl_sequenceStart (push_to sink f l) = sl_sequenceStart l"
  "sl_followers (push_to sink f l) = sl_followers l" "sl_epoch (push_to sink f l) = sl_epoch l" "sl_file (push_to sink f l) = sl_file l"
  by (simp_all add: push_all_def push_to_def)

text \<open>
  What one step does to the journal and to one follower: events are added in front and at the end, and
  the follower is sent those at the end.
\<close>

definition sent_events :: "log_frame list \<Rightarrow> wire_event list" where
  "sent_events frames = concat (List.map (\<lambda>f. case f of EventFrame e \<Rightarrow> [e] | _ \<Rightarrow> []) frames)"

lemma sent_append [simp]: "sent_events (xs @ ys) = sent_events xs @ sent_events ys"
  by (simp add: sent_events_def)

definition log_grows :: "nat \<Rightarrow> session_log \<Rightarrow> session_log \<Rightarrow> bool" where
  "log_grows sink l l' =
     (\<exists>pre frames. sl_events l' = pre @ sl_events l @ sent_events frames \<and>
        sl_sequenceStart l' = sl_sequenceStart l - int (length pre) \<and>
        sl_frames l' sink = sl_frames l sink @ frames \<and> sl_epoch l' = sl_epoch l \<and> sink \<in> set (sl_followers l'))"

lemma log_growsI:
  "sl_events l' = pre @ sl_events l @ sent_events frames \<Longrightarrow> sl_sequenceStart l' = sl_sequenceStart l - int (length pre) \<Longrightarrow>
    sl_frames l' sink = sl_frames l sink @ frames \<Longrightarrow> sl_epoch l' = sl_epoch l \<Longrightarrow> sink \<in> set (sl_followers l') \<Longrightarrow>
    log_grows sink l l'"
  unfolding log_grows_def by blast

lemma log_grows_refl: "sink \<in> set (sl_followers l) \<Longrightarrow> log_grows sink l l"
  by (rule log_growsI [where pre = "[]" and frames = "[]"]) (simp_all add: sent_events_def)

lemma log_grows_trans:
  assumes "log_grows sink l l1" "log_grows sink l1 l2"
  shows "log_grows sink l l2"
proof -
  obtain p f q g where "sl_events l1 = p @ sl_events l @ sent_events f" "sl_sequenceStart l1 = sl_sequenceStart l - int (length p)"
    "sl_frames l1 sink = sl_frames l sink @ f" "sl_epoch l1 = sl_epoch l"
    "sl_events l2 = q @ sl_events l1 @ sent_events g" "sl_sequenceStart l2 = sl_sequenceStart l1 - int (length q)"
    "sl_frames l2 sink = sl_frames l1 sink @ g" "sl_epoch l2 = sl_epoch l1" "sink \<in> set (sl_followers l2)"
    using assms unfolding log_grows_def by blast
  then show ?thesis by (intro log_growsI [where pre = "q @ p" and frames = "f @ g"]) simp_all
qed

text \<open>A frame that is not an event, and a change that does not touch the journal.\<close>

lemma grows_frame:
  assumes "sink \<in> set (sl_followers l)" "sl_events l' = sl_events l" "sl_sequenceStart l' = sl_sequenceStart l"
    "sl_epoch l' = sl_epoch l" "sl_followers l' = sl_followers l" "sl_frames l' = sl_frames l" "sent_events [f] = []"
  shows "log_grows sink l (push_all f l')"
  by (rule log_growsI [where pre = "[]" and frames = "[f]"]) (use assms in \<open>simp_all add: push_all_def\<close>)

lemma grows_append: "sink \<in> set (sl_followers l) \<Longrightarrow> log_grows sink l (snd (log_append type data extra time l))"
  by (rule log_growsI [where pre = "[]" and frames = "[EventFrame (next_event l type data extra time)]"])
     (simp_all add: log_append_def push_all_def sent_events_def Let_def)

lemma append_followers [simp]: "sl_followers (snd (log_append type data extra time l)) = sl_followers l"
  by (simp add: log_append_def Let_def)

text \<open>What keeps a follower in step: no reset, and neither a second snapshot nor the end of its stream.\<close>

fun follows_on :: "nat \<Rightarrow> log_op \<Rightarrow> bool" where
  "follows_on sink (LogReset _) = False"
| "follows_on sink (LogFollow _ other _) = (other \<noteq> sink)"
| "follows_on sink (LogUnfollow other) = (other \<noteq> sink)"
| "follows_on sink _ = True"

lemma grows_step: "sink \<in> set (sl_followers l) \<Longrightarrow> follows_on sink op \<Longrightarrow> log_grows sink l (log_step l op)"
proof (cases op)
  case (LogCloseOrphaned now now')
  assume f: "sink \<in> set (sl_followers l)"
  let ?l1 = "\<lambda>turn step. snd (log_append ''step/end'' (JObj [(''turn'', turn), (''step'', step)]) no_extra now l)"
  have "log_grows sink l (snd (log_append type data no_extra now' (?l1 turn step)))" for turn step type data
    by (rule log_grows_trans [OF grows_append [OF f] grows_append]) (simp add: f)
  then show ?thesis
    using f LogCloseOrphaned
    by (auto simp: closeOrphanedTurn_def Let_def grows_append log_grows_refl split: prod.split option.split)
next
  case (LogPrepend events)
  assume f: "sink \<in> set (sl_followers l)"
  show ?thesis
  proof (cases "log_prepend events l")
    case (Inr l')
    then consider "l' = l" | d where "l' = l\<lparr>sl_events := List.map (shift_event d) events @ sl_events l,
        sl_sequenceStart := sl_sequenceStart l - int (length events)\<rparr>"
      by (auto simp: log_prepend_def Let_def split: if_splits)
    then have "log_grows sink l l'"
    proof cases
      case (2 d)
      then show ?thesis
        using f by (intro log_growsI [where pre = "List.map (shift_event d) events" and frames = "[]"]) (simp_all add: sent_events_def)
    qed (simp add: f log_grows_refl)
    then show ?thesis using LogPrepend Inr by simp
  qed (simp add: LogPrepend f log_grows_refl)
next
  case (LogSetProjection k v)
  assume "sink \<in> set (sl_followers l)"
  then show ?thesis
    by (intro log_growsI [where pre = "[]" and frames = "[]"]) (simp_all add: LogSetProjection setProjection_def Let_def sent_events_def)
next
  case (LogChunk now chunk)
  assume "sink \<in> set (sl_followers l)"
  then show ?thesis
    by (auto simp: LogChunk log_chunk_def Let_def log_grows_refl sent_events_def intro!: grows_frame split: option.split)
next
  case (LogEndAttempt committed)
  assume "sink \<in> set (sl_followers l)"
  then show ?thesis
    by (auto simp: LogEndAttempt endAttempt_def Let_def log_grows_refl sent_events_def intro!: grows_frame split: option.split)
next
  case (LogFollow h other r)
  assume "sink \<in> set (sl_followers l)" "follows_on sink op"
  then show ?thesis
    by (intro log_growsI [where pre = "[]" and frames = "[]"])
       (simp_all add: LogFollow follow_def push_to_def Let_def sent_events_def)
next
  case (LogUnfollow other)
  assume "sink \<in> set (sl_followers l)" "follows_on sink op"
  then show ?thesis
    by (intro log_growsI [where pre = "[]" and frames = "[]"]) (simp_all add: LogUnfollow unfollow_def sent_events_def)
qed (auto simp: grows_append pushProjection_def startAttempt_def reconnectFollowers_def invalidate_def Let_def sent_events_def
       intro!: grows_frame)

lemma grows_run:
  "sink \<in> set (sl_followers l) \<Longrightarrow> list_all (follows_on sink) ops \<Longrightarrow> log_grows sink l (foldl log_step l ops)"
proof (induction ops arbitrary: l)
  case (Cons op ops)
  then have g: "log_grows sink l (log_step l op)" by (simp add: grows_step)
  then have "sink \<in> set (sl_followers (log_step l op))" by (auto simp: log_grows_def)
  then show ?case using Cons by (auto intro: log_grows_trans [OF g])
qed (simp add: log_grows_refl)

lemma append_dense: "log_dense l \<Longrightarrow> log_dense (snd (log_append type data extra time l))"
  by (simp add: log_dense_def log_append_def next_event_def Let_def consecutive_append) (simp add: consecutive_def)

lemma dense_fields:
  "sl_events l' = sl_events l \<Longrightarrow> sl_sequenceStart l' = sl_sequenceStart l \<Longrightarrow> log_dense l' = log_dense l"
  by (simp add: log_dense_def)

lemma prepend_dense:
  assumes "log_dense l" "log_prepend events l = Inr l'" "events \<noteq> [] \<longrightarrow> consecutive (we_seq (hd events)) events"
  shows "log_dense l'"
proof (cases "events = []")
  case True
  then show ?thesis using assms by (simp add: log_prepend_def)
next
  case False
  let ?start = "sl_sequenceStart l - int (length events)"
  have "consecutive ?start (List.map (shift_event (?start - we_seq (hd events))) events)"
    using consecutive_shift [OF mp [OF assms(3) False], of "?start - we_seq (hd events)"] by simp
  moreover have "l' = l\<lparr>sl_events := List.map (shift_event (?start - we_seq (hd events))) events @ sl_events l, sl_sequenceStart := ?start\<rparr>"
    using assms(2) False by (simp add: log_prepend_def Let_def split: if_splits)
  ultimately show ?thesis using assms(1) by (simp add: log_dense_def consecutive_append)
qed

lemma orphan_dense: "log_dense l \<Longrightarrow> log_dense (snd (closeOrphanedTurn now now' l))"
  by (auto simp: closeOrphanedTurn_def Let_def append_dense split: prod.split option.split)

lemma step_dense: "log_dense l \<Longrightarrow> op_ok op \<Longrightarrow> log_dense (log_step l op)"
proof (cases op)
  case (LogPrepend events)
  assume "log_dense l" "op_ok op"
  then show ?thesis using prepend_dense LogPrepend by (auto split: sum.split)
next
  case (LogReset u)
  then show ?thesis by (simp add: log_reset_def log_dense_def)
next
  case (LogAppend t d x n)
  assume "log_dense l"
  then show ?thesis by (simp add: LogAppend append_dense)
next
  case (LogCloseOrphaned a b)
  assume "log_dense l"
  then show ?thesis by (simp add: LogCloseOrphaned orphan_dense)
next
  case (LogFollow h sink r)
  assume "log_dense l"
  then show ?thesis by (simp add: LogFollow follow_def log_dense_def Let_def)
qed (simp_all add: setProjection_def pushProjection_def startAttempt_def log_chunk_def
       endAttempt_def reconnectFollowers_def invalidate_def unfollow_def Let_def log_dense_def split: option.split)

fun not_prepended :: "log_op \<Rightarrow> bool" where
  "not_prepended (LogPrepend _) = False"
| "not_prepended _ = True"

lemma step_file: "sl_file l = sl_events l \<Longrightarrow> not_prepended op \<Longrightarrow> sl_file (log_step l op) = sl_events (log_step l op)"
  by (cases op)
     (auto simp: log_append_def closeOrphanedTurn_def log_reset_def setProjection_def pushProjection_def startAttempt_def log_chunk_def
        endAttempt_def reconnectFollowers_def invalidate_def follow_def unfollow_def Let_def split: option.split prod.split)

lemma session_log_dense_aux:
  "log_dense l \<Longrightarrow> list_all op_ok ops \<Longrightarrow> log_dense (foldl log_step l ops)"
  by (induction ops arbitrary: l) (simp_all add: step_dense)

lemma drop_filter_seq:
  assumes "consecutive start events" "k \<le> length events" "start + int k = c + 1"
  shows "drop k events = filter (\<lambda>e. c < we_seq e) events"
proof -
  have "filter (\<lambda>e. c < we_seq e) (take k events) = []"
    using assms by (auto simp: filter_empty_conv in_set_conv_nth consecutive_def)
  moreover have "filter (\<lambda>e. c < we_seq e) (drop k events) = drop k events"
    using assms by (auto simp: filter_id_conv in_set_conv_nth consecutive_def)
  ultimately show ?thesis using filter_append [of "\<lambda>e. c < we_seq e" "take k events" "drop k events"] by simp
qed

text \<open>
  C34. The sequence of a Session journal has no gaps: whatever is appended, prepended in consecutive pages,
  reset, streamed or followed, in any order, the events are numbered one by one from the first to the last
  sequence number; and as long as nothing is prepended, the file holds exactly these events.
\<close>

theorem session_log_dense:
  assumes "log_dense l" "list_all op_ok ops"
  shows "log_dense (foldl log_step l ops) \<and>
    (sl_file l = sl_events l \<longrightarrow> list_all not_prepended ops \<longrightarrow>
      sl_file (foldl log_step l ops) = sl_events (foldl log_step l ops))"
  using assms
proof (induction ops arbitrary: l)
  case (Cons op ops)
  then show ?case using step_dense step_file by simp
qed simp

subsection \<open>Followers\<close>

lemma follow_snapshot:
  "sl_frames (follow h sink r l) sink = sl_frames l sink @ [SnapshotFrame (log_snapshot_of h l r)]"
  "sl_events (follow h sink r l) = sl_events l" "sl_sequenceStart (follow h sink r l) = sl_sequenceStart l"
  "sink \<in> set (sl_followers (follow h sink r l))" "sl_epoch (follow h sink r l) = sl_epoch l"
  by (simp_all add: follow_def push_to_def log_snapshot_of_def Let_def can_resume_def firstSeq_def lastSeq_def follow_start_def
        projectionBaseline_def split: option.split)

lemma full_window_le: "full_window events i \<le> i"
proof -
  have "turn_before events k = Some j \<Longrightarrow> j < k" for k j
    by (induction k) (auto split: if_splits simp: less_Suc_eq)
  then show ?thesis by (fastforce simp: full_window_def split: option.split simp del: turn_before.simps)
qed

lemma window_loop_below: "window_loop events a b c n m t \<le> n - 1"
proof (induction n arbitrary: m t)
  case (Suc i)
  have "window_loop events a b c i m t \<le> i" for m t
    using Suc.IH [of m t] by simp
  then show ?case by (simp add: Let_def full_window_le)
qed simp

lemma log_window_below: "log_window events n r \<le> n - 1"
  unfolding log_window_def Let_def by (rule window_loop_below)

lemma follow_start_le: "follow_start l r \<le> length (sl_events l)"
proof (cases "can_resume l (fr_resume r)")
  case None
  then show ?thesis
    using log_window_below [of "sl_events l" "length (sl_events l)" "fr_window r"] by (simp add: follow_start_def)
next
  case (Some c)
  then have "c \<le> lastSeq l" by (auto simp: can_resume_def split: option.splits if_splits)
  then show ?thesis using Some by (simp add: follow_start_def lastSeq_def firstSeq_def)
qed


subsection \<open>Pages\<close>

text \<open>A client that reads backwards: every page ends before the first event of the page after it.\<close>

fun read_pages :: "nat \<Rightarrow> session_log \<Rightarrow> page_window \<Rightarrow> int option \<Rightarrow> wire_event list option" where
  "read_pages 0 l request beforeSeq = None"
| "read_pages (Suc n) l request beforeSeq =
     (let (records, hasMore) = log_page False (lastSeq l) beforeSeq request l in
      if hasMore then map_option (\<lambda>earlier. earlier @ records) (read_pages n l request (Some (we_seq (hd records))))
      else Some records)"

lemma turn_before_Some: "turn_before events k = Some j \<Longrightarrow> turn_start (events ! j)"
  by (induction k) (auto split: if_splits)

lemma turn_before_None: "turn_before events k = None \<Longrightarrow> j < k \<Longrightarrow> \<not> turn_start (events ! j)"
  by (induction k) (auto split: if_splits simp: less_Suc_eq)

definition opens_at_turn :: "wire_event list \<Rightarrow> nat \<Rightarrow> bool" where
  "opens_at_turn events i = (i = 0 \<or> turn_start (events ! i) \<or> (\<forall>j\<le>i. \<not> turn_start (events ! j)))"

lemma window_loop_opens: "opens_at_turn events (window_loop events a b c n m t)"
proof (induction n arbitrary: m t)
  case (Suc i)
  have "opens_at_turn events (full_window events i)"
    using turn_before_Some [of events "Suc i"] turn_before_None [of events "Suc i"]
    by (auto simp: opens_at_turn_def full_window_def less_Suc_eq_le split: option.split simp del: turn_before.simps)
  then show ?case using Suc.IH by (simp add: Let_def) (simp add: opens_at_turn_def)
qed (simp add: opens_at_turn_def)

lemma page_at:
  assumes "n \<le> length (sl_events l)"
  shows "log_page False (lastSeq l) (Some (sl_sequenceStart l + int n)) request l =
    (drop (log_window (sl_events l) n request) (take n (sl_events l)), 0 < log_window (sl_events l) n request)"
  using assms by (simp add: log_page_def lastSeq_def Let_def min_def)

lemma read_pages_at:
  assumes "log_dense l"
  shows "n \<le> length (sl_events l) \<Longrightarrow> n \<le> fuel \<Longrightarrow>
    read_pages (Suc fuel) l request (Some (sl_sequenceStart l + int n)) = Some (take n (sl_events l))"
proof (induction n arbitrary: fuel rule: less_induct)
  case (less n)
  let ?s = "log_window (sl_events l) n request"
  show ?case
  proof (cases "?s = 0")
    case True
    then show ?thesis using page_at [OF less.prems(1), of request] by simp
  next
    case False
    then have s: "?s < n" "0 < n" using log_window_below [of "sl_events l" n request] by auto
    obtain fuel' where fuel: "fuel = Suc fuel'" using s less.prems(2) by (cases fuel) auto
    have "drop ?s (take n (sl_events l)) = sl_events l ! ?s # drop (Suc ?s) (take n (sl_events l))"
      using s less.prems(1) by (simp add: Cons_nth_drop_Suc [symmetric])
    then have "we_seq (hd (drop ?s (take n (sl_events l)))) = sl_sequenceStart l + int ?s"
      using assms s less.prems(1) by (simp add: log_dense_def consecutive_def)
    moreover have "read_pages (Suc fuel') l request (Some (sl_sequenceStart l + int ?s)) = Some (take ?s (sl_events l))"
      using less.IH [OF s(1), of fuel'] s less.prems fuel by simp
    moreover have "take ?s (sl_events l) @ drop ?s (take n (sl_events l)) = take n (sl_events l)"
      using s(1) append_take_drop_id [of ?s "take n (sl_events l)"] by (simp add: min_def)
    ultimately show ?thesis
      using page_at [OF less.prems(1), of request] False fuel by (simp del: read_pages.simps(2) add: read_pages.simps(2) [of "Suc fuel'"])
  qed
qed

text \<open>
  C36. Pages put the journal together: a client that asks for one page after the other, with whatever window
  it likes, reads every event once and in order, after at most as many requests as there are events and
  one more; and a page opens at the start of a Turn unless no Turn starts at or before its first event.
\<close>

theorem session_pages_complete:
  assumes "log_dense l"
  shows "read_pages (Suc (length (sl_events l))) l request None = Some (sl_events l) \<and>
    opens_at_turn (sl_events l) (log_window (sl_events l) n request)"
proof -
  have "log_page False (lastSeq l) None request l =
      log_page False (lastSeq l) (Some (sl_sequenceStart l + int (length (sl_events l)))) request l"
    by (simp add: log_page_def lastSeq_def)
  then have "read_pages (Suc k) l request None =
      read_pages (Suc k) l request (Some (sl_sequenceStart l + int (length (sl_events l))))" for k
    by simp
  then show ?thesis
    using read_pages_at [OF assms order_refl order_refl, of request] window_loop_opens by (simp add: log_window_def Let_def)
qed

subsection \<open>Orphaned Turns\<close>

lemma append_events [simp]: "sl_events (snd (log_append type data extra time l)) = sl_events l @ [next_event l type data extra time]"
  by (simp add: log_append_def Let_def)

lemma open_append: "open_parts (snd (log_append type data extra time l)) = scan_open (open_parts l) (next_event l type data extra time)"
  by (simp add: open_parts_def)

text \<open>
  A Turn that an earlier process left open is closed once: afterwards no Turn and no step is open, a
  second call finds nothing to do, the events before are kept, and the answer says whether there was one.
\<close>

theorem orphaned_turn_closed:
  "open_parts (snd (closeOrphanedTurn now now' l)) = (None, None) \<and>
   closeOrphanedTurn t t' (snd (closeOrphanedTurn now now' l)) = (False, snd (closeOrphanedTurn now now' l)) \<and>
   fst (closeOrphanedTurn now now' l) = (open_parts l \<noteq> (None, None)) \<and>
   take (length (sl_events l)) (sl_events (snd (closeOrphanedTurn now now' l))) = sl_events l"
proof -
  obtain turn step where o: "open_parts l = (turn, step)" by (cases "open_parts l")
  have closed: "open_parts (snd (closeOrphanedTurn now now' l)) = (None, None)"
    using o by (cases turn; cases step) (auto simp: closeOrphanedTurn_def Let_def open_append scan_open_def next_event_def)
  then have "closeOrphanedTurn t t' (snd (closeOrphanedTurn now now' l)) = (False, snd (closeOrphanedTurn now now' l))"
    by (simp add: closeOrphanedTurn_def [of t])
  moreover have "fst (closeOrphanedTurn now now' l) = (open_parts l \<noteq> (None, None)) \<and>
      take (length (sl_events l)) (sl_events (snd (closeOrphanedTurn now now' l))) = sl_events l"
    using o by (cases turn; cases step) (auto simp: closeOrphanedTurn_def Let_def)
  ultimately show ?thesis using closed by simp
qed

subsection \<open>A concrete journal\<close>

definition sample_log :: session_log where
  "sample_log = foldl log_step
     (open_log \<lparr>sh_id = ''s'', sh_createdAt = 0, sh_cwd = None, sh_agentPreset = None\<rparr> ''e'' 3 [] None)
     [LogAppend ''turn/start'' (JObj [(''turn'', JInt 1)]) no_extra 1,
      LogAppend ''user/message'' (JObj []) \<lparr>ee_surfaceOp = Some (JStr ''append''), ee_sourceEventSeqs = None, ee_ignorable = False\<rparr> 2,
      LogAppend ''turn/end'' (JObj [(''turn'', JInt 1)]) no_extra 3]"

definition sample_page :: "wire_event list" where
  "sample_page = [\<lparr>we_type = ''note'', we_seq = 7, we_time = 0, we_data = JNull, we_surfaceOp = None,
     we_sourceEventSeqs = None, we_ignorable = False\<rparr>]"

lemma sample_log_dense: "log_dense sample_log"
  unfolding sample_log_def by (rule session_log_dense_aux) (simp_all add: open_log_def log_dense_def)

lemma sample_page_ok: "list_all op_ok [LogPrepend sample_page, LogReconnect]"
  by (simp add: sample_page_def consecutive_def)

theorem session_log_dense_witness: "log_dense (foldl log_step sample_log [LogPrepend sample_page, LogReconnect])"
  using session_log_dense [OF sample_log_dense sample_page_ok] by blast

definition resume_request :: follow_request where
  "resume_request = \<lparr>fr_window = \<lparr>pw_maxMessages = None, pw_turnWindow = None\<rparr>, fr_assistantStream = True,
     fr_resume = Some (''e'', 4)\<rparr>"


theorem session_pages_complete_witness:
  "read_pages (Suc (length (sl_events sample_log))) sample_log \<lparr>pw_maxMessages = Some 1, pw_turnWindow = None\<rparr> None =
    Some (sl_events sample_log)"
  using session_pages_complete [OF sample_log_dense] by blast

end
