(* ===== verification/DelegationWatch.thy ===== *)
theory DelegationWatch
  imports JsNumbers
begin

text \<open>
  One-shot notifications when a watched Thread stops: \<open>packages/host-runtime/src/delegation-watch.ts\<close>.
  The operations \<open>read\<close> and \<open>send\<close> of the delegation API belong to other components: their results are
  arguments. A tick of the service waits for one result after the other; between two waits its code is one
  function here, and calls of \<open>watch\<close> and \<open>close\<close> may come in while it waits. A watch object is named by the
  number it got when it was registered.
\<close>

subsection \<open>Results of the API\<close>

datatype api_error =
    ControlError string string bool bool
  | OtherError string

datatype read_result = ThreadRead string "string option" | ReadFailed api_error

datatype send_result = MessageSent | SendFailed api_error

definition thread_stopped :: "string \<Rightarrow> bool" where
  "thread_stopped status = (status = ''completed'' \<or> status = ''failed'' \<or> status = ''interrupted'')"

fun errorCode :: "api_error \<Rightarrow> string option" where
  "errorCode (ControlError code _ _ _) = Some code"
| "errorCode (OtherError _) = None"

fun error_message :: "api_error \<Rightarrow> string" where
  "error_message (ControlError _ message _ _) = message"
| "error_message (OtherError message) = message"

datatype delivery_failure = Permanent | Rejected | Unknown

text \<open>The two flags of an error are \<open>details.readOnly\<close> and \<open>details.notStarted\<close>.\<close>

fun deliveryFailure :: "api_error \<Rightarrow> delivery_failure" where
  "deliveryFailure (OtherError _) = Unknown"
| "deliveryFailure (ControlError code _ readOnly notStarted) =
     (if code = ''THREAD_NOT_FOUND'' \<or> readOnly then Permanent
      else if code = ''THREAD_BUSY'' \<or> notStarted then Rejected
      else Unknown)"

subsection \<open>Watches\<close>

datatype watch_state = Watching | PendingDelivery | Undeliverable

record watch =
  wa_id :: nat
  wa_threadId :: string
  wa_notifyThreadId :: string
  wa_state :: watch_state
  wa_outcome :: string
  wa_turnId :: "string option"
  wa_reason :: "string option"
  wa_registeredAt :: int
  wa_timeoutMs :: int
  wa_deadline :: int
  wa_deliveryDeadline :: "int option"
  wa_unreadableSince :: "int option"
  wa_lastReadError :: "string option"

definition DELIVERY_WINDOW_MS :: int where
  "DELIVERY_WINDOW_MS = 6 * 60 * 60000"

definition MAX_UNDELIVERABLE_ENTRIES :: nat where
  "MAX_UNDELIVERABLE_ENTRIES = 50"

definition UNREADABLE_GRACE_MS :: int where
  "UNREADABLE_GRACE_MS = 60000"

definition threadLink :: "string \<Rightarrow> string" where
  "threadLink threadId = ''codex://threads/'' @ threadId"

text \<open>\<open>Math.round\<close> of a quotient of natural numbers.\<close>

definition rounded :: "int \<Rightarrow> int \<Rightarrow> string" where
  "rounded a b = nat_string (nat ((2 * a + b) div (2 * b)))"

definition duration :: "int \<Rightarrow> string" where
  "duration milliseconds =
     (if milliseconds < 60000 then rounded milliseconds 1000 @ '' s'' else rounded milliseconds 60000 @ '' min'')"

definition describe :: "watch \<Rightarrow> string" where
  "describe w =
     (let link = threadLink (wa_threadId w) in
      if wa_outcome w = ''timedOut''
      then link @ '' has not reached a terminal state after '' @ duration (wa_timeoutMs w) @
           ''; this watch expired. Run '' @ [CHR 0x27] @ ''codexhost thread watch'' @ [CHR 0x27] @ '' again to keep waiting.''
      else if wa_outcome w = ''unreadable''
      then link @ '' could not be read for '' @ rounded UNREADABLE_GRACE_MS 1000 @ '' s, so its state is unknown ('' @
           (case wa_lastReadError w of None \<Rightarrow> ''unknown error'' | Some e \<Rightarrow> e) @ '').''
      else if wa_outcome w = ''notFound'' then link @ '' no longer exists.''
      else (case wa_turnId w of
              Some turn \<Rightarrow> if turn = [] then link @ '': '' @ wa_outcome w @ ''.''
                         else link @ '': '' @ wa_outcome w @ '' (Turn '' @ turn @ '').''
            | None \<Rightarrow> link @ '': '' @ wa_outcome w @ ''.''))"

definition notification :: "watch list \<Rightarrow> string" where
  "notification watches =
     ''[codexhost thread watch] Watched Threads stopped or the watch expired. This reports execution state only, '' @
     ''not that the work is correct or accepted. Inspect each Thread with '' @ [CHR 0x27] @
     ''codexhost thread read <thread>'' @ [CHR 0x27] @ '' before relying on it.'' @
     concat (List.map (\<lambda>w. [CHR 0x0A] @ ''- '' @ describe w) watches)"

subsection \<open>The service\<close>

datatype tick_phase =
    NoTick
  | Observing "nat list"
  | Delivering string string "nat list" "string list"

record watch_service =
  ws_watches :: "watch list"
  ws_next :: nat
  ws_timer :: bool
  ws_closed :: bool
  ws_phase :: tick_phase
  ws_sends :: "(string \<times> string \<times> nat list \<times> send_result) list"

definition new_service :: watch_service where
  "new_service = \<lparr>ws_watches = [], ws_next = 0, ws_timer = False, ws_closed = False, ws_phase = NoTick, ws_sends = []\<rparr>"

definition watch_schedule :: "watch_service \<Rightarrow> watch_service" where
  "watch_schedule s =
     (if ws_closed s \<or> ws_timer s then s
      else if \<not> list_ex (\<lambda>w. wa_state w \<noteq> Undeliverable) (ws_watches s) then s
      else s\<lparr>ws_timer := True\<rparr>)"

record watch_input =
  wi_threadId :: json
  wi_notifyThreadId :: json
  wi_timeoutMs :: json

fun blank_input :: "json \<Rightarrow> bool" where
  "blank_input (JStr t) = (\<not> nonblank t)"
| "blank_input _ = True"

text \<open>The checks of \<open>watch\<close> before it reads the two Threads.\<close>

definition watch_check :: "watch_input \<Rightarrow> watch_service \<Rightarrow> api_error option" where
  "watch_check i s =
     (if ws_closed s then Some (ControlError ''INTERNAL_ERROR'' ''Host Runtime is closing'' False False)
      else if blank_input (wi_threadId i)
      then Some (ControlError ''INVALID_ARGUMENT'' ''Thread identifier is required'' False False)
      else if blank_input (wi_notifyThreadId i)
      then Some (ControlError ''INVALID_ARGUMENT'' ''Notified Thread is required; pass --notify <thread>'' False False)
      else if wi_threadId i = wi_notifyThreadId i
      then Some (ControlError ''INVALID_ARGUMENT'' ''A Thread cannot watch itself'' False False)
      else if (case wi_timeoutMs i of JInt n \<Rightarrow> \<not> safe_int n \<or> n \<le> 0 | _ \<Rightarrow> True)
      then Some (ControlError ''INVALID_ARGUMENT'' ''timeoutMs must be a positive integer'' False False)
      else None)"

datatype watch_result = WatchingResult string int | AlreadyTerminal string

text \<open>The rest of \<open>watch\<close>, when both reads have returned.\<close>

definition watch_admit ::
  "int \<Rightarrow> string \<Rightarrow> string \<Rightarrow> int \<Rightarrow> string \<Rightarrow> watch_service \<Rightarrow> (api_error + watch_result) \<times> watch_service" where
  "watch_admit now threadId notifyThreadId timeoutMs status s =
     (if thread_stopped status then (Inr (AlreadyTerminal status), s)
      else
        (case find (\<lambda>w. wa_state w = Watching \<and> wa_threadId w = threadId \<and> wa_notifyThreadId w = notifyThreadId)
                (ws_watches s) of
           Some existing \<Rightarrow> (Inr (WatchingResult status (wa_timeoutMs existing)), s)
         | None \<Rightarrow>
             if ws_closed s then (Inl (ControlError ''INTERNAL_ERROR'' ''Host Runtime is closing'' False False), s)
             else
               (Inr (WatchingResult status timeoutMs),
                watch_schedule
                  (s\<lparr>ws_next := Suc (ws_next s),
                     ws_watches := ws_watches s @
                       [\<lparr>wa_id = ws_next s, wa_threadId = threadId, wa_notifyThreadId = notifyThreadId, wa_state = Watching,
                         wa_outcome = [], wa_turnId = None, wa_reason = None, wa_registeredAt = now, wa_timeoutMs = timeoutMs,
                         wa_deadline = now + timeoutMs, wa_deliveryDeadline = None, wa_unreadableSince = None,
                         wa_lastReadError = None\<rparr>]\<rparr>))))"

definition watch_close :: "watch_service \<Rightarrow> watch_service" where
  "watch_close s = s\<lparr>ws_closed := True, ws_timer := False, ws_watches := []\<rparr>"

text \<open>One row of the list of watches; empty texts are left out.\<close>

definition present :: "string option \<Rightarrow> string option" where
  "present t = (case t of Some [] \<Rightarrow> None | _ \<Rightarrow> t)"

record watch_entry =
  en_watchThreadId :: string
  en_watchNotifyThreadId :: string
  en_watchState :: watch_state
  en_watchOutcome :: "string option"
  en_watchTurnId :: "string option"
  en_watchReason :: "string option"
  en_watchRegisteredAt :: int

definition watch_entries :: "watch_service \<Rightarrow> watch_entry list" where
  "watch_entries s =
     List.map (\<lambda>w. \<lparr>en_watchThreadId = wa_threadId w, en_watchNotifyThreadId = wa_notifyThreadId w,
       en_watchState = wa_state w, en_watchOutcome = present (Some (wa_outcome w)), en_watchTurnId = present (wa_turnId w),
       en_watchReason = present (wa_reason w), en_watchRegisteredAt = wa_registeredAt w\<rparr>) (ws_watches s)"

subsection \<open>A tick\<close>

definition update_watch :: "nat \<Rightarrow> (watch \<Rightarrow> watch) \<Rightarrow> watch_service \<Rightarrow> watch_service" where
  "update_watch i f s = s\<lparr>ws_watches := List.map (\<lambda>w. if wa_id w = i then f w else w) (ws_watches s)\<rparr>"

text \<open>\<open>#observe\<close>: the watch with what the read left in it, and the outcome with its Turn when there is one.\<close>

definition observe :: "int \<Rightarrow> read_result \<Rightarrow> watch \<Rightarrow> watch \<times> (string \<times> string option) option" where
  "observe now r w =
     (let expired = (if wa_deadline w \<le> now then Some (''timedOut'', None) else None) in
      case r of
        ThreadRead status turn \<Rightarrow>
          if thread_stopped status then (w, Some (status, turn)) else (w\<lparr>wa_unreadableSince := None\<rparr>, expired)
      | ReadFailed e \<Rightarrow>
          if errorCode e = Some ''THREAD_NOT_FOUND'' then (w, Some (''notFound'', None))
          else
            let since = (case wa_unreadableSince w of None \<Rightarrow> now | Some t \<Rightarrow> t);
                w' = w\<lparr>wa_unreadableSince := Some since, wa_lastReadError := Some (error_message e)\<rparr>
            in if UNREADABLE_GRACE_MS \<le> now - since then (w', Some (''unreadable'', None)) else (w', expired))"

definition observed_watch :: "int \<Rightarrow> read_result \<Rightarrow> watch \<Rightarrow> watch" where
  "observed_watch now r w =
     (case observe now r w of
        (w', None) \<Rightarrow> w'
      | (w', Some (outcome, turn)) \<Rightarrow>
          w'\<lparr>wa_state := PendingDelivery, wa_outcome := outcome,
             wa_turnId := (case turn of Some t \<Rightarrow> if t = [] then wa_turnId w' else Some t | None \<Rightarrow> wa_turnId w'),
             wa_deliveryDeadline := Some (now + DELIVERY_WINDOW_MS)\<rparr>)"

definition end_tick :: "watch_service \<Rightarrow> watch_service" where
  "end_tick s = watch_schedule (s\<lparr>ws_phase := NoTick, ws_timer := False\<rparr>)"

definition pending_for :: "string \<Rightarrow> watch_service \<Rightarrow> watch list" where
  "pending_for n s = filter (\<lambda>w. wa_state w = PendingDelivery \<and> wa_notifyThreadId w = n) (ws_watches s)"

fun advance_deliver :: "string list \<Rightarrow> watch_service \<Rightarrow> watch_service" where
  "advance_deliver [] s = end_tick s"
| "advance_deliver (n # ns) s =
     (if ws_closed s then end_tick s
      else s\<lparr>ws_phase := Delivering n (notification (pending_for n s)) (List.map wa_id (pending_for n s)) ns\<rparr>)"

definition subscribers :: "watch_service \<Rightarrow> string list" where
  "subscribers s =
     rev (remdups (rev (List.map wa_notifyThreadId (filter (\<lambda>w. wa_state w = PendingDelivery) (ws_watches s)))))"

fun advance_observe :: "nat list \<Rightarrow> watch_service \<Rightarrow> watch_service" where
  "advance_observe [] s = advance_deliver (subscribers s) s"
| "advance_observe (i # is) s =
     (if ws_closed s then end_tick s
      else if list_ex (\<lambda>w. wa_id w = i \<and> wa_state w = Watching) (ws_watches s) then s\<lparr>ws_phase := Observing (i # is)\<rparr>
      else advance_observe is s)"

definition tick_begin :: "watch_service \<Rightarrow> watch_service" where
  "tick_begin s = advance_observe (List.map wa_id (ws_watches s)) s"

definition tick_observed :: "int \<Rightarrow> read_result \<Rightarrow> nat \<Rightarrow> nat list \<Rightarrow> watch_service \<Rightarrow> watch_service" where
  "tick_observed now r i is s = advance_observe is (update_watch i (observed_watch now r) s)"

definition remove_watches :: "nat list \<Rightarrow> watch_service \<Rightarrow> watch_service" where
  "remove_watches ids s = s\<lparr>ws_watches := filter (\<lambda>w. wa_id w \<notin> set ids) (ws_watches s)\<rparr>"

definition trimUndeliverable :: "watch_service \<Rightarrow> watch_service" where
  "trimUndeliverable s =
     (let undeliverable = filter (\<lambda>w. wa_state w = Undeliverable) (ws_watches s)
      in remove_watches (List.map wa_id (take (length undeliverable - MAX_UNDELIVERABLE_ENTRIES) undeliverable)) s)"

definition give_up :: "int \<Rightarrow> api_error \<Rightarrow> watch \<Rightarrow> watch" where
  "give_up now e w =
     (if deliveryFailure e \<noteq> Rejected \<or> (case wa_deliveryDeadline w of None \<Rightarrow> 0 | Some d \<Rightarrow> d) \<le> now
      then w\<lparr>wa_state := Undeliverable,
             wa_reason := Some (if deliveryFailure e = Unknown
               then ''Delivery outcome unknown; the notification may already have started a Turn, so it is not retried ('' @
                    error_message e @ '')''
               else error_message e)\<rparr>
      else w)"

text \<open>
  The rest of \<open>#deliver\<close>, when \<open>send\<close> has returned, and the next subscriber. The log of the calls of
  \<open>send\<close> holds the subscriber, the message, the watches it tells of and the result.
\<close>

definition tick_delivered :: "int \<Rightarrow> send_result \<Rightarrow> string \<Rightarrow> string \<Rightarrow> nat list \<Rightarrow> string list \<Rightarrow> watch_service \<Rightarrow> watch_service" where
  "tick_delivered now r n message ids ns s =
     (let s1 = s\<lparr>ws_sends := ws_sends s @ [(n, message, ids, r)]\<rparr> in
      advance_deliver ns
        (case r of
           MessageSent \<Rightarrow> remove_watches ids s1
         | SendFailed e \<Rightarrow>
             trimUndeliverable (s1\<lparr>ws_watches := List.map (\<lambda>w. if wa_id w \<in> set ids then give_up now e w else w) (ws_watches s1)\<rparr>)))"

subsection \<open>The machine\<close>

inductive watch_step :: "watch_service \<Rightarrow> watch_service \<Rightarrow> bool" where
  admitted: "\<not> blank_input (JStr t) \<Longrightarrow> \<not> blank_input (JStr n) \<Longrightarrow> t \<noteq> n \<Longrightarrow> 0 < timeoutMs \<Longrightarrow>
    watch_step s (snd (watch_admit now t n timeoutMs status s))"
| fired: "ws_timer s \<Longrightarrow> ws_phase s = NoTick \<Longrightarrow> watch_step s (tick_begin s)"
| observed: "ws_phase s = Observing (i # is) \<Longrightarrow> watch_step s (tick_observed now r i is s)"
| delivered: "ws_phase s = Delivering n message ids ns \<Longrightarrow> watch_step s (tick_delivered now r n message ids ns s)"
| closed: "watch_step s (watch_close s)"

inductive_cases watch_step_elim: "watch_step s s'"

abbreviation watch_steps :: "watch_service \<Rightarrow> watch_service \<Rightarrow> bool" where
  "watch_steps \<equiv> watch_step\<^sup>*\<^sup>*"

end
