(* ===== verification/DelegationWatchProps.thy ===== *)
theory DelegationWatchProps
  imports DelegationWatch
begin

text \<open>
  Properties of the watch service: a watch is notified once, its lists stay bounded, and a tick leaves no
  expired watch waiting.
\<close>

subsection \<open>The invariant\<close>

text \<open>A send may be repeated only when it certainly started no Turn.\<close>

definition may_retry :: "send_result \<Rightarrow> bool" where
  "may_retry r = (case r of MessageSent \<Rightarrow> False | SendFailed e \<Rightarrow> deliveryFailure e = Rejected)"

text \<open>What a call told of and may not be told again.\<close>

definition told :: "watch_service \<Rightarrow> nat set" where
  "told s = {i. \<exists>(n, message, ids, r) \<in> set (ws_sends s). i \<in> set ids \<and> \<not> may_retry r}"

fun phase_ok :: "tick_phase \<Rightarrow> watch_service \<Rightarrow> bool" where
  "phase_ok (Delivering n message ids ns) s =
     (set ids \<inter> told s = {} \<and> (\<forall>i \<in> set ids. i < ws_next s) \<and>
      (\<forall>w \<in> set (ws_watches s). wa_id w \<in> set ids \<longrightarrow> wa_state w = PendingDelivery \<and> wa_notifyThreadId w = n))"
| "phase_ok (Observing (i # is)) s = (\<forall>w \<in> set (ws_watches s). wa_id w = i \<longrightarrow> wa_state w = Watching)"
| "phase_ok _ s = True"

definition undeliverable_of :: "watch_service \<Rightarrow> watch list" where
  "undeliverable_of s = filter (\<lambda>w. wa_state w = Undeliverable) (ws_watches s)"

definition watch_list_ok :: "watch_service \<Rightarrow> bool" where
  "watch_list_ok s =
     (distinct (List.map wa_id (ws_watches s)) \<and> (\<forall>w \<in> set (ws_watches s). wa_id w < ws_next s) \<and>
      (\<forall>i \<in> told s. i < ws_next s) \<and>
      (\<forall>w \<in> set (ws_watches s). wa_id w \<in> told s \<longrightarrow> wa_state w = Undeliverable) \<and>
      distinct (List.map (\<lambda>w. (wa_threadId w, wa_notifyThreadId w)) (filter (\<lambda>w. wa_state w = Watching) (ws_watches s))))"

definition watches_ok :: "watch_service \<Rightarrow> bool" where
  "watches_ok s = (watch_list_ok s \<and> length (undeliverable_of s) \<le> MAX_UNDELIVERABLE_ENTRIES)"

definition sends_once :: "watch_service \<Rightarrow> bool" where
  "sends_once s =
     (\<forall>a b n message ids r n' message' ids' r'. a < b \<and> b < length (ws_sends s) \<and> ws_sends s ! a = (n, message, ids, r) \<and>
        ws_sends s ! b = (n', message', ids', r') \<and> set ids \<inter> set ids' \<noteq> {} \<longrightarrow> may_retry r)"

definition watch_inv :: "watch_service \<Rightarrow> bool" where
  "watch_inv s = (watches_ok s \<and> sends_once s \<and> phase_ok (ws_phase s) s)"

lemma told_frame: "ws_sends s' = ws_sends s \<Longrightarrow> told s' = told s"
  by (simp add: told_def)

lemma watches_ok_frame:
  "ws_watches s' = ws_watches s \<Longrightarrow> ws_next s' = ws_next s \<Longrightarrow> ws_sends s' = ws_sends s \<Longrightarrow> watches_ok s' = watches_ok s"
  by (simp add: watches_ok_def watch_list_ok_def undeliverable_of_def told_def)

lemma sends_once_frame: "ws_sends s' = ws_sends s \<Longrightarrow> sends_once s' = sends_once s"
  by (simp add: sends_once_def)

lemma schedule_fields [simp]:
  "ws_watches (watch_schedule s) = ws_watches s" "ws_next (watch_schedule s) = ws_next s"
  "ws_sends (watch_schedule s) = ws_sends s" "ws_phase (watch_schedule s) = ws_phase s" "ws_closed (watch_schedule s) = ws_closed s"
  by (simp_all add: watch_schedule_def)

lemma end_tick_fields [simp]:
  "ws_watches (end_tick s) = ws_watches s" "ws_next (end_tick s) = ws_next s" "ws_sends (end_tick s) = ws_sends s"
  "ws_phase (end_tick s) = NoTick" "ws_closed (end_tick s) = ws_closed s"
  by (simp_all add: end_tick_def)

lemma inv_end_tick: "watches_ok s \<Longrightarrow> sends_once s \<Longrightarrow> watch_inv (end_tick s)"
  by (simp add: watch_inv_def watches_ok_frame [of "end_tick s" s] sends_once_frame [of "end_tick s" s])

lemma inv_phase: "watches_ok s \<Longrightarrow> sends_once s \<Longrightarrow> phase_ok p s \<Longrightarrow> watch_inv (s\<lparr>ws_phase := p\<rparr>)"
proof -
  assume "watches_ok s" "sends_once s" "phase_ok p s"
  moreover have "told (s\<lparr>ws_phase := p\<rparr>) = told s" by (simp add: told_def)
  then have "phase_ok p (s\<lparr>ws_phase := p\<rparr>) = phase_ok p s" by (cases "(p, s)" rule: phase_ok.cases) simp_all
  ultimately show "watch_inv (s\<lparr>ws_phase := p\<rparr>)"
    by (simp add: watch_inv_def watches_ok_frame [of "s\<lparr>ws_phase := p\<rparr>" s] sends_once_frame [of "s\<lparr>ws_phase := p\<rparr>" s])
qed

lemma watch_list_okD:
  assumes "watch_list_ok s"
  shows "distinct (List.map wa_id (ws_watches s))" "w \<in> set (ws_watches s) \<Longrightarrow> wa_id w < ws_next s"
    "i \<in> told s \<Longrightarrow> i < ws_next s" "w \<in> set (ws_watches s) \<Longrightarrow> wa_id w \<in> told s \<Longrightarrow> wa_state w = Undeliverable"
    "distinct (List.map (\<lambda>w. (wa_threadId w, wa_notifyThreadId w)) (filter (\<lambda>w. wa_state w = Watching) (ws_watches s)))"
  using assms by (simp_all add: watch_list_ok_def)

lemma watches_okD: "watches_ok s \<Longrightarrow> watch_list_ok s" "watches_ok s \<Longrightarrow> length (undeliverable_of s) \<le> MAX_UNDELIVERABLE_ENTRIES"
  by (simp_all add: watches_ok_def)

lemma watch_by_id:
  "watches_ok s \<Longrightarrow> w \<in> set (ws_watches s) \<Longrightarrow> v \<in> set (ws_watches s) \<Longrightarrow> wa_id w = wa_id v \<Longrightarrow> w = v"
  using watch_list_okD(1) [OF watches_okD(1)] by (auto simp: distinct_map dest: inj_onD)

lemma inv_advance_deliver: "watches_ok s \<Longrightarrow> sends_once s \<Longrightarrow> watch_inv (advance_deliver ns s)"
proof (induction ns)
  case (Cons n ns)
  have pending: "w \<in> set (pending_for n s) \<longleftrightarrow> w \<in> set (ws_watches s) \<and> wa_state w = PendingDelivery \<and> wa_notifyThreadId w = n" for w
    by (auto simp: pending_for_def)
  have "w = v" if "w \<in> set (ws_watches s)" "v \<in> set (pending_for n s)" "wa_id w = wa_id v" for w v
    using watch_by_id [OF Cons.prems(1)] that pending by blast
  moreover have "wa_id v \<notin> told s" "wa_id v < ws_next s" if "v \<in> set (pending_for n s)" for v
    using watch_list_okD(2,4) [OF watches_okD(1) [OF Cons.prems(1)], of v] that pending by auto
  ultimately have "phase_ok (Delivering n (notification (pending_for n s)) (List.map wa_id (pending_for n s)) ns) s"
    using pending by fastforce
  from inv_phase [OF Cons.prems this] show ?case using inv_end_tick [OF Cons.prems] by simp
qed (simp add: inv_end_tick)

lemma inv_advance_observe: "watches_ok s \<Longrightarrow> sends_once s \<Longrightarrow> watch_inv (advance_observe is s)"
proof (induction "is")
  case (Cons i "is")
  have "phase_ok (Observing (i # is)) s" if "list_ex (\<lambda>w. wa_id w = i \<and> wa_state w = Watching) (ws_watches s)"
    using watch_by_id [OF Cons.prems(1)] that by (fastforce simp: list_ex_iff)
  then show ?case using Cons inv_end_tick inv_phase by simp
qed (simp add: inv_advance_deliver)

lemma watching_unique:
  assumes "distinct (List.map f (filter P xs))" "\<And>x. x \<in> set xs \<Longrightarrow> Q (g x) \<Longrightarrow> P x" "\<And>x. f (g x) = f x"
  shows "distinct (List.map f (filter Q (List.map g xs)))"
proof -
  have "List.map f (filter Q (List.map g xs)) = List.map f (filter (\<lambda>x. Q (g x)) xs)"
    using assms(3) by (simp add: filter_map comp_def)
  also have "filter (\<lambda>x. Q (g x)) xs = filter (\<lambda>x. Q (g x)) (filter P xs)"
    using assms(2) by (auto intro: filter_cong)
  finally show ?thesis using distinct_map_filter [OF assms(1)] by simp
qed

text \<open>A change of some watches that leaves their identity and makes none of them watching.\<close>

lemma watch_list_ok_map:
  assumes ok: "watch_list_ok s" and m: "ws_watches s' = List.map g (ws_watches s)" "ws_next s' = ws_next s"
    and t: "\<And>i. i \<in> told s' \<Longrightarrow> i < ws_next s"
    and id: "\<And>w. wa_id (g w) = wa_id w \<and> wa_threadId (g w) = wa_threadId w \<and> wa_notifyThreadId (g w) = wa_notifyThreadId w"
    and st: "\<And>w. wa_state (g w) = Watching \<Longrightarrow> wa_state w = Watching"
    and u: "\<And>w. w \<in> set (ws_watches s) \<Longrightarrow> wa_id w \<in> told s' \<Longrightarrow> wa_state (g w) = Undeliverable"
  shows "watch_list_ok s'"
proof -
  have "List.map wa_id (ws_watches s') = List.map wa_id (ws_watches s)" using m id by simp
  moreover have "distinct (List.map (\<lambda>w. (wa_threadId w, wa_notifyThreadId w)) (filter (\<lambda>w. wa_state w = Watching) (ws_watches s')))"
    unfolding m by (rule watching_unique [OF watch_list_okD(5) [OF ok]]) (use id st in auto)
  moreover have "wa_id w < ws_next s' \<and> (wa_id w \<in> told s' \<longrightarrow> wa_state w = Undeliverable)" if "w \<in> set (ws_watches s')" for w
    using that m id u watch_list_okD(2) [OF ok] by auto
  ultimately show ?thesis using m(2) t watch_list_okD(1) [OF ok] unfolding watch_list_ok_def by auto
qed

text \<open>Removing watches keeps everything; those that may not be told again may be removed instead of marked.\<close>

lemma watch_list_ok_remove:
  assumes ok: "watch_list_ok s" and w: "ws_watches s' = filter Q (ws_watches s)" "ws_next s' = ws_next s"
    and t: "\<And>i. i \<in> told s' \<Longrightarrow> i \<in> told s \<or> (i < ws_next s \<and> (\<forall>w \<in> set (ws_watches s). wa_id w = i \<longrightarrow> \<not> Q w))"
  shows "watch_list_ok s'"
proof -
  let ?P = "\<lambda>w. wa_state w = Watching" and ?f = "\<lambda>w. (wa_threadId w, wa_notifyThreadId w)"
  have "filter ?P (filter Q (ws_watches s)) = filter Q (filter ?P (ws_watches s))" by (simp add: filter_filter conj_commute)
  then have "distinct (List.map ?f (filter ?P (ws_watches s')))"
    using distinct_map_filter [OF watch_list_okD(5) [OF ok]] w by metis
  moreover have "wa_id w < ws_next s' \<and> (wa_id w \<in> told s' \<longrightarrow> wa_state w = Undeliverable)" if "w \<in> set (ws_watches s')" for w
    using that w t watch_list_okD(2,4) [OF ok, of w] by auto
  moreover have "i < ws_next s'" if "i \<in> told s'" for i using t [OF that] w(2) watch_list_okD(3) [OF ok] by auto
  ultimately show ?thesis
    using w(1) distinct_map_filter [OF watch_list_okD(1) [OF ok]] unfolding watch_list_ok_def by auto
qed

lemma undeliverable_map:
  "(\<And>w. w \<in> set ws \<Longrightarrow> wa_state (g w) = Undeliverable \<Longrightarrow> wa_state w = Undeliverable) \<Longrightarrow>
    length (filter (\<lambda>w. wa_state w = Undeliverable) (List.map g ws)) \<le> length (filter (\<lambda>w. wa_state w = Undeliverable) ws)"
  by (induction ws) (auto intro: le_SucI)

lemma trimmed_ok: "watch_list_ok s \<Longrightarrow> watches_ok (trimUndeliverable s)"
proof -
  assume ok: "watch_list_ok s"
  define us where "us = undeliverable_of s"
  define k where "k = length us - MAX_UNDELIVERABLE_ENTRIES"
  define gone where "gone = set (List.map wa_id (take k us))"
  have s': "trimUndeliverable s = s\<lparr>ws_watches := filter (\<lambda>w. wa_id w \<notin> gone) (ws_watches s)\<rparr>"
    by (simp add: trimUndeliverable_def remove_watches_def gone_def k_def us_def undeliverable_of_def Let_def)
  have "watch_list_ok (trimUndeliverable s)"
    by (rule watch_list_ok_remove [OF ok]) (simp_all add: s' told_def)
  moreover have "undeliverable_of (trimUndeliverable s) = drop k us"
  proof -
    have "undeliverable_of (trimUndeliverable s) = filter (\<lambda>w. wa_id w \<notin> gone) us"
      by (simp add: s' undeliverable_of_def us_def filter_filter conj_commute)
    moreover have d: "distinct (List.map wa_id (take k us @ drop k us))"
      using distinct_map_filter [OF watch_list_okD(1) [OF ok]] by (simp add: us_def undeliverable_of_def)
    have "filter (\<lambda>w. wa_id w \<notin> gone) (take k us @ drop k us) = drop k us"
      using d unfolding gone_def by (simp only: filter_append map_append distinct_append set_map)
        (auto simp: filter_empty_conv filter_id_conv)
    ultimately show ?thesis by simp
  qed
  ultimately show ?thesis by (simp add: watches_ok_def k_def)
qed

subsection \<open>The steps keep it\<close>

lemma inv_admit: "watch_inv s \<Longrightarrow> watch_inv (snd (watch_admit now t n timeoutMs status s))"
proof -
  assume inv: "watch_inv s"
  let ?w = "\<lparr>wa_id = ws_next s, wa_threadId = t, wa_notifyThreadId = n, wa_state = Watching,
    wa_outcome = [], wa_turnId = None, wa_reason = None, wa_registeredAt = now, wa_timeoutMs = timeoutMs,
    wa_deadline = now + timeoutMs, wa_deliveryDeadline = None, wa_unreadableSince = None, wa_lastReadError = None\<rparr>"
  let ?s = "s\<lparr>ws_next := Suc (ws_next s), ws_watches := ws_watches s @ [?w]\<rparr>"
  have ok: "watch_list_ok s" "length (undeliverable_of s) \<le> MAX_UNDELIVERABLE_ENTRIES" using inv by (auto simp: watch_inv_def watches_ok_def)
  have told: "told ?s = told s" by (simp add: told_def)
  have "watch_inv (watch_schedule ?s)"
    if new: "find (\<lambda>w. wa_state w = Watching \<and> wa_threadId w = t \<and> wa_notifyThreadId w = n) (ws_watches s) = None"
  proof -
    have fresh: "ws_next s \<notin> told s" "ws_next s \<notin> wa_id ` set (ws_watches s)"
      using watch_list_okD(2,3) [OF ok(1)] by fastforce+
    have "watch_list_ok ?s"
      using watch_list_okD [OF ok(1)] fresh new told
      by (auto simp: watch_list_ok_def find_None_iff less_Suc_eq)
    moreover have "length (undeliverable_of ?s) \<le> MAX_UNDELIVERABLE_ENTRIES" using ok(2) by (simp add: undeliverable_of_def)
    moreover have "phase_ok (ws_phase s) ?s"
      using inv fresh told unfolding watch_inv_def
      by (cases "(ws_phase s, s)" rule: phase_ok.cases) (auto simp: less_Suc_eq)
    ultimately have "watch_inv ?s"
      using inv sends_once_frame [of ?s s] by (simp add: watch_inv_def watches_ok_def)
    then show ?thesis
      unfolding watch_inv_def
      by (cases "(ws_phase ?s, ?s)" rule: phase_ok.cases)
         (simp_all add: watches_ok_frame [of "watch_schedule ?s" ?s] sends_once_frame [of "watch_schedule ?s" ?s] told_frame [of "watch_schedule ?s" ?s])
  qed
  then show ?thesis using inv by (auto simp: watch_admit_def split: option.split)
qed

lemma inv_close: "watch_inv s \<Longrightarrow> watch_inv (watch_close s)"
proof -
  assume inv: "watch_inv s"
  have told: "told (watch_close s) = told s" by (simp add: told_def watch_close_def)
  have "watches_ok (watch_close s)"
    using inv told by (simp add: watch_inv_def watches_ok_def watch_list_ok_def undeliverable_of_def watch_close_def)
  moreover have "phase_ok (ws_phase s) (watch_close s)"
    using inv told unfolding watch_inv_def
    by (cases "(ws_phase s, s)" rule: phase_ok.cases) (auto simp: watch_close_def)
  ultimately show ?thesis
    using inv sends_once_frame [of "watch_close s" s] by (simp add: watch_inv_def watch_close_def)
qed

lemma observed_watch_fields:
  "wa_id (observed_watch now r w) = wa_id w" "wa_threadId (observed_watch now r w) = wa_threadId w"
  "wa_notifyThreadId (observed_watch now r w) = wa_notifyThreadId w"
  "wa_state (observed_watch now r w) = wa_state w \<or> wa_state (observed_watch now r w) = PendingDelivery"
  by (auto simp: observed_watch_def observe_def Let_def split: read_result.split option.split prod.split)

lemma inv_observed: "watch_inv s \<Longrightarrow> ws_phase s = Observing (i # is) \<Longrightarrow> watch_inv (tick_observed now r i is s)"
proof -
  assume inv: "watch_inv s" and p: "ws_phase s = Observing (i # is)"
  let ?g = "\<lambda>w. if wa_id w = i then observed_watch now r w else w"
  let ?s = "update_watch i (observed_watch now r) s"
  have ok: "watch_list_ok s" "length (undeliverable_of s) \<le> MAX_UNDELIVERABLE_ENTRIES" using inv by (auto simp: watch_inv_def watches_ok_def)
  have watching: "wa_state w = Watching" if "w \<in> set (ws_watches s)" "wa_id w = i" for w
    using inv p that by (simp add: watch_inv_def)
  have told: "told ?s = told s" by (simp add: told_def update_watch_def)
  have "watch_list_ok ?s"
  proof (rule watch_list_ok_map [OF ok(1), of ?s ?g])
    show "wa_state (?g w) = Undeliverable" if "w \<in> set (ws_watches s)" "wa_id w \<in> told ?s" for w
      using that told watch_list_okD(4) [OF ok(1), of w] watching [of w] by auto
    show "wa_state w = Watching" if "wa_state (?g w) = Watching" for w
      using that observed_watch_fields(4) [of now r w] by (auto split: if_splits)
  qed (use told watch_list_okD(3) [OF ok(1)] in \<open>auto simp: update_watch_def observed_watch_fields\<close>)
  moreover have "length (undeliverable_of ?s) \<le> MAX_UNDELIVERABLE_ENTRIES"
  proof -
    have "wa_state w = Undeliverable" if "wa_state (?g w) = Undeliverable" for w
      using that observed_watch_fields(4) [of now r w] by (auto split: if_splits)
    from undeliverable_map [of "ws_watches s" ?g, OF this] show ?thesis
      using ok(2) by (simp add: undeliverable_of_def update_watch_def)
  qed
  moreover have "sends_once ?s" using inv by (simp add: watch_inv_def sends_once_def update_watch_def)
  ultimately show ?thesis by (simp add: tick_observed_def inv_advance_observe watches_ok_def)
qed

lemma told_append:
  "ws_sends s' = ws_sends s @ [(n, message, ids, r)] \<Longrightarrow> told s' = told s \<union> (if may_retry r then {} else set ids)"
  by (auto simp: told_def)

lemma sends_once_append:
  assumes "sends_once s" "ws_sends s' = ws_sends s @ [(n, message, ids, r)]" "set ids \<inter> told s = {}"
  shows "sends_once s'"
  unfolding sends_once_def
proof (intro allI impI)
  fix a b n1 m1 i1 r1 n2 m2 i2 r2
  assume h: "a < b \<and> b < length (ws_sends s') \<and> ws_sends s' ! a = (n1, m1, i1, r1) \<and> ws_sends s' ! b = (n2, m2, i2, r2) \<and>
    set i1 \<inter> set i2 \<noteq> {}"
  show "may_retry r1"
  proof (cases "b < length (ws_sends s)")
    case True
    then show ?thesis
      using h assms(2) assms(1) [unfolded sends_once_def, rule_format, of a b n1 m1 i1 r1 n2 m2 i2 r2] by (auto simp: nth_append)
  next
    case False
    then have "ws_sends s ! a = (n1, m1, i1, r1)" "i2 = ids" "a < length (ws_sends s)"
      using h assms(2) by (auto simp: nth_append less_Suc_eq)
    then have "(n1, m1, i1, r1) \<in> set (ws_sends s)" using nth_mem by metis
    then show ?thesis using h \<open>i2 = ids\<close> assms(3) unfolding told_def by blast
  qed
qed

lemma give_up_fields:
  "wa_id (give_up now e w) = wa_id w" "wa_threadId (give_up now e w) = wa_threadId w"
  "wa_notifyThreadId (give_up now e w) = wa_notifyThreadId w"
  "wa_state (give_up now e w) = wa_state w \<or> wa_state (give_up now e w) = Undeliverable"
  "deliveryFailure e \<noteq> Rejected \<Longrightarrow> wa_state (give_up now e w) = Undeliverable"
  by (simp_all add: give_up_def)

lemma inv_delivered:
  assumes inv: "watch_inv s" and p: "ws_phase s = Delivering n message ids ns"
  shows "watch_inv (tick_delivered now r n message ids ns s)"
proof -
  let ?s1 = "s\<lparr>ws_sends := ws_sends s @ [(n, message, ids, r)]\<rparr>"
  have ok: "watch_list_ok s" and few: "length (undeliverable_of s) \<le> MAX_UNDELIVERABLE_ENTRIES"
    and ids: "set ids \<inter> told s = {}" "\<And>i. i \<in> set ids \<Longrightarrow> i < ws_next s" and once: "sends_once s"
    using inv p by (auto simp: watch_inv_def watches_ok_def)
  have sends: "sends_once ?s1" by (rule sends_once_append [OF once _ ids(1)]) simp
  have told1: "told s' = told s \<union> (if may_retry r then {} else set ids)" if "ws_sends s' = ws_sends ?s1" for s'
    by (rule told_append) (simp add: that)
  show ?thesis
  proof (cases r)
    case MessageSent
    let ?s2 = "remove_watches ids ?s1"
    have "watch_list_ok ?s2"
      by (rule watch_list_ok_remove [OF ok, of _ "\<lambda>w. wa_id w \<notin> set ids"])
         (use told1 [of ?s2] ids(2) in \<open>auto simp: remove_watches_def split: if_splits\<close>)
    moreover have "undeliverable_of ?s2 = filter (\<lambda>w. wa_id w \<notin> set ids) (undeliverable_of s)"
      by (simp add: undeliverable_of_def remove_watches_def filter_filter conj_commute)
    then have "length (undeliverable_of ?s2) \<le> length (undeliverable_of s)" by simp
    moreover have "sends_once ?s2" using sends sends_once_frame [of ?s2 ?s1] by (simp add: remove_watches_def)
    ultimately show ?thesis
      using few MessageSent by (simp add: tick_delivered_def inv_advance_deliver watches_ok_def)
  next
    case (SendFailed e)
    let ?g = "\<lambda>w. if wa_id w \<in> set ids then give_up now e w else w"
    let ?s2 = "?s1\<lparr>ws_watches := List.map ?g (ws_watches s)\<rparr>"
    have "watch_list_ok ?s2"
    proof (rule watch_list_ok_map [OF ok, of ?s2 ?g])
      show "wa_state w = Watching" if "wa_state (?g w) = Watching" for w
        using that give_up_fields(4) [of now e w] by (auto split: if_splits)
      show "wa_state (?g w) = Undeliverable" if "w \<in> set (ws_watches s)" "wa_id w \<in> told ?s2" for w
        using that told1 [of ?s2] watch_list_okD(4) [OF ok, of w] give_up_fields(4) [of now e w] give_up_fields(5) [of e now w] ids(1) SendFailed
        by (auto simp: may_retry_def split: if_splits)
      show "i < ws_next s" if "i \<in> told ?s2" for i
        using that told1 [of ?s2] watch_list_okD(3) [OF ok] ids(2) by (auto split: if_splits)
    qed (simp_all add: give_up_fields)
    then have "watches_ok (trimUndeliverable ?s2)" by (rule trimmed_ok)
    moreover have "sends_once (trimUndeliverable ?s2)"
      using sends sends_once_frame [of "trimUndeliverable ?s2" ?s1] by (simp add: trimUndeliverable_def remove_watches_def Let_def)
    ultimately show ?thesis using SendFailed by (simp add: tick_delivered_def inv_advance_deliver)
  qed
qed

lemma inv_watch_step: "watch_step s s' \<Longrightarrow> watch_inv s \<Longrightarrow> watch_inv s'"
proof (induction rule: watch_step.induct)
  case (fired s)
  then show ?case unfolding tick_begin_def by (intro inv_advance_observe) (simp_all add: watch_inv_def)
qed (simp_all add: inv_admit inv_observed inv_delivered inv_close)

lemma inv_new: "watch_inv new_service"
  by (simp add: watch_inv_def watches_ok_def watch_list_ok_def sends_once_def told_def undeliverable_of_def new_service_def)

lemma inv_watch_steps: "watch_steps new_service s \<Longrightarrow> watch_inv s"
  by (induction rule: rtranclp_induct) (auto intro: inv_new inv_watch_step)


subsection \<open>A whole tick\<close>

text \<open>The environment answers every read and every send of one tick at the time \<open>now\<close>.\<close>

fun run_observe :: "(nat \<Rightarrow> read_result) \<Rightarrow> int \<Rightarrow> nat list \<Rightarrow> watch_service \<Rightarrow> watch_service" where
  "run_observe reads now [] s = s"
| "run_observe reads now (i # is) s =
     run_observe reads now is (if ws_phase s = Observing (i # is) then tick_observed now (reads i) i is s else s)"

fun run_deliver :: "(string \<Rightarrow> send_result) \<Rightarrow> int \<Rightarrow> string list \<Rightarrow> watch_service \<Rightarrow> watch_service" where
  "run_deliver sends now [] s = s"
| "run_deliver sends now (n # ns) s =
     (case ws_phase s of
        Delivering n' message ids ns' \<Rightarrow> run_deliver sends now ns (tick_delivered now (sends n') n' message ids ns' s)
      | _ \<Rightarrow> s)"

definition run_tick :: "(nat \<Rightarrow> read_result) \<Rightarrow> (string \<Rightarrow> send_result) \<Rightarrow> int \<Rightarrow> watch_service \<Rightarrow> watch_service" where
  "run_tick reads sends now s =
     (let s1 = run_observe reads now (List.map wa_id (ws_watches s)) (tick_begin s)
      in case ws_phase s1 of Delivering n _ _ ns \<Rightarrow> run_deliver sends now (n # ns) s1 | _ \<Rightarrow> s1)"

lemma run_observe_steps: "watch_steps s (run_observe reads now is s)"
proof (induction "is" arbitrary: s)
  case (Cons i "is")
  show ?case
  proof (cases "ws_phase s = Observing (i # is)")
    case True
    show ?thesis
      using converse_rtranclp_into_rtranclp [of watch_step, OF watch_step.observed [OF True, where now = now and r = "reads i"] Cons.IH] True
      by simp
  qed (use Cons.IH in simp)
qed simp

lemma run_deliver_steps: "watch_steps s (run_deliver sends now ns s)"
proof (induction ns arbitrary: s)
  case (Cons n ns)
  show ?case
  proof (cases "ws_phase s")
    case (Delivering n' message ids ns')
    show ?thesis
      using converse_rtranclp_into_rtranclp [of watch_step, OF watch_step.delivered [OF Delivering, where now = now and r = "sends n'"] Cons.IH]
        Delivering by simp
  qed simp_all
qed simp

lemma advance_deliver_phase: "ws_phase (advance_deliver ns s) \<noteq> Observing xs"
  by (cases ns) simp_all

lemma advance_observe_phase: "ws_phase (advance_observe is s) = Observing xs \<Longrightarrow> length xs \<le> length is"
  by (induction "is") (auto simp: advance_deliver_phase split: if_splits)

definition all_observed :: "(nat \<Rightarrow> read_result) \<Rightarrow> int \<Rightarrow> nat list \<Rightarrow> watch list \<Rightarrow> watch list" where
  "all_observed reads now is ws =
     List.map (\<lambda>w. if wa_id w \<in> set is \<and> wa_state w = Watching then observed_watch now (reads (wa_id w)) w else w) ws"

lemma all_observed_skip:
  "\<not> list_ex (\<lambda>w. wa_id w = i \<and> wa_state w = Watching) ws \<Longrightarrow> all_observed reads now (i # is) ws = all_observed reads now is ws"
  by (auto simp: all_observed_def list_ex_iff)

lemma all_observed_step:
  assumes "list_ex (\<lambda>w. wa_id w = i \<and> wa_state w = Watching) ws" "distinct (List.map wa_id ws)" "i \<notin> set is"
  shows "all_observed reads now is (List.map (\<lambda>w. if wa_id w = i then observed_watch now (reads i) w else w) ws) =
    all_observed reads now (i # is) ws"
proof -
  have "wa_state w = Watching" if "w \<in> set ws" "wa_id w = i" for w
    using assms(1,2) that by (auto simp: list_ex_iff distinct_map dest: inj_onD)
  then show ?thesis using assms(3) by (auto simp: all_observed_def observed_watch_fields)
qed

lemma observe_all:
  "\<not> ws_closed s \<Longrightarrow> distinct is \<Longrightarrow> distinct (List.map wa_id (ws_watches s)) \<Longrightarrow>
    \<exists>s1. run_observe reads now is (advance_observe is s) = advance_deliver (subscribers s1) s1 \<and> \<not> ws_closed s1 \<and>
      ws_watches s1 = all_observed reads now is (ws_watches s)"
proof (induction "is" arbitrary: s)
  case Nil
  then show ?case by (intro exI [of _ s]) (simp add: all_observed_def)
next
  case (Cons i "is")
  show ?case
  proof (cases "list_ex (\<lambda>w. wa_id w = i \<and> wa_state w = Watching) (ws_watches s)")
    case False
    then have "advance_observe (i # is) s = advance_observe is s" using Cons.prems by simp
    moreover have "ws_phase (advance_observe is s) \<noteq> Observing (i # is)" using advance_observe_phase [of "is" s "i # is"] by auto
    ultimately have "run_observe reads now (i # is) (advance_observe (i # is) s) = run_observe reads now is (advance_observe is s)"
      by (simp del: advance_observe.simps)
    then show ?thesis using Cons.IH [of s] Cons.prems all_observed_skip [OF False] by simp
  next
    case True
    let ?s = "update_watch i (observed_watch now (reads i)) (s\<lparr>ws_phase := Observing (i # is)\<rparr>)"
    have run: "run_observe reads now (i # is) (advance_observe (i # is) s) = run_observe reads now is (advance_observe is ?s)"
      using True Cons.prems by (simp add: tick_observed_def)
    have "\<not> ws_closed ?s" "distinct (List.map wa_id (ws_watches ?s))"
      "all_observed reads now is (ws_watches ?s) = all_observed reads now (i # is) (ws_watches s)"
      using Cons.prems all_observed_step [OF True Cons.prems(3)] by (simp_all add: update_watch_def observed_watch_fields comp_def if_distrib cong: if_cong)
    then show ?thesis using Cons.IH [of ?s] Cons.prems(2) unfolding run by simp
  qed
qed

lemma delivered_watching:
  assumes "w \<in> set (ws_watches (tick_delivered now r n message ids ns s))" "wa_state w = Watching"
  shows "w \<in> set (ws_watches s)"
proof -
  have keep: "ws_watches (advance_deliver ns s') = ws_watches s'" for s' by (cases ns) simp_all
  have same: "give_up now e v = v" if "wa_state (give_up now e v) = Watching" for e v
    using that by (simp add: give_up_def split: if_splits)
  show ?thesis
  proof (cases r)
    case MessageSent
    then show ?thesis using assms(1) by (simp add: tick_delivered_def keep remove_watches_def Let_def)
  next
    case (SendFailed e)
    then have "w \<in> set (List.map (\<lambda>w. if wa_id w \<in> set ids then give_up now e w else w) (ws_watches s))"
      using assms(1) by (auto simp: tick_delivered_def keep remove_watches_def trimUndeliverable_def Let_def)
    then obtain v where v: "v \<in> set (ws_watches s)" "w = (if wa_id v \<in> set ids then give_up now e v else v)" by auto
    then have "w = v" using assms(2) same [of e v] by (simp split: if_splits)
    then show ?thesis using v(1) by simp
  qed
qed

lemma run_deliver_ends:
  "\<exists>s'. run_deliver sends now ns (advance_deliver ns s) = s' \<and> ws_phase s' = NoTick \<and>
    (\<forall>w \<in> set (ws_watches s'). wa_state w = Watching \<longrightarrow> w \<in> set (ws_watches s))"
proof (induction ns arbitrary: s)
  case (Cons n ns)
  show ?case
  proof (cases "ws_closed s")
    case False
    let ?s = "s\<lparr>ws_phase := Delivering n (notification (pending_for n s)) (List.map wa_id (pending_for n s)) ns\<rparr>"
    let ?t = "tick_delivered now (sends n) n (notification (pending_for n s)) (List.map wa_id (pending_for n s)) ns ?s"
    obtain s1 where t: "?t = advance_deliver ns s1" by (simp add: tick_delivered_def Let_def)
    have keep: "ws_watches (advance_deliver ns s1) = ws_watches s1" by (cases ns) simp_all
    have "run_deliver sends now (n # ns) (advance_deliver (n # ns) s) = run_deliver sends now ns (advance_deliver ns s1)"
      using False t by simp
    moreover obtain s' where "run_deliver sends now ns (advance_deliver ns s1) = s'" "ws_phase s' = NoTick"
      "\<And>w. w \<in> set (ws_watches s') \<Longrightarrow> wa_state w = Watching \<Longrightarrow> w \<in> set (ws_watches s1)"
      using Cons.IH [of s1] by blast
    moreover have "w \<in> set (ws_watches s)" if "w \<in> set (ws_watches s1)" "wa_state w = Watching" for w
    proof -
      have "w \<in> set (ws_watches ?t)" using t keep that(1) by simp
      from delivered_watching [OF this that(2)] show ?thesis by simp
    qed
    ultimately show ?thesis by auto
  qed simp
qed simp

lemma observed_still_watching:
  "wa_state (observed_watch now r w) = Watching \<Longrightarrow> now < wa_deadline (observed_watch now r w) \<and> snd (observe now r w) = None"
  by (auto simp: observed_watch_def observe_def Let_def split: read_result.splits option.splits prod.splits if_splits)

text \<open>
  No watch waits for ever: when the timer fires and the reads and sends of the tick are answered by the
  time \<open>now\<close>, whatever the answers, the tick ends, and every watch that is then still watching has its
  deadline ahead and saw its Thread neither stopped nor gone nor unreadable for too long.
\<close>

theorem watch_tick_expires:
  assumes "watch_steps new_service s" "ws_timer s" "ws_phase s = NoTick" "\<not> ws_closed s"
  shows "watch_steps s (run_tick reads sends now s) \<and> ws_phase (run_tick reads sends now s) = NoTick \<and>
    (\<forall>w \<in> set (ws_watches (run_tick reads sends now s)). wa_state w = Watching \<longrightarrow>
      now < wa_deadline w \<and>
      (\<exists>v \<in> set (ws_watches s). w = observed_watch now (reads (wa_id v)) v \<and> snd (observe now (reads (wa_id v)) v) = None))"
proof -
  let ?ids = "List.map wa_id (ws_watches s)"
  have d: "distinct ?ids" using inv_watch_steps [OF assms(1)] watch_list_okD(1) by (auto simp: watch_inv_def watches_ok_def)
  obtain s1 where s1: "run_observe reads now ?ids (tick_begin s) = advance_deliver (subscribers s1) s1"
    "\<not> ws_closed s1" "ws_watches s1 = all_observed reads now ?ids (ws_watches s)"
    using observe_all [OF assms(4) d d, of reads now] by (auto simp: tick_begin_def)
  have run: "run_tick reads sends now s = run_deliver sends now (subscribers s1) (advance_deliver (subscribers s1) s1)"
    using s1(1,2) by (cases "subscribers s1") (simp_all add: run_tick_def)
  have "watch_steps s (run_tick reads sends now s)"
  proof -
    have "watch_steps s (tick_begin s)" using watch_step.fired [OF assms(2,3)] by blast
    moreover have "watch_steps (tick_begin s) (advance_deliver (subscribers s1) s1)" using run_observe_steps s1(1) by metis
    moreover have "watch_steps (advance_deliver (subscribers s1) s1) (run_tick reads sends now s)"
      unfolding run by (rule run_deliver_steps)
    ultimately show ?thesis by simp
  qed
  moreover have "now < wa_deadline w \<and>
      (\<exists>v \<in> set (ws_watches s). w = observed_watch now (reads (wa_id v)) v \<and> snd (observe now (reads (wa_id v)) v) = None)"
    if w: "w \<in> set (ws_watches (run_tick reads sends now s))" and st: "wa_state w = Watching" for w
  proof -
    have "w \<in> set (all_observed reads now ?ids (ws_watches s))"
      using run_deliver_ends [of sends now "subscribers s1" s1] w st run s1(3) by metis
    then obtain v where v: "v \<in> set (ws_watches s)" "w = observed_watch now (reads (wa_id v)) v"
      using st by (auto simp: all_observed_def split: if_splits)
    then show ?thesis using observed_still_watching [of now "reads (wa_id v)" v] st by auto
  qed
  ultimately show ?thesis using run_deliver_ends [of sends now "subscribers s1" s1] run by metis
qed

subsection \<open>A concrete run\<close>

definition watching_service :: watch_service where
  "watching_service = snd (watch_admit 0 ''t'' ''n'' 1000 ''running'' new_service)"

lemma watching_reachable: "watch_steps new_service watching_service"
  unfolding watching_service_def
  by (rule r_into_rtranclp [of watch_step]) (rule watch_step.admitted; code_simp)

lemma watching_state: "ws_timer watching_service" "ws_phase watching_service = NoTick" "\<not> ws_closed watching_service"
  by (simp_all add: watching_service_def watch_admit_def new_service_def watch_schedule_def thread_stopped_def)

definition refused_tick :: watch_service where
  "refused_tick = run_tick (\<lambda>_. ThreadRead ''completed'' (Some ''turn'')) (\<lambda>_. SendFailed (ControlError ''THREAD_BUSY'' ''busy'' False False)) 500
     watching_service"

theorem watch_tick_expires_witness:
  "ws_phase (run_tick (\<lambda>_. ReadFailed (OtherError ''x'')) (\<lambda>_. MessageSent) 2000 watching_service) = NoTick \<and>
   ws_watches (run_tick (\<lambda>_. ReadFailed (OtherError ''x'')) (\<lambda>_. MessageSent) 2000 watching_service) = []"
proof -
  have "ws_watches (run_tick (\<lambda>_. ReadFailed (OtherError ''x'')) (\<lambda>_. MessageSent) 2000 watching_service) = []" by code_simp
  then show ?thesis using watch_tick_expires [OF watching_reachable watching_state] by blast
qed


end
