(* ===== verification/ThreadRepository.thy ===== *)
theory ThreadRepository
  imports TurnMappings ThreadListProps
begin

text \<open>
  The repository of External Threads over the mapping store:
  \<open>packages/host-runtime/src/external-thread-repository.ts\<close>. Of a snapshot of native history only the
  references of its Turns matter here. The projection of a snapshot into Desktop Turns follows what these
  definitions return and is not part of them. \<open>uuid i\<close> is the fresh identifier the Turn at position \<open>i\<close>
  would get. Mappings are compared as values, where the code compares their JSON texts; the key of a native
  Turn leaves out the format version, which is 1 in every reference.
\<close>

record snapshot_turn =
  sp_nativeTurnRef :: native_turn_ref
  sp_checkpoint :: "native_checkpoint_ref option"

definition repository_find :: "store \<Rightarrow> string \<Rightarrow> thread_record option" where
  "repository_find s threadId = (if nonblank threadId then js_get (st_records s) threadId else None)"

text \<open>The check every commit makes of a Turn: its references name the Harness and the native Session.\<close>

definition turn_belongs :: "harness_id \<Rightarrow> string \<Rightarrow> snapshot_turn \<Rightarrow> bool" where
  "turn_belongs harnessId sessionId turn =
     (nt_harnessId (sp_nativeTurnRef turn) = harnessId \<and> nt_nativeSessionId (sp_nativeTurnRef turn) = sessionId \<and>
      (case sp_checkpoint turn of None \<Rightarrow> True
       | Some c \<Rightarrow> nc_harnessId c = harnessId \<and> nc_nativeSessionId c = sessionId))"

definition mapping_for :: "host_turn_id \<Rightarrow> snapshot_turn \<Rightarrow> turn_mapping" where
  "mapping_for hostTurnId turn =
     \<lparr>tm_hostTurnId = hostTurnId, tm_nativeTurnRef = sp_nativeTurnRef turn, tm_nativeCheckpointRef = sp_checkpoint turn\<rparr>"

subsection \<open>Publishing\<close>

text \<open>\<open>#notifySessionPublished\<close>: whether the listener is told.\<close>

definition notifies_published :: "bool \<Rightarrow> thread_record \<Rightarrow> bool" where
  "notifies_published listening r =
     (listening \<and> \<not> tr_ephemeral r \<and> tr_subagent r = None \<and>
      map_option ns_nativeSessionId (tr_importSourceRef r) \<noteq> map_option ns_nativeSessionId (tr_nativeSessionRef r))"

definition commitNative ::
  "bool \<Rightarrow> timestamp \<Rightarrow> host_thread_id \<Rightarrow> native_session_ref \<Rightarrow> turn_mapping list \<Rightarrow> (thread_record \<times> bool) eff" where
  "commitNative listening now hid ref mappings =
     thenE (if listening then getThread hid else retE None) (\<lambda>previous.
     thenE (commitReady now hid ref mappings) (\<lambda>r.
       retE (r, (case previous of None \<Rightarrow> False | Some p \<Rightarrow> tr_state p = Creating) \<and>
                (tr_importSourceRef r \<noteq> None \<or> tr_forkSource r \<noteq> None) \<and> notifies_published listening r)))"

definition updates_preview :: "thread_record \<Rightarrow> string option \<Rightarrow> bool \<Rightarrow> bool" where
  "updates_preview r preview clearMissing = (\<not> (preview = tr_preview r \<or> (preview = None \<and> \<not> clearMissing)))"

definition persistTurn ::
  "bool \<Rightarrow> timestamp \<Rightarrow> thread_record \<Rightarrow> host_turn_id \<Rightarrow> snapshot_turn \<Rightarrow> (string + thread_record \<times> bool) eff" where
  "persistTurn listening now r hostTurnId turn =
     (case tr_nativeSessionRef r of
        Some session \<Rightarrow>
          if tr_state r \<noteq> Ready \<or> \<not> turn_belongs (tr_harnessId r) (ns_nativeSessionId session) turn
          then retE (Inl ''Live Turn identity does not belong to the stored Thread'')
          else
            thenE (upsertTurnMappings now (tr_hostThreadId r) [mapping_for hostTurnId turn]) (\<lambda>updated.
              retE (Inr (updated, tr_importSourceRef r = None \<and> tr_forkSource r = None \<and> tr_turnMappings r = [] \<and>
                                  notifies_published listening updated)))
      | None \<Rightarrow> retE (Inl ''Live Turn identity does not belong to the stored Thread''))"

subsection \<open>Commits of a snapshot\<close>

definition fresh_mappings :: "(nat \<Rightarrow> string) \<Rightarrow> snapshot_turn list \<Rightarrow> turn_mapping list" where
  "fresh_mappings uuid turns = List.map (\<lambda>(i, turn). mapping_for (uuid i) turn) (enumerate 0 turns)"

definition commitDerivedSnapshot ::
  "bool \<Rightarrow> timestamp \<Rightarrow> (nat \<Rightarrow> string) \<Rightarrow> thread_record \<Rightarrow> native_session_ref \<Rightarrow> snapshot_turn list \<Rightarrow>
   (string + thread_record \<times> bool) eff" where
  "commitDerivedSnapshot listening now uuid r ref turns =
     (if tr_state r \<noteq> Creating \<or> tr_turnMappings r \<noteq> []
      then retE (Inl ''Derived Thread must be provisional before Snapshot commit'')
      else if \<not> list_all (turn_belongs (tr_harnessId r) (ns_nativeSessionId ref)) turns
      then retE (Inl ''Derived Snapshot identity does not belong to its Native Session'')
      else thenE (commitNative listening now (tr_hostThreadId r) ref (fresh_mappings uuid turns)) (\<lambda>x. retE (Inr x)))"

text \<open>The Turns of a rollback keep the Host Turns of the positions they had.\<close>

definition retained_mappings ::
  "harness_id \<Rightarrow> native_session_ref \<Rightarrow> turn_mapping list \<Rightarrow> snapshot_turn list \<Rightarrow> turn_mapping list option" where
  "retained_mappings harnessId ref previous turns =
     (if length previous < length turns \<or> \<not> list_all (turn_belongs harnessId (ns_nativeSessionId ref)) turns then None
      else Some (List.map (\<lambda>(m, turn). mapping_for (tm_hostTurnId m) turn) (zip previous turns)))"

definition fork_rollback_input ::
  "thread_record \<Rightarrow> thread_record \<Rightarrow> native_session_ref \<Rightarrow> snapshot_turn list \<Rightarrow> string + replace_ready_input" where
  "fork_rollback_input derived source ref turns =
     (case (tr_nativeSessionRef derived, tr_nativeSessionRef source, tr_forkSource derived) of
        (Some derivedRef, Some sourceRef, Some fork) \<Rightarrow>
          if tr_state derived \<noteq> Ready \<or> tr_state source \<noteq> Ready \<or> fs_hostThreadId fork \<noteq> tr_hostThreadId source \<or>
             tr_harnessId derived \<noteq> tr_harnessId source
          then Inl ''External rollback lineage is not a ready source prefix''
          else
            (case index_of (fs_hostTurnId fork) (List.map tm_hostTurnId (tr_turnMappings source)) of
               None \<Rightarrow> Inl ''External rollback does not retain an exact shorter source prefix''
             | Some boundary \<Rightarrow>
                 if length (tr_turnMappings derived) \<noteq> boundary + 1 \<or> length turns < 1 \<or>
                    length (tr_turnMappings derived) \<le> length turns
                 then Inl ''External rollback does not retain an exact shorter source prefix''
                 else
                   let selected = tr_turnMappings source ! (length turns - 1) in
                   if tm_nativeCheckpointRef selected = None then Inl ''External rollback source Checkpoint is unavailable''
                   else if ns_harnessId ref \<noteq> tr_harnessId derived \<or> ns_nativeSessionId ref = ns_nativeSessionId derivedRef \<or>
                           ns_nativeSessionId ref = ns_nativeSessionId sourceRef
                   then Inl ''External rollback did not create a distinct Native Session''
                   else
                     (case retained_mappings (tr_harnessId derived) ref (tr_turnMappings derived) turns of
                        None \<Rightarrow> Inl ''External rollback Snapshot identity is invalid''
                      | Some mappings \<Rightarrow>
                          Inr \<lparr>rr_hostThreadId = tr_hostThreadId derived, rr_expectedRevision = tr_revision derived,
                               rr_expectedNativeSessionRef = derivedRef, rr_nativeSessionRef = ref, rr_turnMappings = mappings,
                               rr_forkSource = \<lparr>fs_hostThreadId = tr_hostThreadId source,
                                                fs_hostTurnId = tm_hostTurnId selected\<rparr>\<rparr>))
      | _ \<Rightarrow> Inl ''External rollback lineage is not a ready source prefix'')"

definition commitForkRollback ::
  "timestamp \<Rightarrow> thread_record \<Rightarrow> thread_record \<Rightarrow> native_session_ref \<Rightarrow> snapshot_turn list \<Rightarrow> (string + thread_record) eff" where
  "commitForkRollback now derived source ref turns =
     (case fork_rollback_input derived source ref turns of
        Inl e \<Rightarrow> retE (Inl e)
      | Inr i \<Rightarrow> thenE (replaceReadySession now i) (\<lambda>r. retE (Inr r)))"

definition last_turn_input ::
  "thread_record \<Rightarrow> native_session_ref \<Rightarrow> snapshot_turn list \<Rightarrow> string + replace_after_last_input" where
  "last_turn_input current ref turns =
     (case tr_nativeSessionRef current of
        None \<Rightarrow> Inl ''Last-Turn rollback is not an exact ready Session replacement''
      | Some currentRef \<Rightarrow>
          if tr_state current \<noteq> Ready \<or> ns_harnessId ref \<noteq> tr_harnessId current \<or>
             Suc (length turns) \<noteq> length (tr_turnMappings current)
          then Inl ''Last-Turn rollback is not an exact ready Session replacement''
          else
            (case retained_mappings (tr_harnessId current) ref (tr_turnMappings current) turns of
               None \<Rightarrow> Inl ''Last-Turn rollback Snapshot identity is invalid''
             | Some mappings \<Rightarrow>
                 Inr \<lparr>ra_hostThreadId = tr_hostThreadId current, ra_expectedRevision = tr_revision current,
                      ra_expectedNativeSessionRef = currentRef, ra_nativeSessionRef = ref, ra_turnMappings = mappings\<rparr>))"

definition commitLastTurnRollback ::
  "timestamp \<Rightarrow> thread_record \<Rightarrow> native_session_ref \<Rightarrow> snapshot_turn list \<Rightarrow> (string + thread_record) eff" where
  "commitLastTurnRollback now current ref turns =
     (case last_turn_input current ref turns of
        Inl e \<Rightarrow> retE (Inl e)
      | Inr i \<Rightarrow> thenE (replaceReadySessionAfterLastTurn now i) (\<lambda>r. retE (Inr r)))"

subsection \<open>Aligning with native history\<close>

definition mappings_by_native :: "turn_mapping list \<Rightarrow> (string, turn_mapping) jsmap" where
  "mappings_by_native ms = fold (\<lambda>m. js_set (nativeTurnKey m) m) ms []"

definition aligned_mappings :: "(nat \<Rightarrow> string) \<Rightarrow> turn_mapping list \<Rightarrow> snapshot_turn list \<Rightarrow> turn_mapping list" where
  "aligned_mappings uuid current turns =
     List.map (\<lambda>(i, turn).
       mapping_for
         (case js_get (mappings_by_native current) (nativeTurnRefKey (sp_nativeTurnRef turn)) of
            Some m \<Rightarrow> tm_hostTurnId m
          | None \<Rightarrow> uuid i) turn) (enumerate 0 turns)"

definition alignSnapshot ::
  "timestamp \<Rightarrow> (nat \<Rightarrow> string) \<Rightarrow> thread_record \<Rightarrow> snapshot_turn list \<Rightarrow> (string + thread_record) eff" where
  "alignSnapshot now uuid r turns =
     (case tr_nativeSessionRef r of
        None \<Rightarrow>
          if tr_state r = Creating \<and> turns = [] then retE (Inr r)
          else retE (Inl ''External Thread has no committed Native Session identity'')
      | Some session \<Rightarrow>
          if tr_state r \<noteq> Ready then retE (Inl ''External Thread has no committed Native Session identity'')
          else if \<not> list_all (turn_belongs (tr_harnessId r) (ns_nativeSessionId session)) turns
          then retE (Inl ''External Snapshot identity does not belong to the stored Thread'')
          else
            let ordered = aligned_mappings uuid (tr_turnMappings r) turns in
            if ordered \<noteq> tr_turnMappings r
            then thenE (reconcileTurnMappings now (tr_hostThreadId r) ordered) (\<lambda>next. retE (Inr next))
            else retE (Inr r))"

subsection \<open>Session trees\<close>

function tree_walk :: "store \<Rightarrow> string list \<Rightarrow> thread_record \<Rightarrow> string + string" where
  "tree_walk s visited current =
     (if source_id current = None then Inr (tr_hostThreadId current)
      else if tr_hostThreadId current \<in> set visited then Inl ''External Thread Fork tree contains a cycle''
      else
        (case source_id current of
           None \<Rightarrow> Inr (tr_hostThreadId current)
         | Some parentId \<Rightarrow>
             if parentId = [] then Inr (tr_hostThreadId current)
             else (case repository_find s parentId of
                     None \<Rightarrow> Inr (tr_hostThreadId current)
                   | Some source \<Rightarrow> tree_walk s (tr_hostThreadId current # visited) source)))"
  by pat_completeness auto

lemma repository_find_in: "repository_find s i = Some r \<Longrightarrow> tr_hostThreadId r \<in> record_ids (js_values (st_records s))"
  by (auto simp: repository_find_def record_ids_def dest!: map_of_SomeD split: if_splits) force

termination tree_walk
  by (relation "measure (\<lambda>(s, visited, current).
        card (insert (tr_hostThreadId current) (record_ids (js_values (st_records s))) - set visited))")
     (auto dest!: repository_find_in intro: fewer_to_visit)

declare tree_walk.simps [simp del]

definition sessionTreeId :: "store \<Rightarrow> thread_record \<Rightarrow> string + string" where
  "sessionTreeId s r = tree_walk s [] r"

subsection \<open>New records\<close>

definition createExternalThreadRecordInput :: "string \<Rightarrow> string \<Rightarrow> create_provisional_input \<Rightarrow> string option \<Rightarrow> string option \<Rightarrow> create_provisional_input" where
  "createExternalThreadRecordInput uuid uuid' i hostThreadId createRequestId =
     i\<lparr>cp_hostThreadId := (case hostThreadId of None \<Rightarrow> uuid | Some h \<Rightarrow> h),
       cp_createRequestId := (case createRequestId of None \<Rightarrow> uuid' | Some c \<Rightarrow> c),
       cp_title := (if cp_title i = Some [] then None else cp_title i)\<rparr>"

end
