(* ===== verification/ThreadRepositoryProps.thy ===== *)
theory ThreadRepositoryProps
  imports ThreadRepository StoreProperties
begin

text \<open>
  Properties of the repository: what the store accepts of a rollback and of an alignment with native
  history, and the agreement of the two ways to find a Session tree.
\<close>

subsection \<open>Rollback\<close>

lemma retained_mappings_hosts:
  assumes "retained_mappings h ref previous turns = Some ms"
  shows "List.map tm_hostTurnId ms = take (length turns) (List.map tm_hostTurnId previous) \<and>
    List.map tm_nativeTurnRef ms = List.map sp_nativeTurnRef turns \<and>
    length ms = length turns \<and> length turns \<le> length previous"
proof -
  have ms: "ms = List.map (\<lambda>(m, turn). mapping_for (tm_hostTurnId m) turn) (zip previous turns)"
    and len: "length turns \<le> length previous"
    using assms by (auto simp: retained_mappings_def split: if_splits)
  have "List.map tm_hostTurnId ms = List.map tm_hostTurnId (List.map fst (zip previous turns))"
    "List.map tm_nativeTurnRef ms = List.map sp_nativeTurnRef (List.map snd (zip previous turns))"
    by (auto simp: ms mapping_for_def)
  then show ?thesis using len by (simp add: ms map_fst_zip_take map_snd_zip_take take_map)
qed

lemma same_turn_prefix_hosts:
  "List.map tm_hostTurnId ms = take (length ms) (List.map tm_hostTurnId previous) \<Longrightarrow> length ms \<le> length previous \<Longrightarrow>
    same_turn_prefix ms previous"
  by (simp add: same_turn_prefix_def list_all2_conv_all_nth list_eq_iff_nth_eq take_map [symmetric])

lemma fork_rollback_input_Inr:
  assumes "fork_rollback_input derived source ref turns = Inr i"
  obtains derivedRef fork ms where
    "tr_state derived = Ready" "tr_nativeSessionRef derived = Some derivedRef" "tr_forkSource derived = Some fork"
    "fs_hostThreadId fork = tr_hostThreadId source" "0 < length turns" "length turns < length (tr_turnMappings derived)"
    "ns_nativeSessionId ref \<noteq> ns_nativeSessionId derivedRef"
    "retained_mappings (tr_harnessId derived) ref (tr_turnMappings derived) turns = Some ms"
    "i = \<lparr>rr_hostThreadId = tr_hostThreadId derived, rr_expectedRevision = tr_revision derived,
          rr_expectedNativeSessionRef = derivedRef, rr_nativeSessionRef = ref, rr_turnMappings = ms,
          rr_forkSource = \<lparr>fs_hostThreadId = tr_hostThreadId source,
            fs_hostTurnId = tm_hostTurnId (tr_turnMappings source ! (length turns - 1))\<rparr>\<rparr>"
  using assms by (auto simp: fork_rollback_input_def Let_def split: option.splits if_splits)

lemma last_turn_input_Inr:
  assumes "last_turn_input current ref turns = Inr j"
  obtains currentRef ms where
    "tr_state current = Ready" "tr_nativeSessionRef current = Some currentRef"
    "Suc (length turns) = length (tr_turnMappings current)"
    "retained_mappings (tr_harnessId current) ref (tr_turnMappings current) turns = Some ms"
    "j = \<lparr>ra_hostThreadId = tr_hostThreadId current, ra_expectedRevision = tr_revision current,
          ra_expectedNativeSessionRef = currentRef, ra_nativeSessionRef = ref, ra_turnMappings = ms\<rparr>"
  using assms by (auto simp: last_turn_input_def split: option.splits if_splits)


subsection \<open>Alignment\<close>

lemma mappings_by_native_get:
  assumes "distinct (List.map nativeTurnKey ms)"
  shows "js_get (mappings_by_native ms) k = Some m \<longleftrightarrow> m \<in> set ms \<and> nativeTurnKey m = k"
proof -
  have "distinct (List.map nativeTurnKey ms) \<Longrightarrow>
      js_get (fold (\<lambda>m. js_set (nativeTurnKey m) m) ms acc) k = Some m \<longleftrightarrow>
      (m \<in> set ms \<and> nativeTurnKey m = k) \<or> (k \<notin> nativeTurnKey ` set ms \<and> js_get acc k = Some m)" for acc
    by (induction ms arbitrary: acc) (auto simp: update_conv')
  then show ?thesis using assms by (simp add: mappings_by_native_def)
qed

lemma turn_refs_key_inj:
  assumes "turn_refs_ok h (Some session) m" and "turn_belongs h (ns_nativeSessionId session) turn"
    and "nativeTurnKey m = nativeTurnRefKey (sp_nativeTurnRef turn)"
  shows "tm_nativeTurnRef m = sp_nativeTurnRef turn"
  using assms by (cases "tm_nativeTurnRef m"; cases "sp_nativeTurnRef turn")
    (auto simp: turn_refs_ok_def turn_belongs_def nativeTurnKey_def nativeTurnRefKey_def Let_def)

text \<open>The test of the store, read as a relation between a stored mapping and a new one.\<close>

definition agree_on_turn :: "turn_mapping \<Rightarrow> turn_mapping \<Rightarrow> bool" where
  "agree_on_turn m u =
     ((tm_hostTurnId m = tm_hostTurnId u \<longleftrightarrow> nativeTurnKey m = nativeTurnKey u) \<and>
      (nativeTurnKey m = nativeTurnKey u \<longrightarrow> tm_nativeTurnRef m = tm_nativeTurnRef u))"

lemma reconcile_loop_accepts:
  assumes "locates byHost tm_hostTurnId current" and "locates byNative nativeTurnKey current"
  shows "distinct (List.map tm_hostTurnId us) \<Longrightarrow> distinct (List.map nativeTurnKey us) \<Longrightarrow>
    set (List.map tm_hostTurnId us) \<inter> set seenHost = {} \<Longrightarrow> set (List.map nativeTurnKey us) \<inter> set seenNative = {} \<Longrightarrow>
    (\<And>m u. m \<in> set current \<Longrightarrow> u \<in> set us \<Longrightarrow> agree_on_turn m u) \<Longrightarrow>
    reconcile_loop current byHost byNative seenHost seenNative us = Inr us"
proof (induction us arbitrary: seenHost seenNative)
  case Nil
  then show ?case by simp
next
  case (Cons u us)
  have rest: "reconcile_loop current byHost byNative (tm_hostTurnId u # seenHost) (nativeTurnKey u # seenNative) us = Inr us"
    using Cons.prems by (intro Cons.IH) auto
  have agree: "agree_on_turn (current ! i) u" if "i < length current" for i
    using Cons.prems(5) that by simp
  have host: "js_get byNative (nativeTurnKey u) = Some i \<and> tm_nativeTurnRef (current ! i) = tm_nativeTurnRef u"
    if "js_get byHost (tm_hostTurnId u) = Some i" for i
    using agree [of i] that locatesD [OF assms(1)] locatesD [OF assms(2)] by (simp add: agree_on_turn_def)
  have native: "js_get byHost (tm_hostTurnId u) = Some i \<and> tm_hostTurnId (current ! i) = tm_hostTurnId u"
    if "js_get byNative (nativeTurnKey u) = Some i" for i
    using agree [of i] that locatesD [OF assms(1)] locatesD [OF assms(2)] by (simp add: agree_on_turn_def)
  show ?case
    using Cons.prems(3,4) rest host native
    by (cases "js_get byHost (tm_hostTurnId u)"; cases "js_get byNative (nativeTurnKey u)") (auto simp: Let_def)
qed

lemma aligned_nth:
  assumes "i < length turns"
  shows "aligned_mappings uuid current turns ! i =
    mapping_for (case js_get (mappings_by_native current) (nativeTurnRefKey (sp_nativeTurnRef (turns ! i))) of
        Some m \<Rightarrow> tm_hostTurnId m | None \<Rightarrow> uuid i) (turns ! i)"
  using assms by (simp add: aligned_mappings_def nth_enumerate_eq)

lemma length_aligned [simp]: "length (aligned_mappings uuid current turns) = length turns"
  by (simp add: aligned_mappings_def)

text \<open>What alignment needs: a valid Ready record, history that belongs to it, and identifiers nobody has used.\<close>

definition alignable :: "(nat \<Rightarrow> string) \<Rightarrow> thread_record \<Rightarrow> native_session_ref \<Rightarrow> snapshot_turn list \<Rightarrow> bool" where
  "alignable uuid r session turns =
     (record_ok r \<and> tr_state r = Ready \<and> tr_nativeSessionRef r = Some session \<and>
      list_all (turn_belongs (tr_harnessId r) (ns_nativeSessionId session)) turns \<and>
      distinct (List.map (nativeTurnRefKey \<circ> sp_nativeTurnRef) turns) \<and>
      inj_on uuid {..<length turns} \<and>
      uuid ` {..<length turns} \<inter> tm_hostTurnId ` set (tr_turnMappings r) = {})"

lemma alignable_facts:
  assumes "alignable uuid r session turns"
  defines "ms \<equiv> tr_turnMappings r"
  defines "us \<equiv> aligned_mappings uuid ms turns"
  shows "m \<in> set ms \<Longrightarrow> u \<in> set us \<Longrightarrow> agree_on_turn m u"
    and "distinct (List.map tm_hostTurnId us)" and "distinct (List.map nativeTurnKey us)"
    and "List.map tm_nativeTurnRef us = List.map sp_nativeTurnRef turns"
    and "distinct (List.map tm_hostTurnId ms)" and "distinct (List.map nativeTurnKey ms)"
proof -
  have ok: "record_ok r" and session: "tr_nativeSessionRef r = Some session"
    using assms(1) by (auto simp: alignable_def)
  show dh: "distinct (List.map tm_hostTurnId ms)" and dn: "distinct (List.map nativeTurnKey ms)"
    using record_ok_distinct [OF ok] by (simp_all add: ms_def)
  note known = mappings_by_native_get [OF dn]
  have keys: "distinct (List.map (nativeTurnRefKey \<circ> sp_nativeTurnRef) turns)"
    using assms(1) by (simp add: alignable_def)
  have at: "us ! i = mapping_for (tm_hostTurnId (us ! i)) (turns ! i)" if "i < length turns" for i
    using aligned_nth [OF that] by (simp add: us_def mapping_for_def)
  have key: "nativeTurnKey (us ! i) = nativeTurnRefKey (sp_nativeTurnRef (turns ! i))" if "i < length turns" for i
    by (subst at [OF that]) (simp add: mapping_for_def nativeTurnKey_def)
  have host: "(\<exists>m\<in>set ms. nativeTurnKey m = nativeTurnKey (us ! i) \<and> tm_hostTurnId (us ! i) = tm_hostTurnId m) \<or>
      (\<forall>m\<in>set ms. nativeTurnKey m \<noteq> nativeTurnKey (us ! i)) \<and> tm_hostTurnId (us ! i) = uuid i"
    if "i < length turns" for i
  proof (cases "js_get (mappings_by_native ms) (nativeTurnKey (us ! i))")
    case None
    then have "\<forall>m\<in>set ms. nativeTurnKey m \<noteq> nativeTurnKey (us ! i)"
      using known [THEN iffD2] by (metis option.distinct(1))
    moreover have "tm_hostTurnId (us ! i) = uuid i"
      using None aligned_nth [OF that, of uuid ms, folded us_def] unfolding key [OF that] by (simp add: mapping_for_def)
    ultimately show ?thesis by blast
  next
    case (Some m)
    have "tm_hostTurnId (us ! i) = tm_hostTurnId m"
      using Some aligned_nth [OF that, of uuid ms, folded us_def] unfolding key [OF that] by (simp add: mapping_for_def)
    moreover have "m \<in> set ms" "nativeTurnKey m = nativeTurnKey (us ! i)" using Some known by simp_all
    ultimately show ?thesis by blast
  qed
  have fresh: "uuid i \<noteq> tm_hostTurnId m" if "i < length turns" "m \<in> set ms" for i m
    using assms(1) that by (auto simp: alignable_def ms_def)
  have one_host: "m = m'" if "m \<in> set ms" "m' \<in> set ms" "tm_hostTurnId m = tm_hostTurnId m'" for m m'
    using dh that by (auto simp: distinct_map dest: inj_onD)
  have one_key: "m = m'" if "m \<in> set ms" "m' \<in> set ms" "nativeTurnKey m = nativeTurnKey m'" for m m'
    using dn that by (auto simp: distinct_map dest: inj_onD)
  show refs: "List.map tm_nativeTurnRef us = List.map sp_nativeTurnRef turns"
    by (simp add: us_def aligned_nth mapping_for_def list_eq_iff_nth_eq)
  have "List.map nativeTurnKey us = List.map (nativeTurnRefKey \<circ> sp_nativeTurnRef) turns"
    using key by (simp add: list_eq_iff_nth_eq us_def)
  then show "distinct (List.map nativeTurnKey us)" using keys by simp
  have eq_key: "nativeTurnKey (us ! i) = nativeTurnKey (us ! j) \<Longrightarrow> i = j" if "i < length turns" "j < length turns" for i j
    using keys that by (auto simp: key distinct_conv_nth)
  have inj: "uuid i = uuid j \<Longrightarrow> i = j" if "i < length turns" "j < length turns" for i j
    using assms(1) that by (auto simp: alignable_def dest: inj_onD)
  have "i = j" if ij: "i < length turns" "j < length turns" and eq: "tm_hostTurnId (us ! i) = tm_hostTurnId (us ! j)" for i j
    using host [OF ij(1)] host [OF ij(2)] eq fresh [OF ij(1)] fresh [OF ij(2)] one_host eq_key [OF ij] inj [OF ij]
    by metis
  then show "distinct (List.map tm_hostTurnId us)" by (auto simp: distinct_conv_nth us_def)
  show "agree_on_turn m u" if m: "m \<in> set ms" and u: "u \<in> set us"
  proof -
    obtain i where i: "i < length turns" "u = us ! i" using u by (auto simp: in_set_conv_nth us_def)
    have refs_ok: "turn_refs_ok (tr_harnessId r) (Some session) m"
      using refineThreadRecord_distinct(3) [of r m] ok session m by (simp add: record_ok_def ms_def)
    have "turn_belongs (tr_harnessId r) (ns_nativeSessionId session) (turns ! i)"
      using assms(1) i(1) by (simp add: alignable_def list_all_length)
    then have "nativeTurnKey m = nativeTurnKey u \<Longrightarrow> tm_nativeTurnRef m = tm_nativeTurnRef u"
      using turn_refs_key_inj [OF refs_ok] key [OF i(1)] at [OF i(1)] i(2) by (metis mapping_for_def turn_mapping.select_convs(2))
    moreover have "tm_hostTurnId m = tm_hostTurnId u \<longleftrightarrow> nativeTurnKey m = nativeTurnKey u"
      unfolding i(2) using host [OF i(1)]
    proof (elim disjE bexE conjE)
      fix m'
      assume "m' \<in> set ms" "nativeTurnKey m' = nativeTurnKey (us ! i)" "tm_hostTurnId (us ! i) = tm_hostTurnId m'"
      then show "tm_hostTurnId m = tm_hostTurnId (us ! i) \<longleftrightarrow> nativeTurnKey m = nativeTurnKey (us ! i)" using one_host [OF m] one_key [OF m] by metis
    next
      assume "\<forall>m\<in>set ms. nativeTurnKey m \<noteq> nativeTurnKey (us ! i)" "tm_hostTurnId (us ! i) = uuid i"
      then show "tm_hostTurnId m = tm_hostTurnId (us ! i) \<longleftrightarrow> nativeTurnKey m = nativeTurnKey (us ! i)" using m fresh [OF i(1) m] by simp
    qed
    ultimately show ?thesis by (simp add: agree_on_turn_def)
  qed
qed

text \<open>
  Aligning a Thread with its native history always passes the store's conflict test: the new mappings
  follow the native order, every Turn known before keeps its Host Turn, and aligning the result again with
  the same history changes nothing.
\<close>

theorem aligned_turns_accepted:
  assumes "alignable uuid r session turns"
  defines "us \<equiv> aligned_mappings uuid (tr_turnMappings r) turns"
  shows "reconcileMappings (tr_turnMappings r) us = Inr us \<and>
    List.map tm_nativeTurnRef us = List.map sp_nativeTurnRef turns \<and>
    (\<forall>m \<in> set (tr_turnMappings r). \<forall>u \<in> set us.
       tm_nativeTurnRef u = tm_nativeTurnRef m \<longrightarrow> tm_hostTurnId u = tm_hostTurnId m) \<and>
    alignSnapshot now uuid' (r\<lparr>tr_turnMappings := us\<rparr>) turns = retE (Inr (r\<lparr>tr_turnMappings := us\<rparr>))"
proof -
  note facts = alignable_facts [OF assms(1), folded us_def]
  have "reconcileMappings (tr_turnMappings r) us = Inr us"
    unfolding reconcileMappings_def
    by (rule reconcile_loop_accepts [OF locates_positions locates_positions]) (use facts in simp_all)
  moreover have "tm_hostTurnId u = tm_hostTurnId m"
    if "m \<in> set (tr_turnMappings r)" "u \<in> set us" "tm_nativeTurnRef u = tm_nativeTurnRef m" for m u
    using facts(1) [OF that(1,2)] that(3) by (simp add: agree_on_turn_def nativeTurnKey_def)
  moreover have "aligned_mappings uuid' us turns = us"
  proof (rule nth_equalityI)
    show "length (aligned_mappings uuid' us turns) = length us" by (simp add: us_def)
    fix i
    assume "i < length (aligned_mappings uuid' us turns)"
    then have i: "i < length turns" "us ! i \<in> set us" by (simp_all add: us_def)
    have at: "us ! i = mapping_for (tm_hostTurnId (us ! i)) (turns ! i)"
      using aligned_nth [OF i(1)] by (simp add: us_def mapping_for_def)
    then have "nativeTurnRefKey (sp_nativeTurnRef (turns ! i)) = nativeTurnKey (us ! i)"
      by (metis mapping_for_def nativeTurnKey_def turn_mapping.select_convs(2))
    then have "js_get (mappings_by_native us) (nativeTurnRefKey (sp_nativeTurnRef (turns ! i))) = Some (us ! i)"
      using mappings_by_native_get [OF facts(3)] i(2) by simp
    then show "aligned_mappings uuid' us turns ! i = us ! i"
      using aligned_nth [OF i(1), of uuid' us] at by simp
  qed
  ultimately show ?thesis
    using facts(4) assms(1) by (auto simp: alignSnapshot_def alignable_def Let_def)
qed

subsection \<open>Session trees\<close>

lemma store_ids_distinct:
  assumes "store_inv s"
  shows "distinct (List.map tr_hostThreadId (js_values (st_records s)))"
proof -
  note inv = records_invD [OF assms [unfolded store_inv_def, THEN conjunct1]]
  have "List.map tr_hostThreadId (js_values (st_records s)) = js_keys (st_records s)"
    using inv(2) by (auto simp: list_eq_iff_nth_eq)
  then show ?thesis using inv(1) by argo
qed

lemma repository_find_by_id:
  assumes "store_inv s"
  shows "repository_find s i = (if i = [] then None else by_id (js_values (st_records s)) i)"
proof -
  note inv = records_invD [OF assms [unfolded store_inv_def, THEN conjunct1]]
  let ?rs = "js_values (st_records s)"
  have found: "repository_find s i = Some r \<longleftrightarrow> r \<in> set ?rs \<and> tr_hostThreadId r = i" for r
  proof
    assume "repository_find s i = Some r"
    then have "(i, r) \<in> set (st_records s)" by (auto simp: repository_find_def dest: map_of_SomeD split: if_splits)
    then show "r \<in> set ?rs \<and> tr_hostThreadId r = i" using inv(2) by force
  next
    assume r: "r \<in> set ?rs \<and> tr_hostThreadId r = i"
    then have kr: "(i, r) \<in> set (st_records s)" using inv(2) by force
    then have "nonblank i"
      using inv(2,3) [OF kr] by (auto simp: record_ok_def threadCore_ok_def storedHostThreadId_ok_def)
    then show "repository_find s i = Some r" using kr inv(1) by (simp add: repository_find_def)
  qed
  have "by_id ?rs i = Some r \<longleftrightarrow> r \<in> set ?rs \<and> tr_hostThreadId r = i" for r
    using by_id_Some [of ?rs i r] by_id_self [OF store_ids_distinct [OF assms], of r] by blast
  moreover have "repository_find s [] = None" by (simp add: repository_find_def nonblank_def trim_def)
  ultimately show ?thesis using found by (metis not_Some_eq)
qed

lemma tree_walk_step:
  assumes "store_inv s"
  shows "tree_walk s visited r =
    (if source_id r \<noteq> None \<and> tr_hostThreadId r \<in> set visited then Inl ''External Thread Fork tree contains a cycle''
     else case source_record (js_values (st_records s)) r of
            None \<Rightarrow> Inr (tr_hostThreadId r)
          | Some p \<Rightarrow> tree_walk s (tr_hostThreadId r # visited) p)"
  by (subst tree_walk.simps) (auto simp: source_record_def repository_find_by_id [OF assms] split: option.splits)

lemma tree_walk_root:
  assumes "store_inv s"
  defines "rs \<equiv> js_values (st_records s)"
  shows "r \<in> set rs \<Longrightarrow> path_ok rs visited r \<Longrightarrow>
    (case tree_walk s visited r of Inr t \<Rightarrow> root_of rs r t | Inl e \<Rightarrow> \<nexists>t. root_of rs r t)"
proof (induction "card (insert (tr_hostThreadId r) (record_ids rs) - set visited)"
    arbitrary: visited r rule: less_induct)
  case less
  note step = tree_walk_step [OF assms(1), folded rs_def]
  have me: "by_id rs (tr_hostThreadId r) = Some r" using store_ids_distinct [OF assms(1)] less.prems(1) unfolding rs_def by (rule by_id_self)
  show ?case
  proof (cases "tr_hostThreadId r \<in> set visited")
    case True
    then have "(source_step rs)\<^sup>+\<^sup>+ r r" using less.prems(2) me by (auto simp: path_ok_def)
    then have none: "\<nexists>t. root_of rs r t" and "source_record rs r \<noteq> None"
      using rooted_acyclic root_of.top by blast+
    then show ?thesis using True by (subst step) (auto simp: source_record_def split: option.splits)
  next
    case fresh: False
    show ?thesis
    proof (cases "source_record rs r")
      case None
      then show ?thesis using fresh by (subst step) (simp add: root_of.top)
    next
      case (Some p)
      then have p: "p \<in> set rs" "tr_hostThreadId p \<in> record_ids rs"
        by (auto simp: source_record_def record_ids_def dest!: by_id_Some split: option.splits if_splits)
      have "source_step rs r p" using Some by (simp add: source_step_def)
      then have "path_ok rs (tr_hostThreadId r # visited) p"
        using less.prems(2) me unfolding path_ok_def by (auto intro: tranclp.r_into_trancl tranclp.trancl_into_trancl)
      moreover have "card (insert (tr_hostThreadId p) (record_ids rs) - set (tr_hostThreadId r # visited))
          < card (insert (tr_hostThreadId r) (record_ids rs) - set visited)"
        using fewer_to_visit [OF fresh p(2)] by simp
      ultimately have "case tree_walk s (tr_hostThreadId r # visited) p of Inr t \<Rightarrow> root_of rs p t | Inl e \<Rightarrow> \<nexists>t. root_of rs p t"
        using less.hyps p(1) by blast
      then show ?thesis using fresh Some root_up [OF Some] by (subst step) (auto split: sum.splits)
    qed
  qed
qed

text \<open>
  The Session tree of a Thread is the root of its chain of parents and fork sources, and the request is
  refused exactly when that chain runs in a circle; whenever the list resolves all Threads at once, it finds
  for each what the single request finds.
\<close>

theorem session_tree_id_is_root:
  assumes "store_inv s" and "r \<in> set (js_values (st_records s))"
  shows "(sessionTreeId s r = Inr t \<longleftrightarrow> root_of (js_values (st_records s)) r t) \<and>
    (isl (sessionTreeId s r) \<longleftrightarrow> (\<nexists>u. root_of (js_values (st_records s)) r u)) \<and>
    (\<forall>m. resolveExternalSessionTreeIds (js_values (st_records s)) = Inr m \<longrightarrow>
       map_option Inr (js_get m (tr_hostThreadId r)) = Some (sessionTreeId s r))"
proof -
  let ?rs = "js_values (st_records s)"
  have walk: "case sessionTreeId s r of Inr t \<Rightarrow> root_of ?rs r t | Inl e \<Rightarrow> \<nexists>t. root_of ?rs r t"
    unfolding sessionTreeId_def using tree_walk_root [OF assms] by (simp add: path_ok_def)
  then have iff: "sessionTreeId s r = Inr u \<longleftrightarrow> root_of ?rs r u" for u
    using root_unique [of ?rs r] by (auto split: sum.splits)
  have "map_option Inr (js_get m (tr_hostThreadId r)) = Some (sessionTreeId s r)"
    if m: "resolveExternalSessionTreeIds ?rs = Inr m" for m
    using session_tree_roots [OF store_ids_distinct [OF assms(1)] m assms(2)] iff [THEN iffD2] by fastforce
  then show ?thesis using iff walk by (cases "sessionTreeId s r") auto
qed

subsection \<open>Concrete runs\<close>

definition repository_thread :: "string \<Rightarrow> string \<Rightarrow> fork_source option \<Rightarrow> turn_mapping list \<Rightarrow> thread_record" where
  "repository_thread i session fork ms =
     (new_record 1 (sample_create i i))\<lparr>tr_state := Ready, tr_forkSource := fork, tr_turnMappings := ms,
        tr_nativeSessionRef := Some \<lparr>ns_harnessId = ''claude'', ns_nativeSessionId = session, ns_locator = None\<rparr>\<rparr>"

definition snapshot_of :: "string \<Rightarrow> string \<Rightarrow> snapshot_turn" where
  "snapshot_of session native =
     \<lparr>sp_nativeTurnRef = \<lparr>nt_harnessId = ''claude'', nt_nativeSessionId = session, nt_nativeTurnKey = native\<rparr>,
      sp_checkpoint = None\<rparr>"

definition new_session :: native_session_ref where
  "new_session = \<lparr>ns_harnessId = ''claude'', ns_nativeSessionId = ''new'', ns_locator = None\<rparr>"

definition source_example :: thread_record where
  "source_example = repository_thread ''a'' ''s'' None
     [sample_mapping ''h1'' ''n1'' (Some ''c1''), sample_mapping ''h2'' ''n2'' (Some ''c2'')]"

definition derived_example :: thread_record where
  "derived_example = repository_thread ''b'' ''t'' (Some \<lparr>fs_hostThreadId = ''a'', fs_hostTurnId = ''h2''\<rparr>)
     [sample_mapping ''k1'' ''m1'' None, sample_mapping ''k2'' ''m2'' None]"


text \<open>The native history has lost the first Turn and gained one.\<close>

definition numbered :: "nat \<Rightarrow> string" where
  "numbered i = CHR ''u'' # replicate i (CHR ''x'')"

lemma aligned_turns_accepted_witness:
  "reconcileMappings (tr_turnMappings source_example)
     (aligned_mappings numbered (tr_turnMappings source_example) [snapshot_of ''s'' ''n2'', snapshot_of ''s'' ''n3'']) =
   Inr [sample_mapping ''h2'' ''n2'' None, sample_mapping ''ux'' ''n3'' None]"
proof -
  let ?turns = "[snapshot_of ''s'' ''n2'', snapshot_of ''s'' ''n3'']"
  let ?session = "\<lparr>ns_harnessId = ''claude'', ns_nativeSessionId = ''s'', ns_locator = None\<rparr>"
  have "record_ok source_example" by code_simp
  moreover have "list_all (turn_belongs (tr_harnessId source_example) (ns_nativeSessionId ?session)) ?turns"
    "distinct (List.map (nativeTurnRefKey \<circ> sp_nativeTurnRef) ?turns)"
    "tr_state source_example = Ready \<and> tr_nativeSessionRef source_example = Some ?session" by code_simp+
  moreover have "inj_on numbered {..<length ?turns}" by (auto simp: inj_on_def numbered_def dest: arg_cong [of _ _ length])
  moreover have "numbered ` {..<length ?turns} \<inter> tm_hostTurnId ` set (tr_turnMappings source_example) = {}"
    by (auto simp: numbered_def source_example_def repository_thread_def sample_mapping_def)
  ultimately have "alignable numbered source_example ?session ?turns" by (simp add: alignable_def)
  from aligned_turns_accepted [OF this]
  have "reconcileMappings (tr_turnMappings source_example) (aligned_mappings numbered (tr_turnMappings source_example) ?turns) =
      Inr (aligned_mappings numbered (tr_turnMappings source_example) ?turns)" by simp
  moreover have "aligned_mappings numbered (tr_turnMappings source_example) ?turns =
      [sample_mapping ''h2'' ''n2'' None, sample_mapping ''ux'' ''n3'' None]" by code_simp
  ultimately show ?thesis by simp
qed

definition tree_store :: store where
  "tree_store = w_store (foldl store_step (ready_world [])
     [CreateProvisional 1 (sample_create ''t1'' ''r1''),
      CreateProvisional 2 ((sample_create ''t2'' ''r2'')\<lparr>cp_forkSource := Some \<lparr>fs_hostThreadId = ''t1'', fs_hostTurnId = ''h''\<rparr>\<rparr>)])"

definition tree_leaf :: thread_record where
  "tree_leaf = new_record 2
     ((sample_create ''t2'' ''r2'')\<lparr>cp_forkSource := Some \<lparr>fs_hostThreadId = ''t1'', fs_hostTurnId = ''h''\<rparr>\<rparr>)"

lemma session_tree_id_is_root_witness:
  "root_of (js_values (st_records tree_store)) tree_leaf ''t1''"
proof -
  have "store_inv tree_store" unfolding tree_store_def by (rule mapping_store.run_inv) simp
  moreover have "tree_leaf \<in> set (js_values (st_records tree_store))" by code_simp
  moreover have "sessionTreeId tree_store tree_leaf = Inr ''t1''" by code_simp
  ultimately show ?thesis using session_tree_id_is_root [of tree_store tree_leaf "''t1''"] by simp
qed

end
