(* ===== verification/MergedList.thy ===== *)
theory MergedList
  imports DelegationWatch JsonText
begin

text \<open>
  One list of the Threads of several Host sessions:
  \<open>packages/host-runtime/src/delegation-thread-list-merge.ts\<close> and the registry that asks for it,
  \<open>delegation-control-registry.ts\<close>. A session is a function of the requests it got before and the current
  one. \<open>localeCompare\<close> and \<open>Date.parse\<close> are arguments; a time is in milliseconds and \<open>None\<close> is \<open>NaN\<close>.
  The native seconds the code keeps beside a row in a \<open>WeakMap\<close> are a field of the row.
\<close>

subsection \<open>Requests and rows\<close>

datatype list_sort = CreatedAsc | CreatedDesc | UpdatedAsc | UpdatedDesc | RecencyAsc | RecencyDesc

datatype list_field = FieldCreated | FieldUpdated | FieldRecency

record thread_list_input =
  ti_cwd :: "string option"
  ti_parentThreadId :: "string option"
  ti_limit :: int
  ti_cursor :: "string option"
  ti_sort :: list_sort

record list_item =
  it_threadId :: string
  it_harnessId :: string
  it_deepLink :: string
  it_status :: string
  it_cwd :: "string option"
  it_title :: "string option"
  it_createdAt :: "string option"
  it_updatedAt :: "string option"
  it_recencyAt :: "string option"
  it_native :: "(list_field \<Rightarrow> int option) option"

record list_result =
  lr_threads :: "list_item list"
  lr_nextCursor :: "string option"

definition sort_text :: "list_sort \<Rightarrow> string" where
  "sort_text s =
     (case s of CreatedAsc \<Rightarrow> ''created-asc'' | CreatedDesc \<Rightarrow> ''created-desc'' | UpdatedAsc \<Rightarrow> ''updated-asc''
      | UpdatedDesc \<Rightarrow> ''updated-desc'' | RecencyAsc \<Rightarrow> ''recency-asc'' | RecencyDesc \<Rightarrow> ''recency-desc'')"

definition rememberNativeListSeconds :: "list_item \<Rightarrow> (list_field \<Rightarrow> int option) \<Rightarrow> list_item" where
  "rememberNativeListSeconds row seconds = row\<lparr>it_native := Some seconds\<rparr>"

definition item_time :: "list_item \<Rightarrow> list_field \<Rightarrow> string option" where
  "item_time row field =
     (case field of FieldCreated \<Rightarrow> it_createdAt row | FieldUpdated \<Rightarrow> it_updatedAt row | FieldRecency \<Rightarrow> it_recencyAt row)"

text \<open>\<open>undefined\<close>, \<open>NaN\<close> or a number; seconds are counted in thousandths.\<close>

definition listSortSeconds ::
  "(string \<Rightarrow> int option) \<Rightarrow> list_item \<Rightarrow> list_field \<Rightarrow> int option option" where
  "listSortSeconds date_parse row field =
     (case it_native row of
        Some native \<Rightarrow> map_option (\<lambda>n. Some (1000 * n)) (native field)
      | None \<Rightarrow> map_option date_parse (item_time row field))"

definition sort_seconds :: "(string \<Rightarrow> int option) \<Rightarrow> list_sort \<Rightarrow> list_item \<Rightarrow> int option option" where
  "sort_seconds date_parse s row =
     (if s = CreatedAsc \<or> s = CreatedDesc then listSortSeconds date_parse row FieldCreated
      else if s = RecencyAsc \<or> s = RecencyDesc then
        (case listSortSeconds date_parse row FieldRecency of
           None \<Rightarrow> listSortSeconds date_parse row FieldUpdated
         | Some n \<Rightarrow> Some n)
      else listSortSeconds date_parse row FieldUpdated)"

definition compareThreads ::
  "(string \<Rightarrow> int option) \<Rightarrow> (string \<Rightarrow> string \<Rightarrow> int) \<Rightarrow> list_sort \<Rightarrow> list_item \<Rightarrow> list_item \<Rightarrow> int" where
  "compareThreads date_parse localeCompare s left right =
     (let direction = if s = CreatedAsc \<or> s = UpdatedAsc \<or> s = RecencyAsc then 1 else -1;
          number = (\<lambda>row. case sort_seconds date_parse s row of None \<Rightarrow> Some 0 | Some n \<Rightarrow> n)
      in case (number left, number right) of
           (Some a, Some b) \<Rightarrow>
             if (a - b) * direction \<noteq> 0 then (a - b) * direction
             else localeCompare (it_threadId left) (it_threadId right)
         | _ \<Rightarrow> localeCompare (it_threadId left) (it_threadId right))"

subsection \<open>Cursors\<close>

text \<open>\<open>None\<close> is an exhausted session, \<open>Some None\<close> the start of one.\<close>

type_synonym session_position = "string option option"

definition invalidCursor :: "string \<Rightarrow> api_error" where
  "invalidCursor message = ControlError ''INVALID_ARGUMENT'' message False False"

definition INVALID_CURSOR :: api_error where
  "INVALID_CURSOR = invalidCursor ''List cursor is invalid''"

definition position_value :: "json \<Rightarrow> session_position option" where
  "position_value v =
     (case v of
        JNull \<Rightarrow> Some None
      | JObj kvs \<Rightarrow>
          (case map_of kvs ''cursor'' of
             Some JNull \<Rightarrow> Some (Some None)
           | Some (JStr c) \<Rightarrow> if c = [] then None else Some (Some (Some c))
           | _ \<Rightarrow> None)
      | _ \<Rightarrow> None)"

fun position_values :: "json list \<Rightarrow> session_position list option" where
  "position_values [] = Some []"
| "position_values (v # vs) =
     Option.bind (position_value v) (\<lambda>p. map_option ((#) p) (position_values vs))"

definition canonical_json :: "string \<Rightarrow> json option" where
  "canonical_json cursor =
     (case utf8_decode (b64_decode cursor) of
        None \<Rightarrow> None
      | Some decoded \<Rightarrow> if b64_encode (utf8 decoded) \<noteq> cursor then None else json_parse decoded)"

definition opt_json :: "string option \<Rightarrow> json" where
  "opt_json s = (case s of None \<Rightarrow> JNull | Some t \<Rightarrow> JStr t)"

definition decodeMergedCursor ::
  "string \<Rightarrow> thread_list_input \<Rightarrow> nat \<Rightarrow> string \<Rightarrow> api_error + session_position list" where
  "decodeMergedCursor cursor input sessions generation =
     (case canonical_json cursor of
        Some (JObj kvs) \<Rightarrow>
          (case map_of kvs ''sessions'' of
             Some (JArr vs) \<Rightarrow>
               (case position_values vs of
                  Some positions \<Rightarrow>
                    if map_of kvs ''v'' \<noteq> Some (JInt 2) then Inl INVALID_CURSOR
                    else if map_of kvs ''sort'' \<noteq> Some (JStr (sort_text (ti_sort input))) \<or>
                            map_of kvs ''cwd'' \<noteq> Some (opt_json (ti_cwd input))
                    then Inl (invalidCursor ''List cursor does not match the current query'')
                    else if length positions \<noteq> sessions \<or> map_of kvs ''generation'' \<noteq> Some (JStr generation)
                    then Inl (invalidCursor ''List cursor does not match the active Host Runtime sessions'')
                    else Inr positions
                | None \<Rightarrow> Inl INVALID_CURSOR)
           | _ \<Rightarrow> Inl INVALID_CURSOR)
      | _ \<Rightarrow> Inl INVALID_CURSOR)"

definition isMergedListCursor :: "string \<Rightarrow> bool" where
  "isMergedListCursor cursor =
     (case canonical_json cursor of
        Some (JObj kvs) \<Rightarrow>
          (map_of kvs ''v'' = Some (JInt 1) \<or> map_of kvs ''v'' = Some (JInt 2)) \<and>
          (\<exists>g \<in> set_option (map_of kvs ''generation''). case g of JStr _ \<Rightarrow> True | _ \<Rightarrow> False) \<and>
          (\<exists>s \<in> set_option (map_of kvs ''sessions''). case s of JArr _ \<Rightarrow> True | _ \<Rightarrow> False)
      | _ \<Rightarrow> False)"

definition position_json :: "session_position \<Rightarrow> json" where
  "position_json p = (case p of None \<Rightarrow> JNull | Some c \<Rightarrow> JObj [(''cursor'', opt_json c)])"

definition merged_cursor :: "thread_list_input \<Rightarrow> string \<Rightarrow> session_position list \<Rightarrow> json" where
  "merged_cursor input generation positions =
     JObj [(''v'', JInt 2), (''cwd'', opt_json (ti_cwd input)), (''sort'', JStr (sort_text (ti_sort input))),
           (''generation'', JStr generation), (''sessions'', JArr (List.map position_json positions))]"

subsection \<open>The merge\<close>

type_synonym list_session = "thread_list_input list \<Rightarrow> thread_list_input \<Rightarrow> api_error + list_result"

record session_head =
  sh_row :: list_item
  sh_nextCursor :: "string option"

text \<open>What the arrays \<open>positions\<close>, \<open>requests\<close> and \<open>heads\<close> hold for one session, and the requests it ever got.\<close>

record session_side =
  sd_position :: session_position
  sd_requests :: nat
  sd_head :: "session_head option"
  sd_log :: "thread_list_input list"

definition MAX_SESSION_PAGE_REQUESTS :: nat where
  "MAX_SESSION_PAGE_REQUESTS = 256"

definition internal_error :: "string \<Rightarrow> api_error" where
  "internal_error message = ControlError ''INTERNAL_ERROR'' message False False"

function readHead ::
  "list_session \<Rightarrow> thread_list_input \<Rightarrow> session_side \<Rightarrow> (api_error + session_head option) \<times> session_side" where
  "readHead session input side =
     (case sd_position side of
        None \<Rightarrow> (Inr None, side)
      | Some cursor \<Rightarrow>
          if MAX_SESSION_PAGE_REQUESTS \<le> sd_requests side
          then (Inl (internal_error ''Thread list exceeded its request bound''),
                side\<lparr>sd_requests := Suc (sd_requests side)\<rparr>)
          else
            let request = input\<lparr>ti_limit := 1, ti_cursor := cursor\<rparr>;
                asked = side\<lparr>sd_requests := Suc (sd_requests side), sd_log := sd_log side @ [request]\<rparr>
            in case session (sd_log side) request of
                 Inl e \<Rightarrow> (Inl e, asked)
               | Inr page \<Rightarrow>
                   if 1 < length (lr_threads page) \<or> (lr_nextCursor page \<noteq> None \<and> lr_nextCursor page = cursor)
                   then (Inl (internal_error ''Thread list returned an invalid page''), asked)
                   else (case lr_threads page of
                           row # _ \<Rightarrow> (Inr (Some \<lparr>sh_row = row, sh_nextCursor = lr_nextCursor page\<rparr>), asked)
                         | [] \<Rightarrow> readHead session input (asked\<lparr>sd_position := map_option Some (lr_nextCursor page)\<rparr>)))"
  by pat_completeness auto
termination readHead
  by (relation "measure (\<lambda>(session, input, side). MAX_SESSION_PAGE_REQUESTS - sd_requests side)") auto

declare readHead.simps [simp del]

definition read_side ::
  "list_session \<Rightarrow> thread_list_input \<Rightarrow> session_side \<Rightarrow> (api_error + unit) \<times> session_side" where
  "read_side session input side =
     (case readHead session input side of
        (Inl e, side') \<Rightarrow> (Inl e, side')
      | (Inr head, side') \<Rightarrow> (Inr (), side'\<lparr>sd_head := head\<rparr>))"

text \<open>The first of the smallest heads.\<close>

definition better_head ::
  "(list_item \<Rightarrow> list_item \<Rightarrow> int) \<Rightarrow> (nat \<times> session_head) option \<Rightarrow> nat \<times> session_head option \<Rightarrow>
   (nat \<times> session_head) option" where
  "better_head cmp best entry =
     (case snd entry of
        None \<Rightarrow> best
      | Some h \<Rightarrow>
          (case best of
             None \<Rightarrow> Some (fst entry, h)
           | Some b \<Rightarrow> if cmp (sh_row h) (sh_row (snd b)) < 0 then Some (fst entry, h) else best))"

definition best_head ::
  "(list_item \<Rightarrow> list_item \<Rightarrow> int) \<Rightarrow> session_head option list \<Rightarrow> (nat \<times> session_head) option" where
  "best_head cmp heads = foldl (better_head cmp) None (enumerate 0 heads)"

text \<open>The loop; \<open>n\<close> is how many rows are still wanted.\<close>

fun merge_heads ::
  "(list_item \<Rightarrow> list_item \<Rightarrow> int) \<Rightarrow> list_session list \<Rightarrow> thread_list_input \<Rightarrow> nat \<Rightarrow> session_side list \<Rightarrow>
   (api_error + list_item list) \<times> session_side list" where
  "merge_heads cmp sessions input 0 sides = (Inr [], sides)"
| "merge_heads cmp sessions input (Suc n) sides =
     (case best_head cmp (List.map sd_head sides) of
        None \<Rightarrow> (Inr [], sides)
      | Some (i, h) \<Rightarrow>
          let moved = (sides ! i)\<lparr>sd_position := map_option Some (sh_nextCursor h)\<rparr>
          in if n = 0 then (Inr [sh_row h], sides[i := moved])
             else (case read_side (sessions ! i) input moved of
                     (Inl e, side) \<Rightarrow> (Inl e, sides[i := side])
                   | (Inr _, side) \<Rightarrow>
                       (case merge_heads cmp sessions input n (sides[i := side]) of
                          (Inl e, sides') \<Rightarrow> (Inl e, sides')
                        | (Inr rows, sides') \<Rightarrow> (Inr (sh_row h # rows), sides'))))"

text \<open>\<open>Promise.all\<close> of the first reads: \<open>settled\<close> is the order in which they settle, which decides the error.\<close>

definition first_reads ::
  "nat list \<Rightarrow> list_session list \<Rightarrow> thread_list_input \<Rightarrow> session_side list \<Rightarrow> (api_error + unit) \<times> session_side list" where
  "first_reads settled sessions input sides =
     (let reads = List.map2 (\<lambda>session side. read_side session input side) sessions sides;
          failed = List.map_filter (\<lambda>i. if i < length reads then (case fst (reads ! i) of Inl e \<Rightarrow> Some e | Inr _ \<Rightarrow> None) else None)
                     (settled @ [0..<length reads])
      in (case failed of [] \<Rightarrow> Inr () | e # _ \<Rightarrow> Inl e, List.map snd reads))"

definition start_positions ::
  "thread_list_input \<Rightarrow> nat \<Rightarrow> string \<Rightarrow> api_error + session_position list" where
  "start_positions input sessions generation =
     (case ti_cursor input of
        Some c \<Rightarrow> if c = [] then Inr (replicate sessions (Some None)) else decodeMergedCursor c input sessions generation
      | None \<Rightarrow> Inr (replicate sessions (Some None)))"

definition merged_result :: "thread_list_input \<Rightarrow> string \<Rightarrow> list_item list \<Rightarrow> session_side list \<Rightarrow> list_result" where
  "merged_result input generation rows sides =
     \<lparr>lr_threads = rows,
      lr_nextCursor =
        (if \<exists>side \<in> set sides. sd_position side \<noteq> None
         then Some (base64url_json (merged_cursor input generation (List.map sd_position sides))) else None)\<rparr>"

text \<open>The logs hold what every session was asked before; they come back with the requests of this call.\<close>

definition mergeThreadListPages ::
  "nat list \<Rightarrow> list_session list \<Rightarrow> thread_list_input \<Rightarrow> (list_item \<Rightarrow> list_item \<Rightarrow> int) \<Rightarrow> string \<Rightarrow>
   thread_list_input list list \<Rightarrow> (api_error + list_result) \<times> thread_list_input list list" where
  "mergeThreadListPages settled sessions input cmp generation logs =
     (if ti_limit input \<le> 0 \<or> 100 < ti_limit input
      then (Inl (invalidCursor ''List limit must be between 1 and 100''), logs)
      else
        (case start_positions input (length sessions) generation of
           Inl e \<Rightarrow> (Inl e, logs)
         | Inr positions \<Rightarrow>
             let sides = List.map2 (\<lambda>p log. \<lparr>sd_position = p, sd_requests = 0, sd_head = None, sd_log = log\<rparr>) positions logs
             in (case first_reads settled sessions input sides of
                   (Inl e, sides') \<Rightarrow> (Inl e, List.map sd_log sides')
                 | (Inr _, sides') \<Rightarrow>
                     (case merge_heads cmp sessions input (nat (ti_limit input)) sides' of
                        (Inl e, sides'') \<Rightarrow> (Inl e, List.map sd_log sides'')
                      | (Inr rows, sides'') \<Rightarrow>
                          (Inr (merged_result input generation rows sides''), List.map sd_log sides'')))))"

end
