(* ===== verification/DelegationRegistry.thy ===== *)
theory DelegationRegistry
  imports MergedList
begin

text \<open>
  The registry of Host sessions: \<open>packages/host-runtime/src/delegation-control-registry.ts\<close>. A registration
  is a number; what it answers (\<open>ownsThread\<close>, \<open>canHandleStart\<close>, \<open>executionHostId\<close>, \<open>list\<close>) is an argument.
  A request is answered by the one session it is routed to, by a remote Host, or by the merge.
\<close>

record registry =
  rg_registrations :: "nat list"
  rg_instanceId :: string
  rg_generation :: nat
  rg_catalog :: "nat option"

definition new_registry :: "string \<Rightarrow> registry" where
  "new_registry instanceId = \<lparr>rg_registrations = [], rg_instanceId = instanceId, rg_generation = 0, rg_catalog = None\<rparr>"

definition register :: "nat \<Rightarrow> bool \<Rightarrow> registry \<Rightarrow> registry" where
  "register i harnessCatalog r =
     r\<lparr>rg_registrations := (if i \<in> set (rg_registrations r) then rg_registrations r else rg_registrations r @ [i]),
       rg_generation := Suc (rg_generation r),
       rg_catalog := (if harnessCatalog then Some i else rg_catalog r)\<rparr>"

text \<open>What \<open>register\<close> returned.\<close>

definition unregister :: "nat \<Rightarrow> registry \<Rightarrow> registry" where
  "unregister i r =
     r\<lparr>rg_registrations := filter (\<lambda>j. j \<noteq> i) (rg_registrations r),
       rg_generation := (if i \<in> set (rg_registrations r) then Suc (rg_generation r) else rg_generation r),
       rg_catalog := (if rg_catalog r = Some i then None else rg_catalog r)\<rparr>"

datatype registry_event = Registered nat bool | Unregistered nat

fun registry_step :: "registry \<Rightarrow> registry_event \<Rightarrow> registry" where
  "registry_step r (Registered i catalog) = register i catalog r"
| "registry_step r (Unregistered i) = unregister i r"

subsection \<open>Routing\<close>

definition ambiguous :: "string \<Rightarrow> api_error" where
  "ambiguous message = ControlError ''PARENT_THREAD_AMBIGUOUS'' message False False"

definition only :: "'a list \<Rightarrow> string \<Rightarrow> api_error + 'a" where
  "only xs message = (case xs of [x] \<Rightarrow> Inr x | _ \<Rightarrow> Inl (ambiguous message))"

definition inspect_route :: "registry \<Rightarrow> api_error + nat" where
  "inspect_route r =
     (case rg_catalog r of
        Some c \<Rightarrow> Inr c
      | None \<Rightarrow> only (rg_registrations r) ''Harness inspection requires exactly one active Host Runtime session'')"

definition listHarnesses_route :: "registry \<Rightarrow> api_error + nat" where
  "listHarnesses_route r =
     (case rg_catalog r of
        Some c \<Rightarrow> Inr c
      | None \<Rightarrow> only (rg_registrations r) ''Harness discovery requires exactly one active Host Runtime session'')"

definition registrationForStart :: "registry \<Rightarrow> (nat \<Rightarrow> bool) \<Rightarrow> string option \<Rightarrow> api_error + nat" where
  "registrationForStart r canHandle parentThreadId =
     only (filter canHandle (rg_registrations r))
       (if parentThreadId \<noteq> None \<and> parentThreadId \<noteq> Some []
        then ''Parent Thread is not owned by exactly one active Host Runtime session''
        else ''Parent Thread cannot be inferred uniquely; pass --parent-thread explicitly'')"

text \<open>The catalog is read after the owners answered, which takes a while: it is an argument of its own.\<close>

definition registrationForThread :: "nat list \<Rightarrow> (nat \<Rightarrow> bool) \<Rightarrow> nat option \<Rightarrow> api_error + nat" where
  "registrationForThread registrations owns catalog =
     (case filter owns registrations of
        [m] \<Rightarrow> Inr m
      | _ # _ # _ \<Rightarrow> Inl (ambiguous ''Thread is not owned by exactly one active Host Runtime session'')
      | [] \<Rightarrow>
          (case catalog of
             Some c \<Rightarrow> Inr c
           | None \<Rightarrow>
               (case registrations of
                  [m] \<Rightarrow> Inr m
                | _ \<Rightarrow> Inl (ambiguous ''Thread is not owned by exactly one active Host Runtime session''))))"

datatype read_route = ReadFrom nat | ReadAs nat string | ReadRemote

definition remote_unavailable :: api_error where
  "remote_unavailable = ControlError ''RUNTIME_UNREACHABLE'' ''Remote Thread reading is unavailable'' False False"

text \<open>
  \<open>read\<close>: \<open>owns\<close> answers for a Thread. A caller that runs on the very Host it names reads locally and
  gets the name of the Host back.
\<close>

definition remote_read_route :: "bool \<Rightarrow> string \<Rightarrow> api_error + read_route" where
  "remote_read_route remoteRead hostId =
     (if hostId = [] \<or> \<not> remoteRead then Inl remote_unavailable else Inr ReadRemote)"

definition local_callers ::
  "registry \<Rightarrow> (string \<Rightarrow> nat \<Rightarrow> bool) \<Rightarrow> (nat \<Rightarrow> string \<Rightarrow> string option) \<Rightarrow> string \<Rightarrow> string option \<Rightarrow> nat list" where
  "local_callers r owns executionHostId hostId callerThreadId =
     (case callerThreadId of
        None \<Rightarrow> []
      | Some caller \<Rightarrow>
          if caller = [] then []
          else filter (\<lambda>i. executionHostId i caller = Some hostId \<and> owns caller i) (rg_registrations r))"

definition read_route_of ::
  "registry \<Rightarrow> bool \<Rightarrow> (string \<Rightarrow> nat \<Rightarrow> bool) \<Rightarrow> (nat \<Rightarrow> string \<Rightarrow> string option) \<Rightarrow> string \<Rightarrow> string option \<Rightarrow>
   string option \<Rightarrow> api_error + read_route" where
  "read_route_of r remoteRead owns executionHostId threadId hostId callerThreadId =
     (case hostId of
        Some h \<Rightarrow>
          if h = ''local''
          then bindE (registrationForThread (rg_registrations r) (owns threadId) (rg_catalog r)) (\<lambda>i. Inr (ReadFrom i))
          else
            (case local_callers r owns executionHostId h callerThreadId of
               [] \<Rightarrow> remote_read_route remoteRead h
             | [_] \<Rightarrow> bindE (registrationForThread (rg_registrations r) (owns threadId) (rg_catalog r)) (\<lambda>i. Inr (ReadAs i h))
             | _ \<Rightarrow> Inl (ambiguous ''Calling Thread has ambiguous execution Host context''))
      | None \<Rightarrow> bindE (registrationForThread (rg_registrations r) (owns threadId) (rg_catalog r)) (\<lambda>i. Inr (ReadFrom i)))"

definition wait_route :: "registry \<Rightarrow> (nat \<Rightarrow> bool) \<Rightarrow> string option \<Rightarrow> api_error + nat" where
  "wait_route r owns hostId =
     (if hostId \<noteq> None \<and> hostId \<noteq> Some ''local''
      then Inl (ControlError ''INVALID_ARGUMENT'' ''Remote Hosts support thread read only'' False False)
      else registrationForThread (rg_registrations r) owns (rg_catalog r))"

subsection \<open>Lists\<close>

datatype list_route = ListFrom nat | MergeAll "nat list" string

definition merged_cursor_given :: "thread_list_input \<Rightarrow> bool" where
  "merged_cursor_given input = (case ti_cursor input of None \<Rightarrow> False | Some c \<Rightarrow> c \<noteq> [] \<and> isMergedListCursor c)"

definition registry_generation :: "registry \<Rightarrow> string" where
  "registry_generation r = rg_instanceId r @ '':'' @ nat_string (rg_generation r)"

definition list_route_of :: "registry \<Rightarrow> (string \<Rightarrow> nat \<Rightarrow> bool) \<Rightarrow> thread_list_input \<Rightarrow> api_error + list_route" where
  "list_route_of r owns input =
     (let parent = (if ti_parentThreadId input = Some [] then None else ti_parentThreadId input) in
      if (parent \<noteq> None \<or> rg_catalog r \<noteq> None) \<and> merged_cursor_given input
      then Inl (invalidCursor ''List cursor does not match the current Thread list source'')
      else
        (case parent of
           Some p \<Rightarrow> bindE (registrationForThread (rg_registrations r) (owns p) (rg_catalog r)) (\<lambda>i. Inr (ListFrom i))
         | None \<Rightarrow>
             (case rg_catalog r of
                Some c \<Rightarrow> Inr (ListFrom c)
              | None \<Rightarrow>
                  (case rg_registrations r of
                     [] \<Rightarrow> Inl (ambiguous ''Thread list requires an active Host Runtime session'')
                   | [i] \<Rightarrow>
                       if merged_cursor_given input
                       then Inl (invalidCursor ''List cursor does not match the active Host Runtime sessions'')
                       else Inr (ListFrom i)
                   | rs \<Rightarrow> Inr (MergeAll rs (registry_generation r))))))"

text \<open>The logs of the sessions, by registration.\<close>

definition set_logs :: "nat list \<Rightarrow> thread_list_input list list \<Rightarrow> (nat \<Rightarrow> thread_list_input list) \<Rightarrow> nat \<Rightarrow> thread_list_input list" where
  "set_logs rs logs old = (\<lambda>i. case map_of (zip rs logs) i of Some log \<Rightarrow> log | None \<Rightarrow> old i)"

definition registry_list ::
  "nat list \<Rightarrow> (string \<Rightarrow> int option) \<Rightarrow> (string \<Rightarrow> string \<Rightarrow> int) \<Rightarrow> registry \<Rightarrow> (string \<Rightarrow> nat \<Rightarrow> bool) \<Rightarrow>
   (nat \<Rightarrow> list_session) \<Rightarrow> thread_list_input \<Rightarrow> (nat \<Rightarrow> thread_list_input list) \<Rightarrow>
   (api_error + list_result) \<times> (nat \<Rightarrow> thread_list_input list)" where
  "registry_list settled date_parse localeCompare r owns api input logs =
     (case list_route_of r owns input of
        Inl e \<Rightarrow> (Inl e, logs)
      | Inr (ListFrom i) \<Rightarrow> (api i (logs i) input, logs(i := logs i @ [input]))
      | Inr (MergeAll rs generation) \<Rightarrow>
          (case mergeThreadListPages settled (List.map api rs) input (compareThreads date_parse localeCompare (ti_sort input))
                  generation (List.map logs rs) of
             (result, logs') \<Rightarrow> (result, set_logs rs logs' logs)))"

end
