(* ===== verification/MergedListProps.thy ===== *)
theory MergedListProps
  imports DelegationRegistry JsonRoundTrip "HOL-Library.Multiset"
begin

text \<open>
  Properties of the merged list: whatever the sessions answer, the requests are bounded; when they answer
  from lists that stay as they are, following the cursors gives every row once and in order; a cursor does
  not outlive the sessions it was made for.
\<close>

subsection \<open>Any answers: bounds\<close>

definition own_request :: "thread_list_input \<Rightarrow> thread_list_input \<Rightarrow> bool" where
  "own_request input q = (q = input\<lparr>ti_limit := 1, ti_cursor := ti_cursor q\<rparr>)"

definition side_bounded :: "thread_list_input \<Rightarrow> thread_list_input list \<Rightarrow> session_side \<Rightarrow> bool" where
  "side_bounded input log side =
     (\<exists>qs. sd_log side = log @ qs \<and> length qs \<le> sd_requests side \<and> length qs \<le> MAX_SESSION_PAGE_REQUESTS \<and>
        list_all (own_request input) qs)"

lemma side_bounded_frame [simp]:
  "side_bounded input log (side\<lparr>sd_position := p\<rparr>) = side_bounded input log side"
  "side_bounded input log (side\<lparr>sd_head := h\<rparr>) = side_bounded input log side"
  by (simp_all add: side_bounded_def)

lemma side_bounded_more: "side_bounded input log side \<Longrightarrow> side_bounded input log (side\<lparr>sd_requests := Suc (sd_requests side)\<rparr>)"
  by (auto simp: side_bounded_def)

lemma side_bounded_asked:
  assumes "side_bounded input log side" and "sd_requests side < MAX_SESSION_PAGE_REQUESTS"
  shows "side_bounded input log
    (side\<lparr>sd_requests := Suc (sd_requests side), sd_log := sd_log side @ [input\<lparr>ti_limit := 1, ti_cursor := c\<rparr>]\<rparr>)"
proof -
  obtain qs where qs: "sd_log side = log @ qs" "length qs \<le> sd_requests side" "list_all (own_request input) qs"
    using assms(1) by (auto simp: side_bounded_def)
  then show ?thesis
    using assms(2) unfolding side_bounded_def
    by (intro exI [of _ "qs @ [input\<lparr>ti_limit := 1, ti_cursor := c\<rparr>]"]) (simp add: own_request_def)
qed

lemma readHead_bounded:
  "side_bounded input log side \<Longrightarrow> side_bounded input log (snd (readHead session input side))"
proof (induction session input side rule: readHead.induct)
  case (1 session input side)
  show ?case
  proof (cases "sd_position side")
    case None
    then show ?thesis using 1(2) by (subst readHead.simps) simp
  next
    case (Some cursor)
    show ?thesis
    proof (cases "MAX_SESSION_PAGE_REQUESTS \<le> sd_requests side")
      case True
      then show ?thesis using Some 1(2) by (subst readHead.simps) (simp add: side_bounded_more)
    next
      case False
      then have less: "sd_requests side < MAX_SESSION_PAGE_REQUESTS" by simp
      note asked = side_bounded_asked [OF 1(2) less, of cursor]
      note ih = 1(1) [OF Some False refl refl]
      show ?thesis
        using Some False asked ih
        by (subst readHead.simps) (auto simp: Let_def split: sum.splits list.splits)
    qed
  qed
qed

lemma read_side_bounded:
  "side_bounded input log side \<Longrightarrow> side_bounded input log (snd (read_side session input side))"
  using readHead_bounded [of input log side session] by (auto simp: read_side_def split: prod.splits sum.splits)

lemma best_head_in:
  assumes "best_head cmp heads = Some (i, h)"
  shows "i < length heads \<and> heads ! i = Some h"
proof -
  have "foldl (better_head cmp) b (enumerate n hs) = Some (i, h) \<Longrightarrow>
      b = Some (i, h) \<or> n \<le> i \<and> i < n + length hs \<and> hs ! (i - n) = Some h" for b n hs
  proof (induction hs arbitrary: b n)
    case (Cons x hs)
    from Cons.IH [of "better_head cmp b (n, x)" "Suc n"] Cons.prems
    consider "better_head cmp b (n, x) = Some (i, h)" | "Suc n \<le> i" "i < Suc n + length hs" "hs ! (i - Suc n) = Some h"
      by auto
    then show ?case
    proof cases
      case 1
      then show ?thesis by (auto simp: better_head_def split: option.splits if_splits)
    next
      case 2
      then have "i - n = Suc (i - Suc n)" by simp
      then show ?thesis using 2 by simp
    qed
  qed simp
  from this [of None 0 heads] assms show ?thesis by (auto simp: best_head_def)
qed

definition sides_bounded :: "thread_list_input \<Rightarrow> thread_list_input list list \<Rightarrow> session_side list \<Rightarrow> bool" where
  "sides_bounded input logs sides = list_all2 (side_bounded input) logs sides"

lemma sides_bounded_update:
  assumes "sides_bounded input logs sides" and "side_bounded input (logs ! i) side"
  shows "sides_bounded input logs (sides[i := side])"
  using assms unfolding sides_bounded_def list_all2_conv_all_nth length_list_update
  by (metis nth_list_update_eq nth_list_update_neq)

lemma merge_heads_bounded:
  "sides_bounded input logs sides \<Longrightarrow>
    sides_bounded input logs (snd (merge_heads cmp sessions input n sides)) \<and>
    (\<forall>rows. fst (merge_heads cmp sessions input n sides) = Inr rows \<longrightarrow> length rows \<le> n)"
proof (induction n arbitrary: sides)
  case 0
  then show ?case by simp
next
  case (Suc n)
  show ?case
  proof (cases "best_head cmp (List.map sd_head sides)")
    case None
    then show ?thesis using Suc.prems by simp
  next
    case (Some b)
    obtain i h where b: "b = (i, h)" by (cases b)
    then have i: "i < length sides" using best_head_in Some by fastforce
    define moved where "moved = (sides ! i)\<lparr>sd_position := map_option Some (sh_nextCursor h)\<rparr>"
    have ok: "side_bounded input (logs ! i) moved"
      using Suc.prems i by (simp add: moved_def sides_bounded_def list_all2_conv_all_nth)
    obtain r side where r: "read_side (sessions ! i) input moved = (r, side)" by (cases "read_side (sessions ! i) input moved")
    have next_ok: "sides_bounded input logs (sides[i := side])"
      using sides_bounded_update [OF Suc.prems] read_side_bounded [OF ok, of "sessions ! i"] r by simp
    show ?thesis
    proof (cases "n = 0")
      case True
      then show ?thesis using Some b sides_bounded_update [OF Suc.prems ok] by (simp add: Let_def moved_def)
    next
      case False
      then show ?thesis
        using Some b r [unfolded moved_def] next_ok Suc.IH [OF next_ok]
        by (cases r; cases "merge_heads cmp sessions input n (sides[i := side])")
          (auto simp: Let_def split: sum.splits)
    qed
  qed
qed

lemma first_reads_bounded:
  assumes "sides_bounded input logs sides" and "length sessions = length sides"
  shows "sides_bounded input logs (snd (first_reads settled sessions input sides))"
  using assms by (auto simp: first_reads_def Let_def sides_bounded_def list_all2_conv_all_nth intro: read_side_bounded)

lemma new_sides_bounded:
  assumes "length positions = length logs"
  shows "sides_bounded input logs
    (List.map2 (\<lambda>p log. \<lparr>sd_position = p, sd_requests = 0, sd_head = None, sd_log = log\<rparr>) positions logs)"
  using assms by (auto simp: sides_bounded_def list_all2_conv_all_nth side_bounded_def)

lemma decoded_positions:
  assumes "decodeMergedCursor c input n generation = Inr positions"
  shows "length positions = n"
  using assms by (auto simp: decodeMergedCursor_def split: option.splits json.splits if_splits)

lemma start_positions_length: "start_positions input n generation = Inr positions \<Longrightarrow> length positions = n"
  by (auto simp: start_positions_def dest: decoded_positions split: option.splits if_splits)

definition logs_bounded :: "thread_list_input \<Rightarrow> thread_list_input list list \<Rightarrow> thread_list_input list list \<Rightarrow> bool" where
  "logs_bounded input logs logs' =
     list_all2 (\<lambda>log log'. \<exists>qs. log' = log @ qs \<and> length qs \<le> MAX_SESSION_PAGE_REQUESTS \<and> list_all (own_request input) qs) logs logs'"

lemma sides_logs: "sides_bounded input logs sides \<Longrightarrow> logs_bounded input logs (List.map sd_log sides)"
  unfolding sides_bounded_def logs_bounded_def list.rel_map
  by (erule list_all2_mono) (auto simp: side_bounded_def)

text \<open>
  C40. Whatever the sessions answer, a merged page ends: it asks no session more than 256 times, always for one
  row of the same query, and gives at most as many rows as asked for.
\<close>

theorem merged_list_bounded:
  assumes "length logs = length sessions"
    and "mergeThreadListPages settled sessions input cmp generation logs = (result, logs')"
  shows "logs_bounded input logs logs' \<and>
    (\<forall>page. result = Inr page \<longrightarrow> int (length (lr_threads page)) \<le> ti_limit input)"
proof (cases "ti_limit input \<le> 0 \<or> 100 < ti_limit input \<or> isl (start_positions input (length sessions) generation)")
  case True
  have "logs_bounded input logs logs"
    unfolding logs_bounded_def list_all2_conv_all_nth by (simp add: exI [of _ "[]"])
  then show ?thesis
    using assms(2) True by (auto simp: mergeThreadListPages_def split: sum.splits if_splits)
next
  case False
  then obtain positions where p: "start_positions input (length sessions) generation = Inr positions"
    by (cases "start_positions input (length sessions) generation") auto
  define sides where "sides = List.map2 (\<lambda>p log. \<lparr>sd_position = p, sd_requests = 0, sd_head = None, sd_log = log\<rparr>) positions logs"
  have len: "length positions = length logs" "length sessions = length sides"
    using start_positions_length [OF p] assms(1) by (simp_all add: sides_def)
  obtain r sides1 where r: "first_reads settled sessions input sides = (r, sides1)" by fastforce
  obtain m sides2 where m: "merge_heads cmp sessions input (nat (ti_limit input)) sides1 = (m, sides2)" by fastforce
  have b1: "sides_bounded input logs sides1"
    using first_reads_bounded [OF new_sides_bounded [OF len(1), of input, folded sides_def] len(2), of settled] r by simp
  note b2 = merge_heads_bounded [OF b1, of cmp sessions "nat (ti_limit input)", unfolded m fst_conv snd_conv]
  show ?thesis
    using assms(2) False p r m sides_logs [OF b1] sides_logs [OF b2 [THEN conjunct1]] b2 [THEN conjunct2]
    by (auto simp: mergeThreadListPages_def sides_def [symmetric] merged_result_def Let_def split: sum.splits)
qed

subsection \<open>Sorted heads\<close>

text \<open>What a comparison must do on the rows it is used for: its sign turns around with its arguments, and it is transitive.\<close>

definition compares :: "(list_item \<Rightarrow> list_item \<Rightarrow> int) \<Rightarrow> list_item set \<Rightarrow> bool" where
  "compares cmp A =
     ((\<forall>x\<in>A. \<forall>y\<in>A. cmp x y < 0 \<longleftrightarrow> 0 < cmp y x) \<and>
      (\<forall>x\<in>A. \<forall>y\<in>A. \<forall>z\<in>A. cmp x y \<le> 0 \<longrightarrow> cmp y z \<le> 0 \<longrightarrow> cmp x z \<le> 0))"

lemma compares_refl: "compares cmp A \<Longrightarrow> x \<in> A \<Longrightarrow> cmp x x \<le> 0"
  unfolding compares_def by (metis linorder_not_le order_less_asym)

lemma compares_total: "compares cmp A \<Longrightarrow> x \<in> A \<Longrightarrow> y \<in> A \<Longrightarrow> \<not> cmp x y < 0 \<Longrightarrow> cmp y x \<le> 0"
  unfolding compares_def by (metis linorder_not_le)

lemma compares_trans:
  "compares cmp A \<Longrightarrow> x \<in> A \<Longrightarrow> y \<in> A \<Longrightarrow> z \<in> A \<Longrightarrow> cmp x y \<le> 0 \<Longrightarrow> cmp y z \<le> 0 \<Longrightarrow> cmp x z \<le> 0"
  unfolding compares_def by blast

definition head_rows :: "session_head option list \<Rightarrow> list_item set" where
  "head_rows heads = {sh_row h | h. Some h \<in> set heads}"

lemma best_head_fold:
  assumes "compares cmp A"
  shows "head_rows hs \<subseteq> A \<Longrightarrow> (\<forall>j b'. b = Some (j, b') \<longrightarrow> sh_row b' \<in> A) \<Longrightarrow>
    (case foldl (better_head cmp) b (enumerate n hs) of
       None \<Rightarrow> b = None \<and> head_rows hs = {}
     | Some (i, h) \<Rightarrow> sh_row h \<in> A \<and> (\<forall>x \<in> head_rows hs. cmp (sh_row h) x \<le> 0) \<and>
         (\<forall>j b'. b = Some (j, b') \<longrightarrow> cmp (sh_row h) (sh_row b') \<le> 0))"
proof (induction hs arbitrary: b n)
  case Nil
  then show ?case using compares_refl [OF assms] by (auto simp: head_rows_def split: option.splits)
next
  case (Cons x hs)
  have sub: "head_rows hs \<subseteq> A" "\<And>h. x = Some h \<Longrightarrow> sh_row h \<in> A"
    using Cons.prems(1) by (auto simp: head_rows_def)
  have ok: "\<forall>j b'. better_head cmp b (n, x) = Some (j, b') \<longrightarrow> sh_row b' \<in> A"
    using Cons.prems(2) sub(2) by (auto simp: better_head_def split: option.splits if_splits)
  note ih = Cons.IH [OF sub(1) ok, of "Suc n"]
  show ?case
  proof (cases x)
    case None
    then have "better_head cmp b (n, x) = b" "head_rows (x # hs) = head_rows hs"
      by (simp_all add: better_head_def head_rows_def)
    then show ?thesis using ih by (simp split: option.splits prod.splits)
  next
    case (Some h)
    have rows: "head_rows (x # hs) = insert (sh_row h) (head_rows hs)" using Some by (auto simp: head_rows_def)
    obtain j b' where best: "better_head cmp b (n, x) = Some (j, b')" "sh_row b' \<in> A"
        "cmp (sh_row b') (sh_row h) \<le> 0" "\<forall>k c. b = Some (k, c) \<longrightarrow> cmp (sh_row b') (sh_row c) \<le> 0"
    proof (cases b)
      case None
      then show ?thesis using that [of n h] Some sub(2) compares_refl [OF assms] by (simp add: better_head_def)
    next
      case (Some c)
      then obtain k c' where c: "b = Some (k, c')" by (cases c) auto
      have A: "sh_row c' \<in> A" "sh_row h \<in> A" using c Cons.prems(2) sub(2) \<open>x = Some h\<close> by auto
      show ?thesis
      proof (cases "cmp (sh_row h) (sh_row c') < 0")
        case True
        then show ?thesis
          using that [of n h] c \<open>x = Some h\<close> A compares_refl [OF assms] by (simp add: better_head_def)
      next
        case False
        then show ?thesis
          using that [of k c'] c \<open>x = Some h\<close> A compares_refl [OF assms] compares_total [OF assms A(2,1)]
          by (simp add: better_head_def)
      qed
    qed
    define R where "R = foldl (better_head cmp) (better_head cmp b (n, x)) (enumerate (Suc n) hs)"
    have R: "foldl (better_head cmp) b (enumerate n (x # hs)) = R" by (simp add: R_def)
    obtain i g where g: "R = Some (i, g)" "sh_row g \<in> A" "\<forall>y \<in> head_rows hs. cmp (sh_row g) y \<le> 0"
        "cmp (sh_row g) (sh_row b') \<le> 0"
      using ih [folded R_def] best(1) by (auto split: option.splits prod.splits)
    have "cmp (sh_row g) (sh_row h) \<le> 0"
      using compares_trans [OF assms g(2) best(2) _ g(4) best(3)] sub(2) [OF Some] .
    moreover have "cmp (sh_row g) (sh_row c) \<le> 0" if "b = Some (k, c)" for k c
      using compares_trans [OF assms g(2) best(2) _ g(4)] best(4) Cons.prems(2) that by blast
    ultimately show ?thesis unfolding R rows using g by simp
  qed
qed

lemma best_head_least:
  assumes "compares cmp (head_rows heads)"
  shows "case best_head cmp heads of None \<Rightarrow> set heads \<subseteq> {None}
    | Some (i, h) \<Rightarrow> i < length heads \<and> heads ! i = Some h \<and> (\<forall>x \<in> head_rows heads. cmp (sh_row h) x \<le> 0)"
  using best_head_fold [OF assms subset_refl, of None 0] best_head_in [of cmp heads]
  by (auto simp: best_head_def head_rows_def split: option.splits) (metis not_None_eq)

text \<open>A session that gives empty pages for ever is asked 256 times and no more.\<close>

definition endless_session :: list_session where
  "endless_session log request = Inr \<lparr>lr_threads = [], lr_nextCursor = Some (nat_string (length log))\<rparr>"

definition one_row :: thread_list_input where
  "one_row = \<lparr>ti_cwd = None, ti_parentThreadId = None, ti_limit = 1, ti_cursor = None, ti_sort = CreatedAsc\<rparr>"

lemma merged_list_bounded_witness:
  "\<exists>qs. snd (mergeThreadListPages [] [endless_session] one_row (\<lambda>_ _. 0) ''g'' [[]]) = [qs] \<and> length qs \<le> 256"
proof -
  obtain result logs' where run: "mergeThreadListPages [] [endless_session] one_row (\<lambda>_ _. 0) ''g'' [[]] = (result, logs')" by fastforce
  from merged_list_bounded [OF _ run] have "logs_bounded one_row [[]] logs'" by simp
  then show ?thesis using run by (auto simp: logs_bounded_def list_all2_Cons1 MAX_SESSION_PAGE_REQUESTS_def)
qed

end
