(* ===== verification/MergedListWalk.thy ===== *)
theory MergedListWalk
  imports MergedListProps
begin

text \<open>
  Following the cursors of the merged list. A session that answers from a list that stays as it is gives
  page \<open>k\<close> of its pages for the cursor \<open>token k\<close>; a page has one row or none, as where the session
  filters what it read.
\<close>

subsection \<open>The reference: merging lists\<close>

fun somes :: "'a option list \<Rightarrow> 'a list" where
  "somes [] = []"
| "somes (None # xs) = somes xs"
| "somes (Some x # xs) = x # somes xs"

definition head_of :: "list_item list \<Rightarrow> session_head option" where
  "head_of rows = (case rows of [] \<Rightarrow> None | x # _ \<Rightarrow> Some \<lparr>sh_row = x, sh_nextCursor = None\<rparr>)"

fun merge_lists ::
  "(list_item \<Rightarrow> list_item \<Rightarrow> int) \<Rightarrow> nat \<Rightarrow> list_item list list \<Rightarrow> list_item list \<times> list_item list list" where
  "merge_lists cmp 0 Ls = ([], Ls)"
| "merge_lists cmp (Suc n) Ls =
     (case best_head cmp (List.map head_of Ls) of
        None \<Rightarrow> ([], Ls)
      | Some (i, h) \<Rightarrow>
          (case merge_lists cmp n (Ls[i := tl (Ls ! i)]) of (rows, rest) \<Rightarrow> (sh_row h # rows, rest)))"

lemma head_of_best:
  assumes "best_head cmp (List.map head_of Ls) = Some (i, h)"
  shows "i < length Ls \<and> Ls ! i = sh_row h # tl (Ls ! i)"
  using best_head_in [OF assms] by (auto simp: head_of_def split: list.splits)

lemma best_head_none:
  assumes "best_head cmp heads = None"
  shows "set heads \<subseteq> {None}"
proof -
  have "foldl (better_head cmp) b (enumerate n hs) = None \<Longrightarrow> b = None \<and> set hs \<subseteq> {None}" for b n hs
  proof (induction hs arbitrary: b n)
    case (Cons x hs)
    from Cons.IH [of "better_head cmp b (n, x)" "Suc n"] Cons.prems show ?case
      by (auto simp: better_head_def split: option.splits if_splits)
  qed simp
  then show ?thesis using assms unfolding best_head_def by blast
qed

lemma mset_concat_tl:
  assumes "i < length Ls" "Ls ! i = x # xs"
  shows "mset (concat Ls) = add_mset x (mset (concat (Ls[i := xs])))"
proof -
  have "Ls = take i Ls @ (x # xs) # drop (Suc i) Ls" using assms by (metis id_take_nth_drop)
  then have "concat Ls = concat (take i Ls) @ (x # xs) @ concat (drop (Suc i) Ls)" by (metis concat.simps(2) concat_append)
  moreover have "concat (Ls[i := xs]) = concat (take i Ls) @ xs @ concat (drop (Suc i) Ls)"
    using assms(1) by (simp add: upd_conv_take_nth_drop)
  ultimately show ?thesis by simp
qed

lemma merge_lists_mset:
  "mset (fst (merge_lists cmp n Ls)) + mset (concat (snd (merge_lists cmp n Ls))) = mset (concat Ls)"
proof (induction n arbitrary: Ls)
  case (Suc n)
  show ?case
  proof (cases "best_head cmp (List.map head_of Ls)")
    case (Some b)
    obtain i h where b: "b = (i, h)" by (cases b)
    then have "i < length Ls" "Ls ! i = sh_row h # tl (Ls ! i)" using head_of_best Some by fastforce+
    from mset_concat_tl [OF this] Suc.IH [of "Ls[i := tl (Ls ! i)]"] show ?thesis
      using Some b by (cases "merge_lists cmp n (Ls[i := tl (Ls ! i)])") simp
  qed simp
qed simp

lemma merge_lists_add:
  "merge_lists cmp (m + n) Ls =
    (case merge_lists cmp m Ls of (rows, rest) \<Rightarrow>
       (case merge_lists cmp n rest of (rows', rest') \<Rightarrow> (rows @ rows', rest')))"
proof (induction m arbitrary: Ls)
  case 0
  then show ?case by (simp split: prod.splits)
next
  case (Suc m)
  show ?case
  proof (cases "best_head cmp (List.map head_of Ls)")
    case None
    then have "merge_lists cmp n Ls = ([], Ls)" by (cases n) simp_all
    then show ?thesis using None by simp
  next
    case (Some b)
    obtain i h where "b = (i, h)" by (cases b)
    then show ?thesis using Some Suc.IH [of "Ls[i := tl (Ls ! i)]"] by (simp split: prod.splits)
  qed
qed

lemma merge_lists_short:
  "length (fst (merge_lists cmp n Ls)) < n \<Longrightarrow> concat (snd (merge_lists cmp n Ls)) = []"
proof (induction n arbitrary: Ls)
  case (Suc n)
  show ?case
  proof (cases "best_head cmp (List.map head_of Ls)")
    case None
    then have "set (List.map head_of Ls) \<subseteq> {None}" by (rule best_head_none)
    then have "\<forall>L \<in> set Ls. L = []" by (auto simp: head_of_def split: list.splits)
    then show ?thesis using None by simp
  next
    case (Some b)
    obtain i h where b: "b = (i, h)" by (cases b)
    then show ?thesis using Some Suc.prems Suc.IH [of "Ls[i := tl (Ls ! i)]"] by (simp split: prod.splits)
  qed
qed simp

lemma merge_lists_sorted:
  assumes "compares cmp A"
  shows "set (concat Ls) \<subseteq> A \<Longrightarrow> list_all (sorted_wrt (\<lambda>x y. cmp x y \<le> 0)) Ls \<Longrightarrow>
    sorted_wrt (\<lambda>x y. cmp x y \<le> 0) (fst (merge_lists cmp n Ls))"
proof (induction n arbitrary: Ls)
  case (Suc n)
  show ?case
  proof (cases "best_head cmp (List.map head_of Ls)")
    case (Some b)
    obtain i h where b: "b = (i, h)" by (cases b)
    note best = head_of_best [OF Some [unfolded b]]
    let ?Ls = "Ls[i := tl (Ls ! i)]"
    have heads: "head_rows (List.map head_of Ls) \<subseteq> A" "x # xs \<in> set Ls \<Longrightarrow> x \<in> head_rows (List.map head_of Ls)" for x xs
      using Suc.prems(1) by (force simp: head_rows_def head_of_def split: list.splits)+
    have "compares cmp (head_rows (List.map head_of Ls))"
      using assms heads(1) unfolding compares_def by blast
    from best_head_least [OF this] have least: "\<forall>x \<in> head_rows (List.map head_of Ls). cmp (sh_row h) x \<le> 0"
      using Some b by simp
    have rows_in: "set L \<subseteq> A" if "L \<in> set Ls" for L
      using Suc.prems(1) that by (simp add: UN_subset_iff)
    have all: "cmp (sh_row h) y \<le> 0" if y: "y \<in> set (concat Ls)" for y
    proof -
      obtain L where L: "L \<in> set Ls" "y \<in> set L" using y by auto
      then have "L \<noteq> []" by auto
      then obtain x xs where x: "L = x # xs" by (auto simp: neq_Nil_conv)
      have "cmp (sh_row h) x \<le> 0" using least heads(2) L(1) x by blast
      moreover have "cmp x y \<le> 0 \<or> y = x" using Suc.prems(2) L x by (auto simp: list_all_iff)
      moreover have "x \<in> A" "y \<in> A" using rows_in [OF L(1)] L(2) x by auto
      moreover have "sh_row h \<in> A"
      proof -
        have "Ls ! i \<in> set Ls" using best by simp
        moreover have "sh_row h \<in> set (Ls ! i)" using best by (metis list.set_intros(1))
        ultimately show ?thesis using rows_in by blast
      qed
      ultimately show ?thesis using compares_trans [OF assms] by blast
    qed
    have sub: "set (concat ?Ls) \<subseteq> set (concat Ls)"
      using mset_concat_tl [of i Ls "sh_row h" "tl (Ls ! i)"] best by (metis set_mset_mset set_mset_add_mset_insert subset_insertI)
    have "sorted_wrt (\<lambda>x y. cmp x y \<le> 0) (tl (Ls ! i))"
      using Suc.prems(2) best by (metis list_all_length sorted_wrt.simps(2))
    then have "list_all (sorted_wrt (\<lambda>x y. cmp x y \<le> 0)) ?Ls"
      using Suc.prems(2) by (auto simp: list_all_iff dest: set_update_subset_insert [THEN subsetD])
    from Suc.IH [OF _ this] have "sorted_wrt (\<lambda>x y. cmp x y \<le> 0) (fst (merge_lists cmp n ?Ls))"
      using sub Suc.prems(1) by blast
    moreover have "set (fst (merge_lists cmp n ?Ls)) \<subseteq> set (concat ?Ls)"
      using merge_lists_mset [of cmp n ?Ls] by (metis mset_subset_eq_add_left set_mset_mono set_mset_mset)
    moreover from this have "\<forall>y \<in> set (fst (merge_lists cmp n ?Ls)). cmp (sh_row h) y \<le> 0" using all sub by blast
    ultimately show ?thesis using Some b by (cases "merge_lists cmp n ?Ls") simp
  qed simp
qed simp

subsection \<open>Sessions that keep their list\<close>

definition page_cursor :: "(nat \<Rightarrow> string) \<Rightarrow> nat \<Rightarrow> string option" where
  "page_cursor token k = (if k = 0 then None else Some (token k))"

definition page_next :: "'a list \<Rightarrow> (nat \<Rightarrow> string) \<Rightarrow> nat \<Rightarrow> string option" where
  "page_next pages token k = (if Suc k < length pages then Some (token (Suc k)) else None)"

definition page_position :: "'a list \<Rightarrow> (nat \<Rightarrow> string) \<Rightarrow> nat \<Rightarrow> session_position" where
  "page_position pages token k = (if k < length pages then Some (page_cursor token k) else None)"

text \<open>Of two neighbouring pages at least one has a row; tokens are distinct and not empty.\<close>

definition session_serves ::
  "list_session \<Rightarrow> thread_list_input \<Rightarrow> list_item option list \<Rightarrow> (nat \<Rightarrow> string) \<Rightarrow> bool" where
  "session_serves session input pages token =
     (pages \<noteq> [] \<and> inj token \<and> (\<forall>k. token k \<noteq> []) \<and>
      (\<forall>k. Suc k < length pages \<longrightarrow> pages ! k = None \<longrightarrow> pages ! Suc k \<noteq> None) \<and>
      (\<forall>k log. k < length pages \<longrightarrow>
         session log (input\<lparr>ti_limit := 1, ti_cursor := page_cursor token k\<rparr>) =
           Inr \<lparr>lr_threads = (case pages ! k of None \<Rightarrow> [] | Some row \<Rightarrow> [row]), lr_nextCursor = page_next pages token k\<rparr>))"

lemma session_serves_input [simp]:
  "session_serves session (input\<lparr>ti_limit := l, ti_cursor := c\<rparr>) pages token = session_serves session input pages token"
  by (simp add: session_serves_def)

definition page_head :: "list_item option list \<Rightarrow> (nat \<Rightarrow> string) \<Rightarrow> nat \<Rightarrow> session_head option" where
  "page_head pages token k =
     (if k < length pages then map_option (\<lambda>row. \<lparr>sh_row = row, sh_nextCursor = page_next pages token k\<rparr>) (pages ! k) else None)"

definition side_at :: "list_item option list \<Rightarrow> (nat \<Rightarrow> string) \<Rightarrow> nat \<Rightarrow> session_side \<Rightarrow> bool" where
  "side_at pages token k side =
     (sd_position side = page_position pages token k \<and> sd_head side = page_head pages token k \<and>
      (k < length pages \<longrightarrow> pages ! k \<noteq> None))"

lemma next_position: "map_option Some (page_next pages token k) = page_position pages token (Suc k)"
  by (simp add: page_next_def page_position_def page_cursor_def)

lemma next_differs:
  assumes "inj token" "page_next pages token k \<noteq> None"
  shows "page_next pages token k \<noteq> page_cursor token k"
  using assms by (auto simp: page_next_def page_cursor_def dest: injD split: if_splits)

lemma somes_drop:
  assumes "k < length pages"
  shows "somes (drop k pages) =
    (case pages ! k of None \<Rightarrow> somes (drop (Suc k) pages) | Some x \<Rightarrow> x # somes (drop (Suc k) pages))"
  using assms by (simp add: Cons_nth_drop_Suc [symmetric] split: option.splits)

lemma head_of_page:
  assumes "k < length pages \<longrightarrow> pages ! k \<noteq> None"
  shows "rel_option (\<lambda>a b. sh_row a = sh_row b) (page_head pages token k) (head_of (somes (drop k pages)))"
  using assms by (cases "k < length pages") (auto simp: page_head_def head_of_def somes_drop)

lemma readHead_here:
  assumes "session_serves session input pages token" and "k < length pages" and "pages ! k = Some row"
    and "sd_position side = page_position pages token k" and "sd_requests side < MAX_SESSION_PAGE_REQUESTS"
  shows "fst (readHead session input side) = Inr (page_head pages token k) \<and>
    sd_position (snd (readHead session input side)) = page_position pages token k \<and>
    sd_requests (snd (readHead session input side)) = Suc (sd_requests side)"
proof -
  have "page_next pages token k \<noteq> None \<longrightarrow> page_next pages token k \<noteq> page_cursor token k"
    using next_differs assms(1) by (auto simp: session_serves_def)
  then show ?thesis
    using assms by (subst (1 2 3) readHead.simps)
      (auto simp: session_serves_def page_position_def page_head_def Let_def)
qed

lemma readHead_end:
  "sd_position side = None \<Longrightarrow> readHead session input side = (Inr None, side)"
  by (subst readHead.simps) simp

lemma readHead_gap:
  assumes "session_serves session input pages token" and "k < length pages" and "pages ! k = None"
    and "sd_position side = page_position pages token k" and "sd_requests side < MAX_SESSION_PAGE_REQUESTS"
  shows "\<exists>log. readHead session input side =
    readHead session input (side\<lparr>sd_requests := Suc (sd_requests side), sd_log := log,
      sd_position := page_position pages token (Suc k)\<rparr>)"
proof -
  have "page_next pages token k \<noteq> None \<longrightarrow> page_next pages token k \<noteq> page_cursor token k"
    using next_differs assms(1) by (auto simp: session_serves_def)
  then show ?thesis
    using assms by (subst readHead.simps)
      (auto simp: session_serves_def page_position_def [of _ _ k] next_position Let_def)
qed

lemma read_side_serves:
  assumes "session_serves session input pages token" and "sd_position side = page_position pages token k"
    and "sd_requests side + 2 \<le> MAX_SESSION_PAGE_REQUESTS"
  shows "\<exists>k'. fst (read_side session input side) = Inr () \<and> side_at pages token k' (snd (read_side session input side)) \<and>
    sd_requests (snd (read_side session input side)) \<le> sd_requests side + 2 \<and>
    somes (drop k' pages) = somes (drop k pages)"
proof -
  have finish: "fst (read_side session input side) = Inr () \<and> side_at pages token k' (snd (read_side session input side)) \<and>
      sd_requests (snd (read_side session input side)) \<le> n"
    if "readHead session input side = (Inr (page_head pages token k'), side')" "sd_position side' = page_position pages token k'"
      "sd_requests side' \<le> n" "k' < length pages \<longrightarrow> pages ! k' \<noteq> None" for k' side' n
    using that by (simp add: read_side_def side_at_def)
  have at_end: "readHead session input s = (Inr (page_head pages token j), s)"
    if "sd_position s = page_position pages token j" "\<not> j < length pages" for s j
    using that readHead_end by (simp add: page_position_def page_head_def)
  show ?thesis
  proof (cases "k < length pages")
    case False
    show ?thesis using finish [OF at_end [OF assms(2) False] assms(2), of "sd_requests side + 2"] False by (intro exI [of _ k]) simp
  next
    case True
    show ?thesis
    proof (cases "pages ! k")
      case (Some row)
      from readHead_here [OF assms(1) True Some assms(2)] assms(3)
      obtain side' where "readHead session input side = (Inr (page_head pages token k), side')"
        "sd_position side' = page_position pages token k" "sd_requests side' = Suc (sd_requests side)"
        by (cases "readHead session input side") auto
      from finish [OF this(1,2), of "sd_requests side + 2"] this(3) Some show ?thesis by (intro exI [of _ k]) simp
    next
      case None
      then have drop: "somes (drop (Suc k) pages) = somes (drop k pages)" using True by (simp add: somes_drop)
      from readHead_gap [OF assms(1) True None assms(2)] assms(3) obtain log where
        log: "readHead session input side = readHead session input (side\<lparr>sd_requests := Suc (sd_requests side), sd_log := log,
            sd_position := page_position pages token (Suc k)\<rparr>)" by auto
      define side1 where "side1 = side\<lparr>sd_requests := Suc (sd_requests side), sd_log := log,
            sd_position := page_position pages token (Suc k)\<rparr>"
      have p1: "sd_position side1 = page_position pages token (Suc k)" "sd_requests side1 = Suc (sd_requests side)"
        by (simp_all add: side1_def)
      note log = log [folded side1_def]
      show ?thesis
      proof (cases "Suc k < length pages")
        case False
        show ?thesis
          using finish [of "Suc k" side1 "sd_requests side + 2"] log at_end [OF p1(1) False] p1 False drop
          by (intro exI [of _ "Suc k"]) simp
      next
        case next_page: True
        then obtain row where row: "pages ! Suc k = Some row" using assms(1) None by (auto simp: session_serves_def)
        from readHead_here [OF assms(1) next_page row p1(1)] assms(3) p1(2)
        obtain side' where "readHead session input side1 = (Inr (page_head pages token (Suc k)), side')"
          "sd_position side' = page_position pages token (Suc k)" "sd_requests side' = sd_requests side + 2"
          by (cases "readHead session input side1") auto
        from finish [OF this(1) [folded log] this(2), of "sd_requests side + 2"] this(3) row drop
        show ?thesis by (intro exI [of _ "Suc k"]) simp
      qed
    qed
  qed
qed

subsection \<open>The loop\<close>

lemma better_head_rows:
  assumes "rel_option (\<lambda>a b. fst a = fst b \<and> sh_row (snd a) = sh_row (snd b)) b b'"
    and "rel_option (\<lambda>a b. sh_row a = sh_row b) x x'"
  shows "rel_option (\<lambda>a b. fst a = fst b \<and> sh_row (snd a) = sh_row (snd b)) (better_head cmp b (n, x)) (better_head cmp b' (n, x'))"
  using assms by (cases b; cases b'; cases x; cases x') (auto simp: better_head_def)

lemma best_head_rows:
  assumes "list_all2 (rel_option (\<lambda>a b. sh_row a = sh_row b)) hs hs'"
  shows "rel_option (\<lambda>a b. fst a = fst b \<and> sh_row (snd a) = sh_row (snd b)) (best_head cmp hs) (best_head cmp hs')"
proof -
  have "list_all2 (rel_option (\<lambda>a b. sh_row a = sh_row b)) hs hs' \<Longrightarrow>
      rel_option (\<lambda>a b. fst a = fst b \<and> sh_row (snd a) = sh_row (snd b)) b b' \<Longrightarrow>
      rel_option (\<lambda>a b. fst a = fst b \<and> sh_row (snd a) = sh_row (snd b))
        (foldl (better_head cmp) b (enumerate n hs)) (foldl (better_head cmp) b' (enumerate n hs'))" for b b' n
    by (induction arbitrary: b b' n rule: list_all2_induct) (simp_all add: better_head_rows)
  then show ?thesis using assms unfolding best_head_def by simp
qed

definition remaining :: "list_item option list list \<Rightarrow> nat list \<Rightarrow> list_item list list" where
  "remaining P ks = List.map2 (\<lambda>pages k. somes (drop k pages)) P ks"

definition all_serve ::
  "list_session list \<Rightarrow> thread_list_input \<Rightarrow> list_item option list list \<Rightarrow> (nat \<Rightarrow> string) list \<Rightarrow> bool" where
  "all_serve sessions input P T =
     (length P = length sessions \<and> length T = length sessions \<and>
      (\<forall>i < length sessions. session_serves (sessions ! i) input (P ! i) (T ! i)))"

definition sides_at ::
  "list_item option list list \<Rightarrow> (nat \<Rightarrow> string) list \<Rightarrow> nat list \<Rightarrow> nat \<Rightarrow> session_side list \<Rightarrow> bool" where
  "sides_at P T ks bound sides =
     (length sides = length P \<and> length ks = length P \<and>
      (\<forall>i < length P. side_at (P ! i) (T ! i) (ks ! i) (sides ! i) \<and> sd_requests (sides ! i) + bound \<le> MAX_SESSION_PAGE_REQUESTS))"

definition positions_of :: "list_item option list list \<Rightarrow> (nat \<Rightarrow> string) list \<Rightarrow> nat list \<Rightarrow> session_position list" where
  "positions_of P T ks = List.map (\<lambda>i. page_position (P ! i) (T ! i) (ks ! i)) [0..<length P]"

lemma remaining_update:
  assumes "length ks = length P" "i < length P"
  shows "remaining P (ks[i := k]) = (remaining P ks)[i := somes (drop k (P ! i))]"
  by (rule nth_equalityI) (use assms in \<open>simp_all add: remaining_def nth_list_update\<close>)

lemma sides_positions: "sides_at P T ks bound sides \<Longrightarrow> List.map sd_position sides = positions_of P T ks"
  by (rule nth_equalityI) (simp_all add: sides_at_def side_at_def positions_of_def)

lemma positions_update:
  assumes "length ks = length P" "i < length P"
  shows "positions_of P T (ks[i := k]) = (positions_of P T ks)[i := page_position (P ! i) (T ! i) k]"
  by (rule nth_equalityI) (use assms in \<open>simp_all add: positions_of_def nth_list_update\<close>)

lemma merge_heads_serves:
  assumes "all_serve sessions input P T"
  shows "sides_at P T ks (2 * n) sides \<Longrightarrow>
    \<exists>ks'. length ks' = length P \<and>
      fst (merge_heads cmp sessions input n sides) = Inr (fst (merge_lists cmp n (remaining P ks))) \<and>
      List.map sd_position (snd (merge_heads cmp sessions input n sides)) = positions_of P T ks' \<and>
      remaining P ks' = snd (merge_lists cmp n (remaining P ks)) \<and>
      (length (fst (merge_lists cmp n (remaining P ks))) < n \<longrightarrow> set (positions_of P T ks') \<subseteq> {None})"
proof (induction n arbitrary: ks sides)
  case 0
  then have "List.map sd_position sides = positions_of P T ks" "length ks = length P"
    by (simp add: sides_positions, simp add: sides_at_def)
  then show ?case by (intro exI [of _ ks]) simp
next
  case (Suc n)
  have len: "length sides = length P" "length ks = length P" "length sessions = length P"
    using Suc.prems assms by (auto simp: sides_at_def all_serve_def)
  have at: "side_at (P ! i) (T ! i) (ks ! i) (sides ! i)" "sd_requests (sides ! i) + 2 * Suc n \<le> MAX_SESSION_PAGE_REQUESTS"
    if "i < length P" for i using Suc.prems that by (auto simp: sides_at_def)
  note pos = sides_positions [OF Suc.prems]
  have "list_all2 (rel_option (\<lambda>a b. sh_row a = sh_row b)) (List.map sd_head sides) (List.map head_of (remaining P ks))"
    using at len head_of_page by (auto simp: list_all2_conv_all_nth remaining_def side_at_def)
  note rel = best_head_rows [OF this, of cmp]
  show ?case
  proof (cases "best_head cmp (List.map sd_head sides)")
    case None
    then have none: "best_head cmp (List.map head_of (remaining P ks)) = None" using rel by (cases "best_head cmp (List.map head_of (remaining P ks))") auto
    have "sd_head (sides ! i) = None" if "i < length P" for i
      using best_head_none [OF None] len that nth_mem [of i sides] by (auto simp: image_subset_iff)
    then have "\<forall>i < length P. page_position (P ! i) (T ! i) (ks ! i) = None"
      using at(1) by (fastforce simp: side_at_def page_head_def page_position_def split: if_splits)
    then have "set (positions_of P T ks) \<subseteq> {None}" by (auto simp: positions_of_def)
    then show ?thesis using None none pos len by (intro exI [of _ ks]) simp
  next
    case (Some b)
    obtain i h where b: "b = (i, h)" by (cases b)
    from best_head_in [OF Some [unfolded b]] len have i: "i < length P" "sd_head (sides ! i) = Some h" by auto
    obtain h' where best: "best_head cmp (List.map head_of (remaining P ks)) = Some (i, h')" "sh_row h' = sh_row h"
      using rel Some b by (cases "best_head cmp (List.map head_of (remaining P ks))") auto
    have k: "ks ! i < length (P ! i)" "P ! i ! (ks ! i) = Some (sh_row h)" "sh_nextCursor h = page_next (P ! i) (T ! i) (ks ! i)"
      using at(1) [OF i(1)] i(2) by (auto simp: side_at_def page_head_def split: if_splits)
    define moved where "moved = (sides ! i)\<lparr>sd_position := map_option Some (sh_nextCursor h)\<rparr>"
    have moved: "sd_position moved = page_position (P ! i) (T ! i) (Suc (ks ! i))" "sd_requests moved = sd_requests (sides ! i)"
      by (simp_all add: moved_def k(3) next_position)
    have tl: "remaining P (ks[i := Suc (ks ! i)]) = (remaining P ks)[i := tl (remaining P ks ! i)]"
      using i(1) len k by (simp add: remaining_update) (simp add: remaining_def somes_drop)
    show ?thesis
    proof (cases "n = 0")
      case True
      let ?ks = "ks[i := Suc (ks ! i)]"
      have "List.map sd_position (sides[i := moved]) = positions_of P T ?ks"
        using pos moved(1) i(1) len by (simp add: positions_update map_update)
      then show ?thesis
        using Some b best True tl len by (intro exI [of _ ?ks]) (simp add: Let_def moved_def [symmetric])
    next
      case False
      from read_side_serves [of "sessions ! i" input "P ! i" "T ! i" moved "Suc (ks ! i)"] moved at(2) [OF i(1)] assms i(1) len
      obtain k' where k': "fst (read_side (sessions ! i) input moved) = Inr ()"
        "side_at (P ! i) (T ! i) k' (snd (read_side (sessions ! i) input moved))"
        "sd_requests (snd (read_side (sessions ! i) input moved)) \<le> sd_requests (sides ! i) + 2"
        "somes (drop k' (P ! i)) = somes (drop (Suc (ks ! i)) (P ! i))"
        by (auto simp: all_serve_def)
      define side where "side = snd (read_side (sessions ! i) input moved)"
      have read: "read_side (sessions ! i) input moved = (Inr (), side)" using k'(1) by (simp add: side_def prod_eq_iff)
      have "sides_at P T (ks[i := k']) (2 * n) (sides[i := side])"
        unfolding sides_at_def
      proof (intro conjI allI impI)
        fix j
        assume j: "j < length P"
        show "side_at (P ! j) (T ! j) (ks[i := k'] ! j) (sides[i := side] ! j)"
          using at(1) [OF j] k'(2) [folded side_def] len i(1) by (cases "j = i") simp_all
        show "sd_requests (sides[i := side] ! j) + 2 * n \<le> MAX_SESSION_PAGE_REQUESTS"
          using at(2) [OF j] k'(3) [folded side_def] len i(1) by (cases "j = i") simp_all
      qed (use len in simp_all)
      from Suc.IH [OF this]
      obtain ks' where ks': "length ks' = length P"
        "fst (merge_heads cmp sessions input n (sides[i := side])) = Inr (fst (merge_lists cmp n (remaining P (ks[i := k']))))"
        "List.map sd_position (snd (merge_heads cmp sessions input n (sides[i := side]))) = positions_of P T ks'"
        "remaining P ks' = snd (merge_lists cmp n (remaining P (ks[i := k'])))"
        "length (fst (merge_lists cmp n (remaining P (ks[i := k'])))) < n \<longrightarrow> set (positions_of P T ks') \<subseteq> {None}"
        by auto
      have rem: "remaining P (ks[i := k']) = (remaining P ks)[i := tl (remaining P ks ! i)]"
        using tl k'(4) i(1) len by (simp add: remaining_update)
      show ?thesis
        using Some b best False read ks' [unfolded rem]
        by (intro exI [of _ ks'])
          (cases "merge_heads cmp sessions input n (sides[i := side])"; cases "merge_lists cmp n ((remaining P ks)[i := tl (remaining P ks ! i)])";
            simp add: Let_def moved_def [symmetric])
    qed
  qed
qed

subsection \<open>A page\<close>

lemma first_reads_serve:
  assumes "all_serve sessions input P T" and "length ks = length P" "length sides = length P"
    and "List.map sd_position sides = positions_of P T ks" and "\<forall>side \<in> set sides. sd_requests side = 0"
  shows "\<exists>ks'. fst (first_reads settled sessions input sides) = Inr () \<and>
    sides_at P T ks' 254 (snd (first_reads settled sessions input sides)) \<and> remaining P ks' = remaining P ks"
proof -
  have "\<exists>k'. fst (read_side (sessions ! i) input (sides ! i)) = Inr () \<and>
      side_at (P ! i) (T ! i) k' (snd (read_side (sessions ! i) input (sides ! i))) \<and>
      sd_requests (snd (read_side (sessions ! i) input (sides ! i))) \<le> 2 \<and>
      somes (drop k' (P ! i)) = somes (drop (ks ! i) (P ! i))" if i: "i < length P" for i
  proof -
    have "List.map sd_position sides ! i = positions_of P T ks ! i" by (simp add: assms(4))
    then have "sd_position (sides ! i) = page_position (P ! i) (T ! i) (ks ! i)"
      using i assms(3) by (simp add: positions_of_def)
    moreover have "sd_requests (sides ! i) = 0" using assms(3,5) i by simp
    moreover have "session_serves (sessions ! i) input (P ! i) (T ! i)" using assms(1) i by (auto simp: all_serve_def)
    ultimately show ?thesis
      using read_side_serves [of "sessions ! i" input "P ! i" "T ! i" "sides ! i" "ks ! i"]
      by (simp add: MAX_SESSION_PAGE_REQUESTS_def numeral_2_eq_2)
  qed
  then obtain f where f: "\<And>i. i < length P \<Longrightarrow> fst (read_side (sessions ! i) input (sides ! i)) = Inr () \<and>
      side_at (P ! i) (T ! i) (f i) (snd (read_side (sessions ! i) input (sides ! i))) \<and>
      sd_requests (snd (read_side (sessions ! i) input (sides ! i))) \<le> 2 \<and>
      somes (drop (f i) (P ! i)) = somes (drop (ks ! i) (P ! i))" by metis
  let ?ks = "List.map f [0..<length P]"
  let ?reads = "List.map2 (\<lambda>session side. read_side session input side) sessions sides"
  have len: "length sessions = length P" using assms(1) by (simp add: all_serve_def)
  have "List.map_filter (\<lambda>i. if i < length ?reads then (case fst (?reads ! i) of Inl e \<Rightarrow> Some e | Inr _ \<Rightarrow> None) else None)
      (settled @ [0..<length ?reads]) = []"
    using f len assms(3) by (auto simp: map_filter_def filter_empty_conv split: sum.splits)
  then have "fst (first_reads settled sessions input sides) = Inr ()" by (simp add: first_reads_def Let_def)
  moreover have "sides_at P T ?ks 254 (snd (first_reads settled sessions input sides))"
    using f len assms(3) by (simp add: first_reads_def Let_def sides_at_def MAX_SESSION_PAGE_REQUESTS_def)
  moreover have "remaining P ?ks = remaining P ks"
    by (rule nth_equalityI) (use f assms(2) in \<open>simp_all add: remaining_def\<close>)
  ultimately show ?thesis by blast
qed

lemma sides_at_less: "sides_at P T ks m sides \<Longrightarrow> n \<le> m \<Longrightarrow> sides_at P T ks n sides"
  by (force simp: sides_at_def)

lemma merged_page_serves:
  assumes "all_serve sessions input P T" and "0 < ti_limit input" "ti_limit input \<le> 100"
    and "length ks = length P" "length logs = length P"
    and "start_positions input (length P) generation = Inr (positions_of P T ks)"
  shows "\<exists>ks' logs'. length ks' = length P \<and> length logs' = length P \<and>
    mergeThreadListPages settled sessions input cmp generation logs =
      (Inr \<lparr>lr_threads = fst (merge_lists cmp (nat (ti_limit input)) (remaining P ks)),
            lr_nextCursor = (if set (positions_of P T ks') \<subseteq> {None} then None
              else Some (base64url_json (merged_cursor input generation (positions_of P T ks'))))\<rparr>, logs') \<and>
    remaining P ks' = snd (merge_lists cmp (nat (ti_limit input)) (remaining P ks)) \<and>
    (length (fst (merge_lists cmp (nat (ti_limit input)) (remaining P ks))) < nat (ti_limit input) \<longrightarrow>
       set (positions_of P T ks') \<subseteq> {None})"
proof -
  define n where "n = nat (ti_limit input)"
  define sides where "sides = List.map2 (\<lambda>p log. \<lparr>sd_position = p, sd_requests = 0, sd_head = None, sd_log = log\<rparr>)
    (positions_of P T ks) logs"
  have len: "length sessions = length P" "length sides = length P"
    using assms(1,5) by (simp_all add: all_serve_def sides_def positions_of_def)
  have "List.map sd_position sides = positions_of P T ks"
    by (rule nth_equalityI) (use assms(5) in \<open>simp_all add: sides_def positions_of_def\<close>)
  moreover have "\<forall>side \<in> set sides. sd_requests side = 0" by (auto simp: sides_def set_zip)
  ultimately obtain ks1 sides1 where first: "first_reads settled sessions input sides = (Inr (), sides1)"
    "sides_at P T ks1 254 sides1" "remaining P ks1 = remaining P ks"
    using first_reads_serve [OF assms(1,4) len(2), of settled] by (metis prod.collapse)
  have "sides_at P T ks1 (2 * n) sides1" using sides_at_less [OF first(2)] assms(3) by (simp add: n_def)
  from merge_heads_serves [OF assms(1) this, of cmp, unfolded first(3)] obtain ks' sides2 where
    loop: "length ks' = length P" "merge_heads cmp sessions input n sides1 = (Inr (fst (merge_lists cmp n (remaining P ks))), sides2)"
      "List.map sd_position sides2 = positions_of P T ks'" "remaining P ks' = snd (merge_lists cmp n (remaining P ks))"
      "length (fst (merge_lists cmp n (remaining P ks))) < n \<longrightarrow> set (positions_of P T ks') \<subseteq> {None}"
    by (metis prod.collapse)
  have "(\<exists>side \<in> set sides2. sd_position side \<noteq> None) \<longleftrightarrow> \<not> set (positions_of P T ks') \<subseteq> {None}"
    unfolding loop(3) [symmetric] by auto
  moreover have "length sides2 = length P" using arg_cong [OF loop(3), of length] by (simp add: positions_of_def)
  ultimately show ?thesis
    using assms(2,3,6) len(1) first(1) loop
    by (intro exI [of _ ks'] exI [of _ "List.map sd_log sides2"])
      (simp add: mergeThreadListPages_def n_def [symmetric] sides_def [symmetric] Let_def merged_result_def)
qed

subsection \<open>The cursor\<close>

lemma canonical_json_round_trip: "json_plain v \<Longrightarrow> canonical_json (base64url_json v) = Some v"
  by (simp add: canonical_json_def base64url_json_def b64_decode_values b64_round_trip utf8_bytes utf8_round_trip json_parse_text)

lemma position_value_json:
  "p \<noteq> Some (Some []) \<Longrightarrow> position_value (position_json p) = Some p"
  by (auto simp: position_value_def position_json_def opt_json_def split: option.splits)

lemma position_values_json:
  "Some (Some []) \<notin> set ps \<Longrightarrow> position_values (List.map position_json ps) = Some ps"
  by (induction ps) (auto simp: position_value_json)

lemma positions_plain: "items_plain (List.map position_json ps)"
  by (induction ps) (auto simp: position_json_def opt_json_def split: option.splits)

lemma merged_cursor_plain: "json_plain (merged_cursor input generation ps)"
  by (auto simp: merged_cursor_def opt_json_def positions_plain split: option.splits)

lemma decode_merged_cursor:
  assumes "Some (Some []) \<notin> set ps"
  shows "decodeMergedCursor (base64url_json (merged_cursor input generation ps)) input (length ps) generation = Inr ps"
  using position_values_json [OF assms] unfolding decodeMergedCursor_def canonical_json_round_trip [OF merged_cursor_plain]
  by (simp add: merged_cursor_def)

lemma base64url_json_not_empty: "base64url_json (merged_cursor input generation ps) \<noteq> []"
proof
  assume "base64url_json (merged_cursor input generation ps) = []"
  then have "canonical_json [] = Some (merged_cursor input generation ps)"
    using canonical_json_round_trip [OF merged_cursor_plain] by metis
  moreover have "canonical_json [] = None" by code_simp
  ultimately show False by simp
qed

subsection \<open>All pages\<close>

fun merged_pages ::
  "nat list \<Rightarrow> list_session list \<Rightarrow> thread_list_input \<Rightarrow> (list_item \<Rightarrow> list_item \<Rightarrow> int) \<Rightarrow> string \<Rightarrow> int list \<Rightarrow>
   string option \<Rightarrow> thread_list_input list list \<Rightarrow> api_error + list_item list \<times> string option" where
  "merged_pages settled sessions input cmp generation [] cursor logs = Inr ([], cursor)"
| "merged_pages settled sessions input cmp generation (l # ls) cursor logs =
     (case mergeThreadListPages settled sessions (input\<lparr>ti_limit := l, ti_cursor := cursor\<rparr>) cmp generation logs of
        (Inl e, _) \<Rightarrow> Inl e
      | (Inr page, logs') \<Rightarrow>
          (case lr_nextCursor page of
             None \<Rightarrow> Inr (lr_threads page, None)
           | Some c \<Rightarrow>
               bindE (merged_pages settled sessions input cmp generation ls (Some c) logs')
                 (\<lambda>(rows, c'). Inr (lr_threads page @ rows, c'))))"

lemma merge_lists_length: "length (fst (merge_lists cmp n Ls)) \<le> n"
proof (induction n arbitrary: Ls)
  case (Suc n)
  have "length rows \<le> n" if "merge_lists cmp n Ks = (rows, rest)" for Ks rows rest
    using Suc.IH [of Ks] that by simp
  then show ?case by (auto split: option.splits prod.splits)
qed simp

lemma merge_lists_done:
  assumes "concat Ls = []"
  shows "fst (merge_lists cmp n Ls) = [] \<and> concat (snd (merge_lists cmp n Ls)) = []"
  using merge_lists_mset [of cmp n Ls] assms by simp

lemma positions_done:
  assumes "set (positions_of P T ks) \<subseteq> {None}" "length ks = length P"
  shows "concat (remaining P ks) = []"
proof -
  have "somes (drop (ks ! i) (P ! i)) = []" if "i < length P" for i
  proof -
    have "page_position (P ! i) (T ! i) (ks ! i) = None" using assms(1) that by (fastforce simp: positions_of_def)
    then show ?thesis by (simp add: page_position_def split: if_splits)
  qed
  then show ?thesis using assms(2) by (auto simp: remaining_def set_zip)
qed

lemma positions_no_empty:
  assumes "all_serve sessions input P T"
  shows "Some (Some []) \<notin> set (positions_of P T ks)"
proof -
  have "page_position (P ! i) (T ! i) k \<noteq> Some (Some [])" if "i < length P" for i k
    using assms that by (auto simp: all_serve_def session_serves_def page_position_def page_cursor_def)
  then show ?thesis unfolding positions_of_def by fastforce
qed

text \<open>What a cursor stands for: the start, or the positions it was made of.\<close>

definition cursor_at ::
  "thread_list_input \<Rightarrow> string \<Rightarrow> list_item option list list \<Rightarrow> (nat \<Rightarrow> string) list \<Rightarrow> nat list \<Rightarrow> string option \<Rightarrow> bool" where
  "cursor_at input generation P T ks cursor =
     (length ks = length P \<and>
      (cursor = None \<and> ks = replicate (length P) 0 \<or>
       cursor = Some (base64url_json (merged_cursor input generation (positions_of P T ks)))))"

lemma merged_cursor_input [simp]:
  "merged_cursor (input\<lparr>ti_limit := l, ti_cursor := c\<rparr>) generation ps = merged_cursor input generation ps"
  by (simp add: merged_cursor_def)

lemma decode_input [simp]:
  "decodeMergedCursor c (input\<lparr>ti_limit := l, ti_cursor := d\<rparr>) n generation = decodeMergedCursor c input n generation"
proof -
  have same: "ti_sort (input\<lparr>ti_limit := l, ti_cursor := d\<rparr>) = ti_sort input"
    "ti_cwd (input\<lparr>ti_limit := l, ti_cursor := d\<rparr>) = ti_cwd input" by simp_all
  show ?thesis unfolding decodeMergedCursor_def same ..
qed

lemma all_serve_input [simp]: "all_serve sessions (input\<lparr>ti_limit := l, ti_cursor := c\<rparr>) P T = all_serve sessions input P T"
  by (simp add: all_serve_def)

lemma cursor_starts:
  assumes "all_serve sessions input P T" and "cursor_at input generation P T ks cursor"
  shows "start_positions (input\<lparr>ti_limit := l, ti_cursor := cursor\<rparr>) (length P) generation = Inr (positions_of P T ks)"
proof (cases cursor)
  case None
  have "page_position (P ! i) (T ! i) 0 = Some None" if "i < length P" for i
    using assms(1) that by (auto simp: all_serve_def session_serves_def page_position_def page_cursor_def)
  then have "positions_of P T (replicate (length P) 0) = replicate (length P) (Some None)"
    by (intro nth_equalityI) (simp_all add: positions_of_def)
  then show ?thesis using None assms(2) by (simp add: start_positions_def cursor_at_def)
next
  case (Some c)
  then show ?thesis
    using assms(2) decode_merged_cursor [OF positions_no_empty [OF assms(1)], of input generation ks] base64url_json_not_empty
    by (auto simp: start_positions_def cursor_at_def positions_of_def)
qed

lemma merged_pages_serve:
  assumes "all_serve sessions input P T"
  shows "cursor_at input generation P T ks cursor \<Longrightarrow> list_all (\<lambda>l. 0 < l \<and> l \<le> 100) limits \<Longrightarrow> length logs = length P \<Longrightarrow>
    \<exists>c. merged_pages settled sessions input cmp generation limits cursor logs =
        Inr (fst (merge_lists cmp (sum_list (List.map nat limits)) (remaining P ks)), c) \<and>
      (c = None \<longrightarrow> limits = [] \<or> concat (snd (merge_lists cmp (sum_list (List.map nat limits)) (remaining P ks))) = []) \<and>
      (length (fst (merge_lists cmp (sum_list (List.map nat limits)) (remaining P ks))) < sum_list (List.map nat limits) \<longrightarrow> c = None)"
proof (induction limits arbitrary: ks cursor logs)
  case Nil
  then show ?case by simp
next
  case (Cons l limits)
  let ?input = "input\<lparr>ti_limit := l, ti_cursor := cursor\<rparr>"
  define n m where "n = nat l" and "m = sum_list (List.map nat limits)"
  define rows rest where "rows = fst (merge_lists cmp n (remaining P ks))" and "rest = snd (merge_lists cmp n (remaining P ks))"
  have both: "merge_lists cmp (n + m) (remaining P ks) = (rows @ fst (merge_lists cmp m rest), snd (merge_lists cmp m rest))"
    unfolding merge_lists_add by (simp add: rows_def rest_def split: prod.splits)
  have lens: "length ks = length P" "length logs = length P" "0 < l" "l \<le> 100"
    using Cons.prems by (simp_all add: cursor_at_def)
  from merged_page_serves [of sessions ?input P T ks logs generation settled cmp] assms lens cursor_starts [OF assms Cons.prems(1), of l]
  obtain ks' logs' where page: "length ks' = length P" "length logs' = length P"
    "mergeThreadListPages settled sessions ?input cmp generation logs =
      (Inr \<lparr>lr_threads = rows, lr_nextCursor = (if set (positions_of P T ks') \<subseteq> {None} then None
              else Some (base64url_json (merged_cursor input generation (positions_of P T ks'))))\<rparr>, logs')"
    "remaining P ks' = rest" "length rows < n \<longrightarrow> set (positions_of P T ks') \<subseteq> {None}"
    by (auto simp: n_def rows_def rest_def)
  show ?case
  proof (cases "set (positions_of P T ks') \<subseteq> {None}")
    case True
    have "concat rest = []" using positions_done [OF True page(1)] page(4) by simp
    from merge_lists_done [OF this, of cmp m] show ?thesis
      using True page(3) by (simp add: n_def [symmetric] m_def [symmetric] both)
  next
    case False
    let ?c = "Some (base64url_json (merged_cursor input generation (positions_of P T ks')))"
    have "cursor_at input generation P T ks' ?c" using page(1) by (simp add: cursor_at_def)
    from Cons.IH [OF this _ page(2)] Cons.prems(2) obtain c where
      c: "merged_pages settled sessions input cmp generation limits ?c logs' = Inr (fst (merge_lists cmp m rest), c)"
        "c = None \<longrightarrow> limits = [] \<or> concat (snd (merge_lists cmp m rest)) = []"
        "length (fst (merge_lists cmp m rest)) < m \<longrightarrow> c = None"
      by (auto simp: m_def page(4))
    have "c \<noteq> None" if "limits = []" using c(1) that by auto
    moreover have "length rows = n" using page(5) False merge_lists_length [of cmp n "remaining P ks"] by (simp add: rows_def)
    ultimately show ?thesis
      using False page(3) c by (auto simp: n_def [symmetric] m_def [symmetric] both)
  qed
qed

subsection \<open>The order of the rows\<close>

text \<open>What \<open>localeCompare\<close> documents: its sign turns around with its arguments, and it is transitive.\<close>

definition collates :: "(string \<Rightarrow> string \<Rightarrow> int) \<Rightarrow> bool" where
  "collates localeCompare =
     ((\<forall>a b. localeCompare a b < 0 \<longleftrightarrow> 0 < localeCompare b a) \<and>
      (\<forall>a b c. localeCompare a b \<le> 0 \<longrightarrow> localeCompare b c \<le> 0 \<longrightarrow> localeCompare a c \<le> 0))"

definition dated :: "(string \<Rightarrow> int option) \<Rightarrow> list_sort \<Rightarrow> list_item \<Rightarrow> bool" where
  "dated date_parse s row = (sort_seconds date_parse s row \<noteq> Some None)"

definition row_number :: "(string \<Rightarrow> int option) \<Rightarrow> list_sort \<Rightarrow> list_item \<Rightarrow> int" where
  "row_number date_parse s row =
     (case sort_seconds date_parse s row of Some (Some n) \<Rightarrow> n | _ \<Rightarrow> 0) *
     (if s = CreatedAsc \<or> s = UpdatedAsc \<or> s = RecencyAsc then 1 else -1)"

lemma compareThreads_dated:
  assumes "dated date_parse s x" "dated date_parse s y"
  shows "compareThreads date_parse localeCompare s x y =
    (if row_number date_parse s x \<noteq> row_number date_parse s y then row_number date_parse s x - row_number date_parse s y
     else localeCompare (it_threadId x) (it_threadId y))"
proof -
  define d where "d = (if s = CreatedAsc \<or> s = UpdatedAsc \<or> s = RecencyAsc then 1 else -1 :: int)"
  define number where "number = (\<lambda>row. case sort_seconds date_parse s row of None \<Rightarrow> Some 0 | Some n \<Rightarrow> n)"
  have known: "\<exists>a. number row = Some a \<and> row_number date_parse s row = a * d" if "dated date_parse s row" for row
    using that by (cases "sort_seconds date_parse s row") (auto simp: dated_def number_def row_number_def d_def)
  obtain a b where ab: "number x = Some a" "row_number date_parse s x = a * d" "number y = Some b" "row_number date_parse s y = b * d"
    using known [OF assms(1)] known [OF assms(2)] by blast
  have "compareThreads date_parse localeCompare s x y =
      (if (a - b) * d \<noteq> 0 then (a - b) * d else localeCompare (it_threadId x) (it_threadId y))"
    using ab(1,3) unfolding compareThreads_def Let_def number_def [symmetric] d_def [symmetric] by simp
  then show ?thesis using ab(2,4) by (simp add: left_diff_distrib)
qed

lemma compareThreads_compares:
  assumes "collates localeCompare" and "\<forall>x \<in> A. dated date_parse s x"
  shows "compares (compareThreads date_parse localeCompare s) A"
proof -
  define cmp where "cmp = (\<lambda>x y. if row_number date_parse s x \<noteq> row_number date_parse s y
    then row_number date_parse s x - row_number date_parse s y else localeCompare (it_threadId x) (it_threadId y))"
  have cmp: "compareThreads date_parse localeCompare s x y = cmp x y" if "x \<in> A" "y \<in> A" for x y
    using compareThreads_dated assms(2) that by (simp add: cmp_def)
  have sign: "localeCompare a b < 0 \<longleftrightarrow> 0 < localeCompare b a" for a b using assms(1) unfolding collates_def by blast
  have tr: "localeCompare a b \<le> 0 \<Longrightarrow> localeCompare b c \<le> 0 \<Longrightarrow> localeCompare a c \<le> 0" for a b c
    using assms(1) unfolding collates_def by blast
  have "cmp x y < 0 \<longleftrightarrow> 0 < cmp y x" for x y
    using sign [of "it_threadId x" "it_threadId y"] by (auto simp: cmp_def)
  moreover have "cmp x y \<le> 0 \<Longrightarrow> cmp y z \<le> 0 \<Longrightarrow> cmp x z \<le> 0" for x y z
    using tr [of "it_threadId x" "it_threadId y" "it_threadId z"] by (auto simp: cmp_def split: if_splits)
  ultimately show ?thesis unfolding compares_def using cmp by metis
qed


subsection \<open>A concrete run\<close>

definition served :: "list_item option list \<Rightarrow> (nat \<Rightarrow> string) \<Rightarrow> list_session" where
  "served pages token log request =
     (let k = (case ti_cursor request of
                 None \<Rightarrow> Some 0
               | Some c \<Rightarrow> find (\<lambda>k. token k = c) [0..<length pages])
      in case k of
           None \<Rightarrow> Inl INVALID_CURSOR
         | Some k \<Rightarrow>
             Inr \<lparr>lr_threads = (case pages ! k of None \<Rightarrow> [] | Some row \<Rightarrow> [row]), lr_nextCursor = page_next pages token k\<rparr>)"

lemma find_token:
  assumes "inj token" "k < n"
  shows "find (\<lambda>j. token j = token k) [0..<n] = Some k"
  unfolding find_Some_iff by (rule exI [of _ k]) (use assms in \<open>auto simp: inj_eq\<close>)

lemma served_serves:
  assumes "pages \<noteq> []" "inj token" "\<forall>k. token k \<noteq> []"
    and "\<forall>k. Suc k < length pages \<longrightarrow> pages ! k = None \<longrightarrow> pages ! Suc k \<noteq> None"
  shows "session_serves (served pages token) input pages token"
  using assms find_token [OF assms(2)] by (auto simp: session_serves_def served_def page_cursor_def Let_def)

definition x_token :: "nat \<Rightarrow> string" where
  "x_token k = replicate (Suc k) (CHR ''x'')"

lemma x_token_ok: "inj x_token" "x_token k \<noteq> []"
  by (auto simp: x_token_def inj_def replicate_eq_replicate)

definition dated_row :: "string \<Rightarrow> int \<Rightarrow> list_item" where
  "dated_row i seconds =
     \<lparr>it_threadId = i, it_harnessId = ''h'', it_deepLink = [], it_status = ''idle'', it_cwd = None, it_title = None,
      it_createdAt = None, it_updatedAt = None, it_recencyAt = None, it_native = Some (\<lambda>_. Some seconds)\<rparr>"

definition code_unit_order :: "string \<Rightarrow> string \<Rightarrow> int" where
  "code_unit_order a b = (if a = b then 0 else if str_less a b then -1 else 1)"

lemma code_unit_collates: "collates code_unit_order"
  unfolding collates_def code_unit_order_def
  by (auto simp: str_less_irrefl split: if_splits dest: str_less_trans) (metis str_less_irrefl str_less_linear str_less_trans)+

definition two_lists :: "list_item option list list" where
  "two_lists = [[Some (dated_row ''a'' 9), None, Some (dated_row ''b'' 5)], [Some (dated_row ''c'' 7)]]"

definition updated_input :: thread_list_input where
  "updated_input = \<lparr>ti_cwd = None, ti_parentThreadId = None, ti_limit = 1, ti_cursor = None, ti_sort = UpdatedDesc\<rparr>"


end
