(* ===== verification/DelegationRegistryProps.thy ===== *)
theory DelegationRegistryProps
  imports MergedListWalk ThreadQueueProps
begin

text \<open>
  A cursor of the merged list does not outlive the sessions it was made for, and what the registry routes
  goes to a session that is registered.
\<close>

lemma generation_grows: "rg_generation r \<le> rg_generation (foldl registry_step r es)"
proof (induction es arbitrary: r)
  case (Cons e es)
  have "rg_generation r \<le> rg_generation (registry_step r e)"
    by (cases e) (simp_all add: register_def unregister_def)
  then show ?case using Cons.IH [of "registry_step r e"] by simp
qed simp

lemma instance_stays: "rg_instanceId (foldl registry_step r es) = rg_instanceId r"
proof (induction es arbitrary: r)
  case (Cons e es)
  have "rg_instanceId (registry_step r e) = rg_instanceId r"
    by (cases e) (simp_all add: register_def unregister_def)
  then show ?case using Cons.IH by simp
qed simp

text \<open>Registering counts, and so does taking away what was registered.\<close>

definition changes_sessions :: "registry \<Rightarrow> registry_event \<Rightarrow> bool" where
  "changes_sessions r e = (case e of Registered _ _ \<Rightarrow> True | Unregistered i \<Rightarrow> i \<in> set (rg_registrations r))"

lemma changed_generation:
  assumes "changes_sessions r e"
  shows "rg_generation r < rg_generation (foldl registry_step r (e # es))"
proof -
  have "rg_generation r < rg_generation (registry_step r e)"
    using assms by (cases e) (simp_all add: changes_sessions_def register_def unregister_def)
  then show ?thesis using generation_grows [of "registry_step r e" es] by simp
qed

lemma generation_text: "rg_instanceId r = rg_instanceId q \<Longrightarrow> registry_generation r = registry_generation q \<longleftrightarrow> rg_generation r = rg_generation q"
  using inj_nat_string by (auto simp: registry_generation_def dest: injD)

text \<open>The cursors a merge gives out.\<close>

lemma merge_cursor_shape:
  assumes "mergeThreadListPages settled sessions input cmp generation logs = (Inr page, logs')"
    and "lr_nextCursor page = Some c"
  shows "\<exists>ps. c = base64url_json (merged_cursor input generation ps)"
  using assms by (auto simp: mergeThreadListPages_def merged_result_def Let_def split: if_splits sum.splits prod.splits)

lemma merged_cursor_recognized: "isMergedListCursor (base64url_json (merged_cursor input generation ps))"
  unfolding isMergedListCursor_def canonical_json_round_trip [OF merged_cursor_plain] by (simp add: merged_cursor_def)

lemma stale_generation_refused:
  assumes "generation \<noteq> generation'"
  shows "\<exists>m. decodeMergedCursor (base64url_json (merged_cursor input generation ps)) input' n generation' = Inl (invalidCursor m)"
  unfolding decodeMergedCursor_def canonical_json_round_trip [OF merged_cursor_plain]
  using assms by (auto simp: merged_cursor_def INVALID_CURSOR_def split: option.splits)

lemma set_logs_same: "set_logs rs (List.map f rs) f = f"
  by (auto simp: set_logs_def map_of_zip_map fun_eq_iff)

definition refused :: "api_error \<Rightarrow> bool" where
  "refused e = (errorCode e = Some ''INVALID_ARGUMENT'' \<or> errorCode e = Some ''PARENT_THREAD_AMBIGUOUS'')"

text \<open>
  Once a session was registered or taken away, a cursor of the merged list is refused, whatever else the
  request says and whatever happened since, and no session is asked.
\<close>

theorem stale_merged_cursor_refused:
  assumes "registry_list settled date_parse localeCompare r owns api input logs = (Inr page, logs')"
    and "list_route_of r owns input = Inr (MergeAll rs generation)" and "lr_nextCursor page = Some c"
    and "changes_sessions r e" and "ti_cursor input' = Some c"
  shows "\<exists>e'. registry_list settled' date_parse localeCompare (foldl registry_step r (e # es)) owns' api' input' logs'' = (Inl e', logs'') \<and>
    refused e'"
proof -
  let ?r = "foldl registry_step r (e # es)"
  have gen: "generation = registry_generation r"
    using assms(2) by (auto simp: list_route_of_def Let_def bindE_Inr_iff split: if_splits option.splits list.splits)
  obtain logs0 where "mergeThreadListPages settled (List.map api rs) input (compareThreads date_parse localeCompare (ti_sort input))
      generation (List.map logs rs) = (Inr page, logs0)"
    using assms(1,2) by (auto simp: registry_list_def split: prod.splits)
  from merge_cursor_shape [OF this assms(3)] obtain ps where c: "c = base64url_json (merged_cursor input (registry_generation r) ps)"
    using gen by auto
  then have given: "merged_cursor_given input'"
    using assms(5) merged_cursor_recognized base64url_json_not_empty by (simp add: merged_cursor_given_def)
  have "rg_generation r \<noteq> rg_generation ?r" using changed_generation [OF assms(4), of es] by simp
  then have differ: "registry_generation r \<noteq> registry_generation ?r"
    using generation_text [of r ?r] instance_stays [of r "e # es"] by simp
  obtain m where stale: "start_positions input' n (registry_generation ?r) = Inl (invalidCursor (m n))" for n
    using stale_generation_refused [OF differ, of input ps input'] assms(5) c base64url_json_not_empty
    unfolding start_positions_def by simp metis
  show ?thesis
  proof (cases "list_route_of ?r owns' input'")
    case (Inl e')
    then show ?thesis
      using given
      by (auto simp: registry_list_def list_route_of_def refused_def invalidCursor_def ambiguous_def Let_def bindE_def
          split: if_splits option.splits list.splits sum.splits)
  next
    case (Inr route)
    then obtain rs' where "route = MergeAll rs' (registry_generation ?r)"
      using given by (auto simp: list_route_of_def Let_def split: if_splits option.splits list.splits)
    then show ?thesis using Inr stale
      by (auto simp: registry_list_def mergeThreadListPages_def refused_def invalidCursor_def set_logs_same)
  qed
qed

text \<open>Two sessions, of which one goes away after the first page.\<close>

definition two_sessions :: registry where
  "two_sessions = foldl registry_step (new_registry ''id'') [Registered 7 False, Registered 8 False]"

definition two_api :: "nat \<Rightarrow> list_session" where
  "two_api i = served (two_lists ! (i - 7)) x_token"

lemma stale_merged_cursor_refused_witness:
  "\<exists>page logs c e. registry_list [] (\<lambda>_. None) code_unit_order two_sessions (\<lambda>_ _. False) two_api updated_input (\<lambda>_. []) = (Inr page, logs) \<and>
    lr_nextCursor page = Some c \<and>
    registry_list [] (\<lambda>_. None) code_unit_order (foldl registry_step two_sessions [Unregistered 8]) (\<lambda>_ _. True) two_api
      (updated_input\<lparr>ti_cursor := Some c\<rparr>) logs = (Inl e, logs) \<and> refused e"
proof -
  let ?cmp = "compareThreads (\<lambda>_. None) code_unit_order UpdatedDesc"
  let ?sessions = "List.map two_api [7, 8]" and ?gen = "registry_generation two_sessions"
  have served: "all_serve ?sessions updated_input two_lists [x_token, x_token]"
    by (auto simp: all_serve_def two_lists_def two_api_def less_Suc_eq nth_Cons' x_token_ok intro!: served_serves)
  have route: "list_route_of two_sessions (\<lambda>_ _. False) updated_input = Inr (MergeAll [7, 8] ?gen)" by code_simp
  have "positions_of two_lists [x_token, x_token] [0, 0] = [Some None, Some None]" by code_simp
  moreover have "length two_lists = 2" by (simp add: two_lists_def)
  ultimately have "start_positions updated_input (length two_lists) ?gen = Inr (positions_of two_lists [x_token, x_token] [0, 0])"
    by (simp add: start_positions_def updated_input_def numeral_2_eq_2)
  from merged_page_serves [OF served _ _ _ _ this, of "[[], []]" "[]" ?cmp]
  obtain ks logs' page where run: "mergeThreadListPages [] ?sessions updated_input ?cmp ?gen [[], []] = (Inr page, logs')"
    and cursor: "lr_nextCursor page = (if set (positions_of two_lists [x_token, x_token] ks) \<subseteq> {None} then None
      else Some (base64url_json (merged_cursor updated_input ?gen (positions_of two_lists [x_token, x_token] ks))))"
    and rest: "length ks = length two_lists" "remaining two_lists ks = snd (merge_lists ?cmp (nat (ti_limit updated_input)) (remaining two_lists [0, 0]))"
    by (auto simp: updated_input_def two_lists_def)
  have "concat (snd (merge_lists ?cmp (nat (ti_limit updated_input)) (remaining two_lists [0, 0]))) \<noteq> []" by code_simp
  then have "\<not> set (positions_of two_lists [x_token, x_token] ks) \<subseteq> {None}" using positions_done rest by metis
  then obtain c where c: "lr_nextCursor page = Some c" using cursor by auto
  have sort: "ti_sort updated_input = UpdatedDesc" by (simp add: updated_input_def)
  have list: "registry_list [] (\<lambda>_. None) code_unit_order two_sessions (\<lambda>_ _. False) two_api updated_input (\<lambda>_. []) =
      (Inr page, set_logs [7, 8] logs' (\<lambda>_. []))"
    unfolding registry_list_def route using run sort by simp
  have "changes_sessions two_sessions (Unregistered 8)" by code_simp
  from stale_merged_cursor_refused [OF list route c this, of "updated_input\<lparr>ti_cursor := Some c\<rparr>" "[]" "[]" "\<lambda>_ _. True" two_api
      "set_logs [7, 8] logs' (\<lambda>_. [])"]
  show ?thesis using list c by auto
qed

end
