(* ===== verification/OfficialBroker.thy ===== *)
theory OfficialBroker
  imports Prelude
begin

text \<open>
  Requests of the Host to the official app-server: \<open>packages/host-runtime/src/official-request-broker.ts\<close>.
  A promise is a number; what it settled with is kept in the order of settling. Timers, failed writes and
  answers come in any order.
\<close>

subsection \<open>State\<close>

datatype settlement = Fulfilled json | Failed string

record broker =
  bk_pending :: "(string, nat) jsmap"
  bk_retired :: "string list"
  bk_retiredOrder :: "string list"
  bk_next :: nat
  bk_settled :: "(nat \<times> settlement) list"
  bk_sent :: "(string \<times> string \<times> json) list"

definition INTERNAL_REQUEST_PREFIX :: string where
  "INTERNAL_REQUEST_PREFIX = ''codexhost:official:''"

definition MAX_RETIRED_IDS :: nat where
  "MAX_RETIRED_IDS = 1024"

definition new_broker :: broker where
  "new_broker = \<lparr>bk_pending = [], bk_retired = [], bk_retiredOrder = [], bk_next = 0, bk_settled = [], bk_sent = []\<rparr>"

subsection \<open>Operations\<close>

definition retire :: "string \<Rightarrow> broker \<Rightarrow> broker" where
  "retire i b =
     (if i \<in> set (bk_retired b) then b
      else
        let b' = b\<lparr>bk_retired := bk_retired b @ [i], bk_retiredOrder := bk_retiredOrder b @ [i]\<rparr>
        in if MAX_RETIRED_IDS < length (bk_retiredOrder b')
           then (case bk_retiredOrder b' of
                   [] \<Rightarrow> b'
                 | expired # order \<Rightarrow>
                     b'\<lparr>bk_retiredOrder := order,
                        bk_retired := (if expired = [] then bk_retired b' else removeAll expired (bk_retired b'))\<rparr>)
           else b')"

definition settle_promise :: "nat \<Rightarrow> settlement \<Rightarrow> broker \<Rightarrow> broker" where
  "settle_promise p outcome b = b\<lparr>bk_settled := bk_settled b @ [(p, outcome)]\<rparr>"

text \<open>Taking a request out of \<open>pending\<close> and settling its promise, as the timer, a failed write and an answer do.\<close>

definition settle_request :: "string \<Rightarrow> settlement \<Rightarrow> broker \<Rightarrow> broker" where
  "settle_request i outcome b =
     (case js_get (bk_pending b) i of
        None \<Rightarrow> b
      | Some p \<Rightarrow> settle_promise p outcome (retire i (b\<lparr>bk_pending := js_delete i (bk_pending b)\<rparr>)))"

definition broker_request :: "string \<Rightarrow> string \<Rightarrow> json \<Rightarrow> broker \<Rightarrow> broker" where
  "broker_request i method params b =
     (if \<not> starts_with INTERNAL_REQUEST_PREFIX i \<or> js_has (bk_pending b) i \<or> i \<in> set (bk_retired b)
      then settle_promise (bk_next b) (Failed ''Official internal request ID is invalid or duplicated'')
             (b\<lparr>bk_next := Suc (bk_next b)\<rparr>)
      else b\<lparr>bk_pending := js_set i (bk_next b) (bk_pending b), bk_next := Suc (bk_next b),
             bk_sent := bk_sent b @ [(i, method, params)]\<rparr>)"

definition response_id :: "json \<Rightarrow> string option" where
  "response_id v =
     (case v of
        JObj kvs \<Rightarrow> (case map_of kvs ''id'' of Some (JStr i) \<Rightarrow> Some i | _ \<Rightarrow> None)
      | _ \<Rightarrow> None)"

definition broker_handle :: "json \<Rightarrow> broker \<Rightarrow> bool \<times> broker" where
  "broker_handle v b =
     (case response_id v of
        None \<Rightarrow> (False, b)
      | Some i \<Rightarrow>
          if \<not> js_has (bk_pending b) i then (i \<in> set (bk_retired b), b)
          else (True, settle_request i (Fulfilled v) b))"

definition failAll :: "string \<Rightarrow> broker \<Rightarrow> broker" where
  "failAll e b =
     (foldl (\<lambda>b (i, p). settle_promise p (Failed e) (retire i b)) b (bk_pending b))\<lparr>bk_pending := []\<rparr>"

datatype broker_event =
    Requested string string json
  | TimedOut string
  | WriteFailed string string
  | Answered json
  | AllFailed string

fun broker_step :: "broker \<Rightarrow> broker_event \<Rightarrow> broker" where
  "broker_step b (Requested i method params) = broker_request i method params b"
| "broker_step b (TimedOut i) = settle_request i (Failed ''Official internal request timed out'') b"
| "broker_step b (WriteFailed i e) = settle_request i (Failed e) b"
| "broker_step b (Answered v) = snd (broker_handle v b)"
| "broker_step b (AllFailed e) = failAll e b"

subsection \<open>Invariant\<close>

definition promises :: "broker \<Rightarrow> nat list" where
  "promises b = List.map fst (bk_settled b) @ js_values (bk_pending b)"

definition broker_ok :: "broker \<Rightarrow> bool" where
  "broker_ok b =
     (distinct (js_keys (bk_pending b)) \<and> bk_retiredOrder b = bk_retired b \<and> distinct (bk_retired b) \<and>
      length (bk_retired b) \<le> MAX_RETIRED_IDS \<and>
      set (js_keys (bk_pending b)) \<inter> set (bk_retired b) = {} \<and>
      list_all (starts_with INTERNAL_REQUEST_PREFIX) (js_keys (bk_pending b) @ bk_retired b) \<and>
      distinct (promises b) \<and> set (promises b) = {..<bk_next b})"

end
