(* ===== verification/OfficialBrokerProps.thy ===== *)
theory OfficialBrokerProps
  imports OfficialBroker "HOL-Library.Multiset"
begin

text \<open>
  Every promise of the broker settles once: it is pending, or it has settled with one outcome, and the
  answers of others are left alone.
\<close>

lemma prefix_not_empty: "starts_with INTERNAL_REQUEST_PREFIX i \<Longrightarrow> i \<noteq> []"
  by (auto simp: starts_with_def INTERNAL_REQUEST_PREFIX_def)

text \<open>Retiring a name nobody has: the window moves on by one.\<close>

lemma retire_window:
  assumes "bk_retiredOrder b = bk_retired b" "distinct (bk_retired b)" "i \<notin> set (bk_retired b)"
    and "list_all (starts_with INTERNAL_REQUEST_PREFIX) (bk_retired b @ [i])" "length (bk_retired b) \<le> MAX_RETIRED_IDS"
  shows "bk_retired (retire i b) =
      (if length (bk_retired b) < MAX_RETIRED_IDS then bk_retired b @ [i] else tl (bk_retired b) @ [i])"
    and "bk_retiredOrder (retire i b) = bk_retired (retire i b)"
  using assms prefix_not_empty
  by (cases "bk_retired b"; auto simp: retire_def Let_def MAX_RETIRED_IDS_def removeAll_id)+

lemma retire_fields [simp]:
  "bk_pending (retire i b) = bk_pending b" "bk_next (retire i b) = bk_next b"
  "bk_settled (retire i b) = bk_settled b" "bk_sent (retire i b) = bk_sent b"
  by (auto simp: retire_def Let_def split: list.splits)

definition window_ok :: "broker \<Rightarrow> bool" where
  "window_ok b =
     (bk_retiredOrder b = bk_retired b \<and> distinct (bk_retired b) \<and> length (bk_retired b) \<le> MAX_RETIRED_IDS \<and>
      list_all (starts_with INTERNAL_REQUEST_PREFIX) (bk_retired b))"

lemma window_retire:
  assumes "window_ok b" "i \<notin> set (bk_retired b)" "starts_with INTERNAL_REQUEST_PREFIX i"
  shows "window_ok (retire i b) \<and> set (bk_retired (retire i b)) \<subseteq> insert i (set (bk_retired b))"
proof -
  have "list_all (starts_with INTERNAL_REQUEST_PREFIX) (bk_retired b @ [i])" using assms by (auto simp: window_ok_def)
  from retire_window [OF _ _ assms(2) this] assms(1)
  have order: "bk_retired (retire i b) =
        (if length (bk_retired b) < MAX_RETIRED_IDS then bk_retired b @ [i] else tl (bk_retired b) @ [i])"
    and same: "bk_retiredOrder (retire i b) = bk_retired (retire i b)" by (simp_all add: window_ok_def)
  have "set (tl (bk_retired b)) \<subseteq> set (bk_retired b)" by (cases "bk_retired b") auto
  then show ?thesis
    using assms order unfolding window_ok_def same
    by (cases "bk_retired b") (auto simp: list_all_iff MAX_RETIRED_IDS_def)
qed

lemma broker_okI:
  assumes "window_ok b" "distinct (js_keys (bk_pending b))" "set (js_keys (bk_pending b)) \<inter> set (bk_retired b) = {}"
    and "list_all (starts_with INTERNAL_REQUEST_PREFIX) (js_keys (bk_pending b))"
    and "distinct (promises b)" "set (promises b) = {..<bk_next b}"
  shows "broker_ok b"
  using assms by (simp add: broker_ok_def window_ok_def)

lemma broker_okD:
  assumes "broker_ok b"
  shows "window_ok b" "distinct (js_keys (bk_pending b))" "set (js_keys (bk_pending b)) \<inter> set (bk_retired b) = {}"
    and "list_all (starts_with INTERNAL_REQUEST_PREFIX) (js_keys (bk_pending b))"
    and "distinct (promises b)" "set (promises b) = {..<bk_next b}"
  using assms by (simp_all add: broker_ok_def window_ok_def)

lemma settle_fields [simp]:
  "bk_pending (settle_promise p x b) = bk_pending b" "bk_next (settle_promise p x b) = bk_next b"
  "bk_retired (settle_promise p x b) = bk_retired b" "bk_retiredOrder (settle_promise p x b) = bk_retiredOrder b"
  "bk_settled (settle_promise p x b) = bk_settled b @ [(p, x)]" "bk_sent (settle_promise p x b) = bk_sent b"
  "window_ok (settle_promise p x b) = window_ok b"
  by (simp_all add: settle_promise_def window_ok_def)

lemma values_delete:
  "distinct (js_keys m) \<Longrightarrow> js_get m i = Some p \<Longrightarrow> mset (js_values m) = add_mset p (mset (js_values (js_delete i m)))"
proof (induction m)
  case (Cons kv m)
  obtain k v where kv: "kv = (k, v)" by (cases kv)
  show ?case
  proof (cases "k = i")
    case True
    then have "js_delete i m = m" using Cons.prems kv by (simp add: js_delete_absent)
    then show ?thesis using True Cons.prems kv by simp
  next
    case False
    then show ?thesis using Cons kv by simp
  qed
qed simp

lemma promises_same:
  assumes "mset (promises b') = mset (promises b)" "bk_next b' = bk_next b" "broker_ok b"
  shows "distinct (promises b') \<and> set (promises b') = {..<bk_next b'}"
  using broker_okD(5,6) [OF assms(3)] assms(2) mset_eq_imp_distinct_iff [OF assms(1)] mset_eq_setD [OF assms(1)] by simp

lemma settle_request_ok:
  assumes "broker_ok b"
  shows "broker_ok (settle_request i x b)"
proof (cases "js_get (bk_pending b) i")
  case None
  then show ?thesis using assms by (simp add: settle_request_def)
next
  case (Some p)
  note ok = broker_okD [OF assms]
  let ?b = "b\<lparr>bk_pending := js_delete i (bk_pending b)\<rparr>"
  have i: "i \<in> set (js_keys (bk_pending b))" using Some by (force dest: map_of_SomeD)
  have w: "window_ok ?b" using ok(1) by (simp add: window_ok_def)
  have new: "i \<notin> set (bk_retired ?b)" "starts_with INTERNAL_REQUEST_PREFIX i" using i ok(3,4) by (auto simp: list_all_iff)
  note wr = window_retire [OF w new]
  have eq: "settle_request i x b = settle_promise p x (retire i ?b)" using Some by (simp add: settle_request_def)
  have "mset (promises (settle_request i x b)) = mset (promises b)"
    using values_delete [OF ok(2) Some] by (simp add: eq promises_def)
  from promises_same [OF this _ assms] have "distinct (promises (settle_request i x b))"
    "set (promises (settle_request i x b)) = {..<bk_next (settle_request i x b)}" by (simp_all add: eq)
  moreover have "set (js_keys (js_delete i (bk_pending b))) \<inter> set (bk_retired (retire i ?b)) = {}"
  proof -
    have "set (js_keys (js_delete i (bk_pending b))) = set (js_keys (bk_pending b)) - {i}"
      by (force simp: set_js_delete)
    then show ?thesis using wr ok(3) by auto
  qed
  moreover have "distinct (js_keys (js_delete i (bk_pending b)))" using ok(2) by (simp add: distinct_js_delete)
  moreover have "list_all (starts_with INTERNAL_REQUEST_PREFIX) (js_keys (js_delete i (bk_pending b)))"
    using ok(4) by (auto simp: list_all_iff set_js_delete)
  ultimately show ?thesis using wr by (intro broker_okI) (simp_all add: eq)
qed

lemma broker_request_ok:
  assumes "broker_ok b"
  shows "broker_ok (broker_request i method params b)"
proof -
  note ok = broker_okD [OF assms]
  have less: "insert (bk_next b) {..<bk_next b} = {..<Suc (bk_next b)}" by auto
  show ?thesis
  proof (cases "\<not> starts_with INTERNAL_REQUEST_PREFIX i \<or> js_has (bk_pending b) i \<or> i \<in> set (bk_retired b)")
    case True
    have "promises (broker_request i method params b) =
        List.map fst (bk_settled b) @ [bk_next b] @ js_values (bk_pending b)"
      using True by (simp add: broker_request_def promises_def)
    moreover have "bk_next b \<notin> set (promises b)" using ok(6) by simp
    ultimately show ?thesis
      using True ok less by (intro broker_okI) (auto simp: broker_request_def window_ok_def promises_def)
  next
    case False
    then have absent: "i \<notin> set (js_keys (bk_pending b))" by (simp add: js_has_iff)
    then have "bk_pending (broker_request i method params b) = bk_pending b @ [(i, bk_next b)]"
      using False by (simp add: broker_request_def js_set_absent)
    moreover have "bk_next b \<notin> set (promises b)" using ok(6) by simp
    ultimately show ?thesis
      using False absent ok less by (intro broker_okI) (auto simp: broker_request_def window_ok_def promises_def)
  qed
qed

lemma failAll_fold:
  "window_ok b \<Longrightarrow> distinct (js_keys ps) \<Longrightarrow> set (js_keys ps) \<inter> set (bk_retired b) = {} \<Longrightarrow>
    list_all (starts_with INTERNAL_REQUEST_PREFIX) (js_keys ps) \<Longrightarrow>
    (let b' = foldl (\<lambda>b (i, p). settle_promise p (Failed e) (retire i b)) b ps in
     window_ok b' \<and> bk_next b' = bk_next b \<and> bk_settled b' = bk_settled b @ List.map (\<lambda>(i, p). (p, Failed e)) ps)"
proof (induction ps arbitrary: b)
  case (Cons ip ps)
  obtain i p where ip: "ip = (i, p)" by (cases ip)
  let ?b = "settle_promise p (Failed e) (retire i b)"
  have wr: "window_ok (retire i b)" "set (bk_retired (retire i b)) \<subseteq> insert i (set (bk_retired b))"
    using window_retire [OF Cons.prems(1), of i] Cons.prems(3,4) ip by auto
  have "window_ok ?b" "set (js_keys ps) \<inter> set (bk_retired ?b) = {}"
    using wr Cons.prems(2,3) ip by auto
  then show ?case using Cons.IH [of ?b] Cons.prems(2,4) ip by (simp add: Let_def)
qed (simp add: Let_def)

lemma failAll_ok:
  assumes "broker_ok b"
  shows "broker_ok (failAll e b) \<and> bk_pending (failAll e b) = []"
proof -
  note ok = broker_okD [OF assms]
  note fold = failAll_fold [OF ok(1-4), of e, unfolded Let_def]
  have "promises (failAll e b) = promises b"
    using fold by (auto simp: failAll_def promises_def)
  then show ?thesis
    using fold ok by (auto simp: failAll_def window_ok_def intro!: broker_okI)
qed

lemma broker_step_ok: "broker_ok b \<Longrightarrow> broker_ok (broker_step b e)"
  by (cases e) (auto simp: broker_request_ok settle_request_ok failAll_ok broker_handle_def split: option.splits)

interpretation official_broker: machine broker_step broker_ok
  by unfold_locales (rule broker_step_ok)

lemma new_broker_ok: "broker_ok new_broker"
  by (simp add: broker_ok_def new_broker_def promises_def)

definition broker_run :: "broker_event list \<Rightarrow> broker" where
  "broker_run es = foldl broker_step new_broker es"

text \<open>
  C17. Whatever happens in whatever order, every promise the broker gave out is pending or has settled with one
  outcome, never both and never twice; an answer is kept from Desktop only if its id is one of the broker's
  own, and it settles a promise exactly when its request is pending; failing everything leaves nothing
  pending; at most 1024 retired ids are remembered.
\<close>

theorem broker_settles_once:
  "distinct (List.map fst (bk_settled (broker_run es)) @ js_values (bk_pending (broker_run es))) \<and>
   set (List.map fst (bk_settled (broker_run es)) @ js_values (bk_pending (broker_run es))) = {..<bk_next (broker_run es)} \<and>
   (\<forall>v. fst (broker_handle v (broker_run es)) =
        (\<exists>i. response_id v = Some i \<and> i \<in> set (js_keys (bk_pending (broker_run es)) @ bk_retired (broker_run es))) \<and>
      bk_settled (snd (broker_handle v (broker_run es))) = bk_settled (broker_run es) @
        (case Option.bind (response_id v) (js_get (bk_pending (broker_run es))) of None \<Rightarrow> [] | Some p \<Rightarrow> [(p, Fulfilled v)])) \<and>
   list_all (starts_with INTERNAL_REQUEST_PREFIX) (js_keys (bk_pending (broker_run es)) @ bk_retired (broker_run es)) \<and>
   bk_pending (broker_step (broker_run es) (AllFailed e)) = [] \<and>
   length (bk_retired (broker_run es)) \<le> 1024"
proof -
  define b where "b = broker_run es"
  have ok: "broker_ok b" unfolding b_def broker_run_def by (rule official_broker.run_inv [OF new_broker_ok])
  have "fst (broker_handle v b) = (\<exists>i. response_id v = Some i \<and> i \<in> set (js_keys (bk_pending b) @ bk_retired b))" for v
    by (auto simp: broker_handle_def js_has_iff split: option.splits)
  moreover have "bk_settled (snd (broker_handle v b)) = bk_settled b @
      (case Option.bind (response_id v) (js_get (bk_pending b)) of None \<Rightarrow> [] | Some p \<Rightarrow> [(p, Fulfilled v)])" for v
    by (auto simp: broker_handle_def settle_request_def js_has_def split: option.splits)
  ultimately show ?thesis
    using ok failAll_ok [OF ok, of e] unfolding b_def [symmetric]
    by (simp add: broker_ok_def promises_def MAX_RETIRED_IDS_def)
qed

end
