(* ===== verification/DesktopQueue.thy ===== *)
theory DesktopQueue
  imports Prelude
begin

text \<open>
  The order of requests within a Thread: \<open>packages/host-runtime/src/desktop-request-queue.ts\<close>. A task is a
  number. Its operation begins when the promise it was chained to has settled, settles when the operation
  does, and the callback that clears the tables runs some time later; all of this interleaves.
\<close>

datatype task_state = TaskWaiting | TaskRunning | TaskSettled | TaskCleared

record desktop_task =
  dt_thread :: "string option"
  dt_previous :: "nat option"
  dt_state :: task_state

record desktop_queue =
  dq_threads :: "(string, nat) jsmap"
  dq_pending :: "nat list"
  dq_tasks :: "desktop_task list"

definition new_desktop_queue :: desktop_queue where
  "new_desktop_queue = \<lparr>dq_threads = [], dq_pending = [], dq_tasks = []\<rparr>"

definition task_done :: "desktop_queue \<Rightarrow> nat \<Rightarrow> bool" where
  "task_done q t = (dt_state (dq_tasks q ! t) = TaskSettled \<or> dt_state (dq_tasks q ! t) = TaskCleared)"

definition set_task_state :: "nat \<Rightarrow> task_state \<Rightarrow> desktop_queue \<Rightarrow> desktop_queue" where
  "set_task_state t st q = q\<lparr>dq_tasks := (dq_tasks q)[t := (dq_tasks q ! t)\<lparr>dt_state := st\<rparr>]\<rparr>"

text \<open>\<open>run\<close>; the new task has the next number.\<close>

definition run_task :: "string option \<Rightarrow> desktop_queue \<Rightarrow> desktop_queue" where
  "run_task thread q =
     (let t = length (dq_tasks q);
          previous = (case thread of None \<Rightarrow> None | Some h \<Rightarrow> js_get (dq_threads q) h)
      in q\<lparr>dq_tasks := dq_tasks q @ [\<lparr>dt_thread = thread, dt_previous = previous, dt_state = TaskWaiting\<rparr>],
           dq_pending := dq_pending q @ [t],
           dq_threads := (case thread of None \<Rightarrow> dq_threads q | Some h \<Rightarrow> js_set h t (dq_threads q))\<rparr>)"

definition may_begin :: "desktop_queue \<Rightarrow> nat \<Rightarrow> bool" where
  "may_begin q t =
     (t < length (dq_tasks q) \<and> dt_state (dq_tasks q ! t) = TaskWaiting \<and>
      (case dt_previous (dq_tasks q ! t) of None \<Rightarrow> True | Some p \<Rightarrow> task_done q p))"

definition begin_task :: "nat \<Rightarrow> desktop_queue \<Rightarrow> desktop_queue" where
  "begin_task t q = (if may_begin q t then set_task_state t TaskRunning q else q)"

text \<open>The operation returned or threw: both settle the promise the next task waits for.\<close>

definition settle_task :: "nat \<Rightarrow> desktop_queue \<Rightarrow> desktop_queue" where
  "settle_task t q =
     (if t < length (dq_tasks q) \<and> dt_state (dq_tasks q ! t) = TaskRunning then set_task_state t TaskSettled q else q)"

definition clear_task :: "nat \<Rightarrow> desktop_queue \<Rightarrow> desktop_queue" where
  "clear_task t q =
     (if t < length (dq_tasks q) \<and> dt_state (dq_tasks q ! t) = TaskSettled
      then (set_task_state t TaskCleared q)\<lparr>dq_pending := removeAll t (dq_pending q),
             dq_threads := (case dt_thread (dq_tasks q ! t) of
                None \<Rightarrow> dq_threads q
              | Some h \<Rightarrow> if js_get (dq_threads q) h = Some t then js_delete h (dq_threads q) else dq_threads q)\<rparr>
      else q)"

text \<open>What \<open>drain\<close>, called with these tasks pending, waits for.\<close>

definition drained_tasks :: "nat list \<Rightarrow> desktop_queue \<Rightarrow> bool" where
  "drained_tasks pending q = list_all (task_done q) pending"

datatype desktop_event = RunTask "string option" | BeginTask nat | SettleTask nat | ClearTask nat

fun desktop_step :: "desktop_queue \<Rightarrow> desktop_event \<Rightarrow> desktop_queue" where
  "desktop_step q (RunTask thread) = run_task thread q"
| "desktop_step q (BeginTask t) = begin_task t q"
| "desktop_step q (SettleTask t) = settle_task t q"
| "desktop_step q (ClearTask t) = clear_task t q"

end
