(* ===== verification/DesktopQueueProps.thy ===== *)
theory DesktopQueueProps
  imports DesktopQueue
begin

text \<open>
  Requests of one Thread run one after the other in the order they came, others are not held up, and
  everything can come to an end with empty tables.
\<close>

abbreviation thread_at :: "desktop_queue \<Rightarrow> nat \<Rightarrow> string option" where
  "thread_at q t \<equiv> dt_thread (dq_tasks q ! t)"

abbreviation state_at :: "desktop_queue \<Rightarrow> nat \<Rightarrow> task_state" where
  "state_at q t \<equiv> dt_state (dq_tasks q ! t)"

text \<open>Every earlier task of the same Thread has settled.\<close>

definition earlier_done :: "desktop_queue \<Rightarrow> nat \<Rightarrow> bool" where
  "earlier_done q t = (\<forall>h u. thread_at q t = Some h \<longrightarrow> u < t \<longrightarrow> thread_at q u = Some h \<longrightarrow> task_done q u)"

definition chain_ok :: "desktop_queue \<Rightarrow> nat \<Rightarrow> bool" where
  "chain_ok q t =
     (case dt_previous (dq_tasks q ! t) of
        None \<Rightarrow> earlier_done q t
      | Some p \<Rightarrow> p < t \<and> (\<exists>h. thread_at q t = Some h \<and> thread_at q p = Some h \<and>
          (\<forall>u. p < u \<longrightarrow> u < t \<longrightarrow> thread_at q u \<noteq> Some h)))"

definition table_ok :: "desktop_queue \<Rightarrow> string \<Rightarrow> bool" where
  "table_ok q h =
     (case js_get (dq_threads q) h of
        None \<Rightarrow> (\<forall>u < length (dq_tasks q). thread_at q u = Some h \<longrightarrow> task_done q u)
      | Some t \<Rightarrow> t < length (dq_tasks q) \<and> thread_at q t = Some h \<and> state_at q t \<noteq> TaskCleared \<and>
          (\<forall>u < length (dq_tasks q). t < u \<longrightarrow> thread_at q u \<noteq> Some h))"

definition desktop_ok :: "desktop_queue \<Rightarrow> bool" where
  "desktop_ok q =
     ((\<forall>t < length (dq_tasks q). chain_ok q t \<and> (state_at q t \<noteq> TaskWaiting \<longrightarrow> earlier_done q t)) \<and>
      (\<forall>h. table_ok q h) \<and>
      set (dq_pending q) = {t. t < length (dq_tasks q) \<and> state_at q t \<noteq> TaskCleared})"

lemma chain_done:
  assumes "\<forall>t < length (dq_tasks q). chain_ok q t \<and> (state_at q t \<noteq> TaskWaiting \<longrightarrow> earlier_done q t)"
    and "t < length (dq_tasks q)" and "dt_previous (dq_tasks q ! t) = Some p" "task_done q p"
  shows "earlier_done q t"
proof -
  from assms obtain h where p: "p < t" "thread_at q t = Some h" "thread_at q p = Some h"
      "\<And>u. p < u \<Longrightarrow> u < t \<Longrightarrow> thread_at q u \<noteq> Some h"
    by (fastforce simp: chain_ok_def)
  have "state_at q p \<noteq> TaskWaiting" using assms(4) by (auto simp: task_done_def)
  then have "earlier_done q p" using assms(1,2) p(1) by simp
  then have "task_done q u" if "u < t" "thread_at q u = Some h" for u
    using that p assms(4) by (metis earlier_done_def linorder_neqE_nat)
  then show ?thesis using p(2) by (auto simp: earlier_done_def)
qed

text \<open>A waiting task may begin exactly when every earlier task of its Thread has settled.\<close>

lemma may_begin_iff:
  assumes "desktop_ok q" and "t < length (dq_tasks q)" "state_at q t = TaskWaiting"
  shows "may_begin q t \<longleftrightarrow> earlier_done q t"
proof (cases "dt_previous (dq_tasks q ! t)")
  case None
  then show ?thesis using assms by (auto simp: may_begin_def desktop_ok_def chain_ok_def)
next
  case (Some p)
  then obtain h where "p < t" "thread_at q t = Some h" "thread_at q p = Some h"
    using assms(1,2) by (fastforce simp: desktop_ok_def chain_ok_def)
  then show ?thesis
    using chain_done [of q t p] assms Some by (auto simp: may_begin_def desktop_ok_def earlier_done_def)
qed

lemma set_task_state_fields [simp]:
  "length (dq_tasks (set_task_state t st q)) = length (dq_tasks q)"
  "dq_pending (set_task_state t st q) = dq_pending q" "dq_threads (set_task_state t st q) = dq_threads q"
  by (simp_all add: set_task_state_def)

lemma task_after_set:
  "dq_tasks (set_task_state t st q) ! u =
    (if u = t \<and> t < length (dq_tasks q) then (dq_tasks q ! t)\<lparr>dt_state := st\<rparr> else dq_tasks q ! u)"
  by (cases "t < length (dq_tasks q)") (auto simp: set_task_state_def nth_list_update list_update_beyond)

lemma set_task_state_task [simp]:
  "thread_at (set_task_state t st q) u = thread_at q u"
  "dt_previous (dq_tasks (set_task_state t st q) ! u) = dt_previous (dq_tasks q ! u)"
  by (simp_all add: task_after_set)

lemma state_at_set: "t < length (dq_tasks q) \<Longrightarrow> state_at (set_task_state t st q) u = (if u = t then st else state_at q u)"
  by (simp add: task_after_set)

text \<open>Tasks only move forward.\<close>

definition forward :: "desktop_queue \<Rightarrow> desktop_queue \<Rightarrow> bool" where
  "forward q q' =
     (length (dq_tasks q') = length (dq_tasks q) \<and>
      (\<forall>t. thread_at q' t = thread_at q t \<and> dt_previous (dq_tasks q' ! t) = dt_previous (dq_tasks q ! t) \<and>
         (task_done q t \<longrightarrow> task_done q' t)))"

lemma forward_done: "forward q q' \<Longrightarrow> earlier_done q t \<Longrightarrow> earlier_done q' t"
  by (auto simp: forward_def earlier_done_def)

lemma forward_chain: "forward q q' \<Longrightarrow> chain_ok q t \<Longrightarrow> chain_ok q' t"
  by (auto simp: chain_ok_def forward_def earlier_done_def split: option.splits)

lemma forward_tasks:
  assumes "forward q q'" "desktop_ok q"
    and "\<And>t. t < length (dq_tasks q) \<Longrightarrow> state_at q' t \<noteq> TaskWaiting \<Longrightarrow> state_at q t = TaskWaiting \<Longrightarrow> earlier_done q t"
  shows "\<forall>t < length (dq_tasks q'). chain_ok q' t \<and> (state_at q' t \<noteq> TaskWaiting \<longrightarrow> earlier_done q' t)"
  using assms forward_chain [OF assms(1)] forward_done [OF assms(1)] by (auto simp: desktop_ok_def forward_def)

lemma forward_table:
  assumes "forward q q'" "dq_threads q' = dq_threads q" "table_ok q h"
    and "\<And>u. u < length (dq_tasks q) \<Longrightarrow> state_at q' u = TaskCleared \<Longrightarrow> state_at q u = TaskCleared"
  shows "table_ok q' h"
proof (cases "js_get (dq_threads q) h")
  case None
  then show ?thesis using assms(1-3) by (simp add: table_ok_def forward_def)
next
  case (Some t)
  then show ?thesis using assms by (auto simp: table_ok_def forward_def)
qed

lemma begin_task_ok:
  assumes "desktop_ok q"
  shows "desktop_ok (begin_task t q)"
proof (cases "may_begin q t")
  case True
  then have t: "t < length (dq_tasks q)" "state_at q t = TaskWaiting" by (auto simp: may_begin_def)
  let ?q = "set_task_state t TaskRunning q"
  have done_eq: "task_done ?q u = task_done q u" for u using t by (simp add: task_done_def state_at_set)
  have fwd: "forward q ?q" by (simp add: forward_def done_eq)
  have ready: "earlier_done q t" using may_begin_iff [OF assms t] True by simp
  have "table_ok ?q h" for h
    by (rule forward_table [OF fwd]) (use assms t in \<open>auto simp: desktop_ok_def state_at_set split: if_splits\<close>)
  moreover have "set (dq_pending ?q) = {u. u < length (dq_tasks ?q) \<and> state_at ?q u \<noteq> TaskCleared}"
    using assms t by (auto simp: desktop_ok_def state_at_set)
  moreover have "earlier_done q u" if "state_at ?q u \<noteq> TaskWaiting" "state_at q u = TaskWaiting" for u
    using that ready t by (auto simp: state_at_set split: if_splits)
  ultimately show ?thesis
    using forward_tasks [OF fwd assms] True by (simp add: begin_task_def desktop_ok_def)
qed (use assms in \<open>simp add: begin_task_def\<close>)

lemma settle_task_ok:
  assumes "desktop_ok q"
  shows "desktop_ok (settle_task t q)"
proof (cases "t < length (dq_tasks q) \<and> state_at q t = TaskRunning")
  case True
  let ?q = "set_task_state t TaskSettled q"
  have fwd: "forward q ?q" using True by (auto simp: forward_def task_done_def state_at_set)
  have "table_ok ?q h" for h
    by (rule forward_table [OF fwd]) (use assms True in \<open>auto simp: desktop_ok_def state_at_set split: if_splits\<close>)
  moreover have "set (dq_pending ?q) = {u. u < length (dq_tasks ?q) \<and> state_at ?q u \<noteq> TaskCleared}"
    using assms True by (auto simp: desktop_ok_def state_at_set)
  moreover have "earlier_done q u" if "state_at ?q u \<noteq> TaskWaiting" "state_at q u = TaskWaiting" for u
    using that True by (auto simp: state_at_set split: if_splits)
  ultimately show ?thesis
    using forward_tasks [OF fwd assms] True by (simp add: settle_task_def desktop_ok_def)
qed (use assms in \<open>auto simp: settle_task_def\<close>)

lemma clear_task_ok:
  assumes "desktop_ok q"
  shows "desktop_ok (clear_task t q)"
proof (cases "t < length (dq_tasks q) \<and> state_at q t = TaskSettled")
  case True
  define q' where "q' = clear_task t q"
  have tasks: "dq_tasks q' = dq_tasks (set_task_state t TaskCleared q)" using True by (simp add: q'_def clear_task_def)
  have pending: "dq_pending q' = removeAll t (dq_pending q)" using True by (simp add: q'_def clear_task_def)
  have threads: "js_get (dq_threads q') h = (if js_get (dq_threads q) h = Some t \<and> thread_at q t = Some h then None else js_get (dq_threads q) h)" for h
    using True by (auto simp: q'_def clear_task_def split: option.splits)
  have state: "state_at q' u = (if u = t then TaskCleared else state_at q u)" for u using True tasks by (simp add: state_at_set)
  have th: "thread_at q' u = thread_at q u" "length (dq_tasks q') = length (dq_tasks q)" for u by (simp_all add: tasks)
  have done_eq: "task_done q' u = task_done q u" for u using True by (auto simp: task_done_def state)
  have fwd: "forward q q'" by (simp add: forward_def done_eq tasks)
  have "table_ok q' h" for h
  proof -
    have ok: "table_ok q h" using assms by (simp add: desktop_ok_def)
    show ?thesis
    proof (cases "js_get (dq_threads q) h")
      case None
      then show ?thesis using ok by (simp add: table_ok_def threads th done_eq)
    next
      case (Some p)
      show ?thesis
      proof (cases "p = t")
        case False
        then show ?thesis using ok Some by (simp add: table_ok_def threads th state)
      next
        case same: True
        then have last: "thread_at q t = Some h" "\<forall>u < length (dq_tasks q). t < u \<longrightarrow> thread_at q u \<noteq> Some h"
          using ok Some by (auto simp: table_ok_def)
        have "earlier_done q t" using assms True by (auto simp: desktop_ok_def)
        moreover have "task_done q t" using True by (simp add: task_done_def)
        ultimately have "\<forall>u < length (dq_tasks q). thread_at q u = Some h \<longrightarrow> task_done q u"
          using last by (metis earlier_done_def linorder_neqE_nat)
        then show ?thesis using same Some last by (simp add: table_ok_def threads th done_eq)
      qed
    qed
  qed
  moreover have "set (dq_pending q') = {u. u < length (dq_tasks q') \<and> state_at q' u \<noteq> TaskCleared}"
    using assms by (auto simp: desktop_ok_def pending state th)
  moreover have "earlier_done q u" if "u < length (dq_tasks q)" "state_at q' u \<noteq> TaskWaiting" "state_at q u = TaskWaiting" for u
    using that True by (simp add: state split: if_splits)
  ultimately show ?thesis
    using forward_tasks [OF fwd assms] unfolding q'_def [symmetric] by (auto simp: desktop_ok_def)
qed (use assms in \<open>auto simp: clear_task_def\<close>)

lemma run_task_ok:
  assumes "desktop_ok q"
  shows "desktop_ok (run_task thread q)"
proof -
  define q' where "q' = run_task thread q"
  let ?n = "length (dq_tasks q)"
  have n: "length (dq_tasks q') = Suc ?n" by (simp add: q'_def run_task_def Let_def)
  have new: "thread_at q' ?n = thread" "state_at q' ?n = TaskWaiting"
      "dt_previous (dq_tasks q' ! ?n) = (case thread of None \<Rightarrow> None | Some h \<Rightarrow> js_get (dq_threads q) h)"
    by (simp_all add: q'_def run_task_def Let_def)
  have old: "dq_tasks q' ! u = dq_tasks q ! u" if "u < ?n" for u
    using that by (simp add: q'_def run_task_def Let_def nth_append)
  have done_eq: "task_done q' u = task_done q u" if "u < ?n" for u using old [OF that] by (simp add: task_done_def)
  have threads: "js_get (dq_threads q') h = (if thread = Some h then Some ?n else js_get (dq_threads q) h)" for h
    by (simp add: q'_def run_task_def Let_def split: option.splits)
  have pending: "set (dq_pending q') = insert ?n (set (dq_pending q))" by (simp add: q'_def run_task_def Let_def)
  have earlier: "earlier_done q' t = earlier_done q t" if "t < ?n" for t
    using that old done_eq by (auto simp: earlier_done_def)
  have chain: "chain_ok q' t = chain_ok q t" if t: "t < ?n" for t
  proof (cases "dt_previous (dq_tasks q ! t)")
    case None
    then show ?thesis using earlier [OF t] old [OF t] by (simp add: chain_ok_def)
  next
    case (Some p)
    then show ?thesis using old t by (cases "p < t") (simp_all add: chain_ok_def)
  qed
  have "chain_ok q' t \<and> (state_at q' t \<noteq> TaskWaiting \<longrightarrow> earlier_done q' t)" if t: "t < ?n" for t
    using assms t old [OF t] earlier [OF t] chain [OF t] by (simp add: desktop_ok_def)
  moreover have "chain_ok q' ?n"
  proof (cases "dt_previous (dq_tasks q' ! ?n)")
    case None
    have "task_done q' u" if "thread = Some h" "u < ?n" "thread_at q' u = Some h" for h u
    proof -
      have "js_get (dq_threads q) h = None" using None new(3) that(1) by simp
      moreover have "table_ok q h" using assms by (simp add: desktop_ok_def)
      ultimately show ?thesis using that old done_eq by (simp add: table_ok_def)
    qed
    then have "earlier_done q' ?n" using new(1) by (simp add: earlier_done_def)
    then show ?thesis using None by (simp add: chain_ok_def)
  next
    case (Some p)
    then obtain h where h: "thread = Some h" "js_get (dq_threads q) h = Some p" using new(3) by (auto split: option.splits)
    then have "p < ?n" "thread_at q p = Some h" "\<forall>u < ?n. p < u \<longrightarrow> thread_at q u \<noteq> Some h"
      using assms by (auto simp: desktop_ok_def table_ok_def split: option.splits dest: spec [of _ h])
    then show ?thesis using Some new(1) h(1) old by (auto simp: chain_ok_def)
  qed
  moreover have "table_ok q' h" for h
  proof -
    have ok: "table_ok q h" using assms by (simp add: desktop_ok_def)
    show ?thesis
    proof (cases "thread = Some h")
      case True
      then show ?thesis using new n by (auto simp: table_ok_def threads less_Suc_eq)
    next
      case False
      then have "js_get (dq_threads q') h = js_get (dq_threads q) h" "thread_at q' ?n \<noteq> Some h" using threads new(1) by auto
      then show ?thesis
        using ok old done_eq n by (cases "js_get (dq_threads q) h") (auto simp: table_ok_def less_Suc_eq)
    qed
  qed
  moreover have "set (dq_pending q') = {t. t < length (dq_tasks q') \<and> state_at q' t \<noteq> TaskCleared}"
    using assms new(2) old n pending by (auto simp: desktop_ok_def less_Suc_eq)
  ultimately show ?thesis
    using new(2) n unfolding q'_def [symmetric] by (auto simp: desktop_ok_def less_Suc_eq)
qed

lemma desktop_step_ok: "desktop_ok q \<Longrightarrow> desktop_ok (desktop_step q e)"
  by (cases e) (simp_all add: run_task_ok begin_task_ok settle_task_ok clear_task_ok)

interpretation desktop_requests: machine desktop_step desktop_ok
  by unfold_locales (rule desktop_step_ok)

definition desktop_run :: "desktop_event list \<Rightarrow> desktop_queue" where
  "desktop_run es = foldl desktop_step new_desktop_queue es"

lemma desktop_run_ok: "desktop_ok (desktop_run es)"
  unfolding desktop_run_def
  by (rule desktop_requests.run_inv) (simp add: desktop_ok_def new_desktop_queue_def table_ok_def)

text \<open>
  C18. Whatever requests come, end, fail and are cleared in whatever order: a request begins only when every
  earlier request of its Thread has settled, it may begin as soon as that is so, and requests without a
  Thread or of other Threads never hold it up.
\<close>

theorem desktop_requests_in_order:
  assumes "t < length (dq_tasks (desktop_run es))"
  shows "may_begin (desktop_run es) t =
      (state_at (desktop_run es) t = TaskWaiting \<and> earlier_done (desktop_run es) t) \<and>
    (state_at (desktop_run es) t = TaskWaiting \<or> earlier_done (desktop_run es) t) \<and>
    (thread_at (desktop_run es) t = None \<longrightarrow> may_begin (desktop_run es) t = (state_at (desktop_run es) t = TaskWaiting))"
proof -
  have ok: "desktop_ok (desktop_run es)" by (rule desktop_run_ok)
  have "may_begin (desktop_run es) t = (state_at (desktop_run es) t = TaskWaiting \<and> earlier_done (desktop_run es) t)"
    using may_begin_iff [OF ok assms] by (auto simp: may_begin_def)
  moreover have "state_at (desktop_run es) t = TaskWaiting \<or> earlier_done (desktop_run es) t"
    using ok assms by (auto simp: desktop_ok_def)
  ultimately show ?thesis by (auto simp: earlier_done_def)
qed

subsection \<open>Coming to an end\<close>

definition finish_task :: "nat \<Rightarrow> desktop_event list" where
  "finish_task t = [BeginTask t, SettleTask t, ClearTask t]"

lemma begin_task_state:
  "state_at (begin_task t q) u = (if u = t \<and> may_begin q t then TaskRunning else state_at q u)"
  "thread_at (begin_task t q) u = thread_at q u" "length (dq_tasks (begin_task t q)) = length (dq_tasks q)"
  by (auto simp: begin_task_def task_after_set may_begin_def)

lemma settle_task_state:
  "state_at (settle_task t q) u = (if u = t \<and> t < length (dq_tasks q) \<and> state_at q t = TaskRunning then TaskSettled else state_at q u)"
  "thread_at (settle_task t q) u = thread_at q u" "length (dq_tasks (settle_task t q)) = length (dq_tasks q)"
  by (auto simp: settle_task_def task_after_set)

lemma clear_task_state:
  "state_at (clear_task t q) u = (if u = t \<and> t < length (dq_tasks q) \<and> state_at q t = TaskSettled then TaskCleared else state_at q u)"
  "thread_at (clear_task t q) u = thread_at q u" "length (dq_tasks (clear_task t q)) = length (dq_tasks q)"
  by (auto simp: clear_task_def task_after_set)

lemma finish_task_clears:
  assumes "desktop_ok q" "t < length (dq_tasks q)" "\<forall>u < t. state_at q u = TaskCleared"
  defines "q' \<equiv> foldl desktop_step q (finish_task t)"
  shows "desktop_ok q' \<and> length (dq_tasks q') = length (dq_tasks q) \<and> (\<forall>u < Suc t. state_at q' u = TaskCleared)"
proof -
  have "earlier_done q t" using assms(3) by (auto simp: earlier_done_def task_done_def)
  then have ready: "state_at q t = TaskWaiting \<Longrightarrow> may_begin q t" using may_begin_iff [OF assms(1,2)] by simp
  have q': "q' = clear_task t (settle_task t (begin_task t q))" by (simp add: q'_def finish_task_def)
  have "state_at q' t = TaskCleared"
    using assms(2) ready by (cases "state_at q t") (simp_all add: q' clear_task_state settle_task_state begin_task_state may_begin_def)
  moreover have "state_at q' u = TaskCleared" if "u < t" for u
    using assms(3) that by (simp add: q' clear_task_state settle_task_state begin_task_state)
  moreover have "desktop_ok q'" unfolding q'_def by (rule desktop_requests.run_inv [OF assms(1)])
  moreover have "length (dq_tasks q') = length (dq_tasks q)"
    by (simp add: q' clear_task_state settle_task_state begin_task_state)
  ultimately show ?thesis by (auto simp: less_Suc_eq)
qed

lemma finish_tasks:
  assumes "desktop_ok q"
  shows "n \<le> length (dq_tasks q) \<Longrightarrow>
    (let q' = foldl desktop_step q (concat (List.map finish_task [0..<n])) in
     desktop_ok q' \<and> length (dq_tasks q') = length (dq_tasks q) \<and> (\<forall>u < n. state_at q' u = TaskCleared))"
proof (induction n)
  case 0
  then show ?case using assms by (simp add: Let_def)
next
  case (Suc n)
  define p where "p = foldl desktop_step q (concat (List.map finish_task [0..<n]))"
  have "desktop_ok p" "length (dq_tasks p) = length (dq_tasks q)" "\<forall>u < n. state_at p u = TaskCleared"
    using Suc by (simp_all add: p_def Let_def)
  moreover have "foldl desktop_step q (concat (List.map finish_task [0..<Suc n])) = foldl desktop_step p (finish_task n)"
    by (simp add: p_def)
  ultimately show ?case using finish_task_clears [of p n] Suc.prems by (simp add: Let_def)
qed

text \<open>
  From every reachable state the tasks can all be brought to an end, one after the other, without a new
  request; then nothing is left in the tables, and every drain is over.
\<close>

theorem desktop_requests_drain:
  "\<exists>es'. (\<forall>thread. RunTask thread \<notin> set es') \<and>
     dq_threads (desktop_run (es @ es')) = [] \<and> dq_pending (desktop_run (es @ es')) = [] \<and>
     drained_tasks (dq_pending (desktop_run es)) (desktop_run (es @ es')) \<and>
     list_all (\<lambda>task. dt_state task = TaskCleared) (dq_tasks (desktop_run (es @ es')))"
proof -
  let ?q = "desktop_run es"
  let ?n = "length (dq_tasks ?q)"
  let ?es = "concat (List.map finish_task [0..<?n])"
  define q' where "q' = desktop_run (es @ ?es)"
  have "q' = foldl desktop_step ?q ?es" by (simp add: q'_def desktop_run_def)
  then have ok: "desktop_ok q'" "length (dq_tasks q') = ?n" "\<forall>u < ?n. state_at q' u = TaskCleared"
    using finish_tasks [OF desktop_run_ok [of es], of ?n] by (simp_all add: Let_def)
  have pending: "dq_pending q' = []" using ok by (simp add: desktop_ok_def set_empty [symmetric] del: set_empty)
  have none: "js_get (dq_threads q') h = None" for h
  proof -
    have "table_ok q' h" using ok(1) by (simp add: desktop_ok_def)
    then show ?thesis using ok(2,3) by (cases "js_get (dq_threads q') h") (auto simp: table_ok_def)
  qed
  have threads: "dq_threads q' = []"
  proof (cases "dq_threads q'")
    case (Cons kv m)
    then show ?thesis using none [of "fst kv"] by (cases kv) simp
  qed
  have "drained_tasks (dq_pending ?q) q'"
    using ok desktop_run_ok [of es] by (auto simp: drained_tasks_def list_all_iff task_done_def desktop_ok_def)
  moreover have "list_all (\<lambda>task. dt_state task = TaskCleared) (dq_tasks q')" using ok by (simp add: list_all_length)
  moreover have "RunTask thread \<notin> set ?es" for thread by (auto simp: finish_task_def)
  ultimately show ?thesis using pending threads unfolding q'_def by blast
qed

lemma desktop_requests_in_order_witness:
  "\<not> may_begin (desktop_run [RunTask (Some ''a''), RunTask (Some ''a''), RunTask None, BeginTask 0]) 1 \<and>
   may_begin (desktop_run [RunTask (Some ''a''), RunTask (Some ''a''), RunTask None, BeginTask 0]) 2"
proof -
  let ?es = "[RunTask (Some ''a''), RunTask (Some ''a''), RunTask None, BeginTask 0]"
  have len: "1 < length (dq_tasks (desktop_run ?es))" "2 < length (dq_tasks (desktop_run ?es))" by code_simp+
  have "thread_at (desktop_run ?es) 1 = Some ''a''" "thread_at (desktop_run ?es) 0 = Some ''a''" "\<not> task_done (desktop_run ?es) 0"
    by code_simp+
  then have "\<not> earlier_done (desktop_run ?es) 1" by (auto simp: earlier_done_def)
  moreover have "thread_at (desktop_run ?es) 2 = None" "state_at (desktop_run ?es) 2 = TaskWaiting" by code_simp+
  ultimately show ?thesis
    using desktop_requests_in_order [OF len(1)] desktop_requests_in_order [OF len(2)] by blast
qed

end
