(* ===== verification/ModelRouting.thy ===== *)
theory ModelRouting
  imports JsonText Records
begin

text \<open>
  The model id of a request as a route: \<open>packages/protocol-core/src/model-routing.ts\<close> and
  \<open>packages/shared-contracts/src/harness-route.ts\<close>. The Harnesses of the first generation have each a format
  of their own, a native id with parts behind \<open>@\<close>; every other Harness is a plugin, whose route is JSON in
  hexadecimal. Six of the formats differ in their name alone or almost; what they share is a definition with
  the name as argument.
\<close>

subsection \<open>Schemas\<close>

datatype route_error = RouteError string | SchemaRejected

definition transport_char :: "char \<Rightarrow> bool" where
  "transport_char c =
     (let n = of_char c :: nat in
      (48 \<le> n \<and> n \<le> 57) \<or> (65 \<le> n \<and> n \<le> 90) \<or> (97 \<le> n \<and> n \<le> 122) \<or> n = 46 \<or> n = 95 \<or> n = 126 \<or> n = 45)"

definition harnessModelRefId_ok :: "string \<Rightarrow> bool" where
  "harnessModelRefId_ok s = (nonblank s \<and> length s \<le> 512 \<and> s \<noteq> [] \<and> list_all transport_char s)"

definition harnessThinkingOptionId_ok :: "string \<Rightarrow> bool" where
  "harnessThinkingOptionId_ok s = (nonblank s \<and> length s \<le> 128 \<and> s \<noteq> [] \<and> list_all transport_char s)"

definition harnessPermissionModeId_ok :: "string \<Rightarrow> bool" where
  "harnessPermissionModeId_ok s = (nonblank s \<and> length s \<le> 128 \<and> s \<noteq> [] \<and> list_all transport_char s)"

text \<open>\<open>^[a-z][a-z0-9]*(?:[._-][a-z0-9]+)*$\<close>; the flag says whether a word may end here.\<close>

definition lower_letter :: "char \<Rightarrow> bool" where
  "lower_letter c = (let n = of_char c :: nat in 97 \<le> n \<and> n \<le> 122)"

definition lower_alnum :: "char \<Rightarrow> bool" where
  "lower_alnum c = (let n = of_char c :: nat in lower_letter c \<or> (48 \<le> n \<and> n \<le> 57))"

fun plugin_words :: "bool \<Rightarrow> string \<Rightarrow> bool" where
  "plugin_words ended [] = ended"
| "plugin_words ended (c # s) =
     (if lower_alnum c then plugin_words True s
      else ended \<and> (c = CHR ''.'' \<or> c = CHR ''_'' \<or> c = CHR ''-'') \<and> plugin_words False s)"

definition plugin_pattern :: "string \<Rightarrow> bool" where
  "plugin_pattern s = (case s of [] \<Rightarrow> False | c # t \<Rightarrow> lower_letter c \<and> plugin_words True t)"

definition installedHarnessPluginId_ok :: "string \<Rightarrow> bool" where
  "installedHarnessPluginId_ok s = (1 \<le> length s \<and> length s \<le> 128 \<and> plugin_pattern s \<and> nonblank s)"

definition harnessPluginId_ok :: "string \<Rightarrow> bool" where
  "harnessPluginId_ok s = (installedHarnessPluginId_ok s \<and> s \<noteq> ''codex'')"

record model_ref =
  mr_id :: string

record external_selection =
  sl_model :: "model_ref option"
  sl_thinkingOptionId :: "string option"
  sl_permissionModeId :: "string option"

definition no_selection :: external_selection where
  "no_selection = \<lparr>sl_model = None, sl_thinkingOptionId = None, sl_permissionModeId = None\<rparr>"

definition harnessModelRef_parse :: "model_ref \<Rightarrow> route_error + model_ref" where
  "harnessModelRef_parse m = (if harnessModelRefId_ok (mr_id m) then Inr m else Inl SchemaRejected)"

text \<open>\<open>x ? schema.parse(x) : undefined\<close>, and \<open>safeParse\<close> with the error that follows it.\<close>

definition parse_given :: "(string \<Rightarrow> bool) \<Rightarrow> string option \<Rightarrow> route_error + string option" where
  "parse_given ok x =
     (case truthy x of None \<Rightarrow> Inr None | Some s \<Rightarrow> if ok s then Inr (Some s) else Inl SchemaRejected)"

definition safe_given :: "(string \<Rightarrow> bool) \<Rightarrow> string \<Rightarrow> string option \<Rightarrow> route_error + string option" where
  "safe_given ok message x =
     (case truthy x of None \<Rightarrow> Inr None | Some s \<Rightarrow> if ok s then Inr (Some s) else Inl (RouteError message))"

subsection \<open>Native ids\<close>

definition PI_NATIVE :: string where "PI_NATIVE = ''codexhost/pi-native''"
definition CLAUDE_CODE_NATIVE :: string where "CLAUDE_CODE_NATIVE = ''codexhost/claude-code-native''"
definition DEEPSEEK_HARNESS_NATIVE :: string where "DEEPSEEK_HARNESS_NATIVE = ''codexhost/deepseek-harness-native''"
definition OPENCODE_NATIVE :: string where "OPENCODE_NATIVE = ''codexhost/opencode-native''"
definition GROK_NATIVE :: string where "GROK_NATIVE = ''codexhost/grok-native''"
definition OMP_NATIVE :: string where "OMP_NATIVE = ''codexhost/omp-native''"
definition ANTIGRAVITY_NATIVE :: string where "ANTIGRAVITY_NATIVE = ''codexhost/antigravity-native''"

definition transportModelByHarness :: "(string, string) jsmap" where
  "transportModelByHarness =
     [(''pi'', PI_NATIVE), (''claude-code'', CLAUDE_CODE_NATIVE), (''deepseek-harness'', DEEPSEEK_HARNESS_NATIVE),
      (''opencode'', OPENCODE_NATIVE), (''grok'', GROK_NATIVE), (''omp'', OMP_NATIVE),
      (''antigravity'', ANTIGRAVITY_NATIVE)]"

definition harnessByTransportModel :: "(string, string) jsmap" where
  "harnessByTransportModel = List.map (\<lambda>(h, m). (m, h)) transportModelByHarness"

definition transport_prefix :: "string \<Rightarrow> string" where
  "transport_prefix native = native @ ''@''"

subsection \<open>Encoding\<close>

definition or_empty :: "string option \<Rightarrow> string" where
  "or_empty x = (case x of None \<Rightarrow> [] | Some s \<Rightarrow> s)"

definition at_suffix :: "string option \<Rightarrow> string" where
  "at_suffix x = (case x of None \<Rightarrow> [] | Some s \<Rightarrow> ''@'' @ s)"

definition encodePiTransportModel :: "model_ref option \<Rightarrow> string option \<Rightarrow> route_error + string" where
  "encodePiTransportModel model thinkingOptionId =
     (case model of
        None \<Rightarrow> if truthy thinkingOptionId \<noteq> None then Inl (RouteError ''Pi transport Thinking requires a Model Ref'')
                else Inr PI_NATIVE
      | Some m \<Rightarrow>
          bindE (harnessModelRef_parse m) (\<lambda>parsedModel.
          bindE (parse_given harnessThinkingOptionId_ok thinkingOptionId) (\<lambda>parsedThinking.
          Inr (transport_prefix PI_NATIVE @ mr_id parsedModel @ at_suffix parsedThinking))))"

definition encodeOmpTransportModel ::
  "model_ref option \<Rightarrow> string option \<Rightarrow> string option \<Rightarrow> route_error + string"
where
  "encodeOmpTransportModel model thinkingOptionId permissionModeId =
     (case model of
        None \<Rightarrow> if truthy permissionModeId \<noteq> None \<or> truthy thinkingOptionId \<noteq> None
                then Inl (RouteError ''OMP transport configuration requires a Model Ref'')
                else Inr OMP_NATIVE
      | Some m \<Rightarrow>
          bindE (harnessModelRef_parse m) (\<lambda>parsedModel.
          bindE (parse_given harnessPermissionModeId_ok permissionModeId) (\<lambda>parsedPermissionMode.
          bindE (parse_given harnessThinkingOptionId_ok thinkingOptionId) (\<lambda>parsedThinking.
          Inr (case parsedPermissionMode of
                 Some p \<Rightarrow> transport_prefix OMP_NATIVE @ mr_id parsedModel @ ''@'' @ p @ ''@'' @ or_empty parsedThinking
               | None \<Rightarrow> transport_prefix OMP_NATIVE @ mr_id parsedModel @ at_suffix parsedThinking)))))"

text \<open>Antigravity, OpenCode, Claude Code and Grok: a thinking option behind a permission mode that may be empty.\<close>

definition encode_configuration ::
  "string \<Rightarrow> string \<Rightarrow> model_ref option \<Rightarrow> string option \<Rightarrow> string option \<Rightarrow> route_error + string"
where
  "encode_configuration name native model permissionModeId thinkingOptionId =
     (case model of
        None \<Rightarrow> if truthy permissionModeId \<noteq> None \<or> truthy thinkingOptionId \<noteq> None
                then Inl (RouteError (name @ '' transport configuration requires a Model Ref''))
                else Inr native
      | Some m \<Rightarrow>
          bindE (harnessModelRef_parse m) (\<lambda>parsedModel.
          bindE (parse_given harnessPermissionModeId_ok permissionModeId) (\<lambda>parsedPermission.
          bindE (parse_given harnessThinkingOptionId_ok thinkingOptionId) (\<lambda>parsedThinking.
          Inr (case parsedThinking of
                 Some t \<Rightarrow> transport_prefix native @ mr_id parsedModel @ ''@'' @ or_empty parsedPermission @ ''@'' @ t
               | None \<Rightarrow> transport_prefix native @ mr_id parsedModel @ at_suffix parsedPermission)))))"

definition encodeAntigravityTransportModel ::
  "model_ref option \<Rightarrow> string option \<Rightarrow> string option \<Rightarrow> route_error + string"
where
  "encodeAntigravityTransportModel = encode_configuration ''Antigravity'' ANTIGRAVITY_NATIVE"

definition encodeOpenCodeTransportModel ::
  "model_ref option \<Rightarrow> string option \<Rightarrow> string option \<Rightarrow> route_error + string"
where
  "encodeOpenCodeTransportModel = encode_configuration ''OpenCode'' OPENCODE_NATIVE"

definition encodeClaudeTransportModel ::
  "model_ref option \<Rightarrow> string option \<Rightarrow> string option \<Rightarrow> route_error + string"
where
  "encodeClaudeTransportModel = encode_configuration ''Claude Code'' CLAUDE_CODE_NATIVE"

definition encodeGrokTransportModel ::
  "model_ref option \<Rightarrow> string option \<Rightarrow> string option \<Rightarrow> route_error + string"
where
  "encodeGrokTransportModel = encode_configuration ''Grok'' GROK_NATIVE"

definition encodeDeepSeekHarnessTransportModel ::
  "model_ref option \<Rightarrow> string option \<Rightarrow> route_error + string"
where
  "encodeDeepSeekHarnessTransportModel model permissionModeId =
     (case model of
        None \<Rightarrow> if truthy permissionModeId \<noteq> None
                then Inl (RouteError ''DeepSeek Harness transport Permission Mode requires a Model Ref'')
                else Inr DEEPSEEK_HARNESS_NATIVE
      | Some m \<Rightarrow>
          bindE (harnessModelRef_parse m) (\<lambda>parsedModel.
          bindE (parse_given harnessPermissionModeId_ok permissionModeId) (\<lambda>parsedPermissionModeId.
          Inr (transport_prefix DEEPSEEK_HARNESS_NATIVE @ mr_id parsedModel @ at_suffix parsedPermissionModeId))))"

subsection \<open>Decoding\<close>

fun split_text :: "char \<Rightarrow> string \<Rightarrow> string list" where
  "split_text c [] = [[]]"
| "split_text c (x # s) =
     (if x = c then [] # split_text c s
      else case split_text c s of [] \<Rightarrow> [[x]] | p # ps \<Rightarrow> (x # p) # ps)"

definition component_at :: "string list \<Rightarrow> nat \<Rightarrow> string option" where
  "component_at cs i = (if i < length cs then Some (cs ! i) else None)"

text \<open>What every decoder does with a value that is not its own; the components go to \<open>decode\<close>.\<close>

definition decode_native ::
  "string \<Rightarrow> (string list \<Rightarrow> route_error + external_selection) \<Rightarrow> json \<Rightarrow> route_error + external_selection option"
where
  "decode_native native decode v =
     (if v = JStr native then Inr (Some no_selection)
      else case v of
        JStr s \<Rightarrow>
          if \<not> starts_with (transport_prefix native) s then Inr None
          else bindE (decode (split_text (CHR ''@'') (drop (length (transport_prefix native)) s))) (\<lambda>sel. Inr (Some sel))
      | _ \<Rightarrow> Inr None)"

definition configuration_components :: "string \<Rightarrow> string list \<Rightarrow> route_error + external_selection" where
  "configuration_components name components =
     (let modelId = or_empty (component_at components 0);
          permissionModeId = component_at components 1;
          thinkingOptionId = component_at components 2
      in if length components < 1 \<or> 3 < length components
         then Inl (RouteError (name @ '' transport configuration has an invalid component count''))
         else if length components = 2 \<and> truthy permissionModeId = None
         then Inl (RouteError (name @ '' transport configuration has an empty Permission Mode''))
         else if length components = 3 \<and> truthy thinkingOptionId = None
         then Inl (RouteError (name @ '' transport configuration has an empty Thinking option''))
         else if \<not> harnessModelRefId_ok modelId
         then Inl (RouteError (name @ '' transport Model contains an invalid Model Ref''))
         else bindE (safe_given harnessPermissionModeId_ok
                       (name @ '' transport configuration contains an invalid Permission Mode'') permissionModeId)
                (\<lambda>permissionMode.
              bindE (safe_given harnessThinkingOptionId_ok
                       (name @ '' transport configuration contains an invalid Thinking option'') thinkingOptionId)
                (\<lambda>thinking.
              Inr \<lparr>sl_model = Some \<lparr>mr_id = modelId\<rparr>, sl_thinkingOptionId = thinking,
                   sl_permissionModeId = permissionMode\<rparr>)))"

definition decodeAntigravityTransportSelection :: "json \<Rightarrow> route_error + external_selection option" where
  "decodeAntigravityTransportSelection = decode_native ANTIGRAVITY_NATIVE (configuration_components ''Antigravity'')"

definition decodeOpenCodeTransportSelection :: "json \<Rightarrow> route_error + external_selection option" where
  "decodeOpenCodeTransportSelection = decode_native OPENCODE_NATIVE (configuration_components ''OpenCode'')"

definition decodeGrokTransportSelection :: "json \<Rightarrow> route_error + external_selection option" where
  "decodeGrokTransportSelection = decode_native GROK_NATIVE (configuration_components ''Grok'')"

definition decodeClaudeTransportSelection :: "json \<Rightarrow> route_error + external_selection option" where
  "decodeClaudeTransportSelection = decode_native CLAUDE_CODE_NATIVE (configuration_components ''Claude Code'')"

definition omp_components :: "string list \<Rightarrow> route_error + external_selection" where
  "omp_components components =
     (let modelId = or_empty (component_at components 0);
          permissionOrThinkingId = component_at components 1;
          thinkingOptionId = component_at components 2
      in if length components < 1 \<or> 3 < length components
         then Inl (RouteError ''OMP transport configuration has an invalid component count'')
         else if length components = 2 \<and> truthy permissionOrThinkingId = None
         then Inl (RouteError ''OMP transport configuration has an empty Thinking option'')
         else if length components = 3 \<and> truthy permissionOrThinkingId = None
         then Inl (RouteError ''OMP transport configuration has an empty Permission Mode'')
         else if \<not> harnessModelRefId_ok modelId
         then Inl (RouteError ''OMP transport Model contains an invalid Model Ref'')
         else bindE (safe_given harnessPermissionModeId_ok
                       ''OMP transport configuration contains an invalid Permission Mode''
                       (if length components = 3 then permissionOrThinkingId else None))
                (\<lambda>permissionMode.
              bindE (safe_given harnessThinkingOptionId_ok
                       ''OMP transport configuration contains an invalid Thinking option''
                       (if length components = 2 then permissionOrThinkingId else thinkingOptionId))
                (\<lambda>thinking.
              Inr \<lparr>sl_model = Some \<lparr>mr_id = modelId\<rparr>, sl_thinkingOptionId = thinking,
                   sl_permissionModeId = permissionMode\<rparr>)))"

definition decodeOmpTransportSelection :: "json \<Rightarrow> route_error + external_selection option" where
  "decodeOmpTransportSelection = decode_native OMP_NATIVE omp_components"

definition pi_components :: "string list \<Rightarrow> route_error + external_selection" where
  "pi_components components =
     (let modelId = or_empty (component_at components 0); thinkingOptionId = component_at components 1
      in if length components < 1 \<or> 2 < length components
         then Inl (RouteError ''Pi transport configuration has an invalid component count'')
         else if length components = 2 \<and> truthy thinkingOptionId = None
         then Inl (RouteError ''Pi transport configuration has an empty Thinking option'')
         else if \<not> harnessModelRefId_ok modelId
         then Inl (RouteError ''Pi transport Model contains an invalid Model Ref'')
         else bindE (safe_given harnessThinkingOptionId_ok
                       ''Pi transport configuration contains an invalid Thinking option'' thinkingOptionId)
                (\<lambda>thinking.
              Inr \<lparr>sl_model = Some \<lparr>mr_id = modelId\<rparr>, sl_thinkingOptionId = thinking, sl_permissionModeId = None\<rparr>))"

definition decodePiTransportSelection :: "json \<Rightarrow> route_error + external_selection option" where
  "decodePiTransportSelection = decode_native PI_NATIVE pi_components"

definition deepseek_components :: "string list \<Rightarrow> route_error + external_selection" where
  "deepseek_components components =
     (let modelId = or_empty (component_at components 0); permissionModeId = component_at components 1
      in if length components < 1 \<or> 2 < length components
         then Inl (RouteError ''DeepSeek Harness transport configuration has an invalid component count'')
         else if length components = 2 \<and> truthy permissionModeId = None
         then Inl (RouteError ''DeepSeek Harness transport configuration has an empty Permission Mode'')
         else if \<not> harnessModelRefId_ok modelId
         then Inl (RouteError ''DeepSeek Harness transport Model contains an invalid Model Ref'')
         else bindE (safe_given harnessPermissionModeId_ok
                       ''DeepSeek Harness transport contains an invalid Permission Mode'' permissionModeId)
                (\<lambda>permissionMode.
              Inr \<lparr>sl_model = Some \<lparr>mr_id = modelId\<rparr>, sl_thinkingOptionId = None, sl_permissionModeId = permissionMode\<rparr>))"

definition decodeDeepSeekHarnessTransportSelection :: "json \<Rightarrow> route_error + external_selection option" where
  "decodeDeepSeekHarnessTransportSelection = decode_native DEEPSEEK_HARNESS_NATIVE deepseek_components"

text \<open>\<open>null\<close> is \<open>None\<close>, \<open>undefined\<close> is \<open>Some None\<close>.\<close>

definition selected_model :: "external_selection option \<Rightarrow> model_ref option option" where
  "selected_model = map_option sl_model"

definition decodeOmpTransportModel :: "json \<Rightarrow> route_error + model_ref option option" where
  "decodeOmpTransportModel v = bindE (decodeOmpTransportSelection v) (\<lambda>s. Inr (selected_model s))"

definition decodePiTransportModel :: "json \<Rightarrow> route_error + model_ref option option" where
  "decodePiTransportModel v = bindE (decodePiTransportSelection v) (\<lambda>s. Inr (selected_model s))"

end
