(* ===== verification/CreateRoute.thy ===== *)
theory CreateRoute
  imports ModelRouting
begin

text \<open>
  Routes of plugins (\<open>packages/shared-contracts/src/harness-route.ts\<close>) and the decision which Harness a
  create request belongs to (the end of \<open>packages/protocol-core/src/model-routing.ts\<close>).
\<close>

subsection \<open>Plugin routes\<close>

definition HARNESS_PLUGIN_ROUTE_PREFIX :: string where
  "HARNESS_PLUGIN_ROUTE_PREFIX = ''codexhost/plugin-v1@''"

definition MAX_ROUTE_LENGTH :: nat where
  "MAX_ROUTE_LENGTH = 4096"

record plugin_route =
  pr_harnessId :: string
  pr_model :: "model_ref option"
  pr_thinkingOptionId :: "string option"
  pr_permissionModeId :: "string option"
  pr_prewarm :: bool

definition plugin_route_ok :: "plugin_route \<Rightarrow> bool" where
  "plugin_route_ok r =
     (harnessPluginId_ok (pr_harnessId r) \<and>
      opt_ok (\<lambda>m. harnessModelRefId_ok (mr_id m)) (pr_model r) \<and>
      opt_ok harnessThinkingOptionId_ok (pr_thinkingOptionId r) \<and>
      opt_ok harnessPermissionModeId_ok (pr_permissionModeId r))"

text \<open>The strict schema on a parsed value.\<close>

definition route_model :: "(string \<times> json) list \<Rightarrow> model_ref option option" where
  "route_model kvs =
     (case map_of kvs ''model'' of
        None \<Rightarrow> Some None
      | Some (JObj m) \<Rightarrow>
          (case map_of m ''id'' of
             Some (JStr i) \<Rightarrow> if harnessModelRefId_ok i \<and> set (js_keys m) \<subseteq> {''id''} then Some (Some \<lparr>mr_id = i\<rparr>) else None
           | _ \<Rightarrow> None)
      | _ \<Rightarrow> None)"

definition route_text :: "(string \<Rightarrow> bool) \<Rightarrow> string \<Rightarrow> (string \<times> json) list \<Rightarrow> string option option" where
  "route_text ok name kvs =
     (case map_of kvs name of
        None \<Rightarrow> Some None
      | Some (JStr s) \<Rightarrow> if ok s then Some (Some s) else None
      | _ \<Rightarrow> None)"

definition route_prewarm :: "(string \<times> json) list \<Rightarrow> bool option" where
  "route_prewarm kvs =
     (case map_of kvs ''prewarm'' of None \<Rightarrow> Some False | Some v \<Rightarrow> if v = JBool True then Some True else None)"

definition harnessPluginRoute_parse :: "json \<Rightarrow> plugin_route option" where
  "harnessPluginRoute_parse v =
     (case v of
        JObj kvs \<Rightarrow>
          if set (js_keys kvs) \<subseteq> {''harnessId'', ''model'', ''thinkingOptionId'', ''permissionModeId'', ''prewarm''}
          then (case (route_text harnessPluginId_ok ''harnessId'' kvs, route_model kvs,
                      route_text harnessThinkingOptionId_ok ''thinkingOptionId'' kvs,
                      route_text harnessPermissionModeId_ok ''permissionModeId'' kvs, route_prewarm kvs) of
                  (Some (Some h), Some m, Some t, Some p, Some w) \<Rightarrow>
                    Some \<lparr>pr_harnessId = h, pr_model = m, pr_thinkingOptionId = t, pr_permissionModeId = p, pr_prewarm = w\<rparr>
                | _ \<Rightarrow> None)
          else None
      | _ \<Rightarrow> None)"

text \<open>The parsed route has its members in the order of the schema, absent ones left out.\<close>

definition given_member :: "string \<Rightarrow> ('a \<Rightarrow> json) \<Rightarrow> 'a option \<Rightarrow> (string \<times> json) list" where
  "given_member name f x = (case x of None \<Rightarrow> [] | Some v \<Rightarrow> [(name, f v)])"

definition plugin_route_json :: "plugin_route \<Rightarrow> json" where
  "plugin_route_json r =
     JObj ((''harnessId'', JStr (pr_harnessId r)) #
           given_member ''model'' (\<lambda>m. JObj [(''id'', JStr (mr_id m))]) (pr_model r) @
           given_member ''thinkingOptionId'' JStr (pr_thinkingOptionId r) @
           given_member ''permissionModeId'' JStr (pr_permissionModeId r) @
           (if pr_prewarm r then [(''prewarm'', JBool True)] else []))"

definition hex_byte :: "char \<Rightarrow> string" where
  "hex_byte c = (let n = of_char c :: nat in [hex_digit (n div 16), hex_digit (n mod 16)])"

definition encodeHarnessPluginRoute :: "plugin_route \<Rightarrow> route_error + string" where
  "encodeHarnessPluginRoute r =
     (if plugin_route_ok r
      then Inr (HARNESS_PLUGIN_ROUTE_PREFIX @ concat (List.map hex_byte (json_text (plugin_route_json r))))
      else Inl SchemaRejected)"

definition lower_hex :: "char \<Rightarrow> bool" where
  "lower_hex c = (let n = of_char c :: nat in (48 \<le> n \<and> n \<le> 57) \<or> (97 \<le> n \<and> n \<le> 102))"

definition hex_payload :: "string \<Rightarrow> bool" where
  "hex_payload s = (s \<noteq> [] \<and> even (length s) \<and> list_all lower_hex s)"

fun hex_text :: "string \<Rightarrow> string" where
  "hex_text (a # b # s) =
     (case (hex_value a, hex_value b) of (Some x, Some y) \<Rightarrow> char_of (16 * x + y) # hex_text s | _ \<Rightarrow> [])"
| "hex_text _ = []"

definition decodeHarnessPluginRoute :: "json \<Rightarrow> route_error + plugin_route option" where
  "decodeHarnessPluginRoute v =
     (case v of
        JStr s \<Rightarrow>
          if \<not> starts_with HARNESS_PLUGIN_ROUTE_PREFIX s then Inr None
          else
            let payload = drop (length HARNESS_PLUGIN_ROUTE_PREFIX) s;
                invalid = Inl (RouteError ''Invalid Harness plugin route'')
            in if MAX_ROUTE_LENGTH < length s \<or> \<not> hex_payload payload then invalid
               else (case Option.bind (json_parse (hex_text payload)) harnessPluginRoute_parse of
                       None \<Rightarrow> invalid
                     | Some decoded \<Rightarrow>
                         if encodeHarnessPluginRoute decoded = Inr s then Inr (Some decoded) else invalid)
      | _ \<Rightarrow> Inr None)"

subsection \<open>Selections of any Harness\<close>

definition route_selection :: "plugin_route \<Rightarrow> external_selection" where
  "route_selection r =
     \<lparr>sl_model = pr_model r, sl_thinkingOptionId = truthy (pr_thinkingOptionId r),
      sl_permissionModeId = truthy (pr_permissionModeId r)\<rparr>"

definition encodeExternalTransportSelection :: "string \<Rightarrow> external_selection \<Rightarrow> route_error + string" where
  "encodeExternalTransportSelection harnessId sel =
     (if harnessPluginId_ok harnessId
      then encodeHarnessPluginRoute
             \<lparr>pr_harnessId = harnessId, pr_model = sl_model sel, pr_thinkingOptionId = sl_thinkingOptionId sel,
              pr_permissionModeId = sl_permissionModeId sel, pr_prewarm = False\<rparr>
      else Inl SchemaRejected)"

definition transportModelIdForHarness :: "string \<Rightarrow> route_error + string" where
  "transportModelIdForHarness harnessId =
     (case js_get transportModelByHarness harnessId of
        Some legacy \<Rightarrow> Inr legacy
      | None \<Rightarrow> encodeExternalTransportSelection harnessId no_selection)"

definition decode_legacy :: "string \<Rightarrow> json \<Rightarrow> route_error + external_selection option" where
  "decode_legacy harnessId v =
     (if harnessId = ''pi'' then decodePiTransportSelection v
      else if harnessId = ''claude-code'' then decodeClaudeTransportSelection v
      else if harnessId = ''deepseek-harness'' then decodeDeepSeekHarnessTransportSelection v
      else if harnessId = ''opencode'' then decodeOpenCodeTransportSelection v
      else if harnessId = ''grok'' then decodeGrokTransportSelection v
      else if harnessId = ''omp'' then decodeOmpTransportSelection v
      else if harnessId = ''antigravity'' then decodeAntigravityTransportSelection v
      else Inr None)"

definition decodeExternalTransportSelection :: "string \<Rightarrow> json \<Rightarrow> route_error + external_selection option" where
  "decodeExternalTransportSelection harnessId v =
     bindE (decodeHarnessPluginRoute v) (\<lambda>route.
       case route of
         Some r \<Rightarrow> Inr (if pr_harnessId r \<noteq> harnessId then None else Some (route_selection r))
       | None \<Rightarrow> decode_legacy harnessId v)"

definition decodeExternalTransportModel :: "string \<Rightarrow> json \<Rightarrow> route_error + model_ref option option" where
  "decodeExternalTransportModel harnessId v =
     bindE (decodeExternalTransportSelection harnessId v) (\<lambda>s. Inr (selected_model s))"

subsection \<open>Create requests\<close>

record create_route =
  cr_harnessId :: string
  cr_native :: bool
  cr_transportModelId :: string
  cr_selection :: external_selection
  cr_prewarm :: bool

definition native_route :: "string \<Rightarrow> string \<Rightarrow> external_selection \<Rightarrow> create_route" where
  "native_route harnessId model sel =
     \<lparr>cr_harnessId = harnessId, cr_native = True, cr_transportModelId = model, cr_selection = sel, cr_prewarm = False\<rparr>"

definition plugin_create_route :: "string \<Rightarrow> plugin_route \<Rightarrow> route_error + create_route" where
  "plugin_create_route model r =
     bindE (if pr_prewarm r then encodeHarnessPluginRoute (r\<lparr>pr_prewarm := False\<rparr>) else Inr model) (\<lambda>transport.
       Inr \<lparr>cr_harnessId = pr_harnessId r, cr_native = True, cr_transportModelId = transport,
            cr_selection = route_selection r, cr_prewarm = pr_prewarm r\<rparr>)"

text \<open>One block of the chain: this Harness's route if its decoder takes the model, else the rest.\<close>

definition route_or ::
  "string \<Rightarrow> (json \<Rightarrow> route_error + external_selection option) \<Rightarrow> string \<Rightarrow> (route_error + create_route) \<Rightarrow>
   route_error + create_route"
where
  "route_or harnessId decode model rest =
     bindE (decode (JStr model)) (\<lambda>selection.
       case selection of Some sel \<Rightarrow> Inr (native_route harnessId model sel) | None \<Rightarrow> rest)"

definition official_route :: "string \<Rightarrow> create_route" where
  "official_route model =
     (case truthy (js_get harnessByTransportModel model) of
        Some harnessId \<Rightarrow> native_route harnessId model no_selection
      | None \<Rightarrow> \<lparr>cr_harnessId = ''codex'', cr_native = False, cr_transportModelId = model,
                 cr_selection = no_selection, cr_prewarm = False\<rparr>)"

definition legacy_create_route :: "string \<Rightarrow> route_error + create_route" where
  "legacy_create_route model =
     (route_or ''pi'' decodePiTransportSelection model
     (route_or ''claude-code'' decodeClaudeTransportSelection model
     (route_or ''deepseek-harness'' decodeDeepSeekHarnessTransportSelection model
     (route_or ''opencode'' decodeOpenCodeTransportSelection model
     (route_or ''grok'' decodeGrokTransportSelection model
     (route_or ''omp'' decodeOmpTransportSelection model
     (route_or ''antigravity'' decodeAntigravityTransportSelection model
     (Inr (official_route model)))))))))"

definition decodeCreateRoute :: "string \<Rightarrow> json option \<Rightarrow> route_error + create_route option" where
  "decodeCreateRoute method params =
     (if method \<noteq> ''thread/start'' then Inr None
      else case Option.bind params (\<lambda>v. jfield v ''model'') of
        Some (JStr model) \<Rightarrow>
          bindE (decodeHarnessPluginRoute (JStr model)) (\<lambda>route.
          bindE (case route of Some r \<Rightarrow> plugin_create_route model r | None \<Rightarrow> legacy_create_route model) (\<lambda>create.
          Inr (Some create)))
      | _ \<Rightarrow> Inr None)"

end
