(* ===== verification/ModelRoutingProps.thy ===== *)
theory ModelRoutingProps
  imports ModelRouting
begin

text \<open>
  The formats of the first Harnesses. The locale states what makes a format: a native id without \<open>@\<close>, and
  the parts a selection is written as, which contain no \<open>@\<close> and are read back. Its lemmas give the round trip
  and the set of texts a decoder takes; every format of the code is an interpretation.
\<close>

subsection \<open>Splitting and joining\<close>

fun join_at :: "string list \<Rightarrow> string" where
  "join_at [] = []"
| "join_at [x] = x"
| "join_at (x # xs) = x @ ''@'' @ join_at xs"

lemma split_plain: "c \<notin> set s \<Longrightarrow> split_text c s = [s]"
  by (induction s) auto

lemma split_append: "c \<notin> set s \<Longrightarrow> split_text c (s @ c # t) = s # split_text c t"
  by (induction s) auto

lemma split_join: "xs \<noteq> [] \<Longrightarrow> list_all (\<lambda>x. CHR ''@'' \<notin> set x) xs \<Longrightarrow> split_text (CHR ''@'') (join_at xs) = xs"
  by (induction xs rule: join_at.induct) (simp_all add: split_plain split_append)

lemma truthy_simps [simp]: "truthy None = None" "truthy (Some []) = None" "truthy (Some (c # s)) = Some (c # s)"
  by (simp_all add: truthy_def)

lemma truthy_truthy [simp]: "truthy (truthy x) = truthy x"
  by (simp add: truthy_def split: option.splits)

lemma at_not_transport: "\<not> transport_char (CHR ''@'')"
  by (simp add: transport_char_def Let_def)

lemma id_plain:
  "harnessModelRefId_ok s \<Longrightarrow> s \<noteq> [] \<and> CHR ''@'' \<notin> set s"
  "harnessThinkingOptionId_ok s \<Longrightarrow> s \<noteq> [] \<and> CHR ''@'' \<notin> set s"
  "harnessPermissionModeId_ok s \<Longrightarrow> s \<noteq> [] \<and> CHR ''@'' \<notin> set s"
  by (auto simp: harnessModelRefId_ok_def harnessThinkingOptionId_ok_def harnessPermissionModeId_ok_def list_all_iff
      at_not_transport)

subsection \<open>Formats\<close>

definition selection_ok :: "external_selection \<Rightarrow> bool" where
  "selection_ok sel =
     (opt_ok (\<lambda>m. harnessModelRefId_ok (mr_id m)) (sl_model sel) \<and>
      opt_ok harnessThinkingOptionId_ok (sl_thinkingOptionId sel) \<and>
      opt_ok harnessPermissionModeId_ok (sl_permissionModeId sel))"

text \<open>The texts a decoder does not pass on.\<close>

definition marked :: "string \<Rightarrow> string \<Rightarrow> bool" where
  "marked native s = (s = native \<or> starts_with (transport_prefix native) s)"

lemma marked_unique:
  assumes "CHR ''@'' \<notin> set n" "CHR ''@'' \<notin> set n'" "marked n s" "marked n' s"
  shows "n = n'"
proof -
  have "takeWhile (\<lambda>c. c \<noteq> CHR ''@'') s = n" if "marked n s" "CHR ''@'' \<notin> set n" for n
  proof (cases "s = n")
    case True
    then show ?thesis using that(2) by (auto simp: takeWhile_eq_all_conv)
  next
    case False
    then have "take (length (n @ ''@'')) s = n @ ''@''"
      using that(1) by (simp add: marked_def starts_with_def transport_prefix_def)
    then have "s = (n @ ''@'') @ drop (length (n @ ''@'')) s" using append_take_drop_id [of "length (n @ ''@'')" s] by simp
    then obtain t where "s = n @ CHR ''@'' # t" by auto
    then show ?thesis using that(2) by (auto simp: takeWhile_append)
  qed
  then show ?thesis using assms by metis
qed

lemma decode_native_None: "decode_native native decode (JStr s) = Inr None \<longleftrightarrow> \<not> marked native s"
  by (auto simp: decode_native_def marked_def bindE_Inr_iff)

lemma decode_native_Some:
  "decode_native native decode v = Inr (Some sel) \<Longrightarrow> \<exists>s. v = JStr s \<and> marked native s"
  by (cases v) (auto simp: decode_native_def marked_def split: if_splits)

locale transport_format =
  fixes native :: string
    and components :: "string list \<Rightarrow> route_error + external_selection"
    and carries :: "external_selection \<Rightarrow> bool"
    and parts :: "external_selection \<Rightarrow> string list"
  assumes native_plain: "CHR ''@'' \<notin> set native"
    and parts_plain: "carries sel \<Longrightarrow> parts sel \<noteq> [] \<and> list_all (\<lambda>p. CHR ''@'' \<notin> set p) (parts sel)"
    and parts_back: "carries sel \<Longrightarrow> components (parts sel) = Inr sel"
begin

lemma written_back:
  "carries sel \<Longrightarrow> decode_native native components (JStr (transport_prefix native @ join_at (parts sel))) = Inr (Some sel)"
  using parts_plain [of sel] parts_back [of sel]
  by (simp add: decode_native_def split_join transport_prefix_def starts_with_def)

lemma bare_back: "decode_native native components (JStr native) = Inr (Some no_selection)"
  by (simp add: decode_native_def)

lemma takes: "decode_native native components (JStr s) = Inr None \<longleftrightarrow> \<not> marked native s"
  by (rule decode_native_None)

end

subsection \<open>The formats of the code\<close>

definition three_parts :: "external_selection \<Rightarrow> string list" where
  "three_parts sel =
     (case sl_model sel of None \<Rightarrow> [] | Some m \<Rightarrow> mr_id m #
        (case (sl_permissionModeId sel, sl_thinkingOptionId sel) of
           (p, Some t) \<Rightarrow> [or_empty p, t] | (Some p, None) \<Rightarrow> [p] | _ \<Rightarrow> []))"

definition pi_parts :: "external_selection \<Rightarrow> string list" where
  "pi_parts sel =
     (case sl_model sel of None \<Rightarrow> [] | Some m \<Rightarrow> mr_id m #
        (case sl_thinkingOptionId sel of Some t \<Rightarrow> [t] | None \<Rightarrow> []))"

definition omp_parts :: "external_selection \<Rightarrow> string list" where
  "omp_parts sel =
     (case sl_model sel of None \<Rightarrow> [] | Some m \<Rightarrow> mr_id m #
        (case (sl_permissionModeId sel, sl_thinkingOptionId sel) of
           (Some p, t) \<Rightarrow> [p, or_empty t] | (None, Some t) \<Rightarrow> [t] | _ \<Rightarrow> []))"

definition with_model :: "external_selection \<Rightarrow> bool" where
  "with_model sel = (selection_ok sel \<and> sl_model sel \<noteq> None)"

definition without_permission :: "external_selection \<Rightarrow> bool" where
  "without_permission sel = (with_model sel \<and> sl_permissionModeId sel = None)"

definition without_thinking :: "external_selection \<Rightarrow> bool" where
  "without_thinking sel = (with_model sel \<and> sl_thinkingOptionId sel = None)"

lemmas part_simps = with_model_def selection_ok_def without_permission_def without_thinking_def three_parts_def
  omp_parts_def pi_parts_def or_empty_def id_plain

lemma safe_given_ok:
  "s \<noteq> [] \<Longrightarrow> ok s \<Longrightarrow> safe_given ok e (Some s) = Inr (Some s)" "safe_given ok e None = Inr None"
  "safe_given ok e (Some []) = Inr None"
  by (auto simp: safe_given_def truthy_def)

lemma truthy_given: "s \<noteq> [] \<Longrightarrow> truthy (Some s) = Some s"
  by (simp add: truthy_def)

lemmas component_simps = component_at_def truthy_given safe_given_ok id_plain

lemma three_parts_ok:
  "with_model sel \<Longrightarrow> three_parts sel \<noteq> [] \<and> list_all (\<lambda>p. CHR ''@'' \<notin> set p) (three_parts sel)"
  by (auto simp: part_simps split: option.splits)

lemma three_parts_back: "with_model sel \<Longrightarrow> configuration_components name (three_parts sel) = Inr sel"
  by (cases sel) (auto simp: part_simps configuration_components_def component_simps split: option.splits)

interpretation antigravity_format:
  transport_format ANTIGRAVITY_NATIVE "configuration_components ''Antigravity''" with_model three_parts
  by unfold_locales (simp_all add: ANTIGRAVITY_NATIVE_def three_parts_ok three_parts_back)

interpretation opencode_format:
  transport_format OPENCODE_NATIVE "configuration_components ''OpenCode''" with_model three_parts
  by unfold_locales (simp_all add: OPENCODE_NATIVE_def three_parts_ok three_parts_back)

interpretation claude_format:
  transport_format CLAUDE_CODE_NATIVE "configuration_components ''Claude Code''" with_model three_parts
  by unfold_locales (simp_all add: CLAUDE_CODE_NATIVE_def three_parts_ok three_parts_back)

interpretation grok_format:
  transport_format GROK_NATIVE "configuration_components ''Grok''" with_model three_parts
  by unfold_locales (simp_all add: GROK_NATIVE_def three_parts_ok three_parts_back)

interpretation omp_format: transport_format OMP_NATIVE omp_components with_model omp_parts
  by unfold_locales
    (auto simp: OMP_NATIVE_def part_simps omp_components_def component_simps split: option.splits)

interpretation pi_format: transport_format PI_NATIVE pi_components without_permission pi_parts
  by unfold_locales
    (auto simp: PI_NATIVE_def part_simps pi_components_def component_simps split: option.splits)

interpretation deepseek_format: transport_format DEEPSEEK_HARNESS_NATIVE deepseek_components without_thinking three_parts
  by unfold_locales
    (auto simp: DEEPSEEK_HARNESS_NATIVE_def part_simps deepseek_components_def component_simps split: option.splits)


subsection \<open>Round trips\<close>

lemma parse_given_truthy:
  "parse_given ok x = (if opt_ok ok (truthy x) then Inr (truthy x) else Inl SchemaRejected)"
  by (auto simp: parse_given_def opt_ok_def split: option.splits)

text \<open>The selection that the arguments of an encoder stand for, and when it can be written.\<close>

definition chosen :: "model_ref option \<Rightarrow> string option \<Rightarrow> string option \<Rightarrow> external_selection" where
  "chosen model permissionModeId thinkingOptionId =
     \<lparr>sl_model = model, sl_thinkingOptionId = truthy thinkingOptionId, sl_permissionModeId = truthy permissionModeId\<rparr>"

definition sendable :: "external_selection \<Rightarrow> bool" where
  "sendable sel = (if sl_model sel = None then sel = no_selection else selection_ok sel)"

definition round_trips ::
  "route_error + string \<Rightarrow> (json \<Rightarrow> route_error + external_selection option) \<Rightarrow> external_selection \<Rightarrow> bool"
where
  "round_trips encoded decode sel =
     (case encoded of Inl e \<Rightarrow> \<not> sendable sel | Inr s \<Rightarrow> sendable sel \<and> decode (JStr s) = Inr (Some sel))"

context transport_format
begin

lemma round_trip:
  assumes "encoded = (case sl_model sel of
      None \<Rightarrow> if sel = no_selection then Inr native else Inl e
    | Some m \<Rightarrow> if selection_ok sel then Inr (transport_prefix native @ join_at (parts sel)) else Inl e')"
    and "sl_model sel \<noteq> None \<Longrightarrow> selection_ok sel \<Longrightarrow> carries sel"
  shows "round_trips encoded (decode_native native components) sel"
  using assms bare_back written_back [of sel]
  by (auto simp: round_trips_def sendable_def split: option.splits)

end

lemmas encode_simps = harnessModelRef_parse_def parse_given_truthy selection_ok_def no_selection_def chosen_def
  three_parts_def omp_parts_def pi_parts_def or_empty_def at_suffix_def

lemma encode_configuration_join:
  "encode_configuration name native m p t =
     (case sl_model (chosen m p t) of
        None \<Rightarrow> if chosen m p t = no_selection then Inr native
                else Inl (RouteError (name @ '' transport configuration requires a Model Ref''))
      | Some _ \<Rightarrow> if selection_ok (chosen m p t) then Inr (transport_prefix native @ join_at (three_parts (chosen m p t)))
                  else Inl SchemaRejected)"
  by (auto simp: encode_configuration_def encode_simps split: option.splits)

lemma encode_omp_join:
  "encodeOmpTransportModel m t p =
     (case sl_model (chosen m p t) of
        None \<Rightarrow> if chosen m p t = no_selection then Inr OMP_NATIVE
                else Inl (RouteError ''OMP transport configuration requires a Model Ref'')
      | Some _ \<Rightarrow> if selection_ok (chosen m p t) then Inr (transport_prefix OMP_NATIVE @ join_at (omp_parts (chosen m p t)))
                  else Inl SchemaRejected)"
  by (auto simp: encodeOmpTransportModel_def encode_simps split: option.splits)

lemma encode_pi_join:
  "encodePiTransportModel m t =
     (case sl_model (chosen m None t) of
        None \<Rightarrow> if chosen m None t = no_selection then Inr PI_NATIVE
                else Inl (RouteError ''Pi transport Thinking requires a Model Ref'')
      | Some _ \<Rightarrow> if selection_ok (chosen m None t) then Inr (transport_prefix PI_NATIVE @ join_at (pi_parts (chosen m None t)))
                  else Inl SchemaRejected)"
  by (auto simp: encodePiTransportModel_def encode_simps split: option.splits)

lemma encode_deepseek_join:
  "encodeDeepSeekHarnessTransportModel m p =
     (case sl_model (chosen m p None) of
        None \<Rightarrow> if chosen m p None = no_selection then Inr DEEPSEEK_HARNESS_NATIVE
                else Inl (RouteError ''DeepSeek Harness transport Permission Mode requires a Model Ref'')
      | Some _ \<Rightarrow> if selection_ok (chosen m p None)
                  then Inr (transport_prefix DEEPSEEK_HARNESS_NATIVE @ join_at (three_parts (chosen m p None)))
                  else Inl SchemaRejected)"
  by (auto simp: encodeDeepSeekHarnessTransportModel_def encode_simps split: option.splits)

text \<open>
  C14. For every Harness of the first generation: a selection is written exactly when it names no part without a
  Model and every part passes its schema, and what is written is read back as the same selection, an empty
  option counting as absent.
\<close>

theorem transport_selection_round_trip:
  "round_trips (encodePiTransportModel m t) decodePiTransportSelection (chosen m None t) \<and>
   round_trips (encodeOmpTransportModel m t p) decodeOmpTransportSelection (chosen m p t) \<and>
   round_trips (encodeAntigravityTransportModel m p t) decodeAntigravityTransportSelection (chosen m p t) \<and>
   round_trips (encodeOpenCodeTransportModel m p t) decodeOpenCodeTransportSelection (chosen m p t) \<and>
   round_trips (encodeClaudeTransportModel m p t) decodeClaudeTransportSelection (chosen m p t) \<and>
   round_trips (encodeGrokTransportModel m p t) decodeGrokTransportSelection (chosen m p t) \<and>
   round_trips (encodeDeepSeekHarnessTransportModel m p) decodeDeepSeekHarnessTransportSelection (chosen m p None)"
proof -
  have carried: "selection_ok sel \<Longrightarrow> sl_model sel \<noteq> None \<Longrightarrow> with_model sel" for sel by (simp add: with_model_def)
  have "without_permission (chosen m None t)" if "selection_ok (chosen m None t)" "sl_model (chosen m None t) \<noteq> None"
    using that by (simp add: without_permission_def with_model_def chosen_def)
  then have pi: "round_trips (encodePiTransportModel m t) decodePiTransportSelection (chosen m None t)"
    unfolding decodePiTransportSelection_def by (rule pi_format.round_trip [OF encode_pi_join])
  have "without_thinking (chosen m p None)" if "selection_ok (chosen m p None)" "sl_model (chosen m p None) \<noteq> None"
    using that by (simp add: without_thinking_def with_model_def chosen_def)
  then have deepseek: "round_trips (encodeDeepSeekHarnessTransportModel m p) decodeDeepSeekHarnessTransportSelection
      (chosen m p None)"
    unfolding decodeDeepSeekHarnessTransportSelection_def by (rule deepseek_format.round_trip [OF encode_deepseek_join])
  show ?thesis
    unfolding decodeOmpTransportSelection_def decodeAntigravityTransportSelection_def decodeOpenCodeTransportSelection_def
      decodeClaudeTransportSelection_def decodeGrokTransportSelection_def encodeAntigravityTransportModel_def
      encodeOpenCodeTransportModel_def encodeClaudeTransportModel_def encodeGrokTransportModel_def
    by (intro conjI pi deepseek omp_format.round_trip [OF encode_omp_join]
        antigravity_format.round_trip [OF encode_configuration_join] opencode_format.round_trip [OF encode_configuration_join]
        claude_format.round_trip [OF encode_configuration_join] grok_format.round_trip [OF encode_configuration_join] carried)
qed

end
