(* ===== verification/CreateRouteProps.thy ===== *)
theory CreateRouteProps
  imports CreateRoute ModelRoutingProps JsonRoundTrip
begin

text \<open>
  Plugin routes are written in bounded space and read back, by nobody but their own writer; and every create
  request belongs to one Harness, whose stored id keeps the selection.
\<close>

subsection \<open>Hexadecimal\<close>

lemma hex_text_bytes: "hex_text (concat (List.map hex_byte s)) = s"
  by (induction s) (simp_all add: hex_byte_def Let_def hex_value_digit mult.commute of_char_small
      less_mult_imp_div_less)

lemma hex_digit_lower: "n < 16 \<Longrightarrow> lower_hex (hex_digit n)"
  by (auto simp: lower_hex_def hex_digit_def digit_char_def Let_def)

lemma hex_bytes_payload:
  "list_all lower_hex (concat (List.map hex_byte s)) \<and> length (concat (List.map hex_byte s)) = 2 * length s"
  by (induction s) (simp_all add: hex_byte_def Let_def hex_digit_lower of_char_small less_mult_imp_div_less)

lemma hex_payload_bytes: "s \<noteq> [] \<Longrightarrow> hex_payload (concat (List.map hex_byte s))"
  using hex_bytes_payload [of s] by (auto simp: hex_payload_def hex_byte_def Let_def)

subsection \<open>The size of a route\<close>

lemma escape_transport: "transport_char c \<Longrightarrow> escape_char c = [c]"
  by (auto simp: transport_char_def escape_char_def Let_def)

lemma quote_length: "list_all transport_char s \<Longrightarrow> length (quote_text s) = length s + 2"
  by (induction s) (simp_all add: quote_text_def escape_transport)

lemma plugin_words_transport: "plugin_words b s \<Longrightarrow> list_all transport_char s"
  by (induction b s rule: plugin_words.induct)
    (auto simp: transport_char_def lower_alnum_def lower_letter_def Let_def split: if_splits)

lemma plugin_id_transport:
  assumes "harnessPluginId_ok s"
  shows "list_all transport_char s" "length s \<le> 128"
proof -
  from assms obtain c t where "s = c # t" "lower_letter c" "plugin_words True t"
    by (auto simp: harnessPluginId_ok_def installedHarnessPluginId_ok_def plugin_pattern_def split: list.splits)
  then show "list_all transport_char s"
    using plugin_words_transport [of True t] by (simp add: transport_char_def lower_letter_def Let_def)
  show "length s \<le> 128" using assms by (simp add: harnessPluginId_ok_def installedHarnessPluginId_ok_def)
qed

lemma literal_lengths:
  "length (quote_text ''harnessId'') = 11" "length (quote_text ''model'') = 7" "length (quote_text ''id'') = 4"
  "length (quote_text ''thinkingOptionId'') = 18" "length (quote_text ''permissionModeId'') = 18"
  "length (quote_text ''prewarm'') = 9"
  by (simp_all add: quote_length transport_char_def Let_def)

lemma ids_transport:
  "harnessModelRefId_ok s \<Longrightarrow> list_all transport_char s \<and> length s \<le> 512"
  "harnessThinkingOptionId_ok s \<Longrightarrow> list_all transport_char s \<and> length s \<le> 128"
  "harnessPermissionModeId_ok s \<Longrightarrow> list_all transport_char s \<and> length s \<le> 128"
  by (simp_all add: harnessModelRefId_ok_def harnessThinkingOptionId_ok_def harnessPermissionModeId_ok_def)

fun members_length :: "(string \<times> json) list \<Rightarrow> nat" where
  "members_length [] = 0"
| "members_length ((k, v) # kvs) = length (quote_text k) + length (json_text v) + 2 + members_length kvs"

lemma members_text_length: "length (members_text kvs) + 1 = (if kvs = [] then 1 else members_length kvs)"
  by (induction kvs rule: members_length.induct) (auto split: if_splits)

lemma members_length_append: "members_length (xs @ ys) = members_length xs + members_length ys"
  by (induction xs rule: members_length.induct) simp_all

lemma object_length: "kvs \<noteq> [] \<Longrightarrow> length (json_text (JObj kvs)) = members_length kvs + 1"
  using members_text_length [of kvs] by simp

definition given_length :: "nat \<Rightarrow> string option \<Rightarrow> nat" where
  "given_length n x = (case x of None \<Rightarrow> 0 | Some s \<Rightarrow> n + length s)"

lemma route_text_length:
  assumes "plugin_route_ok r"
  shows "length (json_text (plugin_route_json r)) =
    16 + length (pr_harnessId r) + given_length 18 (map_option mr_id (pr_model r)) +
    given_length 22 (pr_thinkingOptionId r) + given_length 22 (pr_permissionModeId r) + (if pr_prewarm r then 15 else 0)"
proof -
  have h: "length (quote_text (pr_harnessId r)) = length (pr_harnessId r) + 2"
    using assms plugin_id_transport quote_length by (simp add: plugin_route_ok_def)
  have m: "members_length (given_member ''model'' (\<lambda>m. JObj [(''id'', JStr (mr_id m))]) (pr_model r)) =
      given_length 18 (map_option mr_id (pr_model r))"
    using assms ids_transport quote_length
    by (auto simp: plugin_route_ok_def given_member_def given_length_def literal_lengths split: option.splits)
  have t: "members_length (given_member ''thinkingOptionId'' JStr (pr_thinkingOptionId r)) =
      given_length 22 (pr_thinkingOptionId r)"
    using assms ids_transport quote_length
    by (auto simp: plugin_route_ok_def given_member_def given_length_def literal_lengths split: option.splits)
  have p: "members_length (given_member ''permissionModeId'' JStr (pr_permissionModeId r)) =
      given_length 22 (pr_permissionModeId r)"
    using assms ids_transport quote_length
    by (auto simp: plugin_route_ok_def given_member_def given_length_def literal_lengths split: option.splits)
  show ?thesis
    unfolding plugin_route_json_def
    by (subst object_length) (simp_all add: members_length_append m t p h literal_lengths)
qed

lemma route_text_bounds:
  assumes "plugin_route_ok r"
  shows "length (json_text (plugin_route_json r)) \<le> 989" "json_text (plugin_route_json r) \<noteq> []"
proof -
  have "length (pr_harnessId r) \<le> 128" using assms plugin_id_transport by (simp add: plugin_route_ok_def)
  moreover have "given_length 18 (map_option mr_id (pr_model r)) \<le> 530"
    using assms ids_transport by (auto simp: given_length_def plugin_route_ok_def split: option.splits)
  moreover have "given_length 22 (pr_thinkingOptionId r) \<le> 150" "given_length 22 (pr_permissionModeId r) \<le> 150"
    using assms ids_transport by (auto simp: given_length_def plugin_route_ok_def split: option.splits)
  ultimately show "length (json_text (plugin_route_json r)) \<le> 989"
    using route_text_length [OF assms] by simp
  show "json_text (plugin_route_json r) \<noteq> []" by (simp add: plugin_route_json_def)
qed

subsection \<open>Reading a route back\<close>

lemma plugin_route_json_plain: "json_plain (plugin_route_json r)"
  by (auto simp: plugin_route_json_def given_member_def split: option.splits)

lemma route_parse_json:
  assumes "plugin_route_ok r"
  shows "harnessPluginRoute_parse (plugin_route_json r) = Some r"
proof -
  have "\<exists>kvs. plugin_route_json r = JObj kvs \<and>
      set (js_keys kvs) \<subseteq> {''harnessId'', ''model'', ''thinkingOptionId'', ''permissionModeId'', ''prewarm''} \<and>
      route_text harnessPluginId_ok ''harnessId'' kvs = Some (Some (pr_harnessId r)) \<and> route_model kvs = Some (pr_model r) \<and>
      route_text harnessThinkingOptionId_ok ''thinkingOptionId'' kvs = Some (pr_thinkingOptionId r) \<and>
      route_text harnessPermissionModeId_ok ''permissionModeId'' kvs = Some (pr_permissionModeId r) \<and>
      route_prewarm kvs = Some (pr_prewarm r)"
    using assms unfolding plugin_route_json_def plugin_route_ok_def
    by (auto simp: given_member_def route_text_def route_model_def route_prewarm_def split: option.splits)
  then show ?thesis by (auto simp: harnessPluginRoute_parse_def)
qed

lemma encode_route:
  assumes "plugin_route_ok r"
  obtains s where "encodeHarnessPluginRoute r = Inr s" "length s \<le> 1998" "decodeHarnessPluginRoute (JStr s) = Inr (Some r)"
proof -
  let ?text = "json_text (plugin_route_json r)"
  let ?s = "HARNESS_PLUGIN_ROUTE_PREFIX @ concat (List.map hex_byte ?text)"
  have e: "encodeHarnessPluginRoute r = Inr ?s" using assms by (simp add: encodeHarnessPluginRoute_def)
  have len: "length ?s \<le> 1998"
    using route_text_bounds(1) [OF assms] hex_bytes_payload [of ?text] by (simp add: HARNESS_PLUGIN_ROUTE_PREFIX_def)
  have "decodeHarnessPluginRoute (JStr ?s) = Inr (Some r)"
    using e len hex_payload_bytes [OF route_text_bounds(2) [OF assms]] route_parse_json [OF assms]
      json_parse_text [OF plugin_route_json_plain, of r]
    by (simp add: decodeHarnessPluginRoute_def hex_text_bytes MAX_ROUTE_LENGTH_def Let_def)
  then show ?thesis using that e len by blast
qed

lemma decode_route:
  assumes "decodeHarnessPluginRoute (JStr s) = Inr (Some r)"
  shows "encodeHarnessPluginRoute r = Inr s" "plugin_route_ok r"
  using assms by (auto simp: decodeHarnessPluginRoute_def encodeHarnessPluginRoute_def Let_def split: if_splits option.splits)


text \<open>
  C15. Every valid plugin route is written as a text within the length limit, and read back as itself; no other
  text is read as that route.
\<close>

theorem plugin_route_round_trip:
  assumes "plugin_route_ok r"
  shows "\<exists>s. encodeHarnessPluginRoute r = Inr s \<and> length s \<le> MAX_ROUTE_LENGTH \<and>
    (\<forall>t. decodeHarnessPluginRoute (JStr t) = Inr (Some r) \<longleftrightarrow> t = s)"
proof -
  obtain s where s: "encodeHarnessPluginRoute r = Inr s" "length s \<le> 1998" "decodeHarnessPluginRoute (JStr s) = Inr (Some r)"
    by (rule encode_route [OF assms])
  have "decodeHarnessPluginRoute (JStr t) = Inr (Some r) \<longleftrightarrow> t = s" for t
    using s(1,3) decode_route(1) [of t r] by auto
  then show ?thesis using s(1,2) by (intro exI [of _ s]) (simp add: MAX_ROUTE_LENGTH_def)
qed

subsection \<open>One Harness for a request\<close>

definition legacy_formats :: "(string \<times> string \<times> (string list \<Rightarrow> route_error + external_selection)) list" where
  "legacy_formats =
     [(''pi'', PI_NATIVE, pi_components), (''claude-code'', CLAUDE_CODE_NATIVE, configuration_components ''Claude Code''),
      (''deepseek-harness'', DEEPSEEK_HARNESS_NATIVE, deepseek_components),
      (''opencode'', OPENCODE_NATIVE, configuration_components ''OpenCode''),
      (''grok'', GROK_NATIVE, configuration_components ''Grok''), (''omp'', OMP_NATIVE, omp_components),
      (''antigravity'', ANTIGRAVITY_NATIVE, configuration_components ''Antigravity'')]"

lemma decode_legacy_formats:
  "decode_legacy h v = (case map_of legacy_formats h of None \<Rightarrow> Inr None | Some (n, c) \<Rightarrow> decode_native n c v)"
  by (simp add: decode_legacy_def legacy_formats_def decodePiTransportSelection_def decodeClaudeTransportSelection_def
      decodeDeepSeekHarnessTransportSelection_def decodeOpenCodeTransportSelection_def decodeGrokTransportSelection_def
      decodeOmpTransportSelection_def decodeAntigravityTransportSelection_def)

lemmas natives = PI_NATIVE_def CLAUDE_CODE_NATIVE_def DEEPSEEK_HARNESS_NATIVE_def OPENCODE_NATIVE_def GROK_NATIVE_def
  OMP_NATIVE_def ANTIGRAVITY_NATIVE_def

lemma formats_distinct:
  "distinct (List.map fst legacy_formats)" "distinct (List.map (fst \<circ> snd) legacy_formats)"
  "list_all (\<lambda>(h, n, c). CHR ''@'' \<notin> set n \<and> h \<noteq> ''codex'') legacy_formats"
  by (simp_all add: legacy_formats_def natives)

fun route_chain :: "string \<Rightarrow> (string \<times> string \<times> (string list \<Rightarrow> route_error + external_selection)) list \<Rightarrow>
  route_error + create_route"
where
  "route_chain model [] = Inr (official_route model)"
| "route_chain model ((h, n, c) # fs) = route_or h (decode_native n c) model (route_chain model fs)"

lemma legacy_chain: "legacy_create_route model = route_chain model legacy_formats"
  by (simp add: legacy_create_route_def legacy_formats_def decodePiTransportSelection_def decodeClaudeTransportSelection_def
      decodeDeepSeekHarnessTransportSelection_def decodeOpenCodeTransportSelection_def decodeGrokTransportSelection_def
      decodeOmpTransportSelection_def decodeAntigravityTransportSelection_def)

lemma chain_owner:
  "route_chain model fs = Inr r \<Longrightarrow>
   (r = official_route model \<and> (\<forall>(h, n, c) \<in> set fs. \<not> marked n model)) \<or>
   (\<exists>(h, n, c) \<in> set fs. \<exists>sel. decode_native n c (JStr model) = Inr (Some sel) \<and> r = native_route h model sel)"
proof (induction fs)
  case (Cons f fs)
  obtain h n c where f: "f = (h, n, c)" by (cases f)
  show ?case
  proof (cases "decode_native n c (JStr model) = Inr None")
    case True
    then have "route_chain model fs = Inr r" using Cons.prems f by (simp add: route_or_def)
    then show ?thesis using Cons.IH True f by (auto simp: decode_native_None)
  next
    case False
    then show ?thesis using Cons.prems f
      by (auto simp: route_or_def bindE_Inr_iff split: option.splits)
  qed
qed simp

lemma other_formats_refuse:
  assumes "(h, n, c) \<in> set legacy_formats" "decode_native n c (JStr s) = Inr (Some sel)" "h' \<noteq> h"
  shows "decode_legacy h' (JStr s) = Inr None"
proof (cases "map_of legacy_formats h'")
  case None
  then show ?thesis by (simp add: decode_legacy_formats)
next
  case (Some f)
  obtain n' c' where f: "f = (n', c')" by (cases f)
  then have mem: "(h', n', c') \<in> set legacy_formats" using Some by (metis map_of_SomeD)
  have "n' \<noteq> n"
    using mem assms(1,3) formats_distinct(2) unfolding distinct_map inj_on_def by fastforce
  moreover have "CHR ''@'' \<notin> set n" "CHR ''@'' \<notin> set n'"
    using mem assms(1) formats_distinct(3) by (auto simp: list_all_iff)
  moreover have "marked n s" using decode_native_Some [OF assms(2)] by simp
  ultimately have "\<not> marked n' s" using marked_unique by blast
  then show ?thesis using Some f by (simp add: decode_legacy_formats decode_native_None)
qed

lemma official_unmarked:
  assumes "\<forall>(h, n, c) \<in> set legacy_formats. \<not> marked n model"
  shows "official_route model = \<lparr>cr_harnessId = ''codex'', cr_native = False, cr_transportModelId = model,
    cr_selection = no_selection, cr_prewarm = False\<rparr>" and "decode_legacy h (JStr model) = Inr None"
proof -
  have "js_get harnessByTransportModel model = None"
    using assms by (simp add: legacy_formats_def harnessByTransportModel_def transportModelByHarness_def marked_def)
  then show "official_route model = \<lparr>cr_harnessId = ''codex'', cr_native = False, cr_transportModelId = model,
      cr_selection = no_selection, cr_prewarm = False\<rparr>"
    by (simp add: official_route_def)
  show "decode_legacy h (JStr model) = Inr None"
    using assms by (auto simp: decode_legacy_formats decode_native_None dest: map_of_SomeD split: option.splits)
qed

lemma legacy_owner:
  assumes "legacy_create_route model = Inr r"
  shows "cr_transportModelId r = model \<and> cr_prewarm r = False \<and> cr_native r = (cr_harnessId r \<noteq> ''codex'') \<and>
    decode_legacy h (JStr model) = Inr (if h = cr_harnessId r \<and> h \<noteq> ''codex'' then Some (cr_selection r) else None)"
  using chain_owner [OF assms [unfolded legacy_chain]]
proof (elim disjE conjE bexE exE)
  assume "r = official_route model" "\<forall>(h, n, c) \<in> set legacy_formats. \<not> marked n model"
  then show ?thesis using official_unmarked by simp
next
  fix f assume f: "f \<in> set legacy_formats"
    "case f of (h, n, c) \<Rightarrow> \<exists>sel. decode_native n c (JStr model) = Inr (Some sel) \<and> r = native_route h model sel"
  obtain h' n c where eq: "f = (h', n, c)" by (cases f)
  then obtain sel where sel: "decode_native n c (JStr model) = Inr (Some sel)" "r = native_route h' model sel" using f by auto
  have "map_of legacy_formats h' = Some (n, c)" using f(1) eq formats_distinct(1) by (simp add: map_of_eq_Some_iff)
  then have "decode_legacy h' (JStr model) = Inr (Some sel)" using sel by (simp add: decode_legacy_formats)
  moreover have "h' \<noteq> ''codex''" using f(1) eq formats_distinct(3) by (auto simp: list_all_iff)
  ultimately show ?thesis
    using other_formats_refuse [of h' n c model sel h] f(1) eq sel by (auto simp: native_route_def)
qed

lemma plugin_owner:
  assumes "decodeHarnessPluginRoute (JStr model) = Inr (Some p)" "plugin_create_route model p = Inr r"
  shows "decodeExternalTransportSelection h (JStr (cr_transportModelId r)) =
    Inr (if h = cr_harnessId r \<and> h \<noteq> ''codex'' then Some (cr_selection r) else None)" "cr_harnessId r \<noteq> ''codex''"
proof -
  define q where "q = p\<lparr>pr_prewarm := False\<rparr>"
  have ok: "plugin_route_ok p" "plugin_route_ok q" and model: "encodeHarnessPluginRoute p = Inr model"
    using decode_route [OF assms(1)] by (simp_all add: plugin_route_ok_def q_def)
  have codex: "pr_harnessId p \<noteq> ''codex''" using ok by (simp add: plugin_route_ok_def harnessPluginId_ok_def)
  obtain t where t: "encodeHarnessPluginRoute q = Inr t" "decodeHarnessPluginRoute (JStr t) = Inr (Some q)"
    by (rule encode_route [OF ok(2)])
  have "\<exists>q'. decodeHarnessPluginRoute (JStr (cr_transportModelId r)) = Inr (Some q') \<and> pr_harnessId q' = pr_harnessId p \<and>
      route_selection q' = route_selection p"
    using assms t q_def by (cases "pr_prewarm p") (auto simp: plugin_create_route_def route_selection_def)
  moreover have r: "cr_harnessId r = pr_harnessId p" "cr_selection r = route_selection p"
    using assms(2) by (auto simp: plugin_create_route_def bindE_Inr_iff)
  ultimately show "decodeExternalTransportSelection h (JStr (cr_transportModelId r)) =
    Inr (if h = cr_harnessId r \<and> h \<noteq> ''codex'' then Some (cr_selection r) else None)"
    using codex by (auto simp: decodeExternalTransportSelection_def)
  show "cr_harnessId r \<noteq> ''codex''" using r codex by simp
qed

text \<open>
  C13. A create request that is routed belongs to exactly one Harness: the id kept for its Thread is read by that
  Harness as the very selection of the request and by every other Harness as not its own; a request for the
  official server keeps its model, and no Harness would take it.
\<close>

theorem create_route_owner:
  assumes "decodeCreateRoute method params = Inr (Some r)"
  shows "decodeExternalTransportSelection h (JStr (cr_transportModelId r)) =
      Inr (if h = cr_harnessId r \<and> h \<noteq> ''codex'' then Some (cr_selection r) else None) \<and>
    cr_native r = (cr_harnessId r \<noteq> ''codex'') \<and>
    (cr_prewarm r \<or> Option.bind params (\<lambda>v. jfield v ''model'') = Some (JStr (cr_transportModelId r)))"
proof -
  obtain model route where model: "Option.bind params (\<lambda>v. jfield v ''model'') = Some (JStr model)"
    and route: "decodeHarnessPluginRoute (JStr model) = Inr route"
      "(case route of Some p \<Rightarrow> plugin_create_route model p | None \<Rightarrow> legacy_create_route model) = Inr r"
    using assms by (auto simp: decodeCreateRoute_def bindE_Inr_iff split: if_splits option.splits json.splits)
  have "decodeExternalTransportSelection h (JStr (cr_transportModelId r)) =
      Inr (if h = cr_harnessId r \<and> h \<noteq> ''codex'' then Some (cr_selection r) else None) \<and>
    cr_native r = (cr_harnessId r \<noteq> ''codex'') \<and> (cr_prewarm r \<or> cr_transportModelId r = model)"
  proof (cases route)
    case None
    then show ?thesis
      using route legacy_owner [of model r h] by (simp add: decodeExternalTransportSelection_def)
  next
    case (Some p)
    then have p: "plugin_create_route model p = Inr r" using route by simp
    then have "cr_native r \<and> (cr_prewarm r \<or> cr_transportModelId r = model)"
      by (auto simp: plugin_create_route_def bindE_Inr_iff split: if_splits)
    then show ?thesis using plugin_owner(1) [of model p r h] plugin_owner(2) [of model p r] route(1) Some p by simp
  qed
  then show ?thesis using model by auto
qed

lemma create_route_owner_witness:
  "decodeExternalTransportSelection ''claude-code'' (JStr ''codexhost/claude-code-native@opus@plan'') =
     Inr (Some \<lparr>sl_model = Some \<lparr>mr_id = ''opus''\<rparr>, sl_thinkingOptionId = None, sl_permissionModeId = Some ''plan''\<rparr>) \<and>
   decodeExternalTransportSelection ''pi'' (JStr ''codexhost/claude-code-native@opus@plan'') = Inr None"
proof -
  let ?m = "''codexhost/claude-code-native@opus@plan''"
  let ?sel = "\<lparr>sl_model = Some \<lparr>mr_id = ''opus''\<rparr>, sl_thinkingOptionId = None, sl_permissionModeId = Some ''plan''\<rparr>"
  have "decodeCreateRoute ''thread/start'' (Some (JObj [(''model'', JStr ?m)])) =
      Inr (Some (native_route ''claude-code'' ?m ?sel))"
    by code_simp
  from create_route_owner [OF this, of "''claude-code''"] create_route_owner [OF this, of "''pi''"]
  show ?thesis by (simp add: native_route_def)
qed

lemma plugin_route_round_trip_witness:
  "\<exists>s. encodeHarnessPluginRoute \<lparr>pr_harnessId = ''qwen-code'', pr_model = Some \<lparr>mr_id = ''q3''\<rparr>, pr_thinkingOptionId = None,
     pr_permissionModeId = Some ''auto'', pr_prewarm = True\<rparr> = Inr s \<and> length s \<le> MAX_ROUTE_LENGTH"
proof -
  have "plugin_route_ok \<lparr>pr_harnessId = ''qwen-code'', pr_model = Some \<lparr>mr_id = ''q3''\<rparr>, pr_thinkingOptionId = None,
     pr_permissionModeId = Some ''auto'', pr_prewarm = True\<rparr>" by code_simp
  from plugin_route_round_trip [OF this] show ?thesis by blast
qed

subsection \<open>Long routes\<close>

text \<open>
  C16. A valid selection is written in at most 1998 code units, and that many are reached: more than the 1024
  that the mapping store accepts as the transport id of a record, so such a Thread cannot be stored.
\<close>

theorem plugin_route_outgrows_store:
  "(\<forall>r. case encodeHarnessPluginRoute r of Inl e \<Rightarrow> \<not> plugin_route_ok r | Inr s \<Rightarrow> length s \<le> 1998) \<and>
   (\<exists>r s. plugin_route_ok r \<and> encodeHarnessPluginRoute r = Inr s \<and> length s = 1998 \<and>
      \<not> (\<exists>record :: thread_record. tr_transportModelId record = s \<and> threadCore_ok record))"
proof -
  have bound: "case encodeHarnessPluginRoute r of Inl e \<Rightarrow> \<not> plugin_route_ok r | Inr s \<Rightarrow> length s \<le> 1998" for r
  proof (cases "plugin_route_ok r")
    case True
    then obtain t where "encodeHarnessPluginRoute r = Inr t" "length t \<le> 1998" by (rule encode_route)
    then show ?thesis by simp
  next
    case False
    then show ?thesis by (simp add: encodeHarnessPluginRoute_def)
  qed
  define a where "a n = replicate n (CHR ''a'')" for n :: nat
  define r where "r = \<lparr>pr_harnessId = a 128, pr_model = Some \<lparr>mr_id = a 512\<rparr>, pr_thinkingOptionId = Some (a 128),
    pr_permissionModeId = Some (a 128), pr_prewarm = True\<rparr>"
  have words: "plugin_words True (a n)" for n by (induction n) (simp_all add: a_def lower_alnum_def lower_letter_def Let_def)
  have char: "transport_char (CHR ''a'')" by (simp add: transport_char_def Let_def)
  have nonblank: "nonblank (a (Suc n))" for n
    by (simp add: nonblank_def trim_def a_def is_space_def Let_def dropWhile_replicate)
  have "a 128 = CHR ''a'' # a 127" by (simp add: a_def numeral_eq_Suc)
  then have "plugin_pattern (a 128)" using words by (simp add: plugin_pattern_def lower_letter_def Let_def)
  moreover have "a 128 \<noteq> ''codex''" proof
    assume "a 128 = ''codex''"
    then have "length (a 128) = length ''codex''" by (rule arg_cong)
    then show False by (simp add: a_def)
  qed
  ultimately have ok: "plugin_route_ok r"
    using nonblank [of 127] nonblank [of 511] char
    by (simp add: r_def plugin_route_ok_def harnessPluginId_ok_def installedHarnessPluginId_ok_def harnessModelRefId_ok_def
        harnessThinkingOptionId_ok_def harnessPermissionModeId_ok_def a_def list_all_iff)
  then have "encodeHarnessPluginRoute r =
      Inr (HARNESS_PLUGIN_ROUTE_PREFIX @ concat (List.map hex_byte (json_text (plugin_route_json r))))"
    by (simp add: encodeHarnessPluginRoute_def)
  moreover have "length (HARNESS_PLUGIN_ROUTE_PREFIX @ concat (List.map hex_byte (json_text (plugin_route_json r)))) = 1998"
    using route_text_length [OF ok] hex_bytes_payload
    by (simp add: r_def a_def given_length_def HARNESS_PLUGIN_ROUTE_PREFIX_def)
  ultimately show ?thesis
    using bound ok by (intro conjI allI exI [of _ r] exI) (auto simp: threadCore_ok_def text_max_def)
qed

end
