(* ===== verification/ProcessLock.thy ===== *)
theory ProcessLock
  imports JsonText
begin

text \<open>
  The lock that keeps a second process out of the store's directory: \<open>processIdentity\<close> to \<open>lockOwnerIsLive\<close>,
  \<open>#acquireLock\<close> and the end of \<open>close\<close> in \<open>packages/mapping-store/src/mapping-store.ts\<close>. What the operating
  system says about processes, and \<open>Date.parse\<close>, are arguments; times are milliseconds. A file is an inode: a
  handle keeps it when the path is renamed.
\<close>

subsection \<open>Whether the owner of a lock lives\<close>

datatype platform = Win32 | Darwin | OtherPlatform

text \<open>The answer of \<open>process.kill(pid, 0)\<close>, and the text a query prints, \<open>None\<close> when it throws.\<close>

datatype probe = ProbeAnswers | ProbeForbidden | ProbeFails

record lock_record =
  lk_pid :: "nat option"
  lk_instanceId :: "string option"
  lk_executablePath :: "string option"
  lk_processStartedAt :: "string option"

record process_identity =
  pi_executablePath :: "string option"
  pi_startedAt :: "int option"

record lock_env =
  le_platform :: platform
  le_probe :: "nat \<Rightarrow> probe"
  le_query :: "nat \<Rightarrow> string option"
  le_dateParse :: "string \<Rightarrow> int option"
  le_pid :: nat
  le_execPath :: string
  le_startedAt :: int

definition unknown_identity :: process_identity where
  "unknown_identity = \<lparr>pi_executablePath = None, pi_startedAt = None\<rparr>"

definition json_string :: "json option \<Rightarrow> string option" where
  "json_string v = (case v of Some (JStr s) \<Rightarrow> Some s | _ \<Rightarrow> None)"

definition queried_identity :: "lock_env \<Rightarrow> nat \<Rightarrow> process_identity" where
  "queried_identity e pid =
     (case map_option trim (le_query e pid) of
        None \<Rightarrow> unknown_identity
      | Some result \<Rightarrow>
          if le_platform e = Darwin then \<lparr>pi_executablePath = None, pi_startedAt = le_dateParse e result\<rparr>
          else if result = [] then unknown_identity
          else (case json_parse result of
                  None \<Rightarrow> unknown_identity
                | Some parsed \<Rightarrow>
                    \<lparr>pi_executablePath = json_string (jfield parsed ''Path''),
                     pi_startedAt = Option.bind (json_string (jfield parsed ''StartTime'')) (le_dateParse e)\<rparr>))"

definition processIdentity :: "lock_env \<Rightarrow> nat \<Rightarrow> process_identity option" where
  "processIdentity e pid =
     (if le_probe e pid = ProbeFails then None
      else if le_platform e = OtherPlatform then Some unknown_identity
      else Some (queried_identity e pid))"

definition normalizeExecutablePath :: "platform \<Rightarrow> string \<Rightarrow> string" where
  "normalizeExecutablePath p s =
     (if p = Win32 then to_lower (List.map (\<lambda>c. if c = CHR ''/'' then CHR 0x5C else c) s) else s)"

definition isNodeExecutable :: "platform \<Rightarrow> string \<Rightarrow> bool" where
  "isNodeExecutable p s =
     (let normalized = normalizeExecutablePath p s
      in ends_with (CHR 0x5C # ''node.exe'') normalized \<or> ends_with ''/node'' normalized)"

definition far_apart :: "int \<Rightarrow> int \<Rightarrow> bool" where
  "far_apart actual expected = (5000 < \<bar>actual - expected\<bar>)"

definition own_lock_live :: "lock_env \<Rightarrow> lock_record \<Rightarrow> bool" where
  "own_lock_live e lock =
     (if (case truthy (lk_executablePath lock) of
            None \<Rightarrow> False
          | Some path \<Rightarrow> normalizeExecutablePath (le_platform e) path \<noteq> normalizeExecutablePath (le_platform e) (le_execPath e))
      then False
      else case truthy (lk_processStartedAt lock) of
             None \<Rightarrow> True
           | Some startedAt \<Rightarrow>
               (case le_dateParse e startedAt of
                  None \<Rightarrow> True
                | Some expected \<Rightarrow> \<not> far_apart (le_startedAt e) expected))"

definition other_lock_live :: "lock_env \<Rightarrow> process_identity \<Rightarrow> lock_record \<Rightarrow> bool" where
  "other_lock_live e identity lock =
     (if (case (truthy (pi_executablePath identity), truthy (lk_executablePath lock)) of
            (Some actual, Some path) \<Rightarrow>
              normalizeExecutablePath (le_platform e) actual \<noteq> normalizeExecutablePath (le_platform e) path
          | (Some actual, None) \<Rightarrow> \<not> isNodeExecutable (le_platform e) actual
          | _ \<Rightarrow> False)
      then False
      else case (truthy (lk_processStartedAt lock), pi_startedAt identity) of
             (Some startedAt, Some actual) \<Rightarrow>
               (case le_dateParse e startedAt of
                  None \<Rightarrow> True
                | Some expected \<Rightarrow> \<not> far_apart actual expected)
           | _ \<Rightarrow> True)"

definition lockOwnerIsLive :: "lock_env \<Rightarrow> lock_record \<Rightarrow> bool" where
  "lockOwnerIsLive e lock =
     (case lk_pid lock of
        None \<Rightarrow> False
      | Some pid \<Rightarrow>
          if pid = le_pid e then own_lock_live e lock
          else (case processIdentity e pid of
                  None \<Rightarrow> False
                | Some identity \<Rightarrow>
                    if le_platform e = OtherPlatform then True else other_lock_live e identity lock))"

subsection \<open>Processes at the lock file\<close>

text \<open>
  The calls of \<open>#acquireLock\<close> that the operating system carries out one by one; the flag of an attempt says
  whether it is the second.
\<close>

datatype lock_phase =
    LockIdle
  | LockOpening bool
  | LockWriting bool nat
  | LockReading
  | LockRenaming
  | LockOwned nat
  | LockRefused
  | LockFailed
  | LockClosing
  | LockRemoving

record lock_world =
  lw_inodes :: "lock_record option list"
  lw_path :: "nat option"
  lw_phase :: "nat \<Rightarrow> lock_phase"
  lw_alive :: "nat \<Rightarrow> bool"

definition no_lock :: lock_world where
  "no_lock = \<lparr>lw_inodes = [], lw_path = None, lw_phase = (\<lambda>_. LockIdle), lw_alive = (\<lambda>_. False)\<rparr>"

definition set_phase :: "nat \<Rightarrow> lock_phase \<Rightarrow> lock_world \<Rightarrow> lock_world" where
  "set_phase p ph w = w\<lparr>lw_phase := (lw_phase w)(p := ph)\<rparr>"

text \<open>Opening with \<open>wx\<close>: a new file, unless there is one (\<open>EEXIST\<close>) or the call fails otherwise.\<close>

definition lock_open :: "nat \<Rightarrow> bool \<Rightarrow> bool \<Rightarrow> lock_world \<Rightarrow> lock_world" where
  "lock_open p again ok w =
     (if \<not> ok then set_phase p (if again then LockRefused else LockFailed) w
      else if lw_path w \<noteq> None then set_phase p (if again then LockRefused else LockReading) w
      else set_phase p (LockWriting again (length (lw_inodes w)))
             (w\<lparr>lw_inodes := lw_inodes w @ [None], lw_path := Some (length (lw_inodes w))\<rparr>))"

text \<open>Writing the record into the file the handle stands for; a failed write leaves no record there.\<close>

definition lock_write :: "nat \<Rightarrow> lock_record \<Rightarrow> bool \<Rightarrow> nat \<Rightarrow> bool \<Rightarrow> lock_world \<Rightarrow> lock_world" where
  "lock_write p lock again i ok w =
     (if ok then set_phase p (LockOwned i) (w\<lparr>lw_inodes := (lw_inodes w)[i := Some lock]\<rparr>)
      else set_phase p (if again then LockRefused else LockFailed) w)"

text \<open>Reading and judging the lock of another: a text that is no record, or a failed read, counts as stale.\<close>

definition lock_content :: "lock_world \<Rightarrow> bool \<Rightarrow> lock_record option" where
  "lock_content w ok = (if ok then Option.bind (lw_path w) (\<lambda>i. lw_inodes w ! i) else None)"

definition lock_read :: "nat \<Rightarrow> (lock_record \<Rightarrow> bool) \<Rightarrow> bool \<Rightarrow> lock_world \<Rightarrow> lock_world" where
  "lock_read p live ok w =
     (case lock_content w ok of
        Some existing \<Rightarrow> set_phase p (if live existing then LockRefused else LockRenaming) w
      | None \<Rightarrow> set_phase p LockRenaming w)"

definition lock_rename :: "nat \<Rightarrow> bool \<Rightarrow> lock_world \<Rightarrow> lock_world" where
  "lock_rename p ok w = set_phase p (LockOpening True) (if ok then w\<lparr>lw_path := None\<rparr> else w)"

text \<open>\<open>close\<close>: the lock is read, and removed if it is this instance's; failures are left to the next owner.\<close>

definition lock_recheck :: "nat \<Rightarrow> lock_record \<Rightarrow> bool \<Rightarrow> lock_world \<Rightarrow> lock_world" where
  "lock_recheck p lock ok w =
     set_phase p
       (case lock_content w ok of
          Some current \<Rightarrow> if lk_instanceId current = lk_instanceId lock then LockRemoving else LockIdle
        | None \<Rightarrow> LockIdle) w"

definition lock_remove :: "nat \<Rightarrow> bool \<Rightarrow> lock_world \<Rightarrow> lock_world" where
  "lock_remove p ok w = set_phase p LockIdle (if ok then w\<lparr>lw_path := None\<rparr> else w)"

text \<open>One call of process \<open>p\<close>; \<open>judge alive p\<close> is \<open>lockOwnerIsLive\<close> in that process now.\<close>

definition lock_call ::
  "((nat \<Rightarrow> bool) \<Rightarrow> nat \<Rightarrow> lock_record \<Rightarrow> bool) \<Rightarrow> (nat \<Rightarrow> lock_record) \<Rightarrow> nat \<Rightarrow> bool \<Rightarrow> lock_world \<Rightarrow> lock_world"
where
  "lock_call judge record_of p ok w =
     (if \<not> lw_alive w p then w
      else case lw_phase w p of
        LockOpening again \<Rightarrow> lock_open p again ok w
      | LockWriting again i \<Rightarrow> lock_write p (record_of p) again i ok w
      | LockReading \<Rightarrow> lock_read p (judge (lw_alive w) p) ok w
      | LockRenaming \<Rightarrow> lock_rename p ok w
      | LockClosing \<Rightarrow> lock_recheck p (record_of p) ok w
      | LockRemoving \<Rightarrow> lock_remove p ok w
      | _ \<Rightarrow> w)"

datatype lock_event =
    ProcessStarts nat
  | ProcessDies nat
  | LockBegins nat
  | LockCalls nat bool
  | LockCloses nat

definition idle_phase :: "lock_phase \<Rightarrow> bool" where
  "idle_phase ph = (ph = LockIdle \<or> ph = LockRefused \<or> ph = LockFailed)"

fun lock_step ::
  "((nat \<Rightarrow> bool) \<Rightarrow> nat \<Rightarrow> lock_record \<Rightarrow> bool) \<Rightarrow> (nat \<Rightarrow> lock_record) \<Rightarrow> lock_world \<Rightarrow> lock_event \<Rightarrow> lock_world"
where
  "lock_step judge record_of w (ProcessStarts p) =
     (if lw_alive w p then w else set_phase p LockIdle (w\<lparr>lw_alive := (lw_alive w)(p := True)\<rparr>))"
| "lock_step judge record_of w (ProcessDies p) = set_phase p LockIdle (w\<lparr>lw_alive := (lw_alive w)(p := False)\<rparr>)"
| "lock_step judge record_of w (LockBegins p) =
     (if lw_alive w p \<and> idle_phase (lw_phase w p) then set_phase p (LockOpening False) w else w)"
| "lock_step judge record_of w (LockCalls p ok) = lock_call judge record_of p ok w"
| "lock_step judge record_of w (LockCloses p) =
     (case lw_phase w p of LockOwned i \<Rightarrow> if lw_alive w p then set_phase p LockClosing w else w | _ \<Rightarrow> w)"

definition owners :: "lock_world \<Rightarrow> nat set" where
  "owners w = {p. lw_alive w p \<and> (\<exists>i. lw_phase w p = LockOwned i)}"

text \<open>\<open>#acquireLock\<close> and the end of \<open>close\<close> without another process in between; five and two calls at most.\<close>

definition lock_calls ::
  "((nat \<Rightarrow> bool) \<Rightarrow> nat \<Rightarrow> lock_record \<Rightarrow> bool) \<Rightarrow> (nat \<Rightarrow> lock_record) \<Rightarrow> nat \<Rightarrow> nat \<Rightarrow> bool list \<Rightarrow> lock_world \<Rightarrow>
   lock_world"
where
  "lock_calls judge record_of n p oks w =
     foldl (\<lambda>w ok. lock_call judge record_of p ok w) w (take n (oks @ replicate n True))"

definition acquireLock ::
  "((nat \<Rightarrow> bool) \<Rightarrow> nat \<Rightarrow> lock_record \<Rightarrow> bool) \<Rightarrow> (nat \<Rightarrow> lock_record) \<Rightarrow> nat \<Rightarrow> bool list \<Rightarrow> lock_world \<Rightarrow> lock_world"
where
  "acquireLock judge record_of p oks w =
     lock_calls judge record_of 5 p oks (lock_step judge record_of w (LockBegins p))"

definition closeLock ::
  "((nat \<Rightarrow> bool) \<Rightarrow> nat \<Rightarrow> lock_record \<Rightarrow> bool) \<Rightarrow> (nat \<Rightarrow> lock_record) \<Rightarrow> nat \<Rightarrow> bool list \<Rightarrow> lock_world \<Rightarrow> lock_world"
where
  "closeLock judge record_of p oks w =
     lock_calls judge record_of 2 p oks (lock_step judge record_of w (LockCloses p))"

subsection \<open>One process after the other\<close>

datatype serial_event =
    Starts nat
  | Dies nat
  | Acquires nat "bool list"
  | Closes nat "bool list"

text \<open>The read of an existing lock, the second call, does not fail; any other call may.\<close>

definition reads_lock :: "bool list \<Rightarrow> lock_world \<Rightarrow> bool" where
  "reads_lock oks w = (lw_path w = None \<or> (oks @ replicate 5 True) ! 1)"

fun serial_step ::
  "((nat \<Rightarrow> bool) \<Rightarrow> nat \<Rightarrow> lock_record \<Rightarrow> bool) \<Rightarrow> (nat \<Rightarrow> lock_record) \<Rightarrow> lock_world \<Rightarrow> serial_event \<Rightarrow> lock_world"
where
  "serial_step judge record_of w (Starts p) = lock_step judge record_of w (ProcessStarts p)"
| "serial_step judge record_of w (Dies p) = lock_step judge record_of w (ProcessDies p)"
| "serial_step judge record_of w (Acquires p oks) = (if reads_lock oks w then acquireLock judge record_of p oks w else w)"
| "serial_step judge record_of w (Closes p oks) = closeLock judge record_of p oks w"

text \<open>Processes of one Linux system: each has a path, a time it started at and an instance of the store.\<close>

definition linux_env ::
  "(string \<Rightarrow> int option) \<Rightarrow> (nat \<Rightarrow> string) \<Rightarrow> (nat \<Rightarrow> int) \<Rightarrow> (nat \<Rightarrow> bool) \<Rightarrow> nat \<Rightarrow> lock_env"
where
  "linux_env dateParse paths starts alive me =
     \<lparr>le_platform = OtherPlatform, le_probe = (\<lambda>p. if alive p then ProbeAnswers else ProbeFails), le_query = (\<lambda>_. None),
      le_dateParse = dateParse, le_pid = me, le_execPath = paths me, le_startedAt = starts me\<rparr>"

definition linux_judge ::
  "(string \<Rightarrow> int option) \<Rightarrow> (nat \<Rightarrow> string) \<Rightarrow> (nat \<Rightarrow> int) \<Rightarrow> (nat \<Rightarrow> bool) \<Rightarrow> nat \<Rightarrow> lock_record \<Rightarrow> bool"
where
  "linux_judge dateParse paths starts alive me lock = lockOwnerIsLive (linux_env dateParse paths starts alive me) lock"

definition written_lock ::
  "(nat \<Rightarrow> string) \<Rightarrow> (nat \<Rightarrow> string) \<Rightarrow> (nat \<Rightarrow> string) \<Rightarrow> nat \<Rightarrow> lock_record"
where
  "written_lock instance_of paths startTexts p =
     \<lparr>lk_pid = Some p, lk_instanceId = Some (instance_of p), lk_executablePath = Some (paths p),
      lk_processStartedAt = Some (startTexts p)\<rparr>"

end
