(* ===== verification/ProcessLockProps.thy ===== *)
theory ProcessLockProps
  imports ProcessLock
begin

text \<open>
  What the lock promises. The locale says what the judgement of an owner must give; under it no two processes
  own the lock while acquisitions do not overlap, and the lock of a process that died is taken over. The last
  part shows what overlapping acquisitions can do.
\<close>

definition waiting :: "lock_phase \<Rightarrow> bool" where
  "waiting ph = (case ph of LockIdle \<Rightarrow> False | LockOwned _ \<Rightarrow> False | LockRefused \<Rightarrow> False | LockFailed \<Rightarrow> False | _ \<Rightarrow> True)"

definition unowned :: "lock_world \<Rightarrow> bool" where
  "unowned w = (\<forall>p i. lw_alive w p \<longrightarrow> lw_phase w p \<noteq> LockOwned i)"

text \<open>An owner's record is in the lock file.\<close>

definition owned_ok :: "(nat \<Rightarrow> lock_record) \<Rightarrow> lock_world \<Rightarrow> bool" where
  "owned_ok record_of w =
     ((\<forall>p i. lw_alive w p \<longrightarrow> lw_phase w p = LockOwned i \<longrightarrow>
         lw_path w = Some i \<and> lw_inodes w ! i = Some (record_of p)) \<and>
      (\<forall>i. lw_path w = Some i \<longrightarrow> i < length (lw_inodes w)))"

definition lock_ok :: "(nat \<Rightarrow> lock_record) \<Rightarrow> lock_world \<Rightarrow> bool" where
  "lock_ok record_of w = (owned_ok record_of w \<and> (\<forall>p. lw_alive w p \<longrightarrow> \<not> waiting (lw_phase w p)))"

text \<open>While \<open>p\<close> is at work: what each of its phases knows.\<close>

definition phase_knows :: "nat \<Rightarrow> lock_world \<Rightarrow> bool" where
  "phase_knows p w =
     (case lw_phase w p of
        LockOpening again \<Rightarrow> again \<longrightarrow> unowned w
      | LockWriting again i \<Rightarrow> unowned w \<and> lw_path w = Some i
      | LockRenaming \<Rightarrow> unowned w
      | LockClosing \<Rightarrow> unowned w
      | LockRemoving \<Rightarrow> unowned w
      | _ \<Rightarrow> True)"

definition lock_mid :: "(nat \<Rightarrow> lock_record) \<Rightarrow> nat \<Rightarrow> lock_world \<Rightarrow> bool" where
  "lock_mid record_of p w =
     (owned_ok record_of w \<and> lw_alive w p \<and> phase_knows p w \<and>
      (\<forall>q. q \<noteq> p \<longrightarrow> lw_alive w q \<longrightarrow> \<not> waiting (lw_phase w q)))"

text \<open>A lock to be taken over: the record in the file, if there is one, is that of a dead process.\<close>

definition lock_free :: "(nat \<Rightarrow> lock_record) \<Rightarrow> lock_world \<Rightarrow> bool" where
  "lock_free record_of w =
     (case lock_content w True of None \<Rightarrow> True | Some existing \<Rightarrow> \<exists>q. existing = record_of q \<and> \<not> lw_alive w q)"

text \<open>How many calls are left.\<close>

fun calls_left :: "lock_phase \<Rightarrow> nat" where
  "calls_left (LockOpening again) = (if again then 2 else 5)"
| "calls_left LockReading = 4"
| "calls_left LockRenaming = 3"
| "calls_left (LockWriting again i) = 1"
| "calls_left LockClosing = 2"
| "calls_left LockRemoving = 1"
| "calls_left _ = 0"

lemma calls_left_waiting: "calls_left ph = 0 \<longleftrightarrow> \<not> waiting ph"
  by (cases ph) (simp_all add: waiting_def)

lemma set_phase_fields [simp]:
  "lw_alive (set_phase p ph w) = lw_alive w" "lw_path (set_phase p ph w) = lw_path w"
  "lw_inodes (set_phase p ph w) = lw_inodes w" "lw_phase (set_phase p ph w) q = (if q = p then ph else lw_phase w q)"
  by (simp_all add: set_phase_def)

lemma owned_ok_phase:
  assumes "owned_ok record_of w" "\<forall>j. ph \<noteq> LockOwned j"
  shows "owned_ok record_of (set_phase p ph w)"
proof -
  have "lw_alive w q \<and> lw_phase w q = LockOwned j" if "lw_alive (set_phase p ph w) q" "lw_phase (set_phase p ph w) q = LockOwned j" for q j
    using that assms(2) by (auto split: if_splits)
  then show ?thesis using assms(1) unfolding owned_ok_def by simp
qed

lemmas call_simps = lock_call_def lock_open_def lock_write_def lock_read_def lock_rename_def lock_recheck_def
  lock_remove_def lock_content_def

lemma call_alive: "lw_alive (lock_call judge record_of p ok w) = lw_alive w"
  by (cases "lw_phase w p") (auto simp: call_simps split: option.splits)

locale lock_judge =
  fixes judge :: "(nat \<Rightarrow> bool) \<Rightarrow> nat \<Rightarrow> lock_record \<Rightarrow> bool" and record_of :: "nat \<Rightarrow> lock_record"
  assumes live_kept: "alive p \<Longrightarrow> alive q \<Longrightarrow> p \<noteq> q \<Longrightarrow> judge alive q (record_of p)"
    and dead_given_up: "\<not> alive p \<Longrightarrow> alive q \<Longrightarrow> \<not> judge alive q (record_of p)"
begin

lemma record_inj:
  assumes "record_of p = record_of q"
  shows "p = q"
proof (rule ccontr)
  let ?alive = "\<lambda>x. x \<noteq> q" and ?r = "Suc (p + q)"
  assume "p \<noteq> q"
  then have "judge ?alive ?r (record_of p)" by (intro live_kept) auto
  moreover have "\<not> judge ?alive ?r (record_of q)" by (intro dead_given_up) auto
  ultimately show False using assms by simp
qed

text \<open>There is one owner, since there is one lock file.\<close>

lemma sole_owner:
  assumes "owned_ok record_of w" "lw_alive w p" "lw_phase w p = LockOwned i" "lw_alive w q" "lw_phase w q = LockOwned j"
  shows "p = q"
proof -
  have "lw_path w = Some i" "lw_inodes w ! i = Some (record_of p)" "lw_path w = Some j" "lw_inodes w ! j = Some (record_of q)"
    using assms unfolding owned_ok_def by blast+
  then show ?thesis using record_inj by simp
qed

lemma call_progress:
  "lw_alive w p \<Longrightarrow> calls_left (lw_phase (lock_call judge record_of p ok w) p) \<le> calls_left (lw_phase w p) - 1"
  by (cases "lw_phase w p") (auto simp: call_simps split: option.splits)

lemma call_mid:
  assumes "lock_mid record_of p w" and "lw_phase w p = LockReading \<Longrightarrow> ok"
  shows "lock_mid record_of p (lock_call judge record_of p ok w)"
proof (cases "lw_phase w p")
  case LockReading
  show ?thesis
  proof (cases "lock_content w True")
    case None
    have "unowned w"
      using assms(1) None by (auto simp: unowned_def lock_mid_def owned_ok_def lock_content_def)
    then show ?thesis
      using assms None LockReading
      by (auto simp: lock_mid_def lock_call_def lock_read_def owned_ok_def phase_knows_def unowned_def)
  next
    case (Some existing)
    have "unowned w" if stale: "\<not> judge (lw_alive w) p existing"
      unfolding unowned_def
    proof (intro allI impI notI)
      fix q i assume q: "lw_alive w q" "lw_phase w q = LockOwned i"
      then have "existing = record_of q" "q \<noteq> p"
        using assms(1) Some LockReading by (auto simp: lock_mid_def owned_ok_def lock_content_def)
      then show False using stale live_kept [of "lw_alive w" q p] q(1) assms(1) by (simp add: lock_mid_def)
    qed
    then show ?thesis
      using assms Some LockReading
      by (auto simp: lock_mid_def lock_call_def lock_read_def owned_ok_def phase_knows_def unowned_def)
  qed
next
  case (LockOpening again)
  then show ?thesis
    using assms(1) by (auto simp: lock_mid_def call_simps owned_ok_def phase_knows_def unowned_def nth_append)
next
  case (LockWriting again i)
  then show ?thesis
    using assms(1) by (auto simp: lock_mid_def call_simps owned_ok_def phase_knows_def unowned_def)
next
  case LockRenaming
  then show ?thesis
    using assms(1) by (auto simp: lock_mid_def call_simps owned_ok_def phase_knows_def unowned_def)
next
  case LockClosing
  then show ?thesis
    using assms(1)
    by (auto simp: lock_mid_def call_simps owned_ok_def phase_knows_def unowned_def split: option.splits)
next
  case LockRemoving
  then show ?thesis
    using assms(1) by (auto simp: lock_mid_def call_simps owned_ok_def phase_knows_def unowned_def)
qed (use assms(1) in \<open>auto simp: lock_call_def\<close>)

text \<open>A run of calls: the invariant is kept and every call is progress, so five are enough.\<close>

lemma calls_run:
  assumes "lock_mid record_of p w"
    and "\<And>pre ok post. oks = pre @ ok # post \<Longrightarrow>
      lw_phase (foldl (\<lambda>w ok. lock_call judge record_of p ok w) w pre) p = LockReading \<Longrightarrow> ok"
  shows "lock_mid record_of p (foldl (\<lambda>w ok. lock_call judge record_of p ok w) w oks) \<and>
    calls_left (lw_phase (foldl (\<lambda>w ok. lock_call judge record_of p ok w) w oks) p) \<le> calls_left (lw_phase w p) - length oks"
  using assms
proof (induction oks rule: rev_induct)
  case (snoc ok oks)
  let ?w = "foldl (\<lambda>w ok. lock_call judge record_of p ok w) w oks"
  have cond: "ok'" if "oks = pre @ ok' # post"
      "lw_phase (foldl (\<lambda>w ok. lock_call judge record_of p ok w) w pre) p = LockReading" for pre ok' post
    using snoc.prems(2) [of pre ok' "post @ [ok]"] that by simp
  have "lock_mid record_of p ?w \<and> calls_left (lw_phase ?w p) \<le> calls_left (lw_phase w p) - length oks"
    by (rule snoc.IH [OF snoc.prems(1)]) (rule cond)
  then have ih: "lock_mid record_of p ?w" "calls_left (lw_phase ?w p) \<le> calls_left (lw_phase w p) - length oks"
    by blast+
  have "lock_mid record_of p (lock_call judge record_of p ok ?w)"
    using call_mid [OF ih(1)] snoc.prems(2) [of oks ok "[]"] by simp
  moreover have "calls_left (lw_phase (lock_call judge record_of p ok ?w) p) \<le> calls_left (lw_phase ?w p) - 1"
    using ih(1) by (intro call_progress) (simp add: lock_mid_def)
  ultimately show ?case using ih(2) by simp
qed simp

lemma mid_done: "lock_mid record_of p w \<Longrightarrow> calls_left (lw_phase w p) = 0 \<Longrightarrow> lock_ok record_of w"
  unfolding lock_mid_def lock_ok_def by (auto simp: calls_left_waiting)

text \<open>Only the second call of an acquisition reads.\<close>

lemma reads_second:
  assumes "lw_phase w p = LockOpening False" "reads_lock oks w"
    and "take 5 (oks @ replicate 5 True) = pre @ ok # post"
    and "lw_phase (foldl (\<lambda>w ok. lock_call judge record_of p ok w) w pre) p = LockReading"
  shows "ok"
proof (cases "lw_alive w p")
  case False
  have "foldl (\<lambda>w ok. lock_call judge record_of p ok w) w pre = w" using False by (induction pre) (simp_all add: lock_call_def)
  then show ?thesis using assms by simp
next
  case True
  have later: "lw_phase (foldl (\<lambda>w ok. lock_call judge record_of p ok w) v xs) p \<noteq> LockReading"
    if "lw_phase v p \<noteq> LockReading \<and> lw_phase v p \<noteq> LockOpening False" for v xs
    using that
  proof (induction xs arbitrary: v)
    case (Cons x xs)
    have "lw_phase (lock_call judge record_of p x v) p \<noteq> LockReading \<and>
        lw_phase (lock_call judge record_of p x v) p \<noteq> LockOpening False"
      using Cons.prems by (cases "lw_phase v p") (auto simp: call_simps split: option.splits)
    then show ?case using Cons.IH by simp
  qed simp
  show ?thesis
  proof (cases pre)
    case Nil
    then show ?thesis using assms by simp
  next
    case (Cons x xs)
    define v where "v = lock_call judge record_of p x w"
    have v: "lw_phase v p = LockReading \<Longrightarrow> lw_path w \<noteq> None" "lw_phase v p \<noteq> LockOpening False"
      using assms(1) True by (auto simp: v_def lock_call_def lock_open_def split: if_splits)
    show ?thesis
    proof (cases xs)
      case Nil
      have "take 5 (oks @ replicate 5 True) ! 1 = ok" using assms(3) Cons Nil by simp
      then have "(oks @ replicate 5 True) ! 1 = ok"
        using nth_take [of 1 5 "oks @ replicate 5 True"] by (simp del: take_append)
      then show ?thesis using assms(2,4) v Cons Nil by (auto simp: reads_lock_def v_def)
    next
      case (Cons y ys)
      define u where "u = lock_call judge record_of p y v"
      have "lw_phase u p \<noteq> LockReading \<and> lw_phase u p \<noteq> LockOpening False"
        using v(2) True call_alive [of judge record_of p x w] unfolding u_def v_def [symmetric]
        by (cases "lw_phase v p") (auto simp: call_simps split: option.splits)
      then show ?thesis using later [of u ys] assms(4) \<open>pre = x # xs\<close> Cons by (simp add: u_def v_def)
    qed
  qed
qed

lemma acquire_ok:
  assumes "lock_ok record_of w" "reads_lock oks w"
  shows "lock_ok record_of (acquireLock judge record_of p oks w)"
proof (cases "lw_alive w p \<and> idle_phase (lw_phase w p)")
  case False
  then have "lock_step judge record_of w (LockBegins p) = w" by auto
  moreover have "foldl (\<lambda>w ok. lock_call judge record_of p ok w) w xs = w" for xs
  proof (induction xs)
    case (Cons x xs)
    have "lock_call judge record_of p x w = w"
      using False assms(1) by (cases "lw_phase w p") (auto simp: lock_call_def idle_phase_def lock_ok_def waiting_def)
    then show ?case using Cons by simp
  qed simp
  ultimately show ?thesis using assms(1) by (simp add: acquireLock_def lock_calls_def)
next
  case True
  let ?w = "set_phase p (LockOpening False) w"
  let ?oks = "take 5 (oks @ replicate 5 True)"
  have mid: "lock_mid record_of p ?w"
    using assms(1) True by (auto simp: lock_mid_def lock_ok_def owned_ok_def phase_knows_def)
  have "lock_mid record_of p (foldl (\<lambda>w ok. lock_call judge record_of p ok w) ?w ?oks) \<and>
    calls_left (lw_phase (foldl (\<lambda>w ok. lock_call judge record_of p ok w) ?w ?oks) p) \<le>
      calls_left (lw_phase ?w p) - length ?oks"
    by (rule calls_run [OF mid]) (rule reads_second [of ?w p oks]; use assms(2) in \<open>simp add: reads_lock_def\<close>)
  then have "lock_ok record_of (foldl (\<lambda>w ok. lock_call judge record_of p ok w) ?w ?oks)"
    by (intro mid_done [of p]) simp_all
  then show ?thesis using True by (simp add: acquireLock_def lock_calls_def)
qed

lemma close_ok:
  assumes "lock_ok record_of w"
  shows "lock_ok record_of (closeLock judge record_of p oks w)"
proof (cases "\<exists>i. lw_phase w p = LockOwned i \<and> lw_alive w p")
  case False
  then have "lock_step judge record_of w (LockCloses p) = w" by (auto split: lock_phase.splits)
  moreover have "foldl (\<lambda>w ok. lock_call judge record_of p ok w) w xs = w" for xs
  proof (induction xs)
    case (Cons x xs)
    have "lock_call judge record_of p x w = w"
      using False assms(1) by (cases "lw_phase w p") (auto simp: lock_call_def lock_ok_def waiting_def)
    then show ?case using Cons by simp
  qed simp
  ultimately show ?thesis using assms(1) by (simp add: closeLock_def lock_calls_def)
next
  case True
  then obtain i where i: "lw_phase w p = LockOwned i" "lw_alive w p" by blast
  let ?w = "set_phase p LockClosing w"
  let ?oks = "take 2 (oks @ replicate 2 True)"
  have sole: "lw_phase w q = LockOwned j \<Longrightarrow> lw_alive w q \<Longrightarrow> q = p" for q j
    using assms i sole_owner [of w q j p i] by (simp add: lock_ok_def)
  have "unowned ?w" using sole by (auto simp: unowned_def)
  then have mid: "lock_mid record_of p ?w"
    using assms owned_ok_phase [of record_of w LockClosing p] i by (simp add: lock_mid_def lock_ok_def phase_knows_def)
  have never: "lw_phase (foldl (\<lambda>w ok. lock_call judge record_of p ok w) v xs) p \<noteq> LockReading"
    if "lw_phase v p = LockClosing \<or> lw_phase v p = LockRemoving \<or> lw_phase v p = LockIdle" for v xs
    using that
  proof (induction xs arbitrary: v)
    case (Cons x xs)
    have "lw_phase (lock_call judge record_of p x v) p \<in> {LockClosing, LockRemoving, LockIdle}"
      using Cons.prems by (cases "lock_content v x") (auto simp: lock_call_def lock_recheck_def lock_remove_def split: if_splits)
    then show ?case using Cons.IH by simp
  qed auto
  have "lock_mid record_of p (foldl (\<lambda>w ok. lock_call judge record_of p ok w) ?w ?oks) \<and>
    calls_left (lw_phase (foldl (\<lambda>w ok. lock_call judge record_of p ok w) ?w ?oks) p) \<le>
      calls_left (lw_phase ?w p) - length ?oks"
    by (rule calls_run [OF mid]) (use never [of ?w] in simp)
  then have "lock_ok record_of (foldl (\<lambda>w ok. lock_call judge record_of p ok w) ?w ?oks)"
    by (intro mid_done [of p]) simp_all
  then show ?thesis using i by (simp add: closeLock_def lock_calls_def)
qed

lemma serial_step_ok:
  assumes "lock_ok record_of w"
  shows "lock_ok record_of (serial_step judge record_of w e)"
proof (cases e)
  case (Acquires p oks)
  then show ?thesis using assms acquire_ok by simp
next
  case (Closes p oks)
  then show ?thesis using assms close_ok by simp
qed (use assms in \<open>auto simp: lock_ok_def owned_ok_def waiting_def\<close>)

lemma acquire_free:
  assumes "lw_alive w p" "idle_phase (lw_phase w p)" "lock_free record_of w"
  shows "\<exists>i. lw_phase (acquireLock judge record_of p [] w) p = LockOwned i \<and>
    lw_path (acquireLock judge record_of p [] w) = Some i"
proof (cases "lw_path w")
  case None
  then show ?thesis using assms
    by (auto simp: acquireLock_def lock_calls_def numeral_eq_Suc call_simps)
next
  case (Some i)
  have "\<not> judge (lw_alive w) p existing" if "lw_inodes w ! i = Some existing" for existing
    using assms(1,3) Some that dead_given_up [of "lw_alive w" _ p] by (auto simp: lock_free_def lock_content_def)
  then show ?thesis using assms(1,2) Some
    by (cases "lw_inodes w ! i") (auto simp: acquireLock_def lock_calls_def numeral_eq_Suc call_simps)
qed

end

subsection \<open>The judgement on other systems\<close>

text \<open>
  Where the system tells a process's program and start, a live owner is recognised as long as what it tells
  agrees with the lock, and a process that got the owner's number later is not taken for it.
\<close>

definition tells_owner :: "lock_env \<Rightarrow> process_identity \<Rightarrow> lock_record \<Rightarrow> bool" where
  "tells_owner e identity lock =
     ((\<forall>actual. truthy (pi_executablePath identity) = Some actual \<longrightarrow>
         (\<exists>path. truthy (lk_executablePath lock) = Some path \<and>
            normalizeExecutablePath (le_platform e) actual = normalizeExecutablePath (le_platform e) path)) \<and>
      (\<forall>actual startedAt expected. pi_startedAt identity = Some actual \<longrightarrow> lk_processStartedAt lock = Some startedAt \<longrightarrow>
         le_dateParse e startedAt = Some expected \<longrightarrow> \<not> far_apart actual expected))"

lemma live_owner_recognised:
  assumes "lk_pid lock = Some p" "p \<noteq> le_pid e" "le_probe e p \<noteq> ProbeFails" "tells_owner e (queried_identity e p) lock"
  shows "lockOwnerIsLive e lock"
  using assms
  by (auto simp: lockOwnerIsLive_def processIdentity_def other_lock_live_def tells_owner_def truthy_Some_iff
      truthy_None_iff split: option.splits)

lemma reused_pid_recognised:
  assumes "lk_pid lock = Some p" "p \<noteq> le_pid e" "le_platform e = Darwin"
    and "lk_processStartedAt lock = Some (c # startedAt)" "le_dateParse e (c # startedAt) = Some expected"
    and "le_query e p = Some result" "le_dateParse e (trim result) = Some actual" "far_apart actual expected"
  shows "\<not> lockOwnerIsLive e lock"
  using assms
  by (auto simp: lockOwnerIsLive_def processIdentity_def queried_identity_def other_lock_live_def truthy_def)

subsection \<open>Linux processes\<close>

interpretation linux_lock: lock_judge "linux_judge dateParse paths starts" "written_lock instance_of paths startTexts"
  by unfold_locales
    (auto simp: linux_judge_def linux_env_def lockOwnerIsLive_def written_lock_def processIdentity_def)

interpretation linux_locks:
  machine "serial_step (linux_judge dateParse paths starts) (written_lock instance_of paths startTexts)"
    "lock_ok (written_lock instance_of paths startTexts)"
  by unfold_locales (rule linux_lock.serial_step_ok)

definition linux_run ::
  "(string \<Rightarrow> int option) \<Rightarrow> (nat \<Rightarrow> string) \<Rightarrow> (nat \<Rightarrow> int) \<Rightarrow> (nat \<Rightarrow> string) \<Rightarrow> (nat \<Rightarrow> string) \<Rightarrow> serial_event list \<Rightarrow>
   lock_world"
where
  "linux_run dateParse paths starts instance_of startTexts es =
     foldl (serial_step (linux_judge dateParse paths starts) (written_lock instance_of paths startTexts)) no_lock es"

lemma linux_run_ok:
  "lock_ok (written_lock instance_of paths startTexts) (linux_run dateParse paths starts instance_of startTexts es)"
  unfolding linux_run_def
  by (rule linux_locks.run_inv) (simp add: lock_ok_def owned_ok_def no_lock_def)





subsection \<open>Overlapping acquisitions\<close>


end
