(* ===== verification/CommandReceipts.thy ===== *)
theory CommandReceipts
  imports JsonText
begin

text \<open>
  Retries of client commands: \<open>packages/host-runtime/src/client-command-receipts.ts\<close>. An entry is an object
  that the callback of its result keeps: entries are numbered in the order of their creation, and the number
  also names the promise of the result. A call that replies or throws runs its callback at that step.
\<close>

datatype host_reply = ReplyResult json | ReplyError int string

record command_receipt =
  cm_key :: string
  cm_fingerprint :: string
  cm_settled :: bool
  cm_threadId :: "string option"
  cm_clientId :: "string option"
  cm_turnId :: "string option"

record command_receipts =
  rs_entries :: "(string, nat) jsmap"
  rs_objects :: "command_receipt list"

definition no_receipts :: command_receipts where
  "no_receipts = \<lparr>rs_entries = [], rs_objects = []\<rparr>"

subsection \<open>Fingerprints\<close>

fun insert_member :: "string \<Rightarrow> json \<Rightarrow> (string \<times> json) list \<Rightarrow> (string \<times> json) list" where
  "insert_member k v [] = [(k, v)]"
| "insert_member k v ((k', v') # kvs) = (if str_less k k' then (k, v) # (k', v') # kvs else (k', v') # insert_member k v kvs)"

fun canonical :: "json \<Rightarrow> json" and canonical_items :: "json list \<Rightarrow> json list"
  and canonical_members :: "(string \<times> json) list \<Rightarrow> (string \<times> json) list" where
  "canonical (JArr xs) = JArr (canonical_items xs)"
| "canonical (JObj kvs) = JObj (canonical_members kvs)"
| "canonical JNull = JNull"
| "canonical (JBool b) = JBool b"
| "canonical (JInt n) = JInt n"
| "canonical (JFrac s) = JFrac s"
| "canonical (JStr s) = JStr s"
| "canonical_items [] = []"
| "canonical_items (x # xs) = canonical x # canonical_items xs"
| "canonical_members [] = []"
| "canonical_members ((k, v) # kvs) = insert_member k (canonical v) (canonical_members kvs)"

definition command_fingerprint :: "(string \<Rightarrow> string) \<Rightarrow> (string \<times> json) list \<Rightarrow> string" where
  "command_fingerprint sha256 params = sha256 (json_text (canonical (JObj params)))"

subsection \<open>Operations\<close>

definition text_member :: "(string \<times> json) list \<Rightarrow> string \<Rightarrow> string option" where
  "text_member params name = (case map_of params name of Some (JStr s) \<Rightarrow> Some s | _ \<Rightarrow> None)"

definition clientIdForTurn :: "string \<Rightarrow> string \<Rightarrow> command_receipts \<Rightarrow> string option" where
  "clientIdForTurn threadId turnId r =
     (case List.find (\<lambda>i. cm_threadId (rs_objects r ! i) = Some threadId \<and> cm_turnId (rs_objects r ! i) = Some turnId)
             (js_values (rs_entries r)) of
        None \<Rightarrow> None
      | Some i \<Rightarrow> cm_clientId (rs_objects r ! i))"

text \<open>What \<open>run\<close> returns: the result of a call, or an answer of its own.\<close>

datatype command_answer = ResultOf nat | AnsweredNow int string

definition new_receipt :: "string \<Rightarrow> string \<Rightarrow> (string \<times> json) list \<Rightarrow> command_receipt" where
  "new_receipt key fingerprint params =
     \<lparr>cm_key = key, cm_fingerprint = fingerprint, cm_settled = False, cm_threadId = text_member params ''threadId'',
      cm_clientId = text_member params ''clientUserMessageId'', cm_turnId = None\<rparr>"

definition oldest_settled :: "command_receipts \<Rightarrow> string option" where
  "oldest_settled r = map_option fst (List.find (\<lambda>(k, i). cm_settled (rs_objects r ! i)) (rs_entries r))"

definition submit_command :: "string \<Rightarrow> command_receipt \<Rightarrow> command_receipts \<Rightarrow> command_answer \<times> command_receipts" where
  "submit_command key entry r =
     (ResultOf (length (rs_objects r)),
      r\<lparr>rs_objects := rs_objects r @ [entry], rs_entries := js_set key (length (rs_objects r)) (rs_entries r)\<rparr>)"

definition run_command ::
  "(string \<Rightarrow> string) \<Rightarrow> string \<Rightarrow> (string \<times> json) list \<Rightarrow> command_receipts \<Rightarrow> command_answer \<times> command_receipts"
where
  "run_command sha256 key params r =
     (let fingerprint = command_fingerprint sha256 params;
          entry = new_receipt key fingerprint params
      in case js_get (rs_entries r) key of
           Some i \<Rightarrow>
             if cm_fingerprint (rs_objects r ! i) = fingerprint then (ResultOf i, r)
             else (AnsweredNow (-32602) ''Message ID was already used with different input'', r)
         | None \<Rightarrow>
             if 256 \<le> length (rs_entries r)
             then (case oldest_settled r of
                     None \<Rightarrow> (AnsweredNow (-32090) ''Too many pending client commands'', r)
                   | Some oldest \<Rightarrow> submit_command key entry (r\<lparr>rs_entries := js_delete oldest (rs_entries r)\<rparr>))
             else submit_command key entry r)"

definition update_receipt :: "nat \<Rightarrow> (command_receipt \<Rightarrow> command_receipt) \<Rightarrow> command_receipts \<Rightarrow> command_receipts" where
  "update_receipt i f r = r\<lparr>rs_objects := (rs_objects r)[i := f (rs_objects r ! i)]\<rparr>"

definition reply_turn :: "host_reply \<Rightarrow> string option" where
  "reply_turn reply =
     (case reply of
        ReplyResult (JObj kvs) \<Rightarrow>
          (case map_of kvs ''turn'' of
             Some (JObj turn) \<Rightarrow> text_member turn ''id''
           | _ \<Rightarrow> None)
      | _ \<Rightarrow> None)"

definition not_submitted :: "host_reply \<Rightarrow> bool" where
  "not_submitted reply = (case reply of ReplyError code _ \<Rightarrow> code = -32602 \<or> code = -32072 | ReplyResult _ \<Rightarrow> False)"

definition command_replied :: "nat \<Rightarrow> host_reply \<Rightarrow> command_receipts \<Rightarrow> command_receipts" where
  "command_replied i reply r =
     (let r1 = update_receipt i (\<lambda>e. e\<lparr>cm_settled := True\<rparr>) r;
          r2 = (if not_submitted reply then r1\<lparr>rs_entries := js_delete (cm_key (rs_objects r ! i)) (rs_entries r1)\<rparr> else r1)
      in case reply_turn reply of
           None \<Rightarrow> r2
         | Some turn \<Rightarrow> update_receipt i (\<lambda>e. e\<lparr>cm_turnId := Some turn\<rparr>) r2)"

definition command_threw :: "nat \<Rightarrow> command_receipts \<Rightarrow> command_receipts" where
  "command_threw i r = update_receipt i (\<lambda>e. e\<lparr>cm_settled := True\<rparr>) r"

datatype command_event =
    CommandRuns string "(string \<times> json) list"
  | CommandReplies nat host_reply
  | CommandThrows nat

text \<open>A result settles once.\<close>

definition in_flight :: "command_receipts \<Rightarrow> nat \<Rightarrow> bool" where
  "in_flight r i = (i < length (rs_objects r) \<and> \<not> cm_settled (rs_objects r ! i))"

fun receipts_step :: "(string \<Rightarrow> string) \<Rightarrow> command_receipts \<Rightarrow> command_event \<Rightarrow> command_receipts" where
  "receipts_step sha256 r (CommandRuns key params) = snd (run_command sha256 key params r)"
| "receipts_step sha256 r (CommandReplies i reply) = (if in_flight r i then command_replied i reply r else r)"
| "receipts_step sha256 r (CommandThrows i) = (if in_flight r i then command_threw i r else r)"

end
