(* ===== verification/CommandReceiptsProps.thy ===== *)
theory CommandReceiptsProps
  imports CommandReceipts "HOL-Library.Multiset"
begin

text \<open>
  A command is submitted once: while its outcome is unknown or was a success, the same message id never
  submits again.
\<close>

definition receipts_ok :: "command_receipts \<Rightarrow> bool" where
  "receipts_ok r =
     (distinct (js_keys (rs_entries r)) \<and> length (rs_entries r) \<le> 256 \<and>
      (\<forall>k i. js_get (rs_entries r) k = Some i \<longrightarrow> i < length (rs_objects r) \<and> cm_key (rs_objects r ! i) = k) \<and>
      (\<forall>i. in_flight r i \<longrightarrow> js_get (rs_entries r) (cm_key (rs_objects r ! i)) = Some i))"

lemma update_receipt_fields [simp]:
  "rs_entries (update_receipt i f r) = rs_entries r" "length (rs_objects (update_receipt i f r)) = length (rs_objects r)"
  by (simp_all add: update_receipt_def)

lemma update_receipt_at:
  "i < length (rs_objects r) \<Longrightarrow> rs_objects (update_receipt i f r) ! j = (if j = i then f (rs_objects r ! i) else rs_objects r ! j)"
  by (simp add: update_receipt_def nth_list_update)

lemma receipts_okI:
  assumes "receipts_ok r" "rs_entries r' = rs_entries r" "length (rs_objects r') = length (rs_objects r)"
    and "\<And>j. cm_key (rs_objects r' ! j) = cm_key (rs_objects r ! j)" "\<And>j. in_flight r' j \<Longrightarrow> in_flight r j"
  shows "receipts_ok r'"
  using assms unfolding receipts_ok_def by simp

lemma update_receipt_ok:
  assumes "receipts_ok r" "i < length (rs_objects r)" "\<And>e. cm_key (f e) = cm_key e" "\<And>e. cm_settled e \<Longrightarrow> cm_settled (f e)"
  shows "receipts_ok (update_receipt i f r)"
proof (rule receipts_okI [OF assms(1)])
  show "cm_key (rs_objects (update_receipt i f r) ! j) = cm_key (rs_objects r ! j)" for j
    using assms(2,3) by (simp add: update_receipt_at)
  show "in_flight r j" if "in_flight (update_receipt i f r) j" for j
    using that assms(2,4) by (auto simp: in_flight_def update_receipt_at split: if_splits)
qed simp_all

lemma delete_settled_ok:
  assumes "receipts_ok r" "\<And>i. js_get (rs_entries r) k = Some i \<Longrightarrow> \<not> in_flight r i"
  shows "receipts_ok (r\<lparr>rs_entries := js_delete k (rs_entries r)\<rparr>)"
proof -
  have "length (js_delete k (rs_entries r)) \<le> 256"
    using assms(1) length_delete_le [of k "rs_entries r"] by (simp add: receipts_ok_def)
  moreover have "cm_key (rs_objects r ! j) \<noteq> k" if "in_flight r j" for j
    using assms that unfolding receipts_ok_def by blast
  moreover have "js_get (rs_entries r) k' = Some i \<Longrightarrow> i < length (rs_objects r) \<and> cm_key (rs_objects r ! i) = k'" for k' i
    using assms(1) unfolding receipts_ok_def by blast
  moreover have "in_flight r j \<Longrightarrow> js_get (rs_entries r) (cm_key (rs_objects r ! j)) = Some j" for j
    using assms(1) unfolding receipts_ok_def by blast
  moreover have "distinct (js_keys (js_delete k (rs_entries r)))" using assms(1) by (simp add: receipts_ok_def)
  moreover have "in_flight (r\<lparr>rs_entries := m\<rparr>) j = in_flight r j" for m j by (simp add: in_flight_def)
  ultimately show ?thesis
    unfolding receipts_ok_def by simp
qed

lemma submit_ok:
  assumes "receipts_ok r" "length (rs_entries r) < 256" "js_get (rs_entries r) key = None" "cm_key entry = key"
    "\<not> cm_settled entry"
  shows "receipts_ok (snd (submit_command key entry r))"
proof -
  have absent: "key \<notin> set (js_keys (rs_entries r))" using assms(3) by (simp add: map_of_eq_None_iff)
  have "length (js_set key (length (rs_objects r)) (rs_entries r)) \<le> 256"
    using js_set_absent [OF absent] assms(2) by simp
  moreover have "cm_key (rs_objects r ! i) \<noteq> key" if "in_flight r i" for i
    using assms(1,3) that unfolding receipts_ok_def by force
  ultimately show ?thesis
    using assms unfolding receipts_ok_def in_flight_def submit_command_def
    by (auto simp: nth_append less_Suc_eq)
qed

lemma oldest_settled_Some:
  assumes "receipts_ok r" "oldest_settled r = Some k"
  obtains i where "js_get (rs_entries r) k = Some i" "\<not> in_flight r i"
  using assms unfolding oldest_settled_def receipts_ok_def in_flight_def
  by (auto simp: find_Some_iff js_mem_get) (metis js_mem_get nth_mem)

lemma run_command_ok: "receipts_ok r \<Longrightarrow> receipts_ok (snd (run_command sha256 key params r))"
proof -
  assume ok: "receipts_ok r"
  show ?thesis
  proof (cases "js_get (rs_entries r) key")
    case None
    show ?thesis
    proof (cases "256 \<le> length (rs_entries r)")
      case False
      then show ?thesis using ok None submit_ok by (simp add: run_command_def Let_def new_receipt_def)
    next
      case full: True
      show ?thesis
      proof (cases "oldest_settled r")
        case old: (Some k)
        obtain i where i: "js_get (rs_entries r) k = Some i" "\<not> in_flight r i"
          by (rule oldest_settled_Some [OF ok old])
        let ?r = "r\<lparr>rs_entries := js_delete k (rs_entries r)\<rparr>"
        have "length (js_delete k (rs_entries r)) < length (rs_entries r)"
          using js_get_mem [OF i(1)] unfolding AList.delete_eq by (intro length_filter_less [of "(k, i)"]) auto
        moreover have "length (rs_entries r) \<le> 256" using ok by (simp add: receipts_ok_def)
        moreover have "receipts_ok ?r" using i by (intro delete_settled_ok [OF ok]) simp
        ultimately show ?thesis
          using full None old submit_ok [of ?r key] by (simp add: run_command_def Let_def new_receipt_def)
      qed (use ok full None in \<open>simp add: run_command_def Let_def\<close>)
    qed
  qed (use ok in \<open>simp add: run_command_def Let_def\<close>)
qed

lemma command_replied_ok:
  assumes "receipts_ok r" "in_flight r i"
  shows "receipts_ok (command_replied i reply r)"
proof -
  have i: "i < length (rs_objects r)" using assms(2) by (simp add: in_flight_def)
  define r1 where "r1 = update_receipt i (\<lambda>e. e\<lparr>cm_settled := True\<rparr>) r"
  have r1: "receipts_ok r1" "i < length (rs_objects r1)" "\<not> in_flight r1 i"
    using update_receipt_ok [OF assms(1) i] i by (simp_all add: r1_def in_flight_def update_receipt_at)
  have "js_get (rs_entries r1) (cm_key (rs_objects r ! i)) = Some j \<Longrightarrow> \<not> in_flight r1 j" for j
    using assms r1(3) by (simp add: r1_def receipts_ok_def)
  then have "receipts_ok (r1\<lparr>rs_entries := js_delete (cm_key (rs_objects r ! i)) (rs_entries r1)\<rparr>)"
    using delete_settled_ok [OF r1(1)] by blast
  then show ?thesis
    using r1(1,2) update_receipt_ok
    by (auto simp: command_replied_def Let_def r1_def [symmetric] split: option.splits)
qed

lemma receipts_step_ok: "receipts_ok r \<Longrightarrow> receipts_ok (receipts_step sha256 r e)"
  by (cases e) (auto simp: run_command_ok command_replied_ok command_threw_def in_flight_def intro: update_receipt_ok)

interpretation client_receipts: machine "receipts_step sha256" receipts_ok
  by unfold_locales (rule receipts_step_ok)

definition receipts_run :: "(string \<Rightarrow> string) \<Rightarrow> command_event list \<Rightarrow> command_receipts" where
  "receipts_run sha256 es = foldl (receipts_step sha256) no_receipts es"

lemma receipts_run_ok: "receipts_ok (receipts_run sha256 es)"
  unfolding receipts_run_def
  by (rule client_receipts.run_inv) (simp add: receipts_ok_def no_receipts_def in_flight_def)


subsection \<open>Order of members\<close>

lemma insert_member_commute:
  "k \<noteq> k' \<Longrightarrow> insert_member k v (insert_member k' v' kvs) = insert_member k' v' (insert_member k v kvs)"
proof (induction kvs)
  case (Cons kv kvs)
  then show ?case
    using str_less_linear [of k k'] by (cases kv) (auto dest: str_less_trans)
next
  case Nil
  then show ?case using str_less_linear [of k k'] by (auto dest: str_less_trans)
qed

lemma canonical_members_fold:
  "canonical_members kvs = fold (\<lambda>(k, v). insert_member k (canonical v)) (rev kvs) []"
  by (induction kvs) auto

text \<open>The order of the members of the parameters does not matter.\<close>

lemma command_fingerprint_order:
  assumes "mset params = mset params'" "distinct (List.map fst params)"
  shows "command_fingerprint sha256 params = command_fingerprint sha256 params'"
proof -
  let ?f = "\<lambda>(k, v). insert_member k (canonical v)"
  have "fold ?f (rev params) = fold ?f (rev params')"
  proof (rule fold_multiset_equiv)
    fix x y assume "x \<in> set (rev params)" "y \<in> set (rev params)"
    then have "x = y \<or> fst x \<noteq> fst y" using assms(2) by (auto simp: distinct_map inj_on_def)
    then show "?f x \<circ> ?f y = ?f y \<circ> ?f x"
      by (auto simp: fun_eq_iff insert_member_commute split: prod.splits)
  qed (use assms(1) in simp)
  then show ?thesis by (simp add: command_fingerprint_def canonical_members_fold)
qed

subsection \<open>Submitting\<close>

definition flying_keys :: "command_receipts \<Rightarrow> string list" where
  "flying_keys r = List.map (\<lambda>i. cm_key (rs_objects r ! i)) (filter (in_flight r) [0..<length (rs_objects r)])"

text \<open>
  C19. Whatever commands are run and however they end: of each message id at most one call is in flight, at most
  256 are remembered, and a further call with an id is submitted only when the earlier one is no longer in
  flight; otherwise nothing changes.
\<close>

theorem command_submitted_once:
  "distinct (flying_keys (receipts_run sha256 es)) \<and> length (rs_entries (receipts_run sha256 es)) \<le> 256 \<and>
   (if length (rs_objects (receipts_run sha256 (es @ [CommandRuns key params]))) = Suc (length (rs_objects (receipts_run sha256 es)))
    then key \<notin> set (flying_keys (receipts_run sha256 es))
    else receipts_run sha256 (es @ [CommandRuns key params]) = receipts_run sha256 es)"
proof -
  define r where "r = receipts_run sha256 es"
  have ok: "receipts_ok r" unfolding r_def by (rule receipts_run_ok)
  have step: "receipts_run sha256 (es @ [CommandRuns key params]) = snd (run_command sha256 key params r)"
    by (simp add: receipts_run_def r_def)
  have inj: "i = j" if "in_flight r i" "in_flight r j" "cm_key (rs_objects r ! i) = cm_key (rs_objects r ! j)" for i j
    using ok that unfolding receipts_ok_def by (metis option.inject)
  then have "distinct (flying_keys r)"
    unfolding flying_keys_def distinct_map by (auto simp: inj_on_def)
  moreover have "length (rs_entries r) \<le> 256" using ok by (simp add: receipts_ok_def)
  moreover have "if length (rs_objects (snd (run_command sha256 key params r))) = Suc (length (rs_objects r))
    then key \<notin> set (flying_keys r) else snd (run_command sha256 key params r) = r"
  proof (cases "js_get (rs_entries r) key")
    case None
    then have "key \<notin> set (flying_keys r)" using ok by (auto simp: flying_keys_def receipts_ok_def)
    then show ?thesis by (auto simp: run_command_def submit_command_def Let_def None split: option.splits)
  next
    case (Some i)
    then show ?thesis by (simp add: run_command_def Let_def)
  qed
  ultimately show ?thesis unfolding step r_def [symmetric] by blast
qed

end
