(* ===== verification/ExternalSteering.thy ===== *)
theory ExternalSteering
  imports JsonText
begin

text \<open>
  Steering of External Turns: \<open>packages/host-runtime/src/external-turn-steering.ts\<close>. A call is a number; it is
  suspended at a promise or a race of promises, whose first settlement is kept until the call continues, and
  everything may happen in between. A reservation is the call that made it and whether it stands for a
  capability read (else for a replacement). What the Session, the insertion and the start of a Turn answer
  comes in events; the text of an input, and whether it is a Harness command, are arguments.
\<close>

subsection \<open>Inputs\<close>

datatype steer_error = SteerError int string | SteerNotTaken string | SteerOther string

datatype steer_delivery = ActiveTurn | NewTurn

record steer_input =
  si_expectedTurnId :: string
  si_clientUserMessageId :: "string option"
  si_text :: string
  si_delivery :: "steer_delivery option"

text \<open>What the Host is given about a Thread: its Session's commands and capabilities.\<close>

record steer_config =
  sc_inputText :: "json option \<Rightarrow> string + string"
  sc_isCommand :: "string \<Rightarrow> string \<Rightarrow> bool"
  sc_readsCapabilities :: "string \<Rightarrow> bool"
  sc_steer :: "string \<Rightarrow> bool"

definition nullish :: "json option \<Rightarrow> bool" where
  "nullish v = (v = None \<or> v = Some JNull)"

definition parse_delivery :: "json option \<Rightarrow> steer_error + steer_delivery option" where
  "parse_delivery v =
     (if nullish v then Inr None
      else if v = Some (JStr ''activeTurn'') then Inr (Some ActiveTurn)
      else if v = Some (JStr ''newTurn'') then Inr (Some NewTurn)
      else Inl (SteerError (-32602) ''External steering delivery is invalid''))"

definition parse_message_id :: "json option \<Rightarrow> steer_error + string option" where
  "parse_message_id v =
     (if nullish v then Inr None
      else case v of
        Some (JStr s) \<Rightarrow>
          if nonblank s then Inr (Some s) else Inl (SteerError (-32602) ''External steering message identity is invalid'')
      | _ \<Rightarrow> Inl (SteerError (-32602) ''External steering message identity is invalid''))"

definition parseInput :: "steer_config \<Rightarrow> (string \<times> json) list \<Rightarrow> steer_error + steer_input" where
  "parseInput c params =
     (case map_of params ''expectedTurnId'' of
        Some (JStr turn) \<Rightarrow>
          if \<not> nonblank turn then Inl (SteerError (-32602) ''External steering requires expectedTurnId'')
          else (case sc_inputText c (map_of params ''input'') of
                  Inl message \<Rightarrow> Inl (SteerError (-32602) message)
                | Inr text \<Rightarrow>
                    bindE (parse_message_id (map_of params ''clientUserMessageId'')) (\<lambda>clientId.
                    bindE (parse_delivery (map_of params ''codexhostSteerDelivery'')) (\<lambda>delivery.
                    Inr \<lparr>si_expectedTurnId = turn, si_clientUserMessageId = clientId, si_text = text, si_delivery = delivery\<rparr>)))
      | _ \<Rightarrow> Inl (SteerError (-32602) ''External steering requires expectedTurnId''))"

text \<open>\<open>None\<close>: the Session is asked first.\<close>

definition externalSteeringDelivery :: "steer_config \<Rightarrow> string \<Rightarrow> string option \<Rightarrow> steer_delivery option" where
  "externalSteeringDelivery c thread text =
     (if (case text of None \<Rightarrow> False | Some t \<Rightarrow> sc_isCommand c thread t) then Some NewTurn
      else if sc_readsCapabilities c thread then None
      else Some (if sc_steer c thread then ActiveTurn else NewTurn))"

definition chosen_delivery :: "steer_config \<Rightarrow> string \<Rightarrow> steer_input \<Rightarrow> steer_delivery option" where
  "chosen_delivery c thread i =
     (if si_delivery i = Some NewTurn \<or> sc_isCommand c thread (si_text i) then Some NewTurn
      else case si_delivery i of Some d \<Rightarrow> Some d | None \<Rightarrow> externalSteeringDelivery c thread None)"

subsection \<open>State\<close>

datatype turn_end = EndSucceeded | EndCancelled | EndFailed string

datatype cancel_answer = CancelAccepted | CancelInvalidState | CancelRefused string | CancelThrew string

datatype insert_answer = InsertTaken | InsertNotTaken string | InsertFailed string

datatype steer_won =
    WonMode steer_delivery
  | WonInsert insert_answer
  | WonCancel cancel_answer
  | WonTerminal turn_end
  | WonFailure steer_error

text \<open>
  Where a call is; the flag of the last two tells a Turn started directly, because the previous one had ended by
  itself, from a replacement.
\<close>

datatype steer_phase =
    AwaitCapability
  | AwaitInsert
  | AwaitCancel
  | AwaitTerminal
  | AwaitStart bool
  | AwaitStarted bool
  | SteerDelivered steer_delivery
  | SteerFailed steer_error

record steer_op =
  so_thread :: string
  so_input :: steer_input
  so_fingerprint :: string
  so_phase :: steer_phase
  so_failure :: "steer_error option"
  so_terminal :: "turn_end option"
  so_won :: "steer_won option"

record steer_receipt =
  sr_fingerprint :: string
  sr_op :: nat
  sr_settled :: bool

record steer_thread =
  sh_running :: bool
  sh_activeTurnId :: "string option"
  sh_persistenceError :: bool

datatype steer_action = DidCancel nat string | DidInsert nat string | DidRefuse nat | DidStart nat

record steering =
  sg_threads :: "string \<Rightarrow> steer_thread"
  sg_pending :: "(string, nat \<times> bool) jsmap"
  sg_receipts :: "(string, steer_receipt) jsmap"
  sg_closed :: bool
  sg_ops :: "steer_op list"
  sg_log :: "steer_action list"

definition hasPending :: "steering \<Rightarrow> string option \<Rightarrow> bool" where
  "hasPending g thread = (case thread of None \<Rightarrow> sg_pending g \<noteq> [] | Some h \<Rightarrow> js_has (sg_pending g) h)"

abbreviation op_of :: "steering \<Rightarrow> nat \<Rightarrow> steer_op" where
  "op_of g i \<equiv> sg_ops g ! i"

abbreviation thread_of :: "steering \<Rightarrow> nat \<Rightarrow> steer_thread" where
  "thread_of g i \<equiv> sg_threads g (so_thread (op_of g i))"

definition set_op :: "nat \<Rightarrow> (steer_op \<Rightarrow> steer_op) \<Rightarrow> steering \<Rightarrow> steering" where
  "set_op i f g = g\<lparr>sg_ops := (sg_ops g)[i := f (op_of g i)]\<rparr>"

definition log_action :: "steer_action \<Rightarrow> steering \<Rightarrow> steering" where
  "log_action a g = g\<lparr>sg_log := sg_log g @ [a]\<rparr>"

text \<open>The call reaches its next promise.\<close>

definition enter :: "nat \<Rightarrow> steer_phase \<Rightarrow> steering \<Rightarrow> steering" where
  "enter i ph g = set_op i (\<lambda>x. x\<lparr>so_phase := ph, so_won := None\<rparr>) g"

subsection \<open>Receipts and the end of a call\<close>

definition receipt_key :: "string \<Rightarrow> steer_input \<Rightarrow> string option" where
  "receipt_key thread i =
     (case truthy (si_clientUserMessageId i) of None \<Rightarrow> None | Some m \<Rightarrow> Some (thread @ [CHR 0x00] @ m))"

definition steer_fingerprint :: "steer_input \<Rightarrow> json option \<Rightarrow> string" where
  "steer_fingerprint i raw =
     json_text (JArr [JStr (si_expectedTurnId i), case raw of None \<Rightarrow> JNull | Some v \<Rightarrow> v])"

fun evict_settled :: "nat \<Rightarrow> (string, steer_receipt) jsmap \<Rightarrow> (string, steer_receipt) jsmap" where
  "evict_settled 0 m = m"
| "evict_settled (Suc n) m =
     (if length m \<le> 128 then m
      else case List.find (\<lambda>(k, r). sr_settled r) m of
             None \<Rightarrow> m
           | Some (oldest, r) \<Rightarrow> evict_settled n (js_delete oldest m))"

definition receipt_settles :: "nat \<Rightarrow> steering \<Rightarrow> steering" where
  "receipt_settles i g =
     (case receipt_key (so_thread (op_of g i)) (so_input (op_of g i)) of
        None \<Rightarrow> g
      | Some key \<Rightarrow>
          (case js_get (sg_receipts g) key of
             Some r \<Rightarrow>
               if sr_op r = i
               then (let m = js_set key (r\<lparr>sr_settled := True\<rparr>) (sg_receipts g)
                     in g\<lparr>sg_receipts := evict_settled (length m) m\<rparr>)
               else g
           | None \<Rightarrow> g))"

definition receipt_fails :: "nat \<Rightarrow> steering \<Rightarrow> steering" where
  "receipt_fails i g =
     (case receipt_key (so_thread (op_of g i)) (so_input (op_of g i)) of
        None \<Rightarrow> g
      | Some key \<Rightarrow> g\<lparr>sg_receipts := js_delete key (sg_receipts g)\<rparr>)"

text \<open>\<open>finally\<close>: the call's own reservation goes.\<close>

definition release :: "nat \<Rightarrow> steering \<Rightarrow> steering" where
  "release i g =
     (case js_get (sg_pending g) (so_thread (op_of g i)) of
        Some (j, stage) \<Rightarrow> if j = i then g\<lparr>sg_pending := js_delete (so_thread (op_of g i)) (sg_pending g)\<rparr> else g
      | None \<Rightarrow> g)"

definition finish_failed :: "nat \<Rightarrow> steer_error \<Rightarrow> steering \<Rightarrow> steering" where
  "finish_failed i e g = receipt_fails i (enter i (SteerFailed e) (release i g))"

definition finish_delivered :: "nat \<Rightarrow> steer_delivery \<Rightarrow> steering \<Rightarrow> steering" where
  "finish_delivered i d g = receipt_settles i (enter i (SteerDelivered d) (release i g))"

subsection \<open>Delivering\<close>

definition closed_error :: steer_error where
  "closed_error = SteerError (-32074) ''External steering connection is closed''"

definition busy_error :: steer_error where
  "busy_error = SteerError (-32072) ''External Thread is already changing direction''"

text \<open>The first part of \<open>#replace\<close>, up to its first promise.\<close>

definition replace_turn :: "nat \<Rightarrow> string \<Rightarrow> steering \<Rightarrow> steering" where
  "replace_turn i turn g =
     log_action (DidCancel i turn)
       (set_op i (\<lambda>x. x\<lparr>so_phase := AwaitCancel, so_won := None, so_failure := None, so_terminal := None\<rparr>)
          (g\<lparr>sg_pending := js_set (so_thread (op_of g i)) (i, False) (sg_pending g)\<rparr>))"

definition deliver :: "steer_delivery \<Rightarrow> nat \<Rightarrow> steering \<Rightarrow> steer_error + steering" where
  "deliver mode i g =
     (if sg_closed g \<or> \<not> sh_running (thread_of g i) \<or>
         sh_activeTurnId (thread_of g i) \<noteq> Some (si_expectedTurnId (so_input (op_of g i)))
      then Inl (SteerError (-32074) ''External steering target is no longer active'')
      else if hasPending g (Some (so_thread (op_of g i))) then Inl busy_error
      else
        let turn = si_expectedTurnId (so_input (op_of g i))
        in if mode = NewTurn
           then if turn = [] then Inl (SteerError (-32074) ''External steering must reference the active Turn'')
                else Inr (replace_turn i turn g)
           else Inr (log_action (DidInsert i turn) (enter i AwaitInsert g)))"

definition deliver_or_fail :: "steer_delivery \<Rightarrow> nat \<Rightarrow> steering \<Rightarrow> steering" where
  "deliver_or_fail mode i g = (case deliver mode i g of Inl e \<Rightarrow> finish_failed i e g | Inr g' \<Rightarrow> g')"

datatype steer_answer = SteerPromise nat | SteerRejected steer_error

definition add_receipt :: "string \<Rightarrow> steer_input \<Rightarrow> string \<Rightarrow> nat \<Rightarrow> steering \<Rightarrow> steering" where
  "add_receipt thread i fingerprint n g =
     (case receipt_key thread i of
        None \<Rightarrow> g
      | Some key \<Rightarrow>
          g\<lparr>sg_receipts := js_set key \<lparr>sr_fingerprint = fingerprint, sr_op = n, sr_settled = False\<rparr> (sg_receipts g)\<rparr>)"

definition new_steer :: "string \<Rightarrow> steer_input \<Rightarrow> string \<Rightarrow> steer_op" where
  "new_steer thread i fingerprint =
     \<lparr>so_thread = thread, so_input = i, so_fingerprint = fingerprint, so_phase = AwaitCapability, so_failure = None,
      so_terminal = None, so_won = None\<rparr>"

definition begin_steer ::
  "steer_config \<Rightarrow> string \<Rightarrow> steer_input \<Rightarrow> string \<Rightarrow> steering \<Rightarrow> steer_answer \<times> steering"
where
  "begin_steer c thread i fingerprint g =
     (let n = length (sg_ops g);
          g' = g\<lparr>sg_ops := sg_ops g @ [new_steer thread i fingerprint]\<rparr>
      in case chosen_delivery c thread i of
           Some mode \<Rightarrow>
             (case deliver mode n g' of
                Inl e \<Rightarrow> (SteerRejected e, g)
              | Inr g2 \<Rightarrow> (SteerPromise n, add_receipt thread i fingerprint n g2))
         | None \<Rightarrow>
             (SteerPromise n,
              add_receipt thread i fingerprint n (g'\<lparr>sg_pending := js_set thread (n, True) (sg_pending g')\<rparr>)))"

definition steer_run ::
  "steer_config \<Rightarrow> string \<Rightarrow> (string \<times> json) list \<Rightarrow> steering \<Rightarrow> steer_answer \<times> steering"
where
  "steer_run c thread params g =
     (case parseInput c params of
        Inl e \<Rightarrow> (SteerRejected e, g)
      | Inr i \<Rightarrow>
          if sg_closed g then (SteerRejected closed_error, g)
          else
            let fingerprint = steer_fingerprint i (map_of params ''input'')
            in case Option.bind (receipt_key thread i) (js_get (sg_receipts g)) of
                 Some r \<Rightarrow>
                   if sr_fingerprint r \<noteq> fingerprint
                   then (SteerRejected (SteerError (-32602)
                           ''External steering message identity was reused with different input''), g)
                   else (SteerPromise (sr_op r), g)
               | None \<Rightarrow>
                   if hasPending g (Some thread) then (SteerRejected busy_error, g)
                   else if \<not> sh_running (sg_threads g thread) \<or>
                           sh_activeTurnId (sg_threads g thread) \<noteq> Some (si_expectedTurnId i)
                   then (SteerRejected (SteerError (-32074) ''External steering must reference the active Turn''), g)
                   else begin_steer c thread i fingerprint g)"

subsection \<open>Answers and interruptions\<close>

text \<open>The first settlement of the race a call waits for.\<close>

definition settle_won :: "nat \<Rightarrow> steer_won \<Rightarrow> steering \<Rightarrow> steering" where
  "settle_won i w g = set_op i (\<lambda>x. if so_won x = None then x\<lparr>so_won := Some w\<rparr> else x) g"

definition in_phase :: "steering \<Rightarrow> nat \<Rightarrow> steer_phase \<Rightarrow> bool" where
  "in_phase g i ph = (i < length (sg_ops g) \<and> so_phase (op_of g i) = ph)"

definition capability_answers :: "nat \<Rightarrow> string + bool \<Rightarrow> steering \<Rightarrow> steering" where
  "capability_answers i answer g =
     (if in_phase g i AwaitCapability
      then settle_won i (case answer of Inl e \<Rightarrow> WonFailure (SteerOther e)
                         | Inr steer \<Rightarrow> WonMode (if steer then ActiveTurn else NewTurn)) g
      else g)"

definition insert_answers :: "nat \<Rightarrow> insert_answer \<Rightarrow> steering \<Rightarrow> steering" where
  "insert_answers i answer g = (if in_phase g i AwaitInsert then settle_won i (WonInsert answer) g else g)"

definition cancel_answers :: "nat \<Rightarrow> cancel_answer \<Rightarrow> steering \<Rightarrow> steering" where
  "cancel_answers i answer g = (if in_phase g i AwaitCancel then settle_won i (WonCancel answer) g else g)"

text \<open>A reservation is rejected: the first reason is kept, and a race still open is lost to it.\<close>

definition racing :: "steer_phase \<Rightarrow> bool" where
  "racing ph = (ph = AwaitCapability \<or> ph = AwaitCancel \<or> ph = AwaitTerminal)"

definition reject_op :: "nat \<Rightarrow> steer_error \<Rightarrow> steering \<Rightarrow> steering" where
  "reject_op i e g =
     (let g' = set_op i (\<lambda>x. if so_failure x = None then x\<lparr>so_failure := Some e\<rparr> else x) g
      in if racing (so_phase (op_of g i)) then settle_won i (WonFailure e) g' else g')"

definition steer_fault :: "string \<Rightarrow> steer_error \<Rightarrow> steering \<Rightarrow> steering" where
  "steer_fault thread e g =
     (case js_get (sg_pending g) thread of None \<Rightarrow> g | Some (i, stage) \<Rightarrow> reject_op i e g)"

definition steer_interrupt :: "string \<Rightarrow> string \<Rightarrow> steering \<Rightarrow> steering" where
  "steer_interrupt thread turn g =
     (case js_get (sg_pending g) thread of
        None \<Rightarrow> g
      | Some (i, stage) \<Rightarrow>
          if si_expectedTurnId (so_input (op_of g i)) = turn
          then steer_fault thread (SteerError (-32074) ''External replacement was stopped before starting'') g else g)"

definition steer_terminal :: "string \<Rightarrow> string \<Rightarrow> turn_end \<Rightarrow> steering \<Rightarrow> steering" where
  "steer_terminal thread turn outcome g =
     (case js_get (sg_pending g) thread of
        Some (i, False) \<Rightarrow>
          if si_expectedTurnId (so_input (op_of g i)) = turn
          then (let g' = set_op i (\<lambda>x. if so_terminal x = None then x\<lparr>so_terminal := Some outcome\<rparr> else x) g
                in if so_phase (op_of g i) = AwaitTerminal then settle_won i (WonTerminal outcome) g' else g')
          else g
      | _ \<Rightarrow> g)"

definition steer_timeout :: "nat \<Rightarrow> steering \<Rightarrow> steering" where
  "steer_timeout i g =
     (if in_phase g i AwaitCancel \<or> in_phase g i AwaitTerminal
      then reject_op i (SteerError (-32074)
             ''Timed out waiting for the previous External Turn to stop; replacement was not started'') g
      else g)"

definition steer_close :: "steering \<Rightarrow> steering" where
  "steer_close g =
     (fold (\<lambda>(thread, i, stage). reject_op i
              (SteerError (-32074) ''External steering connection closed before replacement''))
        (sg_pending g) (g\<lparr>sg_closed := True\<rparr>))\<lparr>sg_receipts := []\<rparr>"

subsection \<open>Going on\<close>

definition continue_capability :: "nat \<Rightarrow> steer_won \<Rightarrow> steering \<Rightarrow> steering" where
  "continue_capability i w g =
     (case w of
        WonMode mode \<Rightarrow>
          (case so_failure (op_of g i) of
             Some e \<Rightarrow> finish_failed i e g
           | None \<Rightarrow> deliver_or_fail mode i (release i g))
      | WonFailure e \<Rightarrow> finish_failed i e g
      | _ \<Rightarrow> g)"

definition continue_insert :: "nat \<Rightarrow> steer_won \<Rightarrow> steering \<Rightarrow> steering" where
  "continue_insert i w g =
     (case w of
        WonInsert InsertTaken \<Rightarrow> finish_delivered i ActiveTurn g
      | WonInsert (InsertFailed e) \<Rightarrow> finish_failed i (SteerOther e) g
      | WonInsert (InsertNotTaken e) \<Rightarrow>
          (let g' = log_action (DidRefuse i) g
           in if si_delivery (so_input (op_of g i)) = Some ActiveTurn then finish_failed i (SteerNotTaken e) g'
              else if sh_running (thread_of g i) \<or> truthy (sh_activeTurnId (thread_of g i)) \<noteq> None
              then deliver_or_fail NewTurn i g'
              else enter i (AwaitStart True) g')
      | _ \<Rightarrow> g)"

definition continue_cancel :: "nat \<Rightarrow> steer_won \<Rightarrow> steering \<Rightarrow> steering" where
  "continue_cancel i w g =
     (case w of
        WonFailure e \<Rightarrow> finish_failed i e g
      | WonCancel (CancelThrew e) \<Rightarrow> finish_failed i (SteerOther e) g
      | WonCancel (CancelRefused e) \<Rightarrow> finish_failed i (SteerError (-32074) e) g
      | WonCancel _ \<Rightarrow>
          set_op i (\<lambda>x. x\<lparr>so_phase := AwaitTerminal,
                        so_won := (case so_terminal x of Some outcome \<Rightarrow> Some (WonTerminal outcome)
                                   | None \<Rightarrow> map_option WonFailure (so_failure x))\<rparr>) g
      | _ \<Rightarrow> g)"

text \<open>\<open>assertActive\<close> of a replacement (\<open>False\<close>) and of a direct start.\<close>

definition assert_active :: "nat \<Rightarrow> bool \<Rightarrow> steering \<Rightarrow> steer_error option" where
  "assert_active i direct g =
     (if \<not> direct \<and> so_failure (op_of g i) \<noteq> None then so_failure (op_of g i)
      else if sg_closed g then Some closed_error else None)"

definition continue_terminal :: "nat \<Rightarrow> steer_won \<Rightarrow> steering \<Rightarrow> steering" where
  "continue_terminal i w g =
     (case w of
        WonFailure e \<Rightarrow> finish_failed i e g
      | WonTerminal outcome \<Rightarrow>
          (case assert_active i False g of
             Some e \<Rightarrow> finish_failed i e g
           | None \<Rightarrow>
               (case outcome of
                  EndFailed message \<Rightarrow> finish_failed i (SteerError (-32074) message) g
                | _ \<Rightarrow>
                    if sh_persistenceError (thread_of g i)
                    then finish_failed i (SteerError (-32074) ''Previous External Turn identity could not be persisted'') g
                    else if sh_running (thread_of g i) \<or> truthy (sh_activeTurnId (thread_of g i)) \<noteq> None
                    then finish_failed i (SteerError (-32072) ''Another External Turn started before replacement'') g
                    else enter i (AwaitStart False) g))
      | _ \<Rightarrow> g)"

definition steer_continue :: "nat \<Rightarrow> steering \<Rightarrow> steering" where
  "steer_continue i g =
     (if i < length (sg_ops g)
      then case so_won (op_of g i) of
             None \<Rightarrow> g
           | Some w \<Rightarrow>
               (case so_phase (op_of g i) of
                  AwaitCapability \<Rightarrow> continue_capability i w g
                | AwaitInsert \<Rightarrow> continue_insert i w g
                | AwaitCancel \<Rightarrow> continue_cancel i w g
                | AwaitTerminal \<Rightarrow> continue_terminal i w g
                | _ \<Rightarrow> g)
      else g)"

text \<open>\<open>start\<close> calls \<open>assertActive\<close> right before it begins the Turn; it may fail before and after.\<close>

definition steer_execute :: "nat \<Rightarrow> steering \<Rightarrow> steering" where
  "steer_execute i g =
     (if i < length (sg_ops g)
      then case so_phase (op_of g i) of
             AwaitStart direct \<Rightarrow>
               (case assert_active i direct g of
                  Some e \<Rightarrow> finish_failed i e g
                | None \<Rightarrow> log_action (DidStart i) (enter i (AwaitStarted direct) g))
           | _ \<Rightarrow> g
      else g)"

definition start_settles :: "nat \<Rightarrow> string option \<Rightarrow> steering \<Rightarrow> steering" where
  "start_settles i err g =
     (if i < length (sg_ops g)
      then case (so_phase (op_of g i), err) of
             (AwaitStart direct, Some e) \<Rightarrow> finish_failed i (SteerOther e) g
           | (AwaitStarted direct, Some e) \<Rightarrow> finish_failed i (SteerOther e) g
           | (AwaitStarted direct, None) \<Rightarrow> finish_delivered i NewTurn g
           | _ \<Rightarrow> g
      else g)"

datatype steer_event =
    SteerRuns string "(string \<times> json) list"
  | ThreadChanges string steer_thread
  | CapabilityAnswers nat "string + bool"
  | InsertAnswers nat insert_answer
  | CancelAnswers nat cancel_answer
  | TurnEnds string string turn_end
  | SteerInterrupts string string
  | SteerFaults string string
  | SteerTimesOut nat
  | SteerCloses
  | SteerContinues nat
  | StartExecutes nat
  | StartSettles nat "string option"

fun steer_step :: "steer_config \<Rightarrow> steering \<Rightarrow> steer_event \<Rightarrow> steering" where
  "steer_step c g (SteerRuns thread params) = snd (steer_run c thread params g)"
| "steer_step c g (ThreadChanges thread s) = g\<lparr>sg_threads := (sg_threads g)(thread := s)\<rparr>"
| "steer_step c g (CapabilityAnswers i answer) = capability_answers i answer g"
| "steer_step c g (InsertAnswers i answer) = insert_answers i answer g"
| "steer_step c g (CancelAnswers i answer) = cancel_answers i answer g"
| "steer_step c g (TurnEnds thread turn outcome) = steer_terminal thread turn outcome g"
| "steer_step c g (SteerInterrupts thread turn) = steer_interrupt thread turn g"
| "steer_step c g (SteerFaults thread e) = steer_fault thread (SteerOther e) g"
| "steer_step c g (SteerTimesOut i) = steer_timeout i g"
| "steer_step c g SteerCloses = steer_close g"
| "steer_step c g (SteerContinues i) = steer_continue i g"
| "steer_step c g (StartExecutes i) = steer_execute i g"
| "steer_step c g (StartSettles i e) = start_settles i e g"

definition new_steering :: "(string \<Rightarrow> steer_thread) \<Rightarrow> steering" where
  "new_steering threads =
     \<lparr>sg_threads = threads, sg_pending = [], sg_receipts = [], sg_closed = False, sg_ops = [], sg_log = []\<rparr>"

end
