(* ===== verification/SteeringReserved.thy ===== *)
theory SteeringReserved
  imports ExternalSteering
begin

text \<open>
  Reservations: a Thread is reserved by exactly the call that asks its Session, stops its Turn or starts the
  replacement, so two changes of direction of one Thread never overlap.
\<close>

lemma set_op_fields [simp]:
  "sg_threads (set_op i f g) = sg_threads g" "sg_pending (set_op i f g) = sg_pending g"
  "sg_receipts (set_op i f g) = sg_receipts g" "sg_closed (set_op i f g) = sg_closed g"
  "length (sg_ops (set_op i f g)) = length (sg_ops g)" "sg_log (set_op i f g) = sg_log g"
  by (simp_all add: set_op_def)

lemma set_op_at: "i < length (sg_ops g) \<Longrightarrow> op_of (set_op i f g) j = (if j = i then f (op_of g i) else op_of g j)"
  by (simp add: set_op_def nth_list_update)

lemma log_action_fields [simp]:
  "sg_threads (log_action a g) = sg_threads g" "sg_pending (log_action a g) = sg_pending g"
  "sg_receipts (log_action a g) = sg_receipts g" "sg_closed (log_action a g) = sg_closed g"
  "sg_ops (log_action a g) = sg_ops g" "sg_log (log_action a g) = sg_log g @ [a]"
  by (simp_all add: log_action_def)

lemma release_fields [simp]:
  "sg_threads (release i g) = sg_threads g" "sg_receipts (release i g) = sg_receipts g"
  "sg_closed (release i g) = sg_closed g" "sg_ops (release i g) = sg_ops g" "sg_log (release i g) = sg_log g"
  by (auto simp: release_def split: option.splits prod.splits)

lemma receipt_settles_fields [simp]:
  "sg_threads (receipt_settles i g) = sg_threads g" "sg_pending (receipt_settles i g) = sg_pending g"
  "sg_closed (receipt_settles i g) = sg_closed g" "sg_ops (receipt_settles i g) = sg_ops g"
  "sg_log (receipt_settles i g) = sg_log g"
  by (auto simp: receipt_settles_def Let_def split: option.splits)

lemma receipt_fails_fields [simp]:
  "sg_threads (receipt_fails i g) = sg_threads g" "sg_pending (receipt_fails i g) = sg_pending g"
  "sg_closed (receipt_fails i g) = sg_closed g" "sg_ops (receipt_fails i g) = sg_ops g"
  "sg_log (receipt_fails i g) = sg_log g"
  by (auto simp: receipt_fails_def split: option.splits)

lemma enter_fields [simp]:
  "sg_threads (enter i ph g) = sg_threads g" "sg_pending (enter i ph g) = sg_pending g"
  "sg_receipts (enter i ph g) = sg_receipts g" "sg_closed (enter i ph g) = sg_closed g"
  "length (sg_ops (enter i ph g)) = length (sg_ops g)" "sg_log (enter i ph g) = sg_log g"
  by (simp_all add: enter_def)

lemma enter_at:
  "i < length (sg_ops g) \<Longrightarrow>
   op_of (enter i ph g) j = (if j = i then (op_of g i)\<lparr>so_phase := ph, so_won := None\<rparr> else op_of g j)"
  by (simp add: enter_def set_op_at)

lemma add_receipt_fields [simp]:
  "sg_threads (add_receipt h x f n g) = sg_threads g" "sg_pending (add_receipt h x f n g) = sg_pending g"
  "sg_closed (add_receipt h x f n g) = sg_closed g" "sg_ops (add_receipt h x f n g) = sg_ops g"
  "sg_log (add_receipt h x f n g) = sg_log g"
  by (auto simp: add_receipt_def split: option.splits)

lemma replace_turn_fields [simp]:
  "sg_threads (replace_turn i turn g) = sg_threads g"
  "sg_pending (replace_turn i turn g) = js_set (so_thread (op_of g i)) (i, False) (sg_pending g)"
  "sg_receipts (replace_turn i turn g) = sg_receipts g" "sg_closed (replace_turn i turn g) = sg_closed g"
  "length (sg_ops (replace_turn i turn g)) = length (sg_ops g)" "sg_log (replace_turn i turn g) = sg_log g @ [DidCancel i turn]"
  by (simp_all add: replace_turn_def)

lemma replace_turn_at:
  "i < length (sg_ops g) \<Longrightarrow> op_of (replace_turn i turn g) j =
     (if j = i then (op_of g i)\<lparr>so_phase := AwaitCancel, so_won := None, so_failure := None, so_terminal := None\<rparr> else op_of g j)"
  by (simp add: replace_turn_def set_op_def nth_list_update)

subsection \<open>The invariant\<close>

fun reserved :: "steer_phase \<Rightarrow> bool option" where
  "reserved AwaitCapability = Some True"
| "reserved AwaitCancel = Some False"
| "reserved AwaitTerminal = Some False"
| "reserved (AwaitStart direct) = (if direct then None else Some False)"
| "reserved (AwaitStarted direct) = (if direct then None else Some False)"
| "reserved _ = None"

definition holds :: "steering \<Rightarrow> nat \<Rightarrow> bool option" where
  "holds g i = reserved (so_phase (op_of g i))"

text \<open>All is well except that call \<open>i\<close>, wherever it is, has no reservation.\<close>

definition reserved_but :: "nat option \<Rightarrow> steering \<Rightarrow> bool" where
  "reserved_but e g =
     (distinct (js_keys (sg_pending g)) \<and>
      (\<forall>h i st. js_get (sg_pending g) h = Some (i, st) \<longrightarrow>
         Some i \<noteq> e \<and> i < length (sg_ops g) \<and> so_thread (op_of g i) = h \<and> holds g i = Some st) \<and>
      (\<forall>i < length (sg_ops g). \<forall>st. Some i \<noteq> e \<longrightarrow> holds g i = Some st \<longrightarrow>
         js_get (sg_pending g) (so_thread (op_of g i)) = Some (i, st)))"

abbreviation reserved_ok :: "steering \<Rightarrow> bool" where
  "reserved_ok g \<equiv> reserved_but None g"

lemma reserved_keys: "reserved_but e g \<Longrightarrow> distinct (js_keys (sg_pending g))"
  by (simp add: reserved_but_def)

lemma reserved_entry:
  "reserved_but e g \<Longrightarrow> js_get (sg_pending g) h = Some (i, st) \<Longrightarrow>
   Some i \<noteq> e \<and> i < length (sg_ops g) \<and> so_thread (op_of g i) = h \<and> holds g i = Some st"
  by (simp add: reserved_but_def)

lemma reserved_holder:
  "reserved_but e g \<Longrightarrow> i < length (sg_ops g) \<Longrightarrow> Some i \<noteq> e \<Longrightarrow> holds g i = Some st \<Longrightarrow>
   js_get (sg_pending g) (so_thread (op_of g i)) = Some (i, st)"
  by (simp add: reserved_but_def)

lemma reserved_butI:
  assumes "distinct (js_keys (sg_pending g))"
    and "\<And>h i st. js_get (sg_pending g) h = Some (i, st) \<Longrightarrow>
      Some i \<noteq> e \<and> i < length (sg_ops g) \<and> so_thread (op_of g i) = h \<and> holds g i = Some st"
    and "\<And>i st. i < length (sg_ops g) \<Longrightarrow> Some i \<noteq> e \<Longrightarrow> holds g i = Some st \<Longrightarrow>
      js_get (sg_pending g) (so_thread (op_of g i)) = Some (i, st)"
  shows "reserved_but e g"
  using assms by (simp add: reserved_but_def)

lemma reserved_weaken: "reserved_ok g \<Longrightarrow> holds g i = None \<Longrightarrow> reserved_but (Some i) g"
  unfolding reserved_but_def by force

lemma reserved_cong:
  assumes "reserved_but e g" "sg_pending g' = sg_pending g" "length (sg_ops g') = length (sg_ops g)"
    and "\<And>j. so_thread (op_of g' j) = so_thread (op_of g j)" "\<And>j. Some j \<noteq> e \<Longrightarrow> holds g' j = holds g j"
  shows "reserved_but e g'"
  using assms unfolding reserved_but_def by (metis (no_types, lifting))

lemma release_but:
  assumes "reserved_ok g \<or> reserved_but (Some i) g"
  shows "reserved_but (Some i) (release i g)"
proof (cases "reserved_but (Some i) g")
  case True
  then have "release i g = g" unfolding reserved_but_def release_def by (auto split: option.splits)
  then show ?thesis using True by simp
next
  case False
  then have ok: "reserved_ok g" using assms by simp
  show ?thesis
  proof (cases "js_get (sg_pending g) (so_thread (op_of g i))")
    case None
    then have "\<forall>h st. js_get (sg_pending g) h \<noteq> Some (i, st)" using ok unfolding reserved_but_def by force
    moreover have "release i g = g" using None by (simp add: release_def)
    ultimately show ?thesis using ok unfolding reserved_but_def by auto
  next
    case (Some p)
    obtain j st where p: "p = (j, st)" by (cases p)
    show ?thesis
    proof (cases "j = i")
      case True
      let ?h = "so_thread (op_of g i)"
      have r: "sg_pending (release i g) = js_delete ?h (sg_pending g)" using Some p True by (simp add: release_def)
      show ?thesis
      proof (rule reserved_butI)
        show "distinct (js_keys (sg_pending (release i g)))" using reserved_keys [OF ok] by (simp add: r)
      next
        fix h k st' assume k: "js_get (sg_pending (release i g)) h = Some (k, st')"
        then have "h \<noteq> ?h" "js_get (sg_pending g) h = Some (k, st')" by (auto simp: r split: if_splits)
        then show "Some k \<noteq> Some i \<and> k < length (sg_ops (release i g)) \<and> so_thread (op_of (release i g) k) = h \<and>
            holds (release i g) k = Some st'"
          using reserved_entry [OF ok, of h k st'] by (auto simp: holds_def)
      next
        fix k st' assume k: "k < length (sg_ops (release i g))" "Some k \<noteq> Some i" "holds (release i g) k = Some st'"
        then have get: "js_get (sg_pending g) (so_thread (op_of g k)) = Some (k, st')"
          using reserved_holder [OF ok, of k st'] by (simp add: holds_def)
        then have "so_thread (op_of g k) \<noteq> ?h" using Some p True k(2) by auto
        then show "js_get (sg_pending (release i g)) (so_thread (op_of (release i g) k)) = Some (k, st')"
          using get by (simp add: r)
      qed
    next
      case False
      have "\<forall>h st. js_get (sg_pending g) h \<noteq> Some (i, st)" using reserved_entry [OF ok] Some p False by force
      moreover have "release i g = g" using Some p False by (simp add: release_def)
      ultimately show ?thesis using ok unfolding reserved_but_def by auto
    qed
  qed
qed

lemma enter_reserved:
  assumes "reserved_but (Some i) g" "i < length (sg_ops g)" "reserved ph = None"
  shows "reserved_ok (enter i ph g)"
  using assms unfolding reserved_but_def holds_def by (auto simp: enter_at)

lemma finish_reserved:
  assumes "reserved_ok g \<or> reserved_but (Some i) g" "i < length (sg_ops g)"
  shows "reserved_ok (finish_failed i e g)" "reserved_ok (finish_delivered i d g)"
proof -
  have "reserved_ok (enter i (SteerFailed e) (release i g))" "reserved_ok (enter i (SteerDelivered d) (release i g))"
    using release_but [OF assms(1)] assms(2) by (intro enter_reserved; simp)+
  then show "reserved_ok (finish_failed i e g)" "reserved_ok (finish_delivered i d g)"
    unfolding finish_failed_def finish_delivered_def by (auto intro: reserved_cong simp: holds_def)
qed

lemma deliver_reserved:
  assumes "reserved_but (Some i) g" "i < length (sg_ops g)" "deliver mode i g = Inr g'"
  shows "reserved_ok g'"
proof -
  have free: "js_get (sg_pending g) (so_thread (op_of g i)) = None"
    using assms(3) unfolding deliver_def hasPending_def js_has_def
    by (cases "js_get (sg_pending g) (so_thread (op_of g i))") (auto split: if_splits)
  show ?thesis
  proof (cases "mode = NewTurn")
    case True
    then have g': "g' = replace_turn i (si_expectedTurnId (so_input (op_of g i))) g"
      using assms(3) by (auto simp: deliver_def Let_def split: if_splits)
    let ?h = "so_thread (op_of g i)"
    show ?thesis
    proof (rule reserved_butI)
      show "distinct (js_keys (sg_pending g'))" using reserved_keys [OF assms(1)] by (simp add: g')
    next
      fix h j st assume "js_get (sg_pending g') h = Some (j, st)"
      then show "Some j \<noteq> None \<and> j < length (sg_ops g') \<and> so_thread (op_of g' j) = h \<and> holds g' j = Some st"
        using reserved_entry [OF assms(1), of h j st] assms(2) by (auto simp: g' replace_turn_at holds_def split: if_splits)
    next
      fix j st assume j: "j < length (sg_ops g')" "holds g' j = Some st"
      show "js_get (sg_pending g') (so_thread (op_of g' j)) = Some (j, st)"
      proof (cases "j = i")
        case True
        then show ?thesis using j assms(2) by (simp add: g' replace_turn_at holds_def)
      next
        case False
        then have "js_get (sg_pending g) (so_thread (op_of g j)) = Some (j, st)"
          using reserved_holder [OF assms(1), of j st] j assms(2) by (simp add: g' replace_turn_at holds_def)
        then show ?thesis using free False assms(2) by (auto simp: g' replace_turn_at)
      qed
    qed
  next
    case False
    then have g': "g' = log_action (DidInsert i (si_expectedTurnId (so_input (op_of g i)))) (enter i AwaitInsert g)"
      using assms(3) by (auto simp: deliver_def Let_def split: if_splits)
    have "reserved_ok (enter i AwaitInsert g)" using assms by (intro enter_reserved) simp_all
    then show ?thesis unfolding g' by (auto intro: reserved_cong simp: holds_def)
  qed
qed

lemma deliver_or_fail_reserved:
  assumes "reserved_but (Some i) g" "i < length (sg_ops g)"
  shows "reserved_ok (deliver_or_fail mode i g)"
  using assms deliver_reserved finish_reserved(1)
  by (auto simp: deliver_or_fail_def split: sum.splits)


lemma set_op_reserved:
  assumes "reserved_ok g" "\<And>x. so_thread (f x) = so_thread x" "\<And>x. so_phase (f x) = so_phase x"
  shows "reserved_ok (set_op i f g)"
proof (rule reserved_cong [OF assms(1)])
  have at: "op_of (set_op i f g) j = (if j = i \<and> i < length (sg_ops g) then f (op_of g i) else op_of g j)" for j
    by (cases "i < length (sg_ops g)") (simp_all add: set_op_def nth_list_update list_update_beyond not_less)
  show "so_thread (op_of (set_op i f g) j) = so_thread (op_of g j)" "holds (set_op i f g) j = holds g j" for j
    unfolding holds_def at by (simp_all add: assms(2,3))
qed simp_all

lemma settle_reserved: "reserved_ok g \<Longrightarrow> reserved_ok (settle_won i w g)"
  unfolding settle_won_def by (rule set_op_reserved) auto

lemma reject_reserved: "reserved_ok g \<Longrightarrow> reserved_ok (reject_op i e g)"
  unfolding reject_op_def Let_def by (auto intro!: settle_reserved set_op_reserved)

lemma close_reserved: "reserved_ok g \<Longrightarrow> reserved_ok (steer_close g)"
proof -
  assume ok: "reserved_ok g"
  have "reserved_ok (fold (\<lambda>(thread, i, stage). reject_op i e) ps v)" if "reserved_ok v" for e v and ps :: "(string \<times> nat \<times> bool) list"
    using that by (induction ps arbitrary: v) (auto simp: reject_reserved)
  moreover have "reserved_ok (g\<lparr>sg_closed := True\<rparr>)" by (rule reserved_cong [OF ok]) (simp_all add: holds_def)
  ultimately have "reserved_ok (fold (\<lambda>(thread, i, stage). reject_op i e) (sg_pending g) (g\<lparr>sg_closed := True\<rparr>))" for e by blast
  then show ?thesis unfolding steer_close_def by (rule reserved_cong) (simp_all add: holds_def)
qed

lemma continue_reserved:
  assumes "reserved_ok g"
  shows "reserved_ok (steer_continue i g)"
proof (cases "i < length (sg_ops g) \<and> so_won (op_of g i) \<noteq> None")
  case False
  then show ?thesis using assms by (auto simp: steer_continue_def)
next
  case True
  then obtain w where i: "i < length (sg_ops g)" and w: "so_won (op_of g i) = Some w" by blast
  note finish = finish_reserved [OF disjI1 [OF assms] i]
  show ?thesis
  proof (cases "so_phase (op_of g i)")
    case AwaitCapability
    have "reserved_ok (deliver_or_fail mode i (release i g))" for mode
      using release_but [of g i] assms i by (intro deliver_or_fail_reserved) auto
    then show ?thesis using i w AwaitCapability finish assms
      by (auto simp: steer_continue_def continue_capability_def split: steer_won.splits option.splits)
  next
    case AwaitInsert
    let ?g = "log_action (DidRefuse i) g"
    have "reserved_but (Some i) g" using AwaitInsert assms by (intro reserved_weaken) (simp_all add: holds_def)
    then have but: "reserved_but (Some i) ?g" by (rule reserved_cong) (simp_all add: holds_def)
    then have "reserved_ok (finish_failed i e ?g)" "reserved_ok (deliver_or_fail mode i ?g)" "reserved_ok (enter i (AwaitStart True) ?g)"
      for e mode
      using i by (auto intro: finish_reserved deliver_or_fail_reserved enter_reserved)
    then show ?thesis using i w AwaitInsert finish assms
      by (auto simp: steer_continue_def continue_insert_def Let_def split: steer_won.splits insert_answer.splits)
  next
    case AwaitCancel
    have "reserved_ok (set_op i (\<lambda>x. x\<lparr>so_phase := AwaitTerminal, so_won := f x\<rparr>) g)" for f
      using AwaitCancel i by (intro reserved_cong [OF assms]) (auto simp: set_op_at holds_def)
    then show ?thesis using i w AwaitCancel finish assms
      by (auto simp: steer_continue_def continue_cancel_def split: steer_won.splits cancel_answer.splits)
  next
    case AwaitTerminal
    have "reserved_ok (enter i (AwaitStart False) g)"
      using AwaitTerminal i by (intro reserved_cong [OF assms]) (auto simp: enter_at holds_def)
    then show ?thesis using i w AwaitTerminal finish assms
      by (auto simp: steer_continue_def continue_terminal_def split: steer_won.splits option.splits turn_end.splits)
  qed (use assms i w in \<open>auto simp: steer_continue_def\<close>)
qed

lemma start_reserved:
  assumes "reserved_ok g"
  shows "reserved_ok (steer_execute i g)" "reserved_ok (start_settles i e g)"
proof -
  have "reserved_ok (log_action (DidStart i) (enter i (AwaitStarted direct) g))"
    if "i < length (sg_ops g)" "so_phase (op_of g i) = AwaitStart direct" for direct
    using that by (intro reserved_cong [OF assms]) (auto simp: enter_at holds_def)
  then show "reserved_ok (steer_execute i g)"
    using assms finish_reserved [OF disjI1 [OF assms]]
    by (auto simp: steer_execute_def split: steer_phase.splits option.splits)
  show "reserved_ok (start_settles i e g)"
    using assms finish_reserved [OF disjI1 [OF assms]]
    by (auto simp: start_settles_def split: steer_phase.splits option.splits)
qed

lemma begin_reserved:
  assumes "reserved_ok g" "\<not> hasPending g (Some thread)"
  shows "reserved_ok (snd (begin_steer c thread x f g))"
proof -
  let ?n = "length (sg_ops g)"
  define g' where "g' = g\<lparr>sg_ops := sg_ops g @ [new_steer thread x f]\<rparr>"
  have new: "op_of g' ?n = new_steer thread x f" and old: "j < ?n \<Longrightarrow> op_of g' j = op_of g j" for j
    by (simp_all add: g'_def nth_append)
  have entry: "Some i \<noteq> Some ?n \<and> i < length (sg_ops g') \<and> so_thread (op_of g' i) = h \<and> holds g' i = Some st"
    if "js_get (sg_pending g') h = Some (i, st)" for h i st
    using reserved_entry [OF assms(1), of h i st] that by (auto simp: holds_def g'_def nth_append)
  have holder: "js_get (sg_pending g') (so_thread (op_of g' i)) = Some (i, st)"
    if "i < length (sg_ops g')" "Some i \<noteq> Some ?n" "holds g' i = Some st" for i st
    using reserved_holder [OF assms(1), of i st] that by (auto simp: holds_def g'_def nth_append less_Suc_eq)
  have but: "reserved_but (Some ?n) g'"
    using reserved_keys [OF assms(1)] by (intro reserved_butI entry holder) (simp_all add: g'_def)
  have n: "?n < length (sg_ops g')" by (simp add: g'_def)
  have free: "js_get (sg_pending g') thread = None"
    using assms(2) by (cases "js_get (sg_pending g) thread") (simp_all add: hasPending_def js_has_def g'_def)
  show ?thesis
  proof (cases "chosen_delivery c thread x")
    case (Some mode)
    have "reserved_ok (add_receipt thread x f ?n g2)" if "deliver mode ?n g' = Inr g2" for g2
      using deliver_reserved [OF but n that] by (rule reserved_cong) (simp_all add: holds_def)
    then show ?thesis using Some assms(1) by (auto simp: begin_steer_def Let_def g'_def [symmetric] split: sum.splits)
  next
    case None
    define v where "v = g'\<lparr>sg_pending := js_set thread (?n, True) (sg_pending g')\<rparr>"
    have v: "sg_pending v = js_set thread (?n, True) (sg_pending g')" "sg_ops v = sg_ops g'" "holds v j = holds g' j" for j
      by (simp_all add: v_def holds_def)
    have mine: "holds g' ?n = Some True" "so_thread (op_of g' ?n) = thread" by (simp_all add: holds_def new new_steer_def)
    have "reserved_ok v"
    proof (rule reserved_butI)
      show "distinct (js_keys (sg_pending v))" using reserved_keys [OF but] by (simp add: v)
    next
      fix h i st assume a: "js_get (sg_pending v) h = Some (i, st)"
      show "Some i \<noteq> None \<and> i < length (sg_ops v) \<and> so_thread (op_of v i) = h \<and> holds v i = Some st"
      proof (cases "h = thread")
        case True
        then have "i = ?n" "st = True" using a by (auto simp: v)
        then show ?thesis using True mine n by (simp add: v)
      next
        case False
        then have "js_get (sg_pending g') h = Some (i, st)" using a by (simp add: v)
        then show ?thesis using entry [of h i st] by (simp add: v)
      qed
    next
      fix i st assume i: "i < length (sg_ops v)" "holds v i = Some st"
      show "js_get (sg_pending v) (so_thread (op_of v i)) = Some (i, st)"
      proof (cases "i = ?n")
        case True
        then show ?thesis using i mine by (simp add: v)
      next
        case False
        then have get: "js_get (sg_pending g') (so_thread (op_of g' i)) = Some (i, st)"
          using holder [of i st] i by (simp add: v)
        then have "so_thread (op_of g' i) \<noteq> thread" using free by auto
        then show ?thesis using get by (simp add: v)
      qed
    qed
    then have "reserved_ok (add_receipt thread x f ?n v)"
      by (rule reserved_cong) (simp_all add: holds_def)
    then show ?thesis using None by (simp add: begin_steer_def Let_def g'_def [symmetric] v_def)
  qed
qed

lemma run_reserved: "reserved_ok g \<Longrightarrow> reserved_ok (snd (steer_run c thread params g))"
  using begin_reserved by (auto simp: steer_run_def Let_def split: sum.splits option.splits)

lemma step_reserved:
  assumes "reserved_ok g"
  shows "reserved_ok (steer_step c g e)"
proof (cases e)
  case (ThreadChanges h s)
  then show ?thesis by (auto intro!: reserved_cong [OF assms] simp: holds_def)
next
  case (TurnEnds h turn outcome)
  have "reserved_ok (set_op i (\<lambda>x. if so_terminal x = None then x\<lparr>so_terminal := Some outcome\<rparr> else x) g)" for i
    by (rule set_op_reserved [OF assms]) auto
  then show ?thesis using TurnEnds assms
    by (auto simp: steer_terminal_def Let_def settle_reserved split: option.splits bool.splits)
qed (use assms in \<open>auto simp: run_reserved capability_answers_def insert_answers_def cancel_answers_def settle_reserved
      steer_interrupt_def steer_fault_def reject_reserved steer_timeout_def close_reserved continue_reserved start_reserved
      split: option.splits\<close>)

end
