(* ===== verification/SteeringLog.thy ===== *)
theory SteeringLog
  imports SteeringReserved
begin

text \<open>
  What a call has done is in the log. Whatever phase it is in, it has delivered its input at most once: by an
  insertion that was not refused, or by a Turn it started.
\<close>

fun inserted :: "nat \<Rightarrow> steer_action \<Rightarrow> bool" where
  "inserted i (DidInsert j turn) = (i = j)"
| "inserted i _ = False"

fun refused :: "nat \<Rightarrow> steer_action \<Rightarrow> bool" where
  "refused i (DidRefuse j) = (i = j)"
| "refused i _ = False"

fun started :: "nat \<Rightarrow> steer_action \<Rightarrow> bool" where
  "started i (DidStart j) = (i = j)"
| "started i _ = False"

definition tally :: "(steer_action \<Rightarrow> bool) \<Rightarrow> steering \<Rightarrow> nat" where
  "tally p g = length (filter p (sg_log g))"

lemma tally_log [simp]: "tally p (log_action a g) = tally p g + (if p a then 1 else 0)"
  by (simp add: tally_def)

lemma tally_same: "sg_log g' = sg_log g \<Longrightarrow> tally p g' = tally p g"
  by (simp add: tally_def)

text \<open>Insertions, refusals and starts a phase allows.\<close>

definition phase_tally :: "steer_phase \<Rightarrow> nat \<Rightarrow> nat \<Rightarrow> nat \<Rightarrow> bool" where
  "phase_tally ph a r s =
     (r \<le> a \<and> a \<le> 1 \<and> s + a \<le> 1 + r \<and>
      (case ph of
         AwaitCapability \<Rightarrow> a = 0 \<and> s = 0
       | AwaitInsert \<Rightarrow> a = 1 \<and> r = 0 \<and> s = 0
       | AwaitCancel \<Rightarrow> a = r \<and> s = 0
       | AwaitTerminal \<Rightarrow> a = r \<and> s = 0
       | AwaitStart direct \<Rightarrow> a = r \<and> s = 0
       | _ \<Rightarrow> True))"

text \<open>
  What a replacement can have lost or won its race to; one that may start has seen the previous Turn end, and not
  fail.
\<close>

definition ended_fields :: "steer_phase \<Rightarrow> steer_won option \<Rightarrow> turn_end option \<Rightarrow> bool" where
  "ended_fields ph won terminal =
     (case ph of
        AwaitCancel \<Rightarrow>
          (case won of None \<Rightarrow> True | Some (WonCancel answer) \<Rightarrow> True | Some (WonFailure e) \<Rightarrow> True | _ \<Rightarrow> False)
      | AwaitTerminal \<Rightarrow>
          (case won of
             None \<Rightarrow> terminal = None
           | Some (WonTerminal outcome) \<Rightarrow> terminal = Some outcome
           | Some (WonFailure e) \<Rightarrow> True
           | _ \<Rightarrow> False)
      | AwaitStart direct \<Rightarrow> direct \<or> terminal = Some EndSucceeded \<or> terminal = Some EndCancelled
      | _ \<Rightarrow> True)"

definition ended_ok :: "steer_op \<Rightarrow> bool" where
  "ended_ok x = ended_fields (so_phase x) (so_won x) (so_terminal x)"

definition call_ok :: "steering \<Rightarrow> nat \<Rightarrow> bool" where
  "call_ok g i =
     (phase_tally (so_phase (op_of g i)) (tally (inserted i) g) (tally (refused i) g) (tally (started i) g) \<and>
      ended_ok (op_of g i))"

definition calls_ok :: "steering \<Rightarrow> bool" where
  "calls_ok g =
     ((\<forall>i < length (sg_ops g). call_ok g i) \<and>
      (\<forall>i \<ge> length (sg_ops g). tally (inserted i) g = 0 \<and> tally (refused i) g = 0 \<and> tally (started i) g = 0))"

lemma calls_okD: "calls_ok g \<Longrightarrow> i < length (sg_ops g) \<Longrightarrow> call_ok g i"
  by (simp add: calls_ok_def)

definition of_call :: "nat \<Rightarrow> steer_action \<Rightarrow> bool" where
  "of_call i a = (\<forall>j. j \<noteq> i \<longrightarrow> \<not> inserted j a \<and> \<not> refused j a \<and> \<not> started j a)"

lemma of_call_simps [simp]:
  "of_call i (DidInsert i turn)" "of_call i (DidRefuse i)" "of_call i (DidStart i)" "of_call i (DidCancel j turn)"
  by (simp_all add: of_call_def)

text \<open>A step of one call leaves the others alone.\<close>

lemma calls_step:
  assumes "calls_ok g" "i < length (sg_ops g)" "length (sg_ops g') = length (sg_ops g)"
    and "\<And>j. j \<noteq> i \<Longrightarrow> op_of g' j = op_of g j"
    and "sg_log g' = sg_log g @ as" "list_all (of_call i) as" "call_ok g' i"
  shows "calls_ok g'"
proof -
  have "filter (inserted j) as = []" "filter (refused j) as = []" "filter (started j) as = []" if "j \<noteq> i" for j
    using assms(6) that by (auto simp: filter_empty_conv list_all_iff of_call_def)
  then have same: "tally (inserted j) g' = tally (inserted j) g" "tally (refused j) g' = tally (refused j) g"
    "tally (started j) g' = tally (started j) g" if "j \<noteq> i" for j
    using that by (simp_all add: tally_def assms(5))
  have "call_ok g' j" if "j < length (sg_ops g)" for j
    using assms(1,4,7) same [of j] that by (cases "j = i") (auto simp: calls_ok_def call_ok_def)
  moreover have "j \<noteq> i" if "j \<ge> length (sg_ops g)" for j using that assms(2) by auto
  ultimately show ?thesis using assms(1,3) same unfolding calls_ok_def by simp
qed

lemma calls_cong:
  assumes "calls_ok g" "sg_ops g' = sg_ops g" "sg_log g' = sg_log g"
  shows "calls_ok g'"
  using assms by (simp add: calls_ok_def call_ok_def tally_def)

lemma enter_calls:
  assumes "calls_ok g" "i < length (sg_ops g)" "sg_ops v = sg_ops g" "sg_log v = sg_log g"
    and "phase_tally ph (tally (inserted i) g) (tally (refused i) g) (tally (started i) g)"
    and "ended_fields ph None (so_terminal (op_of g i))"
  shows "calls_ok (enter i ph v)"
proof (rule calls_step [OF assms(1,2), where as = "[]"])
  show "length (sg_ops (enter i ph v)) = length (sg_ops g)" using assms(3) by simp
  show "op_of (enter i ph v) j = op_of g j" if "j \<noteq> i" for j
    using that assms(2,3) by (simp add: enter_at)
  show "sg_log (enter i ph v) = sg_log g @ []" using assms(4) by simp
  show "call_ok (enter i ph v) i"
    using assms(2,3,4,5,6) by (simp add: call_ok_def ended_ok_def enter_at tally_def)
qed simp

lemma finish_calls:
  assumes "calls_ok g" "i < length (sg_ops g)"
  shows "calls_ok (finish_failed i e g)" "calls_ok (finish_delivered i d g)"
proof -
  have tallies: "phase_tally (so_phase (op_of g i)) (tally (inserted i) g) (tally (refused i) g) (tally (started i) g)"
    using calls_okD [OF assms] by (simp add: call_ok_def)
  then have final: "phase_tally (SteerFailed e) (tally (inserted i) g) (tally (refused i) g) (tally (started i) g)"
    "phase_tally (SteerDelivered d) (tally (inserted i) g) (tally (refused i) g) (tally (started i) g)"
    by (simp_all add: phase_tally_def)
  have "calls_ok (enter i (SteerFailed e) (release i g))" "calls_ok (enter i (SteerDelivered d) (release i g))"
    by (rule enter_calls [OF assms], use final in \<open>simp_all add: ended_fields_def\<close>)+
  then show "calls_ok (finish_failed i e g)" "calls_ok (finish_delivered i d g)"
    unfolding finish_failed_def finish_delivered_def by (auto intro: calls_cong)
qed

lemma deliver_calls:
  assumes "calls_ok g" "i < length (sg_ops g)" "deliver mode i g = Inr g'"
    and "tally (inserted i) g = tally (refused i) g" "tally (started i) g = 0" "mode = ActiveTurn \<Longrightarrow> tally (inserted i) g = 0"
  shows "calls_ok g'"
proof (cases "mode = NewTurn")
  case True
  then have g': "g' = replace_turn i (si_expectedTurnId (so_input (op_of g i))) g"
    using assms(3) by (auto simp: deliver_def Let_def split: if_splits)
  have "call_ok g' i"
    using calls_okD [OF assms(1,2)] assms(2,4,5)
    by (simp add: g' call_ok_def phase_tally_def ended_ok_def ended_fields_def replace_turn_at tally_def)
  then show ?thesis
    using assms(2) unfolding g'
    by (intro calls_step [OF assms(1,2), where as = "[DidCancel i (si_expectedTurnId (so_input (op_of g i)))]"]) (simp_all add: replace_turn_at)
next
  case False
  then have mode: "mode = ActiveTurn" by (cases mode) simp_all
  let ?a = "DidInsert i (si_expectedTurnId (so_input (op_of g i)))"
  have g': "g' = log_action ?a (enter i AwaitInsert g)"
    using assms(3) False by (auto simp: deliver_def Let_def split: if_splits)
  have "call_ok g' i"
    using calls_okD [OF assms(1,2)] assms(2,4,5,6) mode
    by (simp add: g' call_ok_def phase_tally_def ended_ok_def ended_fields_def enter_at tally_def)
  then show ?thesis
    using assms(2) unfolding g' by (intro calls_step [OF assms(1,2), where as = "[?a]"]) (simp_all add: enter_at)
qed

lemma deliver_or_fail_calls:
  assumes "calls_ok g" "i < length (sg_ops g)"
    and "tally (inserted i) g = tally (refused i) g" "tally (started i) g = 0" "mode = ActiveTurn \<Longrightarrow> tally (inserted i) g = 0"
  shows "calls_ok (deliver_or_fail mode i g)"
  using assms deliver_calls finish_calls(1) by (auto simp: deliver_or_fail_def split: sum.splits)


lemma set_op_calls:
  assumes "calls_ok g" "\<And>x. so_phase (f x) = so_phase x" "i < length (sg_ops g) \<Longrightarrow> ended_ok (f (op_of g i))"
  shows "calls_ok (set_op i f g)"
proof (cases "i < length (sg_ops g)")
  case True
  have "call_ok (set_op i f g) i"
    using calls_okD [OF assms(1) True] assms(2,3) True by (simp add: call_ok_def set_op_at tally_def)
  then show ?thesis using True by (intro calls_step [OF assms(1), where as = "[]" and i = i]) (simp_all add: set_op_at)
next
  case False
  then show ?thesis using assms(1) by (simp add: set_op_def list_update_beyond not_less)
qed

lemma settle_calls:
  assumes "calls_ok g" "ended_fields (so_phase (op_of g i)) (Some w) (so_terminal (op_of g i))"
  shows "calls_ok (settle_won i w g)"
  unfolding settle_won_def
proof (rule set_op_calls [OF assms(1)])
  assume i: "i < length (sg_ops g)"
  then have "ended_ok (op_of g i)" using calls_okD [OF assms(1)] by (simp add: call_ok_def)
  then show "ended_ok (if so_won (op_of g i) = None then op_of g i\<lparr>so_won := Some w\<rparr> else op_of g i)"
    using assms(2) by (simp add: ended_ok_def)
qed simp

lemma set_failure_calls:
  "calls_ok g \<Longrightarrow> calls_ok (set_op i (\<lambda>x. if so_failure x = None then x\<lparr>so_failure := Some e\<rparr> else x) g)"
  by (rule set_op_calls) (auto dest: calls_okD simp: call_ok_def ended_ok_def)

lemma reject_calls: "calls_ok g \<Longrightarrow> calls_ok (reject_op i e g)"
proof -
  assume ok: "calls_ok g"
  let ?f = "\<lambda>x. if so_failure x = None then x\<lparr>so_failure := Some e\<rparr> else x"
  have "so_phase (op_of (set_op i ?f g) i) = so_phase (op_of g i)"
    by (cases "i < length (sg_ops g)") (simp_all add: set_op_at set_op_def list_update_beyond not_less)
  then have "calls_ok (settle_won i (WonFailure e) (set_op i ?f g))" if "racing (so_phase (op_of g i))"
    using that by (intro settle_calls [OF set_failure_calls [OF ok]]) (auto simp: racing_def ended_fields_def)
  then show ?thesis using ok unfolding reject_op_def Let_def by (simp add: set_failure_calls)
qed

lemma close_calls: "calls_ok g \<Longrightarrow> calls_ok (steer_close g)"
proof -
  assume ok: "calls_ok g"
  have "calls_ok (fold (\<lambda>(thread, i, stage). reject_op i e) ps v)" if "calls_ok v" for e v and ps :: "(string \<times> nat \<times> bool) list"
    using that by (induction ps arbitrary: v) (auto simp: reject_calls)
  moreover have "calls_ok (g\<lparr>sg_closed := True\<rparr>)" by (rule calls_cong [OF ok]) simp_all
  ultimately have "calls_ok (fold (\<lambda>(thread, i, stage). reject_op i e) (sg_pending g) (g\<lparr>sg_closed := True\<rparr>))" for e by blast
  then show ?thesis unfolding steer_close_def by (rule calls_cong) simp_all
qed

lemma terminal_calls:
  assumes "calls_ok g"
  shows "calls_ok (steer_terminal h turn outcome g)"
proof (cases "js_get (sg_pending g) h")
  case (Some p)
  obtain i st where p: "p = (i, st)" by (cases p)
  define f :: "steer_op \<Rightarrow> steer_op" where "f = (\<lambda>x. if so_terminal x = None then x\<lparr>so_terminal := Some outcome\<rparr> else x)"
  define w where "w = WonTerminal outcome"
  show ?thesis
  proof (cases "i < length (sg_ops g)")
    case False
    then have "set_op i k g = g" for k by (simp add: set_op_def list_update_beyond not_less)
    then show ?thesis using assms Some p
      by (auto simp: steer_terminal_def Let_def settle_won_def split: bool.splits)
  next
    case i: True
    have e: "ended_ok (op_of g i)" "call_ok g i" using calls_okD [OF assms i] by (simp_all add: call_ok_def)
    show ?thesis
    proof (cases "so_phase (op_of g i) = AwaitTerminal")
      case False
      have "calls_ok (set_op i f g)"
        using e False by (intro set_op_calls [OF assms])
          (auto simp: f_def ended_ok_def ended_fields_def split: steer_phase.splits)
      then show ?thesis using False assms Some p
        by (auto simp: steer_terminal_def Let_def f_def split: bool.splits)
    next
      case True
      have "settle_won i w (set_op i f g) = set_op i (\<lambda>x. if so_won x = None then (f x)\<lparr>so_won := Some w\<rparr> else f x) g"
        using i by (simp add: settle_won_def set_op_def f_def)
      moreover have "calls_ok (set_op i (\<lambda>x. if so_won x = None then (f x)\<lparr>so_won := Some w\<rparr> else f x) g)"
        using e True by (intro set_op_calls [OF assms])
          (auto simp: f_def w_def ended_ok_def ended_fields_def split: option.splits steer_won.splits)
      ultimately show ?thesis using True assms Some p
        by (auto simp: steer_terminal_def Let_def f_def w_def split: bool.splits)
    qed
  qed
qed (use assms in \<open>simp add: steer_terminal_def\<close>)

lemma continue_calls:
  assumes "calls_ok g"
  shows "calls_ok (steer_continue i g)"
proof (cases "i < length (sg_ops g) \<and> so_won (op_of g i) \<noteq> None")
  case False
  then show ?thesis using assms by (auto simp: steer_continue_def)
next
  case True
  then obtain w where i: "i < length (sg_ops g)" and w: "so_won (op_of g i) = Some w" by blast
  have ok: "call_ok g i" by (rule calls_okD [OF assms i])
  note finish = finish_calls [OF assms i]
  show ?thesis
  proof (cases "so_phase (op_of g i)")
    case AwaitCapability
    have "calls_ok (release i g)" by (rule calls_cong [OF assms]) simp_all
    then have "calls_ok (deliver_or_fail mode i (release i g))" for mode
      using ok i AwaitCapability
      by (intro deliver_or_fail_calls) (auto simp: call_ok_def phase_tally_def tally_same [of "release i g" g])
    then show ?thesis using i w AwaitCapability finish assms
      by (auto simp: steer_continue_def continue_capability_def split: steer_won.splits option.splits)
  next
    case AwaitInsert
    let ?g = "log_action (DidRefuse i) g"
    have t: "tally (inserted i) ?g = 1" "tally (refused i) ?g = 1" "tally (started i) ?g = 0"
      using ok AwaitInsert by (simp_all add: call_ok_def phase_tally_def)
    have final: "call_ok (enter i ph ?g) i" if "ph = AwaitStart True \<or> ph = SteerFailed e" for ph e
      using t i that by (auto simp: call_ok_def phase_tally_def ended_ok_def ended_fields_def enter_at tally_def)
    have direct: "calls_ok (enter i (AwaitStart True) ?g)"
      using i final by (intro calls_step [OF assms i, where as = "[DidRefuse i]"]) (simp_all add: enter_at)
    have failed: "calls_ok (finish_failed i e ?g)" for e
    proof -
      have "call_ok (enter i (SteerFailed e) (release i ?g)) i"
        using final [of "SteerFailed e" e] i by (simp add: call_ok_def enter_at tally_def)
      then have "calls_ok (enter i (SteerFailed e) (release i ?g))"
        using i by (intro calls_step [OF assms i, where as = "[DidRefuse i]"]) (simp_all add: enter_at)
      then show ?thesis unfolding finish_failed_def by (rule calls_cong) simp_all
    qed
    have deliver: "calls_ok g'" if "deliver NewTurn i ?g = Inr g'" for g'
    proof -
      have g': "g' = replace_turn i (si_expectedTurnId (so_input (op_of g i))) ?g"
        using that by (auto simp: deliver_def Let_def split: if_splits)
      have "call_ok g' i"
        using t i by (simp add: g' call_ok_def phase_tally_def ended_ok_def ended_fields_def replace_turn_at tally_def)
      then show ?thesis
        using i unfolding g'
        by (intro calls_step [OF assms i, where as = "[DidRefuse i, DidCancel i (si_expectedTurnId (so_input (op_of g i)))]"])
          (simp_all add: replace_turn_at)
    qed
    show ?thesis using i w AwaitInsert finish assms failed direct deliver
      by (auto simp: steer_continue_def continue_insert_def deliver_or_fail_def Let_def
          split: steer_won.splits insert_answer.splits sum.splits)
  next
    case AwaitCancel
    define k where "k = (\<lambda>x. x\<lparr>so_phase := AwaitTerminal, so_won := (case so_terminal x of
        Some outcome \<Rightarrow> Some (WonTerminal outcome) | None \<Rightarrow> map_option WonFailure (so_failure x))\<rparr> :: steer_op)"
    have "call_ok (set_op i k g) i"
      using ok i AwaitCancel
      by (auto simp: call_ok_def phase_tally_def ended_ok_def ended_fields_def set_op_at k_def tally_def split: option.splits)
    then have "calls_ok (set_op i k g)"
      using i by (intro calls_step [OF assms i, where as = "[]"]) (simp_all add: set_op_at)
    then show ?thesis using i w AwaitCancel finish assms
      by (auto simp: steer_continue_def continue_cancel_def k_def split: steer_won.splits cancel_answer.splits)
  next
    case AwaitTerminal
    have "calls_ok (enter i (AwaitStart False) g)" if "w = WonTerminal outcome" "\<forall>m. outcome \<noteq> EndFailed m" for outcome
    proof -
      have "so_terminal (op_of g i) = Some outcome"
        using ok w AwaitTerminal that by (simp add: call_ok_def ended_ok_def ended_fields_def)
      then have "call_ok (enter i (AwaitStart False) g) i"
        using ok i AwaitTerminal that(2)
        by (cases outcome) (auto simp: call_ok_def phase_tally_def ended_ok_def ended_fields_def enter_at tally_def)
      then show ?thesis using i by (intro calls_step [OF assms i, where as = "[]"]) (simp_all add: enter_at)
    qed
    then show ?thesis using i w AwaitTerminal finish assms
      by (auto simp: steer_continue_def continue_terminal_def split: steer_won.splits option.splits turn_end.splits)
  qed (use assms i w in \<open>auto simp: steer_continue_def\<close>)
qed

lemma start_calls:
  assumes "calls_ok g"
  shows "calls_ok (steer_execute i g)" "calls_ok (start_settles i e g)"
proof -
  have "calls_ok (log_action (DidStart i) (enter i (AwaitStarted direct) g))"
    if i: "i < length (sg_ops g)" and ph: "so_phase (op_of g i) = AwaitStart direct" for direct
  proof -
    have "call_ok (log_action (DidStart i) (enter i (AwaitStarted direct) g)) i"
      using calls_okD [OF assms i] i ph
      by (auto simp: call_ok_def phase_tally_def ended_ok_def ended_fields_def enter_at tally_def)
    then show ?thesis using i by (intro calls_step [OF assms i, where as = "[DidStart i]"]) (simp_all add: enter_at)
  qed
  then show "calls_ok (steer_execute i g)"
    using assms finish_calls [OF assms]
    by (auto simp: steer_execute_def split: steer_phase.splits option.splits)
  show "calls_ok (start_settles i e g)"
    using assms finish_calls [OF assms]
    by (auto simp: start_settles_def split: steer_phase.splits option.splits)
qed

lemma begin_calls:
  assumes "calls_ok g"
  shows "calls_ok (snd (begin_steer c thread x f g))"
proof -
  let ?n = "length (sg_ops g)"
  define g' where "g' = g\<lparr>sg_ops := sg_ops g @ [new_steer thread x f]\<rparr>"
  have zero: "tally (inserted ?n) g' = 0" "tally (refused ?n) g' = 0" "tally (started ?n) g' = 0"
    using assms by (simp_all add: calls_ok_def g'_def tally_def)
  have "call_ok g' i" if "i < length (sg_ops g')" for i
  proof (cases "i = ?n")
    case True
    then show ?thesis
      using zero by (simp add: call_ok_def phase_tally_def ended_ok_def ended_fields_def g'_def new_steer_def)
  next
    case False
    then have "i < ?n" using that by (simp add: g'_def)
    then show ?thesis
      using calls_okD [OF assms] by (simp add: call_ok_def g'_def tally_def nth_append)
  qed
  moreover have "tally p g' = tally p g" for p by (simp add: g'_def tally_def)
  ultimately have ok: "calls_ok g'" using assms unfolding calls_ok_def g'_def by simp
  have n: "?n < length (sg_ops g')" by (simp add: g'_def)
  have "calls_ok (add_receipt thread x f ?n g2)" if "deliver mode ?n g' = Inr g2" for mode g2
  proof -
    have "calls_ok g2" using deliver_calls [OF ok n that] zero by simp
    then show ?thesis by (rule calls_cong) simp_all
  qed
  moreover have "calls_ok (add_receipt thread x f ?n (g'\<lparr>sg_pending := m\<rparr>))" for m
    by (rule calls_cong [OF ok]) simp_all
  ultimately show ?thesis
    using assms by (auto simp: begin_steer_def Let_def g'_def [symmetric] split: sum.splits option.splits)
qed

lemma step_calls:
  assumes "calls_ok g"
  shows "calls_ok (steer_step c g e)"
proof (cases e)
  case (SteerRuns h params)
  then show ?thesis using assms begin_calls by (auto simp: steer_run_def Let_def split: sum.splits option.splits)
next
  case (ThreadChanges h s)
  then show ?thesis by (auto intro!: calls_cong [OF assms])
next
  case (CapabilityAnswers i answer)
  then show ?thesis using assms
    by (auto simp: capability_answers_def in_phase_def ended_fields_def intro!: settle_calls split: sum.splits)
next
  case (InsertAnswers i answer)
  then show ?thesis using assms by (auto simp: insert_answers_def in_phase_def ended_fields_def intro!: settle_calls)
next
  case (CancelAnswers i answer)
  then show ?thesis using assms by (auto simp: cancel_answers_def in_phase_def ended_fields_def intro!: settle_calls)
qed (use assms in \<open>auto simp: terminal_calls steer_interrupt_def steer_fault_def reject_calls steer_timeout_def close_calls
      continue_calls start_calls split: option.splits\<close>)

end
