(* ===== verification/SteeringReceipts.thy ===== *)
theory SteeringReceipts
  imports SteeringReserved
begin

text \<open>
  Receipts: while a call with a message id is in progress, its receipt is kept, whatever other calls end and
  whatever is evicted.
\<close>

fun in_progress :: "steer_phase \<Rightarrow> bool" where
  "in_progress (SteerDelivered d) = False"
| "in_progress (SteerFailed e) = False"
| "in_progress _ = True"

definition key_of :: "steer_op \<Rightarrow> string option" where
  "key_of x = receipt_key (so_thread x) (so_input x)"

definition receipt_for :: "steering \<Rightarrow> string \<Rightarrow> steer_receipt \<Rightarrow> bool" where
  "receipt_for g k r =
     (sr_op r < length (sg_ops g) \<and> key_of (op_of g (sr_op r)) = Some k \<and>
      sr_fingerprint r = so_fingerprint (op_of g (sr_op r)) \<and>
      sr_settled r = (\<not> in_progress (so_phase (op_of g (sr_op r)))))"

definition held_by :: "steering \<Rightarrow> string \<Rightarrow> nat \<Rightarrow> bool" where
  "held_by g k i = (\<exists>r. js_get (sg_receipts g) k = Some r \<and> sr_op r = i)"

definition receipts_kept :: "steering \<Rightarrow> bool" where
  "receipts_kept g =
     (distinct (js_keys (sg_receipts g)) \<and> (sg_closed g \<longrightarrow> sg_receipts g = []) \<and>
      (\<forall>k r. js_get (sg_receipts g) k = Some r \<longrightarrow> receipt_for g k r) \<and>
      (\<not> sg_closed g \<longrightarrow> (\<forall>i < length (sg_ops g). \<forall>k. in_progress (so_phase (op_of g i)) \<longrightarrow> key_of (op_of g i) = Some k \<longrightarrow>
         held_by g k i)))"

lemma kept_entry: "receipts_kept g \<Longrightarrow> js_get (sg_receipts g) k = Some r \<Longrightarrow> receipt_for g k r"
  by (simp add: receipts_kept_def)

lemma kept_holder:
  "receipts_kept g \<Longrightarrow> \<not> sg_closed g \<Longrightarrow> i < length (sg_ops g) \<Longrightarrow> in_progress (so_phase (op_of g i)) \<Longrightarrow>
   key_of (op_of g i) = Some k \<Longrightarrow> held_by g k i"
  by (simp add: receipts_kept_def)

lemma keptI:
  assumes "distinct (js_keys (sg_receipts g))" "sg_closed g \<Longrightarrow> sg_receipts g = []"
    and "\<And>k r. js_get (sg_receipts g) k = Some r \<Longrightarrow> receipt_for g k r"
    and "\<And>i k. \<not> sg_closed g \<Longrightarrow> i < length (sg_ops g) \<Longrightarrow> in_progress (so_phase (op_of g i)) \<Longrightarrow>
      key_of (op_of g i) = Some k \<Longrightarrow> held_by g k i"
  shows "receipts_kept g"
  using assms unfolding receipts_kept_def by blast

lemma kept_basic: "receipts_kept g \<Longrightarrow> distinct (js_keys (sg_receipts g))" "receipts_kept g \<Longrightarrow> sg_closed g \<Longrightarrow> sg_receipts g = []"
  by (simp_all add: receipts_kept_def)

text \<open>What a call does while it is in progress does not touch the receipts.\<close>

definition same_calls :: "steering \<Rightarrow> steering \<Rightarrow> bool" where
  "same_calls g g' =
     (length (sg_ops g') = length (sg_ops g) \<and>
      (\<forall>j < length (sg_ops g). key_of (op_of g' j) = key_of (op_of g j) \<and>
         so_fingerprint (op_of g' j) = so_fingerprint (op_of g j) \<and>
         in_progress (so_phase (op_of g' j)) = in_progress (so_phase (op_of g j))))"

lemma same_calls_set_op:
  assumes "i < length (sg_ops g) \<Longrightarrow> so_thread (f (op_of g i)) = so_thread (op_of g i) \<and> so_input (f (op_of g i)) = so_input (op_of g i) \<and>
      so_fingerprint (f (op_of g i)) = so_fingerprint (op_of g i) \<and>
      in_progress (so_phase (f (op_of g i))) = in_progress (so_phase (op_of g i))"
  shows "same_calls g (set_op i f g)"
proof (cases "i < length (sg_ops g)")
  case True
  then show ?thesis using assms by (auto simp: same_calls_def set_op_at key_of_def)
next
  case False
  then show ?thesis by (simp add: same_calls_def set_op_def list_update_beyond not_less)
qed

lemma kept_same:
  assumes "receipts_kept g" "same_calls g g'" "sg_receipts g' = sg_receipts g" "sg_closed g' = sg_closed g"
  shows "receipts_kept g'"
proof (rule keptI)
  show "distinct (js_keys (sg_receipts g'))" using kept_basic [OF assms(1)] assms(3) by simp
  show "sg_closed g' \<Longrightarrow> sg_receipts g' = []" using kept_basic [OF assms(1)] assms(3,4) by simp
  show "receipt_for g' k r" if "js_get (sg_receipts g') k = Some r" for k r
    using kept_entry [OF assms(1), of k r] that assms(2,3) by (simp add: receipt_for_def same_calls_def)
  show "held_by g' k i" if "\<not> sg_closed g'" "i < length (sg_ops g')" "in_progress (so_phase (op_of g' i))"
    "key_of (op_of g' i) = Some k" for i k
    using kept_holder [OF assms(1), of i k] that assms(2,3,4) by (simp add: held_by_def same_calls_def)
qed

subsection \<open>Eviction\<close>

lemma evict_distinct: "distinct (js_keys m) \<Longrightarrow> distinct (js_keys (evict_settled n m))"
  by (induction n arbitrary: m) (auto split: option.splits)

lemma evict_kept:
  "distinct (js_keys m) \<Longrightarrow> js_get m k = Some r \<Longrightarrow> \<not> sr_settled r \<Longrightarrow> js_get (evict_settled n m) k = Some r"
proof (induction n arbitrary: m)
  case (Suc n)
  show ?case
  proof (cases "length m \<le> 128")
    case False
    show ?thesis
    proof (cases "List.find (\<lambda>(k, r). sr_settled r) m")
      case (Some p)
      obtain k' r' where p: "p = (k', r')" by (cases p)
      have "(k', r') \<in> set m" "sr_settled r'" using Some p by (auto simp: find_Some_iff set_conv_nth)
      then have "js_get m k' = Some r'" using Suc.prems(1) js_mem_get by fast
      then have "k' \<noteq> k" using Suc.prems(2,3) \<open>sr_settled r'\<close> by auto
      then have "js_get (evict_settled n (js_delete k' m)) k = Some r"
        using Suc.prems by (intro Suc.IH) simp_all
      then show ?thesis using False Some p by simp
    qed (use Suc.prems False in simp)
  qed (use Suc.prems in simp)
qed simp

lemma evict_sub: "js_get (evict_settled n m) k = Some r \<Longrightarrow> js_get m k = Some r"
proof (induction n arbitrary: m)
  case (Suc n)
  show ?case
  proof (cases "length m \<le> 128 \<or> List.find (\<lambda>(k, r). sr_settled r) m = None")
    case False
    then obtain k' r' where "List.find (\<lambda>(k, r). sr_settled r) m = Some (k', r')" by fastforce
    then have "js_get (evict_settled n (js_delete k' m)) k = Some r" using Suc.prems False by simp
    from Suc.IH [OF this] show ?thesis by (simp split: if_splits)
  qed (use Suc.prems in \<open>auto split: if_splits\<close>)
qed simp

text \<open>The end of call \<open>i\<close>: its receipt settles or goes, those of calls in progress stay.\<close>

lemma end_kept:
  assumes "receipts_kept g" "i < length (sg_ops g)" "length (sg_ops v) = length (sg_ops g)" "sg_closed v = sg_closed g"
    and same: "\<And>j. key_of (op_of v j) = key_of (op_of g j)" "\<And>j. so_fingerprint (op_of v j) = so_fingerprint (op_of g j)"
      "\<And>j. j \<noteq> i \<Longrightarrow> so_phase (op_of v j) = so_phase (op_of g j)" "\<not> in_progress (so_phase (op_of v i))"
    and rec: "distinct (js_keys (sg_receipts v))" "sg_receipts g = [] \<Longrightarrow> sg_receipts v = []"
      "\<And>k r. js_get (sg_receipts v) k = Some r \<Longrightarrow>
         \<exists>r0. js_get (sg_receipts g) k = Some r0 \<and> r = (if sr_op r0 = i then r0\<lparr>sr_settled := True\<rparr> else r0)"
      "\<And>k r. js_get (sg_receipts g) k = Some r \<Longrightarrow> \<not> sr_settled r \<Longrightarrow> sr_op r \<noteq> i \<Longrightarrow> js_get (sg_receipts v) k = Some r"
  shows "receipts_kept v"
proof -
  have entry: "receipt_for v k r" if r: "js_get (sg_receipts v) k = Some r" for k r
  proof -
    obtain r0 where r0: "js_get (sg_receipts g) k = Some r0" "r = (if sr_op r0 = i then r0\<lparr>sr_settled := True\<rparr> else r0)"
      using rec(3) [OF r] by blast
    then show ?thesis
      using kept_entry [OF assms(1) r0(1)] same assms(3) by (auto simp: receipt_for_def)
  qed
  have holder: "held_by v k j" if "\<not> sg_closed v" "j < length (sg_ops v)" "in_progress (so_phase (op_of v j))"
    "key_of (op_of v j) = Some k" for j k
  proof -
    have j: "j \<noteq> i" using that(3) same(4) by auto
    then have progress: "in_progress (so_phase (op_of g j))" using that(3) same(3) by simp
    have "held_by g k j" using kept_holder [OF assms(1), of j k] that progress assms(3,4) same(1) [of j] by simp
    then obtain r where r: "js_get (sg_receipts g) k = Some r" "sr_op r = j" unfolding held_by_def by blast
    moreover have "\<not> sr_settled r" using kept_entry [OF assms(1) r(1)] r(2) progress by (simp add: receipt_for_def)
    ultimately have "js_get (sg_receipts v) k = Some r" using rec(4) j by blast
    then show ?thesis using r(2) unfolding held_by_def by blast
  qed
  show ?thesis
    using rec(1,2) kept_basic(2) [OF assms(1)] assms(4) by (intro keptI entry holder) simp_all
qed

lemma only_key:
  assumes "receipts_kept g" "js_get (sg_receipts g) k = Some r" "sr_op r = i" shows "key_of (op_of g i) = Some k"
  using kept_entry [OF assms(1,2)] assms(3) by (simp add: receipt_for_def)

lemma other_key:
  assumes "receipts_kept g" "i < length (sg_ops g)" "in_progress (so_phase (op_of g i))"
    and "js_get (sg_receipts g) k = Some r" "sr_op r \<noteq> i"
  shows "key_of (op_of g i) \<noteq> Some k"
proof
  assume "key_of (op_of g i) = Some k"
  moreover have "\<not> sg_closed g" using kept_basic(2) [OF assms(1)] assms(4) by auto
  ultimately have "held_by g k i" using kept_holder assms(1,2,3) by blast
  then show False using assms(4,5) by (auto simp: held_by_def)
qed

lemma key_of_entered: "i < length (sg_ops g) \<Longrightarrow> key_of (op_of (enter i ph g) j) = key_of (op_of g j)"
  "i < length (sg_ops g) \<Longrightarrow> so_fingerprint (op_of (enter i ph g) j) = so_fingerprint (op_of g j)"
  by (simp_all add: enter_at key_of_def)

lemma finish_failed_kept:
  assumes "receipts_kept g" "i < length (sg_ops g)" "in_progress (so_phase (op_of g i))"
  shows "receipts_kept (finish_failed i e g)"
proof -
  let ?v = "finish_failed i e g"
  have at: "sg_ops ?v = sg_ops (enter i (SteerFailed e) (release i g))" by (simp add: finish_failed_def)
  have keys: "sg_receipts ?v = (case key_of (op_of g i) of None \<Rightarrow> sg_receipts g | Some k \<Rightarrow> js_delete k (sg_receipts g))"
    using assms(2) by (simp add: finish_failed_def receipt_fails_def key_of_def enter_at split: option.splits)
  show ?thesis
  proof (rule end_kept [OF assms(1,2)])
    show "length (sg_ops ?v) = length (sg_ops g)" "sg_closed ?v = sg_closed g" by (simp_all add: finish_failed_def)
    show "key_of (op_of ?v j) = key_of (op_of g j)" "so_fingerprint (op_of ?v j) = so_fingerprint (op_of g j)" for j
      unfolding at using assms(2) by (simp_all add: key_of_entered)
    show "so_phase (op_of ?v j) = so_phase (op_of g j)" if "j \<noteq> i" for j
      unfolding at using assms(2) that by (simp add: enter_at)
    show "\<not> in_progress (so_phase (op_of ?v i))" unfolding at using assms(2) by (simp add: enter_at)
    show "distinct (js_keys (sg_receipts ?v))" using assms(1) by (simp add: keys receipts_kept_def split: option.split)
    show "sg_receipts ?v = []" if "sg_receipts g = []" using that by (simp add: keys split: option.split)
    show "\<exists>r0. js_get (sg_receipts g) k = Some r0 \<and> r = (if sr_op r0 = i then r0\<lparr>sr_settled := True\<rparr> else r0)"
      if r: "js_get (sg_receipts ?v) k = Some r" for k r
    proof -
      have g: "js_get (sg_receipts g) k = Some r" "key_of (op_of g i) \<noteq> Some k"
        using r only_key [OF assms(1)] by (auto simp: keys split: option.splits if_splits)
      then have "sr_op r \<noteq> i" using only_key [OF assms(1) g(1)] by blast
      then show ?thesis using g(1) by auto
    qed
    show "js_get (sg_receipts ?v) k = Some r" if r: "js_get (sg_receipts g) k = Some r" "\<not> sr_settled r" "sr_op r \<noteq> i" for k r
    proof -
      have "key_of (op_of g i) \<noteq> Some k" using other_key [OF assms r(1,3)] .
      then show ?thesis using r(1) by (auto simp: keys split: option.splits)
    qed
  qed
qed


lemma finish_delivered_kept:
  assumes "receipts_kept g" "i < length (sg_ops g)" "in_progress (so_phase (op_of g i))"
  shows "receipts_kept (finish_delivered i d g)"
proof -
  let ?v = "finish_delivered i d g"
  define settle where "settle k = js_set k (the (js_get (sg_receipts g) k)\<lparr>sr_settled := True\<rparr>) (sg_receipts g)" for k
  have at: "sg_ops ?v = sg_ops (enter i (SteerDelivered d) (release i g))" by (simp add: finish_delivered_def)
  have keys: "sg_receipts ?v =
      (case key_of (op_of g i) of
         Some k \<Rightarrow> if held_by g k i then evict_settled (length (settle k)) (settle k) else sg_receipts g
       | None \<Rightarrow> sg_receipts g)"
    using assms(2)
    by (auto simp: finish_delivered_def receipt_settles_def key_of_def enter_at held_by_def settle_def Let_def split: option.splits)
  have settled: "\<exists>r0. js_get (sg_receipts g) k = Some r0 \<and> r = (if sr_op r0 = i then r0\<lparr>sr_settled := True\<rparr> else r0)"
    if held: "held_by g key i" "key_of (op_of g i) = Some key" and r: "js_get (settle key) k = Some r" for key k r
  proof (cases "k = key")
    case True
    then show ?thesis using held r by (auto simp: settle_def held_by_def)
  next
    case False
    then have "js_get (sg_receipts g) k = Some r" using r by (simp add: settle_def)
    moreover have "sr_op r \<noteq> i" using only_key [OF assms(1) calculation] held(2) False by auto
    ultimately show ?thesis by auto
  qed
  show ?thesis
  proof (rule end_kept [OF assms(1,2)])
    show "length (sg_ops ?v) = length (sg_ops g)" "sg_closed ?v = sg_closed g" by (simp_all add: finish_delivered_def)
    show "key_of (op_of ?v j) = key_of (op_of g j)" "so_fingerprint (op_of ?v j) = so_fingerprint (op_of g j)" for j
      unfolding at using assms(2) by (simp_all add: key_of_entered)
    show "so_phase (op_of ?v j) = so_phase (op_of g j)" if "j \<noteq> i" for j
      unfolding at using assms(2) that by (simp add: enter_at)
    show "\<not> in_progress (so_phase (op_of ?v i))" unfolding at using assms(2) by (simp add: enter_at)
    show "distinct (js_keys (sg_receipts ?v))"
      using kept_basic(1) [OF assms(1)] by (simp add: keys settle_def evict_distinct split: option.split)
    show "sg_receipts ?v = []" if "sg_receipts g = []" using that by (simp add: keys held_by_def split: option.split)
    show "\<exists>r0. js_get (sg_receipts g) k = Some r0 \<and> r = (if sr_op r0 = i then r0\<lparr>sr_settled := True\<rparr> else r0)"
      if r: "js_get (sg_receipts ?v) k = Some r" for k r
    proof (cases "\<exists>key. key_of (op_of g i) = Some key \<and> held_by g key i")
      case True
      then obtain key where key: "key_of (op_of g i) = Some key" "held_by g key i" by blast
      then have "js_get (evict_settled (length (settle key)) (settle key)) k = Some r" using r by (simp add: keys)
      then have "js_get (settle key) k = Some r" by (rule evict_sub)
      then show ?thesis by (rule settled [OF key(2,1)])
    next
      case False
      then have g: "js_get (sg_receipts g) k = Some r" using r by (auto simp: keys split: option.splits)
      then have "sr_op r \<noteq> i" using only_key [OF assms(1) g] False by (auto simp: held_by_def)
      then show ?thesis using g by auto
    qed
    show "js_get (sg_receipts ?v) k = Some r" if r: "js_get (sg_receipts g) k = Some r" "\<not> sr_settled r" "sr_op r \<noteq> i" for k r
    proof -
      have "js_get (settle key) k = Some r" if "key_of (op_of g i) = Some key" for key
        using other_key [OF assms r(1,3)] that r(1) by (auto simp: settle_def)
      moreover have "distinct (js_keys (settle key))" for key using kept_basic(1) [OF assms(1)] by (simp add: settle_def)
      ultimately show ?thesis using r(1,2) by (simp add: keys evict_kept split: option.split)
    qed
  qed
qed


subsection \<open>Steps\<close>

lemma set_op_kept:
  assumes "receipts_kept g" "\<And>x. so_thread (f x) = so_thread x \<and> so_input (f x) = so_input x \<and> so_fingerprint (f x) = so_fingerprint x"
    and "i < length (sg_ops g) \<Longrightarrow> in_progress (so_phase (f (op_of g i))) = in_progress (so_phase (op_of g i))"
  shows "receipts_kept (set_op i f g)"
  using assms by (intro kept_same [OF assms(1)] same_calls_set_op) simp_all

lemma settle_kept: "receipts_kept g \<Longrightarrow> receipts_kept (settle_won i w g)"
  unfolding settle_won_def by (rule set_op_kept) simp_all

lemma reject_kept: "receipts_kept g \<Longrightarrow> receipts_kept (reject_op i e g)"
  unfolding reject_op_def Let_def by (auto intro!: settle_kept set_op_kept split: if_splits)

lemma enter_kept:
  "receipts_kept g \<Longrightarrow> in_progress ph \<Longrightarrow> in_progress (so_phase (op_of g i)) \<Longrightarrow> receipts_kept (enter i ph g)"
  unfolding enter_def by (rule set_op_kept) simp_all

lemma same_state_kept:
  "receipts_kept g \<Longrightarrow> sg_ops g' = sg_ops g \<Longrightarrow> sg_receipts g' = sg_receipts g \<Longrightarrow> sg_closed g' = sg_closed g \<Longrightarrow>
   receipts_kept g'"
  by (rule kept_same) (simp_all add: same_calls_def)

lemma deliver_kept:
  assumes "receipts_kept g" "in_progress (so_phase (op_of g i))" "deliver mode i g = Inr g'"
  shows "receipts_kept g'"
proof (cases "mode = NewTurn")
  case True
  define v where "v = g\<lparr>sg_pending := js_set (so_thread (op_of g i)) (i, False) (sg_pending g)\<rparr>"
  have v: "sg_ops v = sg_ops g" by (simp add: v_def)
  have g': "g' = log_action (DidCancel i (si_expectedTurnId (so_input (op_of g i))))
      (set_op i (\<lambda>x. x\<lparr>so_phase := AwaitCancel, so_won := None, so_failure := None, so_terminal := None\<rparr>) v)"
    using assms(3) True by (auto simp: deliver_def replace_turn_def Let_def v_def split: if_splits)
  have "receipts_kept v" by (rule same_state_kept [OF assms(1)]) (simp_all add: v_def)
  then have "receipts_kept (set_op i (\<lambda>x. x\<lparr>so_phase := AwaitCancel, so_won := None, so_failure := None, so_terminal := None\<rparr>) v)"
    using assms(2) by (intro set_op_kept) (simp_all add: v)
  then show ?thesis unfolding g' by (rule same_state_kept) simp_all
next
  case False
  then have g': "g' = log_action (DidInsert i (si_expectedTurnId (so_input (op_of g i)))) (enter i AwaitInsert g)"
    using assms(3) by (auto simp: deliver_def Let_def split: if_splits)
  show ?thesis unfolding g' by (rule same_state_kept [OF enter_kept [OF assms(1) _ assms(2)]]) simp_all
qed

lemma deliver_or_fail_kept:
  assumes "receipts_kept g" "i < length (sg_ops g)" "in_progress (so_phase (op_of g i))"
  shows "receipts_kept (deliver_or_fail mode i g)"
  using assms deliver_kept finish_failed_kept by (auto simp: deliver_or_fail_def split: sum.splits)

lemma continue_kept:
  assumes "receipts_kept g"
  shows "receipts_kept (steer_continue i g)"
proof (cases "i < length (sg_ops g) \<and> so_won (op_of g i) \<noteq> None")
  case False
  then show ?thesis using assms by (auto simp: steer_continue_def)
next
  case True
  then obtain w where i: "i < length (sg_ops g)" and w: "so_won (op_of g i) = Some w" by blast
  show ?thesis
  proof (cases "in_progress (so_phase (op_of g i))")
    case False
    then show ?thesis using assms w i by (cases "so_phase (op_of g i)") (simp_all add: steer_continue_def)
  next
    case progress: True
    note finish = finish_failed_kept [OF assms i progress] finish_delivered_kept [OF assms i progress]
    have release: "receipts_kept (release i g)" by (rule same_state_kept [OF assms]) simp_all
    then have "receipts_kept (deliver_or_fail mode i (release i g))" for mode
      using i progress by (intro deliver_or_fail_kept) simp_all
    then have capability: "receipts_kept (continue_capability i w g)"
      using finish assms by (auto simp: continue_capability_def split: steer_won.splits option.splits)
    have refused: "receipts_kept (log_action (DidRefuse i) g)" by (rule same_state_kept [OF assms]) simp_all
    then have "receipts_kept (finish_failed i e (log_action (DidRefuse i) g))"
      "receipts_kept (deliver_or_fail mode i (log_action (DidRefuse i) g))"
      "receipts_kept (enter i (AwaitStart True) (log_action (DidRefuse i) g))" for e mode
      using i progress by (simp_all add: finish_failed_kept deliver_or_fail_kept enter_kept)
    then have inserting: "receipts_kept (continue_insert i w g)"
      using finish assms by (auto simp: continue_insert_def Let_def split: steer_won.splits insert_answer.splits)
    have "receipts_kept (set_op i (\<lambda>x. x\<lparr>so_phase := AwaitTerminal, so_won := f x\<rparr>) g)" for f
      using progress by (intro set_op_kept [OF assms]) simp_all
    then have cancelling: "receipts_kept (continue_cancel i w g)"
      using finish assms by (auto simp: continue_cancel_def split: steer_won.splits cancel_answer.splits)
    have "receipts_kept (enter i (AwaitStart False) g)" using progress by (intro enter_kept [OF assms]) simp_all
    then have "receipts_kept (continue_terminal i w g)"
      using finish assms by (auto simp: continue_terminal_def split: steer_won.splits option.splits turn_end.splits)
    then show ?thesis using capability inserting cancelling assms i w
      by (auto simp: steer_continue_def split: steer_phase.splits)
  qed
qed

lemma start_kept:
  assumes "receipts_kept g"
  shows "receipts_kept (steer_execute i g)" "receipts_kept (start_settles i e g)"
proof -
  have "receipts_kept (log_action (DidStart i) (enter i (AwaitStarted direct) g))"
    if "so_phase (op_of g i) = AwaitStart direct" for direct
    using that by (intro same_state_kept [OF enter_kept [OF assms]]) simp_all
  then show "receipts_kept (steer_execute i g)"
    using assms finish_failed_kept [OF assms]
    by (auto simp: steer_execute_def split: steer_phase.splits option.splits)
  show "receipts_kept (start_settles i e g)"
    using assms finish_failed_kept [OF assms] finish_delivered_kept [OF assms]
    by (auto simp: start_settles_def split: steer_phase.splits option.splits)
qed

lemma close_kept: "receipts_kept (steer_close g)"
proof -
  have reject: "sg_closed (reject_op i e v) = sg_closed v" for i e v
    by (simp add: reject_op_def settle_won_def Let_def)
  have "sg_closed (fold (\<lambda>(thread, i, stage). reject_op i e) ps v) = sg_closed v" for e v and ps :: "(string \<times> nat \<times> bool) list"
    by (induction ps arbitrary: v) (simp_all add: reject split: prod.split)
  then show ?thesis by (intro keptI) (simp_all add: steer_close_def)
qed

text \<open>A new call, whose key has no receipt yet.\<close>

lemma begin_kept:
  assumes "receipts_kept g" "\<not> sg_closed g" "Option.bind (receipt_key thread x) (js_get (sg_receipts g)) = None"
  shows "receipts_kept (snd (begin_steer c thread x f g))"
proof -
  let ?n = "length (sg_ops g)"
  define g' where "g' = g\<lparr>sg_ops := sg_ops g @ [new_steer thread x f]\<rparr>"
  have n: "op_of g' ?n = new_steer thread x f" by (simp add: g'_def)
  have add: "receipts_kept (add_receipt thread x f ?n v)"
    if v: "same_calls g' v" "sg_receipts v = sg_receipts g" "sg_closed v = sg_closed g" for v
  proof -
    have len: "length (sg_ops v) = Suc ?n" using v(1) by (simp add: same_calls_def g'_def)
    have old: "key_of (op_of v j) = key_of (op_of g j)" "so_fingerprint (op_of v j) = so_fingerprint (op_of g j)"
      "in_progress (so_phase (op_of v j)) = in_progress (so_phase (op_of g j))" if "j < ?n" for j
      using v(1) that by (simp_all add: same_calls_def g'_def nth_append)
    have new: "key_of (op_of v ?n) = receipt_key thread x" "so_fingerprint (op_of v ?n) = f" "in_progress (so_phase (op_of v ?n))"
      using v(1) n by (simp_all add: same_calls_def g'_def key_of_def new_steer_def)
    let ?r = "\<lparr>sr_fingerprint = f, sr_op = ?n, sr_settled = False\<rparr>"
    have get: "js_get (sg_receipts (add_receipt thread x f ?n v)) k =
        (if receipt_key thread x = Some k then Some ?r else js_get (sg_receipts g) k)" for k
      using v(2) by (auto simp: add_receipt_def split: option.splits)
    show ?thesis
    proof (rule keptI)
      show "distinct (js_keys (sg_receipts (add_receipt thread x f ?n v)))"
        using kept_basic(1) [OF assms(1)] v(2) by (simp add: add_receipt_def split: option.split)
      show "sg_closed (add_receipt thread x f ?n v) \<Longrightarrow> sg_receipts (add_receipt thread x f ?n v) = []"
        using assms(2) v(3) by simp
      show "receipt_for (add_receipt thread x f ?n v) k r" if "js_get (sg_receipts (add_receipt thread x f ?n v)) k = Some r" for k r
      proof (cases "receipt_key thread x = Some k")
        case True
        then have "r = ?r" using that by (simp add: get)
        then show ?thesis using True new len by (simp add: receipt_for_def)
      next
        case False
        then have "receipt_for g k r" using that kept_entry [OF assms(1)] by (simp add: get)
        then show ?thesis using old len by (simp add: receipt_for_def)
      qed
      show "held_by (add_receipt thread x f ?n v) k j"
        if "j < length (sg_ops (add_receipt thread x f ?n v))" "in_progress (so_phase (op_of (add_receipt thread x f ?n v) j))"
          "key_of (op_of (add_receipt thread x f ?n v) j) = Some k" for j k
      proof (cases "j = ?n")
        case True
        then show ?thesis using that new by (simp add: held_by_def get)
      next
        case False
        then have j: "j < ?n" using that(1) len by simp
        then have held: "held_by g k j" using kept_holder [OF assms(1,2) j] that(2,3) old by simp
        then have "receipt_key thread x \<noteq> Some k" using assms(3) by (auto simp: held_by_def)
        then show ?thesis using held unfolding held_by_def get by simp
      qed
    qed
  qed
  have "same_calls g' v" if "deliver mode ?n g' = Inr v" for mode v
  proof (cases "mode = NewTurn")
    case True
    then have "v = replace_turn ?n (si_expectedTurnId (so_input (op_of g' ?n))) g'"
      using that by (auto simp: deliver_def Let_def split: if_splits)
    then show ?thesis by (auto simp: same_calls_def replace_turn_at g'_def key_of_def nth_append new_steer_def)
  next
    case False
    then have "v = log_action (DidInsert ?n (si_expectedTurnId (so_input (op_of g' ?n)))) (enter ?n AwaitInsert g')"
      using that by (auto simp: deliver_def Let_def split: if_splits)
    then show ?thesis by (auto simp: same_calls_def enter_at g'_def key_of_def nth_append new_steer_def)
  qed
  moreover have "sg_receipts v = sg_receipts g \<and> sg_closed v = sg_closed g" if "deliver mode ?n g' = Inr v" for mode v
    using that by (auto simp: deliver_def Let_def g'_def split: if_splits)
  ultimately have "receipts_kept (add_receipt thread x f ?n v)" if "deliver mode ?n g' = Inr v" for mode v
    using add that by blast
  moreover have "receipts_kept (add_receipt thread x f ?n (g'\<lparr>sg_pending := m\<rparr>))" for m
    by (rule add) (simp_all add: same_calls_def g'_def)
  ultimately show ?thesis
    using assms(1) by (auto simp: begin_steer_def Let_def g'_def [symmetric] split: sum.splits option.splits)
qed

lemma step_kept:
  assumes "receipts_kept g"
  shows "receipts_kept (steer_step c g e)"
proof (cases e)
  case (SteerRuns h params)
  then show ?thesis using assms begin_kept by (auto simp: steer_run_def Let_def split: sum.splits option.splits)
next
  case (ThreadChanges h s)
  then show ?thesis by (auto intro!: same_state_kept [OF assms])
next
  case (TurnEnds h turn outcome)
  have "receipts_kept (set_op i (\<lambda>x. if so_terminal x = None then x\<lparr>so_terminal := Some outcome\<rparr> else x) g)" for i
    by (rule set_op_kept [OF assms]) simp_all
  then show ?thesis using TurnEnds assms
    by (auto simp: steer_terminal_def Let_def settle_kept split: option.splits bool.splits)
qed (use assms in \<open>auto simp: capability_answers_def insert_answers_def cancel_answers_def settle_kept
      steer_interrupt_def steer_fault_def reject_kept steer_timeout_def close_kept continue_kept start_kept
      split: option.splits\<close>)

end
