(* ===== verification/SteeringProps.thy ===== *)
theory SteeringProps
  imports SteeringLog SteeringReceipts JsNumbers
begin

text \<open>
  Steering delivers an input once, changes the direction of a Thread once at a time, and starts a replacement
  only when the Turn before it has ended.
\<close>

definition steering_ok :: "steering \<Rightarrow> bool" where
  "steering_ok g = (reserved_ok g \<and> calls_ok g \<and> receipts_kept g)"

interpretation steering_machine: machine "steer_step c" steering_ok
  by unfold_locales (simp add: steering_ok_def step_reserved step_calls step_kept)

definition steering_run :: "steer_config \<Rightarrow> (string \<Rightarrow> steer_thread) \<Rightarrow> steer_event list \<Rightarrow> steering" where
  "steering_run c threads es = foldl (steer_step c) (new_steering threads) es"

lemma new_steering_ok: "steering_ok (new_steering threads)"
  by (simp add: steering_ok_def new_steering_def reserved_but_def calls_ok_def tally_def receipts_kept_def)

lemma steering_run_ok: "steering_ok (steering_run c threads es)"
  unfolding steering_run_def by (rule steering_machine.run_inv [OF new_steering_ok])

text \<open>The Threads that are changing direction, one entry for every call that is doing it.\<close>

definition directing :: "steering \<Rightarrow> string list" where
  "directing g = List.map (\<lambda>i. so_thread (op_of g i)) (filter (\<lambda>i. holds g i \<noteq> None) [0..<length (sg_ops g)])"

text \<open>
  C20. Whatever calls, answers, ends of Turns, interruptions and timeouts come in whatever order: a call starts a
  Turn or inserts its input, and at most one of them takes effect, since an insertion is followed by a start
  only after it was refused; and no Thread is changing direction twice at once.
\<close>

theorem steer_delivered_once:
  "tally (started i) (steering_run c threads es) + tally (inserted i) (steering_run c threads es)
     \<le> 1 + tally (refused i) (steering_run c threads es) \<and>
   tally (refused i) (steering_run c threads es) \<le> tally (inserted i) (steering_run c threads es) \<and>
   tally (inserted i) (steering_run c threads es) \<le> 1 \<and>
   distinct (directing (steering_run c threads es))"
proof -
  define g where "g = steering_run c threads es"
  have ok: "reserved_ok g" "calls_ok g" using steering_run_ok by (simp_all add: g_def steering_ok_def)
  have "tally (started i) g + tally (inserted i) g \<le> 1 + tally (refused i) g \<and> tally (refused i) g \<le> tally (inserted i) g \<and>
    tally (inserted i) g \<le> 1"
    using ok(2) by (cases "i < length (sg_ops g)") (auto simp: calls_ok_def call_ok_def phase_tally_def)
  moreover
  have one: "i = j" if "i < length (sg_ops g)" "j < length (sg_ops g)" "holds g i \<noteq> None" "holds g j \<noteq> None"
    "so_thread (op_of g i) = so_thread (op_of g j)" for i j
  proof -
    from that(3,4) obtain st st' where "holds g i = Some st" "holds g j = Some st'" by auto
    then have "js_get (sg_pending g) (so_thread (op_of g i)) = Some (i, st)"
      "js_get (sg_pending g) (so_thread (op_of g j)) = Some (j, st')"
      using reserved_holder [OF ok(1) that(1), of st] reserved_holder [OF ok(1) that(2), of st'] by simp_all
    then show ?thesis using that(5) by (metis option.inject prod.inject)
  qed
  have "inj_on (\<lambda>i. so_thread (op_of g i)) (set (filter (\<lambda>i. holds g i \<noteq> None) [0..<length (sg_ops g)]))"
  proof (rule inj_onI)
    fix i j
    assume a: "i \<in> set (filter (\<lambda>i. holds g i \<noteq> None) [0..<length (sg_ops g)])"
      "j \<in> set (filter (\<lambda>i. holds g i \<noteq> None) [0..<length (sg_ops g)])" and same: "so_thread (op_of g i) = so_thread (op_of g j)"
    then have "i < length (sg_ops g)" "j < length (sg_ops g)" "holds g i \<noteq> None" "holds g j \<noteq> None" by simp_all
    then show "i = j" using same by (rule one)
  qed
  then have "distinct (directing g)" unfolding directing_def distinct_map by simp
  ultimately show ?thesis unfolding g_def by blast
qed

subsection \<open>Starting\<close>

definition start_allowed :: "steering \<Rightarrow> steer_action \<Rightarrow> bool" where
  "start_allowed g a =
     (case a of
        DidStart i \<Rightarrow>
          \<not> sg_closed g \<and>
          (so_phase (op_of g i) = AwaitStart True \<or>
           so_phase (op_of g i) = AwaitStart False \<and> so_failure (op_of g i) = None \<and>
           (so_terminal (op_of g i) = Some EndSucceeded \<or> so_terminal (op_of g i) = Some EndCancelled) \<and>
           js_get (sg_pending g) (so_thread (op_of g i)) = Some (i, False))
      | _ \<Rightarrow> True)"


text \<open>All other steps may cancel, insert and refuse, but start nothing.\<close>

definition starts_nothing :: "steering \<Rightarrow> steering \<Rightarrow> bool" where
  "starts_nothing g g' = (\<exists>as. sg_log g' = sg_log g @ as \<and> list_all (\<lambda>a. \<forall>i. a \<noteq> DidStart i) as)"

lemma starts_nothing_same: "sg_log g' = sg_log g \<Longrightarrow> starts_nothing g g'"
  by (simp add: starts_nothing_def)

lemma starts_nothing_one: "sg_log g' = sg_log g @ [a] \<Longrightarrow> (\<And>i. a \<noteq> DidStart i) \<Longrightarrow> starts_nothing g g'"
  by (simp add: starts_nothing_def)

lemma starts_nothing_trans: "starts_nothing g g' \<Longrightarrow> starts_nothing g' g'' \<Longrightarrow> starts_nothing g g''"
  unfolding starts_nothing_def by fastforce

lemma finish_log [simp]: "sg_log (finish_failed i e g) = sg_log g" "sg_log (finish_delivered i d g) = sg_log g"
  by (simp_all add: finish_failed_def finish_delivered_def)

lemma settle_log [simp]: "sg_log (settle_won i w g) = sg_log g"
  by (simp add: settle_won_def)

lemma reject_log [simp]: "sg_log (reject_op i e g) = sg_log g"
  by (simp add: reject_op_def Let_def)

lemma deliver_starts_nothing: "deliver mode i g = Inr g' \<Longrightarrow> starts_nothing g g'"
  by (auto simp: deliver_def Let_def intro!: starts_nothing_one split: if_splits)

lemma deliver_or_fail_starts_nothing: "starts_nothing g (deliver_or_fail mode i g)"
  by (auto simp: deliver_or_fail_def intro: starts_nothing_same deliver_starts_nothing split: sum.split)

lemma continue_starts_nothing: "starts_nothing g (steer_continue i g)"
proof -
  have "starts_nothing g (continue_capability i w g)" for w
    using starts_nothing_trans [OF starts_nothing_same deliver_or_fail_starts_nothing, of "release i g" g]
    by (auto simp: continue_capability_def intro: starts_nothing_same split: steer_won.split option.split)
  moreover have "starts_nothing g (continue_insert i w g)" for w
  proof -
    have "starts_nothing g (log_action (DidRefuse i) g)" by (rule starts_nothing_one [where a = "DidRefuse i"]) simp_all
    note refuse = starts_nothing_trans [OF this]
    have "starts_nothing g (deliver_or_fail NewTurn i (log_action (DidRefuse i) g))"
      "starts_nothing g (finish_failed i e (log_action (DidRefuse i) g))"
      "starts_nothing g (enter i (AwaitStart True) (log_action (DidRefuse i) g))" for e
      by (rule refuse, simp_all add: deliver_or_fail_starts_nothing starts_nothing_same)+
    then show ?thesis
      by (auto simp: continue_insert_def Let_def intro: starts_nothing_same split: steer_won.split insert_answer.split)
  qed
  moreover have "starts_nothing g (continue_cancel i w g)" for w
    by (auto simp: continue_cancel_def intro!: starts_nothing_same split: steer_won.split cancel_answer.split)
  moreover have "starts_nothing g (continue_terminal i w g)" for w
    by (auto simp: continue_terminal_def intro!: starts_nothing_same split: steer_won.split option.split turn_end.split)
  ultimately show ?thesis
    by (auto simp: steer_continue_def intro: starts_nothing_same split: option.split steer_phase.split)
qed

lemma begin_starts_nothing: "starts_nothing g (snd (begin_steer c thread x f g))"
proof -
  define g' where "g' = g\<lparr>sg_ops := sg_ops g @ [new_steer thread x f]\<rparr>"
  have "starts_nothing g (add_receipt thread x f n g2)" if "deliver mode n g' = Inr g2" for mode n g2
    using deliver_starts_nothing [OF that] by (simp add: starts_nothing_def g'_def)
  then show ?thesis
    by (auto simp: begin_steer_def Let_def g'_def [symmetric] intro: starts_nothing_same split: sum.split option.split)
       (simp_all add: starts_nothing_def g'_def)
qed

lemma close_log: "sg_log (steer_close g) = sg_log g"
proof -
  have "sg_log (fold (\<lambda>(thread, i, stage). reject_op i e) ps v) = sg_log v" for e v and ps :: "(string \<times> nat \<times> bool) list"
    by (induction ps arbitrary: v) (simp_all split: prod.split)
  then show ?thesis by (simp add: steer_close_def)
qed

lemma other_steps_start_nothing:
  assumes "\<forall>i. e \<noteq> StartExecutes i"
  shows "starts_nothing g (steer_step c g e)"
proof (cases e)
  case (SteerRuns h params)
  then show ?thesis using begin_starts_nothing
    by (auto simp: steer_run_def Let_def intro: starts_nothing_same split: sum.split option.split)
next
  case (StartSettles i err)
  then show ?thesis by (auto simp: start_settles_def intro!: starts_nothing_same split: steer_phase.split option.split)
next
  case (StartExecutes i)
  then show ?thesis using assms by simp
qed (auto simp: capability_answers_def insert_answers_def cancel_answers_def steer_terminal_def steer_interrupt_def
    steer_fault_def steer_timeout_def close_log continue_starts_nothing Let_def intro!: starts_nothing_same
    split: option.split bool.split)

text \<open>
  C21. A Turn is started only while the connection is open, and for a replacement only when the Turn it replaces
  was seen to end without failing, no timeout, interruption or fault has come since, and the Thread is still
  reserved by this call.
\<close>

theorem steer_start_allowed:
  "list_all (start_allowed (steering_run c threads es))
     (drop (length (sg_log (steering_run c threads es))) (sg_log (steering_run c threads (es @ [e]))))"
proof -
  define g where "g = steering_run c threads es"
  have step: "steering_run c threads (es @ [e]) = steer_step c g e" by (simp add: steering_run_def g_def)
  have ok: "reserved_ok g" "calls_ok g" using steering_run_ok by (simp_all add: g_def steering_ok_def)
  have "list_all (start_allowed g) (drop (length (sg_log g)) (sg_log (steer_step c g e)))"
  proof (cases "\<exists>i. e = StartExecutes i")
    case False
    then obtain as where as: "sg_log (steer_step c g e) = sg_log g @ as" "list_all (\<lambda>a. \<forall>i. a \<noteq> DidStart i) as"
      using other_steps_start_nothing [of e g c] unfolding starts_nothing_def by blast
    then show ?thesis by (auto simp: list_all_iff start_allowed_def split: steer_action.split)
  next
    case True
    then obtain i where e: "e = StartExecutes i" by blast
    have "start_allowed g (DidStart i)"
      if i: "i < length (sg_ops g)" "so_phase (op_of g i) = AwaitStart direct" "assert_active i direct g = None" for direct
    proof -
      have ended: "ended_ok (op_of g i)" using calls_okD [OF ok(2) i(1)] by (simp add: call_ok_def)
      have held: "js_get (sg_pending g) (so_thread (op_of g i)) = Some (i, False)" if "\<not> direct"
        using reserved_holder [OF ok(1) i(1), of False] i(2) that by (simp add: holds_def)
      show ?thesis
        using i ended held
        by (cases direct) (auto simp: start_allowed_def assert_active_def ended_ok_def ended_fields_def split: if_splits)
    qed
    then show ?thesis
      by (auto simp: e steer_execute_def split: steer_phase.split option.split)
  qed
  then show ?thesis unfolding step by (simp add: g_def)
qed


subsection \<open>Retries\<close>

text \<open>
  While a call with a message id is in progress and the connection is open, the same request again joins it:
  it gets the result of that call, and nothing else happens.
\<close>

theorem steer_retry_joins:
  assumes "i < length (sg_ops (steering_run c threads es))" "in_progress (so_phase (op_of (steering_run c threads es) i))"
    and "\<not> sg_closed (steering_run c threads es)" "parseInput c params = Inr (so_input (op_of (steering_run c threads es) i))"
    and "truthy (si_clientUserMessageId (so_input (op_of (steering_run c threads es) i))) \<noteq> None"
    and "steer_fingerprint (so_input (op_of (steering_run c threads es) i)) (map_of params ''input'') =
      so_fingerprint (op_of (steering_run c threads es) i)"
  shows "steer_run c (so_thread (op_of (steering_run c threads es) i)) params (steering_run c threads es) =
    (SteerPromise i, steering_run c threads es)"
proof -
  define g where "g = steering_run c threads es"
  have kept: "receipts_kept g" using steering_run_ok by (simp add: g_def steering_ok_def)
  obtain k where k: "receipt_key (so_thread (op_of g i)) (so_input (op_of g i)) = Some k"
    using assms(5) unfolding g_def [symmetric] receipt_key_def by auto
  then have "held_by g k i"
    using kept_holder [OF kept, of i k] assms(1,2,3) unfolding g_def [symmetric] key_of_def by simp
  then obtain r where r: "js_get (sg_receipts g) k = Some r" "sr_op r = i" unfolding held_by_def by blast
  then have "sr_fingerprint r = so_fingerprint (op_of g i)" using kept_entry [OF kept r(1)] by (simp add: receipt_for_def)
  then show ?thesis
    using r k assms(3,4,6) unfolding g_def [symmetric] by (simp add: steer_run_def)
qed

subsection \<open>Coming to an end\<close>

lemma finish_failed_phase: "i < length (sg_ops g) \<Longrightarrow> so_phase (op_of (finish_failed i e g) i) = SteerFailed e"
  by (simp add: finish_failed_def enter_at)

lemma finish_failed_free:
  "js_get (sg_pending g) (so_thread (op_of g i)) = Some (i, st) \<Longrightarrow>
   js_get (sg_pending (finish_failed i e g)) (so_thread (op_of g i)) = None"
  by (simp add: finish_failed_def release_def)

text \<open>
  C22. A replacement that waits for its cancel or for the end of the Turn does not wait for ever: when its timer
  fires it ends with an error, and its Thread may be steered again.
\<close>

theorem steer_timeout_ends:
  assumes "in_phase (steering_run c threads es) i AwaitCancel \<or> in_phase (steering_run c threads es) i AwaitTerminal"
  shows "\<exists>err. so_phase (op_of (steering_run c threads (es @ [SteerTimesOut i, SteerContinues i, SteerContinues i])) i) = SteerFailed err \<and>
    \<not> hasPending (steering_run c threads (es @ [SteerTimesOut i, SteerContinues i, SteerContinues i]))
        (Some (so_thread (op_of (steering_run c threads es) i)))"
proof -
  define g where "g = steering_run c threads es"
  define h where "h = so_thread (op_of g i)"
  have i: "i < length (sg_ops g)" using assms by (auto simp: g_def in_phase_def)
  have pending: "js_get (sg_pending g) h = Some (i, False)"
    using steering_run_ok [of c threads es] reserved_holder [of None g i False] i assms
    by (auto simp: g_def [symmetric] steering_ok_def in_phase_def holds_def h_def)
  define ends where "ends v = (\<exists>err. so_phase (op_of v i) = SteerFailed err \<and> js_get (sg_pending v) h = None)" for v
  have fail: "ends (finish_failed i e v)"
    if "i < length (sg_ops v)" "so_thread (op_of v i) = h" "js_get (sg_pending v) h = Some (i, False)" for v e
    using finish_failed_phase [OF that(1)] finish_failed_free [of v i False e] that(2,3) by (auto simp: ends_def)
  have stay: "ends (steer_continue i v)" if "ends v" for v
    using that by (auto simp: ends_def steer_continue_def split: option.split)
  have last_step: "ends (steer_continue i v)"
    if "i < length (sg_ops v)" "so_thread (op_of v i) = h" "js_get (sg_pending v) h = Some (i, False)"
      "so_phase (op_of v i) = AwaitTerminal" "so_failure (op_of v i) = Some e"
      "so_won (op_of v i) \<noteq> None" "ended_ok (op_of v i)" for v e
    using that fail [OF that(1,2,3)]
    by (auto simp: steer_continue_def continue_terminal_def assert_active_def ended_ok_def ended_fields_def
        split: steer_won.splits)
  have two: "ends (steer_continue i (steer_continue i v))"
    if v: "i < length (sg_ops v)" "so_thread (op_of v i) = h" "js_get (sg_pending v) h = Some (i, False)"
      "so_failure (op_of v i) = Some e" "so_won (op_of v i) = Some w" "calls_ok v" "so_phase (op_of v i) = AwaitCancel" for v e w
  proof (cases "ends (steer_continue i v)")
    case True
    then show ?thesis by (rule stay)
  next
    case False
    define k where "k = (\<lambda>x. x\<lparr>so_phase := AwaitTerminal, so_won := (case so_terminal x of
        Some outcome \<Rightarrow> Some (WonTerminal outcome) | None \<Rightarrow> map_option WonFailure (so_failure x))\<rparr> :: steer_op)"
    have "ended_ok (op_of v i)" using calls_okD [OF v(6,1)] by (simp add: call_ok_def)
    then have step: "steer_continue i v = set_op i k v"
      using False v(1,5,7) fail [OF v(1,2,3)]
      by (auto simp: steer_continue_def continue_cancel_def k_def ended_ok_def ended_fields_def
          split: steer_won.splits cancel_answer.splits)
    have "calls_ok (set_op i k v)" using continue_calls [OF v(6), of i] by (simp add: step)
    then have "ended_ok (op_of (set_op i k v) i)" using calls_okD [of "set_op i k v" i] v(1) by (simp add: call_ok_def)
    then show ?thesis
      unfolding step using v(1,2,3,4) by (intro last_step) (simp_all add: set_op_at k_def split: option.split)
  qed
  define v where "v = steer_timeout i g"
  have calls: "calls_ok v"
    using steering_run_ok [of c threads "es @ [SteerTimesOut i]"] by (simp add: steering_run_def g_def v_def steering_ok_def)
  have phase: "so_phase (op_of g i) = AwaitCancel \<or> so_phase (op_of g i) = AwaitTerminal"
    using assms by (auto simp: g_def in_phase_def)
  obtain e where v_reject: "v = reject_op i e g"
    using assms by (auto simp: v_def steer_timeout_def g_def)
  have op: "i < length (sg_ops v)" "so_thread (op_of v i) = h" "js_get (sg_pending v) h = Some (i, False)"
    "so_phase (op_of v i) = so_phase (op_of g i)" "so_failure (op_of v i) \<noteq> None" "so_won (op_of v i) \<noteq> None"
    using i pending phase
    by (auto simp: v_reject reject_op_def racing_def Let_def settle_won_def set_op_at h_def)
  then obtain x w where x: "so_failure (op_of v i) = Some x" "so_won (op_of v i) = Some w" by blast
  have ended: "ended_ok (op_of v i)" using calls_okD [OF calls op(1)] by (simp add: call_ok_def)
  have "ends (steer_continue i (steer_continue i v))"
  proof (cases "so_phase (op_of g i) = AwaitCancel")
    case True
    then show ?thesis using two [OF op(1,2,3) x calls] op(4) by simp
  next
    case False
    then have "so_phase (op_of v i) = AwaitTerminal" using phase op(4) by simp
    then show ?thesis using stay [OF last_step [OF op(1,2,3) _ x(1) op(6) ended]] by simp
  qed
  then show ?thesis
    by (simp add: ends_def steering_run_def g_def [unfolded steering_run_def] h_def v_def hasPending_def js_has_def)
qed

definition config_ex :: steer_config where
  "config_ex =
     \<lparr>sc_inputText = (\<lambda>raw. Inr ''go on''), sc_isCommand = (\<lambda>thread text. False), sc_readsCapabilities = (\<lambda>thread. False),
      sc_steer = (\<lambda>thread. False)\<rparr>"

definition threads_ex :: "string \<Rightarrow> steer_thread" where
  "threads_ex = (\<lambda>thread. \<lparr>sh_running = True, sh_activeTurnId = Some ''u1'', sh_persistenceError = False\<rparr>)"

definition params_ex :: "(string \<times> json) list" where
  "params_ex = [(''expectedTurnId'', JStr ''u1''), (''clientUserMessageId'', JStr ''m1'')]"

lemma steer_timeout_ends_witness:
  "\<exists>err. so_phase (op_of (steering_run config_ex threads_ex
        ([SteerRuns ''t'' params_ex] @ [SteerTimesOut 0, SteerContinues 0, SteerContinues 0])) 0) = SteerFailed err \<and>
    \<not> hasPending (steering_run config_ex threads_ex
        ([SteerRuns ''t'' params_ex] @ [SteerTimesOut 0, SteerContinues 0, SteerContinues 0]))
      (Some (so_thread (op_of (steering_run config_ex threads_ex [SteerRuns ''t'' params_ex]) 0)))"
proof (rule steer_timeout_ends)
  show "in_phase (steering_run config_ex threads_ex [SteerRuns ''t'' params_ex]) 0 AwaitCancel \<or>
      in_phase (steering_run config_ex threads_ex [SteerRuns ''t'' params_ex]) 0 AwaitTerminal"
    by code_simp
qed

end
