(* ===== verification/Spec2Isabelle.thy ===== *)
theory Spec2Isabelle
  imports StoreInit ThreadQueueFlows ThreadFork ThreadSectionMoves ThreadAggregatorProps CodexApproval CodexQuestion Jsonl
    IdleReleaseProps ClientHelloProps SessionLogProps DelegationWatchProps ThreadRepositoryProps DelegationRegistryProps
    OfficialBrokerProps DesktopQueueProps CreateRouteProps ProcessLockProps CommandReceiptsProps SteeringProps
begin

text \<open>
  codexhost runs other Harnesses (Claude Code, Pi and more) inside Codex Desktop. A Host process sits
  between Desktop and the official app-server: requests about official Threads are passed on, requests
  about External Threads are served from the Host's own records. This development models that core, the
  TypeScript packages \<open>mapping-store\<close>, \<open>protocol-core\<close> and the External Thread files of
  \<open>host-runtime\<close>, function by function and in the names of the source.

  \<^bold>\<open>Conventions.\<close> A thrown error is \<open>Inl\<close>, a returned value \<open>Inr\<close>. A \<open>Map\<close> is an association list in
  insertion order. A string is a list of code units of one byte. JSON is the datatype \<open>json\<close>; a \<open>zod\<close>
  schema is a predicate or a parser with an option. Code between two awaits is one function; where
  several operations interleave at awaits, they are the steps of a machine. File operations are effects
  over a disk with a script of failures, requests to the official app-server are effects that log every
  request. What is not in the repository is an argument: the URL parser, the clock, random identifiers,
  hashes of cursors, \<open>Date.parse\<close>, the ellipsis, the answers of the official server.

  \<^bold>\<open>Prelude and text.\<close> \<open>Prelude\<close>: containers, strings, errors, the locale \<open>machine\<close>. \<open>JsNumbers\<close>:
  decimal numbers, the locales \<open>offset_pager\<close> (pages with an offset cursor, interpreted by the queue and
  the section lists) and \<open>bounded_window\<close> (maps that evict their oldest entry, interpreted by receipts
  and steers). \<open>JsonText\<close>, \<open>JsonRoundTrip\<close>: \<open>JSON.stringify\<close>, \<open>JSON.parse\<close>, UTF-8 and base64url, with
  the theorem that printed values are read back.

  \<^bold>\<open>Mapping store\<close> (\<open>mapping-store/src/records.ts\<close>, \<open>mapping-store.ts\<close>, \<open>section-placements.ts\<close>,
  \<open>superseded-sessions.ts\<close>). \<open>Records\<close> and \<open>Metadata\<close>: persisted records, Desktop metadata, removal of
  credentials. \<open>StoreState\<close>: memory, indexes, disk, effects. \<open>MappingStore\<close>: every operation.
  \<open>StoreInvariant\<close>, \<open>StoreEffects\<close>, \<open>StorePreserve\<close>, \<open>StoreMachine\<close>, \<open>StoreProperties\<close>: the identity
  invariant (no create request, native Session, Host Turn or native Turn has two owners; every index is
  exact), its preservation whatever system call fails, and what a record may change.
  \<open>TurnMappings\<close>: merging and reconciling Turn mappings. \<open>StorePresentation\<close>: placements whose anchor
  was removed. \<open>StoreStartup\<close>, \<open>StoreRecovery\<close>, \<open>StoreDisk\<close>, \<open>StoreCrash\<close>, \<open>StoreRestart\<close>, \<open>StoreInit\<close>:
  \<open>initialize\<close>, agreement of memory and disk under one failing call, and the refinement that a new
  process reads back what the old one had acknowledged. \<open>ProcessLock\<close>, \<open>ProcessLockProps\<close>: the lock directory,
  system call by system call, over processes that start and die; one owner as long as acquisitions do not
  overlap, a left-over lock is taken over, and two that overlap can both end as owners.

  \<^bold>\<open>External Thread queue\<close> (\<open>host-runtime/src/external-thread-queue.ts\<close>). \<open>ThreadQueue\<close> models the class
  with its heap of shared submissions, receipts (256) and steers (128); \<open>ThreadQueueProps\<close> and
  \<open>ThreadQueueFlows\<close> show unique ids, one delivery per retry, permutation, pages, steering there and back.

  \<^bold>\<open>Thread requests\<close> (\<open>protocol-core/src/thread-management.ts\<close>, \<open>thread-fork.ts\<close>). \<open>ThreadManagement\<close>,
  \<open>ThreadFork\<close>: decoders and Host cursors; \<open>ThreadManagementProps\<close>: cursors continue their list, decoded
  requests are in bounds.

  \<^bold>\<open>Thread lists\<close> (\<open>external-thread-sections.ts\<close>, \<open>external-thread-list.ts\<close>,
  \<open>thread-list-aggregator.ts\<close>). \<open>ThreadSections\<close>, \<open>ThreadSectionsProps\<close>, \<open>ThreadSectionMoves\<close>: merging
  External rows into official sections and moving them. \<open>ThreadList\<close>, \<open>ThreadListProps\<close>: External rows,
  Session trees, pages. \<open>ThreadAggregator\<close>, \<open>ThreadAggregatorProps\<close>: the merge with the official list.
  Both walks over official pages are bounded by 256 requests as in the code; they are total functions
  whose measure is the number of requests left.

  \<^bold>\<open>Interaction with Desktop\<close> (\<open>codex-approval.ts\<close>, \<open>codex-question.ts\<close>, \<open>jsonl.ts\<close>). \<open>CodexApproval\<close>,
  \<open>CodexQuestion\<close>: requests out, answers in, with the guarantee that only declared answers get through.
  \<open>Jsonl\<close>: framing, independent of how the bytes arrive.

  \<^bold>\<open>Idle release\<close> (\<open>external-thread-idle-release.ts\<close>). \<open>IdleRelease\<close>, \<open>IdleReleaseProps\<close>: a step relation
  over tasks, checks and closing Sessions; no drained operation overlaps a close, a failed close is
  final, an idle Session can be released.

  \<^bold>\<open>External Thread repository\<close> (\<open>external-thread-repository.ts\<close>). \<open>ThreadRepository\<close>: the client of the
  store that binds native Turns to Host Turns. \<open>ThreadRepositoryProps\<close>: what it lets through the store
  accepts (rollbacks, alignment with native history), and both ways to find a Session tree agree.

  \<^bold>\<open>Delegation watches\<close> (\<open>delegation-watch.ts\<close>). \<open>DelegationWatch\<close>: the watch table and a tick as a
  machine that is suspended at every read and every delivery, so that other calls run in between;
  \<open>DelegationWatchProps\<close>: one message per watch unless the first was refused before a Turn, the bound of 50
  undeliverable watches, and the end of every tick whose reads and deliveries are answered.

  \<^bold>\<open>Registry and merged list\<close> (\<open>delegation-control-registry.ts\<close>, \<open>delegation-thread-list-merge.ts\<close>).
  \<open>MergedList\<close>: one-row pages of several sessions merged by time, with a cursor of all positions;
  \<open>DelegationRegistry\<close>: sessions come and go, and every request is routed. \<open>MergedListProps\<close>: bounds for any
  answers. \<open>MergedListWalk\<close>: sessions that keep their lists are merged completely and in order.
  \<open>DelegationRegistryProps\<close>: a cursor does not outlive the sessions it was made for. The bound of 256 requests
  leaves room for 100 rows with an empty page before each.

  \<^bold>\<open>Session journal\<close> (\<open>session-runtime/src/session-log.ts\<close>). \<open>SessionLog\<close>, \<open>SessionLogProps\<close>: every
  method of the journal with its followers, attempts and files. Events are numbered without gaps, a
  follower that resumes gets exactly what it missed, pages walked backwards give the whole journal, and an
  orphaned Turn is closed once. The projection of events into messages is left out.

  \<^bold>\<open>Model routing\<close> (\<open>protocol-core/src/model-routing.ts\<close>, \<open>shared-contracts/src/harness-route.ts\<close>).
  \<open>ModelRouting\<close>: the seven transport formats, the schemas of their parts; \<open>CreateRoute\<close>: plugin routes and the
  routing of create requests. \<open>ModelRoutingProps\<close>: a locale of formats, interpreted by all seven, with their
  round trips. \<open>CreateRouteProps\<close>: every create request belongs to one Harness, plugin routes are bounded (1998
  code units) and canonical.

  \<^bold>\<open>Requests of the Host\<close> (\<open>host-runtime/src/official-request-broker.ts\<close>, \<open>desktop-request-queue.ts\<close>).
  \<open>OfficialBroker\<close>, \<open>DesktopQueue\<close>: machines over timers, answers and the moments at which promises settle.
  \<open>OfficialBrokerProps\<close>: every promise settles once; \<open>DesktopQueueProps\<close>: requests of a Thread run one after
  another and a drain comes to an end. \<open>CommandReceipts\<close>, \<open>CommandReceiptsProps\<close>
  (\<open>client-command-receipts.ts\<close>): one call in flight per message id.

  \<^bold>\<open>Steering\<close> (\<open>external-turn-steering.ts\<close>). \<open>ExternalSteering\<close>: a call is suspended at each promise and each
  race, whose first settlement it keeps. \<open>SteeringReserved\<close>, \<open>SteeringLog\<close>, \<open>SteeringReceipts\<close>: the invariants
  of the reservations, of what was cancelled, inserted and started, and of the receipts. \<open>SteeringProps\<close>: an
  input takes effect at most once, a replacement starts only after the Turn before it ended, and a timeout frees
  the Thread.

  \<^bold>\<open>Remote relay\<close> (\<open>remote-relay/src/client-hello.ts\<close>). \<open>ClientHello\<close>, \<open>ClientHelloProps\<close>: the parser of a
  TLS ClientHello, independent of how the bytes are cut into chunks and records, with the round trip of a
  written hello. What the relay forwards afterwards is not modelled.

  \<^bold>\<open>Not modelled.\<close> The insertion of steered input into a Session; the dispatcher
  \<open>app-server-host.ts\<close> and everything that is sockets, timers and child processes around the components
  above; the adapters, which bind third-party programs; the renderer extension, web server, web client
  and console; the native crates. Floating point numbers keep their text. Code units above one byte
  count as malformed input.
\<close>

end
